(* ===== verification/Prelude.thy ===== *)
theory Prelude
  imports Main "HOL-Library.List_Lexorder" "HOL-Library.Char_ord"
begin

text \<open>
  The vocabulary every component theory shares.

  \<^item> \<open>uuid\<close>, \<open>time\<close>: identifiers and instants. An identifier is the number of its
    UUID (0 to 2^128 - 1); an instant is a number of microseconds.
  \<^item> \<open>json\<close>: the values Python's \<open>json\<close> module produces (\<open>dict\<close>, \<open>list\<close>, \<open>str\<close>,
    \<open>int\<close>, \<open>bool\<close>, \<open>None\<close>; floating-point numbers do not occur in the modelled code).
    A \<open>dict\<close> is an association list in insertion order, and \<open>py_eq\<close> is Python's \<open>==\<close>,
    which ignores that order.
  \<^item> \<open>err\<close>: the exceptions of \<open>common/errors.py\<close> plus the built-in ones that escape the
    modelled code.
  \<^item> \<open>op\<close>: a computation over a state that may raise. What was written before a raise is
    still in the state, as it is in a SQLAlchemy session; \<open>transaction\<close> is what a
    \<open>session.begin()\<close> block does with it, and \<open>preserves\<close> is the invariant rule.
\<close>

section \<open>Identifiers, time and named collections\<close>

type_synonym uuid = int
type_synonym time = int

named_theorems op_simps \<open>unfolding rules for the operation monad\<close>
named_theorems op_defs \<open>definitions of the operations of a component\<close>
named_theorems frame_simps \<open>tables an operation leaves alone\<close>

definition timedelta_seconds :: "int \<Rightarrow> time" where
  "timedelta_seconds n = 1000000 * n"

definition timedelta_minutes :: "int \<Rightarrow> time" where
  "timedelta_minutes n = 60 * timedelta_seconds n"

section \<open>JSON values and Python equality\<close>

datatype json =
    JNull
  | JBool bool
  | JInt int
  | JStr string
  | JList "json list"
  | JObj "(string \<times> json) list"

text \<open>
  Python's \<open>==\<close>: \<open>True == 1\<close> and \<open>False == 0\<close>, lists compare element by element, and
  dictionaries compare as finite maps (their keys are distinct, so equal sizes and one
  inclusion suffice).
\<close>

fun py_eq :: "json \<Rightarrow> json \<Rightarrow> bool"
  and py_eq_list :: "json list \<Rightarrow> json list \<Rightarrow> bool"
  and py_eq_items :: "(string \<times> json) list \<Rightarrow> (string \<times> json) list \<Rightarrow> bool" where
  "py_eq JNull y = (y = JNull)"
| "py_eq (JBool b) y =
     (case y of JBool c \<Rightarrow> b = c | JInt i \<Rightarrow> i = (if b then 1 else 0) | _ \<Rightarrow> False)"
| "py_eq (JInt i) y =
     (case y of JInt j \<Rightarrow> i = j | JBool c \<Rightarrow> i = (if c then 1 else 0) | _ \<Rightarrow> False)"
| "py_eq (JStr s) y = (y = JStr s)"
| "py_eq (JList xs) y = (case y of JList ys \<Rightarrow> py_eq_list xs ys | _ \<Rightarrow> False)"
| "py_eq (JObj xs) y =
     (case y of JObj ys \<Rightarrow> length xs = length ys \<and> py_eq_items xs ys | _ \<Rightarrow> False)"
| "py_eq_list [] ys = (ys = [])"
| "py_eq_list (x # xs) ys =
     (case ys of [] \<Rightarrow> False | y # ys' \<Rightarrow> py_eq x y \<and> py_eq_list xs ys')"
| "py_eq_items [] ys = True"
| "py_eq_items ((k, v) # xs) ys =
     (case map_of ys k of None \<Rightarrow> False | Some w \<Rightarrow> py_eq v w \<and> py_eq_items xs ys)"

text \<open>A dictionary built by Python has no duplicate key, at any depth.\<close>

fun wf_json :: "json \<Rightarrow> bool" where
  "wf_json (JList xs) = list_all wf_json xs"
| "wf_json (JObj xs) = (distinct (map fst xs) \<and> list_all (\<lambda>p. wf_json (snd p)) xs)"
| "wf_json _ = True"

text \<open>
  The dictionary operations the code uses: \<open>d.get(k)\<close>, \<open>k in d\<close>, \<open>d[k] = v\<close> (in place
  when the key is there, at the end otherwise) and \<open>d.setdefault(k, v)\<close>.
\<close>

definition obj_get :: "(string \<times> json) list \<Rightarrow> string \<Rightarrow> json option" where
  "obj_get xs k = map_of xs k"

fun obj_put :: "string \<Rightarrow> json \<Rightarrow> (string \<times> json) list \<Rightarrow> (string \<times> json) list" where
  "obj_put k v [] = [(k, v)]"
| "obj_put k v ((k', v') # xs) = (if k = k' then (k, v) # xs else (k', v') # obj_put k v xs)"

definition obj_setdefault ::
  "string \<Rightarrow> json \<Rightarrow> (string \<times> json) list \<Rightarrow> (string \<times> json) list" where
  "obj_setdefault k v xs = (if map_of xs k = None then xs @ [(k, v)] else xs)"

definition json_get :: "json \<Rightarrow> string \<Rightarrow> json option" where
  "json_get j k = (case j of JObj xs \<Rightarrow> map_of xs k | _ \<Rightarrow> None)"

definition is_obj :: "json \<Rightarrow> bool" where
  "is_obj j = (case j of JObj _ \<Rightarrow> True | _ \<Rightarrow> False)"

text \<open>Python truth value testing (\<open>if value:\<close>).\<close>

definition truthy :: "json \<Rightarrow> bool" where
  "truthy j = (case j of JNull \<Rightarrow> False | JBool b \<Rightarrow> b | JInt i \<Rightarrow> i \<noteq> 0 | JStr s \<Rightarrow> s \<noteq> []
     | JList xs \<Rightarrow> xs \<noteq> [] | JObj xs \<Rightarrow> xs \<noteq> [])"

text \<open>
  \<open>json.dumps(value, sort_keys=True)\<close> writes the keys of every object in order. \<open>sort_keys\<close>
  is that canonical tree; digests are taken of it.
\<close>

fun sort_keys :: "json \<Rightarrow> json" where
  "sort_keys (JList xs) = JList (map sort_keys xs)"
| "sort_keys (JObj xs) = JObj (sort_key fst (map (\<lambda>p. (fst p, sort_keys (snd p))) xs))"
| "sort_keys j = j"

section \<open>Errors\<close>

datatype error_class =
    NotFoundC | ConflictC | AuthorizationC | ValidationC | BudgetC | UnavailableC

datatype err =
    ObsionErr (err_class: error_class) (err_code: string) (err_message: string)
      (err_details: "(string \<times> json) list")
  | PyError string string

text \<open>The HTTP status each subclass of \<open>ObsionError\<close> passes to its base class.\<close>

fun status_code :: "err \<Rightarrow> int" where
  "status_code (ObsionErr c _ _ _) =
     (case c of NotFoundC \<Rightarrow> 404 | ConflictC \<Rightarrow> 409 | AuthorizationC \<Rightarrow> 403
        | ValidationC \<Rightarrow> 422 | BudgetC \<Rightarrow> 429 | UnavailableC \<Rightarrow> 503)"
| "status_code (PyError _ _) = 500"

definition is_obsion :: "err \<Rightarrow> bool" where
  "is_obsion e = (case e of ObsionErr _ _ _ _ \<Rightarrow> True | PyError _ _ \<Rightarrow> False)"

definition error_is :: "error_class \<Rightarrow> string \<Rightarrow> err \<Rightarrow> bool" where
  "error_is c code e =
     (case e of ObsionErr c' code' _ _ \<Rightarrow> c = c' \<and> code = code' | PyError _ _ \<Rightarrow> False)"

definition NotFoundError :: "string \<Rightarrow> string \<Rightarrow> err" where
  "NotFoundError resource rid =
     ObsionErr NotFoundC ''resource_not_found'' (resource @ '' was not found'')
       [(''resource'', JStr resource), (''id'', JStr rid)]"

definition ConflictError :: "string \<Rightarrow> string \<Rightarrow> (string \<times> json) list \<Rightarrow> err" where
  "ConflictError code msg details = ObsionErr ConflictC code msg details"

definition AuthorizationError :: "string \<Rightarrow> string \<Rightarrow> (string \<times> json) list \<Rightarrow> err" where
  "AuthorizationError code msg details = ObsionErr AuthorizationC code msg details"

definition ValidationError :: "string \<Rightarrow> string \<Rightarrow> (string \<times> json) list \<Rightarrow> err" where
  "ValidationError code msg details = ObsionErr ValidationC code msg details"

text \<open>\<open>common/error_mapping.py\<close>: the JSON-RPC code for an HTTP-equivalent status.\<close>

definition application_error_code :: "int \<Rightarrow> int" where
  "application_error_code st =
     (if st = 401 \<or> st = 403 then - 32003
      else if st = 404 then - 32004
      else if st = 409 then - 32009
      else if st = 422 then - 32022
      else if st = 429 then - 32029
      else if st \<ge> 500 then - 32050
      else - 32000)"

section \<open>Operations: state with exceptions\<close>

type_synonym ('s, 'a) op = "'s \<Rightarrow> (err + 'a) \<times> 's"

definition ret :: "'a \<Rightarrow> ('s, 'a) op" where
  "ret x s = (Inr x, s)"

definition raise :: "err \<Rightarrow> ('s, 'a) op" where
  "raise e s = (Inl e, s)"

definition andthen :: "('s, 'a) op \<Rightarrow> ('a \<Rightarrow> ('s, 'b) op) \<Rightarrow> ('s, 'b) op" where
  "andthen m k s = (case m s of (Inl e, s') \<Rightarrow> (Inl e, s') | (Inr x, s') \<Rightarrow> k x s')"

definition reads :: "('s \<Rightarrow> 'a) \<Rightarrow> ('s, 'a) op" where
  "reads f s = (Inr (f s), s)"

definition modify :: "('s \<Rightarrow> 's) \<Rightarrow> ('s, unit) op" where
  "modify f s = (Inr (), f s)"

definition require :: "bool \<Rightarrow> err \<Rightarrow> ('s, unit) op" where
  "require b e = (if b then ret () else raise e)"

definition from_some :: "err \<Rightarrow> 'a option \<Rightarrow> ('s, 'a) op" where
  "from_some e x = (case x of None \<Rightarrow> raise e | Some v \<Rightarrow> ret v)"

definition from_sum :: "err + 'a \<Rightarrow> ('s, 'a) op" where
  "from_sum r = (case r of Inl e \<Rightarrow> raise e | Inr v \<Rightarrow> ret v)"

text \<open>
  \<open>attempt m handler\<close> is \<open>try: m except ...: handler\<close> where the handler sees every error;
  \<open>transaction m\<close> is a \<open>session.begin()\<close> block: commit on success, roll back on a raise.
\<close>

definition attempt :: "('s, 'a) op \<Rightarrow> (err \<Rightarrow> ('s, 'a) op) \<Rightarrow> ('s, 'a) op" where
  "attempt m h s = (case m s of (Inl e, s') \<Rightarrow> h e s' | (Inr x, s') \<Rightarrow> (Inr x, s'))"

definition transaction :: "('s, 'a) op \<Rightarrow> ('s, 'a) op" where
  "transaction m s = (case m s of (Inl e, s') \<Rightarrow> (Inl e, s) | (Inr x, s') \<Rightarrow> (Inr x, s'))"

text \<open>
  \<open>catching p m h\<close> is \<open>try: m except <class>: h\<close> for the errors \<open>p\<close> accepts; the others go on.
  \<open>zoom get put m\<close> runs an operation on one part of a larger state.
\<close>

definition catching :: "(err \<Rightarrow> bool) \<Rightarrow> ('s, 'a) op \<Rightarrow> (err \<Rightarrow> ('s, 'a) op) \<Rightarrow> ('s, 'a) op" where
  "catching p m h = attempt m (\<lambda>e. if p e then h e else raise e)"

definition zoom :: "('w \<Rightarrow> 's) \<Rightarrow> ('s \<Rightarrow> 'w \<Rightarrow> 'w) \<Rightarrow> ('s, 'a) op \<Rightarrow> ('w, 'a) op" where
  "zoom get put m w = (case m (get w) of (r, s') \<Rightarrow> (r, put s' w))"

definition preserves :: "('s \<Rightarrow> bool) \<Rightarrow> ('s, 'a) op \<Rightarrow> bool" where
  "preserves P m \<longleftrightarrow> (\<forall>s. P s \<longrightarrow> P (snd (m s)))"

text \<open>\<open>returns m Q s\<close>: if the operation returns from \<open>s\<close>, the value and the final state satisfy \<open>Q\<close>.\<close>

definition returns :: "('s, 'a) op \<Rightarrow> ('a \<Rightarrow> 's \<Rightarrow> bool) \<Rightarrow> 's \<Rightarrow> bool" where
  "returns m Q s \<longleftrightarrow> (\<forall>x s'. m s = (Inr x, s') \<longrightarrow> Q x s')"

section \<open>Laws of the operations\<close>

lemmas [op_simps] = ret_def raise_def andthen_def reads_def modify_def require_def
  from_some_def from_sum_def

lemma andthen_Inr:
  "andthen m k s = (Inr y, s') \<longleftrightarrow> (\<exists>x t. m s = (Inr x, t) \<and> k x t = (Inr y, s'))"
  by (auto simp: andthen_def split: prod.splits sum.splits)

lemma andthen_Inl:
  "andthen m k s = (Inl e, s') \<longleftrightarrow>
     m s = (Inl e, s') \<or> (\<exists>x t. m s = (Inr x, t) \<and> k x t = (Inl e, s'))"
  by (auto simp: andthen_def split: prod.splits sum.splits)

lemma ret_iff [simp]: "ret x s = (r, s') \<longleftrightarrow> r = Inr x \<and> s' = s"
  by (auto simp: ret_def)

lemma raise_iff [simp]: "raise e s = (r, s') \<longleftrightarrow> r = Inl e \<and> s' = s"
  by (auto simp: raise_def)

lemma reads_iff [simp]: "reads f s = (r, s') \<longleftrightarrow> r = Inr (f s) \<and> s' = s"
  by (auto simp: reads_def)

lemma modify_iff [simp]: "modify f s = (r, s') \<longleftrightarrow> r = Inr () \<and> s' = f s"
  by (auto simp: modify_def)

lemma require_Inr [simp]: "require b e s = (Inr u, s') \<longleftrightarrow> b \<and> s' = s"
  by (auto simp: require_def)

lemma require_Inl [simp]: "require b e s = (Inl e', s') \<longleftrightarrow> \<not> b \<and> e' = e \<and> s' = s"
  by (auto simp: require_def)

lemma from_some_Inr [simp]: "from_some e x s = (Inr v, s') \<longleftrightarrow> x = Some v \<and> s' = s"
  by (auto simp: from_some_def split: option.splits)

lemma from_some_Inl [simp]: "from_some e x s = (Inl e', s') \<longleftrightarrow> x = None \<and> e' = e \<and> s' = s"
  by (auto simp: from_some_def split: option.splits)

lemma from_sum_iff [simp]: "from_sum x s = (r, s') \<longleftrightarrow> x = r \<and> s' = s"
  by (auto simp: from_sum_def split: sum.splits)

lemma andthen_assoc: "andthen (andthen m f) g = andthen m (\<lambda>x. andthen (f x) g)"
  by (rule ext) (auto simp: andthen_def split: prod.splits sum.splits)

lemma transaction_Inl: "transaction m s = (Inl e, s') \<Longrightarrow> s' = s"
  by (auto simp: transaction_def split: prod.splits sum.splits)

lemma transaction_Inr: "transaction m s = (Inr x, s') \<longleftrightarrow> m s = (Inr x, s')"
  by (auto simp: transaction_def split: prod.splits sum.splits)

lemma transaction_cases:
  "snd (transaction m s) = s \<or> (\<exists>x. m s = (Inr x, snd (transaction m s)))"
  by (auto simp: transaction_def split: prod.splits sum.splits)

lemma catching_Inr:
  "catching p m h s = (Inr x, s') \<longleftrightarrow>
     m s = (Inr x, s') \<or> (\<exists>e t. m s = (Inl e, t) \<and> p e \<and> h e t = (Inr x, s'))"
  by (auto simp: catching_def attempt_def split: prod.splits sum.splits)

lemma zoom_iff: "zoom get put m w = (r, w') \<longleftrightarrow> (\<exists>s'. m (get w) = (r, s') \<and> w' = put s' w)"
  by (auto simp: zoom_def split: prod.splits)

lemma preserves_ret [intro]: "preserves P (ret x)"
  by (simp add: preserves_def ret_def)

lemma preserves_raise [intro]: "preserves P (raise e)"
  by (simp add: preserves_def raise_def)

lemma preserves_reads [intro]: "preserves P (reads f)"
  by (simp add: preserves_def reads_def)

lemma preserves_require [intro]: "preserves P (require b e)"
  by (simp add: preserves_def require_def ret_def raise_def)

lemma preserves_from_some [intro]: "preserves P (from_some e x)"
  by (simp add: preserves_def from_some_def ret_def raise_def split: option.splits)

lemma preserves_from_sum [intro]: "preserves P (from_sum x)"
  by (simp add: preserves_def from_sum_def ret_def raise_def split: sum.splits)

lemma preserves_modify: "(\<And>s. P s \<Longrightarrow> P (f s)) \<Longrightarrow> preserves P (modify f)"
  by (simp add: preserves_def modify_def)

lemma preserves_andthen:
  assumes "preserves P m" and "\<And>x. preserves P (k x)"
  shows "preserves P (andthen m k)"
  using assms unfolding preserves_def andthen_def
  by (smt (verit, best) case_prod_beta prod.collapse snd_conv sum.case_eq_if)

lemma preserves_attempt:
  assumes "preserves P m" and "\<And>e. preserves P (h e)"
  shows "preserves P (attempt m h)"
  using assms unfolding preserves_def attempt_def
  by (smt (verit, best) case_prod_beta prod.collapse snd_conv sum.case_eq_if)

lemma preserves_transaction: "preserves P m \<Longrightarrow> preserves P (transaction m)"
  unfolding preserves_def by (metis snd_conv transaction_cases)

lemma preservesD: "preserves P m \<Longrightarrow> P s \<Longrightarrow> m s = (r, s') \<Longrightarrow> P s'"
  unfolding preserves_def by (metis snd_conv)

lemmas preserves_intros = preserves_ret preserves_raise preserves_reads preserves_require
  preserves_from_some preserves_from_sum preserves_andthen preserves_attempt
  preserves_transaction

text \<open>\<open>keeps f m\<close>: the operation leaves the part \<open>f\<close> of the state as it is, whether it raises or not.\<close>

definition keeps :: "('s \<Rightarrow> 'v) \<Rightarrow> ('s, 'a) op \<Rightarrow> bool" where
  "keeps f m \<longleftrightarrow> (\<forall>s. f (snd (m s)) = f s)"

lemma keepsD: "keeps f m \<Longrightarrow> m s = (r, s') \<Longrightarrow> f s' = f s"
  unfolding keeps_def by (metis snd_conv)

lemma keepsI: "(\<And>s r s'. m s = (r, s') \<Longrightarrow> f s' = f s) \<Longrightarrow> keeps f m"
  unfolding keeps_def by (metis prod.collapse)

lemma keeps_ret [simp]: "keeps f (ret x)"
  by (simp add: keeps_def ret_def)

lemma keeps_raise [simp]: "keeps f (raise e)"
  by (simp add: keeps_def raise_def)

lemma keeps_reads [simp]: "keeps f (reads g)"
  by (simp add: keeps_def reads_def)

lemma keeps_require [simp]: "keeps f (require b e)"
  by (simp add: keeps_def require_def ret_def raise_def)

lemma keeps_from_some [simp]: "keeps f (from_some e x)"
  by (simp add: keeps_def from_some_def ret_def raise_def split: option.splits)

lemma keeps_from_sum [simp]: "keeps f (from_sum x)"
  by (simp add: keeps_def from_sum_def ret_def raise_def split: sum.splits)

lemma keeps_modify [simp]: "keeps f (modify g) \<longleftrightarrow> (\<forall>s. f (g s) = f s)"
  by (simp add: keeps_def modify_def)

lemma keeps_andthen: "keeps f m \<Longrightarrow> (\<And>x. keeps f (k x)) \<Longrightarrow> keeps f (andthen m k)"
  unfolding keeps_def andthen_def
  by (smt (verit, best) case_prod_beta prod.collapse snd_conv sum.case_eq_if)

lemma keeps_attempt: "keeps f m \<Longrightarrow> (\<And>e. keeps f (h e)) \<Longrightarrow> keeps f (attempt m h)"
  unfolding keeps_def attempt_def
  by (smt (verit, best) case_prod_beta prod.collapse snd_conv sum.case_eq_if)

lemma keeps_transaction: "keeps f m \<Longrightarrow> keeps f (transaction m)"
  unfolding keeps_def by (metis snd_conv transaction_cases)

lemma keeps_if: "keeps f m \<Longrightarrow> keeps f k \<Longrightarrow> keeps f (if b then m else k)"
  by simp

lemma keeps_case_option:
  "keeps f m \<Longrightarrow> (\<And>x. keeps f (k x)) \<Longrightarrow> keeps f (case v of None \<Rightarrow> m | Some x \<Rightarrow> k x)"
  by (cases v) simp_all

lemma keeps_case_sum:
  "(\<And>x. keeps f (m x)) \<Longrightarrow> (\<And>x. keeps f (k x)) \<Longrightarrow> keeps f (case v of Inl x \<Rightarrow> m x | Inr x \<Rightarrow> k x)"
  by (cases v) simp_all

lemma keeps_case_prod:
  "(\<And>x y. keeps f (k x y)) \<Longrightarrow> keeps f (case v of (x, y) \<Rightarrow> k x y)"
  by (cases v) simp

lemmas keeps_intros = keeps_andthen keeps_attempt keeps_transaction keeps_if keeps_case_option
  keeps_case_sum keeps_case_prod

lemma keeps_preserves: "keeps f m \<Longrightarrow> preserves (\<lambda>s. P (f s)) m"
  by (simp add: keeps_def preserves_def)

text \<open>Verification rules for \<open>returns\<close>, applied backwards along an operation.\<close>

lemma returnsD: "returns m Q s \<Longrightarrow> m s = (Inr x, s') \<Longrightarrow> Q x s'"
  by (simp add: returns_def)

lemma returns_conseq: "returns m P s \<Longrightarrow> (\<And>x s'. P x s' \<Longrightarrow> Q x s') \<Longrightarrow> returns m Q s"
  by (simp add: returns_def)

lemma returns_ret: "Q x s \<Longrightarrow> returns (ret x) Q s"
  by (simp add: returns_def)

lemma returns_raise: "returns (raise e) Q s"
  by (simp add: returns_def)

lemma returns_andthen: "returns m (\<lambda>x. returns (k x) Q) s \<Longrightarrow> returns (andthen m k) Q s"
  by (auto simp: returns_def andthen_Inr)

lemma returns_reads: "Q (f s) s \<Longrightarrow> returns (reads f) Q s"
  by (simp add: returns_def)

lemma returns_modify: "Q () (f s) \<Longrightarrow> returns (modify f) Q s"
  by (simp add: returns_def)

lemma returns_require: "(b \<Longrightarrow> Q () s) \<Longrightarrow> returns (require b e) Q s"
  by (simp add: returns_def)

lemma returns_from_some: "(\<And>v. x = Some v \<Longrightarrow> Q v s) \<Longrightarrow> returns (from_some e x) Q s"
  by (simp add: returns_def)

lemma returns_from_sum: "(\<And>v. x = Inr v \<Longrightarrow> Q v s) \<Longrightarrow> returns (from_sum x) Q s"
  by (simp add: returns_def)

lemma returns_transaction: "returns m Q s \<Longrightarrow> returns (transaction m) Q s"
  by (simp add: returns_def transaction_Inr)

lemma returns_if: "(b \<Longrightarrow> returns m Q s) \<Longrightarrow> (\<not> b \<Longrightarrow> returns k Q s) \<Longrightarrow> returns (if b then m else k) Q s"
  by simp

lemma returns_case_option:
  "(v = None \<Longrightarrow> returns m Q s) \<Longrightarrow> (\<And>x. v = Some x \<Longrightarrow> returns (k x) Q s)
     \<Longrightarrow> returns (case v of None \<Rightarrow> m | Some x \<Rightarrow> k x) Q s"
  by (cases v) simp_all

lemma returns_case_sum:
  "(\<And>x. v = Inl x \<Longrightarrow> returns (m x) Q s) \<Longrightarrow> (\<And>x. v = Inr x \<Longrightarrow> returns (k x) Q s)
     \<Longrightarrow> returns (case v of Inl x \<Rightarrow> m x | Inr x \<Rightarrow> k x) Q s"
  by (cases v) simp_all

lemma returns_case_prod:
  "(\<And>x y. v = (x, y) \<Longrightarrow> returns (k x y) Q s) \<Longrightarrow> returns (case v of (x, y) \<Rightarrow> k x y) Q s"
  by (cases v) simp

lemma returns_reading:
  assumes "\<And>s. snd (m s) = s" and "\<And>x. m s = (Inr x, s) \<Longrightarrow> Q x s"
  shows "returns m Q s"
  using assms by (metis returns_def snd_conv)

lemmas returns_intros = returns_ret returns_raise returns_andthen returns_reads returns_modify
  returns_require returns_from_some returns_from_sum returns_if returns_case_option
  returns_case_sum returns_case_prod

text \<open>
  \<open>succeeds m Q s\<close>: the operation returns from \<open>s\<close>, with \<open>Q\<close>. The rules mirror those of
  \<open>returns\<close>; where the source may raise they ask that it does not.
\<close>

definition succeeds :: "('s, 'a) op \<Rightarrow> ('a \<Rightarrow> 's \<Rightarrow> bool) \<Rightarrow> 's \<Rightarrow> bool" where
  "succeeds m Q s \<longleftrightarrow> (\<exists>x s'. m s = (Inr x, s') \<and> Q x s')"

lemma succeeds_conseq: "succeeds m P s \<Longrightarrow> (\<And>x s'. P x s' \<Longrightarrow> Q x s') \<Longrightarrow> succeeds m Q s"
  by (auto simp: succeeds_def)

lemma succeeds_ret: "Q x s \<Longrightarrow> succeeds (ret x) Q s"
  by (simp add: succeeds_def)

lemma succeeds_andthen: "succeeds m (\<lambda>x. succeeds (k x) Q) s \<Longrightarrow> succeeds (andthen m k) Q s"
  by (auto simp: succeeds_def andthen_Inr)

lemma succeeds_reads: "Q (f s) s \<Longrightarrow> succeeds (reads f) Q s"
  by (simp add: succeeds_def)

lemma succeeds_modify: "Q () (f s) \<Longrightarrow> succeeds (modify f) Q s"
  by (simp add: succeeds_def)

lemma succeeds_require: "b \<Longrightarrow> Q () s \<Longrightarrow> succeeds (require b e) Q s"
  by (simp add: succeeds_def)

lemma succeeds_from_some: "x = Some v \<Longrightarrow> Q v s \<Longrightarrow> succeeds (from_some e x) Q s"
  by (simp add: succeeds_def)

lemma succeeds_from_sum: "x = Inr v \<Longrightarrow> Q v s \<Longrightarrow> succeeds (from_sum x) Q s"
  by (simp add: succeeds_def)

lemma succeeds_step: "m s = (Inr x, s') \<Longrightarrow> Q x s' \<Longrightarrow> succeeds m Q s"
  by (auto simp: succeeds_def)

lemma succeeds_transaction: "succeeds m Q s \<Longrightarrow> succeeds (transaction m) Q s"
  by (simp add: succeeds_def transaction_Inr)

lemma succeeds_then: "m s = (Inr x, s') \<Longrightarrow> succeeds (k x) Q s' \<Longrightarrow> succeeds (andthen m k) Q s"
  by (auto simp: succeeds_def andthen_def)

lemma succeeds_returns: "succeeds m P s \<Longrightarrow> returns m R s \<Longrightarrow> succeeds m (\<lambda>x s'. P x s' \<and> R x s') s"
  by (auto simp: succeeds_def returns_def)

lemmas succeeds_intros = succeeds_ret succeeds_andthen succeeds_reads succeeds_modify succeeds_require
  succeeds_from_some succeeds_from_sum

text \<open>\<open>raises m E s\<close>: if the operation raises from \<open>s\<close>, the error and the final state satisfy \<open>E\<close>.\<close>

definition raises :: "('s, 'a) op \<Rightarrow> (err \<Rightarrow> 's \<Rightarrow> bool) \<Rightarrow> 's \<Rightarrow> bool" where
  "raises m E s \<longleftrightarrow> (\<forall>e s'. m s = (Inl e, s') \<longrightarrow> E e s')"

lemma raisesD: "raises m E s \<Longrightarrow> m s = (Inl e, s') \<Longrightarrow> E e s'"
  by (simp add: raises_def)

lemma raises_ret: "raises (ret v) E s" and raises_reads: "raises (reads f) E s"
  and raises_modify: "raises (modify g) E s"
  by (simp_all add: raises_def)

lemma raises_raise: "E e s \<Longrightarrow> raises (raise e) E s"
  by (simp add: raises_def)

lemma raises_require: "(\<not> b \<Longrightarrow> E e s) \<Longrightarrow> raises (require b e) E s"
  by (simp add: raises_def)

lemma raises_from_some: "(z = None \<Longrightarrow> E e s) \<Longrightarrow> raises (from_some e z) E s"
  by (simp add: raises_def)

lemma raises_from_sum: "(\<And>e. z = Inl e \<Longrightarrow> E e s) \<Longrightarrow> raises (from_sum z) E s"
  by (simp add: raises_def)

lemma raises_andthen:
  "raises m E s \<Longrightarrow> returns m (\<lambda>v. raises (k v) E) s \<Longrightarrow> raises (andthen m k) E s"
  by (auto simp: raises_def returns_def andthen_Inl)

lemma raises_if: "(b \<Longrightarrow> raises m E s) \<Longrightarrow> (\<not> b \<Longrightarrow> raises k E s) \<Longrightarrow> raises (if b then m else k) E s"
  by simp

lemma raises_case_option:
  "(v = None \<Longrightarrow> raises m E s) \<Longrightarrow> (\<And>x. v = Some x \<Longrightarrow> raises (k x) E s)
     \<Longrightarrow> raises (case v of None \<Rightarrow> m | Some x \<Rightarrow> k x) E s"
  by (cases v) simp_all

lemma raises_case_prod:
  "(\<And>x y. v = (x, y) \<Longrightarrow> raises (k x y) E s) \<Longrightarrow> raises (case v of (x, y) \<Rightarrow> k x y) E s"
  by (cases v) simp

lemma raises_transaction: "raises m (\<lambda>e _. E e s) s \<Longrightarrow> raises (transaction m) E s"
  by (auto simp: raises_def transaction_def split: prod.splits sum.splits)

lemma raises_conseq: "raises m E s \<Longrightarrow> (\<And>e s'. E e s' \<Longrightarrow> F e s') \<Longrightarrow> raises m F s"
  by (simp add: raises_def)

lemma returns_always: "(\<And>v d'. Q v d') \<Longrightarrow> returns m Q d"
  by (simp add: returns_def)

lemmas raises_intros = raises_ret raises_reads raises_modify raises_raise raises_require raises_from_some
  raises_from_sum raises_andthen raises_if raises_case_option raises_case_prod

section \<open>Rows of a table\<close>

text \<open>
  A table is a list of rows in insertion order. \<open>replace_row\<close> is an \<open>UPDATE\<close> by primary
  key; \<open>first_by\<close> is \<open>ORDER BY key LIMIT 1\<close> (ties in insertion order).
\<close>

definition replace_row :: "('r \<Rightarrow> 'k) \<Rightarrow> 'r \<Rightarrow> 'r list \<Rightarrow> 'r list" where
  "replace_row key r rs = map (\<lambda>x. if key x = key r then r else x) rs"

definition first_by :: "('r \<Rightarrow> 'o::linorder) \<Rightarrow> 'r list \<Rightarrow> 'r option" where
  "first_by key rs = (case sort_key key rs of [] \<Rightarrow> None | r # _ \<Rightarrow> Some r)"

lemma first_by_in: "first_by key rs = Some r \<Longrightarrow> r \<in> set rs"
  by (metis (no_types, lifting) first_by_def list.case_eq_if list.set_sel(1) option.distinct(1)
      option.inject set_sort)

lemma first_by_None [simp]: "first_by key rs = None \<longleftrightarrow> rs = []"
proof
  assume "first_by key rs = None"
  then have "sort_key key rs = []" by (simp add: first_by_def split: list.splits)
  then have "length rs = 0" by (metis length_sort list.size(3))
  then show "rs = []" by simp
qed (simp add: first_by_def)

lemma first_by_min:
  assumes "first_by key rs = Some r" and "x \<in> set rs"
  shows "key r \<le> key x"
proof -
  obtain ys where ys: "sort_key key rs = r # ys"
    using assms(1) by (auto simp: first_by_def split: list.splits)
  have "sorted (map key (r # ys))" by (metis sorted_sort_key ys)
  moreover have "x \<in> set (r # ys)" using assms(2) by (metis set_sort ys)
  ultimately show ?thesis by auto
qed

lemma set_replace_row:
  "x \<in> set (replace_row key r rs) \<Longrightarrow> x = r \<or> (x \<in> set rs \<and> key x \<noteq> key r)"
  by (auto simp: replace_row_def)

lemma map_key_replace_row [simp]: "map key (replace_row key r rs) = map key rs"
  by (simp add: replace_row_def)

lemma length_replace_row [simp]: "length (replace_row key r rs) = length rs"
  by (simp add: replace_row_def)

lemma find_SomeD: "find P xs = Some x \<Longrightarrow> x \<in> set xs \<and> P x"
  by (induction xs) (auto split: if_splits)

lemma find_NoneD: "find P xs = None \<Longrightarrow> x \<in> set xs \<Longrightarrow> \<not> P x"
  by (induction xs) (auto split: if_splits)

lemma replace_row_same_mem:
  "r0 \<in> set rs \<Longrightarrow> key r0 = key r \<Longrightarrow> r \<in> set (replace_row key r rs)"
  by (auto simp: replace_row_def image_iff)

lemma replace_row_other_mem:
  "x \<in> set rs \<Longrightarrow> key x \<noteq> key r \<Longrightarrow> x \<in> set (replace_row key r rs)"
  by (auto simp: replace_row_def image_iff)

lemma mem_replace_row_iff:
  "x \<in> set (replace_row key r rs) \<longleftrightarrow>
     (x \<in> set rs \<and> key x \<noteq> key r) \<or> (x = r \<and> (\<exists>y \<in> set rs. key y = key r))"
  by (auto simp: replace_row_def image_iff)

lemma one_satisfies: "length (filter P xs) \<le> 1 \<Longrightarrow> x \<in> set xs \<Longrightarrow> P x \<Longrightarrow> y \<in> set xs \<Longrightarrow> P y \<Longrightarrow> x = y"
proof -
  assume *: "length (filter P xs) \<le> 1" "x \<in> set xs" "P x" "y \<in> set xs" "P y"
  then have "x \<in> set (filter P xs)" "y \<in> set (filter P xs)" by auto
  with *(1) show "x = y" by (cases "filter P xs") auto
qed

lemma map_filter_replace_row:
  assumes "distinct (map key xs)" and "x \<in> set xs" and "key r = key x" and "P r = P x" and "f r = f x"
  shows "map f (filter P (replace_row key r xs)) = map f (filter P xs)"
proof -
  have "y = x" if "y \<in> set xs" "key y = key r" for y
    using that assms(1,2,3) by (metis distinct_map inj_onD)
  then have "map (\<lambda>y. (P y, f y)) (replace_row key r xs) = map (\<lambda>y. (P y, f y)) xs"
    using assms(4,5) by (auto simp: replace_row_def)
  moreover have "map f (filter P ys) = map snd (filter fst (map (\<lambda>y. (P y, f y)) ys))" for ys
    by (induction ys) auto
  ultimately show ?thesis by simp
qed

text \<open>A column looked up by primary key.\<close>

definition row_standing :: "('r \<Rightarrow> 'k) \<Rightarrow> ('r \<Rightarrow> 's) \<Rightarrow> 'k \<Rightarrow> 'r list \<Rightarrow> 's option" where
  "row_standing key status i rs = map_option status (find (\<lambda>r. key r = i) rs)"

lemma find_key: "distinct (map key rs) \<Longrightarrow> r \<in> set rs \<Longrightarrow> find (\<lambda>x. key x = key r) rs = Some r"
  by (induction rs) (auto simp: image_iff)

lemma row_standing_mem:
  "distinct (map key rs) \<Longrightarrow> r \<in> set rs \<Longrightarrow> row_standing key status (key r) rs = Some (status r)"
  by (simp add: row_standing_def find_key)

lemma find_replace_row:
  "find (\<lambda>x. key x = i) (replace_row key r rs) =
     (if i = key r then map_option (\<lambda>_. r) (find (\<lambda>x. key x = i) rs) else find (\<lambda>x. key x = i) rs)"
  by (induction rs) (auto simp: replace_row_def)

lemma row_standing_replace:
  "row_standing key status i (replace_row key r rs) =
     (if i = key r then map_option (\<lambda>_. status r) (row_standing key status i rs)
      else row_standing key status i rs)"
  by (simp add: row_standing_def find_replace_row option.map_comp comp_def)

text \<open>A history of requests: those that were answered, and the final state.\<close>

fun answered :: "('q \<Rightarrow> ('s, 'r) op) \<Rightarrow> 'q list \<Rightarrow> 's \<Rightarrow> 'q list \<times> 's" where
  "answered decide [] d = ([], d)"
| "answered decide (q # qs) d =
     (case decide q d of
        (Inl e, d1) \<Rightarrow> answered decide qs d1
      | (Inr r, d1) \<Rightarrow> (case answered decide qs d1 of (as, d2) \<Rightarrow> (q # as, d2)))"

lemma answered_preserves:
  assumes "\<And>q d v d'. P d \<Longrightarrow> decide q d = (v, d') \<Longrightarrow> P d'"
  shows "answered decide qs d = (as, d') \<Longrightarrow> P d \<Longrightarrow> P d'"
proof (induction qs arbitrary: d as d')
  case (Cons q qs)
  obtain v d1 where q: "decide q d = (v, d1)" by (cases "decide q d")
  obtain as1 d2 where rest: "answered decide qs d1 = (as1, d2)" by (cases "answered decide qs d1")
  have "d' = d2" using Cons.prems(1) q rest by (cases v) auto
  then show ?case using Cons.IH [OF rest] assms [OF Cons.prems(2) q] by simp
qed simp

section \<open>Python equality is an equivalence on dictionaries without duplicate keys\<close>

lemma obj_put_get [simp]: "map_of (obj_put k v xs) k' = (if k' = k then Some v else map_of xs k')"
  by (induction k v xs rule: obj_put.induct) auto

lemma fst_obj_put: "fst ` set (obj_put k v xs) = insert k (fst ` set xs)"
  by (induction k v xs rule: obj_put.induct) auto

lemma distinct_obj_put: "distinct (map fst xs) \<Longrightarrow> distinct (map fst (obj_put k v xs))"
proof (induction k v xs rule: obj_put.induct)
  case (2 k v k' v' xs)
  have "fst ` set (obj_put k v xs) = insert k (fst ` set xs)" by (rule fst_obj_put)
  with "2" show ?case by auto
qed simp

lemma wf_JObjD: "wf_json (JObj xs) \<Longrightarrow> (k, v) \<in> set xs \<Longrightarrow> map_of xs k = Some v \<and> wf_json v"
  by (auto simp: list_all_iff)

lemma py_eq_items_refl:
  assumes "distinct (map fst ys)" and "set xs \<subseteq> set ys"
    and "\<And>k v. (k, v) \<in> set xs \<Longrightarrow> py_eq v v"
  shows "py_eq_items xs ys"
  using assms
proof (induction xs)
  case (Cons p xs)
  obtain k v where p: "p = (k, v)" by (cases p)
  with Cons.prems have "map_of ys k = Some v" by (auto simp: map_of_eq_Some_iff)
  moreover have "py_eq v v" using Cons.prems(3) p by (metis list.set_intros(1))
  moreover have "py_eq_items xs ys" using Cons by (metis insert_subset list.set(2) list.set_intros(2))
  ultimately show ?case using p by simp
qed simp

lemma py_eq_list_refl: "(\<And>x. x \<in> set xs \<Longrightarrow> py_eq x x) \<Longrightarrow> py_eq_list xs xs"
  by (induction xs) auto

lemma py_eq_refl: "wf_json j \<Longrightarrow> py_eq j j"
proof (induction j)
  case (JList xs)
  then show ?case by (auto simp: list_all_iff intro: py_eq_list_refl)
next
  case (JObj xs)
  then have "py_eq_items xs xs"
    by (intro py_eq_items_refl) (auto simp: list_all_iff)
  then show ?case by simp
qed auto

end
