(* ===== verification/Enums.thy ===== *)
theory Enums
  imports Prelude
begin

text \<open>
  The enumerations of \<open>domain/enums.py\<close> that the modelled components use. Every enumeration is
  a datatype with the members of the Python class, prefixed to keep them apart, and
  \<open><enum>_value\<close> is the member's string value, which is what is stored and what goes into
  event payloads. Risk levels and policy effects are ordered the way the code compares them.
\<close>

datatype classification =
    Cls_PUBLIC | Cls_INTERNAL | Cls_CONFIDENTIAL | Cls_RESTRICTED

fun classification_value :: "classification \<Rightarrow> string" where
  "classification_value Cls_PUBLIC = ''PUBLIC''"
| "classification_value Cls_INTERNAL = ''INTERNAL''"
| "classification_value Cls_CONFIDENTIAL = ''CONFIDENTIAL''"
| "classification_value Cls_RESTRICTED = ''RESTRICTED''"

datatype thread_status =
    Thread_ACTIVE | Thread_ARCHIVED

fun thread_status_value :: "thread_status \<Rightarrow> string" where
  "thread_status_value Thread_ACTIVE = ''ACTIVE''"
| "thread_status_value Thread_ARCHIVED = ''ARCHIVED''"

datatype run_status =
    Run_PENDING | Run_RUNNING | Run_WAITING_APPROVAL | Run_WAITING_USER | Run_REPLANNING |
    Run_COMPLETED | Run_FAILED | Run_CANCELLED

fun run_status_value :: "run_status \<Rightarrow> string" where
  "run_status_value Run_PENDING = ''PENDING''"
| "run_status_value Run_RUNNING = ''RUNNING''"
| "run_status_value Run_WAITING_APPROVAL = ''WAITING_APPROVAL''"
| "run_status_value Run_WAITING_USER = ''WAITING_USER''"
| "run_status_value Run_REPLANNING = ''REPLANNING''"
| "run_status_value Run_COMPLETED = ''COMPLETED''"
| "run_status_value Run_FAILED = ''FAILED''"
| "run_status_value Run_CANCELLED = ''CANCELLED''"

datatype step_status =
    Step_PENDING | Step_RUNNING | Step_WAITING_APPROVAL | Step_COMPLETED | Step_FAILED |
    Step_SKIPPED | Step_CANCELLED

fun step_status_value :: "step_status \<Rightarrow> string" where
  "step_status_value Step_PENDING = ''PENDING''"
| "step_status_value Step_RUNNING = ''RUNNING''"
| "step_status_value Step_WAITING_APPROVAL = ''WAITING_APPROVAL''"
| "step_status_value Step_COMPLETED = ''COMPLETED''"
| "step_status_value Step_FAILED = ''FAILED''"
| "step_status_value Step_SKIPPED = ''SKIPPED''"
| "step_status_value Step_CANCELLED = ''CANCELLED''"

datatype step_kind =
    Kind_OBSERVE | Kind_UNDERSTAND | Kind_PLAN | Kind_MODEL | Kind_CAPABILITY | Kind_VERIFY |
    Kind_REFLECT | Kind_RESPOND

fun step_kind_value :: "step_kind \<Rightarrow> string" where
  "step_kind_value Kind_OBSERVE = ''OBSERVE''"
| "step_kind_value Kind_UNDERSTAND = ''UNDERSTAND''"
| "step_kind_value Kind_PLAN = ''PLAN''"
| "step_kind_value Kind_MODEL = ''MODEL''"
| "step_kind_value Kind_CAPABILITY = ''CAPABILITY''"
| "step_kind_value Kind_VERIFY = ''VERIFY''"
| "step_kind_value Kind_REFLECT = ''REFLECT''"
| "step_kind_value Kind_RESPOND = ''RESPOND''"

datatype risk_level =
    Risk_L0 | Risk_L1 | Risk_L2 | Risk_L3 | Risk_L4 | Risk_L5

fun risk_level_value :: "risk_level \<Rightarrow> string" where
  "risk_level_value Risk_L0 = ''L0''"
| "risk_level_value Risk_L1 = ''L1''"
| "risk_level_value Risk_L2 = ''L2''"
| "risk_level_value Risk_L3 = ''L3''"
| "risk_level_value Risk_L4 = ''L4''"
| "risk_level_value Risk_L5 = ''L5''"

datatype decision_effect =
    Effect_ALLOW | Effect_MASK | Effect_ASK | Effect_DENY

fun decision_effect_value :: "decision_effect \<Rightarrow> string" where
  "decision_effect_value Effect_ALLOW = ''ALLOW''"
| "decision_effect_value Effect_MASK = ''MASK''"
| "decision_effect_value Effect_ASK = ''ASK''"
| "decision_effect_value Effect_DENY = ''DENY''"

datatype approval_status =
    Approval_PENDING | Approval_APPROVED | Approval_REJECTED | Approval_EXPIRED |
    Approval_CANCELLED

fun approval_status_value :: "approval_status \<Rightarrow> string" where
  "approval_status_value Approval_PENDING = ''PENDING''"
| "approval_status_value Approval_APPROVED = ''APPROVED''"
| "approval_status_value Approval_REJECTED = ''REJECTED''"
| "approval_status_value Approval_EXPIRED = ''EXPIRED''"
| "approval_status_value Approval_CANCELLED = ''CANCELLED''"

datatype side_effect =
    Side_NONE | Side_IDEMPOTENT_WRITE | Side_WRITE | Side_DESTRUCTIVE

fun side_effect_value :: "side_effect \<Rightarrow> string" where
  "side_effect_value Side_NONE = ''NONE''"
| "side_effect_value Side_IDEMPOTENT_WRITE = ''IDEMPOTENT_WRITE''"
| "side_effect_value Side_WRITE = ''WRITE''"
| "side_effect_value Side_DESTRUCTIVE = ''DESTRUCTIVE''"

datatype capability_transport =
    Transport_INTERNAL | Transport_HTTP | Transport_GRPC | Transport_MCP | Transport_SDK |
    Transport_SQL_PROXY | Transport_AGENT | Transport_WORKFLOW

fun capability_transport_value :: "capability_transport \<Rightarrow> string" where
  "capability_transport_value Transport_INTERNAL = ''INTERNAL''"
| "capability_transport_value Transport_HTTP = ''HTTP''"
| "capability_transport_value Transport_GRPC = ''GRPC''"
| "capability_transport_value Transport_MCP = ''MCP''"
| "capability_transport_value Transport_SDK = ''SDK''"
| "capability_transport_value Transport_SQL_PROXY = ''SQL_PROXY''"
| "capability_transport_value Transport_AGENT = ''AGENT''"
| "capability_transport_value Transport_WORKFLOW = ''WORKFLOW''"

datatype visibility =
    Vis_PRIVATE | Vis_WORKSPACE | Vis_ORGANIZATION

fun visibility_value :: "visibility \<Rightarrow> string" where
  "visibility_value Vis_PRIVATE = ''PRIVATE''"
| "visibility_value Vis_WORKSPACE = ''WORKSPACE''"
| "visibility_value Vis_ORGANIZATION = ''ORGANIZATION''"

datatype workspace_task_status =
    Task_OPEN | Task_IN_PROGRESS | Task_BLOCKED | Task_COMPLETED | Task_CANCELLED

fun workspace_task_status_value :: "workspace_task_status \<Rightarrow> string" where
  "workspace_task_status_value Task_OPEN = ''OPEN''"
| "workspace_task_status_value Task_IN_PROGRESS = ''IN_PROGRESS''"
| "workspace_task_status_value Task_BLOCKED = ''BLOCKED''"
| "workspace_task_status_value Task_COMPLETED = ''COMPLETED''"
| "workspace_task_status_value Task_CANCELLED = ''CANCELLED''"

datatype workspace_task_priority =
    Priority_LOW | Priority_NORMAL | Priority_HIGH | Priority_CRITICAL

fun workspace_task_priority_value :: "workspace_task_priority \<Rightarrow> string" where
  "workspace_task_priority_value Priority_LOW = ''LOW''"
| "workspace_task_priority_value Priority_NORMAL = ''NORMAL''"
| "workspace_task_priority_value Priority_HIGH = ''HIGH''"
| "workspace_task_priority_value Priority_CRITICAL = ''CRITICAL''"

datatype workspace_decision_status =
    Decision_PROPOSED | Decision_ACCEPTED | Decision_REJECTED | Decision_SUPERSEDED

fun workspace_decision_status_value :: "workspace_decision_status \<Rightarrow> string" where
  "workspace_decision_status_value Decision_PROPOSED = ''PROPOSED''"
| "workspace_decision_status_value Decision_ACCEPTED = ''ACCEPTED''"
| "workspace_decision_status_value Decision_REJECTED = ''REJECTED''"
| "workspace_decision_status_value Decision_SUPERSEDED = ''SUPERSEDED''"

datatype connector_status =
    Connector_DRAFT | Connector_ACTIVE | Connector_DISABLED | Connector_ERROR

fun connector_status_value :: "connector_status \<Rightarrow> string" where
  "connector_status_value Connector_DRAFT = ''DRAFT''"
| "connector_status_value Connector_ACTIVE = ''ACTIVE''"
| "connector_status_value Connector_DISABLED = ''DISABLED''"
| "connector_status_value Connector_ERROR = ''ERROR''"

datatype registry_status =
    Registry_DRAFT | Registry_ACTIVE | Registry_RETIRED

fun registry_status_value :: "registry_status \<Rightarrow> string" where
  "registry_status_value Registry_DRAFT = ''DRAFT''"
| "registry_status_value Registry_ACTIVE = ''ACTIVE''"
| "registry_status_value Registry_RETIRED = ''RETIRED''"

datatype actor_type =
    Actor_USER | Actor_SERVICE | Actor_AGENT | Actor_SYSTEM

fun actor_type_value :: "actor_type \<Rightarrow> string" where
  "actor_type_value Actor_USER = ''USER''"
| "actor_type_value Actor_SERVICE = ''SERVICE''"
| "actor_type_value Actor_AGENT = ''AGENT''"
| "actor_type_value Actor_SYSTEM = ''SYSTEM''"

datatype notification_status =
    Notification_DELIVERED | Notification_READ

fun notification_status_value :: "notification_status \<Rightarrow> string" where
  "notification_status_value Notification_DELIVERED = ''DELIVERED''"
| "notification_status_value Notification_READ = ''READ''"

datatype action_type =
    Type_GENERATE_PR | Type_CREATE_TICKET | Type_MODIFY_CONFIG | Type_RESTART_SERVICE |
    Type_DEPLOY

fun action_type_value :: "action_type \<Rightarrow> string" where
  "action_type_value Type_GENERATE_PR = ''GENERATE_PR''"
| "action_type_value Type_CREATE_TICKET = ''CREATE_TICKET''"
| "action_type_value Type_MODIFY_CONFIG = ''MODIFY_CONFIG''"
| "action_type_value Type_RESTART_SERVICE = ''RESTART_SERVICE''"
| "action_type_value Type_DEPLOY = ''DEPLOY''"

datatype action_status =
    Action_DRAFT | Action_PREFLIGHT_FAILED | Action_WAITING_APPROVAL | Action_APPROVED |
    Action_EXECUTING | Action_COMPLETED | Action_FAILED | Action_WAITING_ROLLBACK_APPROVAL |
    Action_ROLLBACK_APPROVED | Action_ROLLING_BACK | Action_ROLLED_BACK | Action_ROLLBACK_FAILED
    | Action_ROLLBACK_REJECTED | Action_REJECTED | Action_EXPIRED | Action_CANCELLED

fun action_status_value :: "action_status \<Rightarrow> string" where
  "action_status_value Action_DRAFT = ''DRAFT''"
| "action_status_value Action_PREFLIGHT_FAILED = ''PREFLIGHT_FAILED''"
| "action_status_value Action_WAITING_APPROVAL = ''WAITING_APPROVAL''"
| "action_status_value Action_APPROVED = ''APPROVED''"
| "action_status_value Action_EXECUTING = ''EXECUTING''"
| "action_status_value Action_COMPLETED = ''COMPLETED''"
| "action_status_value Action_FAILED = ''FAILED''"
| "action_status_value Action_WAITING_ROLLBACK_APPROVAL = ''WAITING_ROLLBACK_APPROVAL''"
| "action_status_value Action_ROLLBACK_APPROVED = ''ROLLBACK_APPROVED''"
| "action_status_value Action_ROLLING_BACK = ''ROLLING_BACK''"
| "action_status_value Action_ROLLED_BACK = ''ROLLED_BACK''"
| "action_status_value Action_ROLLBACK_FAILED = ''ROLLBACK_FAILED''"
| "action_status_value Action_ROLLBACK_REJECTED = ''ROLLBACK_REJECTED''"
| "action_status_value Action_REJECTED = ''REJECTED''"
| "action_status_value Action_EXPIRED = ''EXPIRED''"
| "action_status_value Action_CANCELLED = ''CANCELLED''"

datatype action_approval_purpose =
    Purpose_EXECUTE | Purpose_ROLLBACK

fun action_approval_purpose_value :: "action_approval_purpose \<Rightarrow> string" where
  "action_approval_purpose_value Purpose_EXECUTE = ''EXECUTE''"
| "action_approval_purpose_value Purpose_ROLLBACK = ''ROLLBACK''"

datatype action_attempt_status =
    Attempt_PENDING | Attempt_RUNNING | Attempt_COMPLETED | Attempt_FAILED

fun action_attempt_status_value :: "action_attempt_status \<Rightarrow> string" where
  "action_attempt_status_value Attempt_PENDING = ''PENDING''"
| "action_attempt_status_value Attempt_RUNNING = ''RUNNING''"
| "action_attempt_status_value Attempt_COMPLETED = ''COMPLETED''"
| "action_attempt_status_value Attempt_FAILED = ''FAILED''"

section \<open>Orders\<close>

fun ordinal :: "risk_level \<Rightarrow> int" where
  "ordinal Risk_L0 = 0"
| "ordinal Risk_L1 = 1"
| "ordinal Risk_L2 = 2"
| "ordinal Risk_L3 = 3"
| "ordinal Risk_L4 = 4"
| "ordinal Risk_L5 = 5"

fun effect_strength :: "decision_effect \<Rightarrow> int" where
  "effect_strength Effect_ALLOW = 0"
| "effect_strength Effect_MASK = 1"
| "effect_strength Effect_ASK = 2"
| "effect_strength Effect_DENY = 3"

text \<open>\<open>RiskLevel(text)\<close>, which raises \<open>ValueError\<close> on anything else.\<close>

definition risk_of_value :: "string \<Rightarrow> risk_level option" where
  "risk_of_value s =
     find (\<lambda>r. risk_level_value r = s) [Risk_L0, Risk_L1, Risk_L2, Risk_L3, Risk_L4, Risk_L5]"

lemma ordinal_inj: "ordinal a = ordinal b \<longleftrightarrow> a = b"
  by (cases a; cases b) auto

lemma effect_strength_inj: "effect_strength a = effect_strength b \<longleftrightarrow> a = b"
  by (cases a; cases b) auto

lemma effect_strength_le_DENY: "effect_strength x \<le> effect_strength Effect_DENY"
  by (cases x) simp_all

lemma risk_of_value_value [simp]: "risk_of_value (risk_level_value r) = Some r"
  by (cases r) (simp_all add: risk_of_value_def)

instantiation risk_level :: linorder
begin
definition less_eq_risk_level :: "risk_level \<Rightarrow> risk_level \<Rightarrow> bool" where
  "less_eq_risk_level a b \<longleftrightarrow> ordinal a \<le> ordinal b"
definition less_risk_level :: "risk_level \<Rightarrow> risk_level \<Rightarrow> bool" where
  "less_risk_level a b \<longleftrightarrow> ordinal a < ordinal b"
instance
  by standard (auto simp: less_eq_risk_level_def less_risk_level_def ordinal_inj)
end

instantiation decision_effect :: linorder
begin
definition less_eq_decision_effect :: "decision_effect \<Rightarrow> decision_effect \<Rightarrow> bool" where
  "less_eq_decision_effect a b \<longleftrightarrow> effect_strength a \<le> effect_strength b"
definition less_decision_effect :: "decision_effect \<Rightarrow> decision_effect \<Rightarrow> bool" where
  "less_decision_effect a b \<longleftrightarrow> effect_strength a < effect_strength b"
instance
  by standard
    (auto simp: less_eq_decision_effect_def less_decision_effect_def effect_strength_inj)
end

lemma effect_le_DENY [simp]: "e \<le> Effect_DENY"
  unfolding less_eq_decision_effect_def by (rule effect_strength_le_DENY)

lemma DENY_le_iff [simp]: "Effect_DENY \<le> e \<longleftrightarrow> e = Effect_DENY"
  by (metis effect_le_DENY order_antisym order_refl)

end
