(* ===== verification/PyText.thy ===== *)
theory PyText
  imports Prelude
begin

text \<open>
  The parts of Python's text library the modelled code calls, on ASCII text: \<open>str.strip\<close>,
  \<open>str.split\<close>, \<open>str.lower\<close>, \<open>str.casefold\<close>, \<open>str(int)\<close>, \<open>str(value)\<close> of JSON
  values, \<open>str(UUID)\<close> and \<open>UUID(text)\<close>, \<open>datetime.isoformat\<close>, \<open>fnmatch.fnmatch\<close> and
  \<open>urllib.parse.urlparse\<close>. Lemmas: the UUID text form is invertible, \<open>fnmatch\<close> with a
  literal pattern is equality, and \<open>*\<close> matches everything.
\<close>

section \<open>Characters and plain strings\<close>

definition ord :: "char \<Rightarrow> int" where
  "ord c = of_char c"

definition is_space :: "char \<Rightarrow> bool" where
  "is_space c = ((9 \<le> ord c \<and> ord c \<le> 13) \<or> (28 \<le> ord c \<and> ord c \<le> 32))"

definition is_digit :: "char \<Rightarrow> bool" where
  "is_digit c = (48 \<le> ord c \<and> ord c \<le> 57)"

definition is_upper :: "char \<Rightarrow> bool" where
  "is_upper c = (65 \<le> ord c \<and> ord c \<le> 90)"

definition is_lower :: "char \<Rightarrow> bool" where
  "is_lower c = (97 \<le> ord c \<and> ord c \<le> 122)"

definition is_alpha :: "char \<Rightarrow> bool" where
  "is_alpha c = (is_upper c \<or> is_lower c)"

definition is_word :: "char \<Rightarrow> bool" where
  "is_word c = (is_alpha c \<or> is_digit c \<or> c = CHR ''_'')"

definition lower_char :: "char \<Rightarrow> char" where
  "lower_char c =
     (if is_upper c then
        (case c of Char b0 b1 b2 b3 b4 b5 b6 b7 \<Rightarrow> Char b0 b1 b2 b3 b4 True b6 b7)
      else c)"

definition lower :: "string \<Rightarrow> string" where
  "lower s = map lower_char s"

definition casefold :: "string \<Rightarrow> string" where
  "casefold s = lower s"

definition strip :: "string \<Rightarrow> string" where
  "strip s = rev (dropWhile is_space (rev (dropWhile is_space s)))"

definition strip_chars :: "string \<Rightarrow> string \<Rightarrow> string" where
  "strip_chars cs s =
     rev (dropWhile (\<lambda>c. c \<in> set cs) (rev (dropWhile (\<lambda>c. c \<in> set cs) s)))"

fun split_on :: "char \<Rightarrow> string \<Rightarrow> string list" where
  "split_on d [] = [[]]"
| "split_on d (c # cs) =
     (if c = d then [] # split_on d cs
      else (case split_on d cs of [] \<Rightarrow> [[c]] | w # ws \<Rightarrow> (c # w) # ws))"

fun starts_with :: "string \<Rightarrow> string \<Rightarrow> bool" where
  "starts_with [] s = True"
| "starts_with (p # ps) [] = False"
| "starts_with (p # ps) (c # cs) = (p = c \<and> starts_with ps cs)"

fun contains_sub :: "string \<Rightarrow> string \<Rightarrow> bool" where
  "contains_sub p [] = (p = [])"
| "contains_sub p (c # cs) = (starts_with p (c # cs) \<or> contains_sub p cs)"

text \<open>\<open>s.replace(p, "")\<close> for a non-empty \<open>p\<close>: \<open>skip\<close> counts the characters left to drop.\<close>

fun remove_sub_from :: "string \<Rightarrow> nat \<Rightarrow> string \<Rightarrow> string" where
  "remove_sub_from p n [] = []"
| "remove_sub_from p (Suc n) (c # cs) = remove_sub_from p n cs"
| "remove_sub_from p 0 (c # cs) =
     (if starts_with p (c # cs) then remove_sub_from p (length p - 1) cs
      else c # remove_sub_from p 0 cs)"

definition remove_sub :: "string \<Rightarrow> string \<Rightarrow> string" where
  "remove_sub p s = remove_sub_from p 0 s"

section \<open>Numbers and values as text\<close>

definition digit_char :: "int \<Rightarrow> char" where
  "digit_char d =
     (if d = 0 then CHR ''0'' else if d = 1 then CHR ''1'' else if d = 2 then CHR ''2''
      else if d = 3 then CHR ''3'' else if d = 4 then CHR ''4'' else if d = 5 then CHR ''5''
      else if d = 6 then CHR ''6'' else if d = 7 then CHR ''7'' else if d = 8 then CHR ''8''
      else CHR ''9'')"

function nat_str :: "int \<Rightarrow> string" where
  "nat_str n = (if n < 10 then [digit_char n] else nat_str (n div 10) @ [digit_char (n mod 10)])"
  by pat_completeness auto
termination
  by (relation "measure nat") auto

declare nat_str.simps [simp del]

definition int_str :: "int \<Rightarrow> string" where
  "int_str i = (if i < 0 then CHR ''-'' # nat_str (- i) else nat_str i)"

fun dec_fixed :: "nat \<Rightarrow> int \<Rightarrow> string" where
  "dec_fixed 0 n = []"
| "dec_fixed (Suc k) n = dec_fixed k (n div 10) @ [digit_char (n mod 10)]"

definition hex_char :: "int \<Rightarrow> char" where
  "hex_char d =
     (if d < 10 then digit_char d else if d = 10 then CHR ''a'' else if d = 11 then CHR ''b''
      else if d = 12 then CHR ''c'' else if d = 13 then CHR ''d'' else if d = 14 then CHR ''e''
      else CHR ''f'')"

fun hex_fixed :: "nat \<Rightarrow> int \<Rightarrow> string" where
  "hex_fixed 0 n = []"
| "hex_fixed (Suc k) n = hex_fixed k (n div 16) @ [hex_char (n mod 16)]"

text \<open>\<open>repr\<close> of a string: single quotes unless the text has a single and no double quote.\<close>

definition repr_char :: "char \<Rightarrow> char \<Rightarrow> string" where
  "repr_char q c =
     (if c = q \<or> c = CHR 0x5C then [CHR 0x5C, c]
      else if ord c = 10 then [CHR 0x5C, CHR ''n'']
      else if ord c = 13 then [CHR 0x5C, CHR ''r'']
      else if ord c = 9 then [CHR 0x5C, CHR ''t'']
      else if ord c < 32 \<or> ord c = 127 then [CHR 0x5C, CHR ''x''] @ hex_fixed 2 (ord c)
      else [c])"

definition repr_str :: "string \<Rightarrow> string" where
  "repr_str s =
     (let q = (if CHR 0x27 \<in> set s \<and> CHR 0x22 \<notin> set s then CHR 0x22 else CHR 0x27)
      in [q] @ concat (map (repr_char q) s) @ [q])"

fun join :: "string \<Rightarrow> string list \<Rightarrow> string" where
  "join sep [] = []"
| "join sep [x] = x"
| "join sep (x # xs) = x @ sep @ join sep xs"

fun py_repr :: "json \<Rightarrow> string" where
  "py_repr JNull = ''None''"
| "py_repr (JBool b) = (if b then ''True'' else ''False'')"
| "py_repr (JInt i) = int_str i"
| "py_repr (JStr s) = repr_str s"
| "py_repr (JList xs) = ''['' @ join '', '' (map py_repr xs) @ '']''"
| "py_repr (JObj xs) =
     ''{'' @ join '', '' (map (\<lambda>p. repr_str (fst p) @ '': '' @ py_repr (snd p)) xs) @ ''}''"

definition py_str :: "json \<Rightarrow> string" where
  "py_str j = (case j of JStr s \<Rightarrow> s | _ \<Rightarrow> py_repr j)"

section \<open>UUIDs\<close>

text \<open>
  \<open>str(uuid)\<close> is 32 lower-case hexadecimal digits in groups of 8, 4, 4, 4 and 12.
  \<open>UUID(text)\<close> drops \<open>urn:\<close>, \<open>uuid:\<close>, surrounding braces and hyphens, and then wants
  32 digits; the exotic spellings \<open>int(text, 16)\<close> would still accept there (sign,
  underscore, \<open>0x\<close>) are rejected here.
\<close>

definition uuid_str :: "uuid \<Rightarrow> string" where
  "uuid_str n =
     (let h = hex_fixed 32 n
      in take 8 h @ ''-'' @ take 4 (drop 8 h) @ ''-'' @ take 4 (drop 12 h) @ ''-''
           @ take 4 (drop 16 h) @ ''-'' @ drop 20 h)"

definition hex_value :: "char \<Rightarrow> int option" where
  "hex_value c =
     (if is_digit c then Some (ord c - 48)
      else if 97 \<le> ord c \<and> ord c \<le> 102 then Some (ord c - 87)
      else if 65 \<le> ord c \<and> ord c \<le> 70 then Some (ord c - 55)
      else None)"

fun hex_parse :: "int \<Rightarrow> string \<Rightarrow> int option" where
  "hex_parse acc [] = Some acc"
| "hex_parse acc (c # cs) =
     (case hex_value c of None \<Rightarrow> None | Some d \<Rightarrow> hex_parse (16 * acc + d) cs)"

definition parse_uuid :: "string \<Rightarrow> uuid option" where
  "parse_uuid s =
     (let t = remove_sub ''uuid:'' (remove_sub ''urn:'' s);
          h = filter (\<lambda>c. c \<noteq> CHR ''-'') (strip_chars ''{}'' t)
      in if length h = 32 then hex_parse 0 h else None)"

definition opt_uuid :: "uuid option \<Rightarrow> json" where
  "opt_uuid u = (case u of None \<Rightarrow> JNull | Some n \<Rightarrow> JStr (uuid_str n))"

section \<open>Instants as text\<close>

text \<open>
  \<open>datetime.isoformat()\<close> of an aware UTC instant, from the proleptic Gregorian calendar:
  the civil date of a day number counted from 1970-01-01, then the time of day, with
  microseconds only when they are not zero.
\<close>

definition civil :: "int \<Rightarrow> int \<times> int \<times> int" where
  "civil days =
     (let z = days + 719468; era = z div 146097; doe = z mod 146097;
          yoe = (doe - doe div 1460 + doe div 36524 - doe div 146096) div 365;
          doy = doe - (365 * yoe + yoe div 4 - yoe div 100);
          mp = (5 * doy + 2) div 153;
          d = doy - (153 * mp + 2) div 5 + 1;
          m = (if mp < 10 then mp + 3 else mp - 9);
          y = yoe + era * 400 + (if m \<le> 2 then 1 else 0)
      in (y, m, d))"

definition isoformat :: "time \<Rightarrow> string" where
  "isoformat t =
     (let days = t div 86400000000; r = t mod 86400000000; us = r mod 1000000;
          sec = r div 1000000; (y, m, d) = civil days;
          f = dec_fixed
      in f 4 y @ ''-'' @ f 2 m @ ''-'' @ f 2 d @ ''T'' @ f 2 (sec div 3600) @ '':''
           @ f 2 (sec div 60 mod 60) @ '':'' @ f 2 (sec mod 60)
           @ (if us = 0 then [] else ''.'' @ f 6 us) @ ''+00:00'')"

section \<open>fnmatch\<close>

text \<open>
  \<open>fnmatch.fnmatch\<close> on a POSIX system. A bracket expression extends to the next \<open>]\<close>
  that is not its first character (after an optional \<open>!\<close>); without one the \<open>[\<close> is a
  literal. Inside, \<open>x-y\<close> is a range.
\<close>

fun in_class :: "string \<Rightarrow> char \<Rightarrow> bool" where
  "in_class [] c = False"
| "in_class [x] c = (x = c)"
| "in_class [x, y] c = (x = c \<or> y = c)"
| "in_class (x # d # y # r) c =
     (if d = CHR ''-'' then (ord x \<le> ord c \<and> ord c \<le> ord y) \<or> in_class r c
      else x = c \<or> in_class (d # y # r) c)"

definition class_match :: "string \<Rightarrow> char \<Rightarrow> bool" where
  "class_match stuff c =
     (case stuff of [] \<Rightarrow> False
      | x # xs \<Rightarrow> if x = CHR ''!'' then \<not> in_class xs c else in_class stuff c)"

definition eat :: "char \<Rightarrow> string \<Rightarrow> string \<times> string" where
  "eat d p = (case p of [] \<Rightarrow> ([], []) | c # cs \<Rightarrow> if c = d then ([d], cs) else ([], p))"

definition bracket :: "string \<Rightarrow> (string \<times> string) option" where
  "bracket p =
     (let (bang, p1) = eat (CHR ''!'') p; (close, p2) = eat (CHR '']'') p1;
          body = takeWhile (\<lambda>c. c \<noteq> CHR '']'') p2; rest = dropWhile (\<lambda>c. c \<noteq> CHR '']'') p2
      in if rest = [] then None else Some (bang @ close @ body, tl rest))"

lemma eat_length: "eat d p = (a, b) \<Longrightarrow> length b \<le> length p"
  by (auto simp: eat_def split: list.splits if_splits)

lemma bracket_shorter:
  assumes "bracket p = Some (a, r)"
  shows "length r < length p"
proof -
  obtain bang p1 where 1: "eat (CHR ''!'') p = (bang, p1)" by fastforce
  obtain close p2 where 2: "eat (CHR '']'') p1 = (close, p2)" by fastforce
  let ?rest = "dropWhile (\<lambda>c. c \<noteq> CHR '']'') p2"
  have "?rest \<noteq> []" and r: "r = tl ?rest"
    using assms 1 2 by (auto simp: bracket_def split: if_splits)
  then have "length r < length ?rest" by (cases ?rest) auto
  also have "length ?rest \<le> length p2" by (rule length_dropWhile_le)
  also have "length p2 \<le> length p" using eat_length [OF 1] eat_length [OF 2] by simp
  finally show ?thesis .
qed

function fnmatch :: "string \<Rightarrow> string \<Rightarrow> bool" where
  "fnmatch s [] = (s = [])"
| "fnmatch s (p # ps) =
     (if p = CHR ''*'' then
        (if s = [] then fnmatch s ps else fnmatch s ps \<or> fnmatch (tl s) (p # ps))
      else if s = [] then False
      else if p = CHR ''?'' then fnmatch (tl s) ps
      else if p = CHR ''['' then
        (case bracket ps of None \<Rightarrow> hd s = p \<and> fnmatch (tl s) ps
         | Some (stuff, rest) \<Rightarrow> class_match stuff (hd s) \<and> fnmatch (tl s) rest)
      else hd s = p \<and> fnmatch (tl s) ps)"
  by pat_completeness auto
termination
  by (relation "measure (\<lambda>(s, p). length s + length p)") (auto dest: bracket_shorter simp: neq_Nil_conv)

declare fnmatch.simps(2) [simp del]

section \<open>urlparse\<close>

record url =
  url_scheme :: string
  url_netloc :: string

definition scheme_char :: "char \<Rightarrow> bool" where
  "scheme_char c = (is_alpha c \<or> is_digit c \<or> c \<in> set ''+-.'')"

definition index_of :: "char \<Rightarrow> string \<Rightarrow> nat option" where
  "index_of d s =
     (let n = length (takeWhile (\<lambda>c. c \<noteq> d) s) in if n < length s then Some n else None)"

text \<open>
  \<open>urlsplit\<close>: leading control characters and spaces and all tabs and line ends are
  dropped; the scheme is what precedes the first colon if it is spelled as one; the
  network location ends at the first of \<open>/?#\<close>. Unbalanced brackets raise \<open>ValueError\<close>,
  and \<open>host_ok\<close> is the \<open>ipaddress\<close> syntax check of a bracketed host.
\<close>

definition urlparse :: "(string \<Rightarrow> bool) \<Rightarrow> string \<Rightarrow> url option" where
  "urlparse host_ok s0 =
     (let s = filter (\<lambda>c. ord c \<noteq> 9 \<and> ord c \<noteq> 10 \<and> ord c \<noteq> 13) (dropWhile (\<lambda>c. ord c \<le> 32) s0);
          (scheme, rest) =
            (case index_of (CHR '':'') s of
               None \<Rightarrow> ([], s)
             | Some i \<Rightarrow> if i > 0 \<and> is_alpha (hd s) \<and> list_all scheme_char (take i s)
                         then (lower (take i s), drop (Suc i) s) else ([], s));
          netloc = (if starts_with ''//'' rest
                    then takeWhile (\<lambda>c. c \<notin> set ''/?#'') (drop 2 rest) else []);
          opn = CHR ''['' \<in> set netloc; cls = CHR '']'' \<in> set netloc
      in if opn \<noteq> cls then None
         else if opn \<and> cls \<and> \<not> host_ok netloc then None
         else Some \<lparr>url_scheme = scheme, url_netloc = netloc\<rparr>)"

text \<open>\<open>text.rpartition("@")\<close> and \<open>text.partition(d)\<close>.\<close>

definition partition_at :: "char \<Rightarrow> string \<Rightarrow> string \<times> bool \<times> string" where
  "partition_at d s =
     (case index_of d s of None \<Rightarrow> (s, False, []) | Some i \<Rightarrow> (take i s, True, drop (Suc i) s))"

definition rpartition_at :: "char \<Rightarrow> string \<Rightarrow> string \<times> bool \<times> string" where
  "rpartition_at d s =
     (case index_of d (rev s) of None \<Rightarrow> ([], False, s)
      | Some i \<Rightarrow> (take (length s - Suc i) s, True, drop (length s - i) s))"

definition url_username :: "url \<Rightarrow> string option" where
  "url_username u =
     (let (info, has, _) = rpartition_at (CHR ''@'') (url_netloc u)
      in if has then Some (fst (partition_at (CHR '':'') info)) else None)"

definition url_password :: "url \<Rightarrow> string option" where
  "url_password u =
     (let (info, has, _) = rpartition_at (CHR ''@'') (url_netloc u);
          (_, has_pw, pw) = partition_at (CHR '':'') info
      in if has \<and> has_pw then Some pw else None)"

definition url_hostinfo :: "url \<Rightarrow> string \<times> string" where
  "url_hostinfo u =
     (let (_, _, hostinfo) = rpartition_at (CHR ''@'') (url_netloc u);
          (_, open_br, bracketed) = partition_at (CHR ''['') hostinfo
      in if open_br then
           (let (host, _, after) = partition_at (CHR '']'') bracketed;
                (_, _, port) = partition_at (CHR '':'') after
            in (host, port))
         else (let (host, _, port) = partition_at (CHR '':'') hostinfo in (host, port)))"

definition url_hostname :: "url \<Rightarrow> string option" where
  "url_hostname u =
     (let host = fst (url_hostinfo u); (h, pct, zone) = partition_at (CHR ''%'') host
      in if host = [] then None
         else Some (lower h @ (if pct then ''%'' else []) @ zone))"

fun dec_parse :: "int \<Rightarrow> string \<Rightarrow> int" where
  "dec_parse acc [] = acc"
| "dec_parse acc (c # cs) = dec_parse (10 * acc + (ord c - 48)) cs"

text \<open>\<open>parsed.port\<close>: \<open>None\<close> is the \<open>ValueError\<close> of a port that is not a number below 65536.\<close>

definition url_port :: "url \<Rightarrow> int option option" where
  "url_port u =
     (let p = snd (url_hostinfo u)
      in if p = [] then Some None
         else if list_all is_digit p \<and> dec_parse 0 p \<le> 65535 then Some (Some (dec_parse 0 p))
         else None)"

section \<open>Lemmas\<close>

text \<open>The hexadecimal text of a number reads back as that number.\<close>

lemma mod16_cases:
  assumes "0 \<le> (d::int)" and "d < 16"
  shows "d = 0 \<or> d = 1 \<or> d = 2 \<or> d = 3 \<or> d = 4 \<or> d = 5 \<or> d = 6 \<or> d = 7 \<or> d = 8 \<or> d = 9
     \<or> d = 10 \<or> d = 11 \<or> d = 12 \<or> d = 13 \<or> d = 14 \<or> d = 15"
  using assms by presburger

lemma hex_value_hex_char:
  assumes "0 \<le> d" and "d < 16"
  shows "hex_value (hex_char d) = Some d"
  using mod16_cases [OF assms]
  by (elim disjE) (simp_all add: hex_char_def digit_char_def hex_value_def is_digit_def ord_def)

lemma hex_parse_append:
  "hex_parse acc (xs @ ys) =
     (case hex_parse acc xs of None \<Rightarrow> None | Some a \<Rightarrow> hex_parse a ys)"
  by (induction xs arbitrary: acc) (auto split: option.splits)

lemma hex_parse_hex_fixed:
  "0 \<le> n \<Longrightarrow> hex_parse acc (hex_fixed k n) = Some (16 ^ k * acc + n mod 16 ^ k)"
proof (induction k arbitrary: n)
  case (Suc k)
  have "n mod 16 ^ Suc k = 16 * (n div 16 mod 16 ^ k) + n mod 16"
    using zmod_zmult2_eq [of "16 ^ k" n 16] by (simp add: algebra_simps)
  moreover have "0 \<le> n div 16" using Suc.prems by simp
  ultimately show ?case
    by (simp add: hex_parse_append Suc.IH hex_value_hex_char algebra_simps)
qed simp

lemma length_hex_fixed [simp]: "length (hex_fixed k n) = k"
  by (induction k arbitrary: n) auto

lemma hex_char_plain: "hex_char d \<notin> set ''-:{}''"
  by (auto simp: hex_char_def digit_char_def)

lemma hex_fixed_plain: "set (hex_fixed k n) \<inter> set ''-:{}'' = {}"
  using hex_char_plain by (induction k arbitrary: n) auto

lemma starts_with_subset: "starts_with p s \<Longrightarrow> set p \<subseteq> set s"
  by (induction p s rule: starts_with.induct) auto

lemma remove_sub_absent: "\<not> set p \<subseteq> set s \<Longrightarrow> remove_sub p s = s"
proof -
  have "\<not> set p \<subseteq> set s \<Longrightarrow> remove_sub_from p n s = drop n s" for n
  proof (induction p n s rule: remove_sub_from.induct)
    case (2 p n c cs)
    then show ?case by (auto dest: starts_with_subset)
  next
    case (3 p c cs)
    then show ?case using starts_with_subset [of p "c # cs"] by auto
  qed simp
  from this [of 0] show "\<not> set p \<subseteq> set s \<Longrightarrow> remove_sub p s = s"
    by (simp add: remove_sub_def)
qed

lemma dropWhile_absent: "set s \<inter> set cs = {} \<Longrightarrow> dropWhile (\<lambda>c. c \<in> set cs) s = s"
  by (cases s) auto

lemma strip_chars_absent: "set s \<inter> set cs = {} \<Longrightarrow> strip_chars cs s = s"
proof -
  assume a: "set s \<inter> set cs = {}"
  then have "set (rev s) \<inter> set cs = {}" by simp
  from dropWhile_absent [OF a] dropWhile_absent [OF this] show ?thesis
    by (simp add: strip_chars_def)
qed

lemma filter_uuid_str: "filter (\<lambda>c. c \<noteq> CHR ''-'') (uuid_str n) = hex_fixed 32 n"
proof -
  let ?h = "hex_fixed 32 n"
  have keep: "filter (\<lambda>c. c \<noteq> CHR ''-'') xs = xs" if "set xs \<subseteq> set ?h" for xs
    using that hex_fixed_plain [of 32 n] by (auto simp: filter_id_conv)
  have "take 4 (drop 16 ?h) @ drop 20 ?h = drop 16 ?h"
    using append_take_drop_id [of 4 "drop 16 ?h"] by simp
  moreover have "take 4 (drop 12 ?h) @ drop 16 ?h = drop 12 ?h"
    using append_take_drop_id [of 4 "drop 12 ?h"] by simp
  moreover have "take 4 (drop 8 ?h) @ drop 12 ?h = drop 8 ?h"
    using append_take_drop_id [of 4 "drop 8 ?h"] by simp
  ultimately have parts: "take 8 ?h @ take 4 (drop 8 ?h) @ take 4 (drop 12 ?h)
      @ take 4 (drop 16 ?h) @ drop 20 ?h = ?h"
    by (simp del: hex_fixed.simps)
  have "filter (\<lambda>c. c \<noteq> CHR ''-'') (uuid_str n) =
      take 8 ?h @ take 4 (drop 8 ?h) @ take 4 (drop 12 ?h) @ take 4 (drop 16 ?h) @ drop 20 ?h"
    by (simp add: uuid_str_def Let_def keep set_take_subset set_drop_subset
        subset_trans [OF set_take_subset set_drop_subset] del: hex_fixed.simps)
  then show ?thesis using parts by simp
qed

lemma set_uuid_str: "set (uuid_str n) \<subseteq> insert (CHR ''-'') (set (hex_fixed 32 n))"
proof
  fix c
  assume "c \<in> set (uuid_str n)"
  then show "c \<in> insert (CHR ''-'') (set (hex_fixed 32 n))"
    by (cases "c = CHR ''-''") (auto simp flip: filter_uuid_str)
qed

theorem parse_uuid_str:
  assumes "0 \<le> n" and "n < 2 ^ 128"
  shows "parse_uuid (uuid_str n) = Some n"
proof -
  have no: "CHR '':'' \<notin> set (uuid_str n)" "set (uuid_str n) \<inter> set ''{}'' = {}"
    using set_uuid_str [of n] hex_fixed_plain [of 32 n] by auto
  then have "remove_sub ''uuid:'' (remove_sub ''urn:'' (uuid_str n)) = uuid_str n"
    by (simp add: remove_sub_absent)
  moreover have "strip_chars ''{}'' (uuid_str n) = uuid_str n"
    using no(2) by (rule strip_chars_absent)
  moreover have "n mod 16 ^ 32 = n" using assms by simp
  ultimately show ?thesis
    using assms(1) by (simp add: parse_uuid_def filter_uuid_str hex_parse_hex_fixed Let_def)
qed

lemma uuid_str_inj:
  assumes "uuid_str a = uuid_str b" "0 \<le> a" "a < 2 ^ 128" "0 \<le> b" "b < 2 ^ 128"
  shows "a = b"
  using assms parse_uuid_str by (metis option.inject)

text \<open>Patterns.\<close>

lemma fnmatch_star [simp]: "fnmatch s ''*''"
proof (induction s)
  case Nil
  show ?case by (subst fnmatch.simps(2)) simp
next
  case (Cons c s)
  then show ?case by (subst fnmatch.simps(2)) simp
qed

lemma fnmatch_plain:
  "CHR ''*'' \<noteq> p \<Longrightarrow> CHR ''?'' \<noteq> p \<Longrightarrow> CHR ''['' \<noteq> p \<Longrightarrow>
     fnmatch s (p # ps) \<longleftrightarrow> s \<noteq> [] \<and> hd s = p \<and> fnmatch (tl s) ps"
  by (subst fnmatch.simps(2)) auto

lemma fnmatch_literal:
  "set p \<inter> set ''*?['' = {} \<Longrightarrow> fnmatch s p \<longleftrightarrow> s = p"
proof (induction p arbitrary: s)
  case (Cons c p)
  then show ?case by (cases s) (simp_all add: fnmatch_plain)
qed simp

lemma fnmatch_prefix:
  "set p \<inter> set ''*?['' = {} \<Longrightarrow> fnmatch s (p @ ''*'') \<longleftrightarrow> (\<exists>t. s = p @ t)"
proof (induction p arbitrary: s)
  case (Cons c p)
  then show ?case by (cases s) (simp_all add: fnmatch_plain)
qed simp

end
