(* ===== verification/PyRegex.thy ===== *)
theory PyRegex
  imports PyText
begin

text \<open>
  Python's \<open>re\<close> as far as the modelled patterns need it: a backtracking matcher in
  list-of-successes style. \<open>mt r s st\<close> lists the states (position, groups) in which \<open>r\<close>
  can leave the text \<open>s\<close> when started in \<open>st\<close>, in the order the backtracking engine
  would try them, so the first element is the match Python reports. Iteration carries
  fuel; the lemma \<open>star_iter_fuel\<close> shows that one unit per remaining character (plus one)
  already gives the result of any larger amount, because an iteration that consumes
  nothing is cut off.
\<close>

type_synonym groups = "(nat \<times> nat \<times> nat) list"
type_synonym rstate = "nat \<times> groups"

datatype regex =
    RChr "char \<Rightarrow> bool"
  | REps
  | RSeq regex regex
  | RAlt regex regex
  | RStar bool regex
  | RGroup nat regex
  | RWordB

fun star_iter :: "nat \<Rightarrow> (rstate \<Rightarrow> rstate list) \<Rightarrow> bool \<Rightarrow> rstate \<Rightarrow> rstate list" where
  "star_iter 0 f greedy st = [st]"
| "star_iter (Suc n) f greedy st =
     (let more = concat (map (star_iter n f greedy) (filter (\<lambda>st'. fst st < fst st') (f st)))
      in if greedy then more @ [st] else st # more)"

definition word_at :: "string \<Rightarrow> nat \<Rightarrow> bool" where
  "word_at s i = (i < length s \<and> is_word (s ! i))"

definition word_boundary :: "string \<Rightarrow> nat \<Rightarrow> bool" where
  "word_boundary s i = ((0 < i \<and> word_at s (i - 1)) \<noteq> word_at s i)"

primrec mt :: "regex \<Rightarrow> string \<Rightarrow> rstate \<Rightarrow> rstate list" where
  "mt (RChr p) s st =
     (if fst st < length s \<and> p (s ! fst st) then [(Suc (fst st), snd st)] else [])"
| "mt REps s st = [st]"
| "mt (RSeq a b) s st = concat (map (mt b s) (mt a s st))"
| "mt (RAlt a b) s st = mt a s st @ mt b s st"
| "mt (RStar greedy a) s st = star_iter (Suc (length s)) (mt a s) greedy st"
| "mt (RGroup g a) s st = map (\<lambda>(j, gs). (j, (g, fst st, j) # gs)) (mt a s st)"
| "mt RWordB s st = (if word_boundary s (fst st) then [st] else [])"

text \<open>\<open>pattern.match(s, i)\<close>, \<open>pattern.search(s)\<close> and \<open>pattern.sub(repl, s)\<close>.\<close>

definition rmatch :: "regex \<Rightarrow> string \<Rightarrow> nat \<Rightarrow> rstate option" where
  "rmatch r s i = (case mt r s (i, []) of [] \<Rightarrow> None | st # _ \<Rightarrow> Some st)"

definition rsearch :: "regex \<Rightarrow> string \<Rightarrow> bool" where
  "rsearch r s = list_ex (\<lambda>i. rmatch r s i \<noteq> None) [0 ..< Suc (length s)]"

definition slice :: "string \<Rightarrow> nat \<Rightarrow> nat \<Rightarrow> string" where
  "slice s i j = take (j - i) (drop i s)"

definition group_text :: "string \<Rightarrow> groups \<Rightarrow> nat \<Rightarrow> string" where
  "group_text s gs g = (case map_of gs g of None \<Rightarrow> [] | Some (i, j) \<Rightarrow> slice s i j)"

fun rsub_from :: "nat \<Rightarrow> regex \<Rightarrow> (string \<Rightarrow> groups \<Rightarrow> string) \<Rightarrow> string \<Rightarrow> nat \<Rightarrow> string" where
  "rsub_from 0 r repl s i = drop i s"
| "rsub_from (Suc n) r repl s i =
     (if length s \<le> i then []
      else case rmatch r s i of
             None \<Rightarrow> s ! i # rsub_from n r repl s (Suc i)
           | Some (j, gs) \<Rightarrow>
               if i < j then repl s gs @ rsub_from n r repl s j
               else s ! i # rsub_from n r repl s (Suc i))"

definition rsub :: "regex \<Rightarrow> (string \<Rightarrow> groups \<Rightarrow> string) \<Rightarrow> string \<Rightarrow> string" where
  "rsub r repl s = rsub_from (length s) r repl s 0"

text \<open>Building blocks of patterns.\<close>

definition ropt :: "regex \<Rightarrow> regex" where
  "ropt r = RAlt r REps"

definition rplus :: "regex \<Rightarrow> regex" where
  "rplus r = RSeq r (RStar True r)"

fun rseqs :: "regex list \<Rightarrow> regex" where
  "rseqs [] = REps"
| "rseqs [r] = r"
| "rseqs (r # rs) = RSeq r (rseqs rs)"

fun ralts :: "regex list \<Rightarrow> regex" where
  "ralts [] = RChr (\<lambda>_. False)"
| "ralts [r] = r"
| "ralts (r # rs) = RAlt r (ralts rs)"

definition rlit :: "string \<Rightarrow> regex" where
  "rlit w = rseqs (map (\<lambda>c. RChr (\<lambda>d. d = c)) w)"

text \<open>Literal text under \<open>re.IGNORECASE\<close>; the pattern is spelled in lower case.\<close>

definition rlit_ci :: "string \<Rightarrow> regex" where
  "rlit_ci w = rseqs (map (\<lambda>c. RChr (\<lambda>d. lower_char d = lower_char c)) w)"

section \<open>Enough fuel\<close>

lemma star_iter_fuel:
  assumes bound: "\<And>st st'. st' \<in> set (f st) \<Longrightarrow> fst st < fst st' \<Longrightarrow> fst st' \<le> L"
  shows "L - fst st < n \<Longrightarrow> L - fst st < m \<Longrightarrow> star_iter n f greedy st = star_iter m f greedy st"
proof (induction n arbitrary: m st)
  case (Suc n)
  then obtain m' where m: "m = Suc m'" by (cases m) auto
  have "star_iter n f greedy st' = star_iter m' f greedy st'"
    if "st' \<in> set (f st)" and "fst st < fst st'" for st'
  proof -
    have "fst st' \<le> L" using bound that by blast
    then have "L - fst st' < L - fst st" using that(2) by simp
    then have "L - fst st' < n" and "L - fst st' < m'" using Suc.prems m by linarith+
    then show ?thesis by (rule Suc.IH)
  qed
  then have "map (star_iter n f greedy) (filter (\<lambda>st'. fst st < fst st') (f st)) =
      map (star_iter m' f greedy) (filter (\<lambda>st'. fst st < fst st') (f st))"
    by auto
  then show ?case by (simp only: star_iter.simps m)
qed simp

lemma star_iter_Suc_cases:
  assumes "st' \<in> set (star_iter (Suc n) f greedy st)"
  obtains "st' = st" | t where "t \<in> set (f st)" "fst st < fst t" "st' \<in> set (star_iter n f greedy t)"
  using assms by (auto simp: Let_def split: if_splits)

lemma star_iter_bounded:
  assumes "\<And>st st'. fst st \<le> L \<Longrightarrow> st' \<in> set (f st) \<Longrightarrow> fst st' \<le> L"
  shows "fst st \<le> L \<Longrightarrow> st' \<in> set (star_iter n f greedy st) \<Longrightarrow> fst st' \<le> L"
proof (induction n arbitrary: st)
  case (Suc n)
  from Suc.prems(2) show ?case
    by (rule star_iter_Suc_cases) (use Suc assms in blast)+
qed simp

lemma mt_bounded: "fst st \<le> length s \<Longrightarrow> st' \<in> set (mt r s st) \<Longrightarrow> fst st' \<le> length s"
proof (induction r arbitrary: st st')
  case (RSeq a b)
  from RSeq.prems(2) obtain t where t: "t \<in> set (mt a s st)" and st': "st' \<in> set (mt b s t)"
    by auto
  have "fst t \<le> length s" using RSeq.IH(1) [OF RSeq.prems(1) t] .
  then show ?case using st' by (rule RSeq.IH(2))
next
  case (RStar greedy r)
  from RStar.prems(2) have "st' \<in> set (star_iter (Suc (length s)) (mt r s) greedy st)"
    by (simp only: mt.simps)
  with RStar.prems(1) show ?case by (rule star_iter_bounded [rotated]) (rule RStar.IH)
next
  case (RAlt a b)
  from RAlt.prems(2) have "st' \<in> set (mt a s st) \<or> st' \<in> set (mt b s st)" by simp
  then show ?case using RAlt.IH(1) [OF RAlt.prems(1)] RAlt.IH(2) [OF RAlt.prems(1)] by blast
next
  case (RGroup g a)
  from RGroup.prems(2) obtain t where "t \<in> set (mt a s st)" and "fst st' = fst t" by auto
  then show ?case using RGroup.IH [OF RGroup.prems(1)] by metis
next
  case (RChr p)
  then show ?case by (simp split: if_splits)
next
  case RWordB
  then show ?case by (simp split: if_splits)
qed simp

text \<open>So the fuel of \<open>RStar\<close> is enough: more of it never changes the matches.\<close>

lemma mt_star_fuel:
  assumes "fst st \<le> length s" and "length s < n"
  shows "mt (RStar greedy r) s st = star_iter n (\<lambda>t. if fst t \<le> length s then mt r s t else []) greedy st"
proof -
  let ?f = "\<lambda>t. if fst t \<le> length s then mt r s t else []"
  have same: "star_iter k (mt r s) greedy t = star_iter k ?f greedy t" if "fst t \<le> length s" for k t
    using that
  proof (induction k arbitrary: t)
    case (Suc k)
    have "star_iter k (mt r s) greedy u = star_iter k ?f greedy u" if "u \<in> set (mt r s t)" for u
      using Suc.IH mt_bounded [OF Suc.prems that] by blast
    then have "map (star_iter k (mt r s) greedy) (filter (\<lambda>u. fst t < fst u) (mt r s t)) =
        map (star_iter k ?f greedy) (filter (\<lambda>u. fst t < fst u) (?f t))"
      using Suc.prems by auto
    then show ?case by (simp only: star_iter.simps)
  qed simp
  have "star_iter (Suc (length s)) ?f greedy st = star_iter n ?f greedy st"
    by (rule star_iter_fuel [where L = "length s"]) (use assms mt_bounded in \<open>auto split: if_splits\<close>)
  then show ?thesis using same [OF assms(1)] by (simp del: star_iter.simps)
qed

end
