(* ===== verification/Redaction.thy ===== *)
theory Redaction
  imports PyRegex
begin

text \<open>
  \<open>security/redaction.py\<close> (and the secret-key pattern of \<open>actions/service.py\<close>, which has the
  same shape): the five patterns, \<open>redact_text\<close> and the recursive \<open>redact\<close>. The property that
  matters is that whatever is put in, no field whose name looks like a credential keeps its
  value, at any depth, and that field names and list lengths are untouched.
\<close>

section \<open>The patterns\<close>

definition key_word :: "string \<Rightarrow> regex" where
  "key_word w = rseqs [rlit_ci w, ropt (RChr (\<lambda>c. c \<in> set ''_-'')), rlit_ci ''key'']"

definition sensitive_key_re :: regex where
  "sensitive_key_re =
     ralts [rlit_ci ''authorization'', rlit_ci ''cookie'', rlit_ci ''password'', rlit_ci ''passwd'',
            rlit_ci ''secret'', rlit_ci ''token'', key_word ''api'', key_word ''access'',
            key_word ''private'']"

definition bearer_re :: regex where
  "bearer_re =
     rseqs [RWordB, rlit_ci ''bearer'', rplus (RChr is_space),
            rplus (RChr (\<lambda>c. is_alpha c \<or> is_digit c \<or> c \<in> set ''._~+/=-''))]"

definition credential_uri_re :: regex where
  "credential_uri_re =
     rseqs [RGroup 1 (rseqs [rplus (RChr is_word), rlit ''://'']),
            RGroup 2 (rplus (RChr (\<lambda>c. c \<notin> set '':/'' \<and> \<not> is_space c))),
            rlit '':'',
            RGroup 3 (rplus (RChr (\<lambda>c. c \<notin> set ''@/'' \<and> \<not> is_space c))),
            rlit ''@'']"

definition secret_assignment_re :: regex where
  "secret_assignment_re =
     rseqs [RWordB,
            RGroup 1 (ralts [rlit_ci ''password'', rlit_ci ''passwd'', rlit_ci ''secret'',
                             rlit_ci ''token'', key_word ''api'', key_word ''access'',
                             key_word ''private'', rlit_ci ''credential'']),
            RGroup 2 (rseqs [RStar True (RChr is_space), RChr (\<lambda>c. c \<in> set '':=''),
                             RStar True (RChr is_space)]),
            RGroup 3 (ralts [rseqs [RChr (\<lambda>c. c = CHR 0x22), RStar True (RChr (\<lambda>c. c \<noteq> CHR 0x22)),
                                    RChr (\<lambda>c. c = CHR 0x22)],
                             rseqs [RChr (\<lambda>c. c = CHR 0x27), RStar True (RChr (\<lambda>c. c \<noteq> CHR 0x27)),
                                    RChr (\<lambda>c. c = CHR 0x27)],
                             rplus (RChr (\<lambda>c. \<not> is_space c \<and> c \<notin> set '',;''))])]"

definition private_key_block_re :: regex where
  "private_key_block_re =
     (let label = RStar True (RChr (\<lambda>c. is_alpha c \<or> is_digit c \<or> c = CHR '' ''))
      in rseqs [rlit_ci ''-----BEGIN '', label, rlit_ci ''PRIVATE KEY-----'',
                RStar False (RChr (\<lambda>_. True)),
                rlit_ci ''-----END '', label, rlit_ci ''PRIVATE KEY-----''])"

definition secret_field_re :: regex where
  "secret_field_re =
     ralts [rlit_ci ''password'', rlit_ci ''passwd'', rlit_ci ''secret'', rlit_ci ''token'',
            key_word ''api'', key_word ''access'', key_word ''private'', rlit_ci ''credential'']"

section \<open>Redaction\<close>

definition redact_text :: "string \<Rightarrow> string" where
  "redact_text v =
     (let v1 = rsub private_key_block_re (\<lambda>_ _. ''[REDACTED PRIVATE KEY]'') v;
          v2 = rsub secret_assignment_re
                 (\<lambda>s gs. group_text s gs 1 @ group_text s gs 2 @ ''[REDACTED]'') v1;
          v3 = rsub bearer_re (\<lambda>_ _. ''Bearer [REDACTED]'') v2
      in rsub credential_uri_re (\<lambda>s gs. group_text s gs 1 @ ''[REDACTED]@'') v3)"

definition sensitive_key :: "string \<Rightarrow> bool" where
  "sensitive_key k = rsearch sensitive_key_re k"

fun redact_under :: "string option \<Rightarrow> json \<Rightarrow> json" where
  "redact_under key v =
     (if (case key of None \<Rightarrow> False | Some k \<Rightarrow> k \<noteq> [] \<and> sensitive_key k) then JStr ''[REDACTED]''
      else case v of
             JStr s \<Rightarrow> JStr (redact_text s)
           | JObj xs \<Rightarrow> JObj (map (\<lambda>p. (fst p, redact_under (Some (fst p)) (snd p))) xs)
           | JList xs \<Rightarrow> JList (map (redact_under None) xs)
           | _ \<Rightarrow> v)"

declare redact_under.simps [simp del]

definition redact :: "json \<Rightarrow> json" where
  "redact v = redact_under None v"

section \<open>What redaction guarantees\<close>

text \<open>No sensitive field keeps a value: the specification of a redacted document.\<close>

fun no_secret_field :: "json \<Rightarrow> bool" where
  "no_secret_field (JObj xs) =
     list_all (\<lambda>p. (sensitive_key (fst p) \<longrightarrow> snd p = JStr ''[REDACTED]'') \<and> no_secret_field (snd p)) xs"
| "no_secret_field (JList xs) = list_all no_secret_field xs"
| "no_secret_field _ = True"

text \<open>The skeleton of a document: field names and list lengths, as far as they survive.\<close>

lemma sensitive_key_Nil [simp]: "\<not> sensitive_key []"
  by code_simp

lemma redact_under_sensitive:
  "sensitive_key k \<Longrightarrow> redact_under (Some k) v = JStr ''[REDACTED]''"
  by (subst redact_under.simps) (cases k, auto)

lemma redact_obj: "redact (JObj xs) = JObj (map (\<lambda>p. (fst p, redact_under (Some (fst p)) (snd p))) xs)"
  by (simp add: redact_def redact_under.simps [of None])

lemma no_secret_field_redact_under: "no_secret_field (redact_under key v)"
proof (induction key v rule: redact_under.induct)
  case (1 key v)
  show ?case
  proof (cases "case key of None \<Rightarrow> False | Some k \<Rightarrow> k \<noteq> [] \<and> sensitive_key k")
    case True
    then show ?thesis by (subst redact_under.simps) simp
  next
    case False
    note IHs = "1.IH" [OF False]
    show ?thesis
      by (subst redact_under.simps)
        (use False IHs in \<open>auto simp: list_all_iff redact_under_sensitive split: json.split\<close>)
  qed
qed

lemma no_secret_field_redact [simp]: "no_secret_field (redact v)"
  by (simp add: redact_def no_secret_field_redact_under)

lemma is_obj_redact [simp]: "is_obj (redact v) = is_obj v"
  by (cases v) (simp_all add: redact_def redact_under.simps is_obj_def)

lemma redact_keys: "redact (JObj xs) = JObj ys \<Longrightarrow> map fst ys = map fst xs"
  by (auto simp: redact_obj)

lemma redact_keeps_plain:
  "\<not> sensitive_key k \<Longrightarrow> redact_under (Some k) (JInt i) = JInt i"
  by (subst redact_under.simps) simp

end
