(* ===== verification/Schema.thy ===== *)
theory Schema
  imports Enums Redaction
begin

text \<open>
  The relational schema of \<open>db/models.py\<close> for the modelled components, the store they
  share, and the code outside the repository they call.

  A row is a record with the columns of its table, each prefixed to keep the tables apart.
  Columns that no modelled operation reads or writes are left out of \<open>User\<close>, \<open>Workspace\<close>,
  \<open>Run\<close>, \<open>RunStep\<close>, \<open>Artifact\<close>, \<open>AggregateHead\<close>, \<open>CapabilityVersion\<close> and \<open>Connector\<close>;
  \<open>updated_at\<close> is left out everywhere, \<open>max_cost_amount\<close> is counted in units of its last digit, and \<open>created_at\<close> is kept where a query orders by it. A \<open>dict\<close>
  column is a \<open>jobj\<close>; a JSON column whose shape the code tests at run time is a \<open>json\<close>.

  The store \<open>db\<close> is one record with a list of rows per table, in insertion order.
  \<open>new_id\<close> is \<open>uuid7()\<close> idealised as a counter: every identifier is larger than the ones
  handed out before it.

  \<open>ext\<close> collects what is not code of the repository: SHA-256 over the canonical JSON
  text, JSON-Schema validation, the registered contracts (data files), the syntax check of
  bracketed hosts and the process environment.
\<close>

type_synonym jobj = "(string \<times> json) list"

section \<open>Identity tables\<close>

record department_row =
  dep_id :: uuid
  dep_organization_id :: uuid
  dep_name :: string

record user_row =
  user_id :: uuid
  user_organization_id :: uuid
  user_external_id :: string
  user_display_name :: string
  user_department_id :: "uuid option"
  user_active :: bool
  user_attributes :: jobj

record role_row =
  role_id :: uuid
  role_organization_id :: uuid
  role_name :: string
  role_permissions :: "json list"

record user_role_row =
  ur_organization_id :: uuid
  ur_user_id :: uuid
  ur_role_id :: uuid

record secret_reference_row =
  sec_organization_id :: uuid
  sec_name :: string
  sec_external_ref :: string

section \<open>Workspaces and collaboration\<close>

record workspace_row =
  ws_id :: uuid
  ws_organization_id :: uuid
  ws_owner_id :: uuid
  ws_classification :: classification
  ws_visibility :: visibility
  ws_name :: string
  ws_description :: string

record workspace_member_row =
  wm_organization_id :: uuid
  wm_workspace_id :: uuid
  wm_user_id :: uuid
  wm_can_write :: bool
  wm_permissions :: "string list"
  wm_created_by :: uuid
  wm_created_at :: time

record workspace_task_row =
  wt_id :: uuid
  wt_organization_id :: uuid
  wt_workspace_id :: uuid
  wt_title :: string
  wt_description :: string
  wt_status :: workspace_task_status
  wt_priority :: workspace_task_priority
  wt_assignee_id :: "uuid option"
  wt_created_by :: uuid
  wt_source_run_id :: "uuid option"
  wt_due_at :: "time option"
  wt_completed_at :: "time option"
  wt_version :: int
  wt_updated_at :: time

record workspace_decision_row =
  wd_id :: uuid
  wd_organization_id :: uuid
  wd_workspace_id :: uuid
  wd_status :: workspace_decision_status
  wd_current_version :: int
  wd_created_by :: uuid
  wd_decided_by :: "uuid option"
  wd_source_run_id :: "uuid option"
  wd_supersedes_decision_id :: "uuid option"
  wd_decided_at :: "time option"
  wd_updated_at :: time

record workspace_decision_version_row =
  dv_id :: uuid
  dv_organization_id :: uuid
  dv_decision_id :: uuid
  dv_version :: int
  dv_title :: string
  dv_summary :: string
  dv_rationale :: string
  dv_alternatives :: "string list"
  dv_created_by :: uuid
  dv_checksum_sha256 :: string
  dv_created_at :: time

section \<open>Threads, runs and steps\<close>

record thread_row =
  thread_id :: uuid
  thread_organization_id :: uuid
  thread_workspace_id :: uuid
  thread_status_of :: thread_status
  thread_created_by :: uuid
  thread_title :: string
  thread_parent_thread_id :: "uuid option"
  thread_forked_from_turn_id :: "uuid option"
  thread_archived_at :: "time option"

record turn_row =
  turn_id :: uuid
  turn_organization_id :: uuid
  turn_thread_id :: uuid
  turn_ordinal :: int
  turn_created_by :: uuid
  turn_input_text :: string
  turn_sanitized_input :: string
  turn_context_refs :: "jobj list"
  turn_attachment_refs :: "jobj list"
  turn_created_at :: time

record run_row =
  run_id :: uuid
  run_organization_id :: uuid
  run_turn_id :: uuid
  run_status_of :: run_status
  run_lease_owner :: "string option"
  run_lease_expires_at :: "time option"
  run_completed_at :: "time option"
  run_error_code :: "string option"
  run_error_message :: "string option"
  run_aggregate_version :: int
  run_agent_version_id :: "uuid option"
  run_model_profile_id :: "uuid option"
  run_prompt_pins :: "jobj list"
  run_context_budget :: jobj
  run_conversation_compact :: jobj
  run_workspace_context :: jobj
  run_max_steps :: int
  run_timeout_seconds :: int
  run_max_input_tokens :: int
  run_max_output_tokens :: int
  run_max_cost_amount :: int
  run_deadline_at :: "time option"
  run_cancellation_requested_at :: "time option"
  run_replay_of_run_id :: "uuid option"
  run_created_at :: time

record run_step_row =
  step_id :: uuid
  step_organization_id :: uuid
  step_run_id :: uuid
  step_ordinal :: int
  step_status_of :: step_status
  step_completed_at :: "time option"

section \<open>Artifacts\<close>

datatype artifact_kind =
  Kind_TEXT | Kind_TABLE | Kind_CHART | Kind_SQL | Kind_CODE | Kind_DIFF | Kind_REPORT
  | Kind_DASHBOARD | Kind_FILE | Kind_DIAGRAM

record artifact_row =
  art_id :: uuid
  art_organization_id :: uuid
  art_run_id :: "uuid option"
  art_kind :: artifact_kind
  art_title :: string
  art_inline_content :: "json option"
  art_classification :: classification
  art_created_at :: time
  art_workspace_id :: uuid
  art_media_type :: string

section \<open>Events, outbox and audit\<close>

record event_row =
  ev_id :: uuid
  ev_organization_id :: uuid
  ev_aggregate_type :: string
  ev_aggregate_id :: uuid
  ev_sequence :: int
  ev_name :: string
  ev_run_id :: "uuid option"
  ev_run_sequence :: "int option"
  ev_causation_id :: "uuid option"
  ev_correlation_id :: uuid
  ev_actor_type :: actor_type
  ev_actor_id :: "uuid option"
  ev_schema_version :: int
  ev_classification :: classification
  ev_payload :: json
  ev_created_at :: time

record aggregate_head_row =
  ah_organization_id :: uuid
  ah_aggregate_type :: string
  ah_aggregate_id :: uuid
  ah_sequence :: int

record outbox_message_row =
  ob_id :: uuid
  ob_event_id :: uuid
  ob_topic :: string
  ob_payload :: json
  ob_created_at :: time
  ob_published_at :: "time option"
  ob_attempt_count :: int

record audit_row =
  au_id :: uuid
  au_organization_id :: uuid
  au_correlation_id :: uuid
  au_actor_type :: actor_type
  au_actor_id :: "uuid option"
  au_action :: string
  au_resource_type :: string
  au_resource_id :: "string option"
  au_outcome :: string
  au_risk_level :: "risk_level option"
  au_policy_decision_id :: "uuid option"
  au_approval_id :: "uuid option"
  au_redacted_metadata :: json
  au_latency_ms :: "int option"
  au_created_at :: time

section \<open>Capabilities, connectors and policies\<close>

record capability_definition_row =
  cd_id :: uuid
  cd_organization_id :: uuid
  cd_name :: string
  cd_status :: registry_status

record capability_version_row =
  cv_id :: uuid
  cv_organization_id :: uuid
  cv_capability_id :: uuid
  cv_version :: int
  cv_transport :: capability_transport
  cv_risk_level :: risk_level
  cv_side_effect :: side_effect
  cv_permission_action :: string
  cv_input_schema :: json
  cv_output_schema :: json
  cv_timeout_seconds :: int
  cv_checksum_sha256 :: string
  cv_data_classification :: classification

record connector_row =
  con_id :: uuid
  con_organization_id :: uuid
  con_name :: string
  con_connector_type :: string
  con_status :: connector_status
  con_environment :: string
  con_endpoint :: "string option"
  con_configuration :: jobj
  con_credential_ref :: "string option"
  con_declared_grants :: "json list"
  con_allowed_egress :: "json list"

record capability_binding_row =
  cb_id :: uuid
  cb_organization_id :: uuid
  cb_capability_version_id :: uuid
  cb_connector_id :: uuid
  cb_environment :: string
  cb_resource_selector :: jobj
  cb_enabled :: bool

record policy_row =
  pol_id :: uuid
  pol_organization_id :: uuid
  pol_name :: string
  pol_version :: int
  pol_priority :: int
  pol_effect :: decision_effect
  pol_enabled :: bool
  pol_conditions :: json
  pol_obligations :: "json list"
  pol_reason :: string
  pol_created_at :: time

record policy_decision_row =
  pd_id :: uuid
  pd_organization_id :: uuid
  pd_run_id :: "uuid option"
  pd_principal_id :: uuid
  pd_agent_version_id :: "uuid option"
  pd_capability_version_id :: "uuid option"
  pd_action :: string
  pd_resource :: json
  pd_context :: json
  pd_risk_level :: risk_level
  pd_effect :: decision_effect
  pd_matched_policy_ids :: "string list"
  pd_obligations :: "json list"
  pd_reason_codes :: "string list"
  pd_input_fingerprint :: string
  pd_created_at :: time

record approval_row =
  ap_id :: uuid
  ap_organization_id :: uuid
  ap_run_id :: uuid
  ap_step_id :: "uuid option"
  ap_policy_decision_id :: uuid
  ap_status :: approval_status
  ap_reason :: string
  ap_requested_by :: uuid
  ap_approver_constraints :: jobj
  ap_decided_by :: "uuid option"
  ap_decision_reason :: "string option"
  ap_expires_at :: time
  ap_decided_at :: "time option"
  ap_created_at :: time

section \<open>Governed actions\<close>

record action_request_row =
  ar_id :: uuid
  ar_organization_id :: uuid
  ar_workspace_id :: uuid
  ar_action_type :: action_type
  ar_title :: string
  ar_description :: string
  ar_environment :: string
  ar_target :: jobj
  ar_parameters :: jobj
  ar_rollback_parameters :: jobj
  ar_status :: action_status
  ar_owner_id :: uuid
  ar_requested_by :: uuid
  ar_idempotency_key :: string
  ar_timeout_seconds :: int
  ar_deadline_at :: "time option"
  ar_plan_checksum_sha256 :: "string option"
  ar_preflight :: jobj
  ar_result :: jobj
  ar_started_at :: "time option"
  ar_completed_at :: "time option"
  ar_cancellation_requested_at :: "time option"
  ar_lease_owner :: "string option"
  ar_lease_expires_at :: "time option"
  ar_error_code :: "string option"
  ar_error_message :: "string option"
  ar_created_at :: time

record action_plan_row =
  pl_id :: uuid
  pl_organization_id :: uuid
  pl_action_request_id :: uuid
  pl_spec :: jobj
  pl_checksum_sha256 :: string
  pl_created_by :: uuid
  pl_created_at :: time

record action_approval_row =
  aa_id :: uuid
  aa_organization_id :: uuid
  aa_action_request_id :: uuid
  aa_purpose :: action_approval_purpose
  aa_revision :: int
  aa_plan_checksum_sha256 :: string
  aa_status :: approval_status
  aa_reason :: string
  aa_requested_by :: uuid
  aa_approver_constraints :: jobj
  aa_decided_by :: "uuid option"
  aa_decision_reason :: "string option"
  aa_expires_at :: time
  aa_decided_at :: "time option"
  aa_created_at :: time

record action_attempt_row =
  at_id :: uuid
  at_organization_id :: uuid
  at_action_request_id :: uuid
  at_purpose :: action_approval_purpose
  at_ordinal :: int
  at_status :: action_attempt_status
  at_capability_version_id :: uuid
  at_connector_id :: uuid
  at_approval_id :: uuid
  at_policy_decision_id :: "uuid option"
  at_idempotency_key :: string
  at_input_payload :: jobj
  at_output :: jobj
  at_started_at :: "time option"
  at_completed_at :: "time option"
  at_error_code :: "string option"
  at_error_message :: "string option"
  at_created_at :: time

record notification_row =
  nd_id :: uuid
  nd_organization_id :: uuid
  nd_workspace_id :: uuid
  nd_execution_id :: "uuid option"
  nd_action_request_id :: "uuid option"
  nd_step_execution_id :: "uuid option"
  nd_recipient_id :: uuid
  nd_title :: string
  nd_body :: string
  nd_payload :: jobj
  nd_status :: notification_status
  nd_idempotency_key :: string
  nd_delivered_at :: time
  nd_read_at :: "time option"
  nd_created_at :: time

section \<open>The store\<close>

record db =
  t_departments :: "department_row list"
  t_users :: "user_row list"
  t_roles :: "role_row list"
  t_user_roles :: "user_role_row list"
  t_secrets :: "secret_reference_row list"
  t_workspaces :: "workspace_row list"
  t_members :: "workspace_member_row list"
  t_tasks :: "workspace_task_row list"
  t_decisions :: "workspace_decision_row list"
  t_decision_versions :: "workspace_decision_version_row list"
  t_threads :: "thread_row list"
  t_turns :: "turn_row list"
  t_runs :: "run_row list"
  t_steps :: "run_step_row list"
  t_events :: "event_row list"
  t_heads :: "aggregate_head_row list"
  t_outbox :: "outbox_message_row list"
  t_audits :: "audit_row list"
  t_capability_definitions :: "capability_definition_row list"
  t_capability_versions :: "capability_version_row list"
  t_connectors :: "connector_row list"
  t_bindings :: "capability_binding_row list"
  t_policies :: "policy_row list"
  t_policy_decisions :: "policy_decision_row list"
  t_approvals :: "approval_row list"
  t_actions :: "action_request_row list"
  t_plans :: "action_plan_row list"
  t_action_approvals :: "action_approval_row list"
  t_attempts :: "action_attempt_row list"
  t_notifications :: "notification_row list"
  next_id :: uuid

definition new_id :: "(db, uuid) op" where
  "new_id = andthen (reads next_id) (\<lambda>i. andthen (modify (\<lambda>d. d\<lparr>next_id := i + 1\<rparr>)) (\<lambda>_. ret i))"

lemma new_id_iff [simp]:
  "new_id d = (r, d') \<longleftrightarrow> r = Inr (next_id d) \<and> d' = d\<lparr>next_id := next_id d + 1\<rparr>"
  by (auto simp: new_id_def op_simps)

section \<open>Code outside the repository\<close>

text \<open>
  \<open>ext_sha256 v\<close> is \<open>hashlib.sha256(json.dumps(v, sort_keys=True, ...).encode()).hexdigest()\<close>;
  callers give it the canonical tree \<open>sort_keys v\<close>. \<open>ext_schema s v\<close> is the path of the error
  that the JSON-Schema validator raises, \<open>None\<close> when \<open>v\<close> satisfies \<open>s\<close>.
  \<open>ext_event_payload\<close> and \<open>ext_envelope\<close> are the sorted validator errors of the event
  contracts (path, schema path, validator name). \<open>ext_error_codes\<close> are the registered codes.
\<close>

type_synonym schema_error = "string \<times> string \<times> string"

record ext =
  ext_sha256 :: "json \<Rightarrow> string"
  ext_schema :: "json \<Rightarrow> json \<Rightarrow> string option"
  ext_event_versions :: "(string \<times> int) list"
  ext_event_payload :: "string \<Rightarrow> int \<Rightarrow> json \<Rightarrow> schema_error list"
  ext_envelope :: "json \<Rightarrow> schema_error list"
  ext_error_codes :: "string list"
  ext_host_ok :: "string \<Rightarrow> bool"
  ext_environ :: "string \<Rightarrow> string option"

definition sha256_hex :: "ext \<Rightarrow> json \<Rightarrow> string" where
  "sha256_hex x v = ext_sha256 x (sort_keys v)"

text \<open>
  \<open>contracts/errors/catalog.py\<close>: an error code that is stored (the \<open>error_code\<close> columns) or
  returned has to be registered; \<open>validates("error_code")\<close> of \<open>db/base.py\<close> calls this check
  on every assignment.
\<close>

definition validate_error_code :: "ext \<Rightarrow> string option \<Rightarrow> err + unit" where
  "validate_error_code x code =
     (case code of None \<Rightarrow> Inr ()
      | Some c \<Rightarrow> if c \<in> set (ext_error_codes x) then Inr ()
                 else Inl (PyError ''ErrorContractDefinitionError''
                            (''Unregistered Obsion error code: '' @ c)))"

lemma validate_error_code_None [simp]: "validate_error_code x None = Inr ()"
  by (simp add: validate_error_code_def)

lemma validate_error_code_Some [simp]:
  "validate_error_code x (Some c) = Inr u \<longleftrightarrow> c \<in> set (ext_error_codes x)"
  by (simp add: validate_error_code_def)

section \<open>Clocks\<close>

text \<open>
  \<open>utc_now()\<close> is read several times by most operations. An operation takes the sequence of
  the readings, \<open>clk 0\<close> the first; \<open>later k clk\<close> are the readings after the first \<open>k\<close>.
\<close>

type_synonym clock = "nat \<Rightarrow> time"

definition later :: "nat \<Rightarrow> clock \<Rightarrow> clock" where
  "later k clk = (\<lambda>i. clk (k + i))"

lemma later_apply [simp]: "later k clk i = clk (k + i)"
  by (simp add: later_def)

end
