(* ===== verification/Identity.thy ===== *)
theory Identity
  imports Schema
begin

text \<open>
  Who acts and what they may touch: \<open>security/identity.py\<close> (the principal and its permission
  test), the principal loader of \<open>security/auth.py\<close>, and \<open>security/workspace_access.py\<close>
  (the access predicate every query on workspace data carries, and the three
  \<open>require_*_access\<close> lookups). The lemmas show that access never crosses an organization.
\<close>

section \<open>Principals\<close>

record principal =
  p_id :: uuid
  p_organization_id :: uuid
  p_external_id :: string
  p_display_name :: string
  p_department_id :: "uuid option"
  p_department :: "string option"
  p_roles :: "string set"
  p_permissions :: "string set"
  p_attributes :: jobj

definition can :: "principal \<Rightarrow> string \<Rightarrow> bool" where
  "can p permission \<longleftrightarrow> ''*'' \<in> p_permissions p \<or> permission \<in> p_permissions p"

text \<open>A left outer join: every row with each of its partners, or with none.\<close>

definition outer_join :: "('a \<Rightarrow> 'b list) \<Rightarrow> 'a list \<Rightarrow> ('a \<times> 'b option) list" where
  "outer_join partners rows =
     concat (map (\<lambda>a. if partners a = [] then [(a, None)]
                       else map (\<lambda>b. (a, Some b)) (partners a)) rows)"

definition json_strings :: "json list \<Rightarrow> string list" where
  "json_strings js = concat (map (\<lambda>j. case j of JStr s \<Rightarrow> [s] | _ \<Rightarrow> []) js)"

text \<open>
  The rows of the query: each active user with the external identifier, joined with its
  department, its role assignments and their roles.
\<close>

definition active_users :: "uuid \<Rightarrow> string \<Rightarrow> db \<Rightarrow> user_row list" where
  "active_users org ext d =
     filter (\<lambda>u. user_organization_id u = org \<and> user_external_id u = ext \<and> user_active u) (t_users d)"

definition user_departments :: "db \<Rightarrow> user_row \<Rightarrow> department_row list" where
  "user_departments d u =
     filter (\<lambda>de. dep_organization_id de = user_organization_id u
                  \<and> Some (dep_id de) = user_department_id u) (t_departments d)"

definition user_assignments :: "db \<Rightarrow> user_row \<Rightarrow> user_role_row list" where
  "user_assignments d u =
     filter (\<lambda>ur. ur_organization_id ur = user_organization_id u \<and> ur_user_id ur = user_id u)
       (t_user_roles d)"

definition assigned_roles :: "db \<Rightarrow> user_role_row option \<Rightarrow> role_row list" where
  "assigned_roles d a =
     (case a of None \<Rightarrow> []
      | Some ur \<Rightarrow> filter (\<lambda>ro. role_organization_id ro = ur_organization_id ur
                               \<and> role_id ro = ur_role_id ur) (t_roles d))"

definition principal_rows ::
  "uuid \<Rightarrow> string \<Rightarrow> db \<Rightarrow> ((user_row \<times> department_row option) \<times> role_row option) list" where
  "principal_rows org ext d =
     map (\<lambda>r. (fst (fst r), snd r))
       (outer_join (\<lambda>r. assigned_roles d (snd r))
         (outer_join (\<lambda>r. user_assignments d (fst r))
           (outer_join (user_departments d) (active_users org ext d))))"

definition load_principal :: "uuid \<Rightarrow> string \<Rightarrow> (db, principal) op" where
  "load_principal org ext =
     andthen (reads (principal_rows org ext)) (\<lambda>rows.
       case rows of
         [] \<Rightarrow> raise (AuthorizationError ''unknown_principal''
                       ''The authenticated user is not provisioned'' [])
       | row # _ \<Rightarrow>
           (let user = fst (fst row); department = snd (fst row);
                roles = concat (map (\<lambda>r. case snd r of None \<Rightarrow> [] | Some ro \<Rightarrow> [ro]) rows)
            in ret \<lparr>p_id = user_id user, p_organization_id = user_organization_id user,
                    p_external_id = user_external_id user,
                    p_display_name = user_display_name user,
                    p_department_id = map_option dep_id department,
                    p_department = map_option dep_name department,
                    p_roles = set (map role_name roles),
                    p_permissions = set (concat (map (\<lambda>ro. json_strings (role_permissions ro)) roles)),
                    p_attributes = user_attributes user\<rparr>))"

definition load_principal_by_id :: "uuid \<Rightarrow> uuid \<Rightarrow> (db, principal) op" where
  "load_principal_by_id org uid =
     andthen (reads (\<lambda>d. find (\<lambda>u. user_id u = uid \<and> user_organization_id u = org \<and> user_active u)
                          (t_users d))) (\<lambda>u.
     case u of
       None \<Rightarrow> raise (AuthorizationError ''unknown_principal'' ''The run owner is not provisioned'' [])
     | Some user \<Rightarrow> load_principal org (user_external_id user))"

section \<open>Workspace access\<close>

definition is_member :: "principal \<Rightarrow> bool \<Rightarrow> db \<Rightarrow> workspace_row \<Rightarrow> bool" where
  "is_member p write d ws \<longleftrightarrow>
     (\<exists>m \<in> set (t_members d). wm_workspace_id m = ws_id ws
        \<and> wm_organization_id m = p_organization_id p \<and> wm_user_id m = p_id p
        \<and> (write \<longrightarrow> wm_can_write m))"

definition workspace_access_clause :: "principal \<Rightarrow> bool \<Rightarrow> db \<Rightarrow> workspace_row \<Rightarrow> bool" where
  "workspace_access_clause p write d ws =
     (if can p (if write then ''workspace.manage.all'' else ''workspace.read.all'') then True
      else if write then ws_owner_id ws = p_id p \<or> is_member p True d ws
      else ws_owner_id ws = p_id p \<or> ws_visibility ws = Vis_ORGANIZATION \<or> is_member p False d ws)"

definition require_workspace_access ::
  "principal \<Rightarrow> uuid \<Rightarrow> bool \<Rightarrow> (db, workspace_row) op" where
  "require_workspace_access p wid write =
     andthen (reads (\<lambda>d. find (\<lambda>ws. ws_id ws = wid \<and> ws_organization_id ws = p_organization_id p
                              \<and> workspace_access_clause p write d ws) (t_workspaces d))) (\<lambda>found.
     case found of
       Some ws \<Rightarrow> ret ws
     | None \<Rightarrow>
         andthen (reads (\<lambda>d. find (\<lambda>ws. ws_id ws = wid \<and> ws_organization_id ws = p_organization_id p)
                              (t_workspaces d))) (\<lambda>present.
         if write \<and> present \<noteq> None
         then raise (AuthorizationError ''workspace_write_denied''
                      ''Workspace changes are not permitted'' [])
         else raise (NotFoundError ''Workspace'' (uuid_str wid))))"

definition require_thread_access :: "principal \<Rightarrow> uuid \<Rightarrow> bool \<Rightarrow> (db, thread_row) op" where
  "require_thread_access p tid write =
     andthen (reads (\<lambda>d. find (\<lambda>t. thread_id t = tid \<and> thread_organization_id t = p_organization_id p
        \<and> (\<exists>ws \<in> set (t_workspaces d). ws_id ws = thread_workspace_id t
              \<and> ws_organization_id ws = p_organization_id p \<and> workspace_access_clause p write d ws))
        (t_threads d))) (\<lambda>found.
     from_some (NotFoundError ''Thread'' (uuid_str tid)) found)"

text \<open>
  \<open>run_workspaces\<close> are the rows of \<open>Run JOIN Turn JOIN Thread JOIN Workspace\<close> for a run.
  \<open>require_run_access\<close> is the function without \<open>source_content\<close>.
\<close>

definition run_threads :: "db \<Rightarrow> run_row \<Rightarrow> thread_row list" where
  "run_threads d r =
     [t. u \<leftarrow> t_turns d, turn_id u = run_turn_id r, t \<leftarrow> t_threads d, thread_id t = turn_thread_id u]"

definition run_workspaces :: "db \<Rightarrow> run_row \<Rightarrow> workspace_row list" where
  "run_workspaces d r =
     [ws. t \<leftarrow> run_threads d r, ws \<leftarrow> t_workspaces d, ws_id ws = thread_workspace_id t]"

definition require_run_access :: "principal \<Rightarrow> uuid \<Rightarrow> bool \<Rightarrow> (db, run_row) op" where
  "require_run_access p rid write =
     andthen (reads (\<lambda>d. find (\<lambda>r. run_id r = rid \<and> run_organization_id r = p_organization_id p
        \<and> list_ex (\<lambda>ws. ws_organization_id ws = p_organization_id p
                        \<and> workspace_access_clause p write d ws) (run_workspaces d r))
        (t_runs d))) (\<lambda>found.
     from_some (NotFoundError ''Run'' (uuid_str rid)) found)"

text \<open>
  What the knowledge publication guard (\<open>knowledge/publication.py\<close>, not modelled) is asked; the
  guard itself is a parameter, an operation on the store that answers whether the content of the
  run may be shown. With \<open>source_content\<close>, \<open>require_run_access\<close> asks it too.
\<close>

record publication_check =
  pc_principal :: principal
  pc_run_id :: uuid
  pc_stage :: string
  pc_expected_corp_id :: "string option"
  pc_link_policy_run :: bool

definition require_run_access_content ::
  "(publication_check \<Rightarrow> (db, bool) op) \<Rightarrow> principal \<Rightarrow> uuid \<Rightarrow> bool \<Rightarrow> string option \<Rightarrow> (db, run_row) op"
where
  "require_run_access_content guard p rid write source_corp_id =
     andthen (require_run_access p rid write) (\<lambda>run.
     andthen (guard \<lparr>pc_principal = p, pc_run_id = rid, pc_stage = ''historical_content'',
        pc_expected_corp_id = source_corp_id, pc_link_policy_run = write\<rparr>) (\<lambda>permitted.
     if permitted then ret run else raise (NotFoundError ''Run content'' (uuid_str rid))))"

section \<open>These operations only read\<close>

lemma load_principal_state [frame_simps]: "snd (load_principal org ext d) = d"
  by (simp add: load_principal_def op_simps split: list.split)

lemma load_principal_by_id_state [frame_simps]: "snd (load_principal_by_id org uid d) = d"
  by (simp add: load_principal_by_id_def op_simps load_principal_state split: option.split)

lemma require_workspace_access_state [frame_simps]: "snd (require_workspace_access p wid w d) = d"
  by (simp add: require_workspace_access_def op_simps split: option.split)

lemma require_thread_access_state [frame_simps]: "snd (require_thread_access p tid w d) = d"
  by (simp add: require_thread_access_def op_simps split: option.split)

lemma require_run_access_state [frame_simps]: "snd (require_run_access p rid w d) = d"
  by (simp add: require_run_access_def op_simps split: option.split)

lemma load_principal_unchanged: "load_principal org ext d = (r, d') \<Longrightarrow> d' = d"
  by (metis load_principal_state snd_conv)

lemma load_principal_by_id_unchanged: "load_principal_by_id org uid d = (r, d') \<Longrightarrow> d' = d"
  by (metis load_principal_by_id_state snd_conv)

lemma require_workspace_access_unchanged: "require_workspace_access p wid w d = (r, d') \<Longrightarrow> d' = d"
  by (metis require_workspace_access_state snd_conv)

lemma require_run_access_unchanged: "require_run_access p rid w d = (r, d') \<Longrightarrow> d' = d"
  by (metis require_run_access_state snd_conv)

lemmas access_unchanged = load_principal_unchanged load_principal_by_id_unchanged
  require_workspace_access_unchanged require_run_access_unchanged

lemma preserves_reading:
  assumes "\<And>d. snd (m d) = d"
  shows "preserves P m"
  using assms by (simp add: preserves_def)

lemmas access_preserves = preserves_reading [OF load_principal_state]
  preserves_reading [OF load_principal_by_id_state]
  preserves_reading [OF require_workspace_access_state]
  preserves_reading [OF require_thread_access_state]
  preserves_reading [OF require_run_access_state]

section \<open>What the lookups return\<close>

lemma outer_join_mem:
  "(a, b) \<in> set (outer_join f rows) \<longleftrightarrow>
     a \<in> set rows \<and> (case b of None \<Rightarrow> f a = [] | Some y \<Rightarrow> y \<in> set (f a))"
  by (auto simp: outer_join_def split: option.splits)

lemma json_strings_mem [simp]: "s \<in> set (json_strings js) \<longleftrightarrow> JStr s \<in> set js"
  by (auto simp: json_strings_def split: json.splits intro!: bexI [where x = "JStr s"])

lemma outer_join_ex: "a \<in> set rows \<Longrightarrow> \<exists>b. (a, b) \<in> set (outer_join f rows)"
  unfolding outer_join_mem by (cases "f a") (auto split: option.split intro: exI [where x = "Some _"])

lemma principal_rows_mem:
  assumes "((u, de), ro) \<in> set (principal_rows org ext d)"
  shows "u \<in> set (active_users org ext d) \<and>
         (\<forall>x. ro = Some x \<longrightarrow> (\<exists>ur \<in> set (user_assignments d u). x \<in> set (assigned_roles d (Some ur))))"
proof -
  obtain a where m: "(((u, de), a), ro) \<in> set (outer_join (\<lambda>r. assigned_roles d (snd r))
         (outer_join (\<lambda>r. user_assignments d (fst r))
           (outer_join (user_departments d) (active_users org ext d))))"
    using assms by (auto simp: principal_rows_def)
  then show ?thesis
    unfolding outer_join_mem by (cases a; cases ro) (auto simp: assigned_roles_def)
qed

lemma load_principal_user:
  assumes "load_principal org ext d = (Inr p, d')"
  shows "p_organization_id p = org \<and> p_external_id p = ext \<and>
         (\<exists>u \<in> set (t_users d). user_id u = p_id p \<and> user_organization_id u = org
            \<and> user_external_id u = ext \<and> user_active u)"
proof -
  obtain u de ro rows where rows: "principal_rows org ext d = ((u, de), ro) # rows"
      and p: "p_id p = user_id u" "p_organization_id p = user_organization_id u"
        "p_external_id p = user_external_id u"
    using assms
    by (auto simp: load_principal_def andthen_Inr Let_def split: list.splits)
  have "((u, de), ro) \<in> set (principal_rows org ext d)" using rows by simp
  from principal_rows_mem [OF this] have "u \<in> set (active_users org ext d)" by blast
  then show ?thesis using p by (auto simp: active_users_def)
qed

lemma load_principal_grants:
  assumes "load_principal org ext d = (Inr p, d')"
  shows "p_permissions p = set (concat (map (\<lambda>ro. json_strings (role_permissions ro))
          (concat (map (\<lambda>r. case snd r of None \<Rightarrow> [] | Some ro \<Rightarrow> [ro])
            (principal_rows org ext d)))))"
  using assms
  by (cases "principal_rows org ext d") (auto simp: load_principal_def andthen_Inr Let_def)

lemma granted_by_row:
  "perm \<in> set (concat (map (\<lambda>ro. json_strings (role_permissions ro))
      (concat (map (\<lambda>r. case snd r of None \<Rightarrow> [] | Some ro \<Rightarrow> [ro]) rows)))) \<longleftrightarrow>
   (\<exists>x ro. (x, Some ro) \<in> set rows \<and> JStr perm \<in> set (role_permissions ro))"
proof (induction rows)
  case (Cons r rows)
  then show ?case by (cases r; cases "snd r") auto
qed simp

lemma principal_rows_role:
  "(\<exists>x. (x, Some ro) \<in> set (principal_rows org ext d)) \<longleftrightarrow>
     (\<exists>u \<in> set (active_users org ext d). \<exists>ur \<in> set (user_assignments d u).
        ro \<in> set (assigned_roles d (Some ur)))" (is "?L \<longleftrightarrow> ?R")
proof
  assume ?L
  then obtain u de where "((u, de), Some ro) \<in> set (principal_rows org ext d)" by fastforce
  from principal_rows_mem [OF this] show ?R by blast
next
  assume ?R
  then obtain u ur where u: "u \<in> set (active_users org ext d)" and ur: "ur \<in> set (user_assignments d u)"
    and ro: "ro \<in> set (assigned_roles d (Some ur))" by blast
  obtain de where "(u, de) \<in> set (outer_join (user_departments d) (active_users org ext d))"
    using outer_join_ex [OF u] by blast
  then have "((u, de), Some ur) \<in> set (outer_join (\<lambda>r. user_assignments d (fst r))
               (outer_join (user_departments d) (active_users org ext d)))"
    using ur by (simp add: outer_join_mem [where b = "Some ur"])
  then have "(((u, de), Some ur), Some ro) \<in> set (outer_join (\<lambda>r. assigned_roles d (snd r))
               (outer_join (\<lambda>r. user_assignments d (fst r))
                 (outer_join (user_departments d) (active_users org ext d))))"
    using ro by (simp add: outer_join_mem [where b = "Some ro"])
  then show ?L unfolding principal_rows_def by force
qed

lemma require_workspace_access_Inr [simp]:
  "require_workspace_access p wid w d = (Inr ws, d') \<longleftrightarrow>
     d' = d \<and> find (\<lambda>ws. ws_id ws = wid \<and> ws_organization_id ws = p_organization_id p
                 \<and> workspace_access_clause p w d ws) (t_workspaces d) = Some ws"
  by (auto simp: require_workspace_access_def andthen_Inr split: option.splits if_splits)

lemma require_workspace_accessD:
  assumes "require_workspace_access p wid w d = (Inr ws, d')"
  shows "ws \<in> set (t_workspaces d) \<and> ws_id ws = wid \<and> ws_organization_id ws = p_organization_id p
         \<and> workspace_access_clause p w d ws"
  using assms find_SomeD by fastforce

lemma returns_new_id: "Q (next_id d) (d\<lparr>next_id := next_id d + 1\<rparr>) \<Longrightarrow> returns new_id Q d"
  by (simp add: returns_def)

lemma returns_workspace_access:
  "(\<And>ws. ws \<in> set (t_workspaces d) \<Longrightarrow> ws_id ws = wid \<Longrightarrow> ws_organization_id ws = p_organization_id p
      \<Longrightarrow> workspace_access_clause p w d ws \<Longrightarrow> Q ws d)
     \<Longrightarrow> returns (require_workspace_access p wid w) Q d"
  unfolding returns_def using require_workspace_accessD access_unchanged(3) by blast

section \<open>Properties\<close>

text \<open>
  The part of the store that belongs to one organization, as far as access control looks
  at it.
\<close>

definition tenant_view :: "uuid \<Rightarrow> db \<Rightarrow> workspace_row list \<times> workspace_member_row list" where
  "tenant_view org d =
     (filter (\<lambda>ws. ws_organization_id ws = org) (t_workspaces d),
      filter (\<lambda>m. wm_organization_id m = org) (t_members d))"

lemma find_filter: "find P (filter Q xs) = find (\<lambda>x. Q x \<and> P x) xs"
  by (induction xs) auto

lemma is_member_tenant:
  "is_member p w d ws = (\<exists>m \<in> set (snd (tenant_view (p_organization_id p) d)).
     wm_workspace_id m = ws_id ws \<and> wm_user_id m = p_id p \<and> (w \<longrightarrow> wm_can_write m))"
  by (auto simp: is_member_def tenant_view_def)

lemma access_clause_tenant:
  "tenant_view (p_organization_id p) d = tenant_view (p_organization_id p) d' \<Longrightarrow>
     workspace_access_clause p w d = workspace_access_clause p w d'"
  by (rule ext) (simp add: workspace_access_clause_def is_member_tenant)

lemma find_tenant:
  "find (\<lambda>ws. ws_id ws = wid \<and> ws_organization_id ws = org \<and> P ws) (t_workspaces d) =
     find (\<lambda>ws. ws_id ws = wid \<and> P ws) (fst (tenant_view org d))"
  unfolding tenant_view_def fst_conv find_filter by (rule arg_cong2 [where f = find]) auto

text \<open>
  C12: Workspace access is decided by the caller's own organization alone: two stores that
  agree on that organization's workspaces and memberships give the same answer, granted
  workspace or error. Data of other tenants can neither grant nor deny access, and their
  workspaces are indistinguishable from absent ones.
\<close>

theorem workspace_access_tenant_isolated:
  assumes "tenant_view (p_organization_id p) d = tenant_view (p_organization_id p) d'"
  shows "fst (require_workspace_access p wid w d) = fst (require_workspace_access p wid w d')"
proof -
  let ?org = "p_organization_id p"
  have c: "workspace_access_clause p w d = workspace_access_clause p w d'"
    using access_clause_tenant [OF assms] .
  have g: "find (\<lambda>ws. ws_id ws = wid \<and> ws_organization_id ws = ?org
              \<and> workspace_access_clause p w d ws) (t_workspaces d) =
           find (\<lambda>ws. ws_id ws = wid \<and> ws_organization_id ws = ?org
              \<and> workspace_access_clause p w d' ws) (t_workspaces d')"
    by (simp only: c find_tenant assms)
  have e: "find (\<lambda>ws. ws_id ws = wid \<and> ws_organization_id ws = ?org) (t_workspaces d) =
           find (\<lambda>ws. ws_id ws = wid \<and> ws_organization_id ws = ?org) (t_workspaces d')"
    using find_tenant [where P = "\<lambda>_. True" and d = d and wid = wid and org = ?org]
      find_tenant [where P = "\<lambda>_. True" and d = d' and wid = wid and org = ?org]
    by (simp add: assms)
  show ?thesis
    using g e by (simp add: require_workspace_access_def op_simps split: option.splits)
qed

text \<open>An empty store and a sample principal for the witnesses.\<close>

definition empty_db :: db where
  "empty_db = \<lparr>t_departments = [], t_users = [], t_roles = [], t_user_roles = [], t_secrets = [],
     t_workspaces = [], t_members = [], t_tasks = [], t_decisions = [], t_decision_versions = [],
     t_threads = [], t_turns = [], t_runs = [], t_steps = [], t_events = [], t_heads = [],
     t_outbox = [], t_audits = [], t_capability_definitions = [], t_capability_versions = [],
     t_connectors = [], t_bindings = [], t_policies = [], t_policy_decisions = [],
     t_approvals = [], t_actions = [], t_plans = [], t_action_approvals = [], t_attempts = [],
     t_notifications = [], next_id = 100\<rparr>"

definition sample_principal :: "uuid \<Rightarrow> string list \<Rightarrow> principal" where
  "sample_principal i perms =
     \<lparr>p_id = i, p_organization_id = 1, p_external_id = ''u'', p_display_name = ''U'',
      p_department_id = None, p_department = None, p_roles = {}, p_permissions = set perms,
      p_attributes = []\<rparr>"

definition sample_workspace :: "uuid \<Rightarrow> uuid \<Rightarrow> uuid \<Rightarrow> workspace_row" where
  "sample_workspace i org owner =
     \<lparr>ws_id = i, ws_organization_id = org, ws_owner_id = owner, ws_classification = Cls_INTERNAL,
      ws_visibility = Vis_PRIVATE, ws_name = ''w'', ws_description = []\<rparr>"

theorem workspace_access_tenant_isolated_witness:
  "fst (require_workspace_access (sample_principal 7 [''*'']) 5 True
          (empty_db\<lparr>t_workspaces := [sample_workspace 5 2 7]\<rparr>)) =
   fst (require_workspace_access (sample_principal 7 [''*'']) 5 True empty_db)"
  by (rule workspace_access_tenant_isolated)
    (simp add: tenant_view_def empty_db_def sample_principal_def sample_workspace_def)

text \<open>
  C16: A principal's permissions are exactly the string permissions of the roles that its own
  organization assigned to the active user: nothing is granted through another
  organization's role, an inactive account or another user's assignment.
\<close>

theorem load_principal_permissions:
  assumes "load_principal org ext d = (Inr p, d')"
  shows "perm \<in> p_permissions p \<longleftrightarrow>
           (\<exists>u ur ro. u \<in> set (t_users d) \<and> user_organization_id u = org \<and> user_external_id u = ext
             \<and> user_active u \<and> ur \<in> set (t_user_roles d) \<and> ur_organization_id ur = org
             \<and> ur_user_id ur = user_id u \<and> ro \<in> set (t_roles d) \<and> role_organization_id ro = org
             \<and> role_id ro = ur_role_id ur \<and> JStr perm \<in> set (role_permissions ro))"
proof -
  have "perm \<in> p_permissions p \<longleftrightarrow>
          (\<exists>x ro. (x, Some ro) \<in> set (principal_rows org ext d) \<and> JStr perm \<in> set (role_permissions ro))"
    unfolding load_principal_grants [OF assms] by (rule granted_by_row)
  also have "\<dots> \<longleftrightarrow> (\<exists>ro. (\<exists>x. (x, Some ro) \<in> set (principal_rows org ext d))
                      \<and> JStr perm \<in> set (role_permissions ro))" by blast
  finally show ?thesis
    unfolding principal_rows_role by (auto simp: active_users_def user_assignments_def assigned_roles_def)
qed

definition sample_login_db :: db where
  "sample_login_db = empty_db\<lparr>
     t_users := [\<lparr>user_id = 7, user_organization_id = 1, user_external_id = ''u'',
                  user_display_name = ''U'', user_department_id = None, user_active = True,
                  user_attributes = []\<rparr>],
     t_roles := [\<lparr>role_id = 3, role_organization_id = 1, role_name = ''dev'',
                  role_permissions = [JStr ''action.request'', JInt 4]\<rparr>],
     t_user_roles := [\<lparr>ur_organization_id = 1, ur_user_id = 7, ur_role_id = 3\<rparr>]\<rparr>"

lemma sample_login:
  "\<exists>p. load_principal 1 ''u'' sample_login_db = (Inr p, sample_login_db) \<and>
     p_permissions p = {''action.request''}"
  by (simp add: sample_login_db_def empty_db_def load_principal_def principal_rows_def
      active_users_def user_departments_def user_assignments_def assigned_roles_def outer_join_def json_strings_def op_simps)

theorem load_principal_permissions_witness:
  "\<exists>u ur ro. u \<in> set (t_users sample_login_db) \<and> user_organization_id u = 1
     \<and> user_external_id u = ''u'' \<and> user_active u
     \<and> ur \<in> set (t_user_roles sample_login_db) \<and> ur_organization_id ur = 1
     \<and> ur_user_id ur = user_id u \<and> ro \<in> set (t_roles sample_login_db) \<and> role_organization_id ro = 1
     \<and> role_id ro = ur_role_id ur \<and> JStr ''action.request'' \<in> set (role_permissions ro)"
proof -
  obtain p where p: "load_principal 1 ''u'' sample_login_db = (Inr p, sample_login_db)"
      and perm: "''action.request'' \<in> p_permissions p"
    using sample_login by blast
  show ?thesis using load_principal_permissions [OF p, of "''action.request''"] perm by blast
qed

text \<open>
  Write access implies read access, except through the elevated write permission:
  \<open>workspace.manage.all\<close> alone lets a principal change a private workspace it cannot read.
\<close>

theorem write_access_implies_read:
  "(workspace_access_clause p True d ws \<and> \<not> can p ''workspace.manage.all'' \<longrightarrow>
      workspace_access_clause p False d ws)
   \<and> workspace_access_clause (sample_principal 7 [''workspace.manage.all'']) True empty_db
        (sample_workspace 5 1 8)
   \<and> \<not> workspace_access_clause (sample_principal 7 [''workspace.manage.all'']) False empty_db
        (sample_workspace 5 1 8)"
  by (auto simp: workspace_access_clause_def is_member_def can_def sample_principal_def
      sample_workspace_def empty_db_def)

theorem write_access_implies_read_witness:
  "workspace_access_clause (sample_principal 8 []) False empty_db (sample_workspace 5 1 8)"
  using write_access_implies_read [of "sample_principal 8 []" empty_db "sample_workspace 5 1 8"]
  by (simp add: workspace_access_clause_def can_def sample_principal_def sample_workspace_def)

end
