(* ===== verification/Events.thy ===== *)
theory Events
  imports Identity
begin

text \<open>
  The event store (\<open>persistence/events.py\<close>), the event contract checks it calls
  (\<open>contracts/events/validation.py\<close>) and the audit writer (\<open>persistence/audit.py\<close>).

  \<open>append\<close> allocates an identifier, checks and redacts the payload, and then, inside a
  savepoint, takes the next run sequence and the next aggregate sequence and inserts the
  event with its outbox message. Payloads are JSON values here, on which \<open>canonicalize_json\<close>
  is the identity. The refresh of cached ORM objects after the savepoint has no counterpart:
  the model's rows are the store's.

  \<open>events_inv\<close> is the invariant (gapless sequences per aggregate and per run, one outbox
  message per event). The locale \<open>ledger\<close> is what the services rely on when they record
  something: the record leaves the business tables alone and keeps the invariant. Both
  writers are interpreted.
\<close>

section \<open>Drafts, envelopes and contract checks\<close>

record event_draft =
  ed_name :: string
  ed_aggregate_type :: string
  ed_aggregate_id :: uuid
  ed_organization_id :: uuid
  ed_correlation_id :: uuid
  ed_actor_type :: actor_type
  ed_actor_id :: "uuid option"
  ed_payload :: jobj
  ed_run_id :: "uuid option"
  ed_causation_id :: "uuid option"
  ed_classification :: classification
  ed_schema_version :: int
  ed_created_at :: "time option"

text \<open>The defaults of the dataclass.\<close>

definition EventDraft ::
  "string \<Rightarrow> string \<Rightarrow> uuid \<Rightarrow> uuid \<Rightarrow> uuid \<Rightarrow> actor_type \<Rightarrow> uuid option \<Rightarrow> jobj \<Rightarrow> event_draft" where
  "EventDraft name ty agg org corr actor_ty actor payload =
     \<lparr>ed_name = name, ed_aggregate_type = ty, ed_aggregate_id = agg, ed_organization_id = org,
      ed_correlation_id = corr, ed_actor_type = actor_ty, ed_actor_id = actor,
      ed_payload = payload, ed_run_id = None, ed_causation_id = None,
      ed_classification = Cls_INTERNAL, ed_schema_version = 1, ed_created_at = None\<rparr>"

definition canonical_datetime :: "time \<Rightarrow> string" where
  "canonical_datetime t = (let s = isoformat t in take (length s - 6) s @ ''Z'')"

definition opt_int :: "int option \<Rightarrow> json" where
  "opt_int i = (case i of None \<Rightarrow> JNull | Some n \<Rightarrow> JInt n)"

definition build_event_envelope ::
  "uuid \<Rightarrow> event_draft \<Rightarrow> int \<Rightarrow> int option \<Rightarrow> json \<Rightarrow> time \<Rightarrow> json" where
  "build_event_envelope event_id dr sequence run_sequence payload created_at =
     JObj [(''id'', JStr (uuid_str event_id)),
           (''event_id'', JStr (uuid_str event_id)),
           (''organization_id'', JStr (uuid_str (ed_organization_id dr))),
           (''aggregate_type'', JStr (ed_aggregate_type dr)),
           (''aggregate_id'', JStr (uuid_str (ed_aggregate_id dr))),
           (''sequence'', JInt sequence),
           (''name'', JStr (ed_name dr)),
           (''run_id'', opt_uuid (ed_run_id dr)),
           (''run_sequence'', opt_int run_sequence),
           (''causation_id'', opt_uuid (ed_causation_id dr)),
           (''correlation_id'', JStr (uuid_str (ed_correlation_id dr))),
           (''actor_type'', JStr (actor_type_value (ed_actor_type dr))),
           (''actor_id'', opt_uuid (ed_actor_id dr)),
           (''schema_version'', JInt (ed_schema_version dr)),
           (''classification'', JStr (classification_value (ed_classification dr))),
           (''payload'', payload),
           (''created_at'', JStr (canonical_datetime created_at))]"

text \<open>
  \<open>_validate_instance\<close>: the first of the sorted validator errors becomes the
  \<open>ValidationError\<close>.
\<close>

definition validate_instance ::
  "schema_error list \<Rightarrow> string \<Rightarrow> string \<Rightarrow> string \<Rightarrow> int \<Rightarrow> err + unit" where
  "validate_instance errors code msg name version =
     (case errors of
        [] \<Rightarrow> Inr ()
      | (path, schema_path, validator) # _ \<Rightarrow>
          Inl (ValidationError code msg
            [(''path'', JStr path), (''schema_path'', JStr schema_path),
             (''validator'', JStr validator), (''event_name'', JStr name),
             (''schema_version'', JInt version)]))"

definition validate_event_envelope :: "ext \<Rightarrow> json \<Rightarrow> string \<Rightarrow> int \<Rightarrow> err + unit" where
  "validate_event_envelope x envelope name version =
     (if \<not> is_obj envelope
      then Inl (ValidationError ''event_envelope_schema_invalid''
             ''The Event envelope must be a JSON object'' [])
      else if json_get envelope ''id'' \<noteq> json_get envelope ''event_id''
      then Inl (ValidationError ''event_envelope_schema_invalid''
             ''The Event envelope id and event_id must identify the same Event''
             [(''path'', JStr ''$.event_id''), (''event_name'', JStr name),
              (''schema_version'', JInt version)])
      else validate_instance (ext_envelope x envelope) ''event_envelope_schema_invalid''
             ''The Event envelope does not satisfy the frozen schema'' name version)"

definition validate_payload_error_code :: "ext \<Rightarrow> json \<Rightarrow> string \<Rightarrow> int \<Rightarrow> err + unit" where
  "validate_payload_error_code x payload name version =
     (let bad = (\<lambda>msg. Inl (ValidationError ''event_payload_schema_invalid'' msg
                   [(''path'', JStr ''$.error_code''), (''event_name'', JStr name),
                    (''schema_version'', JInt version)]))
      in case json_get payload ''error_code'' of
           None \<Rightarrow> Inr ()
         | Some JNull \<Rightarrow> Inr ()
         | Some (JStr c) \<Rightarrow>
             if c \<in> set (ext_error_codes x) then Inr ()
             else bad ''The event payload error_code is not registered''
         | Some _ \<Rightarrow> bad ''The event payload error_code must be a registered string'')"

definition prepare_event_draft :: "ext \<Rightarrow> uuid \<Rightarrow> event_draft \<Rightarrow> time \<Rightarrow> err + json" where
  "prepare_event_draft x event_id dr now =
     (let name = ed_name dr; version = ed_schema_version dr;
          supported = sort (map snd (filter (\<lambda>nv. fst nv = name) (ext_event_versions x)));
          redacted = redact (JObj (ed_payload dr))
      in if (name, version) \<notin> set (ext_event_versions x) then
           (if supported = []
            then Inl (ValidationError ''event_name_unregistered'' ''The event name is not registered''
                   [(''event_name'', JStr name)])
            else Inl (ValidationError ''event_schema_version_unsupported''
                   ''The event schema version is not registered''
                   [(''event_name'', JStr name), (''schema_version'', JInt version),
                    (''supported_versions'', JList (map JInt supported))]))
         else case validate_instance (ext_event_payload x name version redacted)
                ''event_payload_schema_invalid''
                ''The event payload does not satisfy its registered schema'' name version of
           Inl e \<Rightarrow> Inl e
         | Inr _ \<Rightarrow>
             (case validate_payload_error_code x redacted name version of
                Inl e \<Rightarrow> Inl e
              | Inr _ \<Rightarrow>
                  (case validate_event_envelope x
                          (build_event_envelope event_id dr 1 (map_option (\<lambda>_. 1) (ed_run_id dr))
                             redacted now) name version of
                     Inl e \<Rightarrow> Inl e
                   | Inr _ \<Rightarrow> Inr redacted)))"

section \<open>Appending\<close>

text \<open>\<open>UPDATE runs SET aggregate_version = aggregate_version + 1 ... RETURNING aggregate_version\<close>.\<close>

definition next_run_sequence :: "uuid \<Rightarrow> uuid \<Rightarrow> (db, int) op" where
  "next_run_sequence org rid =
     andthen (reads (\<lambda>d. find (\<lambda>r. run_id r = rid \<and> run_organization_id r = org) (t_runs d))) (\<lambda>found.
     case found of
       None \<Rightarrow> raise (ConflictError ''event_run_missing''
                ''A Run-associated event requires an existing Run'' [(''run_id'', JStr (uuid_str rid))])
     | Some r \<Rightarrow>
         andthen (modify (\<lambda>d. d\<lparr>t_runs := map (\<lambda>r. if run_id r = rid \<and> run_organization_id r = org
                            then r\<lparr>run_aggregate_version := run_aggregate_version r + 1\<rparr> else r)
                            (t_runs d)\<rparr>)) (\<lambda>_.
         ret (run_aggregate_version r + 1)))"

text \<open>
  The upsert of the aggregate head: insert with sequence 1, or increment on conflict when the
  stored head belongs to the same organization.
\<close>

definition is_head :: "string \<Rightarrow> uuid \<Rightarrow> aggregate_head_row \<Rightarrow> bool" where
  "is_head ty agg h \<longleftrightarrow> ah_aggregate_type h = ty \<and> ah_aggregate_id h = agg"

definition next_aggregate_sequence :: "uuid \<Rightarrow> string \<Rightarrow> uuid \<Rightarrow> (db, int) op" where
  "next_aggregate_sequence org ty agg =
     andthen (reads (\<lambda>d. find (is_head ty agg) (t_heads d))) (\<lambda>found.
     case found of
       None \<Rightarrow>
         andthen (modify (\<lambda>d. d\<lparr>t_heads := t_heads d @
            [\<lparr>ah_organization_id = org, ah_aggregate_type = ty, ah_aggregate_id = agg,
              ah_sequence = 1\<rparr>]\<rparr>)) (\<lambda>_. ret 1)
     | Some h \<Rightarrow>
         if ah_organization_id h = org then
           andthen (modify (\<lambda>d. d\<lparr>t_heads := map (\<lambda>h. if is_head ty agg h
                              then h\<lparr>ah_sequence := ah_sequence h + 1\<rparr> else h) (t_heads d)\<rparr>)) (\<lambda>_.
           ret (ah_sequence h + 1))
         else raise (PyError ''ValueError'' ''Event aggregate belongs to another organization''))"

definition take_run_sequence :: "event_draft \<Rightarrow> (db, int option) op" where
  "take_run_sequence dr =
     (case ed_run_id dr of
        None \<Rightarrow> ret None
      | Some rid \<Rightarrow> andthen (next_run_sequence (ed_organization_id dr) rid) (\<lambda>n. ret (Some n)))"

definition event_of :: "event_draft \<Rightarrow> uuid \<Rightarrow> int \<Rightarrow> int option \<Rightarrow> json \<Rightarrow> time \<Rightarrow> event_row" where
  "event_of dr event_id sequence run_sequence payload now =
     \<lparr>ev_id = event_id, ev_organization_id = ed_organization_id dr,
      ev_aggregate_type = ed_aggregate_type dr, ev_aggregate_id = ed_aggregate_id dr,
      ev_sequence = sequence, ev_name = ed_name dr, ev_run_id = ed_run_id dr,
      ev_run_sequence = run_sequence, ev_causation_id = ed_causation_id dr,
      ev_correlation_id = ed_correlation_id dr, ev_actor_type = ed_actor_type dr,
      ev_actor_id = ed_actor_id dr, ev_schema_version = ed_schema_version dr,
      ev_classification = ed_classification dr, ev_payload = payload,
      ev_created_at = now\<rparr>"

definition append_prepared ::
  "ext \<Rightarrow> event_draft \<Rightarrow> uuid \<Rightarrow> json \<Rightarrow> time \<Rightarrow> (db, event_row) op" where
  "append_prepared x dr event_id payload now =
     andthen (take_run_sequence dr) (\<lambda>run_sequence.
     andthen (next_aggregate_sequence (ed_organization_id dr) (ed_aggregate_type dr)
                (ed_aggregate_id dr)) (\<lambda>sequence.
     (let event = event_of dr event_id sequence run_sequence payload now;
          envelope = build_event_envelope event_id dr sequence run_sequence payload now
      in andthen (from_sum (validate_event_envelope x envelope (ed_name dr) (ed_schema_version dr)))
           (\<lambda>_.
         andthen (modify (\<lambda>d. d\<lparr>t_events := t_events d @ [event]\<rparr>)) (\<lambda>_.
         andthen new_id (\<lambda>oid.
         andthen (modify (\<lambda>d. d\<lparr>t_outbox := t_outbox d @
            [\<lparr>ob_id = oid, ob_event_id = event_id, ob_topic = ''obsion.'' @ ed_name dr,
              ob_payload = envelope, ob_created_at = now, ob_published_at = None,
              ob_attempt_count = 0\<rparr>]\<rparr>)) (\<lambda>_.
         ret event)))))))"

definition append_event :: "ext \<Rightarrow> time \<Rightarrow> event_draft \<Rightarrow> (db, event_row) op" where
  "append_event x now0 dr =
     (let now = (case ed_created_at dr of None \<Rightarrow> now0 | Some t \<Rightarrow> t)
      in andthen new_id (\<lambda>event_id.
         andthen (from_sum (prepare_event_draft x event_id dr now)) (\<lambda>payload.
         transaction (append_prepared x dr event_id payload now))))"

section \<open>Reading\<close>

definition list_run :: "uuid \<Rightarrow> uuid \<Rightarrow> int \<Rightarrow> nat \<Rightarrow> db \<Rightarrow> event_row list" where
  "list_run org rid after limit d =
     take limit (sort_key (\<lambda>e. the (ev_run_sequence e))
       (filter (\<lambda>e. ev_organization_id e = org \<and> ev_run_id e = Some rid
                   \<and> (case ev_run_sequence e of None \<Rightarrow> False | Some n \<Rightarrow> n > after)) (t_events d)))"

definition list_workspace :: "uuid \<Rightarrow> uuid \<Rightarrow> nat \<Rightarrow> db \<Rightarrow> event_row list" where
  "list_workspace org wid limit d =
     take limit (sort_key (\<lambda>e. - ev_created_at e)
       [e. e \<leftarrow> t_events d, ev_organization_id e = org,
           r \<leftarrow> t_runs d, ev_run_id e = Some (run_id r) \<and> run_organization_id r = org,
           t \<leftarrow> run_threads d r, thread_workspace_id t = wid])"

definition list_aggregate :: "uuid \<Rightarrow> string \<Rightarrow> uuid \<Rightarrow> int \<Rightarrow> nat \<Rightarrow> db \<Rightarrow> event_row list" where
  "list_aggregate org ty agg after limit d =
     take limit (sort_key ev_sequence
       (filter (\<lambda>e. ev_organization_id e = org \<and> ev_aggregate_type e = ty
                   \<and> ev_aggregate_id e = agg \<and> ev_sequence e > after) (t_events d)))"

section \<open>Audit records\<close>

record audit_draft =
  ad_organization_id :: uuid
  ad_correlation_id :: uuid
  ad_actor_type :: actor_type
  ad_actor_id :: "uuid option"
  ad_action :: string
  ad_resource_type :: string
  ad_outcome :: string
  ad_resource_id :: "string option"
  ad_risk_level :: "risk_level option"
  ad_policy_decision_id :: "uuid option"
  ad_approval_id :: "uuid option"
  ad_metadata :: jobj
  ad_latency_ms :: "int option"
  ad_agent_version_id :: "uuid option"
  ad_model_profile_id :: "uuid option"
  ad_capability_version_id :: "uuid option"
  ad_resource :: "json option"
  ad_result_classification :: "classification option"

definition AuditDraft ::
  "uuid \<Rightarrow> uuid \<Rightarrow> actor_type \<Rightarrow> uuid option \<Rightarrow> string \<Rightarrow> string \<Rightarrow> string \<Rightarrow> string \<Rightarrow> jobj \<Rightarrow> audit_draft"
where
  "AuditDraft org corr actor_ty actor action resource_type resource_id outcome metadata =
     \<lparr>ad_organization_id = org, ad_correlation_id = corr, ad_actor_type = actor_ty,
      ad_actor_id = actor, ad_action = action, ad_resource_type = resource_type,
      ad_outcome = outcome, ad_resource_id = Some resource_id, ad_risk_level = None,
      ad_policy_decision_id = None, ad_approval_id = None, ad_metadata = metadata,
      ad_latency_ms = None, ad_agent_version_id = None, ad_model_profile_id = None,
      ad_capability_version_id = None, ad_resource = None, ad_result_classification = None\<rparr>"

text \<open>The canonical dimensions, in the order of the source; \<open>None\<close> values are skipped.\<close>

definition canonical_dimensions :: "audit_draft \<Rightarrow> (string \<times> json option) list" where
  "canonical_dimensions dr =
     (let u = map_option (\<lambda>i. JStr (uuid_str i))
      in [(''agent_version_id'', u (ad_agent_version_id dr)),
          (''model_profile_id'', u (ad_model_profile_id dr)),
          (''capability_version_id'', u (ad_capability_version_id dr)),
          (''resource'', ad_resource dr),
          (''policy_decision_id'', u (ad_policy_decision_id dr)),
          (''approval_id'', u (ad_approval_id dr)),
          (''risk_level'', map_option (\<lambda>r. JStr (risk_level_value r)) (ad_risk_level dr)),
          (''result_classification'',
             map_option (\<lambda>c. JStr (classification_value c)) (ad_result_classification dr)),
          (''latency_ms'', map_option JInt (ad_latency_ms dr))])"

definition audit_metadata :: "audit_draft \<Rightarrow> jobj" where
  "audit_metadata dr =
     fold (\<lambda>(k, v) m. case v of None \<Rightarrow> m | Some j \<Rightarrow> obj_setdefault k j m)
       (canonical_dimensions dr) (ad_metadata dr)"

definition write_audit :: "time \<Rightarrow> audit_draft \<Rightarrow> (db, audit_row) op" where
  "write_audit now dr =
     andthen new_id (\<lambda>i.
     (let row = \<lparr>au_id = i, au_organization_id = ad_organization_id dr,
                 au_correlation_id = ad_correlation_id dr, au_actor_type = ad_actor_type dr,
                 au_actor_id = ad_actor_id dr, au_action = ad_action dr,
                 au_resource_type = ad_resource_type dr, au_resource_id = ad_resource_id dr,
                 au_outcome = ad_outcome dr, au_risk_level = ad_risk_level dr,
                 au_policy_decision_id = ad_policy_decision_id dr,
                 au_approval_id = ad_approval_id dr,
                 au_redacted_metadata = redact (JObj (audit_metadata dr)),
                 au_latency_ms = ad_latency_ms dr, au_created_at = now\<rparr>
      in andthen (modify (\<lambda>d. d\<lparr>t_audits := t_audits d @ [row]\<rparr>)) (\<lambda>_. ret row)))"

section \<open>What a record changes\<close>

text \<open>
  \<open>business d\<close> is the store without the event, outbox and audit tables, the run counters
  and the identifier counter: what the services mean to change.
\<close>

definition business :: "db \<Rightarrow> db" where
  "business d = d\<lparr>t_events := [], t_heads := [], t_outbox := [], t_audits := [], next_id := 0,
     t_runs := map (\<lambda>r. r\<lparr>run_aggregate_version := 0\<rparr>) (t_runs d)\<rparr>"

lemma business_tables:
  assumes "business d' = business d"
  shows "t_departments d' = t_departments d" "t_users d' = t_users d" "t_roles d' = t_roles d"
    "t_user_roles d' = t_user_roles d" "t_secrets d' = t_secrets d"
    "t_workspaces d' = t_workspaces d" "t_members d' = t_members d" "t_tasks d' = t_tasks d"
    "t_decisions d' = t_decisions d" "t_decision_versions d' = t_decision_versions d"
    "t_threads d' = t_threads d" "t_turns d' = t_turns d" "t_steps d' = t_steps d"
    "t_capability_definitions d' = t_capability_definitions d"
    "t_capability_versions d' = t_capability_versions d" "t_connectors d' = t_connectors d"
    "t_bindings d' = t_bindings d" "t_policies d' = t_policies d"
    "t_policy_decisions d' = t_policy_decisions d" "t_approvals d' = t_approvals d"
    "t_actions d' = t_actions d" "t_plans d' = t_plans d"
    "t_action_approvals d' = t_action_approvals d" "t_attempts d' = t_attempts d"
    "t_notifications d' = t_notifications d"
  using assms by (cases d; cases d'; simp add: business_def)+

lemma business_next_id [simp]: "business (d\<lparr>next_id := n\<rparr>) = business d"
  by (simp add: business_def)

text \<open>The stored sequence counters and the events they count.\<close>

definition head_sequence :: "string \<Rightarrow> uuid \<Rightarrow> db \<Rightarrow> int" where
  "head_sequence ty agg d =
     (case find (is_head ty agg) (t_heads d) of None \<Rightarrow> 0 | Some h \<Rightarrow> ah_sequence h)"

definition aggregate_events :: "string \<Rightarrow> uuid \<Rightarrow> db \<Rightarrow> event_row list" where
  "aggregate_events ty agg d =
     filter (\<lambda>e. ev_aggregate_type e = ty \<and> ev_aggregate_id e = agg) (t_events d)"

definition run_events :: "uuid \<Rightarrow> db \<Rightarrow> event_row list" where
  "run_events rid d = filter (\<lambda>e. ev_run_id e = Some rid) (t_events d)"

definition envelope_of :: "event_row \<Rightarrow> json" where
  "envelope_of e =
     build_event_envelope (ev_id e)
       \<lparr>ed_name = ev_name e, ed_aggregate_type = ev_aggregate_type e,
        ed_aggregate_id = ev_aggregate_id e, ed_organization_id = ev_organization_id e,
        ed_correlation_id = ev_correlation_id e, ed_actor_type = ev_actor_type e,
        ed_actor_id = ev_actor_id e, ed_payload = [], ed_run_id = ev_run_id e,
        ed_causation_id = ev_causation_id e, ed_classification = ev_classification e,
        ed_schema_version = ev_schema_version e, ed_created_at = None\<rparr>
       (ev_sequence e) (ev_run_sequence e) (ev_payload e) (ev_created_at e)"

definition publishes :: "outbox_message_row \<Rightarrow> event_row \<Rightarrow> bool" where
  "publishes ob e \<longleftrightarrow> ob_event_id ob = ev_id e \<and> ob_topic ob = ''obsion.'' @ ev_name e
     \<and> ob_payload ob = envelope_of e"

definition heads_ok :: "db \<Rightarrow> bool" where
  "heads_ok d \<longleftrightarrow> (\<forall>ty agg. 0 \<le> head_sequence ty agg d
     \<and> map ev_sequence (aggregate_events ty agg d) = [1..head_sequence ty agg d]
     \<and> (\<forall>e \<in> set (aggregate_events ty agg d). \<forall>h. find (is_head ty agg) (t_heads d) = Some h \<longrightarrow>
           ev_organization_id e = ah_organization_id h))"

definition runs_ok :: "db \<Rightarrow> bool" where
  "runs_ok d \<longleftrightarrow> distinct (map run_id (t_runs d)) \<and>
     (\<forall>r \<in> set (t_runs d). 0 \<le> run_aggregate_version r
       \<and> map ev_run_sequence (run_events (run_id r) d) = map Some [1..run_aggregate_version r]
       \<and> (\<forall>e \<in> set (run_events (run_id r) d). ev_organization_id e = run_organization_id r))"

definition outbox_ok :: "db \<Rightarrow> bool" where
  "outbox_ok d \<longleftrightarrow> list_all2 publishes (t_outbox d) (t_events d)
     \<and> (\<forall>e \<in> set (t_events d). no_secret_field (ev_payload e))"

definition events_inv :: "db \<Rightarrow> bool" where
  "events_inv d \<longleftrightarrow> heads_ok d \<and> runs_ok d \<and> outbox_ok d"

section \<open>The shape of an append\<close>

definition bump_head :: "uuid \<Rightarrow> string \<Rightarrow> uuid \<Rightarrow> aggregate_head_row list \<Rightarrow> aggregate_head_row list"
where
  "bump_head org ty agg hs =
     (if find (is_head ty agg) hs = None
      then hs @ [\<lparr>ah_organization_id = org, ah_aggregate_type = ty, ah_aggregate_id = agg,
                  ah_sequence = 1\<rparr>]
      else map (\<lambda>h. if is_head ty agg h then h\<lparr>ah_sequence := ah_sequence h + 1\<rparr> else h) hs)"

definition bump_run :: "uuid \<Rightarrow> uuid option \<Rightarrow> run_row list \<Rightarrow> run_row list" where
  "bump_run org rid rs =
     map (\<lambda>r. if Some (run_id r) = rid \<and> run_organization_id r = org
              then r\<lparr>run_aggregate_version := run_aggregate_version r + 1\<rparr> else r) rs"

lemma next_aggregate_sequence_Inr:
  "next_aggregate_sequence org ty agg d = (Inr n, d') \<longleftrightarrow>
     (\<forall>h. find (is_head ty agg) (t_heads d) = Some h \<longrightarrow> ah_organization_id h = org)
     \<and> n = head_sequence ty agg d + 1 \<and> d' = d\<lparr>t_heads := bump_head org ty agg (t_heads d)\<rparr>"
  by (auto simp: next_aggregate_sequence_def andthen_Inr head_sequence_def bump_head_def
      split: option.splits if_splits)

lemma next_run_sequence_Inr:
  "next_run_sequence org rid d = (Inr n, d') \<longleftrightarrow>
     (\<exists>r. find (\<lambda>r. run_id r = rid \<and> run_organization_id r = org) (t_runs d) = Some r
        \<and> n = run_aggregate_version r + 1)
     \<and> d' = d\<lparr>t_runs := bump_run org (Some rid) (t_runs d)\<rparr>"
  by (auto simp: next_run_sequence_def andthen_Inr bump_run_def split: option.splits if_splits)

lemma bump_run_None [simp]: "bump_run org None rs = rs"
  by (induction rs) (simp_all add: bump_run_def)

lemma take_run_sequence_Inr:
  assumes "take_run_sequence dr d = (Inr n, d')"
  shows "d' = d\<lparr>t_runs := bump_run (ed_organization_id dr) (ed_run_id dr) (t_runs d)\<rparr> \<and>
     (case ed_run_id dr of None \<Rightarrow> n = None
      | Some rid \<Rightarrow> \<exists>r. find (\<lambda>r. run_id r = rid \<and> run_organization_id r = ed_organization_id dr)
                       (t_runs d) = Some r \<and> n = Some (run_aggregate_version r + 1))"
  using assms
  by (cases "ed_run_id dr") (auto simp: take_run_sequence_def andthen_Inr next_run_sequence_Inr)

lemma append_prepared_Inr:
  assumes "append_prepared x dr i payload now d = (Inr e, d')"
  obtains n ob where "publishes ob e"
    and "e = event_of dr i (head_sequence (ed_aggregate_type dr) (ed_aggregate_id dr) d + 1) n payload now"
    and "\<And>h. find (is_head (ed_aggregate_type dr) (ed_aggregate_id dr)) (t_heads d) = Some h \<Longrightarrow>
           ah_organization_id h = ed_organization_id dr"
    and "case ed_run_id dr of None \<Rightarrow> n = None
        | Some rid \<Rightarrow> \<exists>r. find (\<lambda>r. run_id r = rid \<and> run_organization_id r = ed_organization_id dr)
                         (t_runs d) = Some r \<and> n = Some (run_aggregate_version r + 1)"
    and "d' = d\<lparr>t_runs := bump_run (ed_organization_id dr) (ed_run_id dr) (t_runs d),
              t_heads := bump_head (ed_organization_id dr) (ed_aggregate_type dr)
                           (ed_aggregate_id dr) (t_heads d),
              t_events := t_events d @ [e], t_outbox := t_outbox d @ [ob],
              next_id := next_id d + 1\<rparr>"
proof -
  obtain n d1 seq d2 where 1: "take_run_sequence dr d = (Inr n, d1)"
    and 2: "next_aggregate_sequence (ed_organization_id dr) (ed_aggregate_type dr)
              (ed_aggregate_id dr) d1 = (Inr seq, d2)"
    and e: "e = event_of dr i seq n payload now"
    and d': "d' = d2\<lparr>t_events := t_events d2 @ [e], t_outbox := t_outbox d2 @
              [\<lparr>ob_id = next_id d2, ob_event_id = i, ob_topic = ''obsion.'' @ ed_name dr,
               ob_payload = build_event_envelope i dr seq n payload now, ob_created_at = now,
               ob_published_at = None, ob_attempt_count = 0\<rparr>], next_id := next_id d2 + 1\<rparr>"
    using assms by (auto simp: append_prepared_def andthen_Inr Let_def)
  note n = take_run_sequence_Inr [OF 1] and s = 2 [unfolded next_aggregate_sequence_Inr]
  have d1: "head_sequence ty agg d1 = head_sequence ty agg d" "t_heads d1 = t_heads d"
    for ty agg using n by (simp_all add: head_sequence_def)
  show thesis
  proof (rule that [where n = n])
    show "publishes \<lparr>ob_id = next_id d2, ob_event_id = i, ob_topic = ''obsion.'' @ ed_name dr,
            ob_payload = build_event_envelope i dr seq n payload now, ob_created_at = now,
            ob_published_at = None, ob_attempt_count = 0\<rparr> e"
      by (simp add: e publishes_def event_of_def envelope_of_def build_event_envelope_def)
  qed (use n s d1 d' e in simp_all)
qed

lemma append_event_Inl:
  assumes "append_event x now dr d = (Inl e, d')"
  shows "d' = d\<lparr>next_id := next_id d + 1\<rparr>"
  using assms by (auto simp: append_event_def andthen_Inl Let_def dest: transaction_Inl)

lemma prepare_event_draft_Inr:
  "prepare_event_draft x i dr now = Inr payload \<Longrightarrow> payload = redact (JObj (ed_payload dr))"
  by (auto simp: prepare_event_draft_def Let_def split: if_splits sum.splits)

lemma append_event_Inr:
  assumes "append_event x now dr d = (Inr e, d')"
  shows "\<exists>t. append_prepared x dr (next_id d) (redact (JObj (ed_payload dr))) t
             (d\<lparr>next_id := next_id d + 1\<rparr>) = (Inr e, d')"
  using assms
  by (auto simp: append_event_def andthen_Inr Let_def transaction_Inr dest!: prepare_event_draft_Inr)

lemma find_bump_head:
  "find (is_head ty' agg') (bump_head org ty agg hs) =
     (if ty' = ty \<and> agg' = agg
      then Some (case find (is_head ty agg) hs of
                   None \<Rightarrow> \<lparr>ah_organization_id = org, ah_aggregate_type = ty, ah_aggregate_id = agg,
                            ah_sequence = 1\<rparr>
                 | Some h \<Rightarrow> h\<lparr>ah_sequence := ah_sequence h + 1\<rparr>)
      else find (is_head ty' agg') hs)"
proof (cases "find (is_head ty agg) hs")
  case None
  have "find (is_head ty' agg') (hs @ [h]) =
          (case find (is_head ty' agg') hs of None \<Rightarrow> if is_head ty' agg' h then Some h else None
           | Some g \<Rightarrow> Some g)" for h
    by (induction hs) auto
  then show ?thesis using None by (auto simp: bump_head_def is_head_def split: option.splits)
next
  case (Some h)
  have "find (is_head ty' agg') (map (\<lambda>h. if is_head ty agg h then h\<lparr>ah_sequence := ah_sequence h + 1\<rparr>
            else h) hs) =
          map_option (\<lambda>h. if is_head ty agg h then h\<lparr>ah_sequence := ah_sequence h + 1\<rparr> else h)
            (find (is_head ty' agg') hs)"
    by (induction hs) (auto simp: is_head_def)
  then show ?thesis
    using Some by (auto simp: bump_head_def is_head_def map_option_case dest: find_SomeD split: option.splits)
qed

lemma head_sequence_bump:
  "t_heads d' = bump_head org ty agg (t_heads d) \<Longrightarrow>
   head_sequence ty' agg' d' =
     (if ty' = ty \<and> agg' = agg then head_sequence ty agg d + 1 else head_sequence ty' agg' d)"
  by (simp add: head_sequence_def find_bump_head split: option.splits)

lemma bump_run_ids [simp]: "map run_id (bump_run org rid rs) = map run_id rs"
  by (simp add: bump_run_def)

lemma business_bump [simp]:
  "business (d\<lparr>t_runs := bump_run org rid (t_runs d), t_heads := hs, t_events := es, t_outbox := os\<rparr>) =
     business d"
proof -
  have "map (\<lambda>r. r\<lparr>run_aggregate_version := 0\<rparr>) (bump_run org rid rs) =
        map (\<lambda>r. r\<lparr>run_aggregate_version := 0\<rparr>) rs" for rs
    by (simp add: bump_run_def)
  then show ?thesis by (simp add: business_def)
qed

lemma append_event_business:
  assumes "append_event x now dr d = (r, d')"
  shows "business d' = business d \<and> next_id d < next_id d'"
proof (cases r)
  case (Inl e)
  then show ?thesis using append_event_Inl assms by fastforce
next
  case (Inr e)
  then obtain t where "append_prepared x dr (next_id d) (redact (JObj (ed_payload dr))) t
             (d\<lparr>next_id := next_id d + 1\<rparr>) = (Inr e, d')"
    using append_event_Inr assms by blast
  then show ?thesis by (rule append_prepared_Inr) simp
qed

section \<open>The invariant is kept\<close>

lemma upto_snoc: "0 \<le> n \<Longrightarrow> [1..n + 1] = [1..n] @ [n + 1 :: int]"
  by (simp add: upto_rec2)

lemma heads_ok_append:
  assumes inv: "heads_ok d"
    and heads: "t_heads d' = bump_head (ev_organization_id e) (ev_aggregate_type e) (ev_aggregate_id e) (t_heads d)"
    and events: "t_events d' = t_events d @ [e]"
    and seq: "ev_sequence e = head_sequence (ev_aggregate_type e) (ev_aggregate_id e) d + 1"
    and org: "\<And>h. find (is_head (ev_aggregate_type e) (ev_aggregate_id e)) (t_heads d) = Some h \<Longrightarrow>
                ah_organization_id h = ev_organization_id e"
  shows "heads_ok d'"
  unfolding heads_ok_def
proof (intro allI conjI)
  fix ty agg
  let ?mine = "ty = ev_aggregate_type e \<and> agg = ev_aggregate_id e"
  have old: "0 \<le> head_sequence ty agg d"
      "map ev_sequence (aggregate_events ty agg d) = [1..head_sequence ty agg d]"
    using inv by (simp_all add: heads_ok_def)
  have evs: "aggregate_events ty agg d' = aggregate_events ty agg d @ (if ?mine then [e] else [])"
    by (auto simp: aggregate_events_def events)
  show "0 \<le> head_sequence ty agg d'"
    using old(1) by (auto simp: head_sequence_bump [OF heads])
  show "map ev_sequence (aggregate_events ty agg d') = [1..head_sequence ty agg d']"
    using old seq by (auto simp: evs head_sequence_bump [OF heads] upto_snoc)
  show "\<forall>e' \<in> set (aggregate_events ty agg d'). \<forall>h. find (is_head ty agg) (t_heads d') = Some h \<longrightarrow>
          ev_organization_id e' = ah_organization_id h"
  proof (intro ballI allI impI)
    fix e' h
    assume e': "e' \<in> set (aggregate_events ty agg d')" and h: "find (is_head ty agg) (t_heads d') = Some h"
    show "ev_organization_id e' = ah_organization_id h"
    proof (cases "find (is_head ty agg) (t_heads d)")
      case None
      then have "head_sequence ty agg d = 0" by (simp add: head_sequence_def)
      then have "aggregate_events ty agg d = []" using old(2) by simp
      then show ?thesis using e' h None by (auto simp: evs heads find_bump_head split: if_splits)
    next
      case (Some g)
      have "\<forall>e \<in> set (aggregate_events ty agg d). ev_organization_id e = ah_organization_id g"
        using inv Some by (auto simp: heads_ok_def)
      moreover have "ah_organization_id h = ah_organization_id g"
        using h Some by (auto simp: heads find_bump_head split: if_splits)
      ultimately show ?thesis using e' org Some by (auto simp: evs split: if_splits)
    qed
  qed
qed

lemma runs_ok_append:
  assumes inv: "runs_ok d"
    and runs: "t_runs d' = bump_run (ev_organization_id e) (ev_run_id e) (t_runs d)"
    and events: "t_events d' = t_events d @ [e]"
    and seq: "\<And>rid. ev_run_id e = Some rid \<Longrightarrow>
       \<exists>r. find (\<lambda>r. run_id r = rid \<and> run_organization_id r = ev_organization_id e) (t_runs d) = Some r
         \<and> ev_run_sequence e = Some (run_aggregate_version r + 1)"
  shows "runs_ok d'"
  unfolding runs_ok_def
proof (intro conjI ballI)
  show "distinct (map run_id (t_runs d'))" using inv by (simp add: runs_ok_def runs)
  fix r' assume "r' \<in> set (t_runs d')"
  then obtain r where r: "r \<in> set (t_runs d)" and
    r': "r' = (if Some (run_id r) = ev_run_id e \<and> run_organization_id r = ev_organization_id e
               then r\<lparr>run_aggregate_version := run_aggregate_version r + 1\<rparr> else r)"
    by (auto simp: runs bump_run_def)
  have old: "0 \<le> run_aggregate_version r"
      "map ev_run_sequence (run_events (run_id r) d) = map Some [1..run_aggregate_version r]"
      "\<forall>e \<in> set (run_events (run_id r) d). ev_organization_id e = run_organization_id r"
    using inv r by (auto simp: runs_ok_def)
  have ids: "run_id r' = run_id r" "run_organization_id r' = run_organization_id r"
    using r' by (auto split: if_splits)
  have evs: "run_events (run_id r) d' =
               run_events (run_id r) d @ (if ev_run_id e = Some (run_id r) then [e] else [])"
    by (auto simp: run_events_def events)
  have mine: "run_organization_id r = ev_organization_id e \<and>
                ev_run_sequence e = Some (run_aggregate_version r + 1)" if m: "ev_run_id e = Some (run_id r)"
  proof -
    obtain q where q: "find (\<lambda>q. run_id q = run_id r \<and> run_organization_id q = ev_organization_id e)
                         (t_runs d) = Some q" "ev_run_sequence e = Some (run_aggregate_version q + 1)"
      using seq [OF m] by blast
    have "q = r" using find_SomeD [OF q(1)] r inv by (auto simp: runs_ok_def distinct_map inj_on_def)
    then show ?thesis using q find_SomeD [OF q(1)] by simp
  qed
  show "0 \<le> run_aggregate_version r'" using old(1) r' by (auto split: if_splits)
  show "map ev_run_sequence (run_events (run_id r') d') = map Some [1..run_aggregate_version r']"
    using old mine r' by (auto simp: ids evs upto_snoc split: if_splits)
  show "ev_organization_id e' = run_organization_id r'" if "e' \<in> set (run_events (run_id r') d')" for e'
    using that old(3) mine by (auto simp: ids evs split: if_splits)
qed

lemma outbox_ok_append:
  "outbox_ok d \<Longrightarrow> publishes ob e \<Longrightarrow> no_secret_field (ev_payload e) \<Longrightarrow>
   t_events d' = t_events d @ [e] \<Longrightarrow> t_outbox d' = t_outbox d @ [ob] \<Longrightarrow> outbox_ok d'"
  by (auto simp: outbox_ok_def list_all2_appendI)

lemma events_inv_next_id [simp]: "events_inv (d\<lparr>next_id := n\<rparr>) = events_inv d"
  by (simp add: events_inv_def heads_ok_def runs_ok_def outbox_ok_def head_sequence_def
      aggregate_events_def run_events_def)

lemma append_event_inv:
  assumes inv: "events_inv d" and app: "append_event x now dr d = (r, d')"
  shows "events_inv d'"
proof (cases r)
  case (Inl e)
  then show ?thesis using append_event_Inl assms by fastforce
next
  case (Inr e)
  let ?d = "d\<lparr>next_id := next_id d + 1\<rparr>"
  obtain t where "append_prepared x dr (next_id d) (redact (JObj (ed_payload dr))) t ?d = (Inr e, d')"
    using append_event_Inr app Inr by blast
  then show ?thesis
  proof (rule append_prepared_Inr)
    fix n ob
    assume ob: "publishes ob e"
      and e: "e = event_of dr (next_id d) (head_sequence (ed_aggregate_type dr) (ed_aggregate_id dr) ?d + 1)
                n (redact (JObj (ed_payload dr))) t"
      and org: "\<And>h. find (is_head (ed_aggregate_type dr) (ed_aggregate_id dr)) (t_heads ?d) = Some h \<Longrightarrow>
                  ah_organization_id h = ed_organization_id dr"
      and n: "case ed_run_id dr of None \<Rightarrow> n = None
        | Some rid \<Rightarrow> \<exists>r. find (\<lambda>r. run_id r = rid \<and> run_organization_id r = ed_organization_id dr)
                         (t_runs ?d) = Some r \<and> n = Some (run_aggregate_version r + 1)"
      and d': "d' = ?d\<lparr>t_runs := bump_run (ed_organization_id dr) (ed_run_id dr) (t_runs ?d),
              t_heads := bump_head (ed_organization_id dr) (ed_aggregate_type dr)
                           (ed_aggregate_id dr) (t_heads ?d),
              t_events := t_events ?d @ [e], t_outbox := t_outbox ?d @ [ob],
              next_id := next_id ?d + 1\<rparr>"
    have f: "ev_organization_id e = ed_organization_id dr" "ev_aggregate_type e = ed_aggregate_type dr"
        "ev_aggregate_id e = ed_aggregate_id dr" "ev_run_id e = ed_run_id dr" "ev_run_sequence e = n"
        "ev_payload e = redact (JObj (ed_payload dr))"
        "ev_sequence e = head_sequence (ed_aggregate_type dr) (ed_aggregate_id dr) d + 1"
      by (simp_all add: e event_of_def head_sequence_def)
    have inv': "heads_ok d" "runs_ok d" "outbox_ok d" using inv by (simp_all add: events_inv_def)
    have "heads_ok d'" using inv'(1) by (rule heads_ok_append [where e = e]) (simp_all add: d' f org [simplified])
    moreover have "runs_ok d'"
      using inv'(2) by (rule runs_ok_append [where e = e]) (use n in \<open>auto simp: d' f\<close>)
    moreover have "outbox_ok d'" using inv'(3) ob by (rule outbox_ok_append) (simp_all add: d' f)
    ultimately show ?thesis by (simp add: events_inv_def)
  qed
qed

lemma write_audit_iff:
  "write_audit now dr d = (r, d') \<longleftrightarrow>
     (\<exists>row. r = Inr row \<and> d' = d\<lparr>next_id := next_id d + 1, t_audits := t_audits d @ [row]\<rparr> \<and>
       row = \<lparr>au_id = next_id d, au_organization_id = ad_organization_id dr,
                 au_correlation_id = ad_correlation_id dr, au_actor_type = ad_actor_type dr,
                 au_actor_id = ad_actor_id dr, au_action = ad_action dr,
                 au_resource_type = ad_resource_type dr, au_resource_id = ad_resource_id dr,
                 au_outcome = ad_outcome dr, au_risk_level = ad_risk_level dr,
                 au_policy_decision_id = ad_policy_decision_id dr,
                 au_approval_id = ad_approval_id dr,
                 au_redacted_metadata = redact (JObj (audit_metadata dr)),
                 au_latency_ms = ad_latency_ms dr, au_created_at = now\<rparr>)"
  by (auto simp: write_audit_def Let_def op_simps new_id_def)

lemma write_audit_business:
  "write_audit now dr d = (r, d') \<Longrightarrow> business d' = business d \<and> next_id d < next_id d'"
  by (auto simp: write_audit_iff business_def)

lemma write_audit_inv: "events_inv d \<Longrightarrow> write_audit now dr d = (r, d') \<Longrightarrow> events_inv d'"
  by (auto simp: write_audit_iff events_inv_def heads_ok_def runs_ok_def outbox_ok_def
      head_sequence_def aggregate_events_def run_events_def)

section \<open>The interface the services use\<close>

locale ledger =
  fixes emit :: "'d \<Rightarrow> (db, 'r) op"
  assumes emit_business: "emit a d = (r, d') \<Longrightarrow> business d' = business d \<and> next_id d < next_id d'"
    and emit_inv: "events_inv d \<Longrightarrow> emit a d = (r, d') \<Longrightarrow> events_inv d'"
begin

lemma emit_preserves:
  assumes "\<And>d d'. business d' = business d \<Longrightarrow> next_id d \<le> next_id d' \<Longrightarrow> P d \<Longrightarrow> P d'"
  shows "preserves P (emit a)"
  unfolding preserves_def
proof (intro allI impI)
  fix d assume "P d"
  moreover obtain r d' where "emit a d = (r, d')" by (cases "emit a d")
  ultimately show "P (snd (emit a d))" using emit_business assms by (metis less_le snd_conv)
qed

lemma emit_preserves_inv: "preserves events_inv (emit a)"
  unfolding preserves_def by (metis emit_inv prod.collapse)

text \<open>A sequence of records, stopping at the first that raises.\<close>

fun emit_all :: "'d list \<Rightarrow> (db, unit) op" where
  "emit_all [] = ret ()"
| "emit_all (a # as) = andthen (emit a) (\<lambda>_. emit_all as)"

lemma emit_all_business: "emit_all as d = (r, d') \<Longrightarrow> business d' = business d"
proof (induction as arbitrary: d)
  case (Cons a as)
  obtain r1 d1 where 1: "emit a d = (r1, d1)" by (cases "emit a d")
  have b: "business d1 = business d" using emit_business [OF 1] by simp
  show ?case
  proof (cases r1)
    case (Inl e)
    then show ?thesis using Cons.prems 1 b by (simp add: andthen_def)
  next
    case (Inr v)
    then have "emit_all as d1 = (r, d')" using Cons.prems 1 by (simp add: andthen_def)
    then show ?thesis using Cons.IH b by simp
  qed
qed simp

lemma emit_all_inv: "preserves events_inv (emit_all as)"
  by (induction as) (auto intro: preserves_andthen emit_preserves_inv)

end

interpretation event_store: ledger "append_event x now" for x now
  by unfold_locales (auto dest: append_event_business append_event_inv)

interpretation audit_writer: ledger "write_audit now" for now
  by unfold_locales (auto dest: write_audit_business write_audit_inv)

lemma append_event_returns:
  assumes registered: "(ed_name dr, ed_schema_version dr) \<in> set (ext_event_versions x)"
    and payload: "ext_event_payload x (ed_name dr) (ed_schema_version dr) (redact (JObj (ed_payload dr))) = []"
    and code: "validate_payload_error_code x (redact (JObj (ed_payload dr))) (ed_name dr)
                 (ed_schema_version dr) = Inr ()"
    and envelope: "\<And>envelope. ext_envelope x envelope = []"
    and run: "\<And>rid. ed_run_id dr = Some rid \<Longrightarrow>
       \<exists>r \<in> set (t_runs d). run_id r = rid \<and> run_organization_id r = ed_organization_id dr"
    and head: "\<And>h. find (is_head (ed_aggregate_type dr) (ed_aggregate_id dr)) (t_heads d) = Some h \<Longrightarrow>
                 ah_organization_id h = ed_organization_id dr"
  shows "\<exists>e d'. append_event x now dr d = (Inr e, d')"
proof -
  let ?now = "case ed_created_at dr of None \<Rightarrow> now | Some t \<Rightarrow> t"
  let ?d = "d\<lparr>next_id := next_id d + 1\<rparr>"
  have env: "validate_event_envelope x (build_event_envelope i dr n m p t) name v = Inr ()" for i n m p t name v
    using envelope
    by (simp add: validate_event_envelope_def validate_instance_def build_event_envelope_def
        is_obj_def json_get_def)
  have prep: "prepare_event_draft x (next_id d) dr ?now = Inr (redact (JObj (ed_payload dr)))"
    using registered payload code
    by (simp add: prepare_event_draft_def Let_def validate_instance_def env)
  obtain n d1 where 1: "take_run_sequence dr ?d = (Inr n, d1)" and h1: "t_heads d1 = t_heads d"
  proof (cases "ed_run_id dr")
    case None
    then show ?thesis using that [of None ?d] by (simp add: take_run_sequence_def)
  next
    case (Some rid)
    then have "find (\<lambda>r. run_id r = rid \<and> run_organization_id r = ed_organization_id dr) (t_runs d) \<noteq> None"
      using run find_NoneD by fastforce
    then obtain r where "find (\<lambda>r. run_id r = rid \<and> run_organization_id r = ed_organization_id dr) (t_runs d)
                           = Some r" by blast
    then show ?thesis using that Some
      by (simp add: take_run_sequence_def next_run_sequence_def op_simps)
  qed
  have 2: "next_aggregate_sequence (ed_organization_id dr) (ed_aggregate_type dr) (ed_aggregate_id dr) d1
             = (Inr (head_sequence (ed_aggregate_type dr) (ed_aggregate_id dr) d1 + 1),
                d1\<lparr>t_heads := bump_head (ed_organization_id dr) (ed_aggregate_type dr)
                     (ed_aggregate_id dr) (t_heads d1)\<rparr>)"
    using head by (simp add: next_aggregate_sequence_Inr h1)
  have "\<exists>e d'. append_prepared x dr (next_id d) (redact (JObj (ed_payload dr))) ?now ?d = (Inr e, d')"
    using 1 2 by (simp add: append_prepared_def op_simps env new_id_def Let_def)
  then show ?thesis
    using prep by (auto simp: append_event_def andthen_Inr transaction_Inr Let_def)
qed

lemma raises_new_id: "raises new_id E d"
  by (simp add: raises_def)

lemma raises_append_event:
  assumes "c \<noteq> ''event_run_missing''"
  shows "raises (append_event x now dr) (\<lambda>e _. \<not> error_is ConflictC c e) d"
proof -
  have seq: "raises (next_aggregate_sequence org ty agg) (\<lambda>e _. \<not> error_is ConflictC c e) d" for org ty agg d
    unfolding next_aggregate_sequence_def by (intro raises_intros returns_intros) (simp_all add: error_is_def)
  have run: "raises (take_run_sequence dr) (\<lambda>e _. \<not> error_is ConflictC c e) d" for d
    unfolding take_run_sequence_def next_run_sequence_def using assms
    by (intro raises_intros returns_intros) (simp_all add: error_is_def ConflictError_def)
  have envelope: "\<not> error_is ConflictC c e" if "validate_event_envelope x env n v = Inl e" for env n v e
    using that by (auto simp: validate_event_envelope_def validate_instance_def ValidationError_def error_is_def
        split: if_splits list.splits)
  have prepared: "raises (append_prepared x dr i pl t) (\<lambda>e _. \<not> error_is ConflictC c e) d" for i pl t d
    unfolding append_prepared_def Let_def
    by (intro raises_intros run)
      (auto simp: returns_def raises_def andthen_Inl dest: raisesD [OF seq] envelope)
  have "\<not> error_is ConflictC c e" if "prepare_event_draft x i dr t = Inl e" for i t e
    using that envelope
    by (auto simp: prepare_event_draft_def validate_instance_def validate_payload_error_code_def Let_def
        ValidationError_def error_is_def split: if_splits list.splits sum.splits option.splits json.splits)
  then have prep: "raises (from_sum (prepare_event_draft x i dr t)) (\<lambda>e _. \<not> error_is ConflictC c e) d" for i t d
    by (simp add: raises_def)
  show ?thesis
    unfolding append_event_def Let_def
    by (intro raises_andthen prep raises_transaction prepared raises_new_id returns_always)
qed

lemma append_event_heads:
  assumes "append_event x now dr d = (v, d')"
  shows "t_heads d' = t_heads d \<or>
     t_heads d' = bump_head (ed_organization_id dr) (ed_aggregate_type dr) (ed_aggregate_id dr) (t_heads d)"
proof (cases v)
  case (Inl err)
  then show ?thesis using append_event_Inl assms by fastforce
next
  case (Inr ev)
  then obtain t where "append_prepared x dr (next_id d) (redact (JObj (ed_payload dr))) t
             (d\<lparr>next_id := next_id d + 1\<rparr>) = (Inr ev, d')"
    using append_event_Inr assms(1) by blast
  then show ?thesis by (rule append_prepared_Inr) simp
qed

text \<open>A contract set that accepts every event of the given names.\<close>

definition accepts :: "ext \<Rightarrow> string list \<Rightarrow> bool" where
  "accepts x names \<longleftrightarrow>
     (\<forall>n \<in> set names. (n, 1) \<in> set (ext_event_versions x) \<and> (\<forall>p. ext_event_payload x n 1 p = []))
     \<and> (\<forall>v. ext_envelope x v = [])"

lemma json_get_redact_None:
  "map_of p k = None \<Longrightarrow> json_get (redact (JObj p)) k = None"
  by (induction p) (auto simp: json_get_def redact_obj split: if_splits)

lemma append_event_accepted:
  assumes "accepts x names" and "ed_name dr \<in> set names" and "ed_schema_version dr = 1"
    and "map_of (ed_payload dr) ''error_code'' = None"
    and "\<And>rid. ed_run_id dr = Some rid \<Longrightarrow>
       \<exists>r \<in> set (t_runs d). run_id r = rid \<and> run_organization_id r = ed_organization_id dr"
    and "\<And>h. find (is_head (ed_aggregate_type dr) (ed_aggregate_id dr)) (t_heads d) = Some h \<Longrightarrow>
                 ah_organization_id h = ed_organization_id dr"
  shows "\<exists>e d'. append_event x now dr d = (Inr e, d')"
proof (rule append_event_returns)
  show "validate_payload_error_code x (redact (JObj (ed_payload dr))) (ed_name dr) (ed_schema_version dr) = Inr ()"
    using json_get_redact_None [OF assms(4)] by (simp add: validate_payload_error_code_def)
qed (use assms in \<open>auto simp: accepts_def\<close>)

section \<open>Properties\<close>

text \<open>A contract set that accepts the given events and codes, and a sample draft.\<close>

definition open_ext :: "string list \<Rightarrow> string list \<Rightarrow> ext" where
  "open_ext names codes =
     \<lparr>ext_sha256 = py_repr, ext_schema = (\<lambda>_ _. None),
      ext_event_versions = map (\<lambda>n. (n, 1)) names, ext_event_payload = (\<lambda>_ _ _. []),
      ext_envelope = (\<lambda>_. []), ext_error_codes = codes, ext_host_ok = (\<lambda>_. True),
      ext_environ = (\<lambda>_. None)\<rparr>"

definition sample_draft :: event_draft where
  "sample_draft = EventDraft ''action.created'' ''action_request'' 9 1 9 Actor_USER (Some 7)
     [(''environment'', JStr ''staging''), (''api_key'', JStr ''k'')]"

lemma events_inv_empty [simp]: "events_inv empty_db"
  by (simp add: events_inv_def heads_ok_def runs_ok_def outbox_ok_def empty_db_def
      head_sequence_def aggregate_events_def run_events_def)

text \<open>
  C9: Appending an event is atomic and keeps the log consistent. On success exactly one event
  and the outbox message that publishes it are added, the event takes the next number of its
  aggregate and carries the redacted payload; on any error nothing is stored. Either way the
  sequences of all aggregates and runs stay gapless and the business tables are untouched.
\<close>

theorem append_event_atomic:
  assumes "events_inv d" and "append_event x now dr d = (r, d')"
  shows "events_inv d' \<and> business d' = business d \<and>
     (case r of
        Inl _ \<Rightarrow> d' = d\<lparr>next_id := next_id d + 1\<rparr>
      | Inr e \<Rightarrow> t_events d' = t_events d @ [e]
          \<and> ev_sequence e = head_sequence (ed_aggregate_type dr) (ed_aggregate_id dr) d + 1
          \<and> ev_payload e = redact (JObj (ed_payload dr)) \<and> no_secret_field (ev_payload e)
          \<and> (\<exists>ob. t_outbox d' = t_outbox d @ [ob] \<and> publishes ob e))"
proof -
  have "case r of
        Inl _ \<Rightarrow> d' = d\<lparr>next_id := next_id d + 1\<rparr>
      | Inr e \<Rightarrow> t_events d' = t_events d @ [e]
          \<and> ev_sequence e = head_sequence (ed_aggregate_type dr) (ed_aggregate_id dr) d + 1
          \<and> ev_payload e = redact (JObj (ed_payload dr)) \<and> no_secret_field (ev_payload e)
          \<and> (\<exists>ob. t_outbox d' = t_outbox d @ [ob] \<and> publishes ob e)"
  proof (cases r)
    case (Inl e)
    then show ?thesis using append_event_Inl assms by simp
  next
    case (Inr e)
    then obtain t where "append_prepared x dr (next_id d) (redact (JObj (ed_payload dr))) t
               (d\<lparr>next_id := next_id d + 1\<rparr>) = (Inr e, d')"
      using append_event_Inr assms by blast
    then show ?thesis
      by (rule append_prepared_Inr) (auto simp: Inr event_of_def head_sequence_def)
  qed
  then show ?thesis using append_event_inv append_event_business assms by blast
qed

theorem append_event_atomic_witness:
  "events_inv (snd (append_event (open_ext [] []) 0 sample_draft empty_db)) \<and>
   snd (append_event (open_ext [] []) 0 sample_draft empty_db) = empty_db\<lparr>next_id := 101\<rparr>"
proof -
  have a: "append_event (open_ext [] []) 0 sample_draft empty_db =
          (Inl (ValidationError ''event_name_unregistered'' ''The event name is not registered''
             [(''event_name'', JStr ''action.created'')]), empty_db\<lparr>next_id := 101\<rparr>)"
    by (simp add: append_event_def op_simps new_id_def empty_db_def prepare_event_draft_def
        open_ext_def sample_draft_def EventDraft_def)
  show ?thesis using append_event_atomic [OF events_inv_empty a] a by simp
qed

text \<open>
  Appending cannot fail for reasons of the store: when the event is registered, the
  contract validators accept the redacted payload and the envelopes, the payload's error code
  is a registered one, the run exists and the aggregate is not another organization's, the
  append returns the event.
\<close>

theorem append_event_succeeds:
  assumes registered: "(ed_name dr, ed_schema_version dr) \<in> set (ext_event_versions x)"
    and payload: "ext_event_payload x (ed_name dr) (ed_schema_version dr) (redact (JObj (ed_payload dr))) = []"
    and code: "validate_payload_error_code x (redact (JObj (ed_payload dr))) (ed_name dr)
                 (ed_schema_version dr) = Inr ()"
    and envelope: "\<And>envelope. ext_envelope x envelope = []"
    and run: "\<And>rid. ed_run_id dr = Some rid \<Longrightarrow>
       \<exists>r \<in> set (t_runs d). run_id r = rid \<and> run_organization_id r = ed_organization_id dr"
    and head: "\<And>h. find (is_head (ed_aggregate_type dr) (ed_aggregate_id dr)) (t_heads d) = Some h \<Longrightarrow>
                 ah_organization_id h = ed_organization_id dr"
  shows "\<exists>e d'. append_event x now dr d = (Inr e, d')"
  using assms by (rule append_event_returns)

lemma sample_append:
  "\<exists>e d'. append_event (open_ext [''action.created''] []) 0 sample_draft empty_db = (Inr e, d')"
  by (rule append_event_returns)
    (simp_all add: open_ext_def sample_draft_def EventDraft_def validate_payload_error_code_def
      json_get_def redact_obj empty_db_def)

theorem append_event_succeeds_witness:
  "\<exists>e d'. append_event (open_ext [''action.created''] []) 0 sample_draft
            (empty_db\<lparr>t_heads := [\<lparr>ah_organization_id = 1, ah_aggregate_type = ''action_request'',
               ah_aggregate_id = 9, ah_sequence = 4\<rparr>]\<rparr>) = (Inr e, d')"
  by (rule append_event_succeeds)
    (auto simp: open_ext_def sample_draft_def EventDraft_def validate_payload_error_code_def
      json_get_def redact_obj empty_db_def split: if_splits)

lemma filter_upto: "0 \<le> a \<Longrightarrow> filter (\<lambda>i. a < i) [1..n] = [a + 1..n :: int]"
proof (induction "nat n" arbitrary: n)
  case 0
  then show ?case by simp
next
  case (Suc k)
  then have n: "0 \<le> n - 1" "k = nat (n - 1)" by auto
  then have "[1..n] = [1..n - 1] @ [n]" using upto_snoc [of "n - 1"] by simp
  moreover have "filter (\<lambda>i. a < i) [1..n - 1] = [a + 1..n - 1]" using Suc n by simp
  moreover have "[a + 1..n] = [a + 1..n - 1] @ [n]" if "a < n" using that upto_rec2 [of "a + 1" n] by simp
  ultimately show ?case by auto
qed

lemma take_upto: "take k [a..b :: int] = [a..min b (a + int k - 1)]"
proof (induction k arbitrary: a)
  case (Suc k)
  show ?case
  proof (cases "a \<le> b")
    case True
    then have "take (Suc k) [a..b] = a # [a + 1..min b (a + 1 + int k - 1)]"
      using Suc by (simp add: upto_rec1 [of a b])
    also have "\<dots> = [a..min b (a + int (Suc k) - 1)]"
      using True by (subst upto_rec1 [of a "min b (a + int (Suc k) - 1)"]) (simp_all add: algebra_simps)
    finally show ?thesis .
  qed simp
qed simp

text \<open>
  C15: Reading an aggregate's log from a cursor returns, to the organization that owns it,
  exactly the next events in order, without gaps or repetitions: the sequence numbers run from
  the cursor + 1 to the cursor + limit, or to the stored head if that comes first. Another
  organization reads nothing.
\<close>

theorem list_aggregate_pages:
  assumes inv: "events_inv d" and after: "0 \<le> after"
    and head: "find (is_head ty agg) (t_heads d) = Some h"
  shows "map ev_sequence (list_aggregate (ah_organization_id h) ty agg after limit d) =
           [after + 1..min (head_sequence ty agg d) (after + int limit)]
         \<and> (org \<noteq> ah_organization_id h \<longrightarrow> list_aggregate org ty agg after limit d = [])"
proof
  let ?es = "filter (\<lambda>e. after < ev_sequence e) (aggregate_events ty agg d)"
  have ok: "map ev_sequence (aggregate_events ty agg d) = [1..head_sequence ty agg d]"
      "\<forall>e \<in> set (aggregate_events ty agg d). ev_organization_id e = ah_organization_id h"
    using inv head by (auto simp: events_inv_def heads_ok_def)
  have org: "filter (\<lambda>e. ev_organization_id e = o' \<and> ev_aggregate_type e = ty \<and> ev_aggregate_id e = agg
                \<and> after < ev_sequence e) (t_events d) =
              (if o' = ah_organization_id h then ?es else [])" for o'
    using ok(2) by (auto simp: aggregate_events_def intro!: filter_cong)
  have seqs: "map ev_sequence ?es = [after + 1..head_sequence ty agg d]"
  proof -
    have "map ev_sequence ?es = filter (\<lambda>i. after < i) (map ev_sequence (aggregate_events ty agg d))"
      by (simp add: filter_map comp_def)
    then show ?thesis using ok(1) filter_upto [OF after] by simp
  qed
  then have "sort_key ev_sequence ?es = ?es"
    by (metis sorted_sort_id sort_key_id_if_sorted sorted_upto)
  then show "map ev_sequence (list_aggregate (ah_organization_id h) ty agg after limit d) =
           [after + 1..min (head_sequence ty agg d) (after + int limit)]"
    using seqs by (simp add: list_aggregate_def org take_map [symmetric] take_upto)
  show "org \<noteq> ah_organization_id h \<longrightarrow> list_aggregate org ty agg after limit d = []"
    by (simp add: list_aggregate_def org)
qed

definition sample_log :: db where
  "sample_log = snd (append_event (open_ext [''action.created''] []) 0 sample_draft empty_db)"

lemma sample_log_inv: "events_inv sample_log"
  using sample_append append_event_inv [OF events_inv_empty] unfolding sample_log_def by fastforce

lemma sample_log_head:
  "find (is_head ''action_request'' 9) (t_heads sample_log) =
     Some \<lparr>ah_organization_id = 1, ah_aggregate_type = ''action_request'', ah_aggregate_id = 9,
           ah_sequence = 1\<rparr>"
proof -
  obtain e d' where a: "append_event (open_ext [''action.created''] []) 0 sample_draft empty_db = (Inr e, d')"
    using sample_append by blast
  then obtain t where "append_prepared (open_ext [''action.created''] []) sample_draft (next_id empty_db)
       (redact (JObj (ed_payload sample_draft))) t (empty_db\<lparr>next_id := next_id empty_db + 1\<rparr>) = (Inr e, d')"
    using append_event_Inr by blast
  then have "t_heads d' = bump_head 1 ''action_request'' 9 []"
    by (rule append_prepared_Inr) (simp add: empty_db_def sample_draft_def EventDraft_def)
  moreover have "sample_log = d'" by (simp add: sample_log_def a)
  ultimately show ?thesis by (simp add: bump_head_def is_head_def)
qed

theorem list_aggregate_pages_witness:
  "map ev_sequence (list_aggregate 1 ''action_request'' 9 0 10 sample_log) = [1]
   \<and> list_aggregate 2 ''action_request'' 9 0 10 sample_log = []"
proof -
  have "head_sequence ''action_request'' 9 sample_log = 1"
    by (simp add: head_sequence_def sample_log_head)
  then show ?thesis
    using list_aggregate_pages [OF sample_log_inv _ sample_log_head, of 0 10 2] by simp
qed

end
