(* ===== verification/Policy.thy ===== *)
theory Policy
  imports Events
begin

text \<open>
  The policy engine, \<open>security/policy.py\<close>: how a stored policy matches a request, how the
  matching policies resolve to one effect, and the three entry points (capabilities,
  control-plane resources and governed actions), each of which persists a policy decision.
  Tracing and counters are left out.

  The lemmas characterise denial exactly: DENY overrides every other effect, nothing is
  permitted without the principal's own grant, generic capabilities stay read-only, and the
  action boundary opens for precisely one combination of environment, capability, approval
  and grants.
\<close>

section \<open>Inputs and decisions\<close>

record policy_input =
  pi_principal :: principal
  pi_capability :: capability_version_row
  pi_action :: string
  pi_resource :: jobj
  pi_context :: jobj
  pi_agent_name :: string
  pi_agent_version_id :: "uuid option"
  pi_agent_capability_allowed :: "bool option"
  pi_run_id :: "uuid option"

record action_policy_input =
  api_principal :: principal
  api_capability :: capability_version_row
  api_action :: string
  api_resource :: jobj
  api_context :: jobj
  api_action_request_id :: uuid
  api_approval_valid :: bool

record resource_policy_input =
  rpi_principal :: principal
  rpi_action :: string
  rpi_resource :: jobj
  rpi_context :: jobj
  rpi_risk_level :: risk_level
  rpi_resource_type :: string
  rpi_capability_version_id :: "uuid option"
  rpi_agent_name :: string
  rpi_agent_version_id :: "uuid option"
  rpi_run_id :: "uuid option"
  rpi_resource_access_allowed :: "bool option"

record decision =
  dn_id :: uuid
  dn_effect :: decision_effect
  dn_obligations :: "json list"
  dn_reason_codes :: "string list"
  dn_matched_policy_ids :: "uuid list"

section \<open>Matching\<close>

definition matches_scalar :: "json \<Rightarrow> json \<Rightarrow> bool" where
  "matches_scalar actual expected =
     (case expected of
        JList es \<Rightarrow> list_ex (py_eq actual) es
      | JStr s \<Rightarrow> if CHR ''*'' \<in> set s then fnmatch (py_str actual) s else py_eq actual expected
      | _ \<Rightarrow> py_eq actual expected)"

definition string_set :: "json \<Rightarrow> string set" where
  "string_set v = (case v of JStr s \<Rightarrow> {s} | JList js \<Rightarrow> set (map py_str js) | _ \<Rightarrow> {})"

definition patterns :: "json \<Rightarrow> string list" where
  "patterns v = (case v of JStr s \<Rightarrow> [s] | JList js \<Rightarrow> map py_str js | _ \<Rightarrow> [])"

text \<open>The walk of a dotted key through nested dictionaries.\<close>

fun walk :: "json \<Rightarrow> string list \<Rightarrow> json option" where
  "walk current [] = Some current"
| "walk current (part # parts) =
     (case json_get current part of None \<Rightarrow> None | Some v \<Rightarrow> walk v parts)"

definition matches_mapping :: "jobj \<Rightarrow> jobj \<Rightarrow> bool" where
  "matches_mapping actual expected =
     list_all (\<lambda>(key, value).
       case walk (JObj actual) (split_on (CHR ''.'') key) of
         None \<Rightarrow> False
       | Some current \<Rightarrow> matches_scalar current value) expected"

definition cond_get :: "jobj \<Rightarrow> string \<Rightarrow> json \<Rightarrow> json" where
  "cond_get conditions key dflt =
     (case map_of conditions key of None \<Rightarrow> dflt | Some v \<Rightarrow> v)"

record policy_subject =
  sub_principal :: principal
  sub_action :: string
  sub_resource :: jobj
  sub_context :: jobj
  sub_agent_name :: string
  sub_agent_version_id :: "uuid option"
  sub_risk_level :: risk_level

definition within_max_risk :: "json \<Rightarrow> risk_level \<Rightarrow> bool" where
  "within_max_risk max_risk risk =
     (if \<not> truthy max_risk then True
      else case max_risk of
             JStr s \<Rightarrow> (case risk_of_value s of None \<Rightarrow> False | Some m \<Rightarrow> \<not> ordinal risk > ordinal m)
           | _ \<Rightarrow> False)"

definition policy_matches :: "policy_row \<Rightarrow> policy_subject \<Rightarrow> bool" where
  "policy_matches policy s =
     (let conditions = (case pol_conditions policy of JObj c \<Rightarrow> c | _ \<Rightarrow> []);
          p = sub_principal s;
          roles_any = string_set (cond_get conditions ''roles_any'' (JList []));
          roles_all = string_set (cond_get conditions ''roles_all'' (JList []));
          permissions_any = string_set (cond_get conditions ''permissions_any'' (JList []));
          permissions_all = string_set (cond_get conditions ''permissions_all'' (JList []));
          user_ids = string_set (cond_get conditions ''user_ids''
                       (cond_get conditions ''users_any'' (cond_get conditions ''users'' (JList []))));
          department_ids = string_set (cond_get conditions ''department_ids''
                       (cond_get conditions ''departments_any''
                         (cond_get conditions ''departments'' (JList []))));
          department_names = string_set (cond_get conditions ''department_names'' (JList []));
          attributes = cond_get conditions ''attributes'' (JObj []);
          agent_versions = string_set (cond_get conditions ''agent_version_ids'' (JList []));
          resource_conditions = cond_get conditions ''resource'' (JObj []);
          context_conditions = cond_get conditions ''context'' (JObj [])
      in list_ex (fnmatch (sub_action s)) (patterns (cond_get conditions ''actions'' (JList [JStr ''*''])))
       \<and> (roles_any = {} \<or> roles_any \<inter> p_roles p \<noteq> {})
       \<and> (roles_all = {} \<or> roles_all \<subseteq> p_roles p)
       \<and> (permissions_any = {} \<or> ''*'' \<in> p_permissions p \<or> permissions_any \<inter> p_permissions p \<noteq> {})
       \<and> (permissions_all = {} \<or> ''*'' \<in> p_permissions p \<or> permissions_all \<subseteq> p_permissions p)
       \<and> (user_ids = {} \<or> uuid_str (p_id p) \<in> user_ids)
       \<and> (department_ids = {} \<or> (case p_department_id p of None \<Rightarrow> False
                                  | Some i \<Rightarrow> uuid_str i \<in> department_ids))
       \<and> (department_names = {} \<or> (case p_department p of None \<Rightarrow> False
                                    | Some n \<Rightarrow> n \<in> department_names))
       \<and> (\<not> truthy attributes \<or> (case attributes of JObj a \<Rightarrow> matches_mapping (p_attributes p) a
                                  | _ \<Rightarrow> False))
       \<and> list_ex (fnmatch (sub_agent_name s)) (patterns (cond_get conditions ''agents'' (JList [JStr ''*''])))
       \<and> (agent_versions = {} \<or> (case sub_agent_version_id s of None \<Rightarrow> False
                                  | Some i \<Rightarrow> uuid_str i \<in> agent_versions))
       \<and> within_max_risk (cond_get conditions ''max_risk'' JNull) (sub_risk_level s)
       \<and> (case (resource_conditions, context_conditions) of
            (JObj r, JObj c) \<Rightarrow> matches_mapping (sub_resource s) r \<and> matches_mapping (sub_context s) c
          | _ \<Rightarrow> False))"

text \<open>\<open>ORDER BY priority DESC, created_at DESC\<close> over the enabled policies of the organization.\<close>

definition enabled_policies :: "uuid \<Rightarrow> db \<Rightarrow> policy_row list" where
  "enabled_policies org d =
     sort_key (\<lambda>p. - pol_priority p) (sort_key (\<lambda>p. - pol_created_at p)
       (filter (\<lambda>p. pol_organization_id p = org \<and> pol_enabled p) (t_policies d)))"

definition matching_policies :: "policy_subject \<Rightarrow> db \<Rightarrow> policy_row list" where
  "matching_policies s d =
     filter (\<lambda>p. policy_matches p s) (enabled_policies (p_organization_id (sub_principal s)) d)"

text \<open>\<open>max(matching, key=...)\<close>: the first policy of greatest strength.\<close>

definition strongest :: "policy_row \<Rightarrow> policy_row list \<Rightarrow> policy_row" where
  "strongest p ps =
     foldl (\<lambda>best q. if effect_strength (pol_effect q) > effect_strength (pol_effect best)
                     then q else best) p ps"

definition policy_reason_code :: "policy_row \<Rightarrow> string" where
  "policy_reason_code p = ''policy:'' @ pol_name p @ '':v'' @ int_str (pol_version p)"

section \<open>Resolution\<close>

type_synonym resolution = "decision_effect \<times> json list \<times> string list \<times> uuid list"

definition subject_of :: "policy_input \<Rightarrow> policy_subject" where
  "subject_of r =
     \<lparr>sub_principal = pi_principal r, sub_action = pi_action r, sub_resource = pi_resource r,
      sub_context = pi_context r, sub_agent_name = pi_agent_name r,
      sub_agent_version_id = pi_agent_version_id r,
      sub_risk_level = cv_risk_level (pi_capability r)\<rparr>"

definition resolve_policy :: "policy_input \<Rightarrow> db \<Rightarrow> resolution" where
  "resolve_policy r d =
     (let capability = pi_capability r; granted = can (pi_principal r) (pi_action r)
      in if pi_agent_capability_allowed r = Some False
         then (Effect_DENY, [], [''agent_capability_not_allowed''], [])
         else if cv_side_effect capability \<noteq> Side_NONE \<or> ordinal (cv_risk_level capability) \<ge> 3
         then (Effect_DENY, [], [''v1_read_only_boundary''], [])
         else case matching_policies (subject_of r) d of
           m # ms \<Rightarrow>
             (let effect = pol_effect (strongest m ms);
                  same_effect = filter (\<lambda>p. pol_effect p = effect) (m # ms)
              in if effect \<noteq> Effect_DENY \<and> \<not> granted
                 then (Effect_DENY, [], [''no_matching_grant''], [])
                 else (effect, concat (map pol_obligations same_effect),
                       map policy_reason_code same_effect, map pol_id same_effect))
         | [] \<Rightarrow>
             if \<not> granted then (Effect_DENY, [], [''no_matching_grant''], [])
             else if cv_risk_level capability = Risk_L2
             then (Effect_MASK,
                   [JObj [(''type'', JStr ''mask_classified_fields'')],
                    JObj [(''type'', JStr ''limit_result_rows''), (''value'', JInt 500)]],
                   [''default_sensitive_read''], [])
             else (Effect_ALLOW, [], [''principal_permission''], []))"

definition resource_subject :: "resource_policy_input \<Rightarrow> policy_subject" where
  "resource_subject r =
     \<lparr>sub_principal = rpi_principal r, sub_action = rpi_action r, sub_resource = rpi_resource r,
      sub_context = rpi_context r, sub_agent_name = rpi_agent_name r,
      sub_agent_version_id = rpi_agent_version_id r, sub_risk_level = rpi_risk_level r\<rparr>"

definition resolve_resource :: "resource_policy_input \<Rightarrow> db \<Rightarrow> resolution" where
  "resolve_resource r d =
     (let granted = can (rpi_principal r) (rpi_action r);
          high = ordinal (rpi_risk_level r) \<ge> ordinal Risk_L3;
          matching = (if high then [] else matching_policies (resource_subject r) d)
      in if rpi_resource_access_allowed r = Some False
         then (Effect_DENY, [], [''resource_access_denied''], [])
         else if high then (Effect_DENY, [], [''high_risk_resource_mutation_denied''], [])
         else case matching of
           m # ms \<Rightarrow>
             (let effect = pol_effect (strongest m ms);
                  selected = filter (\<lambda>p. pol_effect p = effect) (m # ms)
              in if effect \<noteq> Effect_DENY \<and> \<not> granted
                 then (Effect_DENY, [], [''no_matching_grant''], [])
                 else (effect, concat (map pol_obligations selected),
                       map policy_reason_code selected, map pol_id selected))
         | [] \<Rightarrow>
             if \<not> granted then (Effect_DENY, [], [''no_matching_grant''], [])
             else if rpi_risk_level r = Risk_L2
             then (Effect_MASK, [JObj [(''type'', JStr ''redact_sensitive_fields'')]],
                   [''default_sensitive_resource''], [])
             else (Effect_ALLOW, [], [''principal_permission''], []))"

definition action_subject :: "action_policy_input \<Rightarrow> policy_subject" where
  "action_subject r =
     \<lparr>sub_principal = api_principal r, sub_action = api_action r, sub_resource = api_resource r,
      sub_context = api_context r, sub_agent_name = ''action-agent'',
      sub_agent_version_id = None, sub_risk_level = cv_risk_level (api_capability r)\<rparr>"

definition resolve_action :: "action_policy_input \<Rightarrow> db \<Rightarrow> decision_effect \<times> string list \<times> uuid list" where
  "resolve_action r d =
     (let environment = py_str (cond_get (api_context r) ''environment'' (JStr []));
          capability = api_capability r
      in if environment \<notin> {''development'', ''staging''}
         then (Effect_DENY, [''v1_production_action_boundary''], [])
         else if cv_risk_level capability \<noteq> Risk_L3
                 \<or> cv_side_effect capability \<noteq> Side_IDEMPOTENT_WRITE
         then (Effect_DENY, [''v1_action_capability_boundary''], [])
         else if \<not> api_approval_valid r
         then (Effect_DENY, [''action_approval_invalid''], [])
         else if \<not> can (api_principal r) ''action.execute'' \<or> \<not> can (api_principal r) (api_action r)
         then (Effect_DENY, [''no_matching_grant''], [])
         else
           (let matching = matching_policies (action_subject r) d;
                denying = filter (\<lambda>p. pol_effect p = Effect_DENY) matching
            in if denying \<noteq> []
               then (Effect_DENY, map policy_reason_code denying, map pol_id denying)
               else (Effect_ALLOW, ''governed_action_approved'' # map policy_reason_code matching,
                     map pol_id matching)))"

section \<open>The entry points\<close>

definition principal_fingerprint :: "principal \<Rightarrow> jobj" where
  "principal_fingerprint p =
     [(''principal'', JStr (uuid_str (p_id p))),
      (''department_id'', opt_uuid (p_department_id p)),
      (''department'', case p_department p of None \<Rightarrow> JNull | Some n \<Rightarrow> JStr n),
      (''roles'', JList (map JStr (sorted_list_of_set (p_roles p)))),
      (''permissions'', JList (map JStr (sorted_list_of_set (p_permissions p)))),
      (''attributes'', redact (JObj (p_attributes p)))]"

definition opt_bool :: "bool option \<Rightarrow> json" where
  "opt_bool b = (case b of None \<Rightarrow> JNull | Some v \<Rightarrow> JBool v)"

definition add_decision :: "policy_decision_row \<Rightarrow> (db, unit) op" where
  "add_decision row = modify (\<lambda>d. d\<lparr>t_policy_decisions := t_policy_decisions d @ [row]\<rparr>)"

definition evaluate :: "ext \<Rightarrow> time \<Rightarrow> policy_input \<Rightarrow> (db, decision) op" where
  "evaluate x now r =
     andthen (reads (resolve_policy r)) (\<lambda>(effect, obligations, reasons, policy_ids).
     (let p = pi_principal r;
          matched = map uuid_str policy_ids;
          resource = redact (JObj (pi_resource r)); context = redact (JObj (pi_context r));
          safe_input = principal_fingerprint p @
            [(''agent'', JStr (pi_agent_name r)),
             (''agent_version_id'', opt_uuid (pi_agent_version_id r)),
             (''agent_capability_allowed'', opt_bool (pi_agent_capability_allowed r)),
             (''capability'', JStr (uuid_str (cv_id (pi_capability r)))),
             (''action'', JStr (pi_action r)), (''resource'', resource), (''context'', context),
             (''risk'', JStr (risk_level_value (cv_risk_level (pi_capability r)))),
             (''effect'', JStr (decision_effect_value effect)),
             (''matched_policy_ids'', JList (map JStr matched))]
      in andthen new_id (\<lambda>i.
         andthen (add_decision
           \<lparr>pd_id = i, pd_organization_id = p_organization_id p, pd_run_id = pi_run_id r,
            pd_principal_id = p_id p, pd_agent_version_id = pi_agent_version_id r,
            pd_capability_version_id = Some (cv_id (pi_capability r)), pd_action = pi_action r,
            pd_resource = resource, pd_context = context,
            pd_risk_level = cv_risk_level (pi_capability r), pd_effect = effect,
            pd_matched_policy_ids = matched, pd_obligations = obligations,
            pd_reason_codes = reasons, pd_input_fingerprint = sha256_hex x (JObj safe_input),
            pd_created_at = now\<rparr>) (\<lambda>_.
         ret \<lparr>dn_id = i, dn_effect = effect, dn_obligations = obligations,
              dn_reason_codes = reasons, dn_matched_policy_ids = policy_ids\<rparr>))))"

definition evaluate_resource :: "ext \<Rightarrow> time \<Rightarrow> resource_policy_input \<Rightarrow> (db, decision) op" where
  "evaluate_resource x now r =
     andthen (reads (resolve_resource r)) (\<lambda>(effect, obligations, reasons, policy_ids).
     (let p = rpi_principal r;
          matched = map uuid_str policy_ids;
          resource = redact (JObj (rpi_resource r)); context = redact (JObj (rpi_context r));
          safe_input = principal_fingerprint p @
            [(''agent'', JStr (rpi_agent_name r)),
             (''agent_version_id'', opt_uuid (rpi_agent_version_id r)),
             (''resource_type'', JStr (rpi_resource_type r)),
             (''capability_version_id'', opt_uuid (rpi_capability_version_id r)),
             (''action'', JStr (rpi_action r)), (''resource'', resource), (''context'', context),
             (''risk'', JStr (risk_level_value (rpi_risk_level r))),
             (''resource_access_allowed'', opt_bool (rpi_resource_access_allowed r)),
             (''effect'', JStr (decision_effect_value effect)),
             (''matched_policy_ids'', JList (map JStr matched))]
      in andthen new_id (\<lambda>i.
         andthen (add_decision
           \<lparr>pd_id = i, pd_organization_id = p_organization_id p, pd_run_id = rpi_run_id r,
            pd_principal_id = p_id p, pd_agent_version_id = None,
            pd_capability_version_id = rpi_capability_version_id r, pd_action = rpi_action r,
            pd_resource = resource, pd_context = context, pd_risk_level = rpi_risk_level r,
            pd_effect = effect, pd_matched_policy_ids = matched, pd_obligations = obligations,
            pd_reason_codes = reasons, pd_input_fingerprint = sha256_hex x (JObj safe_input),
            pd_created_at = now\<rparr>) (\<lambda>_.
         ret \<lparr>dn_id = i, dn_effect = effect, dn_obligations = obligations,
              dn_reason_codes = reasons, dn_matched_policy_ids = policy_ids\<rparr>))))"

definition evaluate_action :: "ext \<Rightarrow> time \<Rightarrow> action_policy_input \<Rightarrow> (db, decision) op" where
  "evaluate_action x now r =
     andthen (reads (resolve_action r)) (\<lambda>(effect, reasons, policy_ids).
     (let p = api_principal r;
          resource = redact (JObj (api_resource r)); context = redact (JObj (api_context r));
          safe_input = principal_fingerprint p @
            [(''action_request_id'', JStr (uuid_str (api_action_request_id r))),
             (''capability'', JStr (uuid_str (cv_id (api_capability r)))),
             (''action'', JStr (api_action r)), (''resource'', resource), (''context'', context),
             (''risk'', JStr (risk_level_value (cv_risk_level (api_capability r)))),
             (''approval_valid'', JBool (api_approval_valid r))]
      in andthen new_id (\<lambda>i.
         andthen (add_decision
           \<lparr>pd_id = i, pd_organization_id = p_organization_id p, pd_run_id = None,
            pd_principal_id = p_id p, pd_agent_version_id = None,
            pd_capability_version_id = Some (cv_id (api_capability r)), pd_action = api_action r,
            pd_resource = resource, pd_context = context,
            pd_risk_level = cv_risk_level (api_capability r), pd_effect = effect,
            pd_matched_policy_ids = map uuid_str policy_ids, pd_obligations = [],
            pd_reason_codes = reasons, pd_input_fingerprint = sha256_hex x (JObj safe_input),
            pd_created_at = now\<rparr>) (\<lambda>_.
         ret \<lparr>dn_id = i, dn_effect = effect, dn_obligations = [],
              dn_reason_codes = reasons, dn_matched_policy_ids = policy_ids\<rparr>))))"

section \<open>Matching policies\<close>

lemma enabled_policies_mem [simp]:
  "p \<in> set (enabled_policies org d) \<longleftrightarrow>
     p \<in> set (t_policies d) \<and> pol_organization_id p = org \<and> pol_enabled p"
  by (auto simp: enabled_policies_def)

lemma matching_policies_mem:
  "p \<in> set (matching_policies s d) \<longleftrightarrow>
     p \<in> set (t_policies d) \<and> pol_organization_id p = p_organization_id (sub_principal s)
     \<and> pol_enabled p \<and> policy_matches p s"
  by (auto simp: matching_policies_def)

lemma strongest_in: "strongest p ps \<in> set (p # ps)"
proof (induction ps arbitrary: p)
  case (Cons q ps)
  show ?case
    using Cons [of p] Cons [of q] by (auto simp: strongest_def)
qed (simp add: strongest_def)

lemma strongest_max: "q \<in> set (p # ps) \<Longrightarrow> pol_effect q \<le> pol_effect (strongest p ps)"
proof (induction ps arbitrary: p q)
  case Nil
  then show ?case by (simp add: strongest_def)
next
  case (Cons a ps)
  let ?b = "if effect_strength (pol_effect a) > effect_strength (pol_effect p) then a else p"
  have s: "strongest p (a # ps) = strongest ?b ps" by (simp add: strongest_def)
  have "pol_effect ?b \<le> pol_effect (strongest ?b ps)" using Cons.IH [of ?b ?b] by simp
  moreover have "pol_effect p \<le> pol_effect ?b" "pol_effect a \<le> pol_effect ?b"
    by (auto simp: less_eq_decision_effect_def)
  ultimately show ?case using Cons.prems Cons.IH [of q ?b] s by (auto dest: order_trans)
qed

lemma strongest_deny:
  "pol_effect (strongest p ps) = Effect_DENY \<longleftrightarrow> (\<exists>q \<in> set (p # ps). pol_effect q = Effect_DENY)"
  by (metis DENY_le_iff strongest_in strongest_max)

section \<open>The contract of a resolver\<close>

text \<open>
  What callers rely on, whichever entry point they use: a request is denied exactly when its
  boundary is closed, the principal lacks the grant, or a matching policy denies.
\<close>

locale policy_gate =
  fixes effect :: "'r \<Rightarrow> db \<Rightarrow> decision_effect"
    and subject :: "'r \<Rightarrow> policy_subject"
    and closed :: "'r \<Rightarrow> bool"
  assumes deny_iff:
    "effect r d = Effect_DENY \<longleftrightarrow>
       closed r \<or> \<not> can (sub_principal (subject r)) (sub_action (subject r))
       \<or> (\<exists>p \<in> set (matching_policies (subject r) d). pol_effect p = Effect_DENY)"
begin

lemma deny_overrides:
  assumes "p \<in> set (t_policies d)" and "pol_enabled p"
    and "pol_organization_id p = p_organization_id (sub_principal (subject r))"
    and "policy_matches p (subject r)" and "pol_effect p = Effect_DENY"
  shows "effect r d = Effect_DENY"
  using assms by (auto simp: deny_iff matching_policies_mem)

lemma needs_grant:
  "effect r d \<noteq> Effect_DENY \<Longrightarrow> can (sub_principal (subject r)) (sub_action (subject r)) \<and> \<not> closed r"
  by (simp add: deny_iff)

lemma deny_monotone:
  assumes "effect r d = Effect_DENY" and "set (t_policies d) \<subseteq> set (t_policies d')"
  shows "effect r d' = Effect_DENY"
  using assms by (auto simp: deny_iff matching_policies_mem)

lemma deny_tenant:
  assumes "\<And>p. pol_organization_id p = p_organization_id (sub_principal (subject r)) \<Longrightarrow>
             p \<in> set (t_policies d) \<longleftrightarrow> p \<in> set (t_policies d')"
  shows "effect r d = Effect_DENY \<longleftrightarrow> effect r d' = Effect_DENY"
  using assms by (auto simp: deny_iff matching_policies_mem)

end

definition read_only_closed :: "policy_input \<Rightarrow> bool" where
  "read_only_closed r \<longleftrightarrow> pi_agent_capability_allowed r = Some False
     \<or> cv_side_effect (pi_capability r) \<noteq> Side_NONE \<or> cv_risk_level (pi_capability r) \<ge> Risk_L3"

definition resource_closed :: "resource_policy_input \<Rightarrow> bool" where
  "resource_closed r \<longleftrightarrow> rpi_resource_access_allowed r = Some False \<or> rpi_risk_level r \<ge> Risk_L3"

definition action_closed :: "action_policy_input \<Rightarrow> bool" where
  "action_closed r \<longleftrightarrow>
     py_str (cond_get (api_context r) ''environment'' (JStr [])) \<notin> {''development'', ''staging''}
     \<or> cv_risk_level (api_capability r) \<noteq> Risk_L3
     \<or> cv_side_effect (api_capability r) \<noteq> Side_IDEMPOTENT_WRITE
     \<or> \<not> api_approval_valid r \<or> \<not> can (api_principal r) ''action.execute''"

interpretation capability_gate: policy_gate "\<lambda>r d. fst (resolve_policy r d)" subject_of read_only_closed
proof
  fix r d
  have sub: "sub_principal (subject_of r) = pi_principal r" "sub_action (subject_of r) = pi_action r"
    by (simp_all add: subject_of_def)
  have risk: "ordinal c \<ge> 3 \<longleftrightarrow> c \<ge> Risk_L3" for c by (simp add: less_eq_risk_level_def)
  show "fst (resolve_policy r d) = Effect_DENY \<longleftrightarrow>
       read_only_closed r \<or> \<not> can (sub_principal (subject_of r)) (sub_action (subject_of r))
       \<or> (\<exists>p \<in> set (matching_policies (subject_of r) d). pol_effect p = Effect_DENY)"
  proof (cases "matching_policies (subject_of r) d")
    case Nil
    then show ?thesis
      by (simp add: resolve_policy_def Let_def read_only_closed_def sub risk)
  next
    case (Cons m ms)
    show ?thesis
      unfolding Cons resolve_policy_def Let_def list.case read_only_closed_def sub risk
      using strongest_deny [of m ms] by simp
  qed
qed

interpretation resource_gate: policy_gate "\<lambda>r d. fst (resolve_resource r d)" resource_subject resource_closed
proof
  fix r d
  have sub: "sub_principal (resource_subject r) = rpi_principal r"
      "sub_action (resource_subject r) = rpi_action r"
    by (simp_all add: resource_subject_def)
  have risk: "ordinal c \<ge> ordinal Risk_L3 \<longleftrightarrow> c \<ge> Risk_L3" for c by (simp add: less_eq_risk_level_def)
  show "fst (resolve_resource r d) = Effect_DENY \<longleftrightarrow>
       resource_closed r \<or> \<not> can (sub_principal (resource_subject r)) (sub_action (resource_subject r))
       \<or> (\<exists>p \<in> set (matching_policies (resource_subject r) d). pol_effect p = Effect_DENY)"
  proof (cases "matching_policies (resource_subject r) d")
    case Nil
    then show ?thesis
      by (simp add: resolve_resource_def Let_def resource_closed_def sub risk del: ordinal.simps)
  next
    case (Cons m ms)
    show ?thesis
      unfolding Cons resolve_resource_def Let_def resource_closed_def sub risk
      using strongest_deny [of m ms] by simp
  qed
qed

interpretation action_gate: policy_gate "\<lambda>r d. fst (resolve_action r d)" action_subject action_closed
proof
  fix r d
  have sub: "sub_principal (action_subject r) = api_principal r" "sub_action (action_subject r) = api_action r"
    by (simp_all add: action_subject_def)
  show "fst (resolve_action r d) = Effect_DENY \<longleftrightarrow>
       action_closed r \<or> \<not> can (sub_principal (action_subject r)) (sub_action (action_subject r))
       \<or> (\<exists>p \<in> set (matching_policies (action_subject r) d). pol_effect p = Effect_DENY)"
    unfolding resolve_action_def Let_def action_closed_def sub by (auto simp: filter_empty_conv)
qed

section \<open>Properties of the entry points\<close>

text \<open>The row that records a decision, and what the entry points add to the store.\<close>

definition records :: "policy_decision_row \<Rightarrow> decision \<Rightarrow> bool" where
  "records row dn \<longleftrightarrow> pd_id row = dn_id dn \<and> pd_effect row = dn_effect dn
     \<and> pd_reason_codes row = dn_reason_codes dn
     \<and> pd_matched_policy_ids row = map uuid_str (dn_matched_policy_ids dn)
     \<and> no_secret_field (pd_resource row) \<and> no_secret_field (pd_context row)"

lemma evaluate_records:
  "\<exists>dn row. evaluate x now r d =
     (Inr dn, d\<lparr>next_id := next_id d + 1, t_policy_decisions := t_policy_decisions d @ [row]\<rparr>)
     \<and> records row dn \<and> dn_effect dn = fst (resolve_policy r d)"
  by (cases "resolve_policy r d")
    (simp add: evaluate_def op_simps new_id_def add_decision_def records_def Let_def,
      rule exI, rule conjI, rule refl, simp)

lemma evaluate_resource_records:
  "\<exists>dn row. evaluate_resource x now r d =
     (Inr dn, d\<lparr>next_id := next_id d + 1, t_policy_decisions := t_policy_decisions d @ [row]\<rparr>)
     \<and> records row dn \<and> dn_effect dn = fst (resolve_resource r d)"
  by (cases "resolve_resource r d")
    (simp add: evaluate_resource_def op_simps new_id_def add_decision_def records_def Let_def,
      rule exI, rule conjI, rule refl, simp)

lemma evaluate_action_records:
  "\<exists>dn row. evaluate_action x now r d =
     (Inr dn, d\<lparr>next_id := next_id d + 1, t_policy_decisions := t_policy_decisions d @ [row]\<rparr>)
     \<and> records row dn \<and> dn_effect dn = fst (resolve_action r d)"
  by (cases "resolve_action r d")
    (simp add: evaluate_action_def op_simps new_id_def add_decision_def records_def Let_def,
      rule exI, rule conjI, rule refl, simp)

text \<open>
  C11: The generic capability entry point always returns a decision and stores exactly one
  redacted decision row for it. It permits (with or without obligations) precisely when the
  agent may use the capability, the capability is free of side effects and below risk L3 (the
  read-only boundary), the principal holds the grant, and no enabled matching policy of the
  organization denies.
\<close>

theorem evaluate_denies_iff:
  "\<exists>dn row d'. evaluate x now r d = (Inr dn, d')
     \<and> t_policy_decisions d' = t_policy_decisions d @ [row] \<and> records row dn
     \<and> (dn_effect dn \<noteq> Effect_DENY \<longleftrightarrow>
          pi_agent_capability_allowed r \<noteq> Some False
          \<and> cv_side_effect (pi_capability r) = Side_NONE
          \<and> cv_risk_level (pi_capability r) < Risk_L3
          \<and> can (pi_principal r) (pi_action r)
          \<and> \<not> (\<exists>p. p \<in> set (t_policies d) \<and> pol_enabled p
               \<and> pol_organization_id p = p_organization_id (pi_principal r)
               \<and> policy_matches p (subject_of r) \<and> pol_effect p = Effect_DENY))"
proof -
  obtain dn row where e: "evaluate x now r d =
     (Inr dn, d\<lparr>next_id := next_id d + 1, t_policy_decisions := t_policy_decisions d @ [row]\<rparr>)"
    and r: "records row dn" and f: "dn_effect dn = fst (resolve_policy r d)"
    using evaluate_records by blast
  have sub: "sub_principal (subject_of r) = pi_principal r" "sub_action (subject_of r) = pi_action r"
    by (simp_all add: subject_of_def)
  show ?thesis
    using e r
    by (intro exI [of _ dn] exI [of _ row] exI conjI)
      (auto simp: f capability_gate.deny_iff matching_policies_mem sub read_only_closed_def not_le)
qed

text \<open>
  C10: The action entry point allows a write in exactly one case: development or staging, an L3
  idempotent-write capability, a valid approval, a principal holding both
  \<open>action.execute\<close> and the capability's own permission, and no enabled matching policy that
  denies. Otherwise it denies; it never asks or masks, and the decision is stored either way.
\<close>

theorem evaluate_action_allows_iff:
  "\<exists>dn row d'. evaluate_action x now r d = (Inr dn, d')
     \<and> t_policy_decisions d' = t_policy_decisions d @ [row] \<and> records row dn
     \<and> dn_effect dn =
         (if py_str (cond_get (api_context r) ''environment'' (JStr [])) \<in> {''development'', ''staging''}
             \<and> cv_risk_level (api_capability r) = Risk_L3
             \<and> cv_side_effect (api_capability r) = Side_IDEMPOTENT_WRITE
             \<and> api_approval_valid r \<and> can (api_principal r) ''action.execute''
             \<and> can (api_principal r) (api_action r)
             \<and> \<not> (\<exists>p. p \<in> set (t_policies d) \<and> pol_enabled p
                    \<and> pol_organization_id p = p_organization_id (api_principal r)
                    \<and> policy_matches p (action_subject r) \<and> pol_effect p = Effect_DENY)
          then Effect_ALLOW else Effect_DENY)"
proof -
  obtain dn row where e: "evaluate_action x now r d =
     (Inr dn, d\<lparr>next_id := next_id d + 1, t_policy_decisions := t_policy_decisions d @ [row]\<rparr>)"
    and r: "records row dn" and f: "dn_effect dn = fst (resolve_action r d)"
    using evaluate_action_records by blast
  have sub: "sub_principal (action_subject r) = api_principal r" "sub_action (action_subject r) = api_action r"
    by (simp_all add: action_subject_def)
  have two: "fst (resolve_action r d) \<in> {Effect_ALLOW, Effect_DENY}"
    by (simp add: resolve_action_def Let_def)
  show ?thesis
    using e r two action_gate.deny_iff [of r d]
    by (intro exI [of _ dn] exI [of _ row] exI conjI)
      (auto simp: f matching_policies_mem sub action_closed_def)
qed

text \<open>
  C13: Control-plane resources: the decision is stored, and it permits precisely when the
  resource's own access check did not fail, the risk is below L3 (whatever policies exist), the
  principal holds the grant, and no matching policy denies. No policy can open what the
  resource's access check closed.
\<close>

theorem evaluate_resource_denies_iff:
  "\<exists>dn row d'. evaluate_resource x now r d = (Inr dn, d')
     \<and> t_policy_decisions d' = t_policy_decisions d @ [row] \<and> records row dn
     \<and> (dn_effect dn \<noteq> Effect_DENY \<longleftrightarrow>
          rpi_resource_access_allowed r \<noteq> Some False \<and> rpi_risk_level r < Risk_L3
          \<and> can (rpi_principal r) (rpi_action r)
          \<and> \<not> (\<exists>p. p \<in> set (t_policies d) \<and> pol_enabled p
               \<and> pol_organization_id p = p_organization_id (rpi_principal r)
               \<and> policy_matches p (resource_subject r) \<and> pol_effect p = Effect_DENY))"
proof -
  obtain dn row where e: "evaluate_resource x now r d =
     (Inr dn, d\<lparr>next_id := next_id d + 1, t_policy_decisions := t_policy_decisions d @ [row]\<rparr>)"
    and r: "records row dn" and f: "dn_effect dn = fst (resolve_resource r d)"
    using evaluate_resource_records by blast
  have sub: "sub_principal (resource_subject r) = rpi_principal r"
      "sub_action (resource_subject r) = rpi_action r"
    by (simp_all add: resource_subject_def)
  show ?thesis
    using e r
    by (intro exI [of _ dn] exI [of _ row] exI conjI)
      (auto simp: f resource_gate.deny_iff matching_policies_mem sub resource_closed_def not_le)
qed

text \<open>
  C14: Denials are stable under more policies: adding policies to a store, of any effect and
  priority, never turns a denied request into a permitted one, at any of the three entry
  points.
\<close>

theorem denial_survives_new_policies:
  assumes "set (t_policies d) \<subseteq> set (t_policies d')"
  shows "(fst (resolve_policy r d) = Effect_DENY \<longrightarrow> fst (resolve_policy r d') = Effect_DENY)
    \<and> (fst (resolve_resource q d) = Effect_DENY \<longrightarrow> fst (resolve_resource q d') = Effect_DENY)
    \<and> (fst (resolve_action a d) = Effect_DENY \<longrightarrow> fst (resolve_action a d') = Effect_DENY)"
  using assms capability_gate.deny_monotone resource_gate.deny_monotone action_gate.deny_monotone
  by blast

definition sample_capability :: "risk_level \<Rightarrow> side_effect \<Rightarrow> capability_version_row" where
  "sample_capability risk side =
     \<lparr>cv_id = 40, cv_organization_id = 1, cv_capability_id = 41, cv_version = 1,
      cv_transport = Transport_HTTP, cv_risk_level = risk, cv_side_effect = side,
      cv_permission_action = ''ticket.write'', cv_input_schema = JObj [], cv_output_schema = JObj [],
      cv_timeout_seconds = 30, cv_checksum_sha256 = ''c'',
      cv_data_classification = Cls_INTERNAL\<rparr>"

definition sample_policy :: "decision_effect \<Rightarrow> policy_row" where
  "sample_policy effect =
     \<lparr>pol_id = 50, pol_organization_id = 1, pol_name = ''p'', pol_version = 1, pol_priority = 100,
      pol_effect = effect, pol_enabled = True, pol_conditions = JObj [], pol_obligations = [],
      pol_reason = ''r'', pol_created_at = 0\<rparr>"

definition sample_action_input :: action_policy_input where
  "sample_action_input =
     \<lparr>api_principal = sample_principal 7 [''action.execute''],
      api_capability = sample_capability Risk_L3 Side_IDEMPOTENT_WRITE,
      api_action = ''ticket.write'', api_resource = [],
      api_context = [(''environment'', JStr ''staging'')], api_action_request_id = 9,
      api_approval_valid = True\<rparr>"

theorem denial_survives_new_policies_witness:
  "fst (resolve_action sample_action_input (empty_db\<lparr>t_policies := [sample_policy Effect_ALLOW]\<rparr>))
     = Effect_DENY"
proof -
  have "fst (resolve_action sample_action_input empty_db) = Effect_DENY"
    by (simp add: action_gate.deny_iff sample_action_input_def action_subject_def can_def
        sample_principal_def)
  then show ?thesis
    using denial_survives_new_policies [of empty_db "empty_db\<lparr>t_policies := [sample_policy Effect_ALLOW]\<rparr>"]
    by (simp add: empty_db_def)
qed

end
