(* ===== verification/ActionGateway.thy ===== *)
theory ActionGateway
  imports Policy
begin

text \<open>
  \<open>actions/gateway.py\<close>, the mandatory execution boundary of governed actions, and the
  credential broker of \<open>capabilities/connectors.py\<close> it calls.

  The state is a \<open>world\<close>: the store and the log of requests posted to providers (a request,
  once sent, is not undone by a rollback). What answers from outside is in \<open>env\<close>: the rate
  limiter's answer, the provider's outcome for an endpoint and payload, the measured latency,
  and the worker settings. \<open>clk\<close> gives the successive clock readings.

  The lemmas show what had to hold for a request to leave the process: \<open>post_authorised\<close> is the
  contract, kept by every step of the gateway.
\<close>

section \<open>The world outside the store\<close>

datatype content_length = No_Length | Bad_Length | Length int

datatype http_outcome =
    Http_Timeout
  | Http_Failed
  | Http_Ok content_length int "json option"

record post =
  po_endpoint :: string
  po_headers :: "(string \<times> string) list"
  po_payload :: jobj
  po_timeout :: int

record world =
  w_db :: db
  w_posts :: "post list"

record env =
  e_ext :: ext
  e_limit :: "string \<Rightarrow> int option \<Rightarrow> err + bool"
  e_provider :: "string \<Rightarrow> jobj \<Rightarrow> http_outcome"
  e_sendable :: "(string \<times> string) list \<Rightarrow> jobj \<Rightarrow> bool"
  e_latency_ms :: int
  e_max_response_bytes :: int
  e_worker_id :: string
  e_lease_seconds :: int

definition in_db :: "(db, 'a) op \<Rightarrow> (world, 'a) op" where
  "in_db m w = (case m (w_db w) of (r, d) \<Rightarrow> (r, w\<lparr>w_db := d\<rparr>))"

text \<open>A database transaction: a raise rolls the store back, not the requests already sent.\<close>

definition db_transaction :: "(world, 'a) op \<Rightarrow> (world, 'a) op" where
  "db_transaction m w =
     (case m w of (Inl e, w') \<Rightarrow> (Inl e, w'\<lparr>w_db := w_db w\<rparr>) | (Inr v, w') \<Rightarrow> (Inr v, w'))"

section \<open>Resolved capabilities and payloads\<close>

record resolved_capability =
  rc_definition :: capability_definition_row
  rc_version :: capability_version_row
  rc_binding :: capability_binding_row
  rc_connector :: connector_row

definition plan_reference :: "resolved_capability \<Rightarrow> jobj" where
  "plan_reference rc =
     [(''capability_name'', JStr (cd_name (rc_definition rc))),
      (''capability_version_id'', JStr (uuid_str (cv_id (rc_version rc)))),
      (''version'', JInt (cv_version (rc_version rc))),
      (''checksum_sha256'', JStr (cv_checksum_sha256 (rc_version rc))),
      (''permission_action'', JStr (cv_permission_action (rc_version rc))),
      (''risk_level'', JStr (risk_level_value (cv_risk_level (rc_version rc)))),
      (''side_effect'', JStr (side_effect_value (cv_side_effect (rc_version rc)))),
      (''connector_id'', JStr (uuid_str (con_id (rc_connector rc)))),
      (''binding_id'', JStr (uuid_str (cb_id (rc_binding rc))))]"

definition action_provider_payload ::
  "action_request_row \<Rightarrow> string \<Rightarrow> action_approval_purpose \<Rightarrow> json \<Rightarrow> json option \<Rightarrow> jobj" where
  "action_provider_payload action checksum purpose parameters original_output =
     [(''action_type'', JStr (action_type_value (ar_action_type action))),
      (''purpose'', JStr (action_approval_purpose_value purpose)),
      (''target'', JObj (ar_target action)),
      (''parameters'', parameters),
      (''obsion'', JObj [(''action_request_id'', JStr (uuid_str (ar_id action))),
                         (''plan_checksum_sha256'', JStr checksum)])]
     @ (if purpose = Purpose_ROLLBACK
        then [(''original_output'',
               case original_output of Some v \<Rightarrow> if truthy v then v else JObj [] | None \<Rightarrow> JObj [])]
        else [])"

definition selector_matches :: "jobj \<Rightarrow> jobj \<Rightarrow> bool" where
  "selector_matches selector resource =
     list_all (\<lambda>(key, expected).
       case walk (JObj resource) (split_on (CHR ''.'') key) of
         None \<Rightarrow> False
       | Some current \<Rightarrow> py_eq current expected) selector"

definition validate_schema :: "ext \<Rightarrow> json \<Rightarrow> jobj \<Rightarrow> string \<Rightarrow> err + unit" where
  "validate_schema x schema payload code =
     (case ext_schema x schema (JObj payload) of
        None \<Rightarrow> Inr ()
      | Some path \<Rightarrow> Inl (ValidationError code ''Action payload does not match its capability schema''
                          [(''path'', JStr path)]))"

section \<open>Contract and egress checks\<close>

definition validate_contract :: "resolved_capability \<Rightarrow> principal \<Rightarrow> string \<Rightarrow> err + unit" where
  "validate_contract rc p environment =
     (let version = rc_version rc
      in if environment \<notin> {''development'', ''staging''}
         then Inl (ValidationError ''v1_production_action_boundary''
                ''V1 actions are limited to development and staging'' [])
         else if cv_risk_level version \<noteq> Risk_L3 \<or> cv_side_effect version \<noteq> Side_IDEMPOTENT_WRITE
                 \<or> cv_transport version \<noteq> Transport_HTTP
         then Inl (ValidationError ''v1_action_capability_boundary''
                ''V1 actions require an L3 idempotent HTTP write capability'' [])
         else if \<not> can p ''action.execute'' \<or> \<not> can p (cv_permission_action version)
         then Inl (ValidationError ''action_permission_missing''
                ''The action owner lacks the required execution permission'' [])
         else if JStr (cv_permission_action version) \<notin> set (con_declared_grants (rc_connector rc))
         then Inl (ValidationError ''connector_grant_missing''
                ''The connector has not declared the capability permission'' [])
         else Inr ())"

definition ValueError :: "string \<Rightarrow> err" where
  "ValueError msg = PyError ''ValueError'' msg"

definition endpoint_authority :: "ext \<Rightarrow> string \<Rightarrow> string \<Rightarrow> err + string \<times> int" where
  "endpoint_authority x v default_scheme =
     (let candidate = (if contains_sub ''://'' v then v else default_scheme @ ''://'' @ v)
      in case urlparse (ext_host_ok x) candidate of
           None \<Rightarrow> Inl (ValueError ''Invalid IPv6 URL'')
         | Some u \<Rightarrow>
             (case url_hostname u of
                None \<Rightarrow> Inl (ValueError ''invalid HTTP authority'')
              | Some host \<Rightarrow>
                  if url_scheme u \<notin> {''http'', ''https''} then Inl (ValueError ''invalid HTTP authority'')
                  else (case url_port u of
                          None \<Rightarrow> Inl (ValueError ''Port out of range 0-65535'')
                        | Some port \<Rightarrow>
                            Inr (casefold host,
                                 case port of
                                   None \<Rightarrow> if url_scheme u = ''https'' then 443 else 80
                                 | Some n \<Rightarrow> if n \<noteq> 0 then n
                                            else if url_scheme u = ''https'' then 443 else 80))))"

text \<open>The allowlist as a set of authorities, or the first \<open>ValueError\<close> of an entry.\<close>

fun egress_authorities :: "ext \<Rightarrow> string \<Rightarrow> json list \<Rightarrow> err + (string \<times> int) list" where
  "egress_authorities x scheme [] = Inr []"
| "egress_authorities x scheme (JStr item # items) =
     (case endpoint_authority x item scheme of
        Inl e \<Rightarrow> Inl e
      | Inr a \<Rightarrow> (case egress_authorities x scheme items of Inl e \<Rightarrow> Inl e | Inr as \<Rightarrow> Inr (a # as)))"
| "egress_authorities x scheme (_ # items) = egress_authorities x scheme items"

definition validate_endpoint :: "ext \<Rightarrow> connector_row \<Rightarrow> err + unit" where
  "validate_endpoint x connector =
     (case con_endpoint connector of
        None \<Rightarrow> Inl (ValidationError ''connector_endpoint_missing'' ''Action connector has no endpoint'' [])
      | Some endpoint \<Rightarrow>
          if endpoint = []
          then Inl (ValidationError ''connector_endpoint_missing'' ''Action connector has no endpoint'' [])
          else (case urlparse (ext_host_ok x) endpoint of
                  None \<Rightarrow> Inl (ValueError ''Invalid IPv6 URL'')
                | Some u \<Rightarrow>
                    if url_scheme u \<notin> {''http'', ''https''} \<or> url_hostname u = None
                       \<or> url_username u \<noteq> None \<or> url_password u \<noteq> None
                    then Inl (ValidationError ''connector_egress_invalid''
                           ''Action connector endpoint is invalid'' [])
                    else (case endpoint_authority x endpoint ''https'' of
                            Inl e \<Rightarrow> Inl e
                          | Inr authority \<Rightarrow>
                              (case egress_authorities x (url_scheme u) (con_allowed_egress connector) of
                                 Inl e \<Rightarrow> Inl (ValidationError ''connector_egress_invalid''
                                          ''Action connector egress configuration is invalid'' [])
                               | Inr allowed \<Rightarrow>
                                   if authority \<notin> set allowed
                                   then Inl (ValidationError ''connector_egress_denied''
                                          ''Action connector endpoint is outside its allowlist'' [])
                                   else if url_scheme u \<noteq> ''https''
                                           \<and> con_environment connector \<noteq> ''development''
                                   then Inl (ValidationError ''connector_tls_required''
                                          ''Non-development action connectors must use TLS'' [])
                                   else Inr ()))))"

section \<open>Resolving capabilities\<close>

text \<open>The join of definitions, versions, bindings and connectors.\<close>

definition capability_rows :: "db \<Rightarrow> resolved_capability list" where
  "capability_rows d =
     [\<lparr>rc_definition = cd, rc_version = cv, rc_binding = cb, rc_connector = con\<rparr>.
        cd \<leftarrow> t_capability_definitions d,
        cv \<leftarrow> t_capability_versions d, cv_capability_id cv = cd_id cd,
        cb \<leftarrow> t_bindings d, cb_capability_version_id cb = cv_id cv,
        con \<leftarrow> t_connectors d, con_id con = cb_connector_id cb]"

definition preflight_row :: "uuid \<Rightarrow> string \<Rightarrow> string \<Rightarrow> resolved_capability \<Rightarrow> bool" where
  "preflight_row org name environment rc \<longleftrightarrow>
     cd_organization_id (rc_definition rc) = org \<and> cd_name (rc_definition rc) = name
     \<and> cd_status (rc_definition rc) = Registry_ACTIVE
     \<and> cb_organization_id (rc_binding rc) = org \<and> cb_environment (rc_binding rc) = environment
     \<and> cb_enabled (rc_binding rc)
     \<and> con_organization_id (rc_connector rc) = org \<and> con_environment (rc_connector rc) = environment
     \<and> con_status (rc_connector rc) = Connector_ACTIVE"

definition gateway_preflight ::
  "ext \<Rightarrow> principal \<Rightarrow> string \<Rightarrow> string \<Rightarrow> jobj \<Rightarrow> (db, resolved_capability) op" where
  "gateway_preflight x p name environment resource =
     andthen (reads (\<lambda>d. find (\<lambda>rc. selector_matches (cb_resource_selector (rc_binding rc)) resource)
        (sort_key (\<lambda>rc. - cv_version (rc_version rc))
          (filter (preflight_row (p_organization_id p) name environment) (capability_rows d))))) (\<lambda>row.
     andthen (from_some (NotFoundError ''Action capability binding'' name) row) (\<lambda>resolved.
     andthen (from_sum (validate_contract resolved p environment)) (\<lambda>_.
     andthen (from_sum (validate_endpoint x (rc_connector resolved))) (\<lambda>_.
     ret resolved))))"

definition validate_preflight_payload :: "ext \<Rightarrow> resolved_capability \<Rightarrow> jobj \<Rightarrow> err + unit" where
  "validate_preflight_payload x resolved payload =
     validate_schema x (cv_input_schema (rc_version resolved)) payload ''action_input_invalid''"

record gateway_request =
  gr_principal :: principal
  gr_action :: action_request_row
  gr_approval :: action_approval_row
  gr_attempt :: action_attempt_row
  gr_plan_checksum_sha256 :: string
  gr_purpose :: action_approval_purpose
  gr_payload :: jobj

definition pinned_row :: "gateway_request \<Rightarrow> resolved_capability \<Rightarrow> bool" where
  "pinned_row r rc \<longleftrightarrow>
     (let org = p_organization_id (gr_principal r); environment = ar_environment (gr_action r)
      in cv_id (rc_version rc) = at_capability_version_id (gr_attempt r)
       \<and> cd_organization_id (rc_definition rc) = org \<and> cd_status (rc_definition rc) = Registry_ACTIVE
       \<and> cb_connector_id (rc_binding rc) = at_connector_id (gr_attempt r)
       \<and> cb_environment (rc_binding rc) = environment \<and> cb_enabled (rc_binding rc)
       \<and> con_organization_id (rc_connector rc) = org \<and> con_environment (rc_connector rc) = environment
       \<and> con_status (rc_connector rc) = Connector_ACTIVE)"

definition resolve_pinned :: "ext \<Rightarrow> gateway_request \<Rightarrow> (db, resolved_capability) op" where
  "resolve_pinned x r =
     andthen (reads (\<lambda>d. filter (pinned_row r) (capability_rows d))) (\<lambda>rows.
     andthen (case rows of
                [] \<Rightarrow> raise (NotFoundError ''Pinned action capability''
                        (uuid_str (at_capability_version_id (gr_attempt r))))
              | [rc] \<Rightarrow> ret rc
              | _ \<Rightarrow> raise (PyError ''MultipleResultsFound''
                       ''Multiple rows were found when one or none was required'')) (\<lambda>resolved.
     andthen (from_sum (validate_contract resolved (gr_principal r) (ar_environment (gr_action r)))) (\<lambda>_.
     andthen (from_sum (validate_endpoint x (rc_connector resolved))) (\<lambda>_.
     ret resolved))))"

section \<open>Credentials\<close>

text \<open>\<open>text.partition(sep)\<close> for a separator of several characters.\<close>

fun partition_sub :: "string \<Rightarrow> string \<Rightarrow> string \<times> bool \<times> string" where
  "partition_sub sep [] = ([], sep = [], [])"
| "partition_sub sep (c # cs) =
     (if starts_with sep (c # cs) then ([], True, drop (length sep) (c # cs))
      else let (a, found, b) = partition_sub sep cs in (c # a, found, b))"

definition resolve_env :: "ext \<Rightarrow> string \<Rightarrow> err + string option" where
  "resolve_env x reference =
     (case ext_environ x reference of
        None \<Rightarrow> Inl (ValidationError ''credential_unavailable''
                  ''The connector credential is not available'' [])
      | Some v \<Rightarrow> Inr (Some v))"

definition unsupported_provider :: "string \<Rightarrow> err" where
  "unsupported_provider scheme =
     ValidationError ''credential_provider_unsupported''
       ''The configured credential provider is not installed'' [(''provider'', JStr scheme)]"

text \<open>\<open>resolve\<close> without a session, as the broker calls itself on a stored reference.\<close>

definition resolve_detached :: "ext \<Rightarrow> string \<Rightarrow> err + string option" where
  "resolve_detached x ref =
     (let (scheme, found, reference) = partition_sub ''://'' ref
      in if \<not> found \<or> reference = []
         then Inl (ValidationError ''invalid_credential_reference'' ''Credential reference is invalid'' [])
         else if scheme = ''env'' then resolve_env x reference
         else if scheme = ''secret''
         then Inl (ValidationError ''credential_context_missing''
                ''A secret reference requires organization-scoped resolution'' [])
         else Inl (unsupported_provider scheme))"

definition resolve_credential :: "ext \<Rightarrow> string option \<Rightarrow> uuid \<Rightarrow> db \<Rightarrow> err + string option" where
  "resolve_credential x credential_ref org d =
     (case credential_ref of
        None \<Rightarrow> Inr None
      | Some ref \<Rightarrow>
          (let (scheme, found, reference) = partition_sub ''://'' ref
           in if \<not> found \<or> reference = []
              then Inl (ValidationError ''invalid_credential_reference'' ''Credential reference is invalid'' [])
              else if scheme = ''env'' then resolve_env x reference
              else if scheme = ''secret'' then
                (case find (\<lambda>s. sec_organization_id s = org \<and> sec_name s = reference) (t_secrets d) of
                   None \<Rightarrow> Inl (ValidationError ''credential_unavailable''
                             ''The connector credential is not available'' [])
                 | Some stored \<Rightarrow> resolve_detached x (sec_external_ref stored))
              else Inl (unsupported_provider scheme)))"

section \<open>The provider call\<close>

definition py_int :: "string \<Rightarrow> int option" where
  "py_int s0 =
     (let s = strip s0; body = (if s \<noteq> [] \<and> hd s \<in> {CHR ''+'', CHR ''-''} then tl s else s)
      in if body = [] \<or> \<not> list_all is_digit body then None
         else Some (if hd s = CHR ''-'' then - dec_parse 0 body else dec_parse 0 body))"

definition connector_timeout :: "connector_row \<Rightarrow> err + int" where
  "connector_timeout c =
     (case cond_get (con_configuration c) ''timeout_seconds'' (JInt 120) of
        JInt i \<Rightarrow> Inr i
      | JBool b \<Rightarrow> Inr (if b then 1 else 0)
      | JStr s \<Rightarrow> (case py_int s of Some i \<Rightarrow> Inr i
                  | None \<Rightarrow> Inl (ValueError ''invalid literal for int() with base 10''))
      | _ \<Rightarrow> Inl (PyError ''TypeError'' ''int() argument must be a string or a number''))"

definition too_large :: err where
  "too_large = ValidationError ''action_response_too_large'' ''Action provider response is too large'' []"

text \<open>What the response handling makes of a provider's outcome.\<close>

definition provider_output :: "int \<Rightarrow> http_outcome \<Rightarrow> err + jobj" where
  "provider_output max_bytes outcome =
     (case outcome of
        Http_Timeout \<Rightarrow> Inl (PyError ''TimeoutError'' [])
      | Http_Failed \<Rightarrow> Inl (PyError ''HTTPError'' [])
      | Http_Ok content_length sz body \<Rightarrow>
          if content_length = Bad_Length then Inl (ValueError ''invalid literal for int() with base 10'')
          else if (case content_length of Length n \<Rightarrow> n > max_bytes | _ \<Rightarrow> False) then Inl too_large
          else if sz > max_bytes then Inl too_large
          else (case body of
                  None \<Rightarrow> Inl (ValueError ''Expecting value'')
                | Some (JObj output) \<Rightarrow> Inr output
                | Some _ \<Rightarrow> Inl (ValidationError ''action_output_invalid''
                             ''Action provider response must be a JSON object'' [])))"

definition post_headers :: "gateway_request \<Rightarrow> string option \<Rightarrow> (string \<times> string) list" where
  "post_headers r credential =
     [(''Accept'', ''application/json''), (''Content-Type'', ''application/json''),
      (''Idempotency-Key'', at_idempotency_key (gr_attempt r)),
      (''X-Obsion-Action-ID'', uuid_str (ar_id (gr_action r))),
      (''X-Obsion-Action-Purpose'', action_approval_purpose_value (gr_purpose r))]
     @ (case credential of
          None \<Rightarrow> []
        | Some c \<Rightarrow> if c = [] then [] else [(''Authorization'', ''Bearer '' @ c)])"

text \<open>
  \<open>asyncio.wait_for\<close> with a timeout that is not positive cancels the request before it starts, and
  the HTTP client refuses headers and bodies it cannot encode (\<open>e_sendable\<close>): in both cases nothing
  is sent. \<open>w_posts\<close> are the requests the client was given to send.
\<close>

definition effective_timeout :: "resolved_capability \<Rightarrow> int \<Rightarrow> int" where
  "effective_timeout resolved limit = min (cv_timeout_seconds (rc_version resolved)) limit"

definition post_to_provider :: "env \<Rightarrow> resolved_capability \<Rightarrow> gateway_request \<Rightarrow> (world, jobj) op" where
  "post_to_provider e resolved r =
     andthen (from_some (ValidationError ''connector_endpoint_missing''
        ''Action connector has no endpoint'' []) (con_endpoint (rc_connector resolved))) (\<lambda>endpoint.
     andthen (reads (\<lambda>w. resolve_credential (e_ext e) (con_credential_ref (rc_connector resolved))
        (p_organization_id (gr_principal r)) (w_db w))) (\<lambda>cred.
     andthen (from_sum cred) (\<lambda>credential.
     andthen (from_sum (connector_timeout (rc_connector resolved))) (\<lambda>limit.
     andthen (require (0 < effective_timeout resolved limit) (PyError ''TimeoutError'' [])) (\<lambda>_.
     andthen (require (e_sendable e (post_headers r credential) (gr_payload r)) (PyError ''ProtocolError'' [])) (\<lambda>_.
     andthen (modify (\<lambda>w. w\<lparr>w_posts := w_posts w @
        [\<lparr>po_endpoint = endpoint, po_headers = post_headers r credential, po_payload = gr_payload r,
          po_timeout = effective_timeout resolved limit\<rparr>]\<rparr>)) (\<lambda>_.
     from_sum (provider_output (e_max_response_bytes e) (e_provider e endpoint (gr_payload r))))))))))"

section \<open>Invocation\<close>

datatype gateway_status = Gateway_COMPLETED | Gateway_DENIED | Gateway_FAILED

record gateway_result =
  gs_status :: gateway_status
  gs_policy_decision_id :: uuid
  gs_output :: "jobj option"
  gs_error_code :: "string option"
  gs_error_message :: "string option"

text \<open>The constructor validates the error code (\<open>__post_init__\<close>).\<close>

definition gateway_result_of ::
  "ext \<Rightarrow> gateway_status \<Rightarrow> uuid \<Rightarrow> jobj option \<Rightarrow> string option \<Rightarrow> string option \<Rightarrow> ('s, gateway_result) op" where
  "gateway_result_of x status decision output code msg =
     andthen (from_sum (validate_error_code x code)) (\<lambda>_.
     ret \<lparr>gs_status = status, gs_policy_decision_id = decision, gs_output = output,
          gs_error_code = code, gs_error_message = msg\<rparr>)"

definition put_attempt :: "action_attempt_row \<Rightarrow> (db, unit) op" where
  "put_attempt a = modify (\<lambda>d. d\<lparr>t_attempts := replace_row at_id a (t_attempts d)\<rparr>)"

definition gateway_event ::
  "env \<Rightarrow> time \<Rightarrow> gateway_request \<Rightarrow> string \<Rightarrow> actor_type \<Rightarrow> uuid option \<Rightarrow> jobj \<Rightarrow> (world, unit) op" where
  "gateway_event e now r name actor_ty actor payload =
     in_db (andthen (append_event (e_ext e) now
       (EventDraft name ''action_request'' (ar_id (gr_action r)) (p_organization_id (gr_principal r))
          (ar_id (gr_action r)) actor_ty actor payload)) (\<lambda>_. ret ()))"

definition gateway_audit ::
  "time \<Rightarrow> gateway_request \<Rightarrow> resolved_capability \<Rightarrow> uuid \<Rightarrow> string \<Rightarrow> string list \<Rightarrow> int option \<Rightarrow> (world, unit) op"
where
  "gateway_audit now r resolved decision outcome reasons latency =
     in_db (andthen (write_audit now
       ((AuditDraft (p_organization_id (gr_principal r)) (ar_id (gr_action r)) Actor_SERVICE
           (Some (p_id (gr_principal r))) (cv_permission_action (rc_version resolved))
           ''action_request'' (uuid_str (ar_id (gr_action r))) outcome
           [(''attempt_id'', JStr (uuid_str (at_id (gr_attempt r)))),
            (''purpose'', JStr (action_approval_purpose_value (gr_purpose r))),
            (''reasons'', JList (map JStr reasons))])
        \<lparr>ad_risk_level := Some (cv_risk_level (rc_version resolved)),
         ad_policy_decision_id := Some decision, ad_latency_ms := latency\<rparr>)) (\<lambda>_. ret ()))"

definition approval_valid :: "gateway_request \<Rightarrow> time \<Rightarrow> bool" where
  "approval_valid r now \<longleftrightarrow>
     aa_organization_id (gr_approval r) = p_organization_id (gr_principal r)
     \<and> aa_action_request_id (gr_approval r) = ar_id (gr_action r)
     \<and> aa_purpose (gr_approval r) = gr_purpose r
     \<and> aa_status (gr_approval r) = Approval_APPROVED
     \<and> aa_plan_checksum_sha256 (gr_approval r) = gr_plan_checksum_sha256 r
     \<and> aa_expires_at (gr_approval r) > now"

definition rate_key :: "gateway_request \<Rightarrow> resolved_capability \<Rightarrow> string" where
  "rate_key r resolved =
     join '':'' [uuid_str (p_organization_id (gr_principal r)), uuid_str (p_id (gr_principal r)),
                uuid_str (cv_id (rc_version resolved)), uuid_str (con_id (rc_connector resolved))]"

definition configured_limit :: "connector_row \<Rightarrow> int option" where
  "configured_limit c =
     (case map_of (con_configuration c) ''rate_limit_per_minute'' of Some (JInt i) \<Rightarrow> Some i | _ \<Rightarrow> None)"

text \<open>The \<open>try\<close> block around the provider call and its \<open>except Exception\<close> handler.\<close>

definition call_provider ::
  "env \<Rightarrow> clock \<Rightarrow> resolved_capability \<Rightarrow> gateway_request \<Rightarrow> uuid \<Rightarrow> (world, gateway_result) op" where
  "call_provider e clk resolved r decision =
     (let attempt_id = JStr (uuid_str (at_id (gr_attempt r)));
          purpose = JStr (action_approval_purpose_value (gr_purpose r));
          service = Some (p_id (gr_principal r))
      in attempt
        (andthen (post_to_provider e resolved r) (\<lambda>output.
         andthen (from_sum (validate_schema (e_ext e) (cv_output_schema (rc_version resolved)) output
                    ''action_output_invalid'')) (\<lambda>_.
         (let safe_output = (case redact (JObj output) of JObj out \<Rightarrow> out | _ \<Rightarrow> [])
          in andthen (gateway_event e (clk 0) r ''action.provider_completed'' Actor_SERVICE service
               [(''attempt_id'', attempt_id), (''purpose'', purpose),
                (''latency_ms'', JInt (e_latency_ms e))]) (\<lambda>_.
             andthen (gateway_audit (clk 1) r resolved decision ''SUCCESS'' []
                        (Some (e_latency_ms e))) (\<lambda>_.
             gateway_result_of (e_ext e) Gateway_COMPLETED decision (Some safe_output) None None))))))
        (\<lambda>err.
         (let (code, msg) =
            (case err of
               ObsionErr ValidationC c m _ \<Rightarrow> (c, m)
             | PyError name _ \<Rightarrow>
                 if name = ''TimeoutError'' then (''action_provider_timeout'', ''The action provider timed out'')
                 else (''action_provider_failed'', ''The action provider could not complete the request'')
             | _ \<Rightarrow> (''action_provider_failed'', ''The action provider could not complete the request''))
          in andthen (gateway_event e (clk 2) r ''action.provider_failed'' Actor_SERVICE service
               [(''attempt_id'', attempt_id), (''purpose'', purpose), (''error_code'', JStr code)]) (\<lambda>_.
             andthen (gateway_audit (clk 3) r resolved decision ''FAILED'' [code]
                        (Some (e_latency_ms e))) (\<lambda>_.
             gateway_result_of (e_ext e) Gateway_FAILED decision None (Some code) (Some msg))))))"

definition after_allow ::
  "env \<Rightarrow> clock \<Rightarrow> resolved_capability \<Rightarrow> gateway_request \<Rightarrow> uuid \<Rightarrow> (world, gateway_result) op" where
  "after_allow e clk resolved r decision =
     (case validate_schema (e_ext e) (cv_input_schema (rc_version resolved)) (gr_payload r)
             ''action_input_invalid'' of
        Inl err \<Rightarrow>
          andthen (gateway_audit (clk 0) r resolved decision ''FAILED'' [err_code err] None) (\<lambda>_.
          gateway_result_of (e_ext e) Gateway_FAILED decision None (Some (err_code err))
            (Some (err_message err)))
      | Inr _ \<Rightarrow>
          (let allowed = (case e_limit e (rate_key r resolved) (configured_limit (rc_connector resolved)) of
                            Inl _ \<Rightarrow> False | Inr b \<Rightarrow> b)
           in if \<not> allowed then
                andthen (gateway_audit (clk 0) r resolved decision ''DENIED'' [''action_rate_limited''] None) (\<lambda>_.
                gateway_result_of (e_ext e) Gateway_DENIED decision None (Some ''action_rate_limited'')
                  (Some ''The action provider rate limit has been reached''))
              else
                andthen (gateway_event e (clk 0) r ''action.provider_started'' Actor_SERVICE
                  (Some (p_id (gr_principal r)))
                  [(''attempt_id'', JStr (uuid_str (at_id (gr_attempt r)))),
                   (''capability'', JStr (cd_name (rc_definition resolved))),
                   (''connector'', JStr (con_name (rc_connector resolved))),
                   (''purpose'', JStr (action_approval_purpose_value (gr_purpose r)))]) (\<lambda>_.
                call_provider e (later 1 clk) resolved r decision)))"

definition action_policy_request :: "gateway_request \<Rightarrow> resolved_capability \<Rightarrow> time \<Rightarrow> action_policy_input"
where
  "action_policy_request r resolved now =
     \<lparr>api_principal = gr_principal r, api_capability = rc_version resolved,
      api_action = cv_permission_action (rc_version resolved),
      api_resource = ar_target (gr_action r),
      api_context = [(''environment'', JStr (ar_environment (gr_action r))),
                     (''action_type'', JStr (action_type_value (ar_action_type (gr_action r)))),
                     (''purpose'', JStr (action_approval_purpose_value (gr_purpose r))),
                     (''plan_checksum_sha256'', JStr (gr_plan_checksum_sha256 r))],
      api_action_request_id = ar_id (gr_action r), api_approval_valid = approval_valid r now\<rparr>"

definition gateway_invoke :: "env \<Rightarrow> clock \<Rightarrow> gateway_request \<Rightarrow> (world, gateway_result) op" where
  "gateway_invoke e clk r =
     andthen (in_db (resolve_pinned (e_ext e) r)) (\<lambda>resolved.
     andthen (in_db (evaluate_action (e_ext e) (clk 1) (action_policy_request r resolved (clk 0)))) (\<lambda>decision.
     andthen (in_db (put_attempt ((gr_attempt r)\<lparr>at_policy_decision_id := Some (dn_id decision)\<rparr>))) (\<lambda>_.
     andthen (gateway_event e (clk 2) r ''action.policy_decided'' Actor_SYSTEM None
        [(''decision_id'', JStr (uuid_str (dn_id decision))),
         (''effect'', JStr (decision_effect_value (dn_effect decision))),
         (''reasons'', JList (map JStr (dn_reason_codes decision))),
         (''purpose'', JStr (action_approval_purpose_value (gr_purpose r)))]) (\<lambda>_.
     if dn_effect decision = Effect_DENY then
       andthen (gateway_audit (clk 3) r resolved (dn_id decision) ''DENIED'' (dn_reason_codes decision) None) (\<lambda>_.
       gateway_result_of (e_ext e) Gateway_DENIED (dn_id decision) None (Some ''action_policy_denied'')
         (Some ''The action was denied by policy''))
     else after_allow e (later 3 clk) resolved r (dn_id decision)))))"

section \<open>Laws of the world\<close>

lemma in_db_iff: "in_db m w = (r, w') \<longleftrightarrow> (\<exists>d. m (w_db w) = (r, d) \<and> w' = w\<lparr>w_db := d\<rparr>)"
  by (auto simp: in_db_def split: prod.splits)

lemma keeps_in_db: "keeps f m \<Longrightarrow> keeps (\<lambda>w. f (w_db w)) (in_db m)"
  unfolding keeps_def in_db_def by (simp add: case_prod_beta)

lemma in_db_posts [simp]: "keeps w_posts (in_db m)"
  by (simp add: keeps_def in_db_def case_prod_beta)

lemma keeps_db_transaction:
  "keeps (\<lambda>w. f (w_db w)) m \<Longrightarrow> keeps (\<lambda>w. f (w_db w)) (db_transaction m)"
  unfolding keeps_def db_transaction_def by (simp add: case_prod_beta split: sum.split)

lemma db_transaction_Inl: "db_transaction m w = (Inl e, w') \<Longrightarrow> w_db w' = w_db w"
  by (auto simp: db_transaction_def split: prod.splits sum.splits)

lemma db_transaction_Inr: "db_transaction m w = (Inr v, w') \<longleftrightarrow> m w = (Inr v, w')"
  by (auto simp: db_transaction_def split: prod.splits sum.splits)

text \<open>\<open>core\<close>: the store without what the gateway may write (the logs, decisions and attempts).\<close>

definition core :: "db \<Rightarrow> db" where
  "core d = (business d)\<lparr>t_policy_decisions := [], t_attempts := []\<rparr>"

lemma core_tables:
  assumes "core d' = core d"
  shows "t_actions d' = t_actions d" "t_plans d' = t_plans d"
    "t_action_approvals d' = t_action_approvals d" "t_notifications d' = t_notifications d"
    "t_users d' = t_users d" "t_workspaces d' = t_workspaces d" "t_members d' = t_members d"
    "t_policies d' = t_policies d" "t_secrets d' = t_secrets d"
    "t_capability_definitions d' = t_capability_definitions d"
    "t_capability_versions d' = t_capability_versions d" "t_connectors d' = t_connectors d"
    "t_bindings d' = t_bindings d"
  using assms by (cases d; cases d'; simp add: core_def business_def)+

lemma business_core: "business d' = business d \<Longrightarrow> core d' = core d"
  by (simp add: core_def)

lemma append_event_keeps_core: "keeps core (append_event x now dr)"
  by (rule keepsI) (blast dest: append_event_business business_core)

lemma write_audit_keeps_core: "keeps core (write_audit now dr)"
  by (rule keepsI) (blast dest: write_audit_business business_core)

lemma evaluate_action_keeps_core: "keeps core (evaluate_action x now r)"
proof (rule keepsI)
  fix d v d' assume "evaluate_action x now r d = (v, d')"
  then show "core d' = core d"
    using evaluate_action_records [of x now r d] by (auto simp: core_def business_def)
qed

lemma put_attempt_keeps_core: "keeps core (put_attempt a)"
  by (simp add: put_attempt_def core_def business_def)

lemma resolve_pinned_state [frame_simps]: "snd (resolve_pinned x r d) = d"
proof -
  have "keeps (\<lambda>d. d) (resolve_pinned x r)"
    unfolding resolve_pinned_def by (intro keeps_intros) (auto split: list.split intro!: keeps_intros)
  then show ?thesis by (simp add: keeps_def)
qed

lemma resolve_pinned_keeps: "keeps f (resolve_pinned x r)"
  by (simp add: keeps_def resolve_pinned_state)

lemma gateway_preflight_state [frame_simps]: "snd (gateway_preflight x p n env res d) = d"
proof -
  have "keeps (\<lambda>d. d) (gateway_preflight x p n env res)"
    unfolding gateway_preflight_def by (intro keeps_intros) auto
  then show ?thesis by (simp add: keeps_def)
qed

lemma gateway_event_keeps: "keeps (\<lambda>w. core (w_db w)) (gateway_event e now r n a i p)"
  unfolding gateway_event_def
  by (intro keeps_in_db keeps_andthen append_event_keeps_core) simp

lemma gateway_audit_keeps: "keeps (\<lambda>w. core (w_db w)) (gateway_audit now r rc i oc rs l)"
  unfolding gateway_audit_def
  by (intro keeps_in_db keeps_andthen write_audit_keeps_core) simp

lemma gateway_log_posts [simp]:
  "keeps w_posts (gateway_event e now r n a i p)" "keeps w_posts (gateway_audit now r rc i' oc rs l)"
  by (simp_all add: gateway_event_def gateway_audit_def)

lemma gateway_result_keeps [simp]: "keeps f (gateway_result_of x st i oc c m)"
  unfolding gateway_result_of_def by (intro keeps_andthen) auto

lemma post_keeps_db: "keeps w_db (post_to_provider e rc r)"
  unfolding post_to_provider_def by (intro keeps_andthen) auto

lemma call_provider_keeps: "keeps (\<lambda>w. core (w_db w)) (call_provider e clk rc r i)"
proof -
  have "keeps (\<lambda>w. core (w_db w)) (post_to_provider e rc r)"
    using post_keeps_db by (auto simp: keeps_def)
  then show ?thesis
    unfolding call_provider_def Let_def
    by (intro keeps_intros gateway_event_keeps gateway_audit_keeps) auto
qed

lemma after_allow_keeps: "keeps (\<lambda>w. core (w_db w)) (after_allow e clk rc r i)"
  unfolding after_allow_def Let_def
  by (intro keeps_intros gateway_event_keeps gateway_audit_keeps call_provider_keeps) auto

lemma gateway_invoke_keeps: "keeps (\<lambda>w. core (w_db w)) (gateway_invoke e clk r)"
  unfolding gateway_invoke_def
  by (intro keeps_intros keeps_in_db resolve_pinned_keeps evaluate_action_keeps_core
      put_attempt_keeps_core gateway_event_keeps gateway_audit_keeps after_allow_keeps) auto

section \<open>What may leave the process\<close>

lemma resolve_pinned_Inr:
  assumes "resolve_pinned x r d = (Inr rc, d')"
  shows "d' = d \<and> rc \<in> set (capability_rows d) \<and> pinned_row r rc
     \<and> validate_contract rc (gr_principal r) (ar_environment (gr_action r)) = Inr ()
     \<and> validate_endpoint x (rc_connector rc) = Inr ()"
proof -
  have f: "filter (pinned_row r) (capability_rows d) = [rc]" and rest: "d' = d"
      "validate_contract rc (gr_principal r) (ar_environment (gr_action r)) = Inr ()"
      "validate_endpoint x (rc_connector rc) = Inr ()"
    using assms by (auto simp: resolve_pinned_def andthen_Inr split: list.splits)
  have "rc \<in> set (filter (pinned_row r) (capability_rows d))" unfolding f by simp
  then show ?thesis using rest by simp
qed

text \<open>The request a call to the provider sends, if it sends one.\<close>

definition is_post_of :: "ext \<Rightarrow> db \<Rightarrow> resolved_capability \<Rightarrow> gateway_request \<Rightarrow> post \<Rightarrow> bool" where
  "is_post_of x d rc r po \<longleftrightarrow>
     con_endpoint (rc_connector rc) = Some (po_endpoint po) \<and> po_payload po = gr_payload r
     \<and> po_timeout po \<le> cv_timeout_seconds (rc_version rc)
     \<and> (\<exists>c. resolve_credential x (con_credential_ref (rc_connector rc))
              (p_organization_id (gr_principal r)) d = Inr c \<and> po_headers po = post_headers r c)"

lemma post_to_provider_posts:
  assumes "post_to_provider e rc r w = (v, w')"
  shows "w_posts w' = w_posts w \<or>
     (\<exists>po. w_posts w' = w_posts w @ [po] \<and> is_post_of (e_ext e) (w_db w) rc r po)"
proof (cases v)
  case (Inl err)
  then show ?thesis
    using assms by (auto simp: post_to_provider_def andthen_Inl is_post_of_def effective_timeout_def)
next
  case (Inr out)
  then show ?thesis
    using assms by (auto simp: post_to_provider_def andthen_Inr is_post_of_def effective_timeout_def)
qed

lemma andthen_step: "m s = (Inr x, t) \<Longrightarrow> andthen m k s = k x t"
  by (simp add: andthen_def)

lemma attempt_keeps_posts:
  assumes "attempt m h w = (v, w')" and "\<And>x. keeps w_posts (h x)"
  shows "\<exists>v1 w1. m w = (v1, w1) \<and> w_posts w' = w_posts w1"
proof -
  obtain v1 w1 where m: "m w = (v1, w1)" by (cases "m w")
  show ?thesis
    using assms m by (cases v1) (auto simp: attempt_def dest: keepsD)
qed

lemma andthen_keeps_posts:
  assumes "andthen m k w = (v, w')" and "\<And>x. keeps w_posts (k x)"
  shows "\<exists>v1 w1. m w = (v1, w1) \<and> w_posts w' = w_posts w1"
proof -
  obtain v1 w1 where m: "m w = (v1, w1)" by (cases "m w")
  show ?thesis
    using assms m by (cases v1) (auto simp: andthen_def dest: keepsD)
qed

lemma call_provider_form:
  "\<exists>k h. call_provider e clk rc r i = attempt (andthen (post_to_provider e rc r) k) h
     \<and> (\<forall>x. keeps w_posts (k x)) \<and> (\<forall>x. keeps w_posts (h x))"
  unfolding call_provider_def Let_def
  by (rule exI, rule exI, rule conjI, rule refl, intro conjI allI; intro keeps_intros) auto

lemma call_provider_posts:
  assumes "call_provider e clk rc r i w = (v, w')"
  shows "w_posts w' = w_posts w \<or>
     (\<exists>po. w_posts w' = w_posts w @ [po] \<and> is_post_of (e_ext e) (w_db w) rc r po)"
proof -
  obtain k h where c: "call_provider e clk rc r i = attempt (andthen (post_to_provider e rc r) k) h"
    and k: "\<And>x. keeps w_posts (k x)" and h: "\<And>x. keeps w_posts (h x)"
    using call_provider_form by blast
  obtain v1 w1 where m: "andthen (post_to_provider e rc r) k w = (v1, w1)" and p: "w_posts w' = w_posts w1"
    using attempt_keeps_posts [OF assms [unfolded c]] h by blast
  obtain v2 w2 where "post_to_provider e rc r w = (v2, w2)" and "w_posts w1 = w_posts w2"
    using andthen_keeps_posts [OF m] k by blast
  then show ?thesis using post_to_provider_posts p by metis
qed

lemma resolve_credential_cong:
  "t_secrets d = t_secrets d' \<Longrightarrow> resolve_credential x ref org d = resolve_credential x ref org d'"
  unfolding resolve_credential_def by (erule ssubst, rule refl)

lemma is_post_of_core: "core d' = core d \<Longrightarrow> is_post_of x d' rc r po \<Longrightarrow> is_post_of x d rc r po"
  using core_tables(9) resolve_credential_cong unfolding is_post_of_def by metis

lemma after_allow_posts:
  assumes "after_allow e clk rc r i w = (v, w')"
  shows "w_posts w' = w_posts w \<or>
     (\<exists>po. w_posts w' = w_posts w @ [po] \<and> is_post_of (e_ext e) (w_db w) rc r po
        \<and> validate_schema (e_ext e) (cv_input_schema (rc_version rc)) (gr_payload r) ''action_input_invalid'' = Inr ()
        \<and> e_limit e (rate_key r rc) (configured_limit (rc_connector rc)) = Inr True)"
proof (cases "validate_schema (e_ext e) (cv_input_schema (rc_version rc)) (gr_payload r) ''action_input_invalid'' = Inr ()
        \<and> e_limit e (rate_key r rc) (configured_limit (rc_connector rc)) = Inr True")
  case False
  have "keeps w_posts (after_allow e clk rc r i)"
  proof (cases "validate_schema (e_ext e) (cv_input_schema (rc_version rc)) (gr_payload r) ''action_input_invalid''")
    case (Inl err)
    then show ?thesis by (simp add: after_allow_def keeps_andthen)
  next
    case (Inr u)
    then have "e_limit e (rate_key r rc) (configured_limit (rc_connector rc)) \<noteq> Inr True"
      using False by simp
    then have "\<not> (case e_limit e (rate_key r rc) (configured_limit (rc_connector rc)) of
                            Inl _ \<Rightarrow> False | Inr b \<Rightarrow> b)"
      by (auto split: sum.split)
    then show ?thesis using Inr by (simp add: after_allow_def keeps_andthen)
  qed
  then show ?thesis using keepsD assms by fastforce
next
  case True
  define ev where "ev = gateway_event e (clk 0) r ''action.provider_started'' Actor_SERVICE
                  (Some (p_id (gr_principal r)))
                  [(''attempt_id'', JStr (uuid_str (at_id (gr_attempt r)))),
                   (''capability'', JStr (cd_name (rc_definition rc))),
                   (''connector'', JStr (con_name (rc_connector rc))),
                   (''purpose'', JStr (action_approval_purpose_value (gr_purpose r)))]"
  have a: "after_allow e clk rc r i = andthen ev (\<lambda>_. call_provider e (later 1 clk) rc r i)"
    using True by (simp add: after_allow_def ev_def)
  have p: "keeps w_posts ev" and c: "keeps (\<lambda>w. core (w_db w)) ev"
    by (simp_all add: ev_def gateway_event_keeps)
  obtain v1 w1 where m: "ev w = (v1, w1)" by (cases "ev w")
  have w1: "w_posts w1 = w_posts w" "core (w_db w1) = core (w_db w)" using keepsD m p c by fastforce+
  show ?thesis
  proof (cases v1)
    case (Inl err)
    then show ?thesis using assms m w1 unfolding a by (simp add: andthen_def)
  next
    case (Inr u)
    then have "call_provider e (later 1 clk) rc r i w1 = (v, w')"
      using assms m unfolding a by (simp add: andthen_def)
    from call_provider_posts [OF this] show ?thesis using True w1 is_post_of_core by metis
  qed
qed

text \<open>Everything that holds when a request is posted for \<open>r\<close> at time \<open>now\<close>.\<close>

definition post_authorised ::
  "env \<Rightarrow> time \<Rightarrow> gateway_request \<Rightarrow> db \<Rightarrow> resolved_capability \<Rightarrow> post \<Rightarrow> bool" where
  "post_authorised e now r d rc po \<longleftrightarrow>
     rc \<in> set (capability_rows d) \<and> pinned_row r rc
     \<and> validate_contract rc (gr_principal r) (ar_environment (gr_action r)) = Inr ()
     \<and> validate_endpoint (e_ext e) (rc_connector rc) = Inr ()
     \<and> fst (resolve_action (action_policy_request r rc now) d) \<noteq> Effect_DENY
     \<and> validate_schema (e_ext e) (cv_input_schema (rc_version rc)) (gr_payload r) ''action_input_invalid'' = Inr ()
     \<and> e_limit e (rate_key r rc) (configured_limit (rc_connector rc)) = Inr True
     \<and> is_post_of (e_ext e) d rc r po"

lemma gateway_invoke_posts:
  assumes "gateway_invoke e clk r w = (v, w')"
  shows "w_posts w' = w_posts w \<or>
     (\<exists>po rc. w_posts w' = w_posts w @ [po] \<and> post_authorised e (clk 0) r (w_db w) rc po)"
proof -
  let ?d = "w_db w"
  obtain v1 d1 where res: "resolve_pinned (e_ext e) r ?d = (v1, d1)"
    by (cases "resolve_pinned (e_ext e) r ?d")
  have d1: "d1 = ?d" using resolve_pinned_state res by (metis snd_conv)
  show ?thesis
  proof (cases v1)
    case (Inl err)
    then show ?thesis
      using assms res d1 by (auto simp: gateway_invoke_def andthen_def in_db_def)
  next
    case (Inr rc)
    let ?q = "action_policy_request r rc (clk 0)"
    obtain dn row where dn: "evaluate_action (e_ext e) (clk 1) ?q ?d = (Inr dn,
        ?d\<lparr>next_id := next_id ?d + 1, t_policy_decisions := t_policy_decisions ?d @ [row]\<rparr>)"
      and eff: "dn_effect dn = fst (resolve_action ?q ?d)"
      using evaluate_action_records by blast
    define k where "k = andthen (in_db (put_attempt ((gr_attempt r)\<lparr>at_policy_decision_id := Some (dn_id dn)\<rparr>))) (\<lambda>_.
     gateway_event e (clk 2) r ''action.policy_decided'' Actor_SYSTEM None
        [(''decision_id'', JStr (uuid_str (dn_id dn))),
         (''effect'', JStr (decision_effect_value (dn_effect dn))),
         (''reasons'', JList (map JStr (dn_reason_codes dn))),
         (''purpose'', JStr (action_approval_purpose_value (gr_purpose r)))])"
    define d2 where "d2 = ?d\<lparr>next_id := next_id ?d + 1, t_policy_decisions := t_policy_decisions ?d @ [row]\<rparr>"
    define f where "f = (\<lambda>_::unit. if dn_effect dn = Effect_DENY then
       andthen (gateway_audit (clk 3) r rc (dn_id dn) ''DENIED'' (dn_reason_codes dn) None) (\<lambda>_.
       gateway_result_of (e_ext e) Gateway_DENIED (dn_id dn) None (Some ''action_policy_denied'')
         (Some ''The action was denied by policy''))
     else after_allow e (later 3 clk) rc r (dn_id dn))"
    have r1: "in_db (resolve_pinned (e_ext e) r) w = (Inr rc, w)"
      using res Inr d1 by (simp add: in_db_def)
    have r2: "in_db (evaluate_action (e_ext e) (clk 1) ?q) w = (Inr dn, w\<lparr>w_db := d2\<rparr>)"
      using dn by (simp add: in_db_def d2_def)
    have "gateway_invoke e clk r w = andthen k f (w\<lparr>w_db := d2\<rparr>)"
      unfolding gateway_invoke_def k_def f_def andthen_assoc
      by (subst andthen_step [of "in_db (resolve_pinned (e_ext e) r)", OF r1],
          subst andthen_step [of "in_db (evaluate_action (e_ext e) (clk 1) ?q)", OF r2], rule refl)
    then have step: "andthen k f (w\<lparr>w_db := d2\<rparr>) = (v, w')" using assms by simp
    have kk: "keeps w_posts k" "keeps (\<lambda>w. core (w_db w)) k"
      unfolding k_def by (intro keeps_andthen keeps_in_db put_attempt_keeps_core gateway_event_keeps; simp)+
    obtain v3 w3 where k3: "k (w\<lparr>w_db := d2\<rparr>) = (v3, w3)" by (cases "k (w\<lparr>w_db := d2\<rparr>)")
    have w3: "w_posts w3 = w_posts w" "core (w_db w3) = core ?d"
      using keepsD [OF kk(1) k3] keepsD [OF kk(2) k3] by (simp_all add: d2_def core_def business_def)
    show ?thesis
    proof (cases v3)
      case (Inl err)
      then show ?thesis using step k3 w3 by (simp add: andthen_def)
    next
      case v3: (Inr u)
      then have f3: "f () w3 = (v, w')" using step k3 by (simp add: andthen_def)
      show ?thesis
      proof (cases "dn_effect dn = Effect_DENY")
        case True
        have kf: "keeps w_posts (f ())" unfolding f_def by (simp add: True keeps_andthen)
        show ?thesis using keepsD [OF kf f3] w3(1) by simp
      next
        case False
        then have "after_allow e (later 3 clk) rc r (dn_id dn) w3 = (v, w')" using f3 by (simp add: f_def)
        note posts = after_allow_posts [OF this]
        have rp: "resolve_pinned (e_ext e) r ?d = (Inr rc, d1)" using res Inr by simp
        note pinned = resolve_pinned_Inr [OF rp]
        have eff': "fst (resolve_action ?q ?d) \<noteq> Effect_DENY" using False eff by simp
        have ok: "post_authorised e (clk 0) r ?d rc po"
          if "is_post_of (e_ext e) (w_db w3) rc r po"
            "validate_schema (e_ext e) (cv_input_schema (rc_version rc)) (gr_payload r) ''action_input_invalid'' = Inr ()"
            "e_limit e (rate_key r rc) (configured_limit (rc_connector rc)) = Inr True" for po
          using that pinned eff' is_post_of_core [OF w3(2)] by (simp add: post_authorised_def)
        show ?thesis using posts ok w3(1) by auto
      qed
    qed
  qed
qed

section \<open>Authorised requests are sent\<close>

text \<open>
  \<open>accepts x names\<close>: the registered contracts accept version 1 of the named events;
  \<open>head_owned\<close>: the log of an action belongs to the organization that appends to it.
\<close>

definition head_owned :: "uuid \<Rightarrow> uuid \<Rightarrow> db \<Rightarrow> bool" where
  "head_owned agg org d \<longleftrightarrow>
     (\<forall>h. find (is_head ''action_request'' agg) (t_heads d) = Some h \<longrightarrow> ah_organization_id h = org)"

lemma append_accepted:
  assumes "accepts x names" and "name \<in> set names" and "map_of payload ''error_code'' = None"
    and "head_owned agg org d"
  shows "\<exists>ev d'. append_event x now (EventDraft name ''action_request'' agg org corr a i payload) d = (Inr ev, d')"
  by (rule append_event_accepted [OF assms(1)]) (use assms in \<open>auto simp: EventDraft_def head_owned_def\<close>)

lemma gateway_event_accepted:
  assumes "accepts (e_ext e) names" and "name \<in> set names" and "map_of payload ''error_code'' = None"
    and "head_owned (ar_id (gr_action r)) (p_organization_id (gr_principal r)) (w_db w)"
  shows "\<exists>w'. gateway_event e now r name a i payload w = (Inr (), w')"
proof -
  obtain ev d' where "append_event (e_ext e) now (EventDraft name ''action_request'' (ar_id (gr_action r))
      (p_organization_id (gr_principal r)) (ar_id (gr_action r)) a i payload) (w_db w) = (Inr ev, d')"
    using append_accepted [OF assms] by blast
  then show ?thesis by (simp add: gateway_event_def in_db_def andthen_def ret_def)
qed

lemma append_event_head:
  assumes "append_event x now dr d = (v, d')" and "head_owned agg org d"
    and "ed_organization_id dr = org"
  shows "head_owned agg org d'"
  using append_event_heads [OF assms(1)] assms(2,3)
  by (auto simp: head_owned_def find_bump_head split: option.splits if_splits)

lemma gateway_event_head:
  assumes "gateway_event e now r n a i p w = (Inr u, w')"
    and "head_owned agg (p_organization_id (gr_principal r)) (w_db w)"
  shows "head_owned agg (p_organization_id (gr_principal r)) (w_db w')"
proof -
  obtain ev where "append_event (e_ext e) now (EventDraft n ''action_request'' (ar_id (gr_action r))
      (p_organization_id (gr_principal r)) (ar_id (gr_action r)) a i p) (w_db w) = (Inr ev, w_db w')"
    using assms(1) by (auto simp: gateway_event_def in_db_iff andthen_Inr)
  then show ?thesis using assms(2) by (rule append_event_head) (simp add: EventDraft_def)
qed

lemma from_sum_state: "snd (from_sum v s) = s"
  by (cases v) (simp_all add: from_sum_def ret_def raise_def)

lemma from_sum_ok: "from_sum (Inr v) = ret v"
  by (simp add: from_sum_def)

lemma call_provider_sends:
  assumes "con_endpoint (rc_connector rc) = Some endpoint"
    and "resolve_credential (e_ext e) (con_credential_ref (rc_connector rc))
           (p_organization_id (gr_principal r)) (w_db w) = Inr c"
    and "connector_timeout (rc_connector rc) = Inr t" and "0 < effective_timeout rc t"
    and "e_sendable e (post_headers r c) (gr_payload r)"
  shows "w_posts (snd (call_provider e clk rc r i w)) = w_posts w @
    [\<lparr>po_endpoint = endpoint, po_headers = post_headers r c, po_payload = gr_payload r, po_timeout = effective_timeout rc t\<rparr>]"
proof -
  obtain k h where c: "call_provider e clk rc r i = attempt (andthen (post_to_provider e rc r) k) h"
    and k: "\<And>x. keeps w_posts (k x)" and h: "\<And>x. keeps w_posts (h x)"
    using call_provider_form by blast
  have po: "w_posts (snd (post_to_provider e rc r w)) = w_posts w @
    [\<lparr>po_endpoint = endpoint, po_headers = post_headers r c, po_payload = gr_payload r, po_timeout = effective_timeout rc t\<rparr>]"
    using assms by (simp add: post_to_provider_def require_def andthen_def from_some_def reads_def
        modify_def ret_def from_sum_ok from_sum_state)
  obtain v w' where a: "call_provider e clk rc r i w = (v, w')" by (cases "call_provider e clk rc r i w")
  obtain v1 w1 where m: "andthen (post_to_provider e rc r) k w = (v1, w1)" and p: "w_posts w' = w_posts w1"
    using attempt_keeps_posts [OF a [unfolded c]] h by blast
  obtain v2 w2 where "post_to_provider e rc r w = (v2, w2)" and "w_posts w1 = w_posts w2"
    using andthen_keeps_posts [OF m] k by blast
  then show ?thesis using a p po by simp
qed

lemma gateway_invoke_sends_post:
  assumes res: "resolve_pinned (e_ext e) r (w_db w) = (Inr rc, w_db w)"
    and allow: "fst (resolve_action (action_policy_request r rc (clk 0)) (w_db w)) \<noteq> Effect_DENY"
    and schema: "validate_schema (e_ext e) (cv_input_schema (rc_version rc)) (gr_payload r) ''action_input_invalid'' = Inr ()"
    and limit: "e_limit e (rate_key r rc) (configured_limit (rc_connector rc)) = Inr True"
    and cred: "resolve_credential (e_ext e) (con_credential_ref (rc_connector rc))
           (p_organization_id (gr_principal r)) (w_db w) = Inr c"
    and timeout: "connector_timeout (rc_connector rc) = Inr t" "0 < effective_timeout rc t"
    and sendable: "e_sendable e (post_headers r c) (gr_payload r)"
    and acc: "accepts (e_ext e) [''action.policy_decided'', ''action.provider_started'']"
    and head: "head_owned (ar_id (gr_action r)) (p_organization_id (gr_principal r)) (w_db w)"
  shows "\<exists>endpoint. con_endpoint (rc_connector rc) = Some endpoint
    \<and> w_posts (snd (gateway_invoke e clk r w)) = w_posts w @
        [\<lparr>po_endpoint = endpoint, po_headers = post_headers r c, po_payload = gr_payload r, po_timeout = effective_timeout rc t\<rparr>]"
proof -
  let ?d = "w_db w" let ?q = "action_policy_request r rc (clk 0)"
  obtain dn row where dn: "evaluate_action (e_ext e) (clk 1) ?q ?d = (Inr dn,
      ?d\<lparr>next_id := next_id ?d + 1, t_policy_decisions := t_policy_decisions ?d @ [row]\<rparr>)"
    and eff: "dn_effect dn = fst (resolve_action ?q ?d)"
    using evaluate_action_records by blast
  define d2 where "d2 = ?d\<lparr>next_id := next_id ?d + 1, t_policy_decisions := t_policy_decisions ?d @ [row]\<rparr>"
  let ?a = "(gr_attempt r)\<lparr>at_policy_decision_id := Some (dn_id dn)\<rparr>"
  define d3 where "d3 = d2\<lparr>t_attempts := replace_row at_id ?a (t_attempts d2)\<rparr>"
  have r1: "in_db (resolve_pinned (e_ext e) r) w = (Inr rc, w)" using res by (simp add: in_db_def)
  have r2: "in_db (evaluate_action (e_ext e) (clk 1) ?q) w = (Inr dn, w\<lparr>w_db := d2\<rparr>)"
    using dn by (simp add: in_db_def d2_def)
  have r3: "in_db (put_attempt ?a) (w\<lparr>w_db := d2\<rparr>) = (Inr (), w\<lparr>w_db := d3\<rparr>)"
    by (simp add: in_db_def put_attempt_def modify_def d3_def)
  have h3: "head_owned (ar_id (gr_action r)) (p_organization_id (gr_principal r)) d3"
    using head by (simp add: head_owned_def d3_def d2_def)
  let ?ev1 = "gateway_event e (clk 2) r ''action.policy_decided'' Actor_SYSTEM None
        [(''decision_id'', JStr (uuid_str (dn_id dn))),
         (''effect'', JStr (decision_effect_value (dn_effect dn))),
         (''reasons'', JList (map JStr (dn_reason_codes dn))),
         (''purpose'', JStr (action_approval_purpose_value (gr_purpose r)))]"
  obtain w4 where r4: "?ev1 (w\<lparr>w_db := d3\<rparr>) = (Inr (), w4)"
    using gateway_event_accepted [OF acc, of "''action.policy_decided''"] h3 by fastforce
  have p4: "w_posts w4 = w_posts w" "core (w_db w4) = core ?d"
    using keepsD [OF gateway_log_posts(1) r4] keepsD [OF gateway_event_keeps r4]
    by (simp_all add: d3_def d2_def core_def business_def)
  have h4: "head_owned (ar_id (gr_action r)) (p_organization_id (gr_principal r)) (w_db w4)"
    by (rule gateway_event_head [OF r4]) (simp add: h3)
  have inv: "gateway_invoke e clk r w = after_allow e (later 3 clk) rc r (dn_id dn) w4"
    unfolding gateway_invoke_def
    by (subst andthen_step [of "in_db (resolve_pinned (e_ext e) r)", OF r1],
        subst andthen_step [of "in_db (evaluate_action (e_ext e) (clk 1) ?q)", OF r2],
        subst andthen_step [of "in_db (put_attempt ?a)", OF r3],
        subst andthen_step [of ?ev1, OF r4]) (simp add: eff allow)
  let ?ev2 = "gateway_event e (later 3 clk 0) r ''action.provider_started'' Actor_SERVICE
                  (Some (p_id (gr_principal r)))
                  [(''attempt_id'', JStr (uuid_str (at_id (gr_attempt r)))),
                   (''capability'', JStr (cd_name (rc_definition rc))),
                   (''connector'', JStr (con_name (rc_connector rc))),
                   (''purpose'', JStr (action_approval_purpose_value (gr_purpose r)))]"
  obtain w5 where r5: "?ev2 w4 = (Inr (), w5)"
    using gateway_event_accepted [OF acc, of "''action.provider_started''"] h4 by fastforce
  have p5: "w_posts w5 = w_posts w" "core (w_db w5) = core ?d"
    using keepsD [OF gateway_log_posts(1) r5] keepsD [OF gateway_event_keeps r5] p4 by simp_all
  have call: "after_allow e (later 3 clk) rc r (dn_id dn) w4 =
      call_provider e (later 1 (later 3 clk)) rc r (dn_id dn) w5"
    using andthen_step [of ?ev2, OF r5] schema limit by (simp add: after_allow_def)
  have cr: "resolve_credential (e_ext e) (con_credential_ref (rc_connector rc))
           (p_organization_id (gr_principal r)) (w_db w5) = Inr c"
    using cred resolve_credential_cong core_tables(9) [OF p5(2)] by metis
  obtain endpoint where "con_endpoint (rc_connector rc) = Some endpoint"
    using resolve_pinned_Inr [OF res] by (auto simp: validate_endpoint_def split: option.splits)
  then show ?thesis
    using call_provider_sends [OF _ cr timeout sendable] p5(1) by (simp add: inv call)
qed

lemma gateway_invoke_sends:
  assumes res: "resolve_pinned (e_ext e) r (w_db w) = (Inr rc, w_db w)"
    and allow: "fst (resolve_action (action_policy_request r rc (clk 0)) (w_db w)) \<noteq> Effect_DENY"
    and schema: "validate_schema (e_ext e) (cv_input_schema (rc_version rc)) (gr_payload r) ''action_input_invalid'' = Inr ()"
    and limit: "e_limit e (rate_key r rc) (configured_limit (rc_connector rc)) = Inr True"
    and cred: "resolve_credential (e_ext e) (con_credential_ref (rc_connector rc))
           (p_organization_id (gr_principal r)) (w_db w) = Inr c"
    and timeout: "connector_timeout (rc_connector rc) = Inr t" "0 < effective_timeout rc t"
    and sendable: "e_sendable e (post_headers r c) (gr_payload r)"
    and acc: "accepts (e_ext e) [''action.policy_decided'', ''action.provider_started'']"
    and head: "head_owned (ar_id (gr_action r)) (p_organization_id (gr_principal r)) (w_db w)"
  shows "\<exists>po. w_posts (snd (gateway_invoke e clk r w)) = w_posts w @ [po]"
  using gateway_invoke_sends_post [where clk = clk, OF assms] by blast

section \<open>Properties\<close>

lemma validate_contract_Inr:
  "validate_contract rc p environment = Inr u \<longleftrightarrow>
     environment \<in> {''development'', ''staging''} \<and> cv_risk_level (rc_version rc) = Risk_L3
     \<and> cv_side_effect (rc_version rc) = Side_IDEMPOTENT_WRITE \<and> cv_transport (rc_version rc) = Transport_HTTP
     \<and> can p ''action.execute'' \<and> can p (cv_permission_action (rc_version rc))
     \<and> JStr (cv_permission_action (rc_version rc)) \<in> set (con_declared_grants (rc_connector rc))"
  by (auto simp: validate_contract_def Let_def split: if_splits)

text \<open>The endpoint's authority is on the connector's allowlist, over TLS outside development.\<close>

definition egress_allowed :: "ext \<Rightarrow> connector_row \<Rightarrow> string \<Rightarrow> bool" where
  "egress_allowed x con endpoint \<longleftrightarrow>
     (\<exists>u a allowed. urlparse (ext_host_ok x) endpoint = Some u
        \<and> endpoint_authority x endpoint ''https'' = Inr a
        \<and> egress_authorities x (url_scheme u) (con_allowed_egress con) = Inr allowed \<and> a \<in> set allowed
        \<and> url_username u = None \<and> url_password u = None
        \<and> (con_environment con = ''development'' \<or> url_scheme u = ''https''))"

lemma validate_endpoint_egress:
  assumes "validate_endpoint x con = Inr ()" and "con_endpoint con = Some endpoint"
  shows "egress_allowed x con endpoint"
  using assms unfolding egress_allowed_def
  by (auto simp: validate_endpoint_def split: if_splits option.splits sum.splits)

text \<open>
  C17: Nothing leaves the process unauthorised. Whatever the outcome of an invocation, it posts
  at most one request, and then: the approval handed in is APPROVED, unexpired, of this
  action, purpose and sealed plan, and of the principal's organization; the environment is
  development or staging; the capability is the pinned L3 idempotent HTTP write, still
  enabled and active; the principal holds \<open>action.execute\<close> and the capability's permission,
  which the connector declared; no enabled matching policy of the organization denies; the
  target is on the connector's egress allowlist; the rate limiter allowed the call; and the
  request carries the attempt's idempotency key and the given payload.
\<close>

theorem gateway_posts_only_authorised:
  assumes "gateway_invoke e clk r w = (v, w')" and "w_posts w' \<noteq> w_posts w"
  shows "\<exists>po rc. w_posts w' = w_posts w @ [po] \<and> po_payload po = gr_payload r
     \<and> (''Idempotency-Key'', at_idempotency_key (gr_attempt r)) \<in> set (po_headers po)
     \<and> aa_status (gr_approval r) = Approval_APPROVED \<and> aa_expires_at (gr_approval r) > clk 0
     \<and> aa_action_request_id (gr_approval r) = ar_id (gr_action r)
     \<and> aa_purpose (gr_approval r) = gr_purpose r
     \<and> aa_plan_checksum_sha256 (gr_approval r) = gr_plan_checksum_sha256 r
     \<and> aa_organization_id (gr_approval r) = p_organization_id (gr_principal r)
     \<and> ar_environment (gr_action r) \<in> {''development'', ''staging''}
     \<and> rc \<in> set (capability_rows (w_db w)) \<and> pinned_row r rc
     \<and> cv_risk_level (rc_version rc) = Risk_L3 \<and> cv_side_effect (rc_version rc) = Side_IDEMPOTENT_WRITE
     \<and> can (gr_principal r) ''action.execute'' \<and> can (gr_principal r) (cv_permission_action (rc_version rc))
     \<and> JStr (cv_permission_action (rc_version rc)) \<in> set (con_declared_grants (rc_connector rc))
     \<and> \<not> (\<exists>p. p \<in> set (t_policies (w_db w)) \<and> pol_enabled p
            \<and> pol_organization_id p = p_organization_id (gr_principal r)
            \<and> policy_matches p (action_subject (action_policy_request r rc (clk 0)))
            \<and> pol_effect p = Effect_DENY)
     \<and> egress_allowed (e_ext e) (rc_connector rc) (po_endpoint po)
     \<and> e_limit e (rate_key r rc) (configured_limit (rc_connector rc)) = Inr True"
proof -
  obtain po rc where posts: "w_posts w' = w_posts w @ [po]"
    and auth: "post_authorised e (clk 0) r (w_db w) rc po"
    using gateway_invoke_posts [OF assms(1)] assms(2) by blast
  let ?q = "action_policy_request r rc (clk 0)"
  have sub: "sub_principal (action_subject ?q) = gr_principal r"
    by (simp add: action_subject_def action_policy_request_def)
  have open_gate: "\<not> action_closed ?q"
      "\<not> (\<exists>p \<in> set (matching_policies (action_subject ?q) (w_db w)). pol_effect p = Effect_DENY)"
    using auth action_gate.deny_iff [of ?q "w_db w"] by (auto simp: post_authorised_def)
  have "approval_valid r (clk 0)"
    using open_gate(1) by (simp add: action_closed_def action_policy_request_def)
  moreover have "egress_allowed (e_ext e) (rc_connector rc) (po_endpoint po)"
    using auth validate_endpoint_egress by (auto simp: post_authorised_def is_post_of_def)
  moreover have "(''Idempotency-Key'', at_idempotency_key (gr_attempt r)) \<in> set (po_headers po)"
    using auth by (auto simp: post_authorised_def is_post_of_def post_headers_def)
  ultimately show ?thesis
    using posts auth open_gate(2)
    by (intro exI [of _ po] exI [of _ rc])
      (auto simp: post_authorised_def is_post_of_def validate_contract_Inr approval_valid_def
        matching_policies_mem sub)
qed


text \<open>A sample action with its approval, attempt, capability and connector.\<close>

definition sample_env :: env where
  "sample_env = \<lparr>e_ext = open_ext [''action.policy_decided'', ''action.provider_started'',
        ''action.provider_completed'', ''action.provider_failed''] [''action_provider_failed''],
     e_limit = (\<lambda>_ _. Inr True),
     e_provider = (\<lambda>_ _. Http_Ok No_Length 20 (Some (JObj [(''ticket'', JStr ''T-1'')]))),
     e_sendable = (\<lambda>headers _. list_all (\<lambda>(k, v). k = ''Authorization'' \<longrightarrow> CHR 0x0A \<notin> set v) headers),
     e_latency_ms = 5, e_max_response_bytes = 1048576, e_worker_id = ''w:1:action'',
     e_lease_seconds = 60\<rparr>"

definition sample_action :: "action_status \<Rightarrow> action_request_row" where
  "sample_action st =
     \<lparr>ar_id = 9, ar_organization_id = 1, ar_workspace_id = 5, ar_action_type = Type_CREATE_TICKET,
      ar_title = ''t'', ar_description = [], ar_environment = ''staging'',
      ar_target = [(''project_key'', JStr ''OPS'')], ar_parameters = [(''summary'', JStr ''s'')],
      ar_rollback_parameters = [], ar_status = st, ar_owner_id = 7, ar_requested_by = 7,
      ar_idempotency_key = ''key-00001'', ar_timeout_seconds = 300, ar_deadline_at = Some 1000000000,
      ar_plan_checksum_sha256 = Some ''sum'', ar_preflight = [], ar_result = [], ar_started_at = None,
      ar_completed_at = None, ar_cancellation_requested_at = None, ar_lease_owner = None,
      ar_lease_expires_at = None, ar_error_code = None, ar_error_message = None, ar_created_at = 0\<rparr>"

definition sample_approval :: "approval_status \<Rightarrow> action_approval_row" where
  "sample_approval st =
     \<lparr>aa_id = 20, aa_organization_id = 1, aa_action_request_id = 9, aa_purpose = Purpose_EXECUTE,
      aa_revision = 1, aa_plan_checksum_sha256 = ''sum'', aa_status = st, aa_reason = ''r'',
      aa_requested_by = 7, aa_approver_constraints = [], aa_decided_by = None,
      aa_decision_reason = None, aa_expires_at = 500000000, aa_decided_at = None, aa_created_at = 0\<rparr>"

definition sample_attempt :: action_attempt_row where
  "sample_attempt =
     \<lparr>at_id = 30, at_organization_id = 1, at_action_request_id = 9, at_purpose = Purpose_EXECUTE,
      at_ordinal = 1, at_status = Attempt_RUNNING, at_capability_version_id = 40, at_connector_id = 42,
      at_approval_id = 20, at_policy_decision_id = None, at_idempotency_key = ''action:9:execute:1'',
      at_input_payload = [], at_output = [], at_started_at = Some 1, at_completed_at = None,
      at_error_code = None, at_error_message = None, at_created_at = 1\<rparr>"

definition sample_resolved :: resolved_capability where
  "sample_resolved =
     \<lparr>rc_definition = \<lparr>cd_id = 41, cd_organization_id = 1, cd_name = ''action.ticket.create'',
        cd_status = Registry_ACTIVE\<rparr>,
      rc_version = sample_capability Risk_L3 Side_IDEMPOTENT_WRITE,
      rc_binding = \<lparr>cb_id = 43, cb_organization_id = 1, cb_capability_version_id = 40,
        cb_connector_id = 42, cb_environment = ''staging'', cb_resource_selector = [], cb_enabled = True\<rparr>,
      rc_connector = \<lparr>con_id = 42, con_organization_id = 1, con_name = ''tickets'',
        con_connector_type = ''http'',
        con_status = Connector_ACTIVE, con_environment = ''staging'',
        con_endpoint = Some ''https://tickets.example/api'', con_configuration = [],
        con_credential_ref = None, con_declared_grants = [JStr ''ticket.write''],
        con_allowed_egress = [JStr ''tickets.example'']\<rparr>\<rparr>"

definition sample_gateway_db :: db where
  "sample_gateway_db = empty_db\<lparr>t_capability_definitions := [rc_definition sample_resolved],
     t_capability_versions := [rc_version sample_resolved],
     t_bindings := [rc_binding sample_resolved], t_connectors := [rc_connector sample_resolved],
     t_attempts := [sample_attempt]\<rparr>"

definition sample_request :: "approval_status \<Rightarrow> gateway_request" where
  "sample_request st =
     \<lparr>gr_principal = sample_principal 7 [''action.execute'', ''ticket.write''],
      gr_action = sample_action Action_EXECUTING, gr_approval = sample_approval st,
      gr_attempt = sample_attempt, gr_plan_checksum_sha256 = ''sum'', gr_purpose = Purpose_EXECUTE,
      gr_payload = [(''purpose'', JStr ''EXECUTE'')]\<rparr>"

definition sample_world :: world where
  "sample_world = \<lparr>w_db = sample_gateway_db, w_posts = []\<rparr>"

lemma sample_endpoint_ok: "validate_endpoint (open_ext ns cs) (rc_connector sample_resolved) = Inr ()"
  by code_simp

lemma sample_contract_ok:
  "validate_contract sample_resolved (sample_principal 7 [''action.execute'', ''ticket.write'']) ''staging'' = Inr ()"
  by code_simp

lemma sample_resolve:
  "resolve_pinned (e_ext sample_env) (sample_request st) (w_db sample_world) =
     (Inr sample_resolved, w_db sample_world)"
proof -
  have "filter (pinned_row (sample_request st)) (capability_rows sample_gateway_db) = [sample_resolved]"
    by (simp add: capability_rows_def sample_gateway_db_def empty_db_def pinned_row_def sample_request_def
        sample_resolved_def sample_capability_def sample_attempt_def sample_action_def sample_principal_def)
  then show ?thesis
    using sample_contract_ok sample_endpoint_ok
    by (simp add: resolve_pinned_def op_simps sample_world_def sample_env_def sample_request_def
        sample_action_def)
qed

lemma sample_policy_allows:
  "fst (resolve_action (action_policy_request (sample_request Approval_APPROVED) sample_resolved 100)
     (w_db sample_world)) \<noteq> Effect_DENY"
  by (simp add: action_gate.deny_iff action_closed_def matching_policies_def enabled_policies_def sample_world_def
      sample_gateway_db_def empty_db_def action_policy_request_def sample_request_def cond_get_def
      py_str_def sample_action_def sample_resolved_def sample_capability_def approval_valid_def
      sample_approval_def sample_principal_def can_def action_subject_def)

lemma sample_accepts: "accepts (e_ext sample_env) [''action.policy_decided'', ''action.provider_started'']"
  by (simp add: accepts_def sample_env_def open_ext_def)

lemma sample_sendable: "e_sendable sample_env (post_headers (sample_request Approval_APPROVED) None) payload"
  by (simp add: sample_env_def post_headers_def)

lemma sample_timeout: "cv_timeout_seconds (sample_capability risk side) = 30"
  by (simp add: sample_capability_def)

lemma sample_sends:
  "\<exists>po. w_posts (snd (gateway_invoke sample_env (\<lambda>_. 100) (sample_request Approval_APPROVED) sample_world))
     = w_posts sample_world @ [po]"
  by (rule gateway_invoke_sends [OF sample_resolve _ _ _ _ _ _ _ sample_accepts, where c = None and t = 120])
    (use sample_policy_allows sample_sendable in \<open>simp_all add: sample_timeout sample_env_def open_ext_def validate_schema_def
       sample_resolved_def resolve_credential_def connector_timeout_def cond_get_def head_owned_def effective_timeout_def
       sample_world_def sample_gateway_db_def empty_db_def\<close>)


theorem gateway_posts_only_authorised_witness:
  "\<exists>po. w_posts (snd (gateway_invoke sample_env (\<lambda>_. 100) (sample_request Approval_APPROVED) sample_world)) = [po]
     \<and> (''Idempotency-Key'', ''action:9:execute:1'') \<in> set (po_headers po)"
proof -
  let ?i = "gateway_invoke sample_env (\<lambda>_. 100) (sample_request Approval_APPROVED) sample_world"
  have i: "?i = (fst ?i, snd ?i)" by simp
  have "w_posts (snd ?i) \<noteq> w_posts sample_world" using sample_sends by fastforce
  from gateway_posts_only_authorised [OF i this] show ?thesis
    by (auto simp: sample_world_def sample_request_def sample_attempt_def)
qed

end
