(* ===== verification/ActionService.thy ===== *)
theory ActionService
  imports ActionGateway
begin

text \<open>
  \<open>actions/service.py\<close> (the governed-action service), the request model of
  \<open>actions/schemas.py\<close> and the decision endpoint of \<open>api/actions.py\<close>. Each method is one
  operation on the store with its guards and writes in the order of the source; \<open>clk\<close> gives
  the clock readings, and the \<open>created_at\<close> columns that the database server fills in take
  one of them. Counters are left out.
\<close>

section \<open>Requests\<close>

record create_action_request =
  car_action_type :: action_type
  car_title :: string
  car_description :: string
  car_environment :: string
  car_target :: jobj
  car_parameters :: jobj
  car_rollback_parameters :: jobj
  car_owner_id :: "uuid option"
  car_idempotency_key :: string
  car_timeout_seconds :: int

text \<open>
  The field constraints and the validator of the request model. A failed check is the
  \<open>ValueError\<close> that pydantic reports; the size is that of the compact ASCII JSON text.
\<close>

definition json_char :: "char \<Rightarrow> string" where
  "json_char c =
     (if c = CHR 0x22 then [CHR 0x5C, CHR 0x22]
      else if c = CHR 0x5C then [CHR 0x5C, CHR 0x5C]
      else if c = CHR 0x0A then [CHR 0x5C, CHR ''n'']
      else if c = CHR 0x0D then [CHR 0x5C, CHR ''r'']
      else if c = CHR 0x09 then [CHR 0x5C, CHR ''t'']
      else if c = CHR 0x08 then [CHR 0x5C, CHR ''b'']
      else if c = CHR 0x0C then [CHR 0x5C, CHR ''f'']
      else if ord c < 32 \<or> ord c > 126 then [CHR 0x5C, CHR ''u''] @ hex_fixed 4 (ord c)
      else [c])"

definition json_string :: "string \<Rightarrow> string" where
  "json_string s = [CHR 0x22] @ concat (map json_char s) @ [CHR 0x22]"

fun json_dumps :: "json \<Rightarrow> string" where
  "json_dumps JNull = ''null''"
| "json_dumps (JBool b) = (if b then ''true'' else ''false'')"
| "json_dumps (JInt i) = int_str i"
| "json_dumps (JStr s) = json_string s"
| "json_dumps (JList xs) = ''['' @ join '','' (map json_dumps xs) @ '']''"
| "json_dumps (JObj xs) =
     ''{'' @ join '','' (map (\<lambda>p. json_string (fst p) @ '':'' @ json_dumps (snd p)) xs) @ ''}''"

definition in_range :: "nat \<Rightarrow> nat \<Rightarrow> string \<Rightarrow> bool" where
  "in_range lo hi s \<longleftrightarrow> lo \<le> length s \<and> length s \<le> hi"

definition is_name_char :: "string \<Rightarrow> char \<Rightarrow> bool" where
  "is_name_char extra c \<longleftrightarrow> is_alpha c \<or> is_digit c \<or> c \<in> set extra"

definition is_repository :: "string \<Rightarrow> bool" where
  "is_repository s \<longleftrightarrow>
     (case split_on (CHR ''/'') s of
        [a, b] \<Rightarrow> a \<noteq> [] \<and> b \<noteq> [] \<and> list_all (is_name_char ''_.-'') (a @ b)
      | _ \<Rightarrow> False)"

definition is_project_key :: "string \<Rightarrow> bool" where
  "is_project_key s \<longleftrightarrow>
     (case s of [] \<Rightarrow> False
      | c # cs \<Rightarrow> is_alpha c \<and> list_all (is_name_char ''_-'') cs \<and> 1 \<le> length cs \<and> length cs \<le> 39)"

definition required_strings :: "jobj \<Rightarrow> string list \<Rightarrow> string \<Rightarrow> err + unit" where
  "required_strings payload keys action =
     fold (\<lambda>key r. case r of Inl e \<Rightarrow> Inl e
        | Inr _ \<Rightarrow>
            (case map_of payload key of
               Some (JStr v) \<Rightarrow>
                 if strip v = [] then Inl (ValueError (action @ '' parameters.'' @ key @ '' is required''))
                 else if length v > 20000
                 then Inl (ValueError (action @ '' parameters.'' @ key @ '' is too long''))
                 else Inr ()
             | _ \<Rightarrow> Inl (ValueError (action @ '' parameters.'' @ key @ '' is required'')))) keys (Inr ())"

definition validate_action_contract :: "create_action_request \<Rightarrow> err + unit" where
  "validate_action_contract r =
     (let serialized = json_dumps (JObj [(''target'', JObj (car_target r)),
                         (''parameters'', JObj (car_parameters r)),
                         (''rollback_parameters'', JObj (car_rollback_parameters r))])
      in if length serialized > 100000 then Inl (ValueError ''action payload cannot exceed 100 KB'')
         else case car_action_type r of
           Type_GENERATE_PR \<Rightarrow>
             (case map_of (car_target r) ''repository'' of
                Some (JStr repository) \<Rightarrow>
                  if is_repository repository
                  then required_strings (car_parameters r) [''title'', ''head'', ''base''] ''GENERATE_PR''
                  else Inl (ValueError ''GENERATE_PR target.repository must be owner/repository'')
              | _ \<Rightarrow> Inl (ValueError ''GENERATE_PR target.repository must be owner/repository''))
         | Type_CREATE_TICKET \<Rightarrow>
             (case map_of (car_target r) ''project_key'' of
                Some (JStr project_key) \<Rightarrow>
                  if is_project_key project_key
                  then required_strings (car_parameters r) [''summary'', ''description''] ''CREATE_TICKET''
                  else Inl (ValueError ''CREATE_TICKET target.project_key is invalid'')
              | _ \<Rightarrow> Inl (ValueError ''CREATE_TICKET target.project_key is invalid''))
         | _ \<Rightarrow> Inr ())"

definition valid_create_request :: "create_action_request \<Rightarrow> bool" where
  "valid_create_request r \<longleftrightarrow>
     in_range 3 240 (car_title r) \<and> length (car_description r) \<le> 10000
     \<and> in_range 1 80 (car_environment r) \<and> is_lower (hd (car_environment r))
     \<and> list_all (\<lambda>c. is_lower c \<or> is_digit c \<or> c \<in> set ''_-'') (tl (car_environment r))
     \<and> in_range 8 300 (car_idempotency_key r) \<and> list_all (is_name_char ''_.:-'') (car_idempotency_key r)
     \<and> 30 \<le> car_timeout_seconds r \<and> car_timeout_seconds r \<le> 1800
     \<and> validate_action_contract r = Inr ()"

section \<open>Helpers\<close>

definition action_plan_checksum :: "ext \<Rightarrow> jobj \<Rightarrow> string" where
  "action_plan_checksum x spec = sha256_hex x (JObj spec)"

definition contracts :: "action_type \<Rightarrow> (string \<times> string) option" where
  "contracts ty =
     (case ty of
        Type_GENERATE_PR \<Rightarrow> Some (''action.pr.create'', ''action.pr.close'')
      | Type_CREATE_TICKET \<Rightarrow> Some (''action.ticket.create'', ''action.ticket.close'')
      | _ \<Rightarrow> None)"

definition require_permission :: "principal \<Rightarrow> string \<Rightarrow> (db, unit) op" where
  "require_permission p permission =
     require (can p permission) (AuthorizationError ''action_permission_denied''
       ''Action access is not permitted'' [(''permission'', JStr permission)])"

text \<open>\<open>_deny_secret_fields\<close>: depth first, in order, with the path of the first offending key.\<close>

fun deny_secret_fields :: "string \<Rightarrow> json \<Rightarrow> err + unit"
  and deny_secret_items :: "string \<Rightarrow> (string \<times> json) list \<Rightarrow> err + unit"
  and deny_secret_list :: "string \<Rightarrow> int \<Rightarrow> json list \<Rightarrow> err + unit" where
  "deny_secret_fields path (JObj xs) = deny_secret_items path xs"
| "deny_secret_fields path (JList xs) = deny_secret_list path 0 xs"
| "deny_secret_fields path _ = Inr ()"
| "deny_secret_items path [] = Inr ()"
| "deny_secret_items path ((key, item) # xs) =
     (if rsearch secret_field_re key
      then Inl (ValidationError ''action_inline_secret_denied''
             ''Action requests cannot contain credentials or secret fields''
             [(''path'', JStr (path @ ''.'' @ key))])
      else case deny_secret_fields (path @ ''.'' @ key) item of
             Inl e \<Rightarrow> Inl e | Inr _ \<Rightarrow> deny_secret_items path xs)"
| "deny_secret_list path i [] = Inr ()"
| "deny_secret_list path i (item # xs) =
     (case deny_secret_fields (path @ ''.'' @ int_str i) item of
        Inl e \<Rightarrow> Inl e | Inr _ \<Rightarrow> deny_secret_list path (i + 1) xs)"

definition action_event ::
  "ext \<Rightarrow> time \<Rightarrow> action_request_row \<Rightarrow> string \<Rightarrow> actor_type \<Rightarrow> uuid option \<Rightarrow> jobj \<Rightarrow> (db, unit) op" where
  "action_event x now action name actor_ty actor payload =
     andthen (append_event x now
       (EventDraft name ''action_request'' (ar_id action) (ar_organization_id action) (ar_id action)
          actor_ty actor payload)) (\<lambda>_. ret ())"

definition action_audit ::
  "time \<Rightarrow> action_request_row \<Rightarrow> principal \<Rightarrow> string \<Rightarrow> string \<Rightarrow> jobj \<Rightarrow> (db, unit) op" where
  "action_audit now action p operation outcome metadata =
     andthen (write_audit now
       ((AuditDraft (ar_organization_id action) (ar_id action) Actor_USER (Some (p_id p)) operation
           ''action_request'' (uuid_str (ar_id action)) outcome metadata)
        \<lparr>ad_risk_level := Some Risk_L3\<rparr>)) (\<lambda>_. ret ())"

definition put_action :: "action_request_row \<Rightarrow> (db, unit) op" where
  "put_action a = modify (\<lambda>d. d\<lparr>t_actions := replace_row ar_id a (t_actions d)\<rparr>)"

definition put_approval :: "action_approval_row \<Rightarrow> (db, unit) op" where
  "put_approval a = modify (\<lambda>d. d\<lparr>t_action_approvals := replace_row aa_id a (t_action_approvals d)\<rparr>)"

text \<open>Assigning \<open>error_code\<close> runs the validator of \<open>db/base.py\<close>.\<close>

definition check_code :: "ext \<Rightarrow> string \<Rightarrow> ('s, unit) op" where
  "check_code x code = from_sum (validate_error_code x (Some code))"

section \<open>Creating and reading\<close>

definition same_request :: "action_request_row \<Rightarrow> uuid \<Rightarrow> create_action_request \<Rightarrow> uuid \<Rightarrow> bool" where
  "same_request a wid r owner \<longleftrightarrow>
     ar_workspace_id a = wid \<and> ar_action_type a = car_action_type r
     \<and> ar_title a = strip (car_title r) \<and> ar_description a = strip (car_description r)
     \<and> ar_environment a = car_environment r
     \<and> py_eq (JObj (ar_target a)) (JObj (car_target r))
     \<and> py_eq (JObj (ar_parameters a)) (JObj (car_parameters r))
     \<and> py_eq (JObj (ar_rollback_parameters a)) (JObj (car_rollback_parameters r))
     \<and> ar_owner_id a = owner \<and> ar_timeout_seconds a = car_timeout_seconds r"

definition new_action_row ::
  "uuid \<Rightarrow> principal \<Rightarrow> uuid \<Rightarrow> create_action_request \<Rightarrow> uuid \<Rightarrow> time \<Rightarrow> action_request_row" where
  "new_action_row i p wid r owner now =
     \<lparr>ar_id = i, ar_organization_id = p_organization_id p, ar_workspace_id = wid,
      ar_action_type = car_action_type r, ar_title = strip (car_title r),
      ar_description = strip (car_description r), ar_environment = car_environment r,
      ar_target = car_target r, ar_parameters = car_parameters r,
      ar_rollback_parameters = car_rollback_parameters r, ar_status = Action_DRAFT,
      ar_owner_id = owner, ar_requested_by = p_id p, ar_idempotency_key = car_idempotency_key r,
      ar_timeout_seconds = car_timeout_seconds r, ar_deadline_at = None,
      ar_plan_checksum_sha256 = None, ar_preflight = [], ar_result = [], ar_started_at = None,
      ar_completed_at = None, ar_cancellation_requested_at = None, ar_lease_owner = None,
      ar_lease_expires_at = None, ar_error_code = None, ar_error_message = None,
      ar_created_at = now\<rparr>"

definition create_action ::
  "ext \<Rightarrow> clock \<Rightarrow> principal \<Rightarrow> uuid \<Rightarrow> create_action_request \<Rightarrow> (db, action_request_row) op" where
  "create_action x clk p wid r =
     andthen (require_permission p ''action.request'') (\<lambda>_.
     andthen (require_workspace_access p wid True) (\<lambda>_.
     andthen (from_sum (deny_secret_fields ''payload'' (JObj (car_target r)))) (\<lambda>_.
     andthen (from_sum (deny_secret_fields ''payload'' (JObj (car_parameters r)))) (\<lambda>_.
     andthen (from_sum (deny_secret_fields ''payload'' (JObj (car_rollback_parameters r)))) (\<lambda>_.
     (let owner_id = (case car_owner_id r of Some o' \<Rightarrow> o' | None \<Rightarrow> p_id p)
      in andthen (require (owner_id = p_id p \<or> can p ''action.request.all'')
           (AuthorizationError ''action_owner_assignment_denied'' ''Cannot assign another action owner'' [])) (\<lambda>_.
         andthen (load_principal_by_id (p_organization_id p) owner_id) (\<lambda>owner.
         andthen (require_workspace_access owner wid True) (\<lambda>_.
         andthen (reads (\<lambda>d. find (\<lambda>a. ar_organization_id a = p_organization_id p
                    \<and> ar_idempotency_key a = car_idempotency_key r) (t_actions d))) (\<lambda>found.
         case found of
           Some existing \<Rightarrow>
             andthen (require (same_request existing wid r owner_id)
               (ConflictError ''action_idempotency_conflict''
                 ''The idempotency key is already used by a different action request'' [])) (\<lambda>_.
             andthen (require_workspace_access p (ar_workspace_id existing) False) (\<lambda>_.
             ret existing))
         | None \<Rightarrow>
             andthen new_id (\<lambda>i.
             (let action = new_action_row i p wid r owner_id (clk 0);
                  payload = [(''action_type'', JStr (action_type_value (ar_action_type action))),
                             (''environment'', JStr (ar_environment action))]
              in andthen (modify (\<lambda>d. d\<lparr>t_actions := t_actions d @ [action]\<rparr>)) (\<lambda>_.
                 andthen (action_event x (clk 1) action ''action.created'' Actor_USER (Some (p_id p)) payload) (\<lambda>_.
                 andthen (action_audit (clk 2) action p ''action.create'' ''SUCCESS'' payload) (\<lambda>_.
                 ret action)))))))))))))))"

definition list_actions ::
  "principal \<Rightarrow> uuid \<Rightarrow> action_status option \<Rightarrow> nat \<Rightarrow> (db, action_request_row list) op" where
  "list_actions p wid status limit =
     andthen (require_workspace_access p wid False) (\<lambda>_.
     reads (\<lambda>d. take limit (sort_key (\<lambda>a. - ar_created_at a)
       (filter (\<lambda>a. ar_organization_id a = p_organization_id p \<and> ar_workspace_id a = wid
                   \<and> (case status of None \<Rightarrow> True | Some st \<Rightarrow> ar_status a = st)) (t_actions d)))))"

definition get_action :: "principal \<Rightarrow> uuid \<Rightarrow> bool \<Rightarrow> (db, action_request_row) op" where
  "get_action p aid write =
     andthen (reads (\<lambda>d. find (\<lambda>a. ar_id a = aid \<and> ar_organization_id a = p_organization_id p)
                          (t_actions d))) (\<lambda>found.
     andthen (from_some (NotFoundError ''Action request'' (uuid_str aid)) found) (\<lambda>action.
     andthen (require_workspace_access p (ar_workspace_id action) write) (\<lambda>_.
     ret action)))"

definition action_detail ::
  "principal \<Rightarrow> uuid \<Rightarrow> (db, action_request_row \<times> action_plan_row option \<times> action_approval_row list
     \<times> action_attempt_row list) op" where
  "action_detail p aid =
     andthen (get_action p aid False) (\<lambda>action.
     (let org = p_organization_id p
      in reads (\<lambda>d. (action,
           find (\<lambda>pl. pl_organization_id pl = org \<and> pl_action_request_id pl = ar_id action) (t_plans d),
           sort_key aa_created_at (filter (\<lambda>a. aa_organization_id a = org
             \<and> aa_action_request_id a = ar_id action) (t_action_approvals d)),
           sort_key at_created_at (filter (\<lambda>a. at_organization_id a = org
             \<and> at_action_request_id a = ar_id action) (t_attempts d))))))"

definition list_action_approvals ::
  "principal \<Rightarrow> approval_status option \<Rightarrow> nat \<Rightarrow> (db, action_approval_row list) op" where
  "list_action_approvals p status limit =
     andthen (require (can p ''action.approval.read'' \<or> can p ''action.approve'')
       (AuthorizationError ''action_approval_read_denied'' ''Action approval access is not permitted'' [])) (\<lambda>_.
     (let org = p_organization_id p
      in reads (\<lambda>d. take limit (sort_key (\<lambda>a. - aa_created_at a)
           [ap. ap \<leftarrow> t_action_approvals d, aa_organization_id ap = org
                  \<and> (case status of None \<Rightarrow> True | Some st \<Rightarrow> aa_status ap = st),
                a \<leftarrow> t_actions d, ar_id a = aa_action_request_id ap \<and> ar_organization_id a = org,
                ws \<leftarrow> t_workspaces d, ws_id ws = ar_workspace_id a \<and> ws_organization_id ws = org
                  \<and> workspace_access_clause p False d ws]))))"

section \<open>Approvals\<close>

definition latest_revision :: "uuid \<Rightarrow> action_approval_purpose \<Rightarrow> db \<Rightarrow> int" where
  "latest_revision aid purpose d =
     foldr max (map aa_revision (filter (\<lambda>a. aa_action_request_id a = aid \<and> aa_purpose a = purpose)
       (t_action_approvals d))) 0"

definition create_approval ::
  "ext \<Rightarrow> clock \<Rightarrow> action_request_row \<Rightarrow> action_approval_purpose \<Rightarrow> string \<Rightarrow> int \<Rightarrow> (db, action_approval_row) op"
where
  "create_approval x clk action purpose reason ttl_minutes =
     andthen (from_some (ConflictError ''action_plan_missing'' ''The action has no sealed execution plan'' [])
       (ar_plan_checksum_sha256 action)) (\<lambda>checksum.
     andthen (reads (latest_revision (ar_id action) purpose)) (\<lambda>latest.
     andthen new_id (\<lambda>i.
     (let approval = \<lparr>aa_id = i, aa_organization_id = ar_organization_id action,
            aa_action_request_id = ar_id action, aa_purpose = purpose, aa_revision = latest + 1,
            aa_plan_checksum_sha256 = checksum, aa_status = Approval_PENDING,
            aa_reason = strip reason, aa_requested_by = ar_requested_by action,
            aa_approver_constraints = [(''permission'', JStr ''action.approve''),
                                       (''disallow_self'', JBool True)],
            aa_decided_by = None, aa_decision_reason = None,
            aa_expires_at = clk 0 + timedelta_minutes ttl_minutes, aa_decided_at = None,
            aa_created_at = clk 1\<rparr>
      in andthen (modify (\<lambda>d. d\<lparr>t_action_approvals := t_action_approvals d @ [approval]\<rparr>)) (\<lambda>_.
         andthen (action_event x (clk 2) action ''action.approval_requested'' Actor_USER
           (Some (ar_requested_by action))
           [(''approval_id'', JStr (uuid_str i)),
            (''purpose'', JStr (action_approval_purpose_value purpose)),
            (''expires_at'', JStr (isoformat (aa_expires_at approval)))]) (\<lambda>_.
         ret approval))))))"

definition require_owner :: "action_request_row \<Rightarrow> (db, principal) op" where
  "require_owner action =
     andthen (load_principal_by_id (ar_organization_id action) (ar_owner_id action)) (\<lambda>owner.
     andthen (require (can owner ''action.execute'') (ValidationError ''action_owner_permission_missing''
        ''The action owner must have action.execute permission'' [])) (\<lambda>_.
     andthen (require_workspace_access owner (ar_workspace_id action) True) (\<lambda>_.
     ret owner)))"

section \<open>Preflight\<close>

definition plan_spec_of ::
  "action_request_row \<Rightarrow> resolved_capability \<Rightarrow> resolved_capability \<Rightarrow> jobj" where
  "plan_spec_of action execute rollback =
     [(''schema_version'', JInt 1),
      (''action_type'', JStr (action_type_value (ar_action_type action))),
      (''environment'', JStr (ar_environment action)),
      (''target'', JObj (ar_target action)),
      (''parameters'', JObj (ar_parameters action)),
      (''rollback_parameters'', JObj (ar_rollback_parameters action)),
      (''execute'', JObj (plan_reference execute)),
      (''rollback'', JObj (plan_reference rollback))]"

text \<open>The \<open>try\<close> block: it only reads, and returns what the plan is sealed from.\<close>

definition preflight_checks ::
  "ext \<Rightarrow> action_request_row \<Rightarrow> (db, resolved_capability \<times> resolved_capability \<times> jobj \<times> string) op" where
  "preflight_checks x action =
     andthen (from_some (ValidationError ''v1_action_type_boundary''
        ''This action type is planned but cannot execute in V1''
        [(''action_type'', JStr (action_type_value (ar_action_type action)))])
        (contracts (ar_action_type action))) (\<lambda>(execute_name, rollback_name).
     andthen (require (ar_environment action \<in> {''development'', ''staging''})
        (ValidationError ''v1_production_action_boundary''
          ''V1 actions are limited to development and staging'' [])) (\<lambda>_.
     andthen (require_owner action) (\<lambda>owner.
     andthen (gateway_preflight x owner execute_name (ar_environment action) (ar_target action)) (\<lambda>execute.
     andthen (gateway_preflight x owner rollback_name (ar_environment action) (ar_target action)) (\<lambda>rollback.
     (let plan_spec = plan_spec_of action execute rollback; checksum = action_plan_checksum x plan_spec
      in andthen (from_sum (validate_preflight_payload x execute
           (action_provider_payload action checksum Purpose_EXECUTE (JObj (ar_parameters action)) None))) (\<lambda>_.
         andthen (from_sum (validate_preflight_payload x rollback
           (action_provider_payload action checksum Purpose_ROLLBACK
              (JObj (ar_rollback_parameters action)) (Some (JObj []))))) (\<lambda>_.
         ret (execute, rollback, plan_spec, checksum)))))))))"

definition preflight_failed ::
  "ext \<Rightarrow> clock \<Rightarrow> principal \<Rightarrow> action_request_row \<Rightarrow> err \<Rightarrow> (db, action_request_row) op" where
  "preflight_failed x clk p action e =
     andthen (check_code x (err_code e)) (\<lambda>_.
     (let action' = action\<lparr>ar_status := Action_PREFLIGHT_FAILED, ar_error_code := Some (err_code e),
            ar_error_message := Some (err_message e),
            ar_preflight := [(''passed'', JBool False), (''checked_at'', JStr (isoformat (clk 0))),
                             (''error_code'', JStr (err_code e)), (''details'', JObj (err_details e))]\<rparr>
      in andthen (put_action action') (\<lambda>_.
         andthen (action_event x (clk 1) action' ''action.preflight_failed'' Actor_USER (Some (p_id p))
           [(''error_code'', JStr (err_code e))]) (\<lambda>_.
         andthen (action_audit (clk 2) action' p ''action.preflight'' ''FAILED''
           [(''error_code'', JStr (err_code e))]) (\<lambda>_.
         ret action')))))"

definition seal_plan ::
  "ext \<Rightarrow> clock \<Rightarrow> principal \<Rightarrow> action_request_row \<Rightarrow> string \<Rightarrow> int
     \<Rightarrow> resolved_capability \<times> resolved_capability \<times> jobj \<times> string \<Rightarrow> (db, action_request_row) op" where
  "seal_plan x clk p action reason ttl checked =
     (case checked of (execute, rollback, plan_spec, checksum) \<Rightarrow>
      andthen new_id (\<lambda>plan_id.
      (let now = clk 0;
           plan = \<lparr>pl_id = plan_id, pl_organization_id = ar_organization_id action,
                   pl_action_request_id = ar_id action, pl_spec = plan_spec,
                   pl_checksum_sha256 = checksum, pl_created_by = p_id p, pl_created_at = now\<rparr>;
           action' = action\<lparr>ar_plan_checksum_sha256 := Some checksum,
             ar_preflight := [(''passed'', JBool True), (''checked_at'', JStr (isoformat now)),
                              (''execute_capability'', JStr (cd_name (rc_definition execute))),
                              (''rollback_capability'', JStr (cd_name (rc_definition rollback)))],
             ar_status := Action_WAITING_APPROVAL, ar_error_code := None, ar_error_message := None\<rparr>
       in andthen (modify (\<lambda>d. d\<lparr>t_plans := t_plans d @ [plan]\<rparr>)) (\<lambda>_.
          andthen (put_action action') (\<lambda>_.
          andthen (create_approval x (later 1 clk) action' Purpose_EXECUTE reason ttl) (\<lambda>_.
          andthen (action_event x (clk 4) action' ''action.preflight_passed'' Actor_USER (Some (p_id p))
            [(''plan_id'', JStr (uuid_str plan_id)), (''plan_checksum_sha256'', JStr checksum),
             (''execute_capability'', JStr (cd_name (rc_definition execute))),
             (''rollback_capability'', JStr (cd_name (rc_definition rollback)))]) (\<lambda>_.
          andthen (action_audit (clk 5) action' p ''action.preflight'' ''SUCCESS''
            [(''plan_checksum_sha256'', JStr checksum)]) (\<lambda>_.
          ret action'))))))))"

definition preflight_action ::
  "ext \<Rightarrow> clock \<Rightarrow> principal \<Rightarrow> uuid \<Rightarrow> string \<Rightarrow> int \<Rightarrow> (db, action_request_row) op" where
  "preflight_action x clk p aid reason ttl =
     andthen (require_permission p ''action.request'') (\<lambda>_.
     andthen (get_action p aid True) (\<lambda>action.
     andthen (require (ar_status action \<in> {Action_DRAFT, Action_PREFLIGHT_FAILED})
        (ConflictError ''action_not_preflightable''
          ''Only a draft or failed preflight action can be checked''
          [(''status'', JStr (action_status_value (ar_status action)))])) (\<lambda>_.
     andthen (reads (\<lambda>d. find (\<lambda>pl. pl_action_request_id pl = ar_id action) (t_plans d))) (\<lambda>plan.
     andthen (require (plan = None) (ConflictError ''action_plan_exists''
        ''The action already has a sealed plan'' [])) (\<lambda>_.
     andthen (reads (preflight_checks x action)) (\<lambda>(outcome, _).
     case outcome of
       Inr checked \<Rightarrow> seal_plan x clk p action reason ttl checked
     | Inl e \<Rightarrow> if is_obsion e then preflight_failed x clk p action e else raise e))))))"

section \<open>Deciding, rolling back, cancelling\<close>

definition decided_status :: "action_approval_purpose \<Rightarrow> bool \<Rightarrow> action_status" where
  "decided_status purpose approve =
     (if approve then (if purpose = Purpose_EXECUTE then Action_APPROVED else Action_ROLLBACK_APPROVED)
      else if purpose = Purpose_EXECUTE then Action_REJECTED else Action_ROLLBACK_REJECTED)"

definition expire_in_decide ::
  "ext \<Rightarrow> clock \<Rightarrow> action_approval_row \<Rightarrow> action_request_row \<Rightarrow> (db, 'a) op" where
  "expire_in_decide x clk approval action =
     andthen (check_code x ''action_approval_expired'') (\<lambda>_.
     (let now = clk 0;
          action' = action\<lparr>ar_status := Action_EXPIRED, ar_error_code := Some ''action_approval_expired'',
                           ar_error_message := Some ''The action approval expired''\<rparr>
      in andthen (put_approval (approval\<lparr>aa_status := Approval_EXPIRED, aa_decided_at := Some now\<rparr>)) (\<lambda>_.
         andthen (put_action action') (\<lambda>_.
         andthen (action_event x (clk 1) action' ''action.approval_expired'' Actor_SYSTEM None
           [(''approval_id'', JStr (uuid_str (aa_id approval))),
            (''purpose'', JStr (action_approval_purpose_value (aa_purpose approval)))]) (\<lambda>_.
         raise (ConflictError ''action_approval_expired'' ''The action approval has expired'' []))))))"

definition decided_action ::
  "action_request_row \<Rightarrow> action_approval_purpose \<Rightarrow> bool \<Rightarrow> time \<Rightarrow> action_request_row" where
  "decided_action action purpose approve now =
     (if approve then
        action\<lparr>ar_status := decided_status purpose True,
               ar_deadline_at := Some (now + timedelta_seconds (ar_timeout_seconds action)),
               ar_error_code := None, ar_error_message := None\<rparr>
      else if purpose = Purpose_EXECUTE then
        action\<lparr>ar_status := decided_status purpose False, ar_completed_at := Some now,
               ar_error_code := Some ''action_rejected'',
               ar_error_message := Some ''The action request was rejected''\<rparr>
      else
        action\<lparr>ar_status := decided_status purpose False,
               ar_error_code := Some ''action_rollback_rejected'',
               ar_error_message := Some ''The rollback request was rejected''\<rparr>)"

definition decide_action ::
  "ext \<Rightarrow> clock \<Rightarrow> principal \<Rightarrow> uuid \<Rightarrow> bool \<Rightarrow> string \<Rightarrow> (db, action_approval_row) op" where
  "decide_action x clk p approval_id approve reason =
     andthen (require_permission p ''action.approve'') (\<lambda>_.
     andthen (reads (\<lambda>d. find (\<lambda>a. aa_id a = approval_id \<and> aa_organization_id a = p_organization_id p)
                          (t_action_approvals d))) (\<lambda>found.
     andthen (from_some (NotFoundError ''Action approval'' (uuid_str approval_id)) found) (\<lambda>approval.
     andthen (require (aa_status approval = Approval_PENDING)
        (ConflictError ''action_approval_already_decided'' ''The action approval is no longer pending''
          [(''status'', JStr (approval_status_value (aa_status approval)))])) (\<lambda>_.
     andthen (get_action p (aa_action_request_id approval) True) (\<lambda>action.
     (let now = clk 0
      in if aa_expires_at approval \<le> now then expire_in_decide x clk approval action
         else
           andthen (require (aa_requested_by approval \<noteq> p_id p) (AuthorizationError
             ''action_self_approval_denied'' ''The requester cannot approve their own action'' [])) (\<lambda>_.
           andthen (require (ar_plan_checksum_sha256 action = Some (aa_plan_checksum_sha256 approval))
             (ConflictError ''action_plan_changed''
               ''The approved action plan no longer matches the request'' [])) (\<lambda>_.
           (let approval' = approval\<lparr>aa_status := (if approve then Approval_APPROVED else Approval_REJECTED),
                  aa_decided_by := Some (p_id p), aa_decision_reason := Some (strip reason),
                  aa_decided_at := Some now\<rparr>;
                action' = decided_action action (aa_purpose approval) approve now
            in andthen (from_sum (validate_error_code x (ar_error_code action'))) (\<lambda>_.
               andthen (put_approval approval') (\<lambda>_.
               andthen (put_action action') (\<lambda>_.
               andthen (action_event x (clk 1) action' ''action.approval_decided'' Actor_USER (Some (p_id p))
                 [(''approval_id'', JStr (uuid_str (aa_id approval))),
                  (''purpose'', JStr (action_approval_purpose_value (aa_purpose approval))),
                  (''decision'', JStr (approval_status_value (aa_status approval'))),
                  (''reason'', JStr (strip reason))]) (\<lambda>_.
               andthen (action_audit (clk 2) action' p ''action.approval.decide''
                 (approval_status_value (aa_status approval'))
                 [(''approval_id'', JStr (uuid_str (aa_id approval))),
                  (''purpose'', JStr (action_approval_purpose_value (aa_purpose approval)))]) (\<lambda>_.
               ret approval'))))))))))))))"

text \<open>
  The endpoint of \<open>api/actions.py\<close>: the service call is inside \<open>session.begin()\<close>, and the
  handler for an expired approval runs after that block has rolled back, so its
  \<open>session.commit()\<close> has nothing to commit.
\<close>

definition decide_endpoint ::
  "ext \<Rightarrow> clock \<Rightarrow> principal \<Rightarrow> uuid \<Rightarrow> bool \<Rightarrow> string \<Rightarrow> (db, action_approval_row) op" where
  "decide_endpoint x clk p approval_id approve reason =
     attempt (transaction (decide_action x clk p approval_id approve reason))
       (\<lambda>e. if error_is ConflictC ''action_approval_expired'' e then andthen (ret ()) (\<lambda>_. raise e) else raise e)"

definition rollbackable :: "action_status \<Rightarrow> bool" where
  "rollbackable st \<longleftrightarrow>
     st \<in> {Action_COMPLETED, Action_FAILED, Action_ROLLBACK_FAILED, Action_ROLLBACK_REJECTED}"

definition request_rollback ::
  "ext \<Rightarrow> clock \<Rightarrow> principal \<Rightarrow> uuid \<Rightarrow> string \<Rightarrow> int \<Rightarrow> (db, action_request_row) op" where
  "request_rollback x clk p aid reason ttl =
     andthen (require_permission p ''action.rollback'') (\<lambda>_.
     andthen (get_action p aid True) (\<lambda>action.
     andthen (require (ar_owner_id action = p_id p \<or> can p ''action.rollback.all'')
        (AuthorizationError ''action_rollback_denied'' ''Only the action owner can request rollback'' [])) (\<lambda>_.
     andthen (require (rollbackable (ar_status action)) (ConflictError ''action_not_rollbackable''
        ''The action is not in a rollbackable state''
        [(''status'', JStr (action_status_value (ar_status action)))])) (\<lambda>_.
     andthen (create_approval x clk action Purpose_ROLLBACK reason ttl) (\<lambda>_.
     (let action' = action\<lparr>ar_status := Action_WAITING_ROLLBACK_APPROVAL, ar_completed_at := None,
                           ar_error_code := None, ar_error_message := None\<rparr>
      in andthen (put_action action') (\<lambda>_.
         andthen (action_event x (clk 3) action' ''action.rollback_requested'' Actor_USER (Some (p_id p)) []) (\<lambda>_.
         andthen (action_audit (clk 4) action' p ''action.rollback.request'' ''SUCCESS'' []) (\<lambda>_.
         ret action')))))))))"

definition cancellable :: "action_status \<Rightarrow> bool" where
  "cancellable st \<longleftrightarrow>
     st \<in> {Action_DRAFT, Action_PREFLIGHT_FAILED, Action_WAITING_APPROVAL, Action_APPROVED,
           Action_WAITING_ROLLBACK_APPROVAL, Action_ROLLBACK_APPROVED}"

definition cancel_pending :: "uuid \<Rightarrow> time \<Rightarrow> action_approval_row list \<Rightarrow> action_approval_row list" where
  "cancel_pending aid now =
     map (\<lambda>a. if aa_action_request_id a = aid \<and> aa_status a = Approval_PENDING
              then a\<lparr>aa_status := Approval_CANCELLED, aa_decided_at := Some now\<rparr> else a)"

definition cancel_action :: "ext \<Rightarrow> clock \<Rightarrow> principal \<Rightarrow> uuid \<Rightarrow> (db, action_request_row) op" where
  "cancel_action x clk p aid =
     andthen (get_action p aid True) (\<lambda>action.
     andthen (require (ar_owner_id action = p_id p \<or> can p ''action.cancel.all'')
        (AuthorizationError ''action_cancel_denied'' ''Only the action owner can cancel'' [])) (\<lambda>_.
     andthen (require (cancellable (ar_status action)) (ConflictError ''action_not_cancellable''
        ''The action can no longer be cancelled safely''
        [(''status'', JStr (action_status_value (ar_status action)))])) (\<lambda>_.
     (let now = clk 0;
          action' = action\<lparr>ar_status := Action_CANCELLED, ar_cancellation_requested_at := Some now,
                           ar_completed_at := Some now\<rparr>
      in andthen (put_action action') (\<lambda>_.
         andthen (modify (\<lambda>d. d\<lparr>t_action_approvals :=
            cancel_pending (ar_id action) now (t_action_approvals d)\<rparr>)) (\<lambda>_.
         andthen (action_event x (clk 1) action' ''action.cancelled'' Actor_USER (Some (p_id p)) []) (\<lambda>_.
         andthen (action_audit (clk 2) action' p ''action.cancel'' ''SUCCESS'' []) (\<lambda>_.
         ret action'))))))))"

section \<open>Notifications\<close>

definition deliver_notification ::
  "ext \<Rightarrow> clock \<Rightarrow> action_request_row \<Rightarrow> string \<Rightarrow> string \<Rightarrow> string \<Rightarrow> (db, notification_row) op" where
  "deliver_notification x clk action title body event =
     (let key = ''action:'' @ uuid_str (ar_id action) @ '':'' @ event
      in andthen (reads (\<lambda>d. find (\<lambda>n. nd_organization_id n = ar_organization_id action
                    \<and> nd_idempotency_key n = key) (t_notifications d))) (\<lambda>found.
         case found of
           Some existing \<Rightarrow> ret existing
         | None \<Rightarrow>
             andthen new_id (\<lambda>i.
             (let delivery = \<lparr>nd_id = i, nd_organization_id = ar_organization_id action,
                    nd_workspace_id = ar_workspace_id action, nd_execution_id = None,
                    nd_action_request_id = Some (ar_id action), nd_step_execution_id = None,
                    nd_recipient_id = ar_owner_id action, nd_title = title, nd_body = body,
                    nd_payload = [(''action_request_id'', JStr (uuid_str (ar_id action))),
                                  (''action_type'', JStr (action_type_value (ar_action_type action))),
                                  (''status'', JStr (action_status_value (ar_status action)))],
                    nd_status = Notification_DELIVERED, nd_idempotency_key = key,
                    nd_delivered_at = clk 0, nd_read_at = None, nd_created_at = clk 0\<rparr>
              in andthen (modify (\<lambda>d. d\<lparr>t_notifications := t_notifications d @ [delivery]\<rparr>)) (\<lambda>_.
                 andthen (action_event x (clk 1) action ''notification.delivered'' Actor_SYSTEM None
                   [(''notification_id'', JStr (uuid_str i)), (''event'', JStr event)]) (\<lambda>_.
                 ret delivery))))))"

section \<open>What the operations change\<close>

lemma action_event_frame:
  "action_event x now a n ty ac p d = (r, d') \<Longrightarrow> business d' = business d \<and> next_id d < next_id d'"
  unfolding action_event_def andthen_def
  by (auto dest: append_event_business split: prod.splits sum.splits)

lemma action_audit_frame:
  "action_audit now a p op oc m d = (r, d') \<Longrightarrow> business d' = business d \<and> next_id d < next_id d'"
  unfolding action_audit_def andthen_def
  by (auto dest: write_audit_business split: prod.splits sum.splits)

text \<open>The tables the service and the worker own.\<close>

definition governed ::
  "db \<Rightarrow> action_request_row list \<times> action_approval_row list \<times> action_plan_row list
     \<times> action_attempt_row list \<times> notification_row list" where
  "governed d = (t_actions d, t_action_approvals d, t_plans d, t_attempts d, t_notifications d)"

lemma business_governed: "business d' = business d \<Longrightarrow> governed d' = governed d"
  using business_tables [of d' d] by (simp add: governed_def)

lemma returns_action_event:
  "(\<And>d'. governed d' = governed d \<Longrightarrow> next_id d < next_id d' \<Longrightarrow> Q () d')
     \<Longrightarrow> returns (action_event x now a n ty ac p) Q d"
  by (auto simp: returns_def dest!: action_event_frame business_governed)

lemma returns_action_audit:
  "(\<And>d'. governed d' = governed d \<Longrightarrow> next_id d < next_id d' \<Longrightarrow> Q () d')
     \<Longrightarrow> returns (action_audit now a p op oc m) Q d"
  by (auto simp: returns_def dest!: action_audit_frame business_governed)

lemma returns_require_permission: "(can p perm \<Longrightarrow> Q () d) \<Longrightarrow> returns (require_permission p perm) Q d"
  by (simp add: require_permission_def returns_require)

lemma returns_check_code:
  "(c \<in> set (ext_error_codes x) \<Longrightarrow> Q () d) \<Longrightarrow> returns (check_code x c) Q d"
  by (auto simp: returns_def check_code_def)

lemma returns_put_action:
  "Q () (d\<lparr>t_actions := replace_row ar_id a (t_actions d)\<rparr>) \<Longrightarrow> returns (put_action a) Q d"
  by (simp add: put_action_def returns_modify)

lemma returns_put_approval:
  "Q () (d\<lparr>t_action_approvals := replace_row aa_id a (t_action_approvals d)\<rparr>)
     \<Longrightarrow> returns (put_approval a) Q d"
  by (simp add: put_approval_def returns_modify)

lemma returns_load_principal_by_id:
  "(\<And>o'. load_principal_by_id org uid d = (Inr o', d) \<Longrightarrow> Q o' d)
     \<Longrightarrow> returns (load_principal_by_id org uid) Q d"
  by (rule returns_reading [OF load_principal_by_id_state])

lemmas service_intros = returns_intros returns_action_event returns_action_audit returns_new_id
  returns_require_permission returns_check_code returns_put_action returns_put_approval
  returns_workspace_access returns_load_principal_by_id

lemma returns_get_action:
  "(\<And>a ws. a \<in> set (t_actions d) \<Longrightarrow> ar_id a = aid \<Longrightarrow> ar_organization_id a = p_organization_id p
      \<Longrightarrow> ws_id ws = ar_workspace_id a \<Longrightarrow> workspace_access_clause p w d ws \<Longrightarrow> Q a d)
     \<Longrightarrow> returns (get_action p aid w) Q d"
  unfolding get_action_def by (intro service_intros) (auto dest!: find_SomeD)

lemma create_action_effect:
  "returns (create_action x clk p wid r) (\<lambda>a d'.
     (d' = d \<and> find (\<lambda>a. ar_organization_id a = p_organization_id p
                    \<and> ar_idempotency_key a = car_idempotency_key r) (t_actions d) = Some a)
     \<or> (\<exists>owner. a = new_action_row (next_id d) p wid r owner (clk 0)
          \<and> governed d' = (t_actions d @ [a], t_action_approvals d, t_plans d, t_attempts d, t_notifications d)
          \<and> next_id d < next_id d'
          \<and> deny_secret_fields ''payload'' (JObj (car_target r)) = Inr ()
          \<and> deny_secret_fields ''payload'' (JObj (car_parameters r)) = Inr ()
          \<and> deny_secret_fields ''payload'' (JObj (car_rollback_parameters r)) = Inr ())) d"
  unfolding create_action_def Let_def
  by (intro service_intros) (auto simp: governed_def)

lemma create_approval_effect:
  "returns (create_approval x clk action purpose reason ttl) (\<lambda>a d'.
     ar_plan_checksum_sha256 action = Some (aa_plan_checksum_sha256 a)
     \<and> aa_id a = next_id d \<and> aa_organization_id a = ar_organization_id action
     \<and> aa_action_request_id a = ar_id action \<and> aa_purpose a = purpose
     \<and> aa_revision a = latest_revision (ar_id action) purpose d + 1
     \<and> aa_status a = Approval_PENDING \<and> aa_requested_by a = ar_requested_by action
     \<and> aa_decided_by a = None \<and> next_id d < next_id d'
     \<and> governed d' = (t_actions d, t_action_approvals d @ [a], t_plans d, t_attempts d, t_notifications d)) d"
  unfolding create_approval_def Let_def
  by (intro service_intros) (auto simp: governed_def latest_revision_def)


text \<open>The columns of a request that no operation writes after it is created.\<close>

definition request_part :: "action_request_row \<Rightarrow> action_request_row" where
  "request_part a = a\<lparr>ar_status := Action_DRAFT, ar_deadline_at := None, ar_plan_checksum_sha256 := None,
     ar_preflight := [], ar_result := [], ar_started_at := None, ar_completed_at := None,
     ar_cancellation_requested_at := None, ar_lease_owner := None, ar_lease_expires_at := None,
     ar_error_code := None, ar_error_message := None\<rparr>"

lemma request_part_fields:
  assumes "request_part a' = request_part a"
  shows "ar_id a' = ar_id a" "ar_organization_id a' = ar_organization_id a"
    "ar_requested_by a' = ar_requested_by a" "ar_owner_id a' = ar_owner_id a"
    "ar_workspace_id a' = ar_workspace_id a" "ar_idempotency_key a' = ar_idempotency_key a"
  using assms by (cases a; cases a'; simp add: request_part_def)+

lemma preflight_checks_state: "snd (preflight_checks x action d) = d"
proof -
  have "keeps (\<lambda>d. d) (load_principal_by_id org uid)" for org uid
    by (simp add: keeps_def load_principal_by_id_state)
  moreover have "keeps (\<lambda>d. d) (require_workspace_access q wid w)" for q wid w
    by (simp add: keeps_def require_workspace_access_state)
  moreover have "keeps (\<lambda>d. d) (gateway_preflight x q n en t)" for q n en t
    by (simp add: keeps_def gateway_preflight_state)
  ultimately have "keeps (\<lambda>d. d) (preflight_checks x action)"
    unfolding preflight_checks_def require_owner_def Let_def
    by (intro keeps_intros) auto
  then show ?thesis by (simp add: keeps_def)
qed

lemma preflight_failed_effect:
  "returns (preflight_failed x clk p action e) (\<lambda>a d'.
     request_part a = request_part action \<and> ar_status a = Action_PREFLIGHT_FAILED
     \<and> ar_plan_checksum_sha256 a = ar_plan_checksum_sha256 action \<and> next_id d < next_id d'
     \<and> governed d' = (replace_row ar_id a (t_actions d), t_action_approvals d, t_plans d, t_attempts d,
                      t_notifications d)) d"
  unfolding preflight_failed_def Let_def
  by (intro service_intros) (auto simp: governed_def request_part_def)

definition opens_approval ::
  "db \<Rightarrow> action_request_row \<Rightarrow> action_approval_purpose \<Rightarrow> action_approval_row \<Rightarrow> bool" where
  "opens_approval d action purpose a \<longleftrightarrow>
     ar_plan_checksum_sha256 action = Some (aa_plan_checksum_sha256 a)
     \<and> next_id d \<le> aa_id a \<and> aa_organization_id a = ar_organization_id action
     \<and> aa_action_request_id a = ar_id action \<and> aa_purpose a = purpose
     \<and> aa_revision a = latest_revision (ar_id action) purpose d + 1
     \<and> aa_status a = Approval_PENDING \<and> aa_requested_by a = ar_requested_by action
     \<and> aa_decided_by a = None"

lemma returns_create_approval:
  "(\<And>a d'. opens_approval d action purpose a \<Longrightarrow> next_id d \<le> aa_id a \<Longrightarrow> aa_id a < next_id d'
     \<Longrightarrow> governed d' = (t_actions d, t_action_approvals d @ [a], t_plans d, t_attempts d, t_notifications d)
     \<Longrightarrow> Q a d') \<Longrightarrow> returns (create_approval x clk action purpose reason ttl) Q d"
  using create_approval_effect [of x clk action purpose reason ttl d]
  by (auto simp: returns_def opens_approval_def)

lemma seal_plan_effect:
  "returns (seal_plan x clk p action reason ttl (execute, rollback, spec, checksum)) (\<lambda>a d'.
     request_part a = request_part action \<and> ar_status a = Action_WAITING_APPROVAL
     \<and> ar_plan_checksum_sha256 a = Some checksum
     \<and> (\<exists>plan ap. pl_action_request_id plan = ar_id action \<and> pl_organization_id plan = ar_organization_id action
          \<and> pl_spec plan = spec \<and> pl_checksum_sha256 plan = checksum
          \<and> opens_approval d a Purpose_EXECUTE ap \<and> aa_id ap < next_id d'
          \<and> governed d' = (replace_row ar_id a (t_actions d), t_action_approvals d @ [ap], t_plans d @ [plan],
                           t_attempts d, t_notifications d))) d"
  unfolding seal_plan_def Let_def prod.case
  by (intro service_intros returns_create_approval)
    (force simp: governed_def request_part_def opens_approval_def latest_revision_def)


text \<open>What a preflight that returns did: it recorded a failure, or sealed the plan once.\<close>

definition preflight_failure :: "db \<Rightarrow> action_request_row \<Rightarrow> action_request_row \<Rightarrow> db \<Rightarrow> bool" where
  "preflight_failure d action a d' \<longleftrightarrow>
     ar_status a = Action_PREFLIGHT_FAILED \<and> ar_plan_checksum_sha256 a = ar_plan_checksum_sha256 action
     \<and> next_id d < next_id d'
     \<and> governed d' = (replace_row ar_id a (t_actions d), t_action_approvals d, t_plans d, t_attempts d,
                      t_notifications d)"

definition plan_sealed :: "ext \<Rightarrow> db \<Rightarrow> action_request_row \<Rightarrow> action_request_row \<Rightarrow> db \<Rightarrow> bool" where
  "plan_sealed x d action a d' \<longleftrightarrow>
     ar_status a = Action_WAITING_APPROVAL
     \<and> (\<forall>pl \<in> set (t_plans d). pl_action_request_id pl \<noteq> ar_id action)
     \<and> (\<exists>plan ap execute rollback.
          pl_action_request_id plan = ar_id action \<and> pl_organization_id plan = ar_organization_id action
          \<and> pl_spec plan = plan_spec_of action execute rollback
          \<and> pl_checksum_sha256 plan = action_plan_checksum x (pl_spec plan)
          \<and> ar_plan_checksum_sha256 a = Some (pl_checksum_sha256 plan)
          \<and> opens_approval d a Purpose_EXECUTE ap \<and> aa_id ap < next_id d'
          \<and> governed d' = (replace_row ar_id a (t_actions d), t_action_approvals d @ [ap], t_plans d @ [plan],
                           t_attempts d, t_notifications d))"

lemma returns_preflight_failed:
  "(\<And>a d'. request_part a = request_part action \<Longrightarrow> preflight_failure d action a d' \<Longrightarrow> Q a d')
     \<Longrightarrow> returns (preflight_failed x clk p action e) Q d"
  using preflight_failed_effect [of x clk p action e d]
  by (auto simp: returns_def preflight_failure_def)

lemma returns_seal_plan:
  assumes "\<forall>pl \<in> set (t_plans d). pl_action_request_id pl \<noteq> ar_id action"
    and "checked = (execute, rollback, plan_spec_of action execute rollback,
           action_plan_checksum x (plan_spec_of action execute rollback))"
    and "\<And>a d'. request_part a = request_part action \<Longrightarrow> plan_sealed x d action a d' \<Longrightarrow> Q a d'"
  shows "returns (seal_plan x clk p action reason ttl checked) Q d"
  unfolding assms(2)
proof (rule returns_conseq [OF seal_plan_effect], rule assms(3), blast, elim conjE exE)
  fix a d' plan ap
  let ?spec = "plan_spec_of action execute rollback"
  assume "ar_status a = Action_WAITING_APPROVAL"
    and "ar_plan_checksum_sha256 a = Some (action_plan_checksum x ?spec)"
    and "pl_action_request_id plan = ar_id action" and "pl_organization_id plan = ar_organization_id action"
    and "pl_spec plan = ?spec" and "pl_checksum_sha256 plan = action_plan_checksum x ?spec"
    and "opens_approval d a Purpose_EXECUTE ap" and "aa_id ap < next_id d'"
    and "governed d' = (replace_row ar_id a (t_actions d), t_action_approvals d @ [ap], t_plans d @ [plan],
           t_attempts d, t_notifications d)"
  with assms(1) show "plan_sealed x d action a d'"
    unfolding plan_sealed_def
    by (intro conjI exI [of _ plan] exI [of _ ap] exI [of _ execute] exI [of _ rollback]) simp_all
qed

lemma preflight_checks_result:
  "returns (preflight_checks x action) (\<lambda>r _. \<exists>execute rollback.
     r = (execute, rollback, plan_spec_of action execute rollback,
          action_plan_checksum x (plan_spec_of action execute rollback))) d"
  unfolding preflight_checks_def Let_def require_owner_def gateway_preflight_def
  by (intro service_intros) (auto simp: returns_def)

lemma preflight_action_effect:
  "returns (preflight_action x clk p aid reason ttl) (\<lambda>a d'. \<exists>action \<in> set (t_actions d).
     ar_id action = aid \<and> ar_organization_id action = p_organization_id p
     \<and> ar_status action \<in> {Action_DRAFT, Action_PREFLIGHT_FAILED}
     \<and> request_part a = request_part action
     \<and> (preflight_failure d action a d' \<or> plan_sealed x d action a d')) d"
  unfolding preflight_action_def
proof (intro service_intros returns_get_action, goal_cases)
  case (2 action ws outcome d1 checked)
  then have checked: "fst (preflight_checks x action d) = Inr checked"
    using preflight_checks_state [of x action d] by auto
  have c: "preflight_checks x action d = (Inr checked, d)"
    using checked preflight_checks_state [of x action d] by (metis prod.collapse)
  obtain execute rollback where "checked = (execute, rollback, plan_spec_of action execute rollback,
          action_plan_checksum x (plan_spec_of action execute rollback))"
    using returnsD [OF preflight_checks_result c] by blast
  with 2 show ?case
    by (intro returns_seal_plan) (auto dest: find_NoneD)
next
  case (1 action ws outcome d1 e)
  then show ?case by (intro returns_preflight_failed) blast
qed


text \<open>What a decision that returns did.\<close>

definition approval_decided ::
  "db \<Rightarrow> principal \<Rightarrow> bool \<Rightarrow> time \<Rightarrow> action_approval_row \<Rightarrow> action_request_row \<Rightarrow> action_approval_row \<Rightarrow> db \<Rightarrow> bool"
where
  "approval_decided d p approve now approval action a d' \<longleftrightarrow>
     aa_status approval = Approval_PENDING \<and> now < aa_expires_at approval
     \<and> aa_requested_by approval \<noteq> p_id p
     \<and> ar_plan_checksum_sha256 action = Some (aa_plan_checksum_sha256 approval)
     \<and> (\<exists>reason. a = approval\<lparr>aa_status := (if approve then Approval_APPROVED else Approval_REJECTED),
           aa_decided_by := Some (p_id p), aa_decision_reason := Some reason, aa_decided_at := Some now\<rparr>)
     \<and> next_id d < next_id d'
     \<and> governed d' =
         (replace_row ar_id (decided_action action (aa_purpose approval) approve now) (t_actions d),
          replace_row aa_id a (t_action_approvals d), t_plans d, t_attempts d, t_notifications d)"

lemma decide_action_effect:
  "returns (decide_action x clk p i approve reason) (\<lambda>a d'.
     \<exists>approval \<in> set (t_action_approvals d). \<exists>action \<in> set (t_actions d).
       can p ''action.approve'' \<and> aa_id approval = i \<and> aa_organization_id approval = p_organization_id p
       \<and> ar_id action = aa_action_request_id approval \<and> ar_organization_id action = p_organization_id p
       \<and> approval_decided d p approve (clk 0) approval action a d') d"
proof -
  have "returns (expire_in_decide x clk' approval action) Q d'" for clk' approval action Q and d' :: db
    unfolding expire_in_decide_def Let_def by (intro service_intros)
  then show ?thesis
    unfolding decide_action_def Let_def
    by (intro service_intros returns_get_action)
      (fastforce simp: approval_decided_def governed_def dest!: find_SomeD)+
qed

lemma request_rollback_effect:
  "returns (request_rollback x clk p aid reason ttl) (\<lambda>a d'.
     \<exists>action \<in> set (t_actions d). \<exists>ap. ar_id action = aid \<and> ar_organization_id action = p_organization_id p
       \<and> rollbackable (ar_status action) \<and> request_part a = request_part action
       \<and> ar_status a = Action_WAITING_ROLLBACK_APPROVAL
       \<and> ar_plan_checksum_sha256 a = ar_plan_checksum_sha256 action
       \<and> opens_approval d action Purpose_ROLLBACK ap \<and> aa_id ap < next_id d'
       \<and> governed d' = (replace_row ar_id a (t_actions d), t_action_approvals d @ [ap], t_plans d,
                        t_attempts d, t_notifications d)) d"
  unfolding request_rollback_def Let_def
  by (intro service_intros returns_get_action returns_create_approval)
    (fastforce simp: governed_def request_part_def)+

lemma cancel_action_effect:
  "returns (cancel_action x clk p aid) (\<lambda>a d'.
     \<exists>action \<in> set (t_actions d). ar_id action = aid \<and> ar_organization_id action = p_organization_id p
       \<and> cancellable (ar_status action) \<and> request_part a = request_part action
       \<and> ar_status a = Action_CANCELLED \<and> ar_plan_checksum_sha256 a = ar_plan_checksum_sha256 action
       \<and> next_id d < next_id d'
       \<and> governed d' = (replace_row ar_id a (t_actions d), cancel_pending aid (clk 0) (t_action_approvals d),
                        t_plans d, t_attempts d, t_notifications d)) d"
  unfolding cancel_action_def Let_def
  by (intro service_intros returns_get_action) (fastforce simp: governed_def request_part_def)+

lemma deliver_notification_effect:
  "returns (deliver_notification x clk action title body event) (\<lambda>n d'.
     next_id d \<le> next_id d' \<and> nd_idempotency_key n = ''action:'' @ uuid_str (ar_id action) @ '':'' @ event
     \<and> (d' = d \<and> n \<in> set (t_notifications d)
        \<or> governed d' = (t_actions d, t_action_approvals d, t_plans d, t_attempts d, t_notifications d @ [n])
          \<and> (\<forall>m \<in> set (t_notifications d). nd_organization_id m = nd_organization_id n
               \<longrightarrow> nd_idempotency_key m \<noteq> nd_idempotency_key n))) d"
  unfolding deliver_notification_def Let_def
  by (intro service_intros) (fastforce simp: governed_def dest: find_SomeD find_NoneD)+

end
