(* ===== verification/ActionWorker.thy ===== *)
theory ActionWorker
  imports ActionService
begin

text \<open>
  \<open>actions/worker.py\<close>: the worker that expires approvals, claims approved actions under a
  lease and executes them through the gateway. Each database transaction of the source is one
  operation: \<open>claim\<close>, \<open>invoke_action\<close> (which may post to the provider while it is open) and
  \<open>fail_after_exception\<close>. \<open>busy\<close> are the rows that other transactions hold locked, which
  \<open>FOR UPDATE SKIP LOCKED\<close> passes over. The notification texts are given by their code points.
\<close>

section \<open>Texts\<close>

text \<open>UTF-8 for the code points from U+0800 to U+FFFF, which is where the texts are.\<close>

definition utf8 :: "nat list \<Rightarrow> string" where
  "utf8 cps = concat (map (\<lambda>c. map char_of [224 + c div 4096, 128 + c div 64 mod 64, 128 + c mod 64]) cps)"

definition completed_title :: "action_approval_purpose \<Rightarrow> string \<Rightarrow> string" where
  "completed_title purpose title =
     title @ '' '' @ utf8 (if purpose = Purpose_EXECUTE then [0x5DF2, 0x6267, 0x884C]
                          else [0x5DF2, 0x56DE, 0x6EDA])"

definition completed_body :: "action_approval_purpose \<Rightarrow> string" where
  "completed_body purpose =
     (if purpose = Purpose_EXECUTE
      then utf8 [0x53D7, 0x63A7, 0x52A8, 0x4F5C, 0x5DF2, 0x5B8C, 0x6210, 0xFF0C, 0x53EF, 0x5728, 0x52A8,
                 0x4F5C, 0x8BE6, 0x60C5, 0x4E2D, 0x67E5, 0x770B, 0x6267, 0x884C, 0x8BB0, 0x5F55, 0x5E76,
                 0x6309, 0x9700, 0x7533, 0x8BF7, 0x56DE, 0x6EDA, 0x3002]
      else utf8 [0x8865, 0x507F, 0x52A8, 0x4F5C, 0x5DF2, 0x5B8C, 0x6210, 0xFF0C, 0x539F, 0x53D8, 0x66F4,
                 0x5DF2, 0x6309, 0x5C01, 0x5B58, 0x7684, 0x56DE, 0x6EDA, 0x8BA1, 0x5212, 0x5904, 0x7406,
                 0x3002])"

definition failed_title :: "bool \<Rightarrow> string \<Rightarrow> string" where
  "failed_title rolling_back title =
     title @ '' '' @ utf8 (if rolling_back then [0x56DE, 0x6EDA, 0x5931, 0x8D25]
                          else [0x6267, 0x884C, 0x5931, 0x8D25])"

definition failed_body :: string where
  "failed_body =
     utf8 [0x53D7, 0x63A7, 0x52A8, 0x4F5C, 0x672A, 0x80FD, 0x5B8C, 0x6210, 0xFF0C, 0x8BF7, 0x68C0,
           0x67E5, 0x52A8, 0x4F5C, 0x8BE6, 0x60C5, 0x3001, 0x8FDE, 0x63A5, 0x5668, 0x72B6, 0x6001,
           0x548C, 0x6743, 0x9650, 0x3002]"

section \<open>Expiring and claiming\<close>

definition worker_event ::
  "ext \<Rightarrow> time \<Rightarrow> action_request_row \<Rightarrow> string \<Rightarrow> jobj \<Rightarrow> (db, unit) op" where
  "worker_event x now action name payload = action_event x now action name Actor_SYSTEM None payload"

definition claimable :: "action_status \<Rightarrow> bool" where
  "claimable st \<longleftrightarrow>
     st \<in> {Action_APPROVED, Action_EXECUTING, Action_ROLLBACK_APPROVED, Action_ROLLING_BACK}"

definition expired_action :: "action_request_row \<Rightarrow> action_approval_purpose \<Rightarrow> time \<Rightarrow> action_request_row" where
  "expired_action action purpose now =
     (if purpose = Purpose_EXECUTE
      then action\<lparr>ar_status := Action_EXPIRED, ar_completed_at := Some now,
                  ar_error_code := Some ''action_approval_expired'',
                  ar_error_message := Some ''The action approval expired''\<rparr>
      else action\<lparr>ar_status := Action_ROLLBACK_REJECTED,
                  ar_error_code := Some ''action_approval_expired'',
                  ar_error_message := Some ''The action approval expired''\<rparr>)"

definition expire_one_approval :: "ext \<Rightarrow> clock \<Rightarrow> uuid list \<Rightarrow> (db, unit) op" where
  "expire_one_approval x clk busy =
     (let now = clk 0
      in andthen (reads (\<lambda>d. first_by aa_expires_at (filter (\<lambda>a. aa_status a = Approval_PENDING
              \<and> aa_expires_at a \<le> now \<and> aa_id a \<notin> set busy) (t_action_approvals d)))) (\<lambda>found.
         case found of
           None \<Rightarrow> ret ()
         | Some approval \<Rightarrow>
             andthen (reads (\<lambda>d. find (\<lambda>a. ar_id a = aa_action_request_id approval) (t_actions d))) (\<lambda>action.
             andthen (put_approval (approval\<lparr>aa_status := Approval_EXPIRED, aa_decided_at := Some now\<rparr>)) (\<lambda>_.
             case action of
               None \<Rightarrow> ret ()
             | Some action \<Rightarrow>
                 andthen (check_code x ''action_approval_expired'') (\<lambda>_.
                 andthen (put_action (expired_action action (aa_purpose approval) now)) (\<lambda>_.
                 worker_event x (clk 1) (expired_action action (aa_purpose approval) now)
                   ''action.approval_expired''
                   [(''approval_id'', JStr (uuid_str (aa_id approval))),
                    (''purpose'', JStr (action_approval_purpose_value (aa_purpose approval)))]))))))"

definition claim_purpose :: "action_status \<Rightarrow> action_approval_purpose" where
  "claim_purpose st = (if st \<in> {Action_APPROVED, Action_EXECUTING} then Purpose_EXECUTE else Purpose_ROLLBACK)"

definition running_status :: "action_approval_purpose \<Rightarrow> action_status" where
  "running_status purpose = (if purpose = Purpose_EXECUTE then Action_EXECUTING else Action_ROLLING_BACK)"

definition lease_free :: "time \<Rightarrow> action_request_row \<Rightarrow> bool" where
  "lease_free now a \<longleftrightarrow> (case ar_lease_expires_at a of None \<Rightarrow> True | Some t \<Rightarrow> t < now)"

definition next_claim :: "time \<Rightarrow> uuid list \<Rightarrow> db \<Rightarrow> action_request_row option" where
  "next_claim now busy d =
     first_by ar_created_at (filter (\<lambda>a. claimable (ar_status a) \<and> ar_cancellation_requested_at a = None
       \<and> lease_free now a \<and> ar_id a \<notin> set busy) (t_actions d))"

definition claimed_action :: "env \<Rightarrow> time \<Rightarrow> action_request_row \<Rightarrow> action_request_row" where
  "claimed_action e now action =
     action\<lparr>ar_status := running_status (claim_purpose (ar_status action)),
            ar_started_at := (case ar_started_at action of Some t \<Rightarrow> Some t | None \<Rightarrow> Some now),
            ar_lease_owner := Some (e_worker_id e),
            ar_lease_expires_at := Some (now + timedelta_seconds (e_lease_seconds e))\<rparr>"

definition claim :: "env \<Rightarrow> clock \<Rightarrow> uuid list \<Rightarrow> (db, uuid option) op" where
  "claim e clk busy =
     (let now = clk 0
      in transaction (
         andthen (expire_one_approval (e_ext e) (later 1 clk) busy) (\<lambda>_.
         andthen (reads (next_claim now busy)) (\<lambda>found.
         case found of
           None \<Rightarrow> ret None
         | Some action \<Rightarrow>
             andthen (put_action (claimed_action e now action)) (\<lambda>_.
             andthen (worker_event (e_ext e) (clk 3) (claimed_action e now action) ''action.claimed''
               [(''purpose'', JStr (action_approval_purpose_value (claim_purpose (ar_status action)))),
                (''worker'', JStr (e_worker_id e))]) (\<lambda>_.
             ret (Some (ar_id action))))))))"

section \<open>Completing and failing\<close>

definition completed_action ::
  "action_request_row \<Rightarrow> action_approval_purpose \<Rightarrow> jobj \<Rightarrow> time \<Rightarrow> action_request_row" where
  "completed_action action purpose output now =
     action\<lparr>ar_status := (if purpose = Purpose_EXECUTE then Action_COMPLETED else Action_ROLLED_BACK),
            ar_result := (if purpose = Purpose_EXECUTE then [(''execute'', JObj output)]
                          else obj_put ''rollback'' (JObj output) (ar_result action)),
            ar_completed_at := Some now, ar_lease_owner := None, ar_lease_expires_at := None,
            ar_error_code := None, ar_error_message := None\<rparr>"

definition complete_action ::
  "ext \<Rightarrow> clock \<Rightarrow> action_request_row \<Rightarrow> action_approval_purpose \<Rightarrow> jobj \<Rightarrow> (db, unit) op" where
  "complete_action x clk action purpose output =
     (let action' = completed_action action purpose output (clk 0)
      in andthen (put_action action') (\<lambda>_.
         andthen (worker_event x (clk 1) action'
           (if purpose = Purpose_EXECUTE then ''action.completed'' else ''action.rolled_back'')
           [(''purpose'', JStr (action_approval_purpose_value purpose))]) (\<lambda>_.
         andthen (deliver_notification x (later 2 clk) action' (completed_title purpose (ar_title action))
           (completed_body purpose)
           (if purpose = Purpose_EXECUTE then ''completed'' else ''rolled-back'')) (\<lambda>_.
         ret ()))))"

definition failed_action :: "action_request_row \<Rightarrow> string \<Rightarrow> string \<Rightarrow> time \<Rightarrow> action_request_row" where
  "failed_action action code msg now =
     action\<lparr>ar_status := (if ar_status action = Action_ROLLING_BACK then Action_ROLLBACK_FAILED else Action_FAILED),
            ar_completed_at := Some now, ar_lease_owner := None, ar_lease_expires_at := None,
            ar_error_code := Some code, ar_error_message := Some msg\<rparr>"

definition fail_action ::
  "ext \<Rightarrow> clock \<Rightarrow> action_request_row \<Rightarrow> string \<Rightarrow> string \<Rightarrow> (db, unit) op" where
  "fail_action x clk action code msg =
     (let rolling_back = (ar_status action = Action_ROLLING_BACK);
          action' = failed_action action code msg (clk 0)
      in andthen (check_code x code) (\<lambda>_.
         andthen (put_action action') (\<lambda>_.
         andthen (worker_event x (clk 1) action'
           (if rolling_back then ''action.rollback_failed'' else ''action.failed'')
           [(''error_code'', JStr code)]) (\<lambda>_.
         andthen (deliver_notification x (later 2 clk) action' (failed_title rolling_back (ar_title action))
           failed_body (if rolling_back then ''rollback-failed'' else ''failed'')) (\<lambda>_.
         ret ())))))"

section \<open>Executing\<close>

text \<open>
  What the checks before the provider call establish: the owner, the sealed plan, the latest
  matching approval, the pinned references and the provider payload.
\<close>

record execution =
  ex_principal :: principal
  ex_plan :: action_plan_row
  ex_purpose :: action_approval_purpose
  ex_approval :: action_approval_row
  ex_capability_version_id :: uuid
  ex_connector_id :: uuid
  ex_payload :: jobj

definition plan_invalid :: "string \<Rightarrow> err" where
  "plan_invalid msg = ValidationError ''action_plan_invalid'' msg []"

definition executable_plan :: "action_request_row \<Rightarrow> db \<Rightarrow> action_plan_row option" where
  "executable_plan action d =
     (case find (\<lambda>pl. pl_organization_id pl = ar_organization_id action
                   \<and> pl_action_request_id pl = ar_id action) (t_plans d) of
        None \<Rightarrow> None
      | Some plan \<Rightarrow> if ar_plan_checksum_sha256 action = Some (pl_checksum_sha256 plan) then Some plan else None)"

definition executable_approval ::
  "action_request_row \<Rightarrow> action_approval_purpose \<Rightarrow> action_plan_row \<Rightarrow> db \<Rightarrow> action_approval_row option" where
  "executable_approval action purpose plan d =
     first_by (\<lambda>a. - aa_revision a) (filter (\<lambda>a. aa_organization_id a = ar_organization_id action
       \<and> aa_action_request_id a = ar_id action \<and> aa_purpose a = purpose \<and> aa_status a = Approval_APPROVED
       \<and> aa_plan_checksum_sha256 a = pl_checksum_sha256 plan) (t_action_approvals d))"

definition reference_id :: "jobj \<Rightarrow> string \<Rightarrow> uuid option" where
  "reference_id ref key = (case map_of ref key of None \<Rightarrow> None | Some v \<Rightarrow> parse_uuid (py_str v))"

definition plan_references :: "action_plan_row \<Rightarrow> action_approval_purpose \<Rightarrow> err + uuid \<times> uuid" where
  "plan_references plan purpose =
     (let invalid = plan_invalid ''The action plan capability reference is invalid''
      in case map_of (pl_spec plan) (if purpose = Purpose_EXECUTE then ''execute'' else ''rollback'') of
           Some (JObj ref) \<Rightarrow>
             (case (reference_id ref ''capability_version_id'', reference_id ref ''connector_id'') of
                (Some c, Some k) \<Rightarrow> Inr (c, k)
              | _ \<Rightarrow> Inl invalid)
         | _ \<Rightarrow> Inl invalid)"

definition execution_payload ::
  "action_request_row \<Rightarrow> action_plan_row \<Rightarrow> action_approval_purpose \<Rightarrow> err + jobj" where
  "execution_payload action plan purpose =
     (let key = (if purpose = Purpose_EXECUTE then ''parameters'' else ''rollback_parameters'')
      in case map_of (pl_spec plan) key of
           None \<Rightarrow> Inl (PyError ''KeyError'' key)
         | Some parameters \<Rightarrow>
             Inr (action_provider_payload action (pl_checksum_sha256 plan) purpose parameters
                   (if purpose = Purpose_ROLLBACK
                    then Some (case map_of (ar_result action) ''execute'' of Some v \<Rightarrow> v | None \<Rightarrow> JObj [])
                    else None)))"

definition load_execution :: "time \<Rightarrow> action_request_row \<Rightarrow> (db, execution) op" where
  "load_execution now action =
     andthen (load_principal_by_id (ar_organization_id action) (ar_owner_id action)) (\<lambda>principal.
     andthen (require (can principal ''action.execute'') (ValidationError ''action_owner_permission_missing''
        ''The action owner no longer has execution permission'' [])) (\<lambda>_.
     andthen (require_workspace_access principal (ar_workspace_id action) True) (\<lambda>_.
     andthen (reads (executable_plan action)) (\<lambda>found.
     andthen (from_some (plan_invalid ''The immutable action plan is missing or mismatched'') found) (\<lambda>plan.
     (let purpose = (if ar_status action = Action_EXECUTING then Purpose_EXECUTE else Purpose_ROLLBACK)
      in andthen (reads (executable_approval action purpose plan)) (\<lambda>found.
         andthen (from_some (ValidationError ''action_approval_invalid''
            ''No valid approval exists for this action plan'' []) found) (\<lambda>approval.
         andthen (require (now < aa_expires_at approval) (ValidationError ''action_approval_invalid''
            ''No valid approval exists for this action plan'' [])) (\<lambda>_.
         andthen (from_sum (plan_references plan purpose)) (\<lambda>(capability_version_id, connector_id).
         andthen (from_sum (execution_payload action plan purpose)) (\<lambda>payload.
         ret \<lparr>ex_principal = principal, ex_plan = plan, ex_purpose = purpose, ex_approval = approval,
              ex_capability_version_id = capability_version_id, ex_connector_id = connector_id,
              ex_payload = payload\<rparr>)))))))))))"

definition attempt_key :: "uuid \<Rightarrow> action_approval_purpose \<Rightarrow> string" where
  "attempt_key aid purpose =
     ''action:'' @ uuid_str aid @ '':'' @ casefold (action_approval_purpose_value purpose) @ '':1''"

definition new_attempt :: "uuid \<Rightarrow> action_request_row \<Rightarrow> execution \<Rightarrow> time \<Rightarrow> action_attempt_row" where
  "new_attempt i action ex now =
     \<lparr>at_id = i, at_organization_id = ar_organization_id action, at_action_request_id = ar_id action,
      at_purpose = ex_purpose ex, at_ordinal = 1, at_status = Attempt_PENDING,
      at_capability_version_id = ex_capability_version_id ex, at_connector_id = ex_connector_id ex,
      at_approval_id = aa_id (ex_approval ex), at_policy_decision_id = None,
      at_idempotency_key = attempt_key (ar_id action) (ex_purpose ex), at_input_payload = ex_payload ex,
      at_output = [], at_started_at = None, at_completed_at = None, at_error_code = None,
      at_error_message = None, at_created_at = now\<rparr>"

text \<open>The one attempt of the action and purpose: created, or recovered if it matches the plan.\<close>

definition is_attempt_of :: "action_request_row \<Rightarrow> action_approval_purpose \<Rightarrow> action_attempt_row \<Rightarrow> bool" where
  "is_attempt_of action purpose a \<longleftrightarrow>
     at_organization_id a = ar_organization_id action \<and> at_action_request_id a = ar_id action
     \<and> at_purpose a = purpose \<and> at_ordinal a = 1"

definition obtain_attempt ::
  "time \<Rightarrow> action_request_row \<Rightarrow> execution \<Rightarrow> (db, action_attempt_row) op" where
  "obtain_attempt now action ex =
     andthen (reads (\<lambda>d. find (is_attempt_of action (ex_purpose ex)) (t_attempts d))) (\<lambda>found.
     case found of
       None \<Rightarrow>
         andthen new_id (\<lambda>i.
         andthen (modify (\<lambda>d. d\<lparr>t_attempts := t_attempts d @ [new_attempt i action ex now]\<rparr>)) (\<lambda>_.
         ret (new_attempt i action ex now)))
     | Some existing \<Rightarrow>
         andthen (require (at_capability_version_id existing = ex_capability_version_id ex
              \<and> at_connector_id existing = ex_connector_id ex
              \<and> py_eq (JObj (at_input_payload existing)) (JObj (ex_payload ex)))
            (ValidationError ''action_attempt_mismatch''
              ''A recovered action attempt does not match its sealed plan'' [])) (\<lambda>_.
         ret existing))"

definition or_default :: "string option \<Rightarrow> string \<Rightarrow> string" where
  "or_default v dflt = (case v of None \<Rightarrow> dflt | Some s \<Rightarrow> if s = [] then dflt else s)"

definition finished_attempt :: "action_attempt_row \<Rightarrow> gateway_result \<Rightarrow> time \<Rightarrow> action_attempt_row" where
  "finished_attempt atm result now =
     (if gs_status result = Gateway_COMPLETED
      then atm\<lparr>at_policy_decision_id := Some (gs_policy_decision_id result), at_completed_at := Some now,
                   at_status := Attempt_COMPLETED,
                   at_output := (case gs_output result of Some out \<Rightarrow> out | None \<Rightarrow> []),
                   at_error_code := None, at_error_message := None\<rparr>
      else atm\<lparr>at_policy_decision_id := Some (gs_policy_decision_id result), at_completed_at := Some now,
                   at_status := Attempt_FAILED, at_error_code := gs_error_code result,
                   at_error_message := gs_error_message result\<rparr>)"

definition running_attempt :: "time \<Rightarrow> action_attempt_row \<Rightarrow> action_attempt_row" where
  "running_attempt now atm = atm\<lparr>at_status := Attempt_RUNNING,
     at_started_at := (case at_started_at atm of Some t \<Rightarrow> Some t | None \<Rightarrow> Some now)\<rparr>"

definition execution_request :: "action_request_row \<Rightarrow> execution \<Rightarrow> action_attempt_row \<Rightarrow> gateway_request" where
  "execution_request action ex atm =
     \<lparr>gr_principal = ex_principal ex, gr_action = action, gr_approval = ex_approval ex,
      gr_attempt = atm, gr_plan_checksum_sha256 = pl_checksum_sha256 (ex_plan ex),
      gr_purpose = ex_purpose ex, gr_payload = ex_payload ex\<rparr>"

definition settle_attempt ::
  "env \<Rightarrow> clock \<Rightarrow> action_request_row \<Rightarrow> execution \<Rightarrow> action_attempt_row \<Rightarrow> gateway_result \<Rightarrow> (world, unit) op" where
  "settle_attempt e clk action ex atm result =
     (let finished = finished_attempt atm result (clk 0)
      in andthen (in_db (from_sum (validate_error_code (e_ext e) (at_error_code finished)))) (\<lambda>_.
         andthen (in_db (put_attempt finished)) (\<lambda>_.
         in_db (if gs_status result = Gateway_COMPLETED
                then complete_action (e_ext e) (later 1 clk) action (ex_purpose ex) (at_output finished)
                else fail_action (e_ext e) (later 1 clk) action
                       (or_default (gs_error_code result) ''action_provider_failed'')
                       (or_default (gs_error_message result)
                         ''The action provider could not complete the request'')))))"

definition run_attempt ::
  "env \<Rightarrow> clock \<Rightarrow> time \<Rightarrow> action_request_row \<Rightarrow> execution \<Rightarrow> action_attempt_row \<Rightarrow> (world, unit) op" where
  "run_attempt e clk now action ex atm =
     andthen (in_db (put_attempt (running_attempt now atm))) (\<lambda>_.
     andthen (gateway_invoke e clk (execution_request action ex (running_attempt now atm))) (\<lambda>result.
     settle_attempt e (later 8 clk) action ex (running_attempt now atm) result))"

definition running :: "action_status \<Rightarrow> bool" where
  "running st \<longleftrightarrow> st \<in> {Action_EXECUTING, Action_ROLLING_BACK}"

definition invoke_action :: "env \<Rightarrow> clock \<Rightarrow> uuid \<Rightarrow> (world, unit) op" where
  "invoke_action e clk aid = db_transaction (
     andthen (in_db (reads (\<lambda>d. find (\<lambda>a. ar_id a = aid) (t_actions d)))) (\<lambda>found.
     case found of
       None \<Rightarrow> ret ()
     | Some action \<Rightarrow>
         (let now = clk 0
          in if \<not> running (ar_status action) then ret ()
             else if (case ar_deadline_at action of None \<Rightarrow> True | Some t \<Rightarrow> t \<le> now) then
               in_db (fail_action (e_ext e) (later 1 clk) action ''action_timeout''
                 ''The approved action exceeded its execution deadline'')
             else
               andthen (in_db (load_execution now action)) (\<lambda>ex.
               andthen (in_db (obtain_attempt (clk 1) action ex)) (\<lambda>attempt.
               if at_status attempt = Attempt_COMPLETED
               then in_db (complete_action (e_ext e) (later 2 clk) action (ex_purpose ex) (at_output attempt))
               else run_attempt e (later 2 clk) now action ex attempt)))))"

definition fail_after_exception :: "env \<Rightarrow> clock \<Rightarrow> uuid \<Rightarrow> string \<Rightarrow> string \<Rightarrow> (world, unit) op" where
  "fail_after_exception e clk aid code msg = db_transaction (
     andthen (in_db (reads (\<lambda>d. find (\<lambda>a. ar_id a = aid) (t_actions d)))) (\<lambda>found.
     case found of
       None \<Rightarrow> ret ()
     | Some action \<Rightarrow>
         if \<not> running (ar_status action) then ret ()
         else in_db (fail_action (e_ext e) clk action code msg)))"

definition failure_of :: "err \<Rightarrow> string \<times> string" where
  "failure_of err =
     (if is_obsion err then (err_code err, err_message err)
      else (''action_worker_failed'', ''The action worker could not complete this request''))"

definition execute_action :: "env \<Rightarrow> clock \<Rightarrow> clock \<Rightarrow> uuid \<Rightarrow> (world, unit) op" where
  "execute_action e clk clk' aid =
     attempt (invoke_action e clk aid)
       (\<lambda>err. case failure_of err of (code, msg) \<Rightarrow> fail_after_exception e clk' aid code msg)"

end
