(* ===== verification/ActionGovernance.thy ===== *)
theory ActionGovernance
  imports ActionWorker
begin

text \<open>
  The contract of governed actions and the proof that the service and the worker keep it.

  \<open>casefile\<close> is what governance is about: for one action request, its status, the checksum of
  its sealed plan, who asked for it, and its approvals in order. \<open>case_step\<close> is the
  specification, one rule per thing that may happen to a case, and \<open>case_inv\<close> the invariant
  (four eyes, one open approval, nothing runs without an approval), kept by rule induction.
  \<open>case_of\<close> reads the casefile of an action off the store, and \<open>evolves\<close> says that every
  case of a store went through steps of the specification; each endpoint and each worker
  transaction is proved to make the store evolve.
\<close>

section \<open>The specification\<close>

text \<open>
  The statuses a rule starts from and leads to are written out here, not taken from the code. They
  are the diagram of \<open>docs/architecture/action-agent-design.md\<close>, with these moves it does not
  have: a failed preflight is repeated, a running case is claimed again after its lease, a rollback
  may be rejected (\<open>ROLLBACK_REJECTED\<close>), a rejected or failed rollback may be requested again
  (the document calls a failed rollback terminal), and a draft, an approved case or a case waiting
  for its rollback may be cancelled.
\<close>

record casefile =
  cf_status :: action_status
  cf_checksum :: "string option"
  cf_requester :: uuid
  cf_approvals :: "action_approval_row list"

definition early :: "action_status \<Rightarrow> bool" where
  "early st \<longleftrightarrow> st \<in> {Action_DRAFT, Action_PREFLIGHT_FAILED}"

definition waiting_status :: "action_approval_purpose \<Rightarrow> action_status" where
  "waiting_status purpose =
     (if purpose = Purpose_EXECUTE then Action_WAITING_APPROVAL else Action_WAITING_ROLLBACK_APPROVAL)"

text \<open>The open approvals of a cancelled case.\<close>

definition withdrawn :: "time \<Rightarrow> action_approval_row list \<Rightarrow> action_approval_row list" where
  "withdrawn t aps = map (\<lambda>ap. if aa_status ap = Approval_PENDING
     then ap\<lparr>aa_status := Approval_CANCELLED, aa_decided_at := Some t\<rparr> else ap) aps"

definition latest_of :: "action_approval_purpose \<Rightarrow> action_approval_row list \<Rightarrow> int" where
  "latest_of purpose aps = foldr max (map aa_revision (filter (\<lambda>a. aa_purpose a = purpose) aps)) 0"

text \<open>A fresh approval of a case.\<close>

definition opened :: "casefile \<Rightarrow> action_approval_purpose \<Rightarrow> action_approval_row \<Rightarrow> bool" where
  "opened c purpose ap \<longleftrightarrow>
     aa_purpose ap = purpose \<and> aa_status ap = Approval_PENDING \<and> aa_requested_by ap = cf_requester c
     \<and> aa_decided_by ap = None \<and> cf_checksum c = Some (aa_plan_checksum_sha256 ap)
     \<and> aa_revision ap = latest_of purpose (cf_approvals c) + 1
     \<and> aa_id ap \<notin> aa_id ` set (cf_approvals c)"

definition initial_case :: "casefile \<Rightarrow> bool" where
  "initial_case c \<longleftrightarrow> cf_status c = Action_DRAFT \<and> cf_checksum c = None \<and> cf_approvals c = []"

inductive case_step :: "casefile \<Rightarrow> casefile \<Rightarrow> bool" where
  preflight_failed: "cf_status c \<in> {Action_DRAFT, Action_PREFLIGHT_FAILED} \<Longrightarrow> case_step c (c\<lparr>cf_status := Action_PREFLIGHT_FAILED\<rparr>)"
| sealed: "cf_status c \<in> {Action_DRAFT, Action_PREFLIGHT_FAILED} \<Longrightarrow> opened (c\<lparr>cf_checksum := Some s\<rparr>) Purpose_EXECUTE ap \<Longrightarrow>
    case_step c (c\<lparr>cf_status := Action_WAITING_APPROVAL, cf_checksum := Some s,
                   cf_approvals := cf_approvals c @ [ap]\<rparr>)"
| decided: "ap \<in> set (cf_approvals c) \<Longrightarrow> aa_status ap = Approval_PENDING \<Longrightarrow>
    u \<noteq> aa_requested_by ap \<Longrightarrow> cf_checksum c = Some (aa_plan_checksum_sha256 ap) \<Longrightarrow> t < aa_expires_at ap \<Longrightarrow>
    (aa_purpose ap, b, st) \<in> {(Purpose_EXECUTE, True, Action_APPROVED), (Purpose_EXECUTE, False, Action_REJECTED),
      (Purpose_ROLLBACK, True, Action_ROLLBACK_APPROVED), (Purpose_ROLLBACK, False, Action_ROLLBACK_REJECTED)} \<Longrightarrow>
    ap' = ap\<lparr>aa_status := (if b then Approval_APPROVED else Approval_REJECTED),
             aa_decided_by := Some u, aa_decision_reason := Some reason, aa_decided_at := Some t\<rparr> \<Longrightarrow>
    case_step c (c\<lparr>cf_status := st,
                   cf_approvals := replace_row aa_id ap' (cf_approvals c)\<rparr>)"
| expired: "ap \<in> set (cf_approvals c) \<Longrightarrow> aa_status ap = Approval_PENDING \<Longrightarrow> aa_expires_at ap \<le> t \<Longrightarrow>
    (aa_purpose ap, st) \<in> {(Purpose_EXECUTE, Action_EXPIRED), (Purpose_ROLLBACK, Action_ROLLBACK_REJECTED)} \<Longrightarrow>
    ap' = ap\<lparr>aa_status := Approval_EXPIRED, aa_decided_at := Some t\<rparr> \<Longrightarrow>
    case_step c (c\<lparr>cf_status := st,
                   cf_approvals := replace_row aa_id ap' (cf_approvals c)\<rparr>)"
| rollback_requested: "cf_status c \<in> {Action_COMPLETED, Action_FAILED, Action_ROLLBACK_FAILED, Action_ROLLBACK_REJECTED}
    \<Longrightarrow> opened c Purpose_ROLLBACK ap \<Longrightarrow>
    case_step c (c\<lparr>cf_status := Action_WAITING_ROLLBACK_APPROVAL, cf_approvals := cf_approvals c @ [ap]\<rparr>)"
| cancelled: "cf_status c \<in> {Action_DRAFT, Action_PREFLIGHT_FAILED, Action_WAITING_APPROVAL, Action_APPROVED,
      Action_WAITING_ROLLBACK_APPROVAL, Action_ROLLBACK_APPROVED} \<Longrightarrow>
    case_step c (c\<lparr>cf_status := Action_CANCELLED, cf_approvals := withdrawn t (cf_approvals c)\<rparr>)"
| claimed: "(cf_status c, st) \<in> {(Action_APPROVED, Action_EXECUTING), (Action_EXECUTING, Action_EXECUTING),
      (Action_ROLLBACK_APPROVED, Action_ROLLING_BACK), (Action_ROLLING_BACK, Action_ROLLING_BACK)} \<Longrightarrow>
    case_step c (c\<lparr>cf_status := st\<rparr>)"
| completed: "(cf_status c, st) \<in> {(Action_EXECUTING, Action_COMPLETED), (Action_ROLLING_BACK, Action_ROLLED_BACK)} \<Longrightarrow>
    case_step c (c\<lparr>cf_status := st\<rparr>)"
| failed: "(cf_status c, st) \<in> {(Action_EXECUTING, Action_FAILED), (Action_ROLLING_BACK, Action_ROLLBACK_FAILED)} \<Longrightarrow>
    case_step c (c\<lparr>cf_status := st\<rparr>)"

section \<open>The invariant of a case\<close>

text \<open>The statuses that only an approved purpose leads to.\<close>

definition authorised_by :: "action_approval_purpose \<Rightarrow> action_status set" where
  "authorised_by purpose =
     (case purpose of
        Purpose_EXECUTE \<Rightarrow> {Action_APPROVED, Action_EXECUTING, Action_COMPLETED, Action_FAILED,
          Action_WAITING_ROLLBACK_APPROVAL, Action_ROLLBACK_APPROVED, Action_ROLLING_BACK,
          Action_ROLLED_BACK, Action_ROLLBACK_FAILED, Action_ROLLBACK_REJECTED}
      | Purpose_ROLLBACK \<Rightarrow> {Action_ROLLBACK_APPROVED, Action_ROLLING_BACK, Action_ROLLED_BACK,
          Action_ROLLBACK_FAILED})"

definition four_eyes :: "action_approval_row \<Rightarrow> bool" where
  "four_eyes ap \<longleftrightarrow>
     (if aa_status ap \<in> {Approval_APPROVED, Approval_REJECTED}
      then \<exists>u. aa_decided_by ap = Some u \<and> u \<noteq> aa_requested_by ap
      else aa_decided_by ap = None)"

definition case_inv :: "casefile \<Rightarrow> bool" where
  "case_inv c \<longleftrightarrow>
     distinct (map aa_id (cf_approvals c))
     \<and> (\<forall>ap \<in> set (cf_approvals c). four_eyes ap \<and> aa_requested_by ap = cf_requester c
          \<and> cf_checksum c = Some (aa_plan_checksum_sha256 ap)
          \<and> (aa_status ap = Approval_PENDING \<longrightarrow> cf_status c = waiting_status (aa_purpose ap)))
     \<and> length (filter (\<lambda>ap. aa_status ap = Approval_PENDING) (cf_approvals c)) \<le> 1
     \<and> (early (cf_status c) \<longrightarrow> cf_approvals c = [] \<and> cf_checksum c = None)
     \<and> (\<forall>purpose. cf_status c \<in> authorised_by purpose \<longrightarrow>
          (\<exists>ap \<in> set (cf_approvals c). aa_purpose ap = purpose \<and> aa_status ap = Approval_APPROVED))
     \<and> (\<forall>purpose. map aa_revision (filter (\<lambda>a. aa_purpose a = purpose) (cf_approvals c)) =
          [1..int (length (filter (\<lambda>a. aa_purpose a = purpose) (cf_approvals c)))])"

lemma case_inv_quiet:
  assumes "case_inv c" and "\<forall>purpose. cf_status c \<noteq> waiting_status purpose" and "ap \<in> set (cf_approvals c)"
  shows "aa_status ap \<noteq> Approval_PENDING"
  using assms by (auto simp: case_inv_def)

text \<open>A change of status alone, in a case with nothing open.\<close>

lemma case_inv_status:
  assumes "case_inv c" and "\<forall>purpose. cf_status c \<noteq> waiting_status purpose"
    and "early st \<Longrightarrow> early (cf_status c)"
    and "\<And>purpose. st \<in> authorised_by purpose \<Longrightarrow> cf_status c \<in> authorised_by purpose"
  shows "case_inv (c\<lparr>cf_status := st\<rparr>)"
  using assms case_inv_quiet [OF assms(1,2)] by (auto simp: case_inv_def)

text \<open>Settling the open approval.\<close>

lemma case_inv_settle:
  assumes inv: "case_inv c" and ap: "ap \<in> set (cf_approvals c)" and pending: "aa_status ap = Approval_PENDING"
    and same: "aa_id ap' = aa_id ap" "aa_purpose ap' = aa_purpose ap" "aa_revision ap' = aa_revision ap"
      "aa_requested_by ap' = aa_requested_by ap" "aa_plan_checksum_sha256 ap' = aa_plan_checksum_sha256 ap"
    and settled: "aa_status ap' \<noteq> Approval_PENDING" "four_eyes ap'" and late: "\<not> early st"
    and auth: "\<And>purpose. st \<in> authorised_by purpose \<Longrightarrow>
      (purpose = aa_purpose ap \<and> aa_status ap' = Approval_APPROVED) \<or> cf_status c \<in> authorised_by purpose"
  shows "case_inv (c\<lparr>cf_status := st, cf_approvals := replace_row aa_id ap' (cf_approvals c)\<rparr>)"
proof -
  let ?aps = "cf_approvals c" and ?new = "replace_row aa_id ap' (cf_approvals c)"
  have dist: "distinct (map aa_id ?aps)" and one: "length (filter (\<lambda>a. aa_status a = Approval_PENDING) ?aps) \<le> 1"
    using inv by (auto simp: case_inv_def)
  have only: "x = ap" if "x \<in> set ?aps" "aa_status x = Approval_PENDING" for x
    using one_satisfies [OF one] that ap pending by blast
  have mem: "x = ap' \<or> (x \<in> set ?aps \<and> aa_id x \<noteq> aa_id ap)" if "x \<in> set ?new" for x
    using set_replace_row [OF that] same by auto
  have none: "aa_status x \<noteq> Approval_PENDING" if "x \<in> set ?new" for x
    using mem [OF that] settled only by blast
  have rows: "four_eyes x \<and> aa_requested_by x = cf_requester c \<and> cf_checksum c = Some (aa_plan_checksum_sha256 x)"
    if "x \<in> set ?new" for x
  proof -
    have row: "four_eyes y \<and> aa_requested_by y = cf_requester c \<and> cf_checksum c = Some (aa_plan_checksum_sha256 y)"
      if "y \<in> set ?aps" for y using inv that by (simp add: case_inv_def)
    show ?thesis using mem [OF that] row [of x] row [OF ap] same settled(2) by auto
  qed
  have revs: "map aa_revision (filter (\<lambda>a. aa_purpose a = p) ?new) = map aa_revision (filter (\<lambda>a. aa_purpose a = p) ?aps)" for p
    using map_filter_replace_row [OF dist ap, of ap' "\<lambda>a. aa_purpose a = p" aa_revision] same by simp
  have authd: "\<exists>a \<in> set ?new. aa_purpose a = p \<and> aa_status a = Approval_APPROVED" if st: "st \<in> authorised_by p" for p
  proof (cases "p = aa_purpose ap \<and> aa_status ap' = Approval_APPROVED")
    case True
    then show ?thesis using replace_row_same_mem [OF ap, of aa_id ap'] same by auto
  next
    case False
    then obtain a where a: "a \<in> set ?aps" "aa_purpose a = p" "aa_status a = Approval_APPROVED"
      using auth [OF st] inv by (auto simp: case_inv_def)
    then have "aa_id a \<noteq> aa_id ap'"
      using dist ap same pending by (metis approval_status.distinct(1) distinct_map inj_onD)
    then show ?thesis using a replace_row_other_mem by metis
  qed
  have len: "length (filter (\<lambda>a. aa_purpose a = p) ?new) = length (filter (\<lambda>a. aa_purpose a = p) ?aps)" for p
    using revs [of p] by (metis length_map)
  have pend: "filter (\<lambda>a. aa_status a = Approval_PENDING) ?new = []" using none by (simp add: filter_empty_conv)
  have r0: "map aa_revision (filter (\<lambda>a. aa_purpose a = p) ?aps) = [1..int (length (filter (\<lambda>a. aa_purpose a = p) ?aps))]" for p
    using inv by (simp add: case_inv_def)
  show ?thesis
    unfolding case_inv_def
    using dist rows none authd late by (simp add: revs len r0 pend)
qed

text \<open>Opening an approval when none is open.\<close>

lemma latest_of_count:
  assumes "map aa_revision (filter (\<lambda>a. aa_purpose a = p) aps) = [1..int n]"
  shows "latest_of p aps = int n"
proof -
  have "foldr max [1..int n] 0 = int n"
  proof -
    have "foldr max xs 0 \<le> k \<and> (xs \<noteq> [] \<longrightarrow> Max (set xs) \<le> foldr max xs 0)"
      if "\<forall>y \<in> set xs. y \<le> k" "0 \<le> k" for xs and k :: int
      using that by (induction xs) (auto simp: max_def)
    from this [of "[1..int n]" "int n"] show ?thesis
      by (cases n) (auto simp: Max_ge_iff intro!: antisym)
  qed
  then show ?thesis using assms by (simp add: latest_of_def)
qed


lemma case_inv_open:
  assumes inv: "case_inv c" and quiet: "\<forall>purpose. cf_status c \<noteq> waiting_status purpose"
    and new: "opened (c\<lparr>cf_checksum := s\<rparr>) purpose ap" and sum: "cf_checksum c = s \<or> cf_approvals c = []"
    and auth: "\<And>q. waiting_status purpose \<in> authorised_by q \<Longrightarrow> cf_status c \<in> authorised_by q"
  shows "case_inv (c\<lparr>cf_status := waiting_status purpose, cf_checksum := s,
                     cf_approvals := cf_approvals c @ [ap]\<rparr>)"
proof -
  let ?aps = "cf_approvals c"
  have np: "aa_status x \<noteq> Approval_PENDING" if "x \<in> set ?aps" for x
    using case_inv_quiet [OF inv quiet that] .
  then have pend: "filter (\<lambda>a. aa_status a = Approval_PENDING) ?aps = []" by (simp add: filter_empty_conv)
  have r0: "map aa_revision (filter (\<lambda>a. aa_purpose a = p) ?aps) = [1..int (length (filter (\<lambda>a. aa_purpose a = p) ?aps))]" for p
    using inv by (simp add: case_inv_def)
  have rev: "aa_revision ap = int (length (filter (\<lambda>a. aa_purpose a = purpose) ?aps)) + 1"
    using new latest_of_count [OF r0] by (simp add: opened_def)
  have revs: "map aa_revision (filter (\<lambda>a. aa_purpose a = p) (?aps @ [ap])) =
      [1..int (length (filter (\<lambda>a. aa_purpose a = p) (?aps @ [ap])))]" for p
    using r0 [of p] rev new upto_snoc [of "int (length (filter (\<lambda>a. aa_purpose a = p) ?aps))"]
    by (auto simp: opened_def add.commute)
  have row: "four_eyes x \<and> aa_requested_by x = cf_requester c \<and> s = Some (aa_plan_checksum_sha256 x)"
    if "x \<in> set (?aps @ [ap])" for x
    using that inv sum new by (auto simp: case_inv_def opened_def four_eyes_def)
  have late: "\<not> early (waiting_status purpose)" by (simp add: early_def waiting_status_def)
  have authd: "\<exists>a \<in> set (?aps @ [ap]). aa_purpose a = q \<and> aa_status a = Approval_APPROVED"
    if "waiting_status purpose \<in> authorised_by q" for q
    using auth [OF that] inv by (auto simp: case_inv_def)
  have dist: "distinct (map aa_id (?aps @ [ap]))" using inv new by (auto simp: case_inv_def opened_def)
  have waits: "aa_purpose x = purpose" if "x \<in> set (?aps @ [ap])" "aa_status x = Approval_PENDING" for x
    using that np new by (auto simp: opened_def)
  show ?thesis
    unfolding case_inv_def
    using dist row late authd waits revs by (simp add: pend)
qed

lemma cancel_pending_row:
  "x \<in> set (cancel_pending k t aps) \<Longrightarrow> \<exists>y \<in> set aps. aa_id x = aa_id y \<and> aa_purpose x = aa_purpose y
     \<and> aa_requested_by x = aa_requested_by y \<and> aa_plan_checksum_sha256 x = aa_plan_checksum_sha256 y
     \<and> aa_revision x = aa_revision y \<and> aa_action_request_id x = aa_action_request_id y
     \<and> (x = y \<or> (aa_action_request_id y = k \<and> aa_status y = Approval_PENDING
               \<and> aa_status x = Approval_CANCELLED \<and> aa_decided_by x = aa_decided_by y))"
  by (force simp: cancel_pending_def)

lemma cancel_pending_keys [simp]:
  "map aa_id (cancel_pending k t aps) = map aa_id aps"
  "map aa_revision (filter (\<lambda>a. aa_purpose a = p) (cancel_pending k t aps)) =
     map aa_revision (filter (\<lambda>a. aa_purpose a = p) aps)"
  "length (filter (\<lambda>a. aa_purpose a = p) (cancel_pending k t aps)) = length (filter (\<lambda>a. aa_purpose a = p) aps)"
  by (induction aps) (auto simp: cancel_pending_def)

lemma cancel_pending_own: "\<forall>ap \<in> set aps. aa_action_request_id ap = k \<Longrightarrow> cancel_pending k t aps = withdrawn t aps"
  by (simp add: cancel_pending_def withdrawn_def)

lemma withdrawn_row:
  "x \<in> set (withdrawn t aps) \<Longrightarrow> \<exists>y \<in> set aps. aa_requested_by x = aa_requested_by y
     \<and> aa_plan_checksum_sha256 x = aa_plan_checksum_sha256 y
     \<and> (x = y \<or> (aa_status y = Approval_PENDING \<and> aa_status x = Approval_CANCELLED \<and> aa_decided_by x = aa_decided_by y))"
  by (force simp: withdrawn_def)

lemma withdrawn_keys [simp]:
  "map aa_id (withdrawn t aps) = map aa_id aps"
  "map aa_revision (filter (\<lambda>a. aa_purpose a = p) (withdrawn t aps)) = map aa_revision (filter (\<lambda>a. aa_purpose a = p) aps)"
  "length (filter (\<lambda>a. aa_purpose a = p) (withdrawn t aps)) = length (filter (\<lambda>a. aa_purpose a = p) aps)"
  by (induction aps) (auto simp: withdrawn_def)

lemma case_inv_cancel:
  assumes inv: "case_inv c"
  shows "case_inv (c\<lparr>cf_status := Action_CANCELLED, cf_approvals := withdrawn t (cf_approvals c)\<rparr>)"
proof -
  let ?new = "withdrawn t (cf_approvals c)"
  have row0: "four_eyes y \<and> aa_requested_by y = cf_requester c \<and> cf_checksum c = Some (aa_plan_checksum_sha256 y)"
    if "y \<in> set (cf_approvals c)" for y using inv that by (simp add: case_inv_def)
  have row: "four_eyes x \<and> aa_requested_by x = cf_requester c \<and> cf_checksum c = Some (aa_plan_checksum_sha256 x)
      \<and> aa_status x \<noteq> Approval_PENDING"
    if x: "x \<in> set ?new" for x
  proof -
    have "aa_status x \<noteq> Approval_PENDING" using x by (auto simp: withdrawn_def)
    moreover obtain y where y: "y \<in> set (cf_approvals c)" "aa_requested_by x = aa_requested_by y"
        "aa_plan_checksum_sha256 x = aa_plan_checksum_sha256 y"
        "x = y \<or> (aa_status y = Approval_PENDING \<and> aa_status x = Approval_CANCELLED
           \<and> aa_decided_by x = aa_decided_by y)"
      using withdrawn_row [OF x] by blast
    moreover have "four_eyes x" using y row0 [OF y(1)] by (auto simp: four_eyes_def)
    ultimately show ?thesis using row0 [OF y(1)] by simp
  qed
  have pend: "filter (\<lambda>a. aa_status a = Approval_PENDING) ?new = []" using row by (auto simp: filter_empty_conv)
  have auth: "Action_CANCELLED \<notin> authorised_by p" for p by (cases p) (simp_all add: authorised_by_def)
  have r0: "map aa_revision (filter (\<lambda>a. aa_purpose a = p) (cf_approvals c)) =
      [1..int (length (filter (\<lambda>a. aa_purpose a = p) (cf_approvals c)))]" for p
    using inv by (simp add: case_inv_def)
  have dist: "distinct (map aa_id ?new)" using inv by (simp add: case_inv_def)
  show ?thesis
    unfolding case_inv_def using dist row auth by (simp add: pend early_def r0)
qed

lemma waiting_status_iff: "st = waiting_status purpose \<longleftrightarrow>
   (purpose = Purpose_EXECUTE \<and> st = Action_WAITING_APPROVAL)
   \<or> (purpose = Purpose_ROLLBACK \<and> st = Action_WAITING_ROLLBACK_APPROVAL)"
  by (cases purpose) (auto simp: waiting_status_def)

lemma not_execute: "purpose \<noteq> Purpose_EXECUTE \<longleftrightarrow> purpose = Purpose_ROLLBACK"
  by (cases purpose) simp_all

lemmas status_defs = waiting_status_def early_def authorised_by_def

lemma pending_waits:
  "case_inv c \<Longrightarrow> ap \<in> set (cf_approvals c) \<Longrightarrow> aa_status ap = Approval_PENDING \<Longrightarrow>
     cf_status c = waiting_status (aa_purpose ap)"
  by (simp add: case_inv_def)

lemma case_step_inv: "case_step c c' \<Longrightarrow> case_inv c \<Longrightarrow> case_inv c'"
proof (induction rule: case_step.induct)
  case (preflight_failed c)
  then show ?case
    by (intro case_inv_status) (auto simp: status_defs split: action_approval_purpose.splits if_splits)
next
  case (sealed c s ap)
  have "cf_approvals c = []" using sealed by (auto simp: case_inv_def early_def)
  then have "case_inv (c\<lparr>cf_status := waiting_status Purpose_EXECUTE, cf_checksum := Some s,
                     cf_approvals := cf_approvals c @ [ap]\<rparr>)"
    by (intro case_inv_open)
      (use sealed in \<open>auto simp: status_defs split: action_approval_purpose.splits if_splits\<close>)
  then show ?case by (simp add: waiting_status_def)
next
  case (decided ap c u t b st ap' reason)
  have w: "cf_status c = waiting_status (aa_purpose ap)" using pending_waits decided by blast
  show ?case
    by (rule case_inv_settle [OF decided(8,1,2)])
      (use decided w in \<open>auto simp: four_eyes_def status_defs not_execute split: action_approval_purpose.splits if_splits\<close>)
next
  case (expired ap c t st ap')
  have w: "cf_status c = waiting_status (aa_purpose ap)" using pending_waits expired by blast
  have f: "four_eyes ap" using expired by (simp add: case_inv_def)
  show ?case
    by (rule case_inv_settle [OF expired(6,1,2)])
      (use expired w f in \<open>auto simp: four_eyes_def status_defs split: action_approval_purpose.splits if_splits\<close>)
next
  case (rollback_requested c ap)
  have "case_inv (c\<lparr>cf_status := waiting_status Purpose_ROLLBACK, cf_checksum := cf_checksum c,
                     cf_approvals := cf_approvals c @ [ap]\<rparr>)"
    by (intro case_inv_open)
      (use rollback_requested in \<open>auto simp: status_defs split: action_approval_purpose.splits if_splits\<close>)
  then show ?case by (simp add: waiting_status_def)
next
  case (cancelled c t)
  then show ?case by (intro case_inv_cancel)
next
  case (claimed c st)
  then show ?case
    by (intro case_inv_status) (auto simp: status_defs split: action_approval_purpose.splits if_splits)
next
  case (completed c st)
  then show ?case
    by (intro case_inv_status) (auto simp: status_defs split: action_approval_purpose.splits if_splits)
next
  case (failed c st)
  then show ?case
    by (intro case_inv_status) (auto simp: status_defs split: action_approval_purpose.splits if_splits)
qed

lemma case_steps_inv: "case_step\<^sup>*\<^sup>* c c' \<Longrightarrow> case_inv c \<Longrightarrow> case_inv c'"
  by (induction rule: rtranclp_induct) (auto intro: case_step_inv)

lemma initial_case_inv: "initial_case c \<Longrightarrow> case_inv c"
  by (auto simp: initial_case_def case_inv_def early_def authorised_by_def split: action_approval_purpose.splits)

section \<open>Casefiles of the store\<close>

definition approvals_of :: "uuid \<Rightarrow> action_approval_row list \<Rightarrow> action_approval_row list" where
  "approvals_of aid aps = filter (\<lambda>ap. aa_action_request_id ap = aid) aps"

definition file_of :: "action_request_row \<Rightarrow> action_approval_row list \<Rightarrow> casefile" where
  "file_of a aps = \<lparr>cf_status = ar_status a, cf_checksum = ar_plan_checksum_sha256 a,
     cf_requester = ar_requested_by a, cf_approvals = approvals_of (ar_id a) aps\<rparr>"

definition case_of :: "uuid \<Rightarrow> db \<Rightarrow> casefile option" where
  "case_of aid d = map_option (\<lambda>a. file_of a (t_action_approvals d)) (find (\<lambda>a. ar_id a = aid) (t_actions d))"

definition ids_ok :: "db \<Rightarrow> bool" where
  "ids_ok d \<longleftrightarrow> distinct (map ar_id (t_actions d)) \<and> distinct (map aa_id (t_action_approvals d))
     \<and> (\<forall>a \<in> set (t_actions d). ar_id a < next_id d)
     \<and> (\<forall>ap \<in> set (t_action_approvals d). aa_id ap < next_id d \<and> aa_action_request_id ap \<in> ar_id ` set (t_actions d))"

definition case_evolves :: "casefile option \<Rightarrow> casefile option \<Rightarrow> bool" where
  "case_evolves c c' \<longleftrightarrow>
     (case c of
        None \<Rightarrow> (case c' of None \<Rightarrow> True | Some f \<Rightarrow> \<exists>f0. initial_case f0 \<and> case_step\<^sup>*\<^sup>* f0 f)
      | Some f \<Rightarrow> \<exists>f'. c' = Some f' \<and> case_step\<^sup>*\<^sup>* f f')"

definition evolves :: "db \<Rightarrow> db \<Rightarrow> bool" where
  "evolves d d' \<longleftrightarrow>
     (ids_ok d \<longrightarrow> ids_ok d' \<and> next_id d \<le> next_id d' \<and> (\<forall>aid. case_evolves (case_of aid d) (case_of aid d')))"

lemma case_evolves_refl: "case_evolves c c"
  by (auto simp: case_evolves_def split: option.splits)

lemma case_evolves_trans: "case_evolves c c' \<Longrightarrow> case_evolves c' c'' \<Longrightarrow> case_evolves c c''"
  unfolding case_evolves_def by (fastforce split: option.splits)

lemma evolves_refl [simp]: "evolves d d"
  by (simp add: evolves_def case_evolves_refl)

lemma evolves_trans: "evolves d d' \<Longrightarrow> evolves d' d'' \<Longrightarrow> evolves d d''"
  unfolding evolves_def using case_evolves_trans by (meson order_trans)

lemma evolves_ids: "evolves d d' \<Longrightarrow> ids_ok d \<Longrightarrow> ids_ok d'"
  by (simp add: evolves_def)

text \<open>An operation that does not touch the requests and approvals.\<close>

lemma evolves_frame:
  assumes "t_actions d' = t_actions d" and "t_action_approvals d' = t_action_approvals d"
    and "next_id d \<le> next_id d'"
  shows "evolves d d'"
proof -
  have "case_of aid d' = case_of aid d" for aid using assms by (simp add: case_of_def)
  moreover have "ids_ok d \<Longrightarrow> ids_ok d'" using assms by (fastforce simp: ids_ok_def)
  ultimately show ?thesis using assms(3) by (simp add: evolves_def case_evolves_refl)
qed

lemma case_of_mem:
  "ids_ok d \<Longrightarrow> a \<in> set (t_actions d) \<Longrightarrow> case_of (ar_id a) d = Some (file_of a (t_action_approvals d))"
  by (simp add: case_of_def ids_ok_def find_key)

text \<open>One request is rewritten, with approvals of its own only.\<close>

lemma evolves_update:
  assumes a: "a \<in> set (t_actions d)" and same: "ar_id a' = ar_id a"
    and acts: "t_actions d' = replace_row ar_id a' (t_actions d)"
    and others: "\<And>k. k \<noteq> ar_id a \<Longrightarrow> approvals_of k (t_action_approvals d') = approvals_of k (t_action_approvals d)"
    and ids: "ids_ok d \<Longrightarrow> distinct (map aa_id (t_action_approvals d'))
       \<and> (\<forall>ap \<in> set (t_action_approvals d'). aa_id ap < next_id d' \<and> aa_action_request_id ap \<in> ar_id ` set (t_actions d))"
    and mono: "next_id d \<le> next_id d'"
    and step: "ids_ok d \<Longrightarrow> case_step (file_of a (t_action_approvals d)) (file_of a' (t_action_approvals d'))"
  shows "evolves d d'"
  unfolding evolves_def
proof (intro impI conjI allI)
  assume ok: "ids_ok d"
  show "ids_ok d'"
  proof -
    have "ar_id b < next_id d'" if "b \<in> set (t_actions d')" for b
    proof -
      have "ar_id b \<in> set (map ar_id (t_actions d))" using that by (metis acts image_eqI list.set_map map_key_replace_row)
      then show ?thesis using ok mono by (fastforce simp: ids_ok_def)
    qed
    moreover have "ar_id ` set (t_actions d') = ar_id ` set (t_actions d)"
      by (metis acts list.set_map map_key_replace_row)
    moreover have "distinct (map ar_id (t_actions d'))" using ok by (simp add: acts ids_ok_def)
    ultimately show ?thesis using ids [OF ok] by (simp add: ids_ok_def)
  qed
  show "next_id d \<le> next_id d'" by (rule mono)
  fix aid
  show "case_evolves (case_of aid d) (case_of aid d')"
  proof (cases "aid = ar_id a")
    case True
    have "find (\<lambda>x. ar_id x = ar_id a) (t_actions d) = Some a"
      using ok a by (simp add: ids_ok_def find_key)
    then have "case_of aid d' = Some (file_of a' (t_action_approvals d'))"
      by (simp add: case_of_def acts find_replace_row same True)
    then show ?thesis
      using case_of_mem [OF ok a] step [OF ok] True by (auto simp: case_evolves_def)
  next
    case False
    have "file_of b (t_action_approvals d') = file_of b (t_action_approvals d)" if "ar_id b = aid" for b
      using others False that by (simp add: file_of_def)
    then have "case_of aid d' = case_of aid d"
      using False by (cases "find (\<lambda>b. ar_id b = aid) (t_actions d)")
        (auto simp: case_of_def acts find_replace_row same dest: find_SomeD)
    then show ?thesis by (simp add: case_evolves_refl)
  qed
qed

lemma evolves_status:
  assumes "a \<in> set (t_actions d)" and "ar_id a' = ar_id a"
    and "t_actions d' = replace_row ar_id a' (t_actions d)" and "t_action_approvals d' = t_action_approvals d"
    and "next_id d \<le> next_id d'"
    and "\<And>aps. case_step (file_of a aps) (file_of a' aps)"
  shows "evolves d d'"
  by (rule evolves_update [OF assms(1-3)]) (use assms in \<open>fastforce simp: ids_ok_def\<close>)+

lemma evolves_open:
  assumes a: "a \<in> set (t_actions d)" "ar_id a' = ar_id a"
    and "t_actions d' = replace_row ar_id a' (t_actions d)"
    and aps: "t_action_approvals d' = t_action_approvals d @ [ap]"
    and ap: "aa_action_request_id ap = ar_id a" "next_id d \<le> aa_id ap" "aa_id ap < next_id d'"
    and step: "aa_id ap \<notin> aa_id ` set (approvals_of (ar_id a) (t_action_approvals d)) \<Longrightarrow>
      case_step (file_of a (t_action_approvals d))
        (file_of a' (t_action_approvals d @ [ap]))"
  shows "evolves d d'"
proof (rule evolves_update [OF assms(1-3)])
  assume ok: "ids_ok d"
  then have fresh: "aa_id ap \<notin> aa_id ` set (t_action_approvals d)" using ap by (fastforce simp: ids_ok_def)
  show "distinct (map aa_id (t_action_approvals d'))
       \<and> (\<forall>ap \<in> set (t_action_approvals d'). aa_id ap < next_id d' \<and> aa_action_request_id ap \<in> ar_id ` set (t_actions d))"
    using ok fresh ap a by (fastforce simp: aps ids_ok_def)
  show "case_step (file_of a (t_action_approvals d)) (file_of a' (t_action_approvals d'))"
    unfolding aps using step fresh by (auto simp: approvals_of_def)
qed (use ap in \<open>auto simp: aps approvals_of_def\<close>)

lemma approvals_of_replace_row:
  assumes "distinct (map aa_id aps)" and "ap \<in> set aps" and "aa_id ap' = aa_id ap"
    and "aa_action_request_id ap' = aa_action_request_id ap"
  shows "approvals_of k (replace_row aa_id ap' aps) = replace_row aa_id ap' (approvals_of k aps)"
    and "k \<noteq> aa_action_request_id ap \<Longrightarrow> approvals_of k (replace_row aa_id ap' aps) = approvals_of k aps"
proof -
  have only: "x = ap" if "x \<in> set aps" "aa_id x = aa_id ap" for x
    using that assms(1,2) by (metis distinct_map inj_onD)
  have "approvals_of k (replace_row aa_id ap' xs) = replace_row aa_id ap' (approvals_of k xs)"
    if "set xs \<subseteq> set aps" for xs
    using that only assms(3,4) by (induction xs) (auto simp: approvals_of_def replace_row_def)
  then show 1: "approvals_of k (replace_row aa_id ap' aps) = replace_row aa_id ap' (approvals_of k aps)"
    by blast
  show "approvals_of k (replace_row aa_id ap' aps) = approvals_of k aps" if "k \<noteq> aa_action_request_id ap"
  proof -
    have "aa_id x \<noteq> aa_id ap'" if "x \<in> set (approvals_of k aps)" for x
      using that only \<open>k \<noteq> _\<close> assms(3) by (auto simp: approvals_of_def)
    then have "replace_row aa_id ap' (approvals_of k aps) = approvals_of k aps"
      by (auto simp: replace_row_def intro: map_idI)
    then show ?thesis using 1 by simp
  qed
qed

lemma evolves_settle:
  assumes a: "a \<in> set (t_actions d)" "ar_id a' = ar_id a"
    and "t_actions d' = replace_row ar_id a' (t_actions d)"
    and ap: "ap \<in> set (t_action_approvals d)" "aa_id ap' = aa_id ap" "aa_action_request_id ap = ar_id a"
      "aa_action_request_id ap' = ar_id a"
    and aps: "t_action_approvals d' = replace_row aa_id ap' (t_action_approvals d)"
    and mono: "next_id d \<le> next_id d'"
    and step: "ap \<in> set (approvals_of (ar_id a) (t_action_approvals d)) \<Longrightarrow>
      case_step (file_of a (t_action_approvals d))
        ((file_of a' (t_action_approvals d))
           \<lparr>cf_approvals := replace_row aa_id ap' (approvals_of (ar_id a) (t_action_approvals d))\<rparr>)"
  shows "evolves d d'"
proof (cases "ids_ok d")
  case ok: True
  then have dist: "distinct (map aa_id (t_action_approvals d))" by (simp add: ids_ok_def)
  note split = approvals_of_replace_row [OF dist ap(1,2)]
  show ?thesis
  proof (rule evolves_update [OF assms(1-3)])
    show "case_step (file_of a (t_action_approvals d)) (file_of a' (t_action_approvals d'))"
      using step ap a by (simp add: file_of_def aps split) (simp add: approvals_of_def)
    show "distinct (map aa_id (t_action_approvals d'))
       \<and> (\<forall>ap \<in> set (t_action_approvals d'). aa_id ap < next_id d' \<and> aa_action_request_id ap \<in> ar_id ` set (t_actions d))"
      using ok ap a mono by (fastforce simp: aps ids_ok_def dest!: set_replace_row)
  qed (use ap mono split in \<open>auto simp: aps\<close>)
qed (simp add: evolves_def)

end
