(* ===== verification/ActionRefinement.thy ===== *)
theory ActionRefinement
  imports ActionGovernance
begin

text \<open>
  Every operation of the action service and every transaction of the worker makes the store
  evolve by steps of \<open>case_step\<close>. Each lemma takes what the operation changed (the effect
  lemmas of the component theories) and names the rule of the specification it is.
\<close>

section \<open>The service refines the specification\<close>

lemma governedD:
  "governed d' = (as, aps, pls, ats, nds) \<Longrightarrow>
     t_actions d' = as \<and> t_action_approvals d' = aps \<and> t_plans d' = pls \<and> t_attempts d' = ats
     \<and> t_notifications d' = nds"
  by (simp add: governed_def)

lemma latest_of_approvals: "latest_revision aid purpose d = latest_of purpose (approvals_of aid (t_action_approvals d))"
  by (simp add: latest_revision_def latest_of_def approvals_of_def conj_commute)

lemma evolves_new:
  assumes "t_actions d' = t_actions d @ [a]" and "t_action_approvals d' = t_action_approvals d"
    and a: "ar_id a = next_id d" and mono: "next_id d < next_id d'"
    and draft: "ar_status a = Action_DRAFT" "ar_plan_checksum_sha256 a = None"
  shows "evolves d d'"
  unfolding evolves_def
proof (intro impI conjI allI)
  assume ok: "ids_ok d"
  show "ids_ok d'" using ok assms by (fastforce simp: ids_ok_def)
  show "next_id d \<le> next_id d'" using mono by simp
  fix aid
  have none: "approvals_of (next_id d) (t_action_approvals d) = []"
    using ok by (fastforce simp: ids_ok_def approvals_of_def filter_empty_conv)
  have new: "initial_case (file_of a (t_action_approvals d))"
    using draft none a by (simp add: initial_case_def file_of_def)
  have fresh: "find (\<lambda>b. ar_id b = next_id d) (t_actions d) = None"
    using ok by (fastforce simp: ids_ok_def find_None_iff)
  have "find P (xs @ [y]) = (case find P xs of None \<Rightarrow> if P y then Some y else None | Some z \<Rightarrow> Some z)"
    for P and xs :: "action_request_row list" and y by (induction xs) auto
  then have "case_of aid d' = (if aid = next_id d then Some (file_of a (t_action_approvals d)) else case_of aid d)"
    using assms fresh by (auto simp: case_of_def split: option.splits)
  then show "case_evolves (case_of aid d) (case_of aid d')"
    using new fresh by (auto simp: case_evolves_def case_of_def split: option.splits)
qed

lemma create_action_evolves: "returns (create_action x clk p wid r) (\<lambda>_ d'. evolves d d') d"
  by (rule returns_conseq [OF create_action_effect])
    (auto dest!: governedD intro: evolves_new simp: new_action_row_def)

lemma file_of_open:
  assumes "request_part a' = request_part a" and "opens_approval d a' purpose ap"
  shows "aa_id ap \<notin> aa_id ` set (approvals_of (ar_id a) (t_action_approvals d)) \<Longrightarrow>
    opened ((file_of a (t_action_approvals d))\<lparr>cf_checksum := ar_plan_checksum_sha256 a'\<rparr>) purpose ap"
    and "file_of a' (t_action_approvals d @ [ap]) =
      (file_of a (t_action_approvals d))\<lparr>cf_status := ar_status a', cf_checksum := ar_plan_checksum_sha256 a',
         cf_approvals := approvals_of (ar_id a) (t_action_approvals d) @ [ap]\<rparr>"
  using assms request_part_fields [OF assms(1)]
  by (auto simp: opened_def file_of_def opens_approval_def latest_of_approvals) (auto simp: approvals_of_def)

lemma preflight_action_evolves: "returns (preflight_action x clk p aid reason ttl) (\<lambda>_ d'. evolves d d') d"
proof (rule returns_conseq [OF preflight_action_effect], elim bexE conjE disjE)
  fix a d' action
  assume mem: "action \<in> set (t_actions d)" and st: "ar_status action \<in> {Action_DRAFT, Action_PREFLIGHT_FAILED}"
    and part: "request_part a = request_part action"
  note same = request_part_fields [OF part]
  {
    assume "preflight_failure d action a d'"
    then have "case_step (file_of action aps) (file_of a aps)" for aps
      using case_step.preflight_failed [of "file_of action aps"] st same
      by (auto simp: preflight_failure_def file_of_def early_def)
    with \<open>preflight_failure d action a d'\<close> show "evolves d d'"
      by (intro evolves_status [OF mem same(1)]) (auto simp: preflight_failure_def dest: governedD)
  next
    assume sealed: "plan_sealed x d action a d'"
    then obtain plan ap s where ap: "opens_approval d a Purpose_EXECUTE ap" "aa_id ap < next_id d'"
      and s: "ar_plan_checksum_sha256 a = Some s" and w: "ar_status a = Action_WAITING_APPROVAL"
      and g: "governed d' = (replace_row ar_id a (t_actions d), t_action_approvals d @ [ap], t_plans d @ [plan],
                           t_attempts d, t_notifications d)"
      unfolding plan_sealed_def by blast
    show "evolves d d'"
    proof (rule evolves_open [OF mem same(1)])
      assume "aa_id ap \<notin> aa_id ` set (approvals_of (ar_id action) (t_action_approvals d))"
      note new = file_of_open(1) [OF part ap(1) this] and case_file = file_of_open(2) [OF part ap(1)]
      show "case_step (file_of action (t_action_approvals d)) (file_of a (t_action_approvals d @ [ap]))"
        using case_step.sealed [of "file_of action (t_action_approvals d)" s ap] new st
        unfolding case_file by (auto simp: s w file_of_def early_def)
    qed (use g ap same in \<open>auto simp: opens_approval_def dest: governedD\<close>)
  }
qed

lemma decide_action_evolves: "returns (decide_action x clk p i approve reason) (\<lambda>_ d'. evolves d d') d"
proof (rule returns_conseq [OF decide_action_effect], elim bexE conjE)
  fix a d' approval action
  assume ap: "approval \<in> set (t_action_approvals d)" and mem: "action \<in> set (t_actions d)"
    and own: "ar_id action = aa_action_request_id approval"
    and dec: "approval_decided d p approve (clk 0) approval action a d'"
  let ?a' = "decided_action action (aa_purpose approval) approve (clk 0)"
  obtain rs where a: "a = approval\<lparr>aa_status := (if approve then Approval_APPROVED else Approval_REJECTED),
           aa_decided_by := Some (p_id p), aa_decision_reason := Some rs, aa_decided_at := Some (clk 0)\<rparr>"
    using dec by (auto simp: approval_decided_def)
  have g: "governed d' = (replace_row ar_id ?a' (t_actions d), replace_row aa_id a (t_action_approvals d),
      t_plans d, t_attempts d, t_notifications d)" "next_id d < next_id d'"
    using dec by (simp_all add: approval_decided_def)
  have a': "ar_id ?a' = ar_id action" "ar_status ?a' = decided_status (aa_purpose approval) approve"
    "ar_plan_checksum_sha256 ?a' = ar_plan_checksum_sha256 action" "ar_requested_by ?a' = ar_requested_by action"
    by (simp_all add: decided_action_def)
  have st: "(aa_purpose approval, approve, decided_status (aa_purpose approval) approve) \<in>
      {(Purpose_EXECUTE, True, Action_APPROVED), (Purpose_EXECUTE, False, Action_REJECTED),
       (Purpose_ROLLBACK, True, Action_ROLLBACK_APPROVED), (Purpose_ROLLBACK, False, Action_ROLLBACK_REJECTED)}"
    by (cases "aa_purpose approval"; cases approve) (simp_all add: decided_status_def)
  show "evolves d d'"
  proof (rule evolves_settle [OF mem a'(1) _ ap])
    assume "approval \<in> set (approvals_of (ar_id action) (t_action_approvals d))"
    then have "case_step (file_of action (t_action_approvals d)) ((file_of action (t_action_approvals d))
        \<lparr>cf_status := decided_status (aa_purpose approval) approve,
          cf_approvals := replace_row aa_id a (cf_approvals (file_of action (t_action_approvals d)))\<rparr>)"
      by (intro case_step.decided [OF _ _ _ _ _ st a]) (use dec in \<open>simp_all add: approval_decided_def file_of_def\<close>)
    then show "case_step (file_of action (t_action_approvals d))
        ((file_of ?a' (t_action_approvals d))
           \<lparr>cf_approvals := replace_row aa_id a (approvals_of (ar_id action) (t_action_approvals d))\<rparr>)"
      by (simp add: file_of_def a')
  qed (use g own a in \<open>auto dest: governedD\<close>)
qed

lemma request_rollback_evolves: "returns (request_rollback x clk p aid reason ttl) (\<lambda>_ d'. evolves d d') d"
proof (rule returns_conseq [OF request_rollback_effect], elim bexE exE conjE)
  fix a d' action ap
  assume mem: "action \<in> set (t_actions d)" and st: "rollbackable (ar_status action)"
    and part: "request_part a = request_part action"
    and a: "ar_status a = Action_WAITING_ROLLBACK_APPROVAL"
      "ar_plan_checksum_sha256 a = ar_plan_checksum_sha256 action"
    and ap: "opens_approval d action Purpose_ROLLBACK ap" "aa_id ap < next_id d'"
    and g: "governed d' = (replace_row ar_id a (t_actions d), t_action_approvals d @ [ap], t_plans d,
                        t_attempts d, t_notifications d)"
  note same = request_part_fields [OF part]
  have ap': "opens_approval d a Purpose_ROLLBACK ap" using ap(1) same a by (simp add: opens_approval_def)
  show "evolves d d'"
  proof (rule evolves_open [OF mem same(1)])
    assume "aa_id ap \<notin> aa_id ` set (approvals_of (ar_id action) (t_action_approvals d))"
    note new = file_of_open(1) [OF part ap' this] and case_file = file_of_open(2) [OF part ap']
    show "case_step (file_of action (t_action_approvals d)) (file_of a (t_action_approvals d @ [ap]))"
      using case_step.rollback_requested [of "file_of action (t_action_approvals d)" ap] new st
      unfolding case_file by (auto simp: a file_of_def rollbackable_def)
  qed (use g ap same in \<open>auto simp: opens_approval_def dest: governedD\<close>)
qed

lemma cancel_action_evolves: "returns (cancel_action x clk p aid) (\<lambda>_ d'. evolves d d') d"
proof (rule returns_conseq [OF cancel_action_effect], elim bexE conjE)
  fix a d' action
  assume mem: "action \<in> set (t_actions d)" and aid: "ar_id action = aid"
    and st: "cancellable (ar_status action)" and part: "request_part a = request_part action"
    and a: "ar_status a = Action_CANCELLED" "ar_plan_checksum_sha256 a = ar_plan_checksum_sha256 action"
    and mono: "next_id d < next_id d'"
    and g: "governed d' = (replace_row ar_id a (t_actions d), cancel_pending aid (clk 0) (t_action_approvals d),
                        t_plans d, t_attempts d, t_notifications d)"
  note same = request_part_fields [OF part]
  let ?aps = "t_action_approvals d"
  have aps: "t_action_approvals d' = cancel_pending aid (clk 0) ?aps" using g by (simp add: governed_def)
  have of: "approvals_of k (cancel_pending aid (clk 0) xs) =
      (if k = aid then cancel_pending aid (clk 0) (approvals_of k xs) else approvals_of k xs)" for k xs
    by (induction xs) (auto simp: approvals_of_def cancel_pending_def)
  have own: "cancel_pending aid (clk 0) (approvals_of aid ?aps) = withdrawn (clk 0) (approvals_of aid ?aps)"
    by (rule cancel_pending_own) (simp add: approvals_of_def)
  show "evolves d d'"
  proof (rule evolves_update [OF mem same(1)])
    assume ok: "ids_ok d"
    have "aa_id x < next_id d' \<and> aa_action_request_id x \<in> ar_id ` set (t_actions d)" if "x \<in> set (t_action_approvals d')" for x
      using cancel_pending_row [of x aid "clk 0" ?aps] that ok mono by (fastforce simp: aps ids_ok_def)
    then show "distinct (map aa_id (t_action_approvals d'))
       \<and> (\<forall>ap \<in> set (t_action_approvals d'). aa_id ap < next_id d' \<and> aa_action_request_id ap \<in> ar_id ` set (t_actions d))"
      using ok by (simp add: aps ids_ok_def)
    show "case_step (file_of action ?aps) (file_of a (t_action_approvals d'))"
      using case_step.cancelled [of "file_of action ?aps" "clk 0"] st same a aid own
      by (auto simp: aps file_of_def of cancellable_def)
  qed (use g mono aid in \<open>auto simp: aps of dest: governedD\<close>)
qed

end
