(* ===== verification/WorkerRefinement.thy ===== *)
theory WorkerRefinement
  imports ActionRefinement
begin

text \<open>
  The transactions of the action worker make the store evolve by steps of \<open>case_step\<close>; the
  attempts keep one row and one idempotency key per action and purpose; and a transaction
  posts at most one request, for an approval that stands in the store.
\<close>

section \<open>The worker refines the specification\<close>

lemma returns_deliver_notification:
  "(\<And>n d'. next_id d \<le> next_id d' \<Longrightarrow> t_actions d' = t_actions d \<Longrightarrow> t_action_approvals d' = t_action_approvals d
      \<Longrightarrow> t_plans d' = t_plans d \<Longrightarrow> t_attempts d' = t_attempts d \<Longrightarrow> Q n d')
     \<Longrightarrow> returns (deliver_notification x clk action title body event) Q d"
  using deliver_notification_effect [of x clk action title body event d]
  by (fastforce simp: returns_def dest: governedD)

lemma governed_same:
  "governed d' = governed d \<Longrightarrow> t_actions d' = t_actions d \<and> t_action_approvals d' = t_action_approvals d
     \<and> t_plans d' = t_plans d \<and> t_attempts d' = t_attempts d"
  by (simp add: governed_def)

lemma returns_worker_event:
  "(\<And>d'. governed d' = governed d \<Longrightarrow> next_id d < next_id d' \<Longrightarrow> Q () d')
     \<Longrightarrow> returns (worker_event x now a n p) Q d"
  unfolding worker_event_def by (rule returns_action_event)

text \<open>The one request row \<open>a\<close> is rewritten and nothing else of the governed tables.\<close>

definition rewrites_row :: "action_request_row \<Rightarrow> db \<Rightarrow> db \<Rightarrow> bool" where
  "rewrites_row a d d' \<longleftrightarrow> t_actions d' = replace_row ar_id a (t_actions d)
     \<and> t_action_approvals d' = t_action_approvals d \<and> t_plans d' = t_plans d \<and> t_attempts d' = t_attempts d
     \<and> next_id d \<le> next_id d'"

lemma complete_action_effect:
  "returns (complete_action x clk action purpose out)
     (\<lambda>_. rewrites_row (completed_action action purpose out (clk 0)) d) d"
  unfolding complete_action_def Let_def
  by (intro service_intros returns_worker_event returns_deliver_notification)
    (auto simp: rewrites_row_def dest!: governed_same)

lemma fail_action_effect:
  "returns (fail_action x clk action code msg)
     (\<lambda>_. rewrites_row (failed_action action code msg (clk 0)) d) d"
  unfolding fail_action_def Let_def
  by (intro service_intros returns_worker_event returns_deliver_notification)
    (auto simp: rewrites_row_def dest!: governed_same)

lemma completed_evolves:
  assumes "action \<in> set (t_actions d)" and "ar_status action = running_status purpose"
    and "rewrites_row (completed_action action purpose out t) d d'"
  shows "evolves d d'"
proof (rule evolves_status [OF assms(1)])
  fix aps
  show "case_step (file_of action aps) (file_of (completed_action action purpose out t) aps)"
    using case_step.completed [of "file_of action aps" "ar_status (completed_action action purpose out t)"] assms(2)
    by (cases purpose) (auto simp: file_of_def completed_action_def running_status_def)
qed (use assms(3) in \<open>auto simp: rewrites_row_def completed_action_def\<close>)

lemma failed_evolves:
  assumes "action \<in> set (t_actions d)" and "running (ar_status action)"
    and "rewrites_row (failed_action action code msg t) d d'"
  shows "evolves d d'"
proof (rule evolves_status [OF assms(1)])
  fix aps
  show "case_step (file_of action aps) (file_of (failed_action action code msg t) aps)"
    using case_step.failed [of "file_of action aps" "ar_status (failed_action action code msg t)"] assms(2)
    by (auto simp: file_of_def failed_action_def running_def)
qed (use assms(3) in \<open>auto simp: rewrites_row_def failed_action_def\<close>)

lemma evolves_orphan:
  assumes none: "find (\<lambda>a. ar_id a = aa_action_request_id ap) (t_actions d) = None"
    and ap: "ap \<in> set (t_action_approvals d)" "aa_id ap' = aa_id ap"
      "aa_action_request_id ap' = aa_action_request_id ap"
    and d': "d' = d\<lparr>t_action_approvals := replace_row aa_id ap' (t_action_approvals d)\<rparr>"
  shows "evolves d d'"
  unfolding evolves_def
proof (intro impI conjI allI)
  assume ok: "ids_ok d"
  then have dist: "distinct (map aa_id (t_action_approvals d))" by (simp add: ids_ok_def)
  show "ids_ok d'" using ok ap by (fastforce simp: d' ids_ok_def dest!: set_replace_row)
  show "next_id d \<le> next_id d'" by (simp add: d')
  fix aid
  have "file_of a (t_action_approvals d') = file_of a (t_action_approvals d)"
    if "find (\<lambda>a. ar_id a = aid) (t_actions d) = Some a" for a
    using that none find_SomeD [OF that] approvals_of_replace_row(2) [OF dist ap, of aid]
    by (cases "aid = aa_action_request_id ap") (auto simp: file_of_def d')
  then have "case_of aid d' = case_of aid d"
    by (cases "find (\<lambda>a. ar_id a = aid) (t_actions d)") (auto simp: case_of_def d')
  then show "case_evolves (case_of aid d) (case_of aid d')" by (simp add: case_evolves_refl)
qed

lemma expire_one_approval_evolves: "returns (expire_one_approval x clk busy) (\<lambda>_ d'. evolves d d') d"
  unfolding expire_one_approval_def Let_def
proof (intro service_intros returns_worker_event, goal_cases)
  case (2 approval)
  show ?case
    by (rule evolves_orphan [OF 2(2)]) (use first_by_in [OF 2(1)] in auto)
next
  case (3 approval action d')
  have ap: "approval \<in> set (t_action_approvals d)" "aa_status approval = Approval_PENDING" "aa_expires_at approval \<le> clk 0"
    using first_by_in [OF 3(1)] by auto
  have a: "action \<in> set (t_actions d)" "ar_id action = aa_action_request_id approval"
    using find_SomeD [OF 3(2)] by auto
  let ?a' = "expired_action action (aa_purpose approval) (clk 0)"
  let ?ap' = "approval\<lparr>aa_status := Approval_EXPIRED, aa_decided_at := Some (clk 0)\<rparr>"
  have g: "t_actions d' = replace_row ar_id ?a' (t_actions d)" "next_id d < next_id d'"
      "t_action_approvals d' = replace_row aa_id ?ap' (t_action_approvals d)"
    using 3 by (auto dest!: governed_same)
  have a': "ar_id ?a' = ar_id action"
    "(aa_purpose approval, ar_status ?a') \<in> {(Purpose_EXECUTE, Action_EXPIRED), (Purpose_ROLLBACK, Action_ROLLBACK_REJECTED)}"
    "ar_plan_checksum_sha256 ?a' = ar_plan_checksum_sha256 action" "ar_requested_by ?a' = ar_requested_by action"
    by (cases "aa_purpose approval"; simp add: expired_action_def)+
  show ?case
  proof (rule evolves_settle [OF a(1) a'(1) g(1) ap(1)])
    assume "approval \<in> set (approvals_of (ar_id action) (t_action_approvals d))"
    then show "case_step (file_of action (t_action_approvals d))
        ((file_of ?a' (t_action_approvals d))
           \<lparr>cf_approvals := replace_row aa_id ?ap' (approvals_of (ar_id action) (t_action_approvals d))\<rparr>)"
      using case_step.expired [of approval "file_of action (t_action_approvals d)" "clk 0" "ar_status ?a'" ?ap'] ap(2,3) a'(2)
      by (simp add: file_of_def a'(1,3,4))
  qed (use g a in auto)
qed simp


lemma next_claimD:
  assumes "next_claim now busy d = Some a"
  shows "a \<in> set (t_actions d)" "claimable (ar_status a)" "ar_cancellation_requested_at a = None"
    "lease_free now a" "ar_id a \<notin> set busy"
  using first_by_in [OF assms [unfolded next_claim_def]] by auto

lemma claimed_evolves:
  assumes a: "a \<in> set (t_actions d)" "claimable (ar_status a)"
    and "t_actions d' = replace_row ar_id (claimed_action e t a) (t_actions d)"
    and "t_action_approvals d' = t_action_approvals d" and "next_id d \<le> next_id d'"
  shows "evolves d d'"
proof (rule evolves_status [OF a(1)])
  fix aps
  show "case_step (file_of a aps) (file_of (claimed_action e t a) aps)"
    using case_step.claimed [of "file_of a aps" "ar_status (claimed_action e t a)"] a(2)
    by (auto simp: file_of_def claimed_action_def claimable_def running_status_def claim_purpose_def)
qed (use assms in \<open>auto simp: claimed_action_def\<close>)

lemma claim_evolves: "returns (claim e clk busy) (\<lambda>_ d'. evolves d d') d"
proof -
  have step: "returns (expire_one_approval (e_ext e) (later 1 clk) busy) Q d"
    if "\<And>d1. evolves d d1 \<Longrightarrow> Q () d1" for Q
    using expire_one_approval_evolves [of "e_ext e" "later 1 clk" busy d] that by (auto simp: returns_def)
  show ?thesis
    unfolding claim_def Let_def
  proof (intro returns_transaction service_intros step returns_worker_event, goal_cases)
    case (2 d1 a d')
    have "evolves d1 d'"
      by (rule claimed_evolves) (use 2 next_claimD [OF 2(2)] in \<open>auto dest!: governed_same\<close>)
    then show ?case using 2(1) evolves_trans by blast
  qed simp
qed

lemma claim_attempts: "returns (claim e clk busy) (\<lambda>_ d'. t_attempts d' = t_attempts d \<and> t_plans d' = t_plans d) d"
  unfolding claim_def expire_one_approval_def Let_def
  by (intro returns_transaction service_intros returns_worker_event) (auto dest!: governed_same)

subsection \<open>The gateway call\<close>

lemma returns_in_db: "returns m (\<lambda>x d. Q x (w\<lparr>w_db := d\<rparr>)) (w_db w) \<Longrightarrow> returns (in_db m) Q w"
  by (auto simp: returns_def in_db_iff)

lemma returns_db_transaction: "returns m Q w \<Longrightarrow> returns (db_transaction m) Q w"
  by (simp add: returns_def db_transaction_Inr)

text \<open>Identifiers only grow.\<close>

lemma preserves_in_db: "preserves P m \<Longrightarrow> preserves (\<lambda>w. P (w_db w)) (in_db m)"
  by (simp add: preserves_def in_db_def case_prod_beta)

lemma append_event_grows: "preserves (\<lambda>d. n \<le> next_id d) (append_event x now dr)"
  unfolding preserves_def by (metis append_event_business less_imp_le order_trans prod.collapse)

lemma write_audit_grows: "preserves (\<lambda>d. n \<le> next_id d) (write_audit now dr)"
  unfolding preserves_def by (metis write_audit_business less_imp_le order_trans prod.collapse)

lemma gateway_result_of_keeps: "preserves P (gateway_result_of x st i oc c m)"
  unfolding gateway_result_of_def by (intro preserves_intros)

text \<open>What the gateway preserves of the store: whatever its writes preserve.\<close>

lemma gateway_invoke_preserves:
  assumes ev: "\<And>x now dr. preserves P (append_event x now dr)" and au: "\<And>now dr. preserves P (write_audit now dr)"
    and el: "\<And>x now q. preserves P (evaluate_action x now q)"
    and pa: "\<And>i. preserves P (put_attempt ((gr_attempt r)\<lparr>at_policy_decision_id := i\<rparr>))"
  shows "preserves (\<lambda>w. P (w_db w)) (gateway_invoke e clk r)"
proof -
  have ge: "preserves (\<lambda>w. P (w_db w)) (gateway_event e now r n a i p)" for now n a i p
    unfolding gateway_event_def by (intro preserves_in_db preserves_andthen ev) auto
  have ga: "preserves (\<lambda>w. P (w_db w)) (gateway_audit now r rc i oc rs l)" for now rc i oc rs l
    unfolding gateway_audit_def by (intro preserves_in_db preserves_andthen au) auto
  have pp: "preserves (\<lambda>w. P (w_db w)) (post_to_provider e rc r)" for rc
    using keeps_preserves [OF post_keeps_db] by blast
  have ca: "preserves (\<lambda>w. P (w_db w)) (call_provider e c rc r i)" for c rc i
    unfolding call_provider_def Let_def
    by (auto intro!: preserves_intros ge ga pp gateway_result_of_keeps split: prod.splits)
  have aa: "preserves (\<lambda>w. P (w_db w)) (after_allow e c rc r i)" for c rc i
    unfolding after_allow_def Let_def
    by (auto intro!: preserves_intros ge ga ca gateway_result_of_keeps split: sum.split)
  have rp: "preserves P (resolve_pinned x r)" for x
    by (simp add: preserves_def resolve_pinned_state)
  show ?thesis
    unfolding gateway_invoke_def
    by (auto intro!: preserves_intros preserves_in_db ge ga aa rp el pa gateway_result_of_keeps)
qed

lemma evaluate_action_preserves:
  assumes "\<And>d row. P d \<Longrightarrow>
    P (d\<lparr>next_id := next_id d + 1, t_policy_decisions := t_policy_decisions d @ [row]\<rparr>)"
  shows "preserves P (evaluate_action x now q)"
  unfolding preserves_def
proof (intro allI impI)
  fix d assume "P d"
  then show "P (snd (evaluate_action x now q d))"
    using evaluate_action_records [of x now q d] assms by auto
qed

lemma gateway_invoke_grows: "preserves (\<lambda>w. n \<le> next_id (w_db w)) (gateway_invoke e clk r)"
  by (intro gateway_invoke_preserves append_event_grows write_audit_grows evaluate_action_preserves)
    (auto simp: preserves_def put_attempt_def modify_def)

lemma returns_gateway_invoke:
  assumes "\<And>v w'. core (w_db w') = core (w_db w) \<Longrightarrow> next_id (w_db w) \<le> next_id (w_db w') \<Longrightarrow> Q v w'"
  shows "returns (gateway_invoke e clk r) Q w"
  unfolding returns_def
  using assms keepsD [OF gateway_invoke_keeps] preservesD [OF gateway_invoke_grows] by blast


subsection \<open>Executing an action\<close>

definition ready :: "time \<Rightarrow> action_request_row \<Rightarrow> db \<Rightarrow> execution \<Rightarrow> bool" where
  "ready now action d ex \<longleftrightarrow>
     ex_purpose ex = (if ar_status action = Action_EXECUTING then Purpose_EXECUTE else Purpose_ROLLBACK)
     \<and> ex_plan ex \<in> set (t_plans d) \<and> pl_action_request_id (ex_plan ex) = ar_id action
     \<and> ar_plan_checksum_sha256 action = Some (pl_checksum_sha256 (ex_plan ex))
     \<and> ex_approval ex \<in> set (t_action_approvals d) \<and> aa_status (ex_approval ex) = Approval_APPROVED
     \<and> aa_action_request_id (ex_approval ex) = ar_id action \<and> aa_purpose (ex_approval ex) = ex_purpose ex
     \<and> aa_plan_checksum_sha256 (ex_approval ex) = pl_checksum_sha256 (ex_plan ex)
     \<and> now < aa_expires_at (ex_approval ex)
     \<and> execution_payload action (ex_plan ex) (ex_purpose ex) = Inr (ex_payload ex)"

lemma executable_planD:
  "executable_plan action d = Some plan \<Longrightarrow> plan \<in> set (t_plans d) \<and> pl_action_request_id plan = ar_id action
     \<and> ar_plan_checksum_sha256 action = Some (pl_checksum_sha256 plan)"
  by (auto simp: executable_plan_def split: option.splits if_splits dest: find_SomeD)

lemma executable_approvalD:
  "executable_approval action purpose plan d = Some ap \<Longrightarrow> ap \<in> set (t_action_approvals d)
     \<and> aa_action_request_id ap = ar_id action \<and> aa_purpose ap = purpose \<and> aa_status ap = Approval_APPROVED
     \<and> aa_plan_checksum_sha256 ap = pl_checksum_sha256 plan"
  unfolding executable_approval_def by (drule first_by_in) auto

lemma load_execution_ready: "returns (load_execution now action) (\<lambda>ex d'. d' = d \<and> ready now action d ex) d"
  unfolding load_execution_def Let_def
  by (intro service_intros) (auto simp: ready_def dest!: executable_planD executable_approvalD)

lemma obtain_attempt_effect:
  "returns (obtain_attempt now action ex) (\<lambda>a d'.
     is_attempt_of action (ex_purpose ex) a \<and> next_id d \<le> next_id d'
     \<and> t_actions d' = t_actions d \<and> t_action_approvals d' = t_action_approvals d \<and> t_plans d' = t_plans d
     \<and> (a \<in> set (t_attempts d) \<and> t_attempts d' = t_attempts d
        \<or> (\<exists>i. a = new_attempt i action ex now \<and> t_attempts d' = t_attempts d @ [a] \<and> next_id d \<le> i
             \<and> i < next_id d'
             \<and> (\<forall>b \<in> set (t_attempts d). \<not> is_attempt_of action (ex_purpose ex) b)))) d"
  unfolding obtain_attempt_def
  by (intro service_intros)
    (auto simp: is_attempt_of_def new_attempt_def dest: find_SomeD find_NoneD)

lemma returns_complete_action:
  "(\<And>d'. rewrites_row (completed_action action purpose out (clk 0)) d d' \<Longrightarrow> Q () d')
     \<Longrightarrow> returns (complete_action x clk action purpose out) Q d"
  using complete_action_effect [of x clk action purpose out d] by (simp add: returns_def)

lemma returns_fail_action:
  "(\<And>d'. rewrites_row (failed_action action code msg (clk 0)) d d' \<Longrightarrow> Q () d')
     \<Longrightarrow> returns (fail_action x clk action code msg) Q d"
  using fail_action_effect [of x clk action code msg d] by (simp add: returns_def)

lemma returns_put_attempt:
  "Q () (d\<lparr>t_attempts := replace_row at_id a (t_attempts d)\<rparr>) \<Longrightarrow> returns (put_attempt a) Q d"
  by (simp add: put_attempt_def returns_modify)

lemma evolves_two:
  assumes "t_actions d1 = t_actions d" "t_action_approvals d1 = t_action_approvals d" "next_id d \<le> next_id d1"
    and "evolves d1 d'"
  shows "evolves d d'"
  using evolves_trans [OF evolves_frame [OF assms(1-3)] assms(4)] .

lemma run_attempt_evolves:
  assumes a: "action \<in> set (t_actions (w_db w))" "ar_status action = running_status (ex_purpose ex)"
  shows "returns (run_attempt e clk now action ex atm) (\<lambda>_ w'. evolves (w_db w) (w_db w')) w"
  unfolding run_attempt_def settle_attempt_def Let_def
proof (intro returns_intros returns_in_db returns_put_attempt returns_gateway_invoke returns_complete_action
    returns_fail_action, goal_cases)
  case (1 v w1 u d')
  have d: "t_actions (w_db w1) = t_actions (w_db w)" "t_action_approvals (w_db w1) = t_action_approvals (w_db w)"
    using core_tables [OF 1(1)] by simp_all
  have "evolves (w_db w) d'"
    by (rule evolves_two [OF _ _ _ completed_evolves [OF _ a(2) 1(5)]]) (use 1 d a in simp_all)
  then show ?case by simp
next
  case (2 v w1 u d')
  have d: "t_actions (w_db w1) = t_actions (w_db w)" "t_action_approvals (w_db w1) = t_action_approvals (w_db w)"
    using core_tables [OF 2(1)] by simp_all
  have r: "running (ar_status action)" using a(2) by (simp add: running_def running_status_def)
  have "evolves (w_db w) d'"
    by (rule evolves_two [OF _ _ _ failed_evolves [OF _ r 2(5)]]) (use 2 d a in simp_all)
  then show ?case by simp
qed


lemma returns_load_execution:
  "(\<And>ex. ready now action d ex \<Longrightarrow> Q ex d) \<Longrightarrow> returns (load_execution now action) Q d"
  using load_execution_ready [of now action d] by (fastforce simp: returns_def)

lemma returns_obtain_attempt:
  "(\<And>a d'. is_attempt_of action (ex_purpose ex) a \<Longrightarrow> next_id d \<le> next_id d' \<Longrightarrow> t_actions d' = t_actions d
      \<Longrightarrow> t_action_approvals d' = t_action_approvals d \<Longrightarrow> Q a d')
     \<Longrightarrow> returns (obtain_attempt now action ex) Q d"
  using obtain_attempt_effect [of now action ex d] by (fastforce simp: returns_def)

lemma ready_purpose: "ready now action d ex \<Longrightarrow> running (ar_status action) \<Longrightarrow>
    ar_status action = running_status (ex_purpose ex)"
  by (auto simp: ready_def running_def running_status_def split: if_splits)

lemma invoke_action_evolves: "returns (invoke_action e clk aid) (\<lambda>_ w'. evolves (w_db w) (w_db w')) w"
  unfolding invoke_action_def Let_def
proof (intro returns_db_transaction returns_intros returns_in_db returns_fail_action returns_complete_action
    returns_load_execution returns_obtain_attempt, goal_cases)
  case (3 action d')
  have "evolves (w_db w) d'"
    by (rule failed_evolves [OF _ _ 3(4) [simplified]]) (use 3 in \<open>auto dest: find_SomeD\<close>)
  then show ?case by simp
next
  case (4 action ex a d1 d')
  have "evolves (w_db w) d'"
    by (rule evolves_two [OF _ _ _ completed_evolves [OF _ ready_purpose [OF 4(4)] 4(10)]])
      (use 4 in \<open>auto dest: find_SomeD\<close>)
  then show ?case by simp
next
  case (5 action ex a d1)
  let ?w = "w\<lparr>w_db := d1\<rparr>"
  have "action \<in> set (t_actions (w_db ?w))" using 5 by (auto dest: find_SomeD)
  then have "returns (run_attempt e (later 2 clk) (clk 0) action ex a) (\<lambda>_ w'. evolves (w_db ?w) (w_db w')) ?w"
    by (rule run_attempt_evolves) (use ready_purpose [OF 5(4)] 5 in simp)
  then have "returns (run_attempt e (later 2 clk) (clk 0) action ex a) (\<lambda>_ w'. evolves (w_db w) (w_db w')) ?w"
    by (rule returns_conseq) (rule evolves_two, use 5 in simp_all)
  then show ?case by simp
qed auto

lemma fail_after_exception_evolves:
  "returns (fail_after_exception e clk aid code msg) (\<lambda>_ w'. evolves (w_db w) (w_db w')) w"
  unfolding fail_after_exception_def
proof (intro returns_db_transaction returns_intros returns_in_db returns_fail_action, goal_cases)
  case (3 action d')
  have "evolves (w_db w) d'"
    by (rule failed_evolves [OF _ _ 3(3) [simplified]]) (use 3 in \<open>auto dest: find_SomeD\<close>)
  then show ?case by simp
qed auto


subsection \<open>Attempts\<close>

text \<open>
  What identifies an attempt: its row, the tenant, the action and purpose it is for, and the
  idempotency key sent to the provider. No later write changes it.
\<close>

definition attempt_ident :: "action_attempt_row \<Rightarrow> uuid \<times> uuid \<times> uuid \<times> action_approval_purpose \<times> int \<times> string" where
  "attempt_ident a = (at_id a, at_organization_id a, at_action_request_id a, at_purpose a, at_ordinal a,
     at_idempotency_key a)"

definition attempts_ok :: "db \<Rightarrow> bool" where
  "attempts_ok d \<longleftrightarrow>
     distinct (map at_id (t_attempts d))
     \<and> distinct (map (\<lambda>a. (at_organization_id a, at_action_request_id a, at_purpose a)) (t_attempts d))
     \<and> (\<forall>a \<in> set (t_attempts d). at_id a < next_id d \<and> at_ordinal a = 1
          \<and> at_idempotency_key a = attempt_key (at_action_request_id a) (at_purpose a))"

lemma attempts_ok_cong:
  assumes "map attempt_ident (t_attempts d') = map attempt_ident (t_attempts d)" and "next_id d \<le> next_id d'"
    and "attempts_ok d"
  shows "attempts_ok d'"
proof -
  have proj: "map (f \<circ> attempt_ident) (t_attempts d') = map (f \<circ> attempt_ident) (t_attempts d)" for f :: "_ \<Rightarrow> 'b"
    using assms(1) by (metis map_map)
  have "map at_id (t_attempts d') = map at_id (t_attempts d)"
    using proj [of fst] by (simp add: comp_def attempt_ident_def)
  moreover have "map (\<lambda>a. (at_organization_id a, at_action_request_id a, at_purpose a)) (t_attempts d') =
      map (\<lambda>a. (at_organization_id a, at_action_request_id a, at_purpose a)) (t_attempts d)"
    using proj [of "\<lambda>(i, org, aid, p, n, k). (org, aid, p)"] by (simp add: comp_def attempt_ident_def)
  moreover have "\<exists>b \<in> set (t_attempts d). attempt_ident b = attempt_ident a" if "a \<in> set (t_attempts d')" for a
    using that assms(1) by (metis (mono_tags, lifting) image_iff list.set_map)
  ultimately show ?thesis
    using assms(2,3) unfolding attempts_ok_def by (fastforce simp: attempt_ident_def)
qed

lemma put_attempt_ident:
  assumes "b \<in> set ats" and "attempt_ident a = attempt_ident b" and "distinct (map at_id ats)"
  shows "map attempt_ident (replace_row at_id a ats) = map attempt_ident ats"
proof -
  have id: "at_id a = at_id b" using assms(2) by (simp add: attempt_ident_def)
  show ?thesis
    unfolding replace_row_def map_map comp_def
    by (rule map_cong [OF refl]) (use assms id in \<open>metis (mono_tags, lifting) distinct_map inj_onD\<close>)
qed

text \<open>The gateway rewrites at most the attempt it is given.\<close>

lemma gateway_attempts:
  assumes "\<exists>b \<in> set (t_attempts (w_db w)). attempt_ident (gr_attempt r) = attempt_ident b"
    and "distinct (map at_id (t_attempts (w_db w)))" and "gateway_invoke e clk r w = (v, w')"
  shows "map attempt_ident (t_attempts (w_db w')) = map attempt_ident (t_attempts (w_db w))"
proof -
  let ?L = "map attempt_ident (t_attempts (w_db w))"
  define P where "P d \<longleftrightarrow> map attempt_ident (t_attempts d) = ?L" for d :: db
  have b: "P d' = P d" if "business d' = business d" for d d'
    using business_tables(24) [OF that] by (simp add: P_def)
  have pa: "preserves P (put_attempt ((gr_attempt r)\<lparr>at_policy_decision_id := i\<rparr>))" for i
    unfolding preserves_def
  proof (intro allI impI)
    fix d assume d: "P d"
    have id: "attempt_ident ((gr_attempt r)\<lparr>at_policy_decision_id := i\<rparr>) = attempt_ident (gr_attempt r)"
      by (simp add: attempt_ident_def)
    have "map (fst \<circ> attempt_ident) (t_attempts d) = map (fst \<circ> attempt_ident) (t_attempts (w_db w))"
      using d unfolding P_def by (metis map_map)
    then have dist: "distinct (map at_id (t_attempts d))"
      using assms(2) by (simp add: comp_def attempt_ident_def)
    have "attempt_ident (gr_attempt r) \<in> set (map attempt_ident (t_attempts d))"
      using assms(1) d unfolding P_def by auto
    then obtain b where "b \<in> set (t_attempts d)" "attempt_ident (gr_attempt r) = attempt_ident b" by auto
    then have "map attempt_ident (replace_row at_id ((gr_attempt r)\<lparr>at_policy_decision_id := i\<rparr>) (t_attempts d))
        = map attempt_ident (t_attempts d)"
      using put_attempt_ident dist id by metis
    then show "P (snd (put_attempt ((gr_attempt r)\<lparr>at_policy_decision_id := i\<rparr>) d))"
      using d by (simp add: P_def put_attempt_def modify_def)
  qed
  have pr: "preserves (\<lambda>w. P (w_db w)) (gateway_invoke e clk r)"
  proof (intro gateway_invoke_preserves evaluate_action_preserves pa)
    show "preserves P (append_event x now dr)" for x now dr
      unfolding preserves_def by (metis append_event_business b prod.collapse)
    show "preserves P (write_audit now dr)" for now dr
      unfolding preserves_def by (metis write_audit_business b prod.collapse)
  qed (simp add: P_def)
  have "P (w_db w')" by (rule preservesD [OF pr _ assms(3)]) (simp add: P_def)
  then show ?thesis by (simp add: P_def)
qed


lemma new_attempt_ok:
  assumes ok: "attempts_ok d" and none: "\<forall>b \<in> set (t_attempts d). \<not> is_attempt_of action (ex_purpose ex) b"
    and d': "t_attempts d' = t_attempts d @ [new_attempt i action ex now]" "next_id d \<le> i" "i < next_id d'"
  shows "attempts_ok d'"
proof -
  have fresh: "i \<notin> at_id ` set (t_attempts d)" using ok d' by (fastforce simp: attempts_ok_def)
  have "(ar_organization_id action, ar_id action, ex_purpose ex)
      \<notin> (\<lambda>a. (at_organization_id a, at_action_request_id a, at_purpose a)) ` set (t_attempts d)"
    using none ok by (auto simp: is_attempt_of_def attempts_ok_def)
  then show ?thesis
    using ok fresh d' unfolding attempts_ok_def by (fastforce simp: new_attempt_def)
qed

lemma obtain_attempt_ok:
  assumes "attempts_ok d"
  shows "returns (obtain_attempt now action ex) (\<lambda>a d'. attempts_ok d' \<and> a \<in> set (t_attempts d')
     \<and> at_idempotency_key a = attempt_key (ar_id action) (ex_purpose ex)) d"
proof (rule returns_conseq [OF obtain_attempt_effect], elim conjE disjE exE)
  fix a and d' :: db
  assume a: "is_attempt_of action (ex_purpose ex) a" and le: "next_id d \<le> next_id d'"
  {
    assume "a \<in> set (t_attempts d)" "t_attempts d' = t_attempts d"
    moreover from this have "attempts_ok d'" by (intro attempts_ok_cong [OF _ le assms]) simp
    ultimately show "attempts_ok d' \<and> a \<in> set (t_attempts d')
       \<and> at_idempotency_key a = attempt_key (ar_id action) (ex_purpose ex)"
      using a by (auto simp: attempts_ok_def is_attempt_of_def)
  next
    fix i
    assume n: "a = new_attempt i action ex now" "t_attempts d' = t_attempts d @ [a]" "next_id d \<le> i" "i < next_id d'"
      "\<forall>b \<in> set (t_attempts d). \<not> is_attempt_of action (ex_purpose ex) b"
    then have "attempts_ok d'" by (intro new_attempt_ok [OF assms n(5)]) auto
    then show "attempts_ok d' \<and> a \<in> set (t_attempts d')
       \<and> at_idempotency_key a = attempt_key (ar_id action) (ex_purpose ex)"
      using n by (simp add: new_attempt_def)
  }
qed

text \<open>
  \<open>posts_only P m w\<close>: whether it returns or raises, the operation posts nothing or one
  request satisfying \<open>P\<close>.
\<close>

definition posts_only :: "(post \<Rightarrow> bool) \<Rightarrow> (world, 'a) op \<Rightarrow> world \<Rightarrow> bool" where
  "posts_only P m w \<longleftrightarrow> (\<forall>v w'. m w = (v, w') \<longrightarrow>
     w_posts w' = w_posts w \<or> (\<exists>po. w_posts w' = w_posts w @ [po] \<and> P po))"

lemma posts_keeps: "keeps w_posts m \<Longrightarrow> posts_only P m w"
  unfolding posts_only_def by (blast dest: keepsD)

lemma posts_transaction: "posts_only P m w \<Longrightarrow> posts_only P (db_transaction m) w"
proof -
  have "\<exists>w1. m w = (v, w1) \<and> w_posts w' = w_posts w1" if "db_transaction m w = (v, w')" for v w'
    using that by (auto simp: db_transaction_def split: prod.splits sum.splits)
  then show "posts_only P m w \<Longrightarrow> posts_only P (db_transaction m) w"
    unfolding posts_only_def by metis
qed

lemma posts_before:
  assumes "keeps w_posts m" and "returns m (\<lambda>x w1. posts_only P (k x) w1) w"
  shows "posts_only P (andthen m k) w"
  unfolding posts_only_def
proof (intro allI impI)
  fix v w' assume r: "andthen m k w = (v, w')"
  obtain u w1 where m: "m w = (u, w1)" by (cases "m w")
  have p: "w_posts w1 = w_posts w" using keepsD [OF assms(1) m] .
  show "w_posts w' = w_posts w \<or> (\<exists>po. w_posts w' = w_posts w @ [po] \<and> P po)"
    using r m p assms(2) by (cases u) (auto simp: andthen_def returns_def posts_only_def)
qed

lemma posts_after:
  assumes "posts_only P m w" and "\<And>x. keeps w_posts (k x)"
  shows "posts_only P (andthen m k) w"
  unfolding posts_only_def
proof (intro allI impI)
  fix v w' assume r: "andthen m k w = (v, w')"
  obtain u w1 where m: "m w = (u, w1)" by (cases "m w")
  show "w_posts w' = w_posts w \<or> (\<exists>po. w_posts w' = w_posts w @ [po] \<and> P po)"
  proof (cases u)
    case (Inl err)
    then show ?thesis using r m assms(1) by (simp add: andthen_def posts_only_def)
  next
    case (Inr x)
    then have "k x w1 = (v, w')" using r m by (simp add: andthen_def)
    then show ?thesis using keepsD [OF assms(2)] m assms(1) unfolding posts_only_def by metis
  qed
qed

text \<open>A request sent for an approval, with the key and the checksum that go with it.\<close>

definition post_of_approval :: "action_approval_row \<Rightarrow> post \<Rightarrow> bool" where
  "post_of_approval ap po \<longleftrightarrow>
     aa_status ap = Approval_APPROVED
     \<and> (''Idempotency-Key'', attempt_key (aa_action_request_id ap) (aa_purpose ap)) \<in> set (po_headers po)
     \<and> map_of (po_payload po) ''purpose'' = Some (JStr (action_approval_purpose_value (aa_purpose ap)))
     \<and> map_of (po_payload po) ''obsion'' =
         Some (JObj [(''action_request_id'', JStr (uuid_str (aa_action_request_id ap))),
                     (''plan_checksum_sha256'', JStr (aa_plan_checksum_sha256 ap))])"

definition approved_post :: "db \<Rightarrow> post \<Rightarrow> bool" where
  "approved_post d po \<longleftrightarrow> (\<exists>ap \<in> set (t_action_approvals d). post_of_approval ap po)"

lemma execution_payload_form:
  "execution_payload action plan purpose = Inr pay \<Longrightarrow>
     \<exists>ps original. pay = action_provider_payload action (pl_checksum_sha256 plan) purpose ps original"
  by (auto simp: execution_payload_def Let_def split: option.splits)

lemma ready_post:
  assumes "ready now action d ex" and "is_post_of x d' rc r po" and "gr_payload r = ex_payload ex"
    and "at_idempotency_key (gr_attempt r) = attempt_key (ar_id action) (ex_purpose ex)"
  shows "approved_post d po"
proof -
  have payload: "po_payload po = ex_payload ex"
    and key: "(''Idempotency-Key'', attempt_key (ar_id action) (ex_purpose ex)) \<in> set (po_headers po)"
    using assms by (auto simp: is_post_of_def post_headers_def)
  obtain parameters original where pay: "ex_payload ex = action_provider_payload action
      (pl_checksum_sha256 (ex_plan ex)) (ex_purpose ex) parameters original"
    using assms(1) execution_payload_form unfolding ready_def by blast
  have "post_of_approval (ex_approval ex) po"
    using assms(1) key unfolding post_of_approval_def payload pay
    by (simp add: ready_def action_provider_payload_def)
  then show ?thesis using assms(1) by (auto simp: approved_post_def ready_def)
qed

lemma gateway_posts:
  assumes "ready now action d ex" and "gr_payload r = ex_payload ex"
    and "at_idempotency_key (gr_attempt r) = attempt_key (ar_id action) (ex_purpose ex)"
  shows "posts_only (approved_post d) (gateway_invoke e clk r) w"
  unfolding posts_only_def post_authorised_def
  using gateway_invoke_posts ready_post [OF assms(1) _ assms(2,3)] unfolding post_authorised_def by meson

lemma settle_attempt_posts [simp]: "keeps w_posts (settle_attempt e clk action ex atm result)"
  unfolding settle_attempt_def Let_def by (intro keeps_andthen) auto

lemma run_attempt_posts:
  assumes "ready now action d ex" and "at_idempotency_key atm = attempt_key (ar_id action) (ex_purpose ex)"
  shows "posts_only (approved_post d) (run_attempt e clk t action ex atm) w"
  unfolding run_attempt_def
  by (intro posts_before posts_after gateway_posts [OF assms(1)] returns_in_db returns_put_attempt settle_attempt_posts)
    (use assms(2) in \<open>auto simp: execution_request_def running_attempt_def\<close>)

lemma invoke_action_posts:
  assumes "attempts_ok (w_db w)"
  shows "posts_only (approved_post (w_db w)) (invoke_action e clk aid) w"
proof -
  have ob: "returns (obtain_attempt t action ex) Q d"
    if "attempts_ok d" "\<And>a d'. at_idempotency_key a = attempt_key (ar_id action) (ex_purpose ex) \<Longrightarrow> Q a d'"
    for t action ex Q d
    using obtain_attempt_ok [OF that(1), of t action ex] that(2) by (auto simp: returns_def)
  show ?thesis
    unfolding invoke_action_def Let_def
  proof (intro posts_transaction posts_before in_db_posts returns_in_db returns_reads, goal_cases)
    case 1
    show ?case
    proof (cases "find (\<lambda>a. ar_id a = aid) (t_actions (w_db w))")
      case (Some action)
      have "posts_only (approved_post (w_db w))
          (andthen (in_db (load_execution (clk 0) action)) (\<lambda>ex.
           andthen (in_db (obtain_attempt (clk 1) action ex)) (\<lambda>atm.
             if at_status atm = Attempt_COMPLETED
             then in_db (complete_action (e_ext e) (later 2 clk) action (ex_purpose ex) (at_output atm))
             else run_attempt e (later 2 clk) (clk 0) action ex atm))) w"
        by (intro posts_before in_db_posts returns_in_db returns_load_execution ob)
          (use assms in \<open>auto intro: posts_keeps run_attempt_posts\<close>)
      then show ?thesis using Some by (auto intro: posts_keeps)
    qed (simp add: posts_keeps)
  qed
qed


text \<open>Executing keeps the attempts in order.\<close>

lemma finished_ident: "attempt_ident (finished_attempt atm result t) = attempt_ident atm"
  by (simp add: finished_attempt_def attempt_ident_def)

lemma put_attempt_ok:
  assumes "attempts_ok d" and "b \<in> set (t_attempts d)" and "attempt_ident a = attempt_ident b"
  shows "attempts_ok (d\<lparr>t_attempts := replace_row at_id a (t_attempts d)\<rparr>)"
  by (rule attempts_ok_cong [OF _ _ assms(1)])
    (use assms put_attempt_ident [of b _ a] in \<open>auto simp: attempts_ok_def\<close>)

lemma ident_kept:
  "map attempt_ident ats' = map attempt_ident ats \<Longrightarrow> b \<in> set ats \<Longrightarrow> \<exists>c \<in> set ats'. attempt_ident c = attempt_ident b"
  by (metis (mono_tags, lifting) image_iff list.set_map)

lemma rewrites_attempts_ok: "rewrites_row a d d' \<Longrightarrow> attempts_ok d \<Longrightarrow> attempts_ok d'"
  by (rule attempts_ok_cong) (auto simp: rewrites_row_def)

lemma run_attempt_ok:
  assumes ok: "attempts_ok (w_db w)" and b: "atm \<in> set (t_attempts (w_db w))"
  shows "returns (run_attempt e clk t action ex atm) (\<lambda>_ w'. attempts_ok (w_db w')) w"
proof -
  define act where "act = running_attempt t atm"
  have id: "attempt_ident act = attempt_ident atm"
    by (simp add: act_def running_attempt_def attempt_ident_def)
  define d1 where "d1 = (w_db w)\<lparr>t_attempts := replace_row at_id act (t_attempts (w_db w))\<rparr>"
  have ok1: "attempts_ok d1" unfolding d1_def by (rule put_attempt_ok [OF ok b id])
  have map1: "map attempt_ident (t_attempts d1) = map attempt_ident (t_attempts (w_db w))"
    using put_attempt_ident [OF b id] ok by (simp add: d1_def attempts_ok_def)
  have b1: "\<exists>c \<in> set (t_attempts d1). attempt_ident act = attempt_ident c"
    using ident_kept [OF map1 b] id by metis
  have dist1: "distinct (map at_id (t_attempts d1))" using ok1 by (simp add: attempts_ok_def)
  have gw: "returns (gateway_invoke e clk r) Q (w\<lparr>w_db := d1\<rparr>)"
    if "gr_attempt r = act"
      "\<And>v w'. attempts_ok (w_db w') \<Longrightarrow> \<exists>c \<in> set (t_attempts (w_db w')). attempt_ident act = attempt_ident c \<Longrightarrow> Q v w'"
    for r Q
    unfolding returns_def
  proof (intro allI impI)
    fix v w' assume run: "gateway_invoke e clk r (w\<lparr>w_db := d1\<rparr>) = (Inr v, w')"
    have m: "map attempt_ident (t_attempts (w_db w')) = map attempt_ident (t_attempts d1)"
      using gateway_attempts [OF _ _ run] b1 dist1 that(1) by simp
    moreover have "next_id d1 \<le> next_id (w_db w')"
      by (rule preservesD [OF gateway_invoke_grows _ run]) simp
    ultimately have "attempts_ok (w_db w')" using attempts_ok_cong ok1 by metis
    then show "Q v w'" using that(2) b1 ident_kept [OF m] by metis
  qed
  have fin: "attempts_ok (d\<lparr>t_attempts := replace_row at_id (finished_attempt act v t') (t_attempts d)\<rparr>)"
    if "attempts_ok d" "\<exists>c \<in> set (t_attempts d). attempt_ident act = attempt_ident c" for d v t'
    using that put_attempt_ok finished_ident by metis
  show ?thesis
    unfolding run_attempt_def settle_attempt_def Let_def act_def [symmetric]
  proof (intro returns_andthen returns_in_db returns_put_attempt, fold d1_def, rule gw, simp add: execution_request_def,
      intro returns_intros returns_in_db returns_put_attempt returns_complete_action returns_fail_action,
      goal_cases)
    case (1 v w1 u d')
    then show ?case using rewrites_attempts_ok [OF 1(5)] fin by simp
  next
    case (2 v w1 u d')
    then show ?case using rewrites_attempts_ok [OF 2(5)] fin by simp
  qed
qed

lemma invoke_action_ok:
  assumes "attempts_ok (w_db w)"
  shows "returns (invoke_action e clk aid) (\<lambda>_ w'. attempts_ok (w_db w')) w"
proof -
  have ob: "returns (obtain_attempt t action ex) Q d"
    if "attempts_ok d" "\<And>a d'. attempts_ok d' \<Longrightarrow> a \<in> set (t_attempts d') \<Longrightarrow> Q a d'" for t action ex Q d
    using obtain_attempt_ok [OF that(1), of t action ex] that(2) by (auto simp: returns_def)
  show ?thesis
    unfolding invoke_action_def Let_def
    by (intro returns_db_transaction returns_intros returns_in_db returns_fail_action returns_complete_action
        returns_load_execution ob run_attempt_ok) (use assms in \<open>auto intro: rewrites_attempts_ok\<close>)
qed

end
