(* ===== verification/ActionSystem.thy ===== *)
theory ActionSystem
  imports WorkerRefinement
begin

text \<open>
  The running system of governed actions: API requests, any number of worker processes with
  their task pools, and everything else that uses the same database, interleaved transaction by
  transaction. Row locks make the transactions of the source atomic, so a transaction is one
  step; between two transactions of a task (claiming, invoking, recording a failure) anything
  else may happen. A worker process is named by its \<open>worker_id\<close>; \<open>sy_permits\<close> is its
  semaphore and \<open>sy_tasks\<close> its running tasks, as in \<open>ActionWorker._loop\<close>.
\<close>

section \<open>States and steps\<close>

datatype task = Invoking uuid | Failing uuid string string

record system =
  sy_world :: world
  sy_permits :: "string \<Rightarrow> int"
  sy_tasks :: "(string \<times> task) list"

definition sy_db :: "system \<Rightarrow> db" where
  "sy_db s = w_db (sy_world s)"

definition with_db :: "db \<Rightarrow> system \<Rightarrow> system" where
  "with_db d s = s\<lparr>sy_world := (sy_world s)\<lparr>w_db := d\<rparr>\<rparr>"

definition start_task :: "string \<Rightarrow> task \<Rightarrow> system \<Rightarrow> system" where
  "start_task k t s = s\<lparr>sy_permits := (sy_permits s)(k := sy_permits s k - 1), sy_tasks := (k, t) # sy_tasks s\<rparr>"

definition end_task :: "string \<Rightarrow> task \<Rightarrow> system \<Rightarrow> system" where
  "end_task k t s = s\<lparr>sy_permits := (sy_permits s)(k := sy_permits s k + 1), sy_tasks := remove1 (k, t) (sy_tasks s)\<rparr>"

definition replace_task :: "string \<Rightarrow> task \<Rightarrow> task \<Rightarrow> system \<Rightarrow> system" where
  "replace_task k t t' s = s\<lparr>sy_tasks := (k, t') # remove1 (k, t) (sy_tasks s)\<rparr>"

text \<open>The API requests, each the transaction of its endpoint.\<close>

datatype request =
    Create principal uuid create_action_request
  | Preflight principal uuid string int
  | Decide principal uuid bool string
  | Rollback principal uuid string int
  | Cancel principal uuid

fun serve :: "ext \<Rightarrow> clock \<Rightarrow> request \<Rightarrow> db \<Rightarrow> db" where
  "serve x clk (Create p wid r) d = snd (transaction (create_action x clk p wid r) d)"
| "serve x clk (Preflight p aid reason ttl) d = snd (transaction (preflight_action x clk p aid reason ttl) d)"
| "serve x clk (Decide p i approve reason) d = snd (decide_endpoint x clk p i approve reason d)"
| "serve x clk (Rollback p aid reason ttl) d = snd (transaction (request_rollback x clk p aid reason ttl) d)"
| "serve x clk (Cancel p aid) d = snd (transaction (cancel_action x clk p aid) d)"

inductive system_step :: "system \<Rightarrow> system \<Rightarrow> bool" where
  api: "system_step s (with_db (serve x clk rq (sy_db s)) s)"
| idle: "0 < sy_permits s (e_worker_id e) \<Longrightarrow> claim e clk busy (sy_db s) = (v, d) \<Longrightarrow>
    v = Inr None \<or> (\<exists>err. v = Inl err) \<Longrightarrow> system_step s (with_db d s)"
| claimed: "0 < sy_permits s (e_worker_id e) \<Longrightarrow> claim e clk busy (sy_db s) = (Inr (Some aid), d) \<Longrightarrow>
    system_step s (start_task (e_worker_id e) (Invoking aid) (with_db d s))"
| invoked: "(e_worker_id e, Invoking aid) \<in> set (sy_tasks s) \<Longrightarrow>
    invoke_action e clk aid (sy_world s) = (Inr (), w) \<Longrightarrow>
    system_step s (end_task (e_worker_id e) (Invoking aid) (s\<lparr>sy_world := w\<rparr>))"
| raised: "(e_worker_id e, Invoking aid) \<in> set (sy_tasks s) \<Longrightarrow>
    invoke_action e clk aid (sy_world s) = (Inl err, w) \<Longrightarrow> failure_of err = (code, msg) \<Longrightarrow>
    system_step s (replace_task (e_worker_id e) (Invoking aid) (Failing aid code msg) (s\<lparr>sy_world := w\<rparr>))"
| recorded: "(e_worker_id e, Failing aid code msg) \<in> set (sy_tasks s) \<Longrightarrow>
    fail_after_exception e clk aid code msg (sy_world s) = (v, w) \<Longrightarrow>
    system_step s (end_task (e_worker_id e) (Failing aid code msg) (s\<lparr>sy_world := w\<rparr>))"
| other: "t_actions d = t_actions (sy_db s) \<Longrightarrow> t_action_approvals d = t_action_approvals (sy_db s) \<Longrightarrow>
    t_attempts d = t_attempts (sy_db s) \<Longrightarrow> next_id (sy_db s) \<le> next_id d \<Longrightarrow> system_step s (with_db d s)"

definition system_initial :: "(string \<Rightarrow> int) \<Rightarrow> system \<Rightarrow> bool" where
  "system_initial conc s \<longleftrightarrow> t_actions (sy_db s) = [] \<and> t_action_approvals (sy_db s) = []
     \<and> t_attempts (sy_db s) = [] \<and> w_posts (sy_world s) = [] \<and> sy_tasks s = []
     \<and> (\<forall>k. sy_permits s k = conc k \<and> 0 \<le> conc k)"

inductive system_reachable :: "(string \<Rightarrow> int) \<Rightarrow> system \<Rightarrow> bool" for conc where
  start: "system_initial conc s \<Longrightarrow> system_reachable conc s"
| step: "system_reachable conc s \<Longrightarrow> system_step s s' \<Longrightarrow> system_reachable conc s'"

section \<open>Every step refines the specification\<close>

lemma evolves_transaction: "returns m (\<lambda>_ d'. evolves d d') d \<Longrightarrow> evolves d (snd (transaction m d))"
  using transaction_cases [of m d] by (metis evolves_refl returnsD)

lemma decide_endpoint_state:
  "snd (decide_endpoint x clk p i approve reason d) = snd (transaction (decide_action x clk p i approve reason) d)"
  by (auto simp: decide_endpoint_def attempt_def andthen_def ret_def raise_def split: prod.splits sum.splits)

lemma serve_evolves: "evolves d (serve x clk rq d)"
  by (cases rq) (simp_all add: decide_endpoint_state evolves_transaction create_action_evolves
      preflight_action_evolves decide_action_evolves request_rollback_evolves cancel_action_evolves)

lemma claim_any: "claim e clk busy d = (v, d') \<Longrightarrow> evolves d d'"
  using claim_evolves [of e clk busy d] unfolding claim_def Let_def
  by (cases v) (auto simp: returns_def dest: transaction_Inl)

lemma invoke_any: "invoke_action e clk aid w = (v, w') \<Longrightarrow> evolves (w_db w) (w_db w')"
  using invoke_action_evolves [of e clk aid w] unfolding invoke_action_def
  by (cases v) (auto simp: returns_def dest: db_transaction_Inl)

lemma fail_any: "fail_after_exception e clk aid code msg w = (v, w') \<Longrightarrow> evolves (w_db w) (w_db w')"
  using fail_after_exception_evolves [of e clk aid code msg w] unfolding fail_after_exception_def
  by (cases v) (auto simp: returns_def dest: db_transaction_Inl)

lemmas system_defs = sy_db_def with_db_def start_task_def end_task_def replace_task_def

lemma system_step_evolves: "system_step s s' \<Longrightarrow> evolves (sy_db s) (sy_db s')"
  by (induction rule: system_step.induct)
    (auto simp: system_defs serve_evolves dest: claim_any invoke_any fail_any intro: evolves_frame)

section \<open>Settled approvals are never touched again\<close>

lemma case_step_settled:
  assumes "case_step c c'" and "case_inv c" and "ap \<in> set (cf_approvals c)" and "aa_status ap \<noteq> Approval_PENDING"
  shows "ap \<in> set (cf_approvals c')"
proof -
  have other: "aa_id ap \<noteq> aa_id q" if "q \<in> set (cf_approvals c)" "aa_status q = Approval_PENDING" for q
    using that assms(2-4) by (metis case_inv_def distinct_map inj_onD)
  show ?thesis
    using assms(1)
  proof cases
    case (cancelled t)
    then show ?thesis using assms(3,4) by (force simp: withdrawn_def)
  next
    case (decided q u t b st q' reason)
    then have "aa_id ap \<noteq> aa_id q'" using other [of q] by simp
    then show ?thesis using decided assms(3) by (simp add: replace_row_other_mem)
  next
    case (expired q t st q')
    then have "aa_id ap \<noteq> aa_id q'" using other [of q] by simp
    then show ?thesis using expired assms(3) by (simp add: replace_row_other_mem)
  qed (use assms(3) in auto)
qed

lemma case_steps_settled:
  "case_step\<^sup>*\<^sup>* c c' \<Longrightarrow> case_inv c \<Longrightarrow> ap \<in> set (cf_approvals c) \<Longrightarrow> aa_status ap \<noteq> Approval_PENDING \<Longrightarrow>
     ap \<in> set (cf_approvals c')"
  by (induction rule: rtranclp_induct) (auto intro: case_step_settled case_steps_inv)

definition cases_ok :: "db \<Rightarrow> bool" where
  "cases_ok d \<longleftrightarrow> (\<forall>aid c. case_of aid d = Some c \<longrightarrow> case_inv c)"

lemma evolves_cases_ok: "evolves d d' \<Longrightarrow> ids_ok d \<Longrightarrow> cases_ok d \<Longrightarrow> cases_ok d'"
  unfolding cases_ok_def
proof (intro allI impI)
  fix aid c
  assume *: "evolves d d'" "ids_ok d" "\<forall>aid c. case_of aid d = Some c \<longrightarrow> case_inv c" "case_of aid d' = Some c"
  then have "case_evolves (case_of aid d) (Some c)" by (metis evolves_def)
  with *(3) show "case_inv c"
    by (cases "case_of aid d") (auto simp: case_evolves_def intro: case_steps_inv initial_case_inv)
qed

lemma approval_case:
  assumes "ids_ok d" and "ap \<in> set (t_action_approvals d)"
  obtains a where "a \<in> set (t_actions d)" and "ar_id a = aa_action_request_id ap"
    and "case_of (ar_id a) d = Some (file_of a (t_action_approvals d))"
    and "ap \<in> set (cf_approvals (file_of a (t_action_approvals d)))"
proof -
  obtain a where a: "a \<in> set (t_actions d)" "ar_id a = aa_action_request_id ap"
    using assms by (fastforce simp: ids_ok_def)
  show thesis
    by (rule that [OF a case_of_mem [OF assms(1) a(1)]]) (use a assms(2) in \<open>simp add: file_of_def approvals_of_def\<close>)
qed

lemma evolves_settled:
  assumes ev: "evolves d d'" and ok: "ids_ok d" "cases_ok d"
    and ap: "ap \<in> set (t_action_approvals d)" "aa_status ap \<noteq> Approval_PENDING"
  shows "ap \<in> set (t_action_approvals d')"
proof -
  obtain a where a: "case_of (ar_id a) d = Some (file_of a (t_action_approvals d))"
    "ap \<in> set (cf_approvals (file_of a (t_action_approvals d)))"
    using approval_case [OF ok(1) ap(1)] by metis
  have "case_evolves (case_of (ar_id a) d) (case_of (ar_id a) d')"
    using ev ok(1) by (simp add: evolves_def)
  then obtain c' where c': "case_of (ar_id a) d' = Some c'"
      "case_step\<^sup>*\<^sup>* (file_of a (t_action_approvals d)) c'"
    by (auto simp: case_evolves_def a(1))
  have "ap \<in> set (cf_approvals c')"
    using case_steps_settled [OF c'(2) _ a(2) ap(2)] ok(2) a(1) by (simp add: cases_ok_def)
  moreover have "set (cf_approvals c') \<subseteq> set (t_action_approvals d')"
    using c'(1) by (auto simp: case_of_def file_of_def approvals_of_def)
  ultimately show ?thesis by blast
qed

section \<open>The invariant of the system\<close>

text \<open>The API leaves the attempts to the worker.\<close>

lemma transaction_attempts:
  "returns m (\<lambda>_ d'. t_attempts d' = t_attempts d) d \<Longrightarrow> t_attempts (snd (transaction m d)) = t_attempts d"
  using transaction_cases [of m d] unfolding returns_def by auto

lemma preflight_failure_attempts: "preflight_failure d action a d' \<Longrightarrow> t_attempts d' = t_attempts d"
  unfolding preflight_failure_def by (elim conjE) (drule governedD, elim conjE)

lemma plan_sealed_attempts: "plan_sealed x d action a d' \<Longrightarrow> t_attempts d' = t_attempts d"
  unfolding plan_sealed_def by (elim conjE exE) (drule governedD, elim conjE)

lemma serve_attempts: "t_attempts (serve x clk rq d) = t_attempts d"
proof (cases rq)
  case (Create p wid r)
  have "returns (create_action x clk p wid r) (\<lambda>_ d'. t_attempts d' = t_attempts d) d"
    by (rule returns_conseq [OF create_action_effect]) (auto dest: governedD)
  then show ?thesis using Create by (simp add: transaction_attempts)
next
  case (Preflight p aid reason ttl)
  have "returns (preflight_action x clk p aid reason ttl) (\<lambda>_ d'. t_attempts d' = t_attempts d) d"
    by (rule returns_conseq [OF preflight_action_effect])
      (use preflight_failure_attempts plan_sealed_attempts in blast)
  then show ?thesis using Preflight by (simp add: transaction_attempts)
next
  case (Decide p i approve reason)
  have "returns (decide_action x clk p i approve reason) (\<lambda>_ d'. t_attempts d' = t_attempts d) d"
    by (rule returns_conseq [OF decide_action_effect]) (auto simp: approval_decided_def dest: governedD)
  then show ?thesis using Decide by (simp add: transaction_attempts decide_endpoint_state)
next
  case (Rollback p aid reason ttl)
  have "returns (request_rollback x clk p aid reason ttl) (\<lambda>_ d'. t_attempts d' = t_attempts d) d"
    by (rule returns_conseq [OF request_rollback_effect]) (auto dest: governedD)
  then show ?thesis using Rollback by (simp add: transaction_attempts)
next
  case (Cancel p aid)
  have "returns (cancel_action x clk p aid) (\<lambda>_ d'. t_attempts d' = t_attempts d) d"
    by (rule returns_conseq [OF cancel_action_effect]) (auto dest: governedD)
  then show ?thesis using Cancel by (simp add: transaction_attempts)
qed

lemma claim_any_attempts: "claim e clk busy d = (v, d') \<Longrightarrow> t_attempts d' = t_attempts d"
  using claim_attempts [of e clk busy d] unfolding claim_def Let_def
  by (cases v) (auto simp: returns_def dest: transaction_Inl)

lemma fail_any_ok:
  assumes "fail_after_exception e clk aid code msg w = (v, w')" and "attempts_ok (w_db w)"
  shows "attempts_ok (w_db w') \<and> w_posts w' = w_posts w"
proof
  have "returns (fail_after_exception e clk aid code msg) (\<lambda>_ w'. attempts_ok (w_db w')) w"
    unfolding fail_after_exception_def
    by (intro returns_db_transaction returns_intros returns_in_db returns_fail_action)
      (use assms(2) in \<open>auto intro: rewrites_attempts_ok\<close>)
  then show "attempts_ok (w_db w')"
    using assms unfolding fail_after_exception_def
    by (cases v) (auto simp: returns_def dest: db_transaction_Inl)
  have "posts_only (\<lambda>_. False) (fail_after_exception e clk aid code msg) w"
    unfolding fail_after_exception_def
    by (intro posts_transaction posts_keeps keeps_andthen keeps_case_option keeps_if) auto
  then show "w_posts w' = w_posts w" using assms(1) by (auto simp: posts_only_def)
qed

lemma invoke_any_ok:
  assumes "invoke_action e clk aid w = (v, w')" and "attempts_ok (w_db w)"
  shows "attempts_ok (w_db w')"
    and "po \<in> set (w_posts w') \<Longrightarrow> po \<in> set (w_posts w) \<or> approved_post (w_db w) po"
proof -
  show "attempts_ok (w_db w')"
    using assms invoke_action_ok [OF assms(2), of e clk aid] unfolding invoke_action_def
    by (cases v) (auto simp: returns_def dest: db_transaction_Inl)
  show "po \<in> set (w_posts w') \<Longrightarrow> po \<in> set (w_posts w) \<or> approved_post (w_db w) po"
    using invoke_action_posts [OF assms(2), of e clk aid] assms(1) unfolding posts_only_def by fastforce
qed


definition pool_size :: "string \<Rightarrow> system \<Rightarrow> int" where
  "pool_size k s = int (length (filter (\<lambda>t. fst t = k) (sy_tasks s)))"

definition system_inv :: "(string \<Rightarrow> int) \<Rightarrow> system \<Rightarrow> bool" where
  "system_inv conc s \<longleftrightarrow>
     ids_ok (sy_db s) \<and> cases_ok (sy_db s) \<and> attempts_ok (sy_db s)
     \<and> (\<forall>po \<in> set (w_posts (sy_world s)). approved_post (sy_db s) po)
     \<and> (\<forall>k. 0 \<le> sy_permits s k \<and> sy_permits s k + pool_size k s = conc k)"

lemma system_initial_inv: "system_initial conc s \<Longrightarrow> system_inv conc s"
  by (simp add: system_initial_def system_inv_def ids_ok_def cases_ok_def case_of_def attempts_ok_def pool_size_def)

lemma approved_post_evolves:
  assumes "evolves d d'" and "ids_ok d" and "cases_ok d" and "approved_post d po"
  shows "approved_post d' po"
proof -
  obtain ap where ap: "ap \<in> set (t_action_approvals d)" "post_of_approval ap po"
    using assms(4) by (auto simp: approved_post_def)
  then have "aa_status ap \<noteq> Approval_PENDING" by (simp add: post_of_approval_def)
  then show ?thesis using evolves_settled [OF assms(1-3) ap(1)] ap(2) by (auto simp: approved_post_def)
qed

lemma pool_remove:
  "(k, t) \<in> set ts \<Longrightarrow>
     int (length (filter (\<lambda>u. fst u = j) (remove1 (k, t) ts))) =
     int (length (filter (\<lambda>u. fst u = j) ts)) - (if j = k then 1 else 0)"
proof (induction ts)
  case (Cons u ts)
  then show ?case by (cases "u = (k, t)") auto
qed simp

text \<open>Which step touches what.\<close>

lemma system_step_attempts:
  "system_step s s' \<Longrightarrow> evolves (sy_db s) (sy_db s') \<Longrightarrow> ids_ok (sy_db s) \<Longrightarrow> attempts_ok (sy_db s) \<Longrightarrow>
     attempts_ok (sy_db s')"
proof (induction rule: system_step.induct)
  case (api s x clk rq)
  then show ?case
    by (intro attempts_ok_cong [OF _ _ api(3)]) (auto simp: system_defs serve_attempts evolves_def)
next
  case (idle s e clk busy v d)
  then show ?case
    by (intro attempts_ok_cong [OF _ _ idle(6)])
      (auto simp: system_defs evolves_def dest!: claim_any_attempts)
next
  case (claimed s e clk busy aid d)
  then show ?case
    by (intro attempts_ok_cong [OF _ _ claimed(5)])
      (auto simp: system_defs evolves_def dest!: claim_any_attempts)
next
  case (other d s)
  then show ?case by (intro attempts_ok_cong [OF _ _ other(7)]) (auto simp: system_defs)
qed (auto simp: system_defs dest: invoke_any_ok(1) fail_any_ok)

lemma system_step_posts:
  "system_step s s' \<Longrightarrow> attempts_ok (sy_db s) \<Longrightarrow> po \<in> set (w_posts (sy_world s')) \<Longrightarrow>
     po \<in> set (w_posts (sy_world s)) \<or> approved_post (sy_db s) po"
  by (induction rule: system_step.induct)
    (auto simp: system_defs dest: invoke_any_ok(2) dest!: fail_any_ok)

lemma system_step_pools:
  "system_step s s' \<Longrightarrow> (\<And>k. 0 \<le> sy_permits s k \<and> sy_permits s k + pool_size k s = conc k) \<Longrightarrow>
     0 \<le> sy_permits s' k \<and> sy_permits s' k + pool_size k s' = conc k"
  by (induction rule: system_step.induct) (auto simp: system_defs pool_size_def pool_remove)

lemma system_step_inv: "system_step s s' \<Longrightarrow> system_inv conc s \<Longrightarrow> system_inv conc s'"
proof -
  assume step: "system_step s s'" and inv: "system_inv conc s"
  note ev = system_step_evolves [OF step]
  have ok: "ids_ok (sy_db s)" "cases_ok (sy_db s)" "attempts_ok (sy_db s)" using inv by (simp_all add: system_inv_def)
  have "approved_post (sy_db s') po" if "po \<in> set (w_posts (sy_world s'))" for po
    using system_step_posts [OF step ok(3) that] inv approved_post_evolves [OF ev ok(1,2)]
    by (auto simp: system_inv_def)
  moreover have "0 \<le> sy_permits s' k \<and> sy_permits s' k + pool_size k s' = conc k" for k
    by (rule system_step_pools [OF step]) (use inv in \<open>simp add: system_inv_def\<close>)
  ultimately show ?thesis
    using evolves_ids [OF ev ok(1)] evolves_cases_ok [OF ev ok(1,2)] system_step_attempts [OF step ev ok(1,3)]
    by (simp add: system_inv_def)
qed

lemma system_reachable_inv: "system_reachable conc s \<Longrightarrow> system_inv conc s"
  by (induction rule: system_reachable.induct) (auto intro: system_initial_inv system_step_inv)

lemma system_steps_evolve: "system_step\<^sup>*\<^sup>* s s' \<Longrightarrow> evolves (sy_db s) (sy_db s')"
  by (induction rule: rtranclp_induct) (auto intro: evolves_trans system_step_evolves)

end
