(* ===== verification/ActionLiveness.thy ===== *)
theory ActionLiveness
  imports ActionSystem
begin

text \<open>
  Total correctness of the action service and worker: when the guards hold and the contracts
  accept the events, the operations return, with the stated effect. \<open>logged\<close> is what an
  accepted event or an audit record may change.
\<close>

section \<open>Returning\<close>

text \<open>An accepted event or audit record changes nothing but the logs.\<close>

definition logged :: "uuid \<Rightarrow> db \<Rightarrow> db \<Rightarrow> bool" where
  "logged org d d' \<longleftrightarrow> business d' = business d \<and> next_id d < next_id d'
     \<and> (\<forall>agg. head_owned agg org d \<longrightarrow> head_owned agg org d')"

lemma succeeds_action_event:
  assumes "accepts x names" and "name \<in> set names" and "map_of payload ''error_code'' = None"
    and "head_owned (ar_id a) (ar_organization_id a) d"
    and "\<And>d'. logged (ar_organization_id a) d d' \<Longrightarrow> Q () d'"
  shows "succeeds (action_event x now a name ty ac payload) Q d"
proof -
  let ?dr = "EventDraft name ''action_request'' (ar_id a) (ar_organization_id a) (ar_id a) ty ac payload"
  obtain ev d' where app: "append_event x now ?dr d = (Inr ev, d')"
    using append_accepted [OF assms(1-4)] by blast
  have "head_owned agg (ar_organization_id a) d'" if "head_owned agg (ar_organization_id a) d" for agg
    using append_event_head [OF app that] by (simp add: EventDraft_def)
  then have "logged (ar_organization_id a) d d'" using append_event_business [OF app] by (simp add: logged_def)
  then show ?thesis using app assms(5) by (simp add: action_event_def succeeds_def andthen_Inr)
qed

lemma succeeds_action_audit:
  assumes "\<And>d'. logged org d d' \<Longrightarrow> Q () d'"
  shows "succeeds (action_audit now a p op oc m) Q d"
proof -
  obtain dr where aud: "action_audit now a p op oc m = andthen (write_audit now dr) (\<lambda>_. ret ())"
    by (simp add: action_audit_def)
  obtain row d' where w: "write_audit now dr d = (Inr row, d')" by (simp add: write_audit_iff)
  then have "logged org d d'"
    using write_audit_business [OF w] by (auto simp: logged_def head_owned_def write_audit_iff)
  then show ?thesis using w assms by (simp add: aud succeeds_def andthen_Inr)
qed

lemma business_cong:
  assumes "business d' = business d"
  shows "business (d'\<lparr>t_actions := as\<rparr>) = business (d\<lparr>t_actions := as\<rparr>)"
    "business (d'\<lparr>t_action_approvals := aps\<rparr>) = business (d\<lparr>t_action_approvals := aps\<rparr>)"
    "business (d'\<lparr>t_plans := pls\<rparr>) = business (d\<lparr>t_plans := pls\<rparr>)"
    "business (d'\<lparr>t_attempts := ats\<rparr>) = business (d\<lparr>t_attempts := ats\<rparr>)"
  using assms by (cases d; cases d'; simp add: business_def)+

lemma business_next_id_first [simp]:
  "business (d\<lparr>next_id := n, t_actions := as\<rparr>) = business (d\<lparr>t_actions := as\<rparr>)"
  "business (d\<lparr>next_id := n, t_action_approvals := aps\<rparr>) = business (d\<lparr>t_action_approvals := aps\<rparr>)"
  "business (d\<lparr>next_id := n, t_plans := pls\<rparr>) = business (d\<lparr>t_plans := pls\<rparr>)"
  by (simp_all add: business_def)

lemma succeeds_new_id: "Q (next_id d) (d\<lparr>next_id := next_id d + 1\<rparr>) \<Longrightarrow> succeeds new_id Q d"
  by (simp add: succeeds_def)

lemma succeeds_permission: "can p perm \<Longrightarrow> Q () d \<Longrightarrow> succeeds (require_permission p perm) Q d"
  by (simp add: require_permission_def succeeds_require)

lemma succeeds_put_action:
  "Q () (d\<lparr>t_actions := replace_row ar_id a (t_actions d)\<rparr>) \<Longrightarrow> succeeds (put_action a) Q d"
  by (simp add: put_action_def succeeds_modify)

lemma succeeds_put_approval:
  "Q () (d\<lparr>t_action_approvals := replace_row aa_id a (t_action_approvals d)\<rparr>) \<Longrightarrow> succeeds (put_approval a) Q d"
  by (simp add: put_approval_def succeeds_modify)

lemmas service_succeeds = succeeds_intros succeeds_new_id succeeds_permission succeeds_put_action succeeds_put_approval

lemma head_owned_tables [simp]:
  "head_owned agg org (d\<lparr>next_id := n\<rparr>) = head_owned agg org d"
  "head_owned agg org (d\<lparr>t_actions := as\<rparr>) = head_owned agg org d"
  "head_owned agg org (d\<lparr>t_action_approvals := aps\<rparr>) = head_owned agg org d"
  "head_owned agg org (d\<lparr>t_plans := pls\<rparr>) = head_owned agg org d"
  by (simp_all add: head_owned_def)

lemma create_action_returns:
  fixes r :: create_action_request and p q :: principal and d :: db and clk :: clock and wid :: uuid
  defines "owner \<equiv> case car_owner_id r of Some o' \<Rightarrow> o' | None \<Rightarrow> p_id p"
  defines "a \<equiv> new_action_row (next_id d) p wid r owner (clk 0)"
  assumes "can p ''action.request''" and "require_workspace_access p wid True d = (Inr ws, d)"
    and "deny_secret_fields ''payload'' (JObj (car_target r)) = Inr ()"
    and "deny_secret_fields ''payload'' (JObj (car_parameters r)) = Inr ()"
    and "deny_secret_fields ''payload'' (JObj (car_rollback_parameters r)) = Inr ()"
    and "owner = p_id p \<or> can p ''action.request.all''"
    and "load_principal_by_id (p_organization_id p) owner d = (Inr q, d)"
    and "require_workspace_access q wid True d = (Inr ws', d)"
    and "\<And>b. b \<in> set (t_actions d) \<Longrightarrow> ar_organization_id b \<noteq> p_organization_id p
           \<or> ar_idempotency_key b \<noteq> car_idempotency_key r"
    and "accepts x names" and "''action.created'' \<in> set names"
    and "head_owned (next_id d) (p_organization_id p) d"
  shows "succeeds (create_action x clk p wid r) (\<lambda>b d'. b = a \<and> next_id d < next_id d'
     \<and> business d' = business (d\<lparr>t_actions := t_actions d @ [a]\<rparr>)
     \<and> (\<forall>agg. head_owned agg (p_organization_id p) d \<longrightarrow> head_owned agg (p_organization_id p) d')) d"
proof -
  have none: "find (\<lambda>b. ar_organization_id b = p_organization_id p
      \<and> ar_idempotency_key b = car_idempotency_key r) (t_actions d) = None"
    using assms(11) by (auto simp: find_None_iff)
  have ids: "ar_id a = next_id d" "ar_organization_id a = p_organization_id p"
    by (simp_all add: a_def new_action_row_def)
  note steps = succeeds_step [where m = "require_workspace_access p wid True", OF assms(4)]
    succeeds_step [where m = "load_principal_by_id (p_organization_id p) owner", OF assms(9)]
    succeeds_step [where m = "require_workspace_access q wid True", OF assms(10)]
  have rest: "succeeds (andthen new_id (\<lambda>i.
      (let action = new_action_row i p wid r owner (clk 0);
           payload = [(''action_type'', JStr (action_type_value (ar_action_type action))),
                      (''environment'', JStr (ar_environment action))]
       in andthen (modify (\<lambda>d. d\<lparr>t_actions := t_actions d @ [action]\<rparr>)) (\<lambda>_.
          andthen (action_event x (clk 1) action ''action.created'' Actor_USER (Some (p_id p)) payload) (\<lambda>_.
          andthen (action_audit (clk 2) action p ''action.create'' ''SUCCESS'' payload) (\<lambda>_.
          ret action)))))) (\<lambda>b d'. b = a \<and> next_id d < next_id d'
     \<and> business d' = business (d\<lparr>t_actions := t_actions d @ [a]\<rparr>)
     \<and> (\<forall>agg. head_owned agg (p_organization_id p) d \<longrightarrow> head_owned agg (p_organization_id p) d')) d"
    unfolding Let_def
    by (intro service_succeeds succeeds_action_event [OF assms(12,13)] succeeds_action_audit [of "p_organization_id p"])
      (use assms(14) ids in \<open>auto simp: logged_def a_def [symmetric]\<close>)
  show ?thesis
    unfolding create_action_def Let_def owner_def [symmetric]
    by (intro succeeds_andthen succeeds_permission succeeds_from_sum succeeds_require succeeds_reads steps)
      (use assms(3,5-8) none rest in \<open>simp_all add: Let_def\<close>)
qed


lemma succeeds_create_approval:
  assumes "accepts x names" and "''action.approval_requested'' \<in> set names"
    and "ar_plan_checksum_sha256 a = Some c" and "head_owned (ar_id a) (ar_organization_id a) d"
    and "\<And>ap d'. opens_approval d a purpose ap \<Longrightarrow> aa_expires_at ap = clk 0 + timedelta_minutes ttl \<Longrightarrow>
      aa_id ap = next_id d \<Longrightarrow>
      business d' = business (d\<lparr>t_action_approvals := t_action_approvals d @ [ap]\<rparr>) \<Longrightarrow>
      next_id d < next_id d' \<Longrightarrow>
      (\<And>agg. head_owned agg (ar_organization_id a) d \<Longrightarrow> head_owned agg (ar_organization_id a) d') \<Longrightarrow> Q ap d'"
  shows "succeeds (create_approval x clk a purpose reason ttl) Q d"
  unfolding create_approval_def Let_def
  by (intro service_succeeds succeeds_action_event [OF assms(1,2)])
    (use assms(3,4) in \<open>auto simp: logged_def opens_approval_def latest_revision_def intro!: assms(5)\<close>)

lemma seal_plan_returns:
  assumes acc: "accepts x names" and "set [''action.approval_requested'', ''action.preflight_passed''] \<subseteq> set names"
    and head: "head_owned (ar_id a) (ar_organization_id a) d"
  shows "succeeds (seal_plan x clk p a reason ttl (execute, rollback, spec, c)) (\<lambda>b d'.
     request_part b = request_part a \<and> ar_status b = Action_WAITING_APPROVAL
     \<and> ar_plan_checksum_sha256 b = Some c \<and> ar_lease_expires_at b = ar_lease_expires_at a
     \<and> ar_cancellation_requested_at b = ar_cancellation_requested_at a
     \<and> next_id d < next_id d'
     \<and> (\<forall>agg. head_owned agg (ar_organization_id a) d \<longrightarrow> head_owned agg (ar_organization_id a) d')
     \<and> (\<exists>plan ap. pl_spec plan = spec \<and> pl_checksum_sha256 plan = c \<and> pl_action_request_id plan = ar_id a
          \<and> pl_organization_id plan = ar_organization_id a
          \<and> opens_approval d b Purpose_EXECUTE ap \<and> aa_expires_at ap = clk 1 + timedelta_minutes ttl
          \<and> aa_id ap = next_id d + 1
          \<and> business d' = business (d\<lparr>t_actions := replace_row ar_id b (t_actions d),
               t_action_approvals := t_action_approvals d @ [ap], t_plans := t_plans d @ [plan]\<rparr>))) d"
  unfolding seal_plan_def Let_def prod.case
proof (intro service_succeeds succeeds_create_approval [OF acc] succeeds_action_event [OF acc]
      succeeds_action_audit [of "ar_organization_id a"], goal_cases)
  case (7 ap d1 d2 d3)
  then show ?case
    by (intro conjI exI [of _ "\<lparr>pl_id = next_id d, pl_organization_id = ar_organization_id a,
          pl_action_request_id = ar_id a, pl_spec = spec, pl_checksum_sha256 = c, pl_created_by = p_id p,
          pl_created_at = clk 0\<rparr>"] exI [of _ ap])
      (simp_all add: request_part_def logged_def opens_approval_def latest_revision_def business_def)
qed (use assms(2) head in \<open>simp_all add: logged_def\<close>)


lemma decide_action_returns:
  assumes perm: "can p ''action.approve''"
    and found: "find (\<lambda>a. aa_id a = i \<and> aa_organization_id a = p_organization_id p) (t_action_approvals d) = Some approval"
    and pending: "aa_status approval = Approval_PENDING" and time: "clk 0 < aa_expires_at approval"
    and action: "get_action p (aa_action_request_id approval) True d = (Inr action, d)"
    and other: "aa_requested_by approval \<noteq> p_id p"
    and checksum: "ar_plan_checksum_sha256 action = Some (aa_plan_checksum_sha256 approval)"
    and codes: "set [''action_rejected'', ''action_rollback_rejected''] \<subseteq> set (ext_error_codes x)"
    and acc: "accepts x names" "''action.approval_decided'' \<in> set names"
    and head: "head_owned (ar_id action) (ar_organization_id action) d"
  shows "succeeds (decide_action x clk p i approve reason) (\<lambda>a d'.
     a = approval\<lparr>aa_status := (if approve then Approval_APPROVED else Approval_REJECTED),
           aa_decided_by := Some (p_id p), aa_decision_reason := Some (strip reason), aa_decided_at := Some (clk 0)\<rparr>
     \<and> next_id d < next_id d'
     \<and> (\<forall>agg. head_owned agg (ar_organization_id action) d \<longrightarrow> head_owned agg (ar_organization_id action) d')
     \<and> business d' = business (d\<lparr>t_actions :=
           replace_row ar_id (decided_action action (aa_purpose approval) approve (clk 0)) (t_actions d),
         t_action_approvals := replace_row aa_id a (t_action_approvals d)\<rparr>)) d"
proof -
  have late: "\<not> aa_expires_at approval \<le> clk 0" using time by simp
  have codes': "validate_error_code x (ar_error_code (decided_action action q approve t)) = Inr ()" for q t
    using codes by (simp add: decided_action_def)
  have ids: "ar_organization_id (decided_action action q approve t) = ar_organization_id action"
      "ar_id (decided_action action q approve t) = ar_id action" for q t
    by (simp_all add: decided_action_def)
  show ?thesis
    unfolding decide_action_def Let_def
  proof (intro succeeds_andthen succeeds_permission succeeds_reads succeeds_from_some [OF found] succeeds_require
      succeeds_step [where m = "get_action p (aa_action_request_id approval) True", OF action],
      simp_all only: late if_False, goal_cases)
    case 3
    show ?case
      by (intro succeeds_andthen succeeds_require succeeds_from_sum [OF codes'] succeeds_put_action
          succeeds_put_approval succeeds_ret succeeds_action_event [OF acc]
          succeeds_action_audit [of "ar_organization_id action"])
        (use other checksum head ids in \<open>auto simp: logged_def business_def\<close>)
  qed (use perm pending in simp_all)
qed

lemma claim_returns:
  assumes quiet: "\<forall>ap \<in> set (t_action_approvals d). aa_status ap \<noteq> Approval_PENDING"
    and first: "next_claim (clk 0) busy d = Some a"
    and acc: "accepts (e_ext e) names" "''action.claimed'' \<in> set names"
    and head: "head_owned (ar_id a) (ar_organization_id a) d"
  shows "succeeds (claim e clk busy) (\<lambda>r d'. r = Some (ar_id a) \<and> next_id d < next_id d'
     \<and> (\<forall>agg. head_owned agg (ar_organization_id a) d \<longrightarrow> head_owned agg (ar_organization_id a) d')
     \<and> business d' = business (d\<lparr>t_actions := replace_row ar_id (claimed_action e (clk 0) a) (t_actions d)\<rparr>)) d"
proof -
  have "expire_one_approval (e_ext e) (later 1 clk) busy d = (Inr (), d)"
    using quiet by (simp add: expire_one_approval_def Let_def andthen_Inr first_by_def filter_empty_conv)
  then have ex: "succeeds (expire_one_approval (e_ext e) (later 1 clk) busy) Q d" if "Q () d" for Q
    using that by (auto simp: succeeds_def)
  have ids: "ar_id (claimed_action e t a) = ar_id a"
    "ar_organization_id (claimed_action e t a) = ar_organization_id a" for t
    by (simp_all add: claimed_action_def)
  show ?thesis
    unfolding claim_def Let_def worker_event_def
    by (intro succeeds_transaction succeeds_andthen ex succeeds_reads)
      (auto simp: first logged_def head ids intro!: succeeds_andthen succeeds_put_action succeeds_ret
        succeeds_action_event [OF acc])
qed

text \<open>A first execution: the attempt row, and the store the gateway is called with.\<close>

definition first_attempt :: "clock \<Rightarrow> action_request_row \<Rightarrow> execution \<Rightarrow> db \<Rightarrow> action_attempt_row" where
  "first_attempt clk action ex d = running_attempt (clk 0) (new_attempt (next_id d) action ex (clk 1))"

definition with_attempt :: "action_attempt_row \<Rightarrow> db \<Rightarrow> db" where
  "with_attempt a d = d\<lparr>next_id := next_id d + 1, t_attempts := t_attempts d @ [a]\<rparr>"

lemma db_transaction_posts: "w_posts (snd (db_transaction m w)) = w_posts (snd (m w))"
  by (auto simp: db_transaction_def split: prod.splits sum.splits)

lemma andthen_in_db_reads: "andthen (in_db (reads f)) k w = k (f (w_db w)) w"
  by (simp add: andthen_def in_db_def reads_def)

lemma andthen_sends:
  assumes "\<exists>po. w_posts (snd (m w)) = w_posts w @ [po]" and "\<And>x. keeps w_posts (k x)"
  shows "\<exists>po. w_posts (snd (andthen m k w)) = w_posts w @ [po]"
proof -
  obtain v w1 where m: "m w = (v, w1)" by (cases "m w")
  have "w_posts (snd (k x w1)) = w_posts w1" for x
    using assms(2) by (simp add: keeps_def)
  then show ?thesis using assms(1) m by (cases v) (simp_all add: andthen_def)
qed

lemma run_attempt_sends:
  assumes fresh: "i \<notin> at_id ` set ats" and d: "t_attempts (w_db w) = ats @ [atm]" "at_id atm = i"
    and sends: "\<exists>po. w_posts (snd (gateway_invoke e clk (execution_request action ex (running_attempt now atm))
       (w\<lparr>w_db := (w_db w)\<lparr>t_attempts := ats @ [running_attempt now atm]\<rparr>\<rparr>))) = w_posts w @ [po]"
  shows "\<exists>po. w_posts (snd (run_attempt e clk now action ex atm w)) = w_posts w @ [po]"
proof -
  have "replace_row at_id (running_attempt now atm) (ats @ [atm]) = ats @ [running_attempt now atm]"
    using fresh d(2) by (auto simp: replace_row_def running_attempt_def image_iff intro!: map_idI)
  then have put: "in_db (put_attempt (running_attempt now atm)) w =
      (Inr (), w\<lparr>w_db := (w_db w)\<lparr>t_attempts := ats @ [running_attempt now atm]\<rparr>\<rparr>)"
    by (simp add: in_db_iff put_attempt_def d)
  show ?thesis
    unfolding run_attempt_def andthen_step [where m = "in_db (put_attempt (running_attempt now atm))", OF put]
    using andthen_sends [where k = "settle_attempt e (later 8 clk) action ex (running_attempt now atm)"
        and m = "gateway_invoke e clk (execution_request action ex (running_attempt now atm))"
        and w = "w\<lparr>w_db := (w_db w)\<lparr>t_attempts := ats @ [running_attempt now atm]\<rparr>\<rparr>"] sends by simp
qed

lemma invoke_action_sends:
  assumes found: "find (\<lambda>a. ar_id a = aid) (t_actions (w_db w)) = Some action"
    and run: "running (ar_status action)" and deadline: "ar_deadline_at action = Some t" "clk 0 < t"
    and load: "load_execution (clk 0) action (w_db w) = (Inr ex, w_db w)"
    and none: "find (is_attempt_of action (ex_purpose ex)) (t_attempts (w_db w)) = None"
    and fresh: "next_id (w_db w) \<notin> at_id ` set (t_attempts (w_db w))"
    and sends: "\<exists>po. w_posts (snd (gateway_invoke e (later 2 clk)
       (execution_request action ex (first_attempt clk action ex (w_db w)))
       (w\<lparr>w_db := with_attempt (first_attempt clk action ex (w_db w)) (w_db w)\<rparr>))) = w_posts w @ [po]"
  shows "\<exists>po. w_posts (snd (invoke_action e clk aid w)) = w_posts w @ [po]"
proof -
  let ?new = "new_attempt (next_id (w_db w)) action ex (clk 1)"
  let ?w1 = "w\<lparr>w_db := with_attempt ?new (w_db w)\<rparr>"
  have obt: "in_db (obtain_attempt (clk 1) action ex) w = (Inr ?new, ?w1)"
    by (simp add: in_db_iff obtain_attempt_def andthen_Inr none with_attempt_def)
  have ld: "in_db (load_execution (clk 0) action) w = (Inr ex, w)" by (simp add: in_db_iff load)
  have "\<exists>po. w_posts (snd (run_attempt e (later 2 clk) (clk 0) action ex ?new ?w1)) = w_posts ?w1 @ [po]"
    by (rule run_attempt_sends [OF fresh])
      (use sends in \<open>simp_all add: with_attempt_def first_attempt_def new_attempt_def\<close>)
  moreover have "andthen (in_db (load_execution (clk 0) action)) (\<lambda>ex. andthen (in_db (obtain_attempt (clk 1) action ex)) (\<lambda>atm.
      if at_status atm = Attempt_COMPLETED
      then in_db (complete_action (e_ext e) (later 2 clk) action (ex_purpose ex) (at_output atm))
      else run_attempt e (later 2 clk) (clk 0) action ex atm)) w = run_attempt e (later 2 clk) (clk 0) action ex ?new ?w1"
    unfolding andthen_step [where m = "in_db (load_execution (clk 0) action)", OF ld]
      andthen_step [where m = "in_db (obtain_attempt (clk 1) action ex)", OF obt] by (simp add: new_attempt_def)
  ultimately show ?thesis
    unfolding invoke_action_def Let_def db_transaction_posts
    using found run deadline by (simp add: andthen_in_db_reads)
qed


lemma preflight_action_returns:
  assumes "can p ''action.request''" and act: "get_action p aid True d = (Inr a, d)"
    and "ar_status a \<in> {Action_DRAFT, Action_PREFLIGHT_FAILED}"
    and plan: "find (\<lambda>pl. pl_action_request_id pl = ar_id a) (t_plans d) = None"
    and checks: "preflight_checks x a d = (Inr (execute, rollback, spec, c), d)"
    and seal: "succeeds (seal_plan x clk p a reason ttl (execute, rollback, spec, c)) Q d"
  shows "succeeds (preflight_action x clk p aid reason ttl) Q d"
  unfolding preflight_action_def
  by (intro succeeds_andthen succeeds_permission succeeds_reads succeeds_require
      succeeds_step [where m = "get_action p aid True", OF act])
    (use assms in simp_all)

end
