(* ===== verification/ActionScenario.thy ===== *)
theory ActionScenario
  imports ActionLiveness
begin

text \<open>
  One run of the system of governed actions, from an empty store to a posted request: a ticket
  is drafted, checked, approved (or rejected) by a second person, claimed and executed. The
  properties of the system are witnessed on it. The states are not evaluated: the operations
  that only read depend on the business tables alone (\<open>query\<close>), so each is evaluated on a small
  concrete store and carried over to the state reached.
\<close>

section \<open>Queries\<close>

definition query :: "(db \<Rightarrow> db) \<Rightarrow> (db, 'a) op \<Rightarrow> bool" where
  "query f m \<longleftrightarrow> (\<forall>d. snd (m d) = d \<and> fst (m (f d)) = fst (m d))"

text \<open>\<open>setting\<close> erases the logs and the tables of the actions: it is what the run does not touch.\<close>

definition setting :: "db \<Rightarrow> db" where
  "setting d = (business d)\<lparr>t_actions := [], t_action_approvals := [], t_plans := [], t_attempts := [],
     t_notifications := []\<rparr>"

lemma query_run: "query f m \<Longrightarrow> m d = (v, d) \<Longrightarrow> f d' = f d \<Longrightarrow> m d' = (v, d')"
  unfolding query_def by (metis fst_conv prod.collapse)

lemma query_ret: "query f (ret v)" and query_raise: "query f (raise e)"
  and query_require: "query f (require b e)"
  by (simp_all add: query_def op_simps)

lemma query_from_sum: "query f (from_sum s)"
  by (cases s) (simp_all add: query_def op_simps from_sum_def)

lemma query_from_some: "query f (from_some e z)"
  by (cases z) (simp_all add: query_def op_simps from_some_def)

lemma query_reads: "(\<And>d. g (f d) = g d) \<Longrightarrow> query f (reads g)"
  by (simp add: query_def op_simps)

lemma query_andthen:
  assumes m: "query f m" and k: "\<And>v. query f (k v)"
  shows "query f (andthen m k)"
proof -
  have run: "andthen m k d = (case fst (m d) of Inl e \<Rightarrow> (Inl e, d) | Inr v \<Rightarrow> (fst (k v d), d))" for d
  proof -
    obtain r where "m d = (r, d)" using m by (metis query_def prod.collapse)
    moreover have "k v d = (fst (k v d), d)" for v using k by (metis query_def prod.collapse)
    ultimately show ?thesis by (cases r) (simp_all add: andthen_def)
  qed
  have "fst (m (f d)) = fst (m d)" "fst (k v (f d)) = fst (k v d)" for d v
    using m k by (simp_all add: query_def)
  then show ?thesis unfolding query_def run by (simp split: sum.split)
qed

lemma query_option: "query f n \<Longrightarrow> (\<And>v. query f (m v)) \<Longrightarrow> query f (case z of None \<Rightarrow> n | Some v \<Rightarrow> m v)"
  by (cases z) simp_all

lemma query_list: "query f n \<Longrightarrow> (\<And>v vs. query f (m v vs)) \<Longrightarrow> query f (case z of [] \<Rightarrow> n | v # vs \<Rightarrow> m v vs)"
  by (cases z) simp_all

lemma query_if: "query f m \<Longrightarrow> query f n \<Longrightarrow> query f (if b then m else n)"
  by simp

lemmas query_intros = query_ret query_raise query_require query_from_sum query_from_some query_andthen
  query_option query_list query_if

lemma setting_selects [simp]:
  "t_departments (setting d) = t_departments d" "t_users (setting d) = t_users d"
  "t_roles (setting d) = t_roles d" "t_user_roles (setting d) = t_user_roles d"
  "t_workspaces (setting d) = t_workspaces d" "t_members (setting d) = t_members d"
  "t_capability_definitions (setting d) = t_capability_definitions d"
  "t_capability_versions (setting d) = t_capability_versions d" "t_connectors (setting d) = t_connectors d"
  "t_bindings (setting d) = t_bindings d" "t_policies (setting d) = t_policies d"
  by (simp_all add: business_def setting_def)

lemma setting_access [simp]: "workspace_access_clause p w (setting d) = workspace_access_clause p w d"
  by (rule ext) (simp add: workspace_access_clause_def is_member_def)

lemma setting_principal [simp]: "principal_rows org ext (setting d) = principal_rows org ext d"
proof -
  have "user_departments (setting d) = user_departments d" "user_assignments (setting d) = user_assignments d"
    "assigned_roles (setting d) = assigned_roles d"
    by (rule ext, simp add: user_departments_def user_assignments_def assigned_roles_def cong: option.case_cong)+
  then show ?thesis by (simp add: principal_rows_def active_users_def)
qed

lemma query_workspace_access: "query setting (require_workspace_access p wid w)"
  unfolding require_workspace_access_def Let_def by (intro query_intros query_reads) simp_all

lemma query_load_principal: "query setting (load_principal_by_id org uid)"
  unfolding load_principal_by_id_def load_principal_def Let_def
  by (intro query_intros query_reads) simp_all

lemma query_gateway_preflight: "query setting (gateway_preflight x p name en resource)"
  unfolding gateway_preflight_def
  by (intro query_intros query_reads) (simp_all add: capability_rows_def cong: if_cong)

lemma query_preflight_checks: "query setting (preflight_checks x action)"
  unfolding preflight_checks_def require_owner_def Let_def
  by (intro query_intros query_reads query_workspace_access query_load_principal query_gateway_preflight)
    (auto split: prod.split intro!: query_intros query_workspace_access query_load_principal query_gateway_preflight)

lemma query_resolve_pinned: "query setting (resolve_pinned x r)"
  unfolding resolve_pinned_def Let_def
  by (intro query_intros query_reads) (simp_all add: capability_rows_def cong: if_cong)

section \<open>The sample system\<close>

definition demo_capability :: "uuid \<Rightarrow> string \<Rightarrow> resolved_capability" where
  "demo_capability i name =
     \<lparr>rc_definition = \<lparr>cd_id = i, cd_organization_id = 1, cd_name = name, cd_status = Registry_ACTIVE\<rparr>,
      rc_version = (sample_capability Risk_L3 Side_IDEMPOTENT_WRITE)\<lparr>cv_id := i + 1, cv_capability_id := i\<rparr>,
      rc_binding = \<lparr>cb_id = i + 2, cb_organization_id = 1, cb_capability_version_id = i + 1,
        cb_connector_id = 42, cb_environment = ''staging'', cb_resource_selector = [], cb_enabled = True\<rparr>,
      rc_connector = rc_connector sample_resolved\<rparr>"

definition demo_capabilities :: "resolved_capability list" where
  "demo_capabilities = [demo_capability 10 ''action.ticket.create'', demo_capability 20 ''action.ticket.close'']"

definition demo_db :: db where
  "demo_db = sample_login_db\<lparr>t_workspaces := [sample_workspace 5 1 7],
     t_roles := [\<lparr>role_id = 3, role_organization_id = 1, role_name = ''dev'',
       role_permissions = [JStr ''action.execute'', JStr ''ticket.write'']\<rparr>],
     t_members := [\<lparr>wm_organization_id = 1, wm_workspace_id = 5, wm_user_id = 8, wm_can_write = True,
       wm_permissions = [''read'', ''write''], wm_created_by = 7, wm_created_at = 0\<rparr>],
     t_capability_definitions := map rc_definition demo_capabilities,
     t_capability_versions := map rc_version demo_capabilities,
     t_bindings := map rc_binding demo_capabilities, t_connectors := [rc_connector sample_resolved]\<rparr>"

definition demo_request :: create_action_request where
  "demo_request = \<lparr>car_action_type = Type_CREATE_TICKET, car_title = ''ticket'', car_description = [],
     car_environment = ''staging'', car_target = [(''project_key'', JStr ''OPS'')],
     car_parameters = [(''summary'', JStr ''s''), (''description'', JStr ''d'')],
     car_rollback_parameters = [], car_owner_id = None, car_idempotency_key = ''key-00001'',
     car_timeout_seconds = 300\<rparr>"

definition demo_names :: "string list" where
  "demo_names = [''action.created'', ''action.preflight_passed'', ''action.approval_requested'',
     ''action.approval_decided'', ''action.claimed'', ''action.policy_decided'', ''action.provider_started'']"

definition demo_ext :: ext where
  "demo_ext = (open_ext demo_names [''action_rejected'', ''action_rollback_rejected''])
     \<lparr>ext_sha256 := (\<lambda>_. ''sum'')\<rparr>"

definition demo_env :: env where
  "demo_env = sample_env\<lparr>e_ext := demo_ext\<rparr>"

abbreviation noon :: clock where
  "noon \<equiv> (\<lambda>_. 0)"

abbreviation requester :: principal where
  "requester \<equiv> sample_principal 7 [''action.request'']"

abbreviation approver :: principal where
  "approver \<equiv> sample_principal 8 [''action.approve'']"

definition demo_action :: action_request_row where
  "demo_action = new_action_row (next_id demo_db) requester 5 demo_request 7 0"

text \<open>The stores of the run, and the actual transitions between them.\<close>

definition drafted_db :: db where
  "drafted_db = serve demo_ext noon (Create requester 5 demo_request) demo_db"

definition waiting_db :: db where
  "waiting_db = serve demo_ext noon (Preflight requester (ar_id demo_action) ''reason'' 60) drafted_db"

definition decided_db :: "bool \<Rightarrow> db" where
  "decided_db approve = serve demo_ext noon (Decide approver (next_id drafted_db + 1) approve ''ok'') waiting_db"

section \<open>Drafting\<close>

lemma demo_accepts: "accepts demo_ext demo_names"
  by (simp add: accepts_def demo_ext_def open_ext_def)

lemma served:
  assumes "succeeds m Q d" shows "\<exists>v. m d = (Inr v, snd (transaction m d)) \<and> Q v (snd (transaction m d))"
  using assms by (auto simp: succeeds_def transaction_def)

lemma demo_owner: "\<exists>q. load_principal_by_id 1 7 demo_db = (Inr q, demo_db) \<and> p_id q = 7
    \<and> p_organization_id q = 1 \<and> p_permissions q = {''action.execute'', ''ticket.write''}"
  by (simp add: demo_db_def sample_login_db_def empty_db_def load_principal_by_id_def load_principal_def
      principal_rows_def active_users_def user_departments_def user_assignments_def assigned_roles_def
      outer_join_def json_strings_def op_simps insert_commute)

lemma demo_access:
  assumes "p_organization_id p = 1" and "p_id p \<in> {7, 8}" and "''*'' \<notin> p_permissions p"
  shows "\<exists>ws. require_workspace_access p 5 True demo_db = (Inr ws, demo_db)"
  using assms by (auto simp: require_workspace_access_def workspace_access_clause_def is_member_def op_simps
      demo_db_def sample_login_db_def empty_db_def sample_workspace_def)

lemma drafted: "business drafted_db = business (demo_db\<lparr>t_actions := [demo_action]\<rparr>)"
    "next_id demo_db < next_id drafted_db" "\<forall>agg. head_owned agg 1 drafted_db"
proof -
  obtain q where q: "load_principal_by_id 1 7 demo_db = (Inr q, demo_db)" "p_id q = 7"
      "p_organization_id q = 1" "p_permissions q = {''action.execute'', ''ticket.write''}"
    using demo_owner by blast
  obtain ws ws' where a: "require_workspace_access requester 5 True demo_db = (Inr ws, demo_db)"
      "require_workspace_access q 5 True demo_db = (Inr ws', demo_db)"
    using demo_access [of requester] demo_access [of q] q by (auto simp: sample_principal_def)
  have secret: "deny_secret_fields ''payload'' (JObj (car_target demo_request)) = Inr ()"
      "deny_secret_fields ''payload'' (JObj (car_parameters demo_request)) = Inr ()"
      "deny_secret_fields ''payload'' (JObj (car_rollback_parameters demo_request)) = Inr ()"
    by code_simp+
  have tables: "t_actions demo_db = []" "head_owned agg 1 demo_db" for agg
    by (simp_all add: demo_db_def sample_login_db_def empty_db_def head_owned_def)
  have org: "p_organization_id requester = 1" "p_id requester = 7" "can requester ''action.request''"
      "car_owner_id demo_request = None"
    by (simp_all add: sample_principal_def can_def demo_request_def)
  note run = served [OF create_action_returns [where p = requester and wid = 5 and r = demo_request and d = demo_db
      and clk = noon and x = demo_ext and names = demo_names, unfolded org option.case, OF _ a(1) secret _ q(1) a(2) _ demo_accepts]]
  show "business drafted_db = business (demo_db\<lparr>t_actions := [demo_action]\<rparr>)"
    "next_id demo_db < next_id drafted_db" "\<forall>agg. head_owned agg 1 drafted_db"
    using run org(3) tables by (auto simp: drafted_db_def demo_action_def demo_names_def)
qed

section \<open>Checking and approving\<close>

lemma demo_endpoint_ok: "validate_endpoint demo_ext (rc_connector sample_resolved) = Inr ()"
  by code_simp

lemma demo_preflight:
  assumes "can q ''action.execute''" and "can q ''ticket.write''" and "p_organization_id q = 1"
  shows "gateway_preflight demo_ext q ''action.ticket.create'' ''staging'' res demo_db =
      (Inr (demo_capability 10 ''action.ticket.create''), demo_db)"
    "gateway_preflight demo_ext q ''action.ticket.close'' ''staging'' res demo_db =
      (Inr (demo_capability 20 ''action.ticket.close''), demo_db)"
proof -
  have rows: "filter (preflight_row 1 ''action.ticket.create'' ''staging'') (capability_rows demo_db) =
        [demo_capability 10 ''action.ticket.create'']"
      "filter (preflight_row 1 ''action.ticket.close'' ''staging'') (capability_rows demo_db) =
        [demo_capability 20 ''action.ticket.close'']"
    by (simp_all add: capability_rows_def demo_db_def demo_capabilities_def demo_capability_def
        preflight_row_def sample_capability_def sample_resolved_def)
  have ok: "validate_contract (demo_capability i name) q ''staging'' = Inr ()"
      "rc_connector (demo_capability i name) = rc_connector sample_resolved"
      "selector_matches (cb_resource_selector (rc_binding (demo_capability i name))) res" for i name
    using assms by (simp_all add: validate_contract_Inr demo_capability_def sample_capability_def
        sample_resolved_def selector_matches_def)
  show "gateway_preflight demo_ext q ''action.ticket.create'' ''staging'' res demo_db =
      (Inr (demo_capability 10 ''action.ticket.create''), demo_db)"
    "gateway_preflight demo_ext q ''action.ticket.close'' ''staging'' res demo_db =
      (Inr (demo_capability 20 ''action.ticket.close''), demo_db)"
    using assms(3) rows ok demo_endpoint_ok by (simp_all add: gateway_preflight_def op_simps from_sum_def from_some_def)
qed

definition demo_spec :: jobj where
  "demo_spec = plan_spec_of demo_action (demo_capability 10 ''action.ticket.create'')
     (demo_capability 20 ''action.ticket.close'')"

lemma demo_action_fields:
  "ar_action_type demo_action = Type_CREATE_TICKET" "ar_environment demo_action = ''staging''"
  "ar_owner_id demo_action = 7" "ar_organization_id demo_action = 1" "ar_workspace_id demo_action = 5"
  "ar_requested_by demo_action = 7" "ar_status demo_action = Action_DRAFT"
  by (simp_all add: demo_action_def new_action_row_def demo_request_def sample_principal_def)

lemma demo_preflight_checks:
  "preflight_checks demo_ext demo_action demo_db = (Inr (demo_capability 10 ''action.ticket.create'',
     demo_capability 20 ''action.ticket.close'', demo_spec, ''sum''), demo_db)"
proof -
  obtain q where q: "load_principal_by_id 1 7 demo_db = (Inr q, demo_db)" "p_id q = 7"
      "p_organization_id q = 1" "p_permissions q = {''action.execute'', ''ticket.write''}"
    using demo_owner by blast
  obtain ws where a: "require_workspace_access q 5 True demo_db = (Inr ws, demo_db)"
    using demo_access [of q] q by auto
  have c: "can q ''action.execute''" "can q ''ticket.write''" using q(4) by (simp_all add: can_def)
  have owner: "require_owner demo_action demo_db = (Inr q, demo_db)"
    using c by (simp add: require_owner_def demo_action_fields op_simps q(1) a)
  have schema: "validate_preflight_payload demo_ext rc payload = Inr ()" for rc payload
    by (simp add: validate_preflight_payload_def validate_schema_def demo_ext_def open_ext_def)
  have sum: "action_plan_checksum demo_ext spec = ''sum''" for spec
    by (simp add: action_plan_checksum_def demo_ext_def sha256_hex_def)
  show ?thesis
    using owner demo_preflight [OF c q(3)]
    by (simp add: preflight_checks_def demo_action_fields contracts_def op_simps from_some_def from_sum_def
        schema sum demo_spec_def)
qed

lemma setting_drafted: "setting drafted_db = setting demo_db"
  using drafted(1) by (simp add: setting_def) (simp add: business_def)

lemma demo_get_action:
  assumes "setting d = setting demo_db" and "p_organization_id p = 1" and "p_id p \<in> {7, 8}"
    and "''*'' \<notin> p_permissions p" and "t_actions d = [b]" and "ar_id b = ar_id demo_action"
    and "ar_organization_id b = 1" and "ar_workspace_id b = 5"
  shows "get_action p (ar_id demo_action) True d = (Inr b, d)"
proof -
  obtain ws where "require_workspace_access p 5 True demo_db = (Inr ws, demo_db)"
    using demo_access assms(2-4) by blast
  then have acc: "require_workspace_access p 5 True d = (Inr ws, d)"
    using query_run [OF query_workspace_access] assms(1) by blast
  show ?thesis
    using assms(2,5-8) by (simp add: get_action_def andthen_def reads_def from_some_def ret_def acc)
qed

lemma business_tables_set:
  "business d' = business (d\<lparr>t_actions := as0\<rparr>) \<Longrightarrow>
     business (d'\<lparr>t_actions := as, t_action_approvals := aps, t_plans := pls\<rparr>) =
     business (d\<lparr>t_actions := as, t_action_approvals := aps, t_plans := pls\<rparr>)"
  "business d' = business (d\<lparr>t_actions := as0, t_action_approvals := aps0, t_plans := pls\<rparr>) \<Longrightarrow>
     business (d'\<lparr>t_actions := as, t_action_approvals := aps\<rparr>) =
     business (d\<lparr>t_actions := as, t_action_approvals := aps, t_plans := pls\<rparr>)"
  by (cases d; cases d'; simp add: business_def)+

lemma waiting: "\<exists>b plan ap. request_part b = request_part demo_action \<and> ar_status b = Action_WAITING_APPROVAL
     \<and> ar_plan_checksum_sha256 b = Some ''sum'' \<and> ar_lease_expires_at b = None
     \<and> ar_cancellation_requested_at b = None
     \<and> pl_spec plan = demo_spec \<and> pl_checksum_sha256 plan = ''sum'' \<and> pl_action_request_id plan = ar_id demo_action
     \<and> pl_organization_id plan = 1
     \<and> opens_approval drafted_db b Purpose_EXECUTE ap \<and> aa_expires_at ap = timedelta_minutes 60
     \<and> aa_id ap = next_id drafted_db + 1
     \<and> (\<forall>agg. head_owned agg 1 waiting_db)
     \<and> business waiting_db = business (demo_db\<lparr>t_actions := [b], t_action_approvals := [ap], t_plans := [plan]\<rparr>)"
proof -
  have checks: "preflight_checks demo_ext demo_action drafted_db = (Inr (demo_capability 10 ''action.ticket.create'',
     demo_capability 20 ''action.ticket.close'', demo_spec, ''sum''), drafted_db)"
    by (rule query_run [OF query_preflight_checks demo_preflight_checks setting_drafted])
  have tables: "t_actions drafted_db = [demo_action]" "t_plans drafted_db = []" "t_action_approvals drafted_db = []"
    using business_tables [OF drafted(1)] by (simp_all add: demo_db_def sample_login_db_def empty_db_def)
  have names: "set [''action.approval_requested'', ''action.preflight_passed''] \<subseteq> set demo_names"
    by (simp add: demo_names_def)
  have plan: "find (\<lambda>pl. pl_action_request_id pl = ar_id demo_action) (t_plans drafted_db) = None"
    by (simp add: tables)
  have act: "get_action requester (ar_id demo_action) True drafted_db = (Inr demo_action, drafted_db)"
    by (rule demo_get_action [OF setting_drafted]) (simp_all add: tables demo_action_fields sample_principal_def)
  have head: "head_owned (ar_id demo_action) (ar_organization_id demo_action) drafted_db"
    by (simp add: drafted(3) demo_action_fields)
  have "can requester ''action.request''" by (simp add: can_def sample_principal_def)
  note run = served [OF preflight_action_returns [where reason = "''reason''" and ttl = 60 and clk = noon,
      OF this act _ plan checks seal_plan_returns [OF demo_accepts names head]]]
  obtain b plan ap where b: "request_part b = request_part demo_action" "ar_status b = Action_WAITING_APPROVAL"
      "ar_plan_checksum_sha256 b = Some ''sum''" "ar_lease_expires_at b = ar_lease_expires_at demo_action"
      "ar_cancellation_requested_at b = ar_cancellation_requested_at demo_action"
      "\<forall>agg. head_owned agg (ar_organization_id demo_action) drafted_db
         \<longrightarrow> head_owned agg (ar_organization_id demo_action) waiting_db"
    and plan: "pl_spec plan = demo_spec" "pl_checksum_sha256 plan = ''sum''"
      "pl_action_request_id plan = ar_id demo_action" "pl_organization_id plan = ar_organization_id demo_action"
    and ap: "opens_approval drafted_db b Purpose_EXECUTE ap" "aa_expires_at ap = 0 + timedelta_minutes 60"
      "aa_id ap = next_id drafted_db + 1"
    and store: "business waiting_db = business (drafted_db\<lparr>t_actions := replace_row ar_id b (t_actions drafted_db),
               t_action_approvals := t_action_approvals drafted_db @ [ap], t_plans := t_plans drafted_db @ [plan]\<rparr>)"
    using run unfolding waiting_db_def serve.simps by (auto simp: demo_action_fields)
  have "replace_row ar_id b (t_actions drafted_db) = [b]"
    using request_part_fields [OF b(1)] by (simp add: tables replace_row_def)
  moreover have "business (drafted_db\<lparr>t_actions := [b], t_action_approvals := [ap], t_plans := [plan]\<rparr>) =
      business (demo_db\<lparr>t_actions := [b], t_action_approvals := [ap], t_plans := [plan]\<rparr>)"
    using drafted(1) by (rule business_tables_set(1))
  moreover have "ar_lease_expires_at demo_action = None" "ar_cancellation_requested_at demo_action = None"
    by (simp_all add: demo_action_def new_action_row_def)
  ultimately show ?thesis
    using b plan ap store drafted(3)
    by (intro exI [of _ b] exI [of _ plan] exI [of _ ap]) (simp add: tables demo_action_fields)
qed

lemma setting_store:
  "business d = business (demo_db\<lparr>t_actions := as, t_action_approvals := aps, t_plans := pls\<rparr>) \<Longrightarrow>
     setting d = setting demo_db"
  by (simp add: setting_def) (simp add: business_def)

lemma request_part_demo:
  assumes "request_part b = request_part demo_action"
  shows "ar_timeout_seconds b = 300" "ar_environment b = ''staging''" "ar_target b = [(''project_key'', JStr ''OPS'')]"
    "ar_action_type b = Type_CREATE_TICKET"
  using assms
  by (cases b; simp add: request_part_def demo_action_def new_action_row_def demo_request_def sample_principal_def)+

text \<open>The decided store: the same plan and action, with the decision recorded.\<close>

lemma decided_result: "\<exists>v b plan ap.
     decide_action demo_ext noon approver (next_id drafted_db + 1) approve ''ok'' waiting_db = (Inr v, decided_db approve)
     \<and> request_part b = request_part demo_action
     \<and> ar_status b = decided_status Purpose_EXECUTE approve
     \<and> ar_plan_checksum_sha256 b = Some ''sum'' \<and> ar_lease_expires_at b = None
     \<and> ar_cancellation_requested_at b = None \<and> (approve \<longrightarrow> ar_deadline_at b = Some (timedelta_seconds 300))
     \<and> pl_spec plan = demo_spec \<and> pl_checksum_sha256 plan = ''sum'' \<and> pl_action_request_id plan = ar_id demo_action
     \<and> pl_organization_id plan = 1
     \<and> aa_status ap = (if approve then Approval_APPROVED else Approval_REJECTED)
     \<and> aa_plan_checksum_sha256 ap = ''sum'' \<and> aa_organization_id ap = 1 \<and> aa_purpose ap = Purpose_EXECUTE
     \<and> aa_action_request_id ap = ar_id demo_action \<and> aa_expires_at ap = timedelta_minutes 60
     \<and> aa_id ap = next_id drafted_db + 1
     \<and> (\<forall>agg. head_owned agg 1 (decided_db approve))
     \<and> business (decided_db approve) = business (demo_db\<lparr>t_actions := [b], t_action_approvals := [ap], t_plans := [plan]\<rparr>)"
proof -
  obtain b plan ap where b: "request_part b = request_part demo_action" "ar_status b = Action_WAITING_APPROVAL"
      "ar_plan_checksum_sha256 b = Some ''sum''" "ar_lease_expires_at b = None" "ar_cancellation_requested_at b = None"
      "\<forall>agg. head_owned agg 1 waiting_db"
    and plan: "pl_spec plan = demo_spec" "pl_checksum_sha256 plan = ''sum''"
      "pl_action_request_id plan = ar_id demo_action" "pl_organization_id plan = 1"
    and ap: "opens_approval drafted_db b Purpose_EXECUTE ap" "aa_expires_at ap = timedelta_minutes 60"
      "aa_id ap = next_id drafted_db + 1"
    and store: "business waiting_db = business (demo_db\<lparr>t_actions := [b], t_action_approvals := [ap], t_plans := [plan]\<rparr>)"
    using waiting by blast
  note b_fields = request_part_fields [OF b(1), unfolded demo_action_fields]
  have tables: "t_actions waiting_db = [b]" "t_action_approvals waiting_db = [ap]"
    using business_tables [OF store] by simp_all
  let ?a = "decided_action b (aa_purpose ap) approve 0"
  let ?ap = "ap\<lparr>aa_status := (if approve then Approval_APPROVED else Approval_REJECTED),
           aa_decided_by := Some (p_id approver), aa_decision_reason := Some (strip ''ok''), aa_decided_at := Some 0\<rparr>"
  have act: "get_action approver (aa_action_request_id ap) True waiting_db = (Inr b, waiting_db)"
    using demo_get_action [OF setting_store [OF store], of approver b] ap(1) b_fields
    by (simp add: tables sample_principal_def opens_approval_def)
  have found: "find (\<lambda>a. aa_id a = next_id drafted_db + 1 \<and> aa_organization_id a = p_organization_id approver)
      (t_action_approvals waiting_db) = Some ap"
    using ap b_fields by (simp add: tables opens_approval_def sample_principal_def)
  have acc: "accepts demo_ext demo_names" "''action.approval_decided'' \<in> set demo_names"
    by (rule demo_accepts) (simp add: demo_names_def)
  have codes: "set [''action_rejected'', ''action_rollback_rejected''] \<subseteq> set (ext_error_codes demo_ext)"
    by (simp add: demo_ext_def open_ext_def)
  have head: "head_owned (ar_id b) (ar_organization_id b) waiting_db" using b(6) b_fields by simp
  have misc: "can approver ''action.approve''" "aa_status ap = Approval_PENDING" "noon 0 < aa_expires_at ap"
      "aa_requested_by ap \<noteq> p_id approver" "ar_plan_checksum_sha256 b = Some (aa_plan_checksum_sha256 ap)"
    using ap b(3) b_fields by (simp_all add: can_def sample_principal_def opens_approval_def timedelta_minutes_def timedelta_seconds_def)
  have "succeeds (decide_action demo_ext noon approver (next_id drafted_db + 1) approve ''ok'') (\<lambda>_ d'.
      (\<forall>agg. head_owned agg 1 d') \<and> business d' = business (waiting_db\<lparr>t_actions := [?a], t_action_approvals := [?ap]\<rparr>))
      waiting_db"
    by (rule succeeds_conseq [OF decide_action_returns [OF misc(1) found misc(2,3) act misc(4,5) codes acc head]])
      (use b(6) b_fields in \<open>auto simp: tables replace_row_def decided_action_def\<close>)
  then obtain v where run: "decide_action demo_ext noon approver (next_id drafted_db + 1) approve ''ok'' waiting_db
      = (Inr v, decided_db approve)" and d: "\<forall>agg. head_owned agg 1 (decided_db approve)"
      "business (decided_db approve) = business (waiting_db\<lparr>t_actions := [?a], t_action_approvals := [?ap]\<rparr>)"
    by (auto dest!: served simp: decided_db_def decide_endpoint_state)
  have "request_part ?a = request_part demo_action" using b(1) by (simp add: decided_action_def request_part_def)
  then show ?thesis
    using run b plan ap d b_fields business_tables_set(2) [OF store]
    by (intro exI [of _ v] exI [of _ ?a] exI [of _ plan] exI [of _ ?ap])
      (auto simp: decided_action_def opens_approval_def sample_principal_def request_part_demo [OF b(1)])
qed

lemma decided: "\<exists>b plan ap. request_part b = request_part demo_action
     \<and> ar_status b = decided_status Purpose_EXECUTE approve
     \<and> ar_plan_checksum_sha256 b = Some ''sum'' \<and> ar_lease_expires_at b = None
     \<and> ar_cancellation_requested_at b = None \<and> (approve \<longrightarrow> ar_deadline_at b = Some (timedelta_seconds 300))
     \<and> pl_spec plan = demo_spec \<and> pl_checksum_sha256 plan = ''sum'' \<and> pl_action_request_id plan = ar_id demo_action
     \<and> pl_organization_id plan = 1
     \<and> aa_status ap = (if approve then Approval_APPROVED else Approval_REJECTED)
     \<and> aa_plan_checksum_sha256 ap = ''sum'' \<and> aa_organization_id ap = 1 \<and> aa_purpose ap = Purpose_EXECUTE
     \<and> aa_action_request_id ap = ar_id demo_action \<and> aa_expires_at ap = timedelta_minutes 60
     \<and> aa_id ap = next_id drafted_db + 1
     \<and> (\<forall>agg. head_owned agg 1 (decided_db approve))
     \<and> business (decided_db approve) = business (demo_db\<lparr>t_actions := [b], t_action_approvals := [ap], t_plans := [plan]\<rparr>)"
  using decided_result [of approve] by blast

section \<open>Claiming and executing\<close>

definition claimed_db :: db where
  "claimed_db = snd (claim demo_env noon [] (decided_db True))"

lemma claimed: "claim demo_env noon [] (decided_db True) = (Inr (Some (ar_id demo_action)), claimed_db)
  \<and> (\<exists>b plan ap. request_part b = request_part demo_action \<and> ar_status b = Action_EXECUTING
     \<and> ar_plan_checksum_sha256 b = Some ''sum'' \<and> ar_deadline_at b = Some (timedelta_seconds 300)
     \<and> pl_spec plan = demo_spec \<and> pl_checksum_sha256 plan = ''sum'' \<and> pl_action_request_id plan = ar_id demo_action
     \<and> pl_organization_id plan = 1 \<and> aa_status ap = Approval_APPROVED
     \<and> aa_plan_checksum_sha256 ap = ''sum'' \<and> aa_organization_id ap = 1 \<and> aa_purpose ap = Purpose_EXECUTE
     \<and> aa_action_request_id ap = ar_id demo_action \<and> aa_expires_at ap = timedelta_minutes 60
     \<and> (\<forall>agg. head_owned agg 1 claimed_db)
     \<and> business claimed_db = business (demo_db\<lparr>t_actions := [b], t_action_approvals := [ap], t_plans := [plan]\<rparr>))"
proof -
  obtain b plan ap where b: "request_part b = request_part demo_action" "ar_status b = Action_APPROVED"
      "ar_plan_checksum_sha256 b = Some ''sum''" "ar_lease_expires_at b = None" "ar_cancellation_requested_at b = None"
      "ar_deadline_at b = Some (timedelta_seconds 300)" "\<forall>agg. head_owned agg 1 (decided_db True)"
    and plan: "pl_spec plan = demo_spec" "pl_checksum_sha256 plan = ''sum''"
      "pl_action_request_id plan = ar_id demo_action" "pl_organization_id plan = 1"
    and ap: "aa_status ap = Approval_APPROVED"
      "aa_plan_checksum_sha256 ap = ''sum''" "aa_organization_id ap = 1" "aa_purpose ap = Purpose_EXECUTE"
      "aa_action_request_id ap = ar_id demo_action" "aa_expires_at ap = timedelta_minutes 60"
    and store: "business (decided_db True) =
        business (demo_db\<lparr>t_actions := [b], t_action_approvals := [ap], t_plans := [plan]\<rparr>)"
    using decided [of True] by (auto simp: decided_status_def)
  note b_fields = request_part_fields [OF b(1), unfolded demo_action_fields]
  have tables: "t_actions (decided_db True) = [b]" "t_action_approvals (decided_db True) = [ap]"
    using business_tables [OF store] by simp_all
  let ?b = "claimed_action demo_env 0 b"
  have quiet: "\<forall>ap \<in> set (t_action_approvals (decided_db True)). aa_status ap \<noteq> Approval_PENDING"
    by (simp add: tables ap)
  have first: "next_claim (noon 0) [] (decided_db True) = Some b"
    by (simp add: next_claim_def tables b first_by_def claimable_def lease_free_def)
  have acc: "accepts (e_ext demo_env) demo_names" "''action.claimed'' \<in> set demo_names"
    by (simp add: demo_env_def demo_accepts) (simp add: demo_names_def)
  have head: "head_owned (ar_id b) (ar_organization_id b) (decided_db True)" using b(7) b_fields by simp
  have one: "replace_row ar_id ?b [b] = [?b]" by (simp add: replace_row_def claimed_action_def)
  have "succeeds (claim demo_env noon []) (\<lambda>r d'. r = Some (ar_id demo_action)
      \<and> (\<forall>agg. head_owned agg 1 d') \<and> business d' = business ((decided_db True)\<lparr>t_actions := [?b]\<rparr>)) (decided_db True)"
    by (rule succeeds_conseq [OF claim_returns [OF quiet first acc head]])
      (use b(7) b_fields one in \<open>simp add: tables\<close>)
  then have run: "claim demo_env noon [] (decided_db True) = (Inr (Some (ar_id demo_action)), claimed_db)"
      "\<forall>agg. head_owned agg 1 claimed_db" "business claimed_db = business ((decided_db True)\<lparr>t_actions := [?b]\<rparr>)"
    by (auto simp: succeeds_def claimed_db_def)
  have "business ((decided_db True)\<lparr>t_actions := [?b], t_action_approvals := [ap]\<rparr>) =
      business (demo_db\<lparr>t_actions := [?b], t_action_approvals := [ap], t_plans := [plan]\<rparr>)"
    using store by (rule business_tables_set(2))
  moreover have "(decided_db True)\<lparr>t_actions := [?b], t_action_approvals := [ap]\<rparr> = (decided_db True)\<lparr>t_actions := [?b]\<rparr>"
    using tables(2) by simp
  moreover have "request_part ?b = request_part demo_action" "ar_status ?b = Action_EXECUTING"
      "ar_plan_checksum_sha256 ?b = Some ''sum''" "ar_deadline_at ?b = Some (timedelta_seconds 300)"
    using b by (simp_all add: claimed_action_def request_part_def claim_purpose_def running_status_def)
  ultimately show ?thesis
    using run plan ap by (intro conjI exI [of _ ?b] exI [of _ plan] exI [of _ ap]) simp_all
qed

text \<open>The execution the worker loads, and the request it hands to the gateway.\<close>

lemma demo_references:
  assumes "pl_spec plan = demo_spec"
  shows "plan_references plan Purpose_EXECUTE = Inr (11, 42)"
    "map_of (pl_spec plan) ''parameters'' = Some (JObj (ar_parameters demo_action))"
  using assms by (simp_all add: plan_references_def demo_spec_def plan_spec_of_def reference_id_def plan_reference_def
      demo_capability_def sample_capability_def sample_resolved_def py_str_def parse_uuid_str)

lemma demo_execution:
  assumes "setting d = setting demo_db" and b: "request_part b = request_part demo_action" "ar_status b = Action_EXECUTING"
    "ar_plan_checksum_sha256 b = Some ''sum''"
    and plan: "t_plans d = [plan]" "pl_spec plan = demo_spec" "pl_checksum_sha256 plan = ''sum''"
      "pl_action_request_id plan = ar_id demo_action" "pl_organization_id plan = 1"
    and ap: "t_action_approvals d = [ap]" "aa_status ap = Approval_APPROVED" "aa_plan_checksum_sha256 ap = ''sum''"
      "aa_organization_id ap = 1" "aa_purpose ap = Purpose_EXECUTE" "aa_action_request_id ap = ar_id demo_action"
      "0 < aa_expires_at ap"
  shows "\<exists>ex. load_execution 0 b d = (Inr ex, d) \<and> ex_plan ex = plan \<and> ex_purpose ex = Purpose_EXECUTE
    \<and> ex_approval ex = ap \<and> ex_capability_version_id ex = 11 \<and> ex_connector_id ex = 42
    \<and> p_organization_id (ex_principal ex) = 1 \<and> can (ex_principal ex) ''action.execute''
    \<and> can (ex_principal ex) ''ticket.write''"
proof -
  obtain q where q: "load_principal_by_id 1 7 demo_db = (Inr q, demo_db)" "p_id q = 7"
      "p_organization_id q = 1" "p_permissions q = {''action.execute'', ''ticket.write''}"
    using demo_owner by blast
  obtain ws where "require_workspace_access q 5 True demo_db = (Inr ws, demo_db)"
    using demo_access [of q] q by auto
  then have acc: "require_workspace_access q 5 True d = (Inr ws, d)"
    using query_run [OF query_workspace_access] assms(1) by blast
  have load: "load_principal_by_id 1 7 d = (Inr q, d)"
    using query_run [OF query_load_principal q(1)] assms(1) by blast
  have c: "can q ''action.execute''" "can q ''ticket.write''" using q(4) by (simp_all add: can_def)
  note b_fields = request_part_fields [OF b(1), unfolded demo_action_fields]
  have "executable_plan b d = Some plan" using plan b b_fields by (simp add: executable_plan_def)
  moreover have "executable_approval b Purpose_EXECUTE plan d = Some ap"
    using plan ap b b_fields by (simp add: executable_approval_def first_by_def)
  ultimately show ?thesis
    using c q(3) plan ap(7) demo_references [OF plan(2)] b b_fields
    by (simp add: load_execution_def andthen_def reads_def from_some_def from_sum_def require_def ret_def load acc
        execution_payload_def)
qed

lemma demo_resolve:
  assumes "setting d = setting demo_db" and "p_organization_id (gr_principal r) = 1"
    and "can (gr_principal r) ''action.execute''" and "can (gr_principal r) ''ticket.write''"
    and "ar_environment (gr_action r) = ''staging''"
    and "at_capability_version_id (gr_attempt r) = 11" and "at_connector_id (gr_attempt r) = 42"
  shows "resolve_pinned demo_ext r d = (Inr (demo_capability 10 ''action.ticket.create''), d)"
proof (rule query_run [OF query_resolve_pinned _ assms(1)])
  let ?rc = "demo_capability 10 ''action.ticket.create''"
  have "filter (pinned_row r) (capability_rows demo_db) = [?rc]"
    using assms by (simp add: capability_rows_def demo_db_def demo_capabilities_def demo_capability_def
        pinned_row_def sample_capability_def sample_resolved_def Let_def)
  moreover have "validate_contract ?rc (gr_principal r) ''staging'' = Inr ()"
    using assms by (simp add: validate_contract_Inr demo_capability_def sample_capability_def sample_resolved_def)
  moreover have "rc_connector ?rc = rc_connector sample_resolved" by (simp add: demo_capability_def)
  ultimately show "resolve_pinned demo_ext r demo_db = (Inr ?rc, demo_db)"
    using assms(5) demo_endpoint_ok by (simp add: resolve_pinned_def op_simps from_sum_def)
qed

definition claimed_world :: world where
  "claimed_world = \<lparr>w_db = claimed_db, w_posts = []\<rparr>"

lemma demo_posts: "\<exists>po. w_posts (snd (invoke_action demo_env noon (ar_id demo_action) claimed_world)) = [po]"
proof -
  obtain b plan ap where b: "request_part b = request_part demo_action" "ar_status b = Action_EXECUTING"
      "ar_plan_checksum_sha256 b = Some ''sum''" "ar_deadline_at b = Some (timedelta_seconds 300)"
      "\<forall>agg. head_owned agg 1 claimed_db"
    and plan: "pl_spec plan = demo_spec" "pl_checksum_sha256 plan = ''sum''"
      "pl_action_request_id plan = ar_id demo_action" "pl_organization_id plan = 1"
    and ap: "aa_status ap = Approval_APPROVED"
      "aa_plan_checksum_sha256 ap = ''sum''" "aa_organization_id ap = 1" "aa_purpose ap = Purpose_EXECUTE"
      "aa_action_request_id ap = ar_id demo_action" "aa_expires_at ap = timedelta_minutes 60"
    and store: "business claimed_db = business (demo_db\<lparr>t_actions := [b], t_action_approvals := [ap], t_plans := [plan]\<rparr>)"
    using claimed by blast
  note b_fields = request_part_fields [OF b(1), unfolded demo_action_fields]
  note tables = business_tables [OF store, simplified]
  have db: "w_db claimed_world = claimed_db" "w_posts claimed_world = []" by (simp_all add: claimed_world_def)
  have "0 < aa_expires_at ap" using ap by (simp add: timedelta_minutes_def timedelta_seconds_def)
  then obtain ex where ex: "load_execution 0 b claimed_db = (Inr ex, claimed_db)" "ex_plan ex = plan"
      "ex_purpose ex = Purpose_EXECUTE" "ex_approval ex = ap" "ex_capability_version_id ex = 11" "ex_connector_id ex = 42"
      "p_organization_id (ex_principal ex) = 1" "can (ex_principal ex) ''action.execute''"
      "can (ex_principal ex) ''ticket.write''"
    using demo_execution [OF setting_store [OF store] b(1-3) tables(22) plan tables(23) ap(1-5)] by blast
  let ?a = "first_attempt noon b ex claimed_db"
  let ?d = "with_attempt ?a claimed_db"
  let ?r = "execution_request b ex ?a"
  let ?rc = "demo_capability 10 ''action.ticket.create''"
  have atm: "at_capability_version_id ?a = 11" "at_connector_id ?a = 42"
    by (simp_all add: first_attempt_def running_attempt_def new_attempt_def ex)
  have set: "setting ?d = setting demo_db"
    using setting_store [OF store] by (simp add: with_attempt_def setting_def) (simp add: business_def)
  have res: "resolve_pinned demo_ext ?r ?d = (Inr ?rc, ?d)"
    by (rule demo_resolve [OF set]) (simp_all add: execution_request_def ex atm request_part_demo [OF b(1)])
  have none: "t_policies ?d = []"
    using tables(18) by (simp add: with_attempt_def demo_db_def sample_login_db_def empty_db_def)
  have ok: "approval_valid ?r 0"
    using ap ex plan b_fields \<open>0 < aa_expires_at ap\<close> by (simp add: approval_valid_def execution_request_def)
  have allow: "fst (resolve_action (action_policy_request ?r ?rc 0) ?d) \<noteq> Effect_DENY"
    using ok none ex by (simp add: action_gate.deny_iff action_closed_def matching_policies_def enabled_policies_def
        action_policy_request_def cond_get_def py_str_def action_subject_def demo_capability_def sample_capability_def
        execution_request_def request_part_demo [OF b(1)])
  have acc: "accepts demo_ext [''action.policy_decided'', ''action.provider_started'']"
    using demo_accepts by (auto simp: accepts_def demo_names_def)
  have head: "head_owned (ar_id (gr_action ?r)) (p_organization_id (gr_principal ?r)) ?d"
    using b(5) by (simp add: execution_request_def ex with_attempt_def head_owned_def)
  have sends: "\<exists>po. w_posts (snd (gateway_invoke demo_env (later 2 noon) ?r (claimed_world\<lparr>w_db := ?d\<rparr>)))
      = w_posts claimed_world @ [po]"
  proof -
    have "\<exists>po. w_posts (snd (gateway_invoke demo_env (later 2 noon) ?r (claimed_world\<lparr>w_db := ?d\<rparr>)))
        = w_posts (claimed_world\<lparr>w_db := ?d\<rparr>) @ [po]"
      by (rule gateway_invoke_sends [where rc = ?rc and c = None and t = 120])
        (use res allow acc head in \<open>simp_all add: effective_timeout_def post_headers_def sample_timeout demo_env_def sample_env_def demo_ext_def open_ext_def
          validate_schema_def demo_capability_def sample_resolved_def resolve_credential_def connector_timeout_def
          cond_get_def later_def\<close>)
    then show ?thesis by simp
  qed
  have late: "noon 0 < timedelta_seconds 300" by (simp add: timedelta_seconds_def)
  have empty: "t_attempts claimed_db = []" using tables(24) by (simp add: demo_db_def sample_login_db_def empty_db_def)
  have "\<exists>po. w_posts (snd (invoke_action demo_env noon (ar_id demo_action) claimed_world)) = w_posts claimed_world @ [po]"
    by (rule invoke_action_sends [OF _ _ b(4) late])
      (use ex(1) b b_fields sends empty in \<open>simp_all add: db tables(21) running_def\<close>)
  then show ?thesis by (simp add: db)
qed

section \<open>The run as steps of the system\<close>

definition demo_system :: system where
  "demo_system = \<lparr>sy_world = \<lparr>w_db = demo_db, w_posts = []\<rparr>, sy_permits = (\<lambda>_. 2), sy_tasks = []\<rparr>"

definition demo_claimed :: system where
  "demo_claimed = start_task (e_worker_id demo_env) (Invoking (ar_id demo_action)) (with_db claimed_db demo_system)"

definition posted_world :: world where
  "posted_world = snd (invoke_action demo_env noon (ar_id demo_action) claimed_world)"

lemma demo_initial: "system_initial (\<lambda>_. 2) demo_system"
  by (simp add: system_initial_def demo_system_def sy_db_def demo_db_def sample_login_db_def empty_db_def)

lemma sy_db_with_db [simp]: "sy_db (with_db d s) = d" "with_db d' (with_db d s) = with_db d' s"
    "sy_permits (with_db d s) = sy_permits s"
  by (simp_all add: sy_db_def with_db_def)

lemma served_step: "system_step (with_db d s) (with_db (serve x clk rq d) s)"
  using system_step.api [of "with_db d s" x clk rq] by simp

lemma demo_step: "system_step demo_system (with_db drafted_db demo_system)"
proof -
  have "with_db demo_db demo_system = demo_system" by (simp add: demo_system_def with_db_def)
  then show ?thesis unfolding drafted_db_def by (metis served_step)
qed

lemma drafted_reachable: "system_reachable (\<lambda>_. 2) (with_db drafted_db demo_system)"
  using system_reachable.intros demo_initial demo_step by metis

lemma decided_reachable: "system_reachable (\<lambda>_. 2) (with_db (decided_db approve) demo_system)"
  unfolding decided_db_def waiting_db_def
  by (intro system_reachable.step [OF _ served_step] drafted_reachable)

lemma claimed_step: "system_step (with_db (decided_db True) demo_system) demo_claimed"
  using system_step.claimed [of "with_db (decided_db True) demo_system" demo_env noon "[]" "ar_id demo_action" claimed_db] claimed
  by (simp add: demo_claimed_def) (simp add: demo_system_def)

lemma claimed_reachable: "system_reachable (\<lambda>_. 2) demo_claimed"
  by (rule system_reachable.step [OF decided_reachable claimed_step])

lemma posted_reachable: "\<exists>s. system_reachable (\<lambda>_. 2) s \<and> sy_world s = posted_world"
proof -
  let ?k = "e_worker_id demo_env" let ?i = "ar_id demo_action"
  have "(?k, Invoking ?i) \<in> set (sy_tasks demo_claimed)" by (simp add: demo_claimed_def start_task_def)
  moreover have "sy_world demo_claimed = claimed_world"
    by (simp add: demo_claimed_def start_task_def with_db_def demo_system_def claimed_world_def)
  moreover obtain v where v: "invoke_action demo_env noon ?i claimed_world = (v, posted_world)"
    by (metis posted_world_def prod.collapse)
  ultimately have "\<exists>s. system_step demo_claimed s \<and> sy_world s = posted_world"
    using system_step.invoked [of demo_env ?i demo_claimed noon posted_world]
      system_step.raised [of demo_env ?i demo_claimed noon _ posted_world]
    by (cases v; cases "failure_of (projl v)") (fastforce simp: end_task_def replace_task_def)+
  then show ?thesis using system_reachable.step [OF claimed_reachable] by blast
qed

end
