(* ===== verification/ApprovalDesk.thy ===== *)
theory ApprovalDesk
  imports Identity
begin

text \<open>
  What the two approval services have in common, as an interface. A desk takes decision
  requests, each for one approval; \<open>standing\<close> looks an approval's status up in the store. The
  laws are about single requests; proved from them once are the facts about whole histories:
  whoever asks, in whatever order, at most one decision of an approval takes effect and its
  verdict stands. \<open>RunApproval\<close> and \<open>ActionDesk\<close> interpret it on the two endpoints.
\<close>

definition verdict :: "bool \<Rightarrow> approval_status" where
  "verdict approve = (if approve then Approval_APPROVED else Approval_REJECTED)"

lemma verdict_settled [simp]: "verdict b \<noteq> Approval_PENDING" "verdict b \<noteq> Approval_EXPIRED"
    "verdict a = verdict b \<longleftrightarrow> a = b"
  by (simp_all add: verdict_def)

text \<open>A decision request.\<close>

record decision_request =
  dq_ext :: ext
  dq_clock :: clock
  dq_principal :: principal
  dq_approval :: uuid
  dq_approve :: bool
  dq_reason :: string

locale approval_desk =
  fixes decide :: "'q \<Rightarrow> (db, 'r) op"
    and target :: "'q \<Rightarrow> uuid"
    and approves :: "'q \<Rightarrow> bool"
    and standing :: "uuid \<Rightarrow> db \<Rightarrow> approval_status option"
    and ok :: "db \<Rightarrow> bool"
  assumes keeps_ok: "ok d \<Longrightarrow> decide q d = (v, d') \<Longrightarrow> ok d'"
    and decided: "ok d \<Longrightarrow> decide q d = (Inr r, d') \<Longrightarrow>
      standing (target q) d = Some Approval_PENDING \<and> standing (target q) d' = Some (verdict (approves q))"
    and refused: "ok d \<Longrightarrow> decide q d = (Inl e, d') \<Longrightarrow> standing (target q) d' = standing (target q) d
      \<or> standing (target q) d = Some Approval_PENDING \<and> standing (target q) d' = Some Approval_EXPIRED"
    and others: "ok d \<Longrightarrow> decide q d = (v, d') \<Longrightarrow> i \<noteq> target q \<Longrightarrow> standing i d' = standing i d"
begin

lemma settled_step:
  assumes "ok d" and "standing i d = Some st" and "st \<noteq> Approval_PENDING" and "decide q d = (v, d')"
  shows "standing i d' = Some st \<and> (target q = i \<longrightarrow> (\<exists>e. v = Inl e))"
proof (cases "target q = i")
  case True
  then obtain e where e: "v = Inl e" using decided [OF assms(1)] assms(2-4) by (cases v) auto
  show ?thesis using refused [OF assms(1) assms(4) [unfolded e]] assms(2,3) True e by auto
next
  case False
  then show ?thesis using others [OF assms(1,4)] assms(2) by auto
qed

lemma settled_history:
  "ok d \<Longrightarrow> standing i d = Some st \<Longrightarrow> st \<noteq> Approval_PENDING \<Longrightarrow> answered decide qs d = (as, d') \<Longrightarrow>
     standing i d' = Some st \<and> filter (\<lambda>q. target q = i) as = []"
proof (induction qs arbitrary: d as d')
  case (Cons q qs)
  obtain v d1 where q: "decide q d = (v, d1)" by (cases "decide q d")
  obtain as1 d2 where rest: "answered decide qs d1 = (as1, d2)" by (cases "answered decide qs d1")
  have "ok d1" using keeps_ok [OF Cons.prems(1) q] .
  moreover have step: "standing i d1 = Some st \<and> (target q = i \<longrightarrow> (\<exists>e. v = Inl e))"
    by (rule settled_step [OF Cons.prems(1-3) q])
  ultimately have "standing i d2 = Some st \<and> filter (\<lambda>q. target q = i) as1 = []"
    using Cons.IH [OF _ _ Cons.prems(3) rest] by blast
  then show ?case using Cons.prems(4) q rest step by (cases v) auto
qed simp

lemma decided_once:
  "ok d \<Longrightarrow> answered decide qs d = (as, d') \<Longrightarrow>
     filter (\<lambda>q. target q = i) as = []
     \<or> (\<exists>q. filter (\<lambda>q. target q = i) as = [q] \<and> standing i d = Some Approval_PENDING
            \<and> standing i d' = Some (verdict (approves q)))"
proof (induction qs arbitrary: d as d')
  case (Cons q qs)
  obtain v d1 where q: "decide q d = (v, d1)" by (cases "decide q d")
  obtain as1 d2 where rest: "answered decide qs d1 = (as1, d2)" by (cases "answered decide qs d1")
  have ok: "ok d1" using keeps_ok [OF Cons.prems(1) q] .
  have IH: "filter (\<lambda>q. target q = i) as1 = [] \<or> (\<exists>q. filter (\<lambda>q. target q = i) as1 = [q]
      \<and> standing i d1 = Some Approval_PENDING \<and> standing i d2 = Some (verdict (approves q)))"
    using Cons.IH [OF ok rest] .
  show ?case
  proof (cases v)
    case (Inl e)
    have "standing i d1 = Some Approval_PENDING \<Longrightarrow> standing i d = Some Approval_PENDING"
      using refused [OF Cons.prems(1) q [unfolded Inl]] others [OF Cons.prems(1) q, of i]
      by (cases "i = target q") auto
    then show ?thesis using IH Cons.prems(2) q rest Inl by auto
  next
    case (Inr r)
    note new = decided [OF Cons.prems(1) q [unfolded Inr]]
    have out: "as = q # as1" "d' = d2" using Cons.prems(2) q rest Inr by auto
    show ?thesis
    proof (cases "target q = i")
      case True
      then show ?thesis using settled_history [OF ok _ _ rest, of i] new out by auto
    next
      case False
      then show ?thesis using IH out others [OF Cons.prems(1) q, of i] by auto
    qed
  qed
qed simp

end

end
