(* ===== verification/ActionDesk.thy ===== *)
theory ActionDesk
  imports ActionScenario ApprovalDesk
begin

text \<open>
  The decision endpoint of governed actions (\<open>api/actions.py\<close>) as an approval desk. Its
  \<open>except\<close> clause stands outside the transaction, so unlike the endpoint of run approvals it
  never leaves an expiry behind: every refusal restores the store.
\<close>

definition decide_action_request :: "decision_request \<Rightarrow> (db, action_approval_row) op" where
  "decide_action_request q =
     decide_endpoint (dq_ext q) (dq_clock q) (dq_principal q) (dq_approval q) (dq_approve q) (dq_reason q)"

definition action_standing :: "uuid \<Rightarrow> db \<Rightarrow> approval_status option" where
  "action_standing i d = row_standing aa_id aa_status i (t_action_approvals d)"

definition action_approval_keys :: "db \<Rightarrow> bool" where
  "action_approval_keys d \<longleftrightarrow> distinct (map aa_id (t_action_approvals d))"

lemma decide_endpoint_Inr:
  "decide_endpoint x clk p i approve reason d = (Inr a, d') \<longleftrightarrow> decide_action x clk p i approve reason d = (Inr a, d')"
  by (auto simp: decide_endpoint_def attempt_def andthen_def ret_def raise_def transaction_def
      split: prod.splits sum.splits if_splits)

lemma decide_endpoint_Inl: "decide_endpoint x clk p i approve reason d = (Inl e, d') \<Longrightarrow> d' = d"
  by (auto simp: decide_endpoint_def attempt_def andthen_def ret_def raise_def transaction_def
      split: prod.splits sum.splits if_splits)

lemma action_desk_step:
  fixes q :: decision_request
  assumes ok: "action_approval_keys d" and run: "decide_action_request q d = (v, d')"
  shows "action_approval_keys d'"
    and "v = Inr r \<Longrightarrow> action_standing (dq_approval q) d = Some Approval_PENDING
           \<and> action_standing (dq_approval q) d' = Some (verdict (dq_approve q))"
    and "v = Inl e \<Longrightarrow> action_standing (dq_approval q) d' = action_standing (dq_approval q) d
           \<or> action_standing (dq_approval q) d = Some Approval_PENDING
             \<and> action_standing (dq_approval q) d' = Some Approval_EXPIRED"
    and "j \<noteq> dq_approval q \<Longrightarrow> action_standing j d' = action_standing j d"
proof -
  let ?i = "dq_approval q"
  have cases: "(\<exists>a approval. v = Inr a \<and> approval \<in> set (t_action_approvals d) \<and> aa_id approval = ?i
         \<and> aa_status approval = Approval_PENDING \<and> aa_id a = ?i \<and> aa_status a = verdict (dq_approve q)
         \<and> t_action_approvals d' = replace_row aa_id a (t_action_approvals d))
      \<or> (\<exists>e. v = Inl e) \<and> d' = d"
  proof (cases v)
    case (Inl e)
    then show ?thesis using decide_endpoint_Inl run unfolding decide_action_request_def by blast
  next
    case (Inr a)
    then have "decide_action (dq_ext q) (dq_clock q) (dq_principal q) ?i (dq_approve q) (dq_reason q) d = (Inr a, d')"
      using run by (simp add: decide_action_request_def decide_endpoint_Inr)
    note * = returnsD [OF decide_action_effect this]
    obtain approval action where "approval \<in> set (t_action_approvals d)" "aa_id approval = ?i"
        "approval_decided d (dq_principal q) (dq_approve q) (dq_clock q 0) approval action a d'"
      using * by blast
    then show ?thesis using Inr by (auto simp: approval_decided_def governed_def verdict_def)
  qed
  have at: "action_standing ?i d = Some Approval_PENDING"
    if "approval \<in> set (t_action_approvals d)" "aa_id approval = ?i" "aa_status approval = Approval_PENDING" for approval
    using that ok row_standing_mem [of aa_id "t_action_approvals d" approval aa_status]
    by (simp add: action_standing_def action_approval_keys_def)
  have replaced: "action_standing j d' =
      (if j = aa_id a then map_option (\<lambda>_. aa_status a) (action_standing j d) else action_standing j d)"
    if "t_action_approvals d' = replace_row aa_id a (t_action_approvals d)" for a j
    using that by (simp add: action_standing_def row_standing_replace)
  show "action_approval_keys d'" using cases ok by (auto simp: action_approval_keys_def)
  show "action_standing ?i d = Some Approval_PENDING \<and> action_standing ?i d' = Some (verdict (dq_approve q))"
    if "v = Inr r" using cases at replaced that by auto
  show "action_standing ?i d' = action_standing ?i d
      \<or> action_standing ?i d = Some Approval_PENDING \<and> action_standing ?i d' = Some Approval_EXPIRED"
    if "v = Inl e" using cases that by auto
  show "action_standing j d' = action_standing j d" if "j \<noteq> ?i"
    using cases replaced that by auto
qed

interpretation action_desk: approval_desk decide_action_request dq_approval dq_approve action_standing action_approval_keys
  using action_desk_step by unfold_locales blast+

section \<open>Properties\<close>

text \<open>
  C25: Of all the decisions anybody ever requests on an approval of a governed action, in any
  order, at most one is answered with success; it found the approval pending, and its verdict
  stands at the end of the history.
\<close>

theorem action_approvals_decided_once:
  assumes "distinct (map aa_id (t_action_approvals d))" and "answered decide_action_request qs d = (as, d')"
  shows "filter (\<lambda>q. dq_approval q = i) as = []
     \<or> (\<exists>q. filter (\<lambda>q. dq_approval q = i) as = [q] \<and> action_standing i d = Some Approval_PENDING
            \<and> action_standing i d' = Some (verdict (dq_approve q)))"
  by (rule action_desk.decided_once) (use assms in \<open>simp_all add: action_approval_keys_def\<close>)

definition demo_decision :: "bool \<Rightarrow> decision_request" where
  "demo_decision approve = \<lparr>dq_ext = demo_ext, dq_clock = noon, dq_principal = approver,
     dq_approval = next_id drafted_db + 1, dq_approve = approve, dq_reason = ''ok''\<rparr>"

theorem action_approvals_decided_once_witness:
  "\<exists>as d'. answered decide_action_request [demo_decision False, demo_decision True] waiting_db = (as, d')
     \<and> filter (\<lambda>q. dq_approval q = next_id drafted_db + 1) as = [demo_decision False]
     \<and> action_standing (next_id drafted_db + 1) d' = Some Approval_REJECTED"
proof -
  obtain as d' where run: "answered decide_action_request [demo_decision False, demo_decision True] waiting_db = (as, d')"
    by fastforce
  obtain v where "decide_action_request (demo_decision False) waiting_db = (Inr v, decided_db False)"
    using decided_result [of False] by (auto simp: decide_action_request_def demo_decision_def decide_endpoint_Inr)
  then have first: "hd as = demo_decision False \<and> as \<noteq> []" using run by (auto split: prod.splits)
  obtain ap where "t_action_approvals waiting_db = [ap]" using waiting by (auto dest!: business_tables(23))
  then have "distinct (map aa_id (t_action_approvals waiting_db))" by simp
  from action_approvals_decided_once [OF this run, of "next_id drafted_db + 1"] first run show ?thesis
    by (cases as) (auto simp: demo_decision_def verdict_def)
qed

section \<open>Refused decisions\<close>

text \<open>
  The only error with the code \<open>action_approval_expired\<close> is the one raised after the expiry was
  written. \<open>expiry_recorded\<close> is what the service has written by then.
\<close>

abbreviation lapsed :: "err \<Rightarrow> bool" where
  "lapsed e \<equiv> error_is ConflictC ''action_approval_expired'' e"

lemma raises_get_action: "raises (get_action p aid w) (\<lambda>e _. \<not> lapsed e) d"
  unfolding get_action_def require_workspace_access_def
  by (intro raises_intros returns_always) (simp_all add: NotFoundError_def AuthorizationError_def error_is_def)

lemma raises_action_log:
  "raises (action_event x now a n ty ac pl) (\<lambda>e _. \<not> lapsed e) d"
  "raises (action_audit now a p n oc md) E d"
  unfolding action_event_def action_audit_def
  by (intro raises_intros raises_append_event returns_always; simp)
    (auto simp: raises_def andthen_Inl write_audit_iff)

lemma raises_check_code: "raises (check_code x code) (\<lambda>e _. \<not> lapsed e) d"
  by (auto simp: raises_def check_code_def validate_error_code_def error_is_def split: if_splits)

definition expiry_recorded :: "clock \<Rightarrow> action_approval_row \<Rightarrow> action_request_row \<Rightarrow> db \<Rightarrow> db \<Rightarrow> bool" where
  "expiry_recorded clk approval action d d1 \<longleftrightarrow>
     t_action_approvals d1 = replace_row aa_id
       (approval\<lparr>aa_status := Approval_EXPIRED, aa_decided_at := Some (clk 0)\<rparr>) (t_action_approvals d)
     \<and> t_actions d1 = replace_row ar_id (action\<lparr>ar_status := Action_EXPIRED,
         ar_error_code := Some ''action_approval_expired'',
         ar_error_message := Some ''The action approval expired''\<rparr>) (t_actions d)"

lemma expire_in_decide_error:
  "raises (expire_in_decide x clk approval action) (\<lambda>e d1. lapsed e \<longrightarrow> expiry_recorded clk approval action d d1) d"
  unfolding expire_in_decide_def Let_def
  by (intro raises_intros service_intros raises_conseq [OF raises_check_code] raises_conseq [OF raises_action_log(1)])
    (auto simp: put_approval_def put_action_def raises_def expiry_recorded_def governed_def)

lemma decide_action_error:
  "raises (decide_action x clk p i approve reason) (\<lambda>e d1. lapsed e \<longrightarrow>
     (\<exists>approval action. find (\<lambda>a. aa_id a = i \<and> aa_organization_id a = p_organization_id p) (t_action_approvals d) = Some approval
        \<and> aa_status approval = Approval_PENDING \<and> aa_expires_at approval \<le> clk 0
        \<and> action \<in> set (t_actions d) \<and> ar_id action = aa_action_request_id approval
        \<and> expiry_recorded clk approval action d d1)) d"
proof -
  have code: "\<not> lapsed e" if "validate_error_code x c = Inl e" for c e
    using that by (auto simp: validate_error_code_def error_is_def split: if_splits option.splits)
  show ?thesis
    unfolding decide_action_def Let_def
    by (intro raises_intros service_intros returns_get_action raises_conseq [OF expire_in_decide_error]
        raises_conseq [OF raises_get_action] raises_conseq [OF raises_action_log(1)] raises_conseq [OF raises_action_log(2)])
      (auto simp: require_permission_def error_is_def AuthorizationError_def NotFoundError_def ConflictError_def raises_def
        put_approval_def put_action_def dest: code [unfolded error_is_def])
qed


text \<open>
  C26: The decision endpoint of governed actions is all or nothing: whatever refuses a decision, the
  store is afterwards exactly as it was. That includes the refusal of an expired approval, which the
  handler of \<open>api/actions.py\<close> means to commit: whenever that is the error, the approval was pending
  and past its time, the service had recorded both the approval and the action as EXPIRED, and the
  endpoint loses that record, because its \<open>except\<close> clause runs after the transaction was rolled
  back.
\<close>

theorem action_refusal_restores:
  assumes "decide_endpoint x clk p i approve reason d = (Inl e, d')"
  shows "d' = d \<and> (error_is ConflictC ''action_approval_expired'' e \<longrightarrow>
     (\<exists>approval action d1.
        find (\<lambda>a. aa_id a = i \<and> aa_organization_id a = p_organization_id p) (t_action_approvals d) = Some approval
      \<and> aa_status approval = Approval_PENDING \<and> aa_expires_at approval \<le> clk 0
      \<and> action \<in> set (t_actions d) \<and> ar_id action = aa_action_request_id approval
      \<and> decide_action x clk p i approve reason d = (Inl e, d1)
      \<and> expiry_recorded clk approval action d d1))"
proof -
  have "\<exists>d1. decide_action x clk p i approve reason d = (Inl e, d1)"
    using assms by (auto simp: decide_endpoint_def attempt_def andthen_def ret_def raise_def transaction_def
      split: prod.splits sum.splits if_splits)
  then show ?thesis using decide_endpoint_Inl [OF assms] raisesD [OF decide_action_error] by blast
qed


text \<open>The demonstration action, decided an hour after its approval expired.\<close>

definition late :: clock where
  "late n = timedelta_minutes 61"

definition lapsing_ext :: ext where
  "lapsing_ext = open_ext [''action.approval_expired''] [''action_approval_expired'']"

lemma waiting_lapses:
  "\<exists>d1. decide_action lapsing_ext late approver (next_id drafted_db + 1) True ''ok'' waiting_db
     = (Inl (ConflictError ''action_approval_expired'' ''The action approval has expired'' []), d1)"
proof -
  obtain b plan ap where b: "request_part b = request_part demo_action" "\<forall>agg. head_owned agg 1 waiting_db"
    and ap: "opens_approval drafted_db b Purpose_EXECUTE ap" "aa_expires_at ap = timedelta_minutes 60"
      "aa_id ap = next_id drafted_db + 1"
    and store: "business waiting_db = business (demo_db\<lparr>t_actions := [b], t_action_approvals := [ap], t_plans := [plan]\<rparr>)"
    using waiting by blast
  note b_fields = request_part_fields [OF b(1), unfolded demo_action_fields]
  have tables: "t_actions waiting_db = [b]" "t_action_approvals waiting_db = [ap]"
    using business_tables [OF store] by simp_all
  let ?ap = "ap\<lparr>aa_status := Approval_EXPIRED, aa_decided_at := Some (late 0)\<rparr>"
  let ?b = "b\<lparr>ar_status := Action_EXPIRED, ar_error_code := Some ''action_approval_expired'',
      ar_error_message := Some ''The action approval expired''\<rparr>"
  let ?d = "waiting_db\<lparr>t_action_approvals := [?ap], t_actions := [?b]\<rparr>"
  have act: "get_action approver (aa_action_request_id ap) True waiting_db = (Inr b, waiting_db)"
    using demo_get_action [OF setting_store [OF store], of approver b] ap(1) b_fields
    by (simp add: tables sample_principal_def opens_approval_def)
  have found: "find (\<lambda>a. aa_id a = next_id drafted_db + 1 \<and> aa_organization_id a = p_organization_id approver)
      (t_action_approvals waiting_db) = Some ap"
    using ap b_fields by (simp add: tables opens_approval_def sample_principal_def)
  have acc: "accepts lapsing_ext [''action.approval_expired'']" and code: "''action_approval_expired'' \<in> set (ext_error_codes lapsing_ext)"
    by (simp_all add: accepts_def lapsing_ext_def open_ext_def)
  have head: "head_owned (ar_id ?b) (ar_organization_id ?b) ?d" using b(2) b_fields by (simp add: head_owned_def)
  have "succeeds (action_event lapsing_ext (late 1) ?b ''action.approval_expired'' Actor_SYSTEM None
      [(''approval_id'', JStr (uuid_str (aa_id ap))),
       (''purpose'', JStr (action_approval_purpose_value (aa_purpose ap)))]) (\<lambda>_ _. True) ?d"
    by (rule succeeds_action_event [OF acc _ _ head]) simp_all
  then obtain d1 where ev: "action_event lapsing_ext (late 1) ?b ''action.approval_expired'' Actor_SYSTEM None
      [(''approval_id'', JStr (uuid_str (aa_id ap))),
       (''purpose'', JStr (action_approval_purpose_value (aa_purpose ap)))] ?d = (Inr (), d1)"
    by (auto simp: succeeds_def)
  have rows: "replace_row aa_id ?ap (t_action_approvals waiting_db) = [?ap]" "replace_row ar_id ?b (t_actions waiting_db) = [?b]"
    by (simp_all add: tables replace_row_def)
  have misc: "can approver ''action.approve''" "aa_status ap = Approval_PENDING" "aa_expires_at ap \<le> late 0"
    using ap by (simp_all add: can_def sample_principal_def opens_approval_def timedelta_minutes_def timedelta_seconds_def late_def)
  have "expire_in_decide lapsing_ext late ap b waiting_db
      = ((Inl (ConflictError ''action_approval_expired'' ''The action approval has expired'' [])) :: err + action_approval_row, d1)"
    using ev by (simp add: expire_in_decide_def Let_def andthen_def check_code_def validate_error_code_def code from_sum_def
      ret_def raise_def put_approval_def put_action_def modify_def rows)
  then show ?thesis
    using misc by (simp add: decide_action_def Let_def andthen_def require_permission_def require_def reads_def from_some_def
      ret_def found act)
qed

theorem action_refusal_restores_witness:
  "\<exists>d1. decide_endpoint lapsing_ext late approver (next_id drafted_db + 1) True ''ok'' waiting_db
       = (Inl (ConflictError ''action_approval_expired'' ''The action approval has expired'' []), waiting_db)
     \<and> map aa_status (t_action_approvals waiting_db) = [Approval_PENDING]
     \<and> snd (decide_action lapsing_ext late approver (next_id drafted_db + 1) True ''ok'' waiting_db) = d1
     \<and> map aa_status (t_action_approvals d1) = [Approval_EXPIRED] \<and> map ar_status (t_actions d1) = [Action_EXPIRED]"
proof -
  let ?e = "ConflictError ''action_approval_expired'' ''The action approval has expired'' []"
  obtain d' where run: "decide_endpoint lapsing_ext late approver (next_id drafted_db + 1) True ''ok'' waiting_db = (Inl ?e, d')"
    using waiting_lapses by (auto simp: decide_endpoint_def attempt_def andthen_def ret_def raise_def transaction_def error_is_def ConflictError_def)
  have "error_is ConflictC ''action_approval_expired'' ?e" by (simp add: error_is_def ConflictError_def)
  then obtain approval action d1 where *: "d' = waiting_db"
      "find (\<lambda>a. aa_id a = next_id drafted_db + 1 \<and> aa_organization_id a = p_organization_id approver)
         (t_action_approvals waiting_db) = Some approval"
      "aa_status approval = Approval_PENDING" "action \<in> set (t_actions waiting_db)"
      "decide_action lapsing_ext late approver (next_id drafted_db + 1) True ''ok'' waiting_db = (Inl ?e, d1)"
      "expiry_recorded late approval action waiting_db d1"
    using action_refusal_restores [OF run] by blast
  obtain b ap plan where "business waiting_db = business (demo_db\<lparr>t_actions := [b], t_action_approvals := [ap], t_plans := [plan]\<rparr>)"
    using waiting by blast
  from business_tables [OF this] have tables: "t_actions waiting_db = [b]" "t_action_approvals waiting_db = [ap]" by simp_all
  show ?thesis using * tables run by (auto simp: expiry_recorded_def replace_row_def split: if_splits)
qed

end
