(* ===== verification/RunState.thy ===== *)
theory RunState
  imports Enums PyText
begin

text \<open>
  The lifecycle tables: \<open>domain/run_state.py\<close> (runs) and \<open>domain/workspace_collaboration.py\<close>
  (workspace tasks and decisions), with their validators. The locale \<open>lifecycle\<close> is what the
  services rely on: a status with no successor is terminal, and every live status can be
  ended in one step. Its lemmas (terminal statuses absorb, a terminal status stays reachable)
  are used through the interpretations for runs and for decisions.
\<close>

section \<open>Tables and validators\<close>

fun allowed_run_transitions :: "run_status \<Rightarrow> run_status list" where
  "allowed_run_transitions Run_PENDING = [Run_RUNNING, Run_CANCELLED, Run_FAILED]"
| "allowed_run_transitions Run_RUNNING =
     [Run_WAITING_APPROVAL, Run_WAITING_USER, Run_REPLANNING, Run_COMPLETED, Run_FAILED,
      Run_CANCELLED]"
| "allowed_run_transitions Run_WAITING_APPROVAL = [Run_RUNNING, Run_FAILED, Run_CANCELLED]"
| "allowed_run_transitions Run_WAITING_USER = [Run_RUNNING, Run_FAILED, Run_CANCELLED]"
| "allowed_run_transitions Run_REPLANNING = [Run_RUNNING, Run_FAILED, Run_CANCELLED]"
| "allowed_run_transitions Run_COMPLETED = []"
| "allowed_run_transitions Run_FAILED = []"
| "allowed_run_transitions Run_CANCELLED = []"

definition validate_run_transition :: "run_status \<Rightarrow> run_status \<Rightarrow> err + unit" where
  "validate_run_transition current target =
     (if target \<notin> set (allowed_run_transitions current)
      then Inl (ConflictError ''invalid_run_transition''
             (''Run cannot transition from '' @ run_status_value current @ '' to ''
                @ run_status_value target)
             [(''current'', JStr (run_status_value current)),
              (''target'', JStr (run_status_value target))])
      else Inr ())"

definition is_terminal :: "run_status \<Rightarrow> bool" where
  "is_terminal s = (s \<in> {Run_COMPLETED, Run_FAILED, Run_CANCELLED})"

fun task_transitions :: "workspace_task_status \<Rightarrow> workspace_task_status list" where
  "task_transitions Task_OPEN = [Task_IN_PROGRESS, Task_BLOCKED, Task_COMPLETED, Task_CANCELLED]"
| "task_transitions Task_IN_PROGRESS = [Task_OPEN, Task_BLOCKED, Task_COMPLETED, Task_CANCELLED]"
| "task_transitions Task_BLOCKED = [Task_OPEN, Task_IN_PROGRESS, Task_COMPLETED, Task_CANCELLED]"
| "task_transitions Task_COMPLETED = [Task_OPEN]"
| "task_transitions Task_CANCELLED = [Task_OPEN]"

definition validate_task_transition ::
  "workspace_task_status \<Rightarrow> workspace_task_status \<Rightarrow> err + unit" where
  "validate_task_transition current target =
     (if current = target then Inr ()
      else if target \<notin> set (task_transitions current)
      then Inl (ConflictError ''workspace_task_transition_invalid''
             ''The requested workspace task status transition is not permitted''
             [(''current_status'', JStr (workspace_task_status_value current)),
              (''requested_status'', JStr (workspace_task_status_value target))])
      else Inr ())"

fun decision_transitions :: "workspace_decision_status \<Rightarrow> workspace_decision_status list" where
  "decision_transitions Decision_PROPOSED = [Decision_ACCEPTED, Decision_REJECTED]"
| "decision_transitions Decision_ACCEPTED = [Decision_SUPERSEDED]"
| "decision_transitions Decision_REJECTED = []"
| "decision_transitions Decision_SUPERSEDED = []"

definition validate_decision_transition ::
  "workspace_decision_status \<Rightarrow> workspace_decision_status \<Rightarrow> err + unit" where
  "validate_decision_transition current target =
     (if target \<notin> set (decision_transitions current)
      then Inl (ConflictError ''workspace_decision_transition_invalid''
             ''The requested workspace decision status transition is not permitted''
             [(''current_status'', JStr (workspace_decision_status_value current)),
              (''requested_status'', JStr (workspace_decision_status_value target))])
      else Inr ())"

section \<open>Histories\<close>

text \<open>
  A history of statuses is legal when each step is in the table; \<open>steps_to\<close> is the
  reflexive and transitive closure of the table.
\<close>

fun legal_history :: "('s \<Rightarrow> 's list) \<Rightarrow> 's list \<Rightarrow> bool" where
  "legal_history next [] = True"
| "legal_history next [s] = True"
| "legal_history next (s # t # hs) = (t \<in> set (next s) \<and> legal_history next (t # hs))"

inductive steps_to :: "('s \<Rightarrow> 's list) \<Rightarrow> 's \<Rightarrow> 's \<Rightarrow> bool" for succs where
  here: "steps_to succs s s"
| step: "t \<in> set (succs s) \<Longrightarrow> steps_to succs t u \<Longrightarrow> steps_to succs s u"

inductive_cases steps_toE: "steps_to succs s u"

lemma steps_to_trans: "steps_to succs s t \<Longrightarrow> steps_to succs t u \<Longrightarrow> steps_to succs s u"
  by (induction rule: steps_to.induct) (auto intro: steps_to.intros)

lemma legal_history_steps: "legal_history succs (s # hs) \<Longrightarrow> steps_to succs s (last (s # hs))"
proof (induction hs arbitrary: s)
  case (Cons t hs)
  then show ?case by (auto intro: steps_to.intros)
qed (simp add: steps_to.here)

locale lifecycle =
  fixes succs :: "'s \<Rightarrow> 's list" and final :: "'s \<Rightarrow> bool"
  assumes final_iff: "final s \<longleftrightarrow> succs s = []"
    and endable: "\<not> final s \<Longrightarrow> \<exists>t \<in> set (succs s). final t"
begin

lemma final_absorbs:
  assumes "final s" and "steps_to succs s t"
  shows "t = s"
  using assms(2,1) by (induction rule: steps_to.induct) (auto simp: final_iff)

lemma final_reachable: "\<exists>t. steps_to succs s t \<and> final t"
proof (cases "final s")
  case True
  then show ?thesis using steps_to.here by metis
next
  case False
  then obtain t where "t \<in> set (succs s)" and "final t" using endable by blast
  then show ?thesis using steps_to.step steps_to.here by metis
qed

lemma final_last:
  assumes "legal_history succs (hs @ s # ts)" and "final s"
  shows "ts = []"
  using assms
proof (induction hs)
  case Nil
  then show ?case by (cases ts) (auto simp: final_iff)
next
  case (Cons h hs)
  then show ?case by (cases hs) auto
qed

end

interpretation run_life: lifecycle allowed_run_transitions is_terminal
proof unfold_locales
  fix s
  show "is_terminal s \<longleftrightarrow> allowed_run_transitions s = []"
    by (cases s) (simp_all add: is_terminal_def)
  show "\<not> is_terminal s \<Longrightarrow> \<exists>t \<in> set (allowed_run_transitions s). is_terminal t"
    by (cases s) (auto simp: is_terminal_def)
qed

definition decision_closed :: "workspace_decision_status \<Rightarrow> bool" where
  "decision_closed s = (s \<in> {Decision_REJECTED, Decision_SUPERSEDED})"

interpretation decision_life: lifecycle decision_transitions decision_closed
proof unfold_locales
  fix s
  show "decision_closed s \<longleftrightarrow> decision_transitions s = []"
    by (cases s) (simp_all add: decision_closed_def)
  show "\<not> decision_closed s \<Longrightarrow> \<exists>t \<in> set (decision_transitions s). decision_closed t"
    by (cases s) (auto simp: decision_closed_def)
qed

section \<open>Properties of the lifecycles\<close>

lemma validate_run_iff [simp]:
  "validate_run_transition s t = Inr u \<longleftrightarrow> t \<in> set (allowed_run_transitions s)"
  by (auto simp: validate_run_transition_def)

lemma validate_task_iff [simp]:
  "validate_task_transition s t = Inr u \<longleftrightarrow> t = s \<or> t \<in> set (task_transitions s)"
  by (auto simp: validate_task_transition_def)

lemma validate_decision_iff [simp]:
  "validate_decision_transition s t = Inr u \<longleftrightarrow> t \<in> set (decision_transitions s)"
  by (auto simp: validate_decision_transition_def)

lemma run_completed_pred: "Run_COMPLETED \<in> set (allowed_run_transitions s) \<Longrightarrow> s = Run_RUNNING"
  by (cases s) auto

lemma legal_history_appendD:
  "legal_history succs (xs @ y # z # zs) \<Longrightarrow> z \<in> set (succs y)"
proof (induction xs)
  case (Cons x xs)
  then show ?case by (cases xs) auto
qed simp

text \<open>
  A run's history of statuses that the transition table allows stops at its first
  terminal status, and a history that completes was RUNNING immediately before COMPLETED, so
  no run is completed from PENDING or from a waiting status.
\<close>

theorem run_history_ends:
  assumes "legal_history allowed_run_transitions (hs @ s # ts)" and "is_terminal s"
  shows "ts = [] \<and> (s = Run_COMPLETED \<longrightarrow> hs \<noteq> [] \<longrightarrow> last hs = Run_RUNNING)"
proof -
  have "ts = []" using run_life.final_last [OF assms] .
  moreover have "last hs = Run_RUNNING" if "s = Run_COMPLETED" and ne: "hs \<noteq> []"
  proof -
    have "legal_history allowed_run_transitions (butlast hs @ last hs # s # ts)"
      using assms(1) ne by (metis append_butlast_last_id append_Cons append_Nil append_assoc)
    then show ?thesis using that(1) run_completed_pred legal_history_appendD by metis
  qed
  ultimately show ?thesis by blast
qed

theorem run_history_ends_witness:
  "last [Run_PENDING, Run_RUNNING] = Run_RUNNING"
proof -
  have h: "legal_history allowed_run_transitions ([Run_PENDING, Run_RUNNING] @ Run_COMPLETED # [])"
    by simp
  have t: "is_terminal Run_COMPLETED" by (simp add: is_terminal_def)
  show ?thesis using run_history_ends [OF h t] by simp
qed

text \<open>
  A workspace task is never stuck: from every status, two validated updates reach any other
  status (a finished task has to be reopened first).
\<close>

theorem task_two_updates:
  "\<exists>m. validate_task_transition s m = Inr () \<and> validate_task_transition m t = Inr ()"
proof (cases "s = Task_COMPLETED \<or> s = Task_CANCELLED")
  case True
  then have "validate_task_transition s Task_OPEN = Inr ()" by auto
  moreover have "validate_task_transition Task_OPEN t = Inr ()" by (cases t) auto
  ultimately show ?thesis by blast
next
  case False
  then have "validate_task_transition s t = Inr ()" by (cases s; cases t) auto
  moreover have "validate_task_transition t t = Inr ()" by simp
  ultimately show ?thesis by blast
qed

end
