(* ===== verification/RunApproval.thy ===== *)
theory RunApproval
  imports RunState Events ApprovalDesk
begin

text \<open>
  Approvals of capability calls inside a run: \<open>application/approvals.py\<close>, its endpoints in
  \<open>api/approvals.py\<close>, and the step cancellation of \<open>application/run_lifecycle.py\<close>. A decision
  locks the approval and its run; an expired request is recorded as such and refused, and the
  endpoint catches that one error inside the \<open>session.begin()\<close> block, so the expiry is
  committed. Telemetry counters are left out.
\<close>

section \<open>Reading\<close>

definition list_run_approvals ::
  "principal \<Rightarrow> approval_status option \<Rightarrow> (db, approval_row list) op" where
  "list_run_approvals p status =
     andthen (require (can p ''approval.read'' \<or> can p ''approval.decide'')
       (AuthorizationError ''approval_read_denied'' ''Approval access is not permitted'' [])) (\<lambda>_.
     (let org = p_organization_id p
      in reads (\<lambda>d. take 500 (sort_key (\<lambda>a. - ap_created_at a)
           [ap. ap \<leftarrow> t_approvals d, ap_organization_id ap = org
                  \<and> (case status of None \<Rightarrow> True | Some st \<Rightarrow> ap_status ap = st),
                r \<leftarrow> t_runs d, run_id r = ap_run_id ap,
                ws \<leftarrow> run_workspaces d r, ws_organization_id ws = org
                  \<and> workspace_access_clause p False d ws]))))"

section \<open>Deciding\<close>

definition run_approval_event ::
  "ext \<Rightarrow> time \<Rightarrow> principal \<Rightarrow> run_row \<Rightarrow> string \<Rightarrow> actor_type \<Rightarrow> uuid option \<Rightarrow> jobj \<Rightarrow> (db, unit) op" where
  "run_approval_event x now p run name actor_ty actor payload =
     andthen (append_event x now
       ((EventDraft name ''run'' (run_id run) (p_organization_id p) (run_id run) actor_ty actor payload)
          \<lparr>ed_run_id := Some (run_id run)\<rparr>)) (\<lambda>_. ret ())"

definition run_approval_audit ::
  "time \<Rightarrow> principal \<Rightarrow> run_row \<Rightarrow> approval_row \<Rightarrow> actor_type \<Rightarrow> uuid option \<Rightarrow> string \<Rightarrow> (db, unit) op" where
  "run_approval_audit now p run approval actor_ty actor action =
     andthen (write_audit now
       ((AuditDraft (p_organization_id p) (run_id run) actor_ty actor action ''approval''
           (uuid_str (ap_id approval)) (approval_status_value (ap_status approval)) [])
        \<lparr>ad_approval_id := Some (ap_id approval)\<rparr>)) (\<lambda>_. ret ())"

definition put_run_approval :: "approval_row \<Rightarrow> (db, unit) op" where
  "put_run_approval a = modify (\<lambda>d. d\<lparr>t_approvals := replace_row ap_id a (t_approvals d)\<rparr>)"

definition put_run :: "run_row \<Rightarrow> (db, unit) op" where
  "put_run r = modify (\<lambda>d. d\<lparr>t_runs := replace_row run_id r (t_runs d)\<rparr>)"

text \<open>
  \<open>principal.can(v)\<close> for a JSON value: a list or an object is not hashable, which matters
  only when the wildcard permission does not answer first.
\<close>

definition json_can :: "principal \<Rightarrow> json \<Rightarrow> err + bool" where
  "json_can p v =
     (if ''*'' \<in> p_permissions p then Inr True
      else case v of
        JStr s \<Rightarrow> Inr (s \<in> p_permissions p)
      | JList _ \<Rightarrow> Inl (PyError ''TypeError'' (''unhashable type: '' @ [CHR 0x27] @ ''list'' @ [CHR 0x27]))
      | JObj _ \<Rightarrow> Inl (PyError ''TypeError'' (''unhashable type: '' @ [CHR 0x27] @ ''dict'' @ [CHR 0x27]))
      | _ \<Rightarrow> Inr False)"

definition approver_constraint :: "principal \<Rightarrow> jobj \<Rightarrow> err + unit" where
  "approver_constraint p constraints =
     (let denied = AuthorizationError ''approver_constraint_failed''
                     ''The approver does not meet policy constraints'' []
      in case map_of constraints ''permission'' of
           None \<Rightarrow> Inr ()
         | Some required \<Rightarrow>
             if \<not> truthy required then Inr ()
             else case json_can p required of
               Inl e \<Rightarrow> Inl e
             | Inr allowed \<Rightarrow> if allowed then Inr () else Inl denied)"

definition disallows_self :: "jobj \<Rightarrow> bool" where
  "disallows_self constraints = (case map_of constraints ''disallow_self'' of None \<Rightarrow> False | Some v \<Rightarrow> truthy v)"

text \<open>What a decision does to the run it belongs to.\<close>

definition decided_run :: "ext \<Rightarrow> run_row \<Rightarrow> bool \<Rightarrow> time \<Rightarrow> err + run_row" where
  "decided_run x run approve now =
     (if is_terminal (run_status_of run) then Inr run
      else if approve \<and> run_status_of run = Run_WAITING_APPROVAL then
        (case validate_run_transition (run_status_of run) Run_RUNNING of
           Inl e \<Rightarrow> Inl e
         | Inr _ \<Rightarrow> Inr (run\<lparr>run_status_of := Run_RUNNING, run_lease_owner := None,
                           run_lease_expires_at := None\<rparr>))
      else if \<not> approve then
        (case validate_run_transition (run_status_of run) Run_FAILED of
           Inl e \<Rightarrow> Inl e
         | Inr _ \<Rightarrow>
             (case validate_error_code x (Some ''approval_rejected'') of
                Inl e \<Rightarrow> Inl e
              | Inr _ \<Rightarrow> Inr (run\<lparr>run_status_of := Run_FAILED, run_error_code := Some ''approval_rejected'',
                                run_error_message := Some ''The requested capability was rejected'',
                                run_completed_at := Some now\<rparr>)))
      else Inr run)"

definition decided_approval :: "approval_row \<Rightarrow> principal \<Rightarrow> bool \<Rightarrow> string \<Rightarrow> time \<Rightarrow> approval_row" where
  "decided_approval approval p approve reason now =
     approval\<lparr>ap_status := verdict approve, ap_decided_by := Some (p_id p),
              ap_decision_reason := Some (strip reason), ap_decided_at := Some now\<rparr>"

definition expired_approval :: "approval_row \<Rightarrow> time \<Rightarrow> approval_row" where
  "expired_approval approval now = approval\<lparr>ap_status := Approval_EXPIRED, ap_decided_at := Some now\<rparr>"

definition expire_run_approval ::
  "ext \<Rightarrow> clock \<Rightarrow> principal \<Rightarrow> approval_row \<Rightarrow> run_row \<Rightarrow> (db, 'a) op" where
  "expire_run_approval x clk p approval run =
     (let approval' = expired_approval approval (clk 0)
      in andthen (put_run_approval approval') (\<lambda>_.
         andthen (run_approval_event x (clk 1) p run ''approval.expired'' Actor_SYSTEM None
           [(''approval_id'', JStr (uuid_str (ap_id approval)))]) (\<lambda>_.
         andthen (run_approval_audit (clk 2) p run approval' Actor_SYSTEM None ''approval.expire'') (\<lambda>_.
         raise (ConflictError ''approval_expired'' ''The approval request has expired'' [])))))"

definition record_run_decision ::
  "ext \<Rightarrow> clock \<Rightarrow> principal \<Rightarrow> bool \<Rightarrow> approval_row \<Rightarrow> run_row \<Rightarrow> (db, approval_row) op" where
  "record_run_decision x clk p approve approval' run =
     andthen (put_run_approval approval') (\<lambda>_.
     andthen (from_sum (decided_run x run approve (clk 0))) (\<lambda>run'.
     andthen (put_run run') (\<lambda>_.
     andthen (run_approval_event x (clk 1) p run' (if approve then ''approval.approved'' else ''approval.rejected'')
       Actor_USER (Some (p_id p))
       [(''approval_id'', JStr (uuid_str (ap_id approval'))),
        (''reason'', JStr (case ap_decision_reason approval' of Some r \<Rightarrow> r | None \<Rightarrow> []))]) (\<lambda>_.
     andthen (run_approval_audit (clk 2) p run' approval' Actor_USER (Some (p_id p)) ''approval.decide'') (\<lambda>_.
     ret approval')))))"

definition decide_run_approval ::
  "ext \<Rightarrow> clock \<Rightarrow> principal \<Rightarrow> uuid \<Rightarrow> bool \<Rightarrow> string \<Rightarrow> (db, approval_row) op" where
  "decide_run_approval x clk p approval_id approve reason =
     andthen (require (can p ''approval.decide'') (AuthorizationError ''approval_decide_denied''
       ''Approval decisions are not permitted'' [])) (\<lambda>_.
     andthen (reads (\<lambda>d. find (\<lambda>a. ap_id a = approval_id \<and> ap_organization_id a = p_organization_id p)
                          (t_approvals d))) (\<lambda>found.
     andthen (from_some (NotFoundError ''Approval'' (uuid_str approval_id)) found) (\<lambda>approval.
     andthen (require (ap_status approval = Approval_PENDING)
        (ConflictError ''approval_already_decided'' ''The approval is no longer pending''
          [(''status'', JStr (approval_status_value (ap_status approval)))])) (\<lambda>_.
     andthen (require_run_access p (ap_run_id approval) True) (\<lambda>run.
     (let now = clk 0
      in if ap_expires_at approval \<le> now then expire_run_approval x clk p approval run
         else
           andthen (from_sum (approver_constraint p (ap_approver_constraints approval))) (\<lambda>_.
           andthen (require (\<not> (disallows_self (ap_approver_constraints approval)
                             \<and> ap_requested_by approval = p_id p))
              (AuthorizationError ''self_approval_denied''
                ''The requester cannot approve their own capability request'' [])) (\<lambda>_.
           record_run_decision x clk p approve (decided_approval approval p approve reason now) run))))))))"

text \<open>The endpoints: the handler runs inside the transaction, which then commits the expiry.\<close>

definition run_decide_endpoint ::
  "ext \<Rightarrow> clock \<Rightarrow> principal \<Rightarrow> uuid \<Rightarrow> bool \<Rightarrow> string \<Rightarrow> (db, approval_row) op" where
  "run_decide_endpoint x clk p approval_id approve reason =
     andthen (transaction (attempt
       (andthen (decide_run_approval x clk p approval_id approve reason) (\<lambda>a. ret (Inr a)))
       (\<lambda>e. if error_is ConflictC ''approval_expired'' e then ret (Inl e) else raise e))) (\<lambda>outcome.
     case outcome of Inl e \<Rightarrow> raise e | Inr a \<Rightarrow> ret a)"

section \<open>Cancelling the steps of a run\<close>

definition active_step :: "step_status \<Rightarrow> bool" where
  "active_step st \<longleftrightarrow> st \<in> {Step_PENDING, Step_RUNNING, Step_WAITING_APPROVAL}"

definition active_step_of :: "uuid \<Rightarrow> uuid \<Rightarrow> run_step_row \<Rightarrow> bool" where
  "active_step_of org rid s \<longleftrightarrow>
     step_organization_id s = org \<and> step_run_id s = rid \<and> active_step (step_status_of s)"

definition cancelled_step :: "uuid \<Rightarrow> uuid \<Rightarrow> time \<Rightarrow> run_step_row \<Rightarrow> run_step_row" where
  "cancelled_step org rid now s =
     (if active_step_of org rid s then s\<lparr>step_status_of := Step_CANCELLED, step_completed_at := Some now\<rparr> else s)"

definition cancel_active_run_steps :: "uuid \<Rightarrow> uuid \<Rightarrow> time \<Rightarrow> (db, int) op" where
  "cancel_active_run_steps org rid completed_at =
     andthen (reads (\<lambda>d. int (length (filter (active_step_of org rid) (t_steps d))))) (\<lambda>n.
     andthen (modify (\<lambda>d. d\<lparr>t_steps := map (cancelled_step org rid completed_at) (t_steps d)\<rparr>)) (\<lambda>_.
     ret n))"

section \<open>Effects\<close>

lemma run_approval_event_frame:
  "run_approval_event x now p run n ty ac pl d = (r, d') \<Longrightarrow> business d' = business d \<and> next_id d < next_id d'"
  unfolding run_approval_event_def andthen_def
  by (auto dest: append_event_business split: prod.splits sum.splits)

lemma run_approval_audit_frame:
  "run_approval_audit now p run a ty ac n d = (r, d') \<Longrightarrow> business d' = business d \<and> next_id d < next_id d'"
  unfolding run_approval_audit_def andthen_def
  by (auto dest: write_audit_business split: prod.splits sum.splits)

lemma returns_run_log:
  "(\<And>d'. business d' = business d \<Longrightarrow> next_id d < next_id d' \<Longrightarrow> Q () d')
     \<Longrightarrow> returns (run_approval_event x now p run n ty ac pl) Q d"
  "(\<And>d'. business d' = business d \<Longrightarrow> next_id d < next_id d' \<Longrightarrow> Q () d')
     \<Longrightarrow> returns (run_approval_audit now p run a ty ac n) Q d"
  by (auto simp: returns_def dest!: run_approval_event_frame run_approval_audit_frame)

lemma returns_run_access:
  "(\<And>r. r \<in> set (t_runs d) \<Longrightarrow> run_id r = rid \<Longrightarrow> run_organization_id r = p_organization_id p \<Longrightarrow>
      require_run_access p rid w d = (Inr r, d) \<Longrightarrow> Q r d)
     \<Longrightarrow> returns (require_run_access p rid w) Q d"
  by (rule returns_reading [OF require_run_access_state])
    (auto simp: require_run_access_def andthen_Inr dest!: find_SomeD)

lemma returns_put_run_approval:
  "Q () (d\<lparr>t_approvals := replace_row ap_id a (t_approvals d)\<rparr>) \<Longrightarrow> returns (put_run_approval a) Q d"
  by (simp add: put_run_approval_def returns_modify)

lemma returns_put_run:
  "Q () (d\<lparr>t_runs := replace_row run_id r (t_runs d)\<rparr>) \<Longrightarrow> returns (put_run r) Q d"
  by (simp add: put_run_def returns_modify)

lemmas run_desk_intros = returns_intros returns_run_log returns_run_access returns_put_run_approval returns_put_run

text \<open>What a decision that returns did.\<close>

definition run_approval_decided ::
  "ext \<Rightarrow> clock \<Rightarrow> principal \<Rightarrow> uuid \<Rightarrow> bool \<Rightarrow> string \<Rightarrow> db \<Rightarrow> approval_row \<Rightarrow> db \<Rightarrow> bool" where
  "run_approval_decided x clk p i approve reason d a d' \<longleftrightarrow>
     (\<exists>approval \<in> set (t_approvals d). \<exists>run run'.
        find (\<lambda>a. ap_id a = i \<and> ap_organization_id a = p_organization_id p) (t_approvals d) = Some approval
      \<and> can p ''approval.decide'' \<and> ap_status approval = Approval_PENDING \<and> clk 0 < ap_expires_at approval
      \<and> approver_constraint p (ap_approver_constraints approval) = Inr ()
      \<and> (disallows_self (ap_approver_constraints approval) \<longrightarrow> ap_requested_by approval \<noteq> p_id p)
      \<and> require_run_access p (ap_run_id approval) True d = (Inr run, d)
      \<and> decided_run x run approve (clk 0) = Inr run'
      \<and> a = decided_approval approval p approve reason (clk 0)
      \<and> business d' = business (d\<lparr>t_approvals := replace_row ap_id a (t_approvals d),
                                 t_runs := replace_row run_id run' (t_runs d)\<rparr>))"

lemma record_run_decision_effect:
  "returns (record_run_decision x clk p approve a run) (\<lambda>b d'. b = a
     \<and> (\<exists>run'. decided_run x run approve (clk 0) = Inr run'
          \<and> business d' = business (d\<lparr>t_approvals := replace_row ap_id a (t_approvals d),
                                     t_runs := replace_row run_id run' (t_runs d)\<rparr>))) d"
  unfolding record_run_decision_def by (intro run_desk_intros) auto

lemma expire_run_approval_returns: "returns (expire_run_approval x clk p approval run) Q d"
  unfolding expire_run_approval_def Let_def by (intro run_desk_intros)

lemma decide_run_approval_effect:
  "returns (decide_run_approval x clk p i approve reason)
     (\<lambda>a d'. run_approval_decided x clk p i approve reason d a d') d"
  unfolding decide_run_approval_def Let_def
  by (intro run_desk_intros expire_run_approval_returns returns_conseq [OF record_run_decision_effect])
    (auto simp: run_approval_decided_def not_le dest: find_SomeD)

section \<open>What a refused decision leaves behind\<close>

text \<open>The only error with the code \<open>approval_expired\<close> is the one raised after the expiry.\<close>

lemma decided_run_error: "decided_run x run approve now = Inl e \<Longrightarrow> \<not> error_is ConflictC ''approval_expired'' e"
  by (auto simp: decided_run_def validate_run_transition_def validate_error_code_def ConflictError_def error_is_def
      split: if_splits sum.splits option.splits)

lemma approver_constraint_error:
  "approver_constraint p cs = Inl e \<Longrightarrow> \<not> error_is ConflictC ''approval_expired'' e"
  by (auto simp: approver_constraint_def json_can_def AuthorizationError_def error_is_def
      split: if_splits sum.splits option.splits json.splits)

lemma raises_run_log:
  "raises (run_approval_event x now p run n ty ac pl) (\<lambda>e _. \<not> error_is ConflictC ''approval_expired'' e) d"
  "raises (run_approval_audit now p run a ty ac n) E d"
  unfolding run_approval_event_def run_approval_audit_def
  by (intro raises_intros raises_append_event returns_always; simp)
    (auto simp: raises_def andthen_Inl write_audit_iff)

lemma raises_run_access:
  "raises (require_run_access p rid w) (\<lambda>e _. \<not> error_is ConflictC ''approval_expired'' e) d"
  unfolding require_run_access_def
  by (intro raises_intros returns_always) (simp add: NotFoundError_def error_is_def)

definition run_approval_expired :: "clock \<Rightarrow> principal \<Rightarrow> uuid \<Rightarrow> db \<Rightarrow> db \<Rightarrow> bool" where
  "run_approval_expired clk p i d d' \<longleftrightarrow>
     (\<exists>approval run.
        find (\<lambda>a. ap_id a = i \<and> ap_organization_id a = p_organization_id p) (t_approvals d) = Some approval
      \<and> can p ''approval.decide'' \<and> ap_status approval = Approval_PENDING \<and> ap_expires_at approval \<le> clk 0
      \<and> require_run_access p (ap_run_id approval) True d = (Inr run, d)
      \<and> business d' = business (d\<lparr>t_approvals := replace_row ap_id (expired_approval approval (clk 0)) (t_approvals d)\<rparr>))"

lemma expire_run_approval_error:
  "raises (expire_run_approval x clk p approval run) (\<lambda>e d'. error_is ConflictC ''approval_expired'' e \<longrightarrow>
     business d' = business (d\<lparr>t_approvals := replace_row ap_id (expired_approval approval (clk 0)) (t_approvals d)\<rparr>)) d"
  unfolding expire_run_approval_def Let_def
  by (intro raises_intros run_desk_intros) (auto simp: put_run_approval_def raises_def dest: raisesD [OF raises_run_log(1)]
      raisesD [OF raises_run_log(2) [where E = "\<lambda>_ _. False"]])

lemma record_run_decision_error:
  "raises (record_run_decision x clk p approve a run) (\<lambda>e _. \<not> error_is ConflictC ''approval_expired'' e) d"
  unfolding record_run_decision_def put_run_approval_def put_run_def
  by (intro raises_intros returns_always raises_run_log) (rule decided_run_error)

lemma decide_run_approval_error:
  "raises (decide_run_approval x clk p i approve reason)
     (\<lambda>e d'. error_is ConflictC ''approval_expired'' e \<longrightarrow> run_approval_expired clk p i d d') d"
  unfolding decide_run_approval_def Let_def
  by (intro raises_intros run_desk_intros raises_conseq [OF expire_run_approval_error]
      raises_conseq [OF record_run_decision_error] raises_conseq [OF raises_run_access])
    (auto simp: error_is_def AuthorizationError_def NotFoundError_def ConflictError_def run_approval_expired_def
      dest: approver_constraint_error [unfolded error_is_def])

text \<open>The endpoint either decides, or expires, or changes nothing.\<close>

lemma run_decide_endpoint_Inr:
  "run_decide_endpoint x clk p i approve reason d = (Inr a, d') \<longleftrightarrow>
     decide_run_approval x clk p i approve reason d = (Inr a, d')"
  by (auto simp: run_decide_endpoint_def andthen_def attempt_def transaction_def ret_def raise_def
      split: prod.splits sum.splits if_splits)

lemma run_decide_endpoint_Inl:
  assumes "run_decide_endpoint x clk p i approve reason d = (Inl e, d')"
  shows "d' = d \<and> \<not> error_is ConflictC ''approval_expired'' e
     \<or> error_is ConflictC ''approval_expired'' e \<and> run_approval_expired clk p i d d'"
proof -
  obtain v d1 where run: "decide_run_approval x clk p i approve reason d = (v, d1)"
    by (cases "decide_run_approval x clk p i approve reason d")
  show ?thesis
    using assms run raisesD [OF decide_run_approval_error, of x clk p i approve reason d]
    by (cases v) (auto simp: run_decide_endpoint_def andthen_def attempt_def transaction_def ret_def raise_def
        split: if_splits)
qed

section \<open>The desk\<close>

definition decide_run_request :: "decision_request \<Rightarrow> (db, approval_row) op" where
  "decide_run_request q =
     run_decide_endpoint (dq_ext q) (dq_clock q) (dq_principal q) (dq_approval q) (dq_approve q) (dq_reason q)"

definition run_standing :: "uuid \<Rightarrow> db \<Rightarrow> approval_status option" where
  "run_standing i d = row_standing ap_id ap_status i (t_approvals d)"

definition run_approval_keys :: "db \<Rightarrow> bool" where
  "run_approval_keys d \<longleftrightarrow> distinct (map ap_id (t_approvals d))"

lemma run_approvals_of: "business d' = business (d\<lparr>t_approvals := aps\<rparr>) \<Longrightarrow> t_approvals d' = aps"
  using business_tables(20) [of d' "d\<lparr>t_approvals := aps\<rparr>"] by simp

lemma run_decided_table:
  assumes "run_approval_decided x clk p i approve reason d a d'"
  shows "\<exists>approval. approval \<in> set (t_approvals d) \<and> ap_id approval = i \<and> ap_status approval = Approval_PENDING
     \<and> ap_id a = i \<and> ap_status a = verdict approve \<and> t_approvals d' = replace_row ap_id a (t_approvals d)"
proof -
  obtain approval run' where "find (\<lambda>a. ap_id a = i \<and> ap_organization_id a = p_organization_id p) (t_approvals d) = Some approval"
      "ap_status approval = Approval_PENDING" "a = decided_approval approval p approve reason (clk 0)"
      "business d' = business (d\<lparr>t_approvals := replace_row ap_id a (t_approvals d),
                                 t_runs := replace_row run_id run' (t_runs d)\<rparr>)"
    using assms unfolding run_approval_decided_def by blast
  moreover have "t_approvals d' = replace_row ap_id a (t_approvals d)"
    using business_tables(20) [OF calculation(4)] by simp
  ultimately show ?thesis using find_SomeD by (fastforce simp: decided_approval_def)
qed

lemma run_expired_table:
  assumes "run_approval_expired clk p i d d'"
  shows "\<exists>approval. approval \<in> set (t_approvals d) \<and> ap_id approval = i \<and> ap_status approval = Approval_PENDING
     \<and> t_approvals d' = replace_row ap_id (expired_approval approval (clk 0)) (t_approvals d)"
  using assms by (auto simp: run_approval_expired_def dest!: find_SomeD run_approvals_of)

lemma run_desk_step:
  fixes q :: decision_request
  assumes ok: "run_approval_keys d" and run: "decide_run_request q d = (v, d')"
  shows "run_approval_keys d'"
    and "v = Inr r \<Longrightarrow> run_standing (dq_approval q) d = Some Approval_PENDING
           \<and> run_standing (dq_approval q) d' = Some (verdict (dq_approve q))"
    and "v = Inl e \<Longrightarrow> run_standing (dq_approval q) d' = run_standing (dq_approval q) d
           \<or> run_standing (dq_approval q) d = Some Approval_PENDING
             \<and> run_standing (dq_approval q) d' = Some Approval_EXPIRED"
    and "j \<noteq> dq_approval q \<Longrightarrow> run_standing j d' = run_standing j d"
proof -
  let ?i = "dq_approval q"
  have cases: "(\<exists>a approval. v = Inr a \<and> approval \<in> set (t_approvals d) \<and> ap_id approval = ?i
         \<and> ap_status approval = Approval_PENDING \<and> ap_id a = ?i \<and> ap_status a = verdict (dq_approve q)
         \<and> t_approvals d' = replace_row ap_id a (t_approvals d))
      \<or> (\<exists>e. v = Inl e) \<and> (d' = d \<or> (\<exists>approval now. approval \<in> set (t_approvals d) \<and> ap_id approval = ?i
         \<and> ap_status approval = Approval_PENDING
         \<and> t_approvals d' = replace_row ap_id (expired_approval approval now) (t_approvals d)))"
  proof (cases v)
    case (Inl e)
    then have "d' = d \<or> run_approval_expired (dq_clock q) (dq_principal q) ?i d d'"
      using run_decide_endpoint_Inl run [unfolded decide_run_request_def] by blast
    then show ?thesis using run_expired_table Inl by blast
  next
    case (Inr a)
    then have "decide_run_approval (dq_ext q) (dq_clock q) (dq_principal q) ?i (dq_approve q) (dq_reason q) d = (Inr a, d')"
      using run by (simp add: decide_run_request_def run_decide_endpoint_Inr)
    then have "run_approval_decided (dq_ext q) (dq_clock q) (dq_principal q) ?i (dq_approve q) (dq_reason q) d a d'"
      by (rule returnsD [OF decide_run_approval_effect])
    then show ?thesis using run_decided_table Inr by blast
  qed
  have at: "run_standing ?i d = Some Approval_PENDING"
    if "approval \<in> set (t_approvals d)" "ap_id approval = ?i" "ap_status approval = Approval_PENDING" for approval
    using that ok row_standing_mem [of ap_id "t_approvals d" approval ap_status]
    by (simp add: run_standing_def run_approval_keys_def)
  have replaced: "run_standing j d' = (if j = ap_id a then map_option (\<lambda>_. ap_status a) (run_standing j d) else run_standing j d)"
    if "t_approvals d' = replace_row ap_id a (t_approvals d)" for a j
    using that by (simp add: run_standing_def row_standing_replace)
  show "run_approval_keys d'" using cases ok by (auto simp: run_approval_keys_def)
  show "run_standing ?i d = Some Approval_PENDING \<and> run_standing ?i d' = Some (verdict (dq_approve q))"
    if "v = Inr r" using cases at replaced that by auto
  show "run_standing ?i d' = run_standing ?i d
      \<or> run_standing ?i d = Some Approval_PENDING \<and> run_standing ?i d' = Some Approval_EXPIRED"
    if "v = Inl e" using cases at replaced that by (auto simp: expired_approval_def)
  show "run_standing j d' = run_standing j d" if "j \<noteq> ?i"
    using cases replaced that by (auto simp: expired_approval_def)
qed

interpretation run_desk: approval_desk decide_run_request dq_approval dq_approve run_standing run_approval_keys
  using run_desk_step by unfold_locales blast+

section \<open>Timely decisions go through\<close>

lemma decided_run_total:
  assumes "''approval_rejected'' \<in> set (ext_error_codes x)"
  shows "\<exists>run'. decided_run x run approve now = Inr run' \<and> run_id run' = run_id run
     \<and> run_organization_id run' = run_organization_id run
     \<and> run_status_of run' =
         (if is_terminal (run_status_of run) then run_status_of run
          else if approve then (if run_status_of run = Run_WAITING_APPROVAL then Run_RUNNING else run_status_of run)
          else Run_FAILED)"
  using assms
  by (cases "run_status_of run") (simp_all add: decided_run_def is_terminal_def validate_run_transition_def validate_error_code_def)

lemma record_run_decision_returns:
  assumes "''approval_rejected'' \<in> set (ext_error_codes x)"
    and "accepts x [''approval.approved'', ''approval.rejected'']"
    and "run \<in> set (t_runs d)" and "run_organization_id run = p_organization_id p"
    and "\<And>h. find (is_head ''run'' (run_id run)) (t_heads d) = Some h \<Longrightarrow> ah_organization_id h = p_organization_id p"
  shows "\<exists>d'. record_run_decision x clk p approve a run d = (Inr a, d')"
proof -
  obtain run' where run': "decided_run x run approve (clk 0) = Inr run'" "run_id run' = run_id run"
      "run_organization_id run' = run_organization_id run"
    using decided_run_total [OF assms(1)] by blast
  let ?d = "d\<lparr>t_approvals := replace_row ap_id a (t_approvals d), t_runs := replace_row run_id run' (t_runs d)\<rparr>"
  let ?name = "if approve then ''approval.approved'' else ''approval.rejected''"
  let ?payload = "[(''approval_id'', JStr (uuid_str (ap_id a))),
      (''reason'', JStr (case ap_decision_reason a of Some r \<Rightarrow> r | None \<Rightarrow> []))]"
  have "run' \<in> set (replace_row run_id run' (t_runs d))"
    using assms(3) run'(2) by (metis replace_row_same_mem)
  then have here: "\<exists>r \<in> set (t_runs ?d). run_id r = run_id run \<and> run_organization_id r = p_organization_id p"
    using run'(2,3) assms(4) by auto
  let ?dr = "(EventDraft ?name ''run'' (run_id run') (p_organization_id p) (run_id run') Actor_USER
      (Some (p_id p)) ?payload)\<lparr>ed_run_id := Some (run_id run')\<rparr>"
  have "\<exists>ev d1. append_event x (clk 1) ?dr ?d = (Inr ev, d1)"
  proof (rule append_event_accepted [OF assms(2)])
    show "\<exists>r \<in> set (t_runs ?d). run_id r = rid \<and> run_organization_id r = ed_organization_id ?dr"
      if "ed_run_id ?dr = Some rid" for rid using that here run'(2) by (simp add: EventDraft_def)
  qed (use assms(5) run'(2) in \<open>simp_all add: EventDraft_def\<close>)
  then obtain ev d1 where "append_event x (clk 1) ?dr ?d = (Inr ev, d1)" by blast
  then have "run_approval_event x (clk 1) p run' ?name Actor_USER (Some (p_id p)) ?payload ?d = (Inr (), d1)"
    by (simp add: run_approval_event_def andthen_def ret_def)
  moreover obtain d2 where "run_approval_audit (clk 2) p run' a Actor_USER (Some (p_id p)) ''approval.decide'' d1 = (Inr (), d2)"
    by (auto simp: run_approval_audit_def andthen_Inr write_audit_iff)
  ultimately have "record_run_decision x clk p approve a run d = (Inr a, d2)"
    by (simp add: record_run_decision_def andthen_def put_run_approval_def put_run_def modify_def from_sum_def ret_def run'(1))
  then show ?thesis by blast
qed

lemma decide_run_approval_returns:
  assumes "can p ''approval.decide''"
    and "find (\<lambda>a. ap_id a = i \<and> ap_organization_id a = p_organization_id p) (t_approvals d) = Some approval"
    and "ap_status approval = Approval_PENDING" and "clk 0 < ap_expires_at approval"
    and "approver_constraint p (ap_approver_constraints approval) = Inr ()"
    and "disallows_self (ap_approver_constraints approval) \<Longrightarrow> ap_requested_by approval \<noteq> p_id p"
    and acc: "require_run_access p (ap_run_id approval) True d = (Inr run, d)"
    and rec: "record_run_decision x clk p approve (decided_approval approval p approve reason (clk 0)) run d
      = (Inr (decided_approval approval p approve reason (clk 0)), d')"
  shows "decide_run_approval x clk p i approve reason d = (Inr (decided_approval approval p approve reason (clk 0)), d')"
  using assms(1-6) by (auto simp: decide_run_approval_def andthen_def require_def reads_def from_some_def from_sum_def
      ret_def acc rec Let_def)

section \<open>Cancelled steps\<close>

lemma cancelled_step_inactive [simp]: "\<not> active_step_of org rid (cancelled_step org rid now s)"
  by (simp add: cancelled_step_def active_step_of_def active_step_def)

text \<open>After a cancellation no step of the run is active, and a second one finds nothing to do.\<close>

lemma cancel_active_run_steps_again:
  assumes "cancel_active_run_steps org rid t d = (r, d')"
  shows "cancel_active_run_steps org rid t' d' = (Inr 0, d')"
proof -
  have steps: "t_steps d' = map (cancelled_step org rid t) (t_steps d)"
    using assms by (auto simp: cancel_active_run_steps_def andthen_def reads_def modify_def ret_def)
  then have "filter (active_step_of org rid) (t_steps d') = []" by (simp add: filter_empty_conv)
  moreover have "map (cancelled_step org rid t') (t_steps d') = t_steps d'"
    by (simp add: steps) (simp add: cancelled_step_def [of _ _ t'])
  ultimately show ?thesis by (simp add: cancel_active_run_steps_def andthen_def reads_def modify_def ret_def)
qed

section \<open>A sample run waiting for an approval\<close>

definition waiting_run :: run_row where
  "waiting_run = \<lparr>run_id = 30, run_organization_id = 1, run_turn_id = 31, run_status_of = Run_WAITING_APPROVAL,
     run_lease_owner = None, run_lease_expires_at = None, run_completed_at = None, run_error_code = None,
     run_error_message = None, run_aggregate_version = 0,
      run_agent_version_id = None, run_model_profile_id = None, run_prompt_pins = [], run_context_budget = [],
      run_conversation_compact = [], run_workspace_context = [], run_max_steps = 30, run_timeout_seconds = 300,
      run_max_input_tokens = 120000, run_max_output_tokens = 16000, run_max_cost_amount = 10, run_deadline_at = None,
      run_cancellation_requested_at = None, run_replay_of_run_id = None, run_created_at = 0\<rparr>"

definition waiting_approval :: approval_row where
  "waiting_approval = \<lparr>ap_id = 40, ap_organization_id = 1, ap_run_id = 30, ap_step_id = None,
     ap_policy_decision_id = 41, ap_status = Approval_PENDING, ap_reason = ''r'', ap_requested_by = 7,
     ap_approver_constraints = [(''permission'', JStr ''approval.decide''), (''disallow_self'', JBool True)],
     ap_decided_by = None, ap_decision_reason = None, ap_expires_at = 100, ap_decided_at = None, ap_created_at = 0\<rparr>"

definition waiting_run_db :: db where
  "waiting_run_db = empty_db\<lparr>t_workspaces := [sample_workspace 5 1 8],
     t_threads := [\<lparr>thread_id = 32, thread_organization_id = 1, thread_workspace_id = 5,
        thread_status_of = Thread_ACTIVE, thread_created_by = 7, thread_title = ''t'',
        thread_parent_thread_id = None, thread_forked_from_turn_id = None, thread_archived_at = None\<rparr>],
     t_turns := [\<lparr>turn_id = 31, turn_organization_id = 1, turn_thread_id = 32, turn_ordinal = 1,
        turn_created_by = 7, turn_input_text = ''q'', turn_sanitized_input = ''q'', turn_context_refs = [],
        turn_attachment_refs = [], turn_created_at = 0\<rparr>],
     t_runs := [waiting_run], t_approvals := [waiting_approval]\<rparr>"

definition decide_at :: "time \<Rightarrow> bool \<Rightarrow> decision_request" where
  "decide_at t approve = \<lparr>dq_ext = open_ext [''approval.approved'', ''approval.rejected''] [''approval_rejected''],
     dq_clock = (\<lambda>_. t), dq_principal = sample_principal 8 [''approval.decide''], dq_approval = 40,
     dq_approve = approve, dq_reason = ''ok''\<rparr>"

lemma waiting_access:
  "require_run_access (sample_principal 8 [''approval.decide'']) 30 True waiting_run_db = (Inr waiting_run, waiting_run_db)"
  by (simp add: require_run_access_def op_simps waiting_run_db_def waiting_run_def run_workspaces_def run_threads_def
      empty_db_def sample_principal_def sample_workspace_def workspace_access_clause_def can_def)

lemma waiting_decided:
  assumes "t < 100"
  shows "\<exists>a d'. decide_run_request (decide_at t approve) waiting_run_db = (Inr a, d') \<and> ap_status a = verdict approve"
proof -
  let ?x = "open_ext [''approval.approved'', ''approval.rejected''] [''approval_rejected'']"
  let ?p = "sample_principal 8 [''approval.decide'']"
  let ?a = "decided_approval waiting_approval ?p approve ''ok'' ((\<lambda>_. t) 0)"
  obtain d' where rec: "record_run_decision ?x (\<lambda>_. t) ?p approve ?a waiting_run waiting_run_db = (Inr ?a, d')"
    using record_run_decision_returns [of ?x waiting_run waiting_run_db ?p]
    by (fastforce simp: accepts_def open_ext_def waiting_run_db_def empty_db_def waiting_run_def sample_principal_def)
  have find: "find (\<lambda>a. ap_id a = 40 \<and> ap_organization_id a = p_organization_id ?p) (t_approvals waiting_run_db)
      = Some waiting_approval"
    by (simp add: waiting_run_db_def waiting_approval_def sample_principal_def)
  have acc: "require_run_access ?p (ap_run_id waiting_approval) True waiting_run_db = (Inr waiting_run, waiting_run_db)"
    using waiting_access by (simp add: waiting_approval_def)
  have "decide_run_approval ?x (\<lambda>_. t) ?p 40 approve ''ok'' waiting_run_db = (Inr ?a, d')"
    by (rule decide_run_approval_returns [OF _ find _ _ _ _ acc rec])
      (use assms in \<open>simp_all add: waiting_approval_def approver_constraint_def disallows_self_def
         sample_principal_def can_def json_can_def truthy_def\<close>)
  then show ?thesis
    by (auto simp: decide_run_request_def decide_at_def run_decide_endpoint_Inr decided_approval_def)
qed

section \<open>Properties\<close>

text \<open>Who may decide, and the run after the decision, as the specification of the endpoint.\<close>

definition run_decidable :: "clock \<Rightarrow> principal \<Rightarrow> uuid \<Rightarrow> db \<Rightarrow> approval_row \<Rightarrow> run_row \<Rightarrow> bool" where
  "run_decidable clk p i d approval run \<longleftrightarrow>
     find (\<lambda>a. ap_id a = i \<and> ap_organization_id a = p_organization_id p) (t_approvals d) = Some approval
     \<and> can p ''approval.decide'' \<and> approver_constraint p (ap_approver_constraints approval) = Inr ()
     \<and> \<not> (disallows_self (ap_approver_constraints approval) \<and> ap_requested_by approval = p_id p)
     \<and> ap_status approval = Approval_PENDING \<and> clk 0 < ap_expires_at approval
     \<and> require_run_access p (ap_run_id approval) True d = (Inr run, d)"

fun run_after :: "bool \<Rightarrow> time \<Rightarrow> run_row \<Rightarrow> run_row" where
  "run_after approve now run =
     (if run_status_of run \<in> {Run_COMPLETED, Run_FAILED, Run_CANCELLED} then run
      else if \<not> approve
      then run\<lparr>run_status_of := Run_FAILED, run_error_code := Some ''approval_rejected'',
               run_error_message := Some ''The requested capability was rejected'', run_completed_at := Some now\<rparr>
      else if run_status_of run = Run_WAITING_APPROVAL
      then run\<lparr>run_status_of := Run_RUNNING, run_lease_owner := None, run_lease_expires_at := None\<rparr>
      else run)"

lemma decided_run_after: "decided_run x run approve now = Inr run' \<Longrightarrow> run' = run_after approve now run"
  by (cases "run_status_of run") (auto simp: decided_run_def is_terminal_def split: if_splits sum.splits)



text \<open>
  C23: A refused decision leaves no trace, with one exception that is committed on purpose: when
  the error is \<open>approval_expired\<close>, the approval was pending and past its time, it is now
  EXPIRED with the time of the attempt, and nothing else but the logs changed.
\<close>

theorem run_refusal:
  assumes "run_decide_endpoint x clk p i approve reason d = (Inl e, d')"
  shows "if error_is ConflictC ''approval_expired'' e
     then \<exists>approval \<in> set (t_approvals d). ap_id approval = i \<and> ap_status approval = Approval_PENDING
        \<and> ap_expires_at approval \<le> clk 0
        \<and> business d' = business (d\<lparr>t_approvals := replace_row ap_id
             (approval\<lparr>ap_status := Approval_EXPIRED, ap_decided_at := Some (clk 0)\<rparr>) (t_approvals d)\<rparr>)
     else d' = d"
  using run_decide_endpoint_Inl [OF assms]
  by (auto simp: run_approval_expired_def expired_approval_def dest!: find_SomeD)

theorem run_refusal_witness:
  "\<exists>e. decide_run_request (decide_at 50 True) (waiting_run_db\<lparr>t_runs := []\<rparr>) = (Inl e, waiting_run_db\<lparr>t_runs := []\<rparr>)"
proof -
  let ?d = "waiting_run_db\<lparr>t_runs := []\<rparr>"
  have "fst (decide_run_request (decide_at 50 True) ?d) = Inl (NotFoundError ''Run'' (uuid_str 30))"
    by (simp add: decide_run_request_def decide_at_def run_decide_endpoint_def decide_run_approval_def op_simps
        attempt_def transaction_def waiting_run_db_def waiting_approval_def sample_principal_def can_def
        require_run_access_def error_is_def NotFoundError_def)
  then obtain d' where e: "decide_run_request (decide_at 50 True) ?d = (Inl (NotFoundError ''Run'' (uuid_str 30)), d')"
    by (metis prod.collapse)
  have "d' = ?d"
    using run_refusal [OF e [unfolded decide_run_request_def]] by (simp add: error_is_def NotFoundError_def)
  then show ?thesis using e by blast
qed

text \<open>
  C24: Of all the decisions anybody ever requests on an approval of a run, in any order, at most
  one is answered with success; it found the approval pending, and its verdict stands at the
  end of the history.
\<close>

theorem run_approvals_decided_once:
  assumes "distinct (map ap_id (t_approvals d))" and "answered decide_run_request qs d = (as, d')"
  shows "filter (\<lambda>q. dq_approval q = i) as = []
     \<or> (\<exists>q. filter (\<lambda>q. dq_approval q = i) as = [q] \<and> run_standing i d = Some Approval_PENDING
            \<and> run_standing i d' = Some (verdict (dq_approve q)))"
  by (rule run_desk.decided_once) (use assms in \<open>simp_all add: run_approval_keys_def\<close>)

theorem run_approvals_decided_once_witness:
  "\<exists>as d'. answered decide_run_request [decide_at 50 True, decide_at 60 False] waiting_run_db = (as, d')
     \<and> filter (\<lambda>q. dq_approval q = 40) as = [decide_at 50 True] \<and> run_standing 40 d' = Some Approval_APPROVED"
proof -
  obtain as d' where run: "answered decide_run_request [decide_at 50 True, decide_at 60 False] waiting_run_db = (as, d')"
    by fastforce
  obtain a d1 where "decide_run_request (decide_at 50 True) waiting_run_db = (Inr a, d1)"
    using waiting_decided [of 50 True] by auto
  then have first: "hd as = decide_at 50 True \<and> as \<noteq> []" using run by (auto split: prod.splits)
  have "distinct (map ap_id (t_approvals waiting_run_db))" by (simp add: waiting_run_db_def)
  from run_approvals_decided_once [OF this run, of 40] first run show ?thesis
    by (cases as) (auto simp: decide_at_def verdict_def)
qed

end
