(* ===== verification/VersionedRecord.thy ===== *)
theory VersionedRecord
  imports Schema
begin

text \<open>
  Optimistic locking, as an interface: requests, some of which name a record and the version
  they were made against. The laws are about one request; the lemma about whole histories says
  that the successful requests for a record form a chain, whatever other requests come between,
  so no update is ever lost. \<open>CollaborationDesk\<close> interprets it on task updates and on decision
  revisions.
\<close>

locale versioned_record =
  fixes apply_request :: "'q \<Rightarrow> (db, 'r) op"
    and target :: "'q \<Rightarrow> uuid option"
    and expected :: "'q \<Rightarrow> int"
    and version_of :: "uuid \<Rightarrow> db \<Rightarrow> int option"
    and ok :: "db \<Rightarrow> bool"
  assumes keeps_ok: "ok d \<Longrightarrow> apply_request q d = (v, d') \<Longrightarrow> ok d'"
    and applied: "ok d \<Longrightarrow> apply_request q d = (Inr r, d') \<Longrightarrow> target q = Some i \<Longrightarrow>
      version_of i d = Some (expected q) \<and> version_of i d' = Some (expected q + 1)"
    and refused: "ok d \<Longrightarrow> apply_request q d = (Inl e, d') \<Longrightarrow> version_of i d' = version_of i d"
    and others: "ok d \<Longrightarrow> apply_request q d = (Inr r, d') \<Longrightarrow> target q \<noteq> Some i \<Longrightarrow> version_of i d = Some n
      \<Longrightarrow> version_of i d' = Some n"
begin

lemma update_chain:
  "ok d \<Longrightarrow> version_of i d = Some n \<Longrightarrow> answered apply_request qs d = (as, d') \<Longrightarrow>
     \<exists>m. n \<le> m \<and> map expected (filter (\<lambda>q. target q = Some i) as) = [n..m - 1] \<and> version_of i d' = Some m"
proof (induction qs arbitrary: d n as d')
  case Nil
  then show ?case by (intro exI [of _ n]) simp
next
  case (Cons q qs)
  obtain v d1 where q: "apply_request q d = (v, d1)" by (cases "apply_request q d")
  obtain as1 d2 where rest: "answered apply_request qs d1 = (as1, d2)" by (cases "answered apply_request qs d1")
  have ok: "ok d1" using keeps_ok [OF Cons.prems(1) q] .
  show ?case
  proof (cases "target q = Some i \<and> (\<exists>r. v = Inr r)")
    case True
    then obtain r where r: "v = Inr r" "target q = Some i" by blast
    then have step: "expected q = n" "version_of i d1 = Some (n + 1)"
      using applied [OF Cons.prems(1) q [unfolded r(1)]] Cons.prems(2) by auto
    then obtain m where m: "n + 1 \<le> m" "map expected (filter (\<lambda>q. target q = Some i) as1) = [n + 1..m - 1]"
        "version_of i d2 = Some m"
      using Cons.IH [OF ok _ rest] by blast
    have "as = q # as1" "d' = d2" using Cons.prems(3) q rest r(1) by auto
    then show ?thesis using m step r(2) by (intro exI [of _ m]) (simp add: upto_rec1)
  next
    case False
    then have same: "version_of i d1 = Some n"
      using refused [OF Cons.prems(1)] others [OF Cons.prems(1), of q] Cons.prems(2) q
      by (cases v) auto
    obtain m where m: "n \<le> m" "map expected (filter (\<lambda>q. target q = Some i) as1) = [n..m - 1]"
        "version_of i d2 = Some m"
      using Cons.IH [OF ok same rest] by blast
    have "filter (\<lambda>q. target q = Some i) as = filter (\<lambda>q. target q = Some i) as1 \<and> d' = d2"
      using Cons.prems(3) q rest False by (cases v) auto
    then show ?thesis using m by auto
  qed
qed

text \<open>Of two successful requests for the same record, no two were made against the same version.\<close>

lemma no_lost_update:
  assumes "ok d" and "version_of i d = Some n" and "answered apply_request qs d = (as, d')"
  shows "distinct (map expected (filter (\<lambda>q. target q = Some i) as))"
  using update_chain [OF assms] by auto

end

end
