(* ===== verification/Collaboration.thy ===== *)
theory Collaboration
  imports RunState Events VersionedRecord
begin

text \<open>
  Workspace tasks and decisions: \<open>collaboration/service.py\<close>, the request models of
  \<open>collaboration/schemas.py\<close> and the endpoints of \<open>api/collaboration.py\<close>, each of which runs one
  service call in one transaction. Tasks and decisions carry a version that the caller has to
  name; a decision's content lives in immutable numbered versions, and accepting a decision
  supersedes the one it replaces. The database's CHECK on blank titles is part of the writes
  (\<open>IntegrityError\<close>); the limits of the column types are not.
\<close>

section \<open>Requests\<close>

text \<open>A field of a partial update: absent from the request, null, or a value.\<close>

type_synonym 'a supplied = "'a option option"

record create_task_request =
  ctr_title :: string
  ctr_description :: string
  ctr_priority :: workspace_task_priority
  ctr_assignee_id :: "uuid option"
  ctr_source_run_id :: "uuid option"
  ctr_due_at :: "time option"

record update_task_request =
  utr_expected_version :: int
  utr_title :: "string supplied"
  utr_description :: "string supplied"
  utr_status :: "workspace_task_status supplied"
  utr_priority :: "workspace_task_priority supplied"
  utr_assignee_id :: "uuid supplied"
  utr_due_at :: "time supplied"

record decision_content =
  dc_title :: string
  dc_summary :: string
  dc_rationale :: string
  dc_alternatives :: "string list"

definition length_in :: "nat \<Rightarrow> nat \<Rightarrow> string \<Rightarrow> bool" where
  "length_in lo hi s \<longleftrightarrow> lo \<le> length s \<and> length s \<le> hi"

definition supplied_ok :: "('a \<Rightarrow> bool) \<Rightarrow> 'a supplied \<Rightarrow> bool" where
  "supplied_ok ok v = (case v of Some (Some a) \<Rightarrow> ok a | _ \<Rightarrow> True)"

definition valid_create_task :: "create_task_request \<Rightarrow> bool" where
  "valid_create_task r \<longleftrightarrow> length_in 1 300 (ctr_title r) \<and> length (ctr_description r) \<le> 20000"

definition valid_update_task :: "update_task_request \<Rightarrow> bool" where
  "valid_update_task r \<longleftrightarrow>
     1 \<le> utr_expected_version r \<and> supplied_ok (length_in 1 300) (utr_title r)
     \<and> supplied_ok (\<lambda>s. length s \<le> 20000) (utr_description r)
     \<and> (utr_title r \<noteq> None \<or> utr_description r \<noteq> None \<or> utr_status r \<noteq> None \<or> utr_priority r \<noteq> None
        \<or> utr_assignee_id r \<noteq> None \<or> utr_due_at r \<noteq> None)"

definition valid_decision_content :: "decision_content \<Rightarrow> bool" where
  "valid_decision_content c \<longleftrightarrow>
     length_in 1 300 (dc_title c) \<and> length_in 1 20000 (dc_summary c) \<and> length_in 1 40000 (dc_rationale c)
     \<and> length (dc_alternatives c) \<le> 50
     \<and> list_all (\<lambda>s. strip s \<noteq> [] \<and> length s \<le> 4000) (dc_alternatives c)"

section \<open>Shared steps\<close>

definition check_version :: "string \<Rightarrow> uuid \<Rightarrow> int \<Rightarrow> int \<Rightarrow> (db, unit) op" where
  "check_version aggregate aggregate_id current expected =
     require (current = expected)
       (ConflictError (aggregate @ ''_version_conflict'')
          ''The record changed after it was loaded; refresh and retry''
          [(''id'', JStr (uuid_str aggregate_id)), (''expected_version'', JInt expected),
           (''current_version'', JInt current)])"

text \<open>One event and one audit record under the same correlation id.\<close>

definition record_change ::
  "ext \<Rightarrow> clock \<Rightarrow> principal \<Rightarrow> workspace_row \<Rightarrow> string \<Rightarrow> string \<Rightarrow> string \<Rightarrow> uuid \<Rightarrow> uuid option \<Rightarrow> jobj
     \<Rightarrow> uuid option \<Rightarrow> (db, unit) op" where
  "record_change x clk p ws event_name audit_action aggregate_type aggregate_id run payload correlation =
     andthen (case correlation of Some c \<Rightarrow> ret c | None \<Rightarrow> new_id) (\<lambda>corr.
     andthen (append_event x (clk 0)
       ((EventDraft event_name aggregate_type aggregate_id (p_organization_id p) corr Actor_USER
           (Some (p_id p)) payload)
        \<lparr>ed_run_id := run, ed_classification := ws_classification ws\<rparr>)) (\<lambda>_.
     andthen (write_audit (clk 1) (AuditDraft (p_organization_id p) corr Actor_USER (Some (p_id p)) audit_action
       aggregate_type (uuid_str aggregate_id) ''SUCCESS'' payload)) (\<lambda>_.
     ret ())))"

definition require_source_run :: "principal \<Rightarrow> uuid \<Rightarrow> uuid \<Rightarrow> (db, unit) op" where
  "require_source_run p wid rid =
     andthen (require_run_access p rid False) (\<lambda>_.
     andthen (reads (\<lambda>d. [thread_workspace_id t. r \<leftarrow> t_runs d,
                run_id r = rid \<and> run_organization_id r = p_organization_id p, t \<leftarrow> run_threads d r])) (\<lambda>found.
     require (case found of [] \<Rightarrow> False | w # _ \<Rightarrow> w = wid)
       (ValidationError ''workspace_source_run_mismatch''
          ''The source run must belong to the same workspace'' [])))"

definition is_assignable :: "principal \<Rightarrow> workspace_row \<Rightarrow> uuid \<Rightarrow> db \<Rightarrow> user_row \<Rightarrow> bool" where
  "is_assignable p ws uid d u \<longleftrightarrow>
     user_id u = uid \<and> user_organization_id u = p_organization_id p \<and> user_active u
     \<and> (user_id u = ws_owner_id ws
        \<or> (\<exists>m \<in> set (t_members d). wm_organization_id m = p_organization_id p
             \<and> wm_workspace_id m = ws_id ws \<and> wm_user_id m = user_id u))"

definition require_assignee :: "principal \<Rightarrow> workspace_row \<Rightarrow> uuid \<Rightarrow> (db, unit) op" where
  "require_assignee p ws uid =
     andthen (reads (\<lambda>d. find (is_assignable p ws uid d) (t_users d))) (\<lambda>allowed.
     require (allowed \<noteq> None) (ValidationError ''workspace_task_assignee_invalid''
        ''The assignee must be an active workspace member'' []))"

definition when_some :: "'a option \<Rightarrow> ('a \<Rightarrow> ('s, unit) op) \<Rightarrow> ('s, unit) op" where
  "when_some v f = (case v of None \<Rightarrow> ret () | Some a \<Rightarrow> f a)"

text \<open>\<open>CHECK (length(trim(title)) > 0)\<close>: SQL trims blanks only.\<close>

definition check_title :: "string \<Rightarrow> (db, unit) op" where
  "check_title title = require (strip_chars '' '' title \<noteq> []) (PyError ''IntegrityError'' ''CHECK constraint failed'')"

section \<open>Tasks\<close>

definition find_task :: "principal \<Rightarrow> uuid \<Rightarrow> bool \<Rightarrow> (db, workspace_task_row \<times> workspace_row) op" where
  "find_task p tid write =
     andthen (reads (\<lambda>d. find (\<lambda>t. wt_id t = tid \<and> wt_organization_id t = p_organization_id p) (t_tasks d))) (\<lambda>found.
     andthen (from_some (NotFoundError ''WorkspaceTask'' (uuid_str tid)) found) (\<lambda>task.
     andthen (require_workspace_access p (wt_workspace_id task) write) (\<lambda>ws.
     ret (task, ws))))"

definition new_task :: "uuid \<Rightarrow> principal \<Rightarrow> workspace_row \<Rightarrow> create_task_request \<Rightarrow> time \<Rightarrow> workspace_task_row" where
  "new_task i p ws r now =
     \<lparr>wt_id = i, wt_organization_id = p_organization_id p, wt_workspace_id = ws_id ws,
      wt_title = redact_text (strip (ctr_title r)), wt_description = redact_text (strip (ctr_description r)),
      wt_status = Task_OPEN, wt_priority = ctr_priority r, wt_assignee_id = ctr_assignee_id r,
      wt_created_by = p_id p, wt_source_run_id = ctr_source_run_id r, wt_due_at = ctr_due_at r,
      wt_completed_at = None, wt_version = 1, wt_updated_at = now\<rparr>"

definition create_task ::
  "ext \<Rightarrow> clock \<Rightarrow> principal \<Rightarrow> uuid \<Rightarrow> create_task_request \<Rightarrow> (db, workspace_task_row) op" where
  "create_task x clk p wid r =
     andthen (require_workspace_access p wid True) (\<lambda>ws.
     andthen (when_some (ctr_assignee_id r) (require_assignee p ws)) (\<lambda>_.
     andthen (when_some (ctr_source_run_id r) (require_source_run p (ws_id ws))) (\<lambda>_.
     andthen new_id (\<lambda>i.
     (let task = new_task i p ws r (clk 0)
      in andthen (check_title (wt_title task)) (\<lambda>_.
         andthen (modify (\<lambda>d. d\<lparr>t_tasks := t_tasks d @ [task]\<rparr>)) (\<lambda>_.
         andthen (record_change x (later 1 clk) p ws ''workspace_task.created'' ''workspace_task.create''
           ''workspace_task'' (wt_id task) (wt_source_run_id task)
           [(''workspace_id'', JStr (uuid_str (ws_id ws))),
            (''status'', JStr (workspace_task_status_value (wt_status task))),
            (''priority'', JStr (workspace_task_priority_value (wt_priority task))),
            (''version'', JInt (wt_version task))] None) (\<lambda>_.
         ret task))))))))"

definition list_tasks ::
  "principal \<Rightarrow> uuid \<Rightarrow> workspace_task_status option \<Rightarrow> uuid option \<Rightarrow> nat \<Rightarrow> (db, workspace_task_row list) op" where
  "list_tasks p wid status assignee limit =
     andthen (require_workspace_access p wid False) (\<lambda>_.
     reads (\<lambda>d. take limit (sort_key (\<lambda>t. - wt_updated_at t) (sort_key wt_id
       (filter (\<lambda>t. wt_organization_id t = p_organization_id p \<and> wt_workspace_id t = wid
          \<and> (case status of None \<Rightarrow> True | Some st \<Rightarrow> wt_status t = st)
          \<and> (case assignee of None \<Rightarrow> True | Some a \<Rightarrow> wt_assignee_id t = Some a)) (t_tasks d))))))"

text \<open>
  The fields of an update, one after the other; the second component lists the changed ones.
\<close>

type_synonym edited = "workspace_task_row \<times> string list"

definition edit ::
  "string \<Rightarrow> (workspace_task_row \<Rightarrow> 'v) \<Rightarrow> ('v \<Rightarrow> workspace_task_row \<Rightarrow> workspace_task_row) \<Rightarrow> 'v \<Rightarrow> edited \<Rightarrow> edited"
where
  "edit name get put v e = (if v \<noteq> get (fst e) then (put v (fst e), snd e @ [name]) else e)"

definition edit_required ::
  "err \<Rightarrow> 'v supplied \<Rightarrow> ('v \<Rightarrow> edited \<Rightarrow> edited) \<Rightarrow> edited \<Rightarrow> (db, edited) op" where
  "edit_required e v f ed =
     (case v of None \<Rightarrow> ret ed | Some None \<Rightarrow> raise e | Some (Some a) \<Rightarrow> ret (f a ed))"

definition edit_title :: "update_task_request \<Rightarrow> edited \<Rightarrow> (db, edited) op" where
  "edit_title r = edit_required
     (ValidationError ''workspace_task_title_required'' ''Task title cannot be null'' []) (utr_title r)
     (\<lambda>title. edit ''title'' wt_title (\<lambda>v t. t\<lparr>wt_title := v\<rparr>) (redact_text (strip title)))"

definition edit_description :: "update_task_request \<Rightarrow> edited \<Rightarrow> (db, edited) op" where
  "edit_description r = edit_required
     (ValidationError ''workspace_task_description_required'' ''Task description cannot be null'' [])
     (utr_description r)
     (\<lambda>text. edit ''description'' wt_description (\<lambda>v t. t\<lparr>wt_description := v\<rparr>) (redact_text (strip text)))"

definition edit_priority :: "update_task_request \<Rightarrow> edited \<Rightarrow> (db, edited) op" where
  "edit_priority r = edit_required
     (ValidationError ''workspace_task_priority_required'' ''Task priority cannot be null'' []) (utr_priority r)
     (edit ''priority'' wt_priority (\<lambda>v t. t\<lparr>wt_priority := v\<rparr>))"

definition edit_assignee :: "principal \<Rightarrow> workspace_row \<Rightarrow> update_task_request \<Rightarrow> edited \<Rightarrow> (db, edited) op" where
  "edit_assignee p ws r ed =
     (case utr_assignee_id r of
        None \<Rightarrow> ret ed
      | Some v \<Rightarrow>
          andthen (when_some v (require_assignee p ws)) (\<lambda>_.
          ret (edit ''assignee_id'' wt_assignee_id (\<lambda>v t. t\<lparr>wt_assignee_id := v\<rparr>) v ed)))"

definition edit_due_at :: "update_task_request \<Rightarrow> edited \<Rightarrow> (db, edited) op" where
  "edit_due_at r ed =
     (case utr_due_at r of
        None \<Rightarrow> ret ed
      | Some v \<Rightarrow> ret (edit ''due_at'' wt_due_at (\<lambda>v t. t\<lparr>wt_due_at := v\<rparr>) v ed))"

definition edit_status :: "update_task_request \<Rightarrow> time \<Rightarrow> edited \<Rightarrow> (db, edited \<times> jobj) op" where
  "edit_status r now ed =
     (let task = fst ed; current = JStr (workspace_task_status_value (wt_status task))
      in case utr_status r of
        None \<Rightarrow> ret (ed, [(''status'', current)])
      | Some None \<Rightarrow> raise (ValidationError ''workspace_task_status_required'' ''Task status cannot be null'' [])
      | Some (Some st) \<Rightarrow>
          if st = wt_status task then ret (ed, [(''status'', current)])
          else
            andthen (from_sum (validate_task_transition (wt_status task) st)) (\<lambda>_.
            ret ((task\<lparr>wt_status := st, wt_completed_at := (if st = Task_COMPLETED then Some now else None)\<rparr>,
                  snd ed @ [''status'', ''completed_at'']),
                 [(''previous_status'', current), (''status'', JStr (workspace_task_status_value st))])))"

definition edit_fields ::
  "principal \<Rightarrow> workspace_row \<Rightarrow> update_task_request \<Rightarrow> time \<Rightarrow> workspace_task_row \<Rightarrow> (db, edited \<times> jobj) op" where
  "edit_fields p ws r now task =
     andthen (edit_title r (task, [])) (\<lambda>e1.
     andthen (edit_description r e1) (\<lambda>e2.
     andthen (edit_priority r e2) (\<lambda>e3.
     andthen (edit_assignee p ws r e3) (\<lambda>e4.
     andthen (edit_due_at r e4) (\<lambda>e5.
     edit_status r now e5)))))"

definition put_task :: "workspace_task_row \<Rightarrow> (db, unit) op" where
  "put_task t = modify (\<lambda>d. d\<lparr>t_tasks := replace_row wt_id t (t_tasks d)\<rparr>)"

definition update_task ::
  "ext \<Rightarrow> clock \<Rightarrow> principal \<Rightarrow> uuid \<Rightarrow> update_task_request \<Rightarrow> (db, workspace_task_row) op" where
  "update_task x clk p tid r =
     andthen (find_task p tid True) (\<lambda>(task, ws).
     andthen (check_version ''workspace_task'' (wt_id task) (wt_version task) (utr_expected_version r)) (\<lambda>_.
     andthen (edit_fields p ws r (clk 0) task) (\<lambda>(e, status_change).
     andthen (require (snd e \<noteq> []) (ConflictError ''workspace_task_no_changes''
        ''The task update does not change the record'' [])) (\<lambda>_.
     (let task' = (fst e)\<lparr>wt_version := wt_version (fst e) + 1, wt_updated_at := clk 1\<rparr>
      in andthen (check_title (wt_title task')) (\<lambda>_.
         andthen (put_task task') (\<lambda>_.
         andthen (record_change x (later 2 clk) p ws ''workspace_task.updated'' ''workspace_task.update''
           ''workspace_task'' (wt_id task') (wt_source_run_id task')
           ([(''workspace_id'', JStr (uuid_str (ws_id ws))),
             (''changed_fields'', JList (map JStr (sort (remdups (snd e))))),
             (''version'', JInt (wt_version task'))] @ status_change) None) (\<lambda>_.
         ret task'))))))))"

definition list_task_events :: "principal \<Rightarrow> uuid \<Rightarrow> int \<Rightarrow> nat \<Rightarrow> (db, event_row list) op" where
  "list_task_events p tid after limit =
     andthen (find_task p tid False) (\<lambda>_.
     reads (list_aggregate (p_organization_id p) ''workspace_task'' tid after limit))"

section \<open>Decisions\<close>

definition find_decision :: "principal \<Rightarrow> uuid \<Rightarrow> bool \<Rightarrow> (db, workspace_decision_row \<times> workspace_row) op" where
  "find_decision p did write =
     andthen (reads (\<lambda>d. find (\<lambda>c. wd_id c = did \<and> wd_organization_id c = p_organization_id p) (t_decisions d))) (\<lambda>found.
     andthen (from_some (NotFoundError ''WorkspaceDecision'' (uuid_str did)) found) (\<lambda>decision.
     andthen (require_workspace_access p (wd_workspace_id decision) write) (\<lambda>ws.
     ret (decision, ws))))"

definition new_decision_version ::
  "ext \<Rightarrow> uuid \<Rightarrow> principal \<Rightarrow> uuid \<Rightarrow> int \<Rightarrow> decision_content \<Rightarrow> time \<Rightarrow> workspace_decision_version_row" where
  "new_decision_version x i p did version c now =
     (let alternatives = fold (\<lambda>raw acc. let v = redact_text (strip raw) in if v \<in> set acc then acc else acc @ [v])
            (dc_alternatives c) [];
          title = redact_text (strip (dc_title c));
          summary = redact_text (strip (dc_summary c));
          rationale = redact_text (strip (dc_rationale c))
      in \<lparr>dv_id = i, dv_organization_id = p_organization_id p, dv_decision_id = did, dv_version = version,
          dv_title = title, dv_summary = summary, dv_rationale = rationale, dv_alternatives = alternatives,
          dv_created_by = p_id p,
          dv_checksum_sha256 = sha256_hex x (JObj [(''title'', JStr title), (''summary'', JStr summary),
             (''rationale'', JStr rationale), (''alternatives'', JList (map JStr alternatives))]),
          dv_created_at = now\<rparr>)"

definition current_version :: "workspace_decision_row \<Rightarrow> db \<Rightarrow> workspace_decision_version_row option" where
  "current_version c d =
     find (\<lambda>v. dv_decision_id v = wd_id c \<and> dv_version v = wd_current_version c) (t_decision_versions d)"

definition version_missing :: err where
  "version_missing = ConflictError ''workspace_decision_version_missing''
     ''The current decision version is unavailable'' []"

definition add_decision_version :: "workspace_decision_version_row \<Rightarrow> (db, unit) op" where
  "add_decision_version v =
     andthen (check_title (dv_title v)) (\<lambda>_.
     modify (\<lambda>d. d\<lparr>t_decision_versions := t_decision_versions d @ [v]\<rparr>))"

definition put_decision :: "workspace_decision_row \<Rightarrow> (db, unit) op" where
  "put_decision c = modify (\<lambda>d. d\<lparr>t_decisions := replace_row wd_id c (t_decisions d)\<rparr>)"

definition check_supersedes :: "principal \<Rightarrow> workspace_row \<Rightarrow> uuid \<Rightarrow> (db, unit) op" where
  "check_supersedes p ws did =
     andthen (find_decision p did True) (\<lambda>(superseded, _).
     andthen (require (wd_workspace_id superseded = ws_id ws)
       (ValidationError ''workspace_decision_supersedes_workspace_mismatch''
          ''A decision can only supersede a decision in the same workspace'' [])) (\<lambda>_.
     require (wd_status superseded = Decision_ACCEPTED)
       (ConflictError ''workspace_decision_supersedes_not_accepted''
          ''Only an accepted decision can be superseded''
          [(''current_status'', JStr (workspace_decision_status_value (wd_status superseded)))])))"

definition new_decision ::
  "uuid \<Rightarrow> principal \<Rightarrow> workspace_row \<Rightarrow> uuid option \<Rightarrow> uuid option \<Rightarrow> time \<Rightarrow> workspace_decision_row" where
  "new_decision i p ws source_run supersedes now =
     \<lparr>wd_id = i, wd_organization_id = p_organization_id p, wd_workspace_id = ws_id ws,
      wd_status = Decision_PROPOSED, wd_current_version = 1, wd_created_by = p_id p, wd_decided_by = None,
      wd_source_run_id = source_run, wd_supersedes_decision_id = supersedes, wd_decided_at = None,
      wd_updated_at = now\<rparr>"

definition create_decision ::
  "ext \<Rightarrow> clock \<Rightarrow> principal \<Rightarrow> uuid \<Rightarrow> decision_content \<Rightarrow> uuid option \<Rightarrow> uuid option
     \<Rightarrow> (db, workspace_decision_row \<times> workspace_decision_version_row) op" where
  "create_decision x clk p wid content source_run supersedes =
     andthen (require_workspace_access p wid True) (\<lambda>ws.
     andthen (when_some source_run (require_source_run p (ws_id ws))) (\<lambda>_.
     andthen (when_some supersedes (check_supersedes p ws)) (\<lambda>_.
     andthen new_id (\<lambda>i.
     (let decision = new_decision i p ws source_run supersedes (clk 0)
      in andthen (modify (\<lambda>d. d\<lparr>t_decisions := t_decisions d @ [decision]\<rparr>)) (\<lambda>_.
         andthen new_id (\<lambda>j.
         (let version = new_decision_version x j p i 1 content (clk 1)
          in andthen (add_decision_version version) (\<lambda>_.
             andthen (record_change x (later 2 clk) p ws ''workspace_decision.proposed'' ''workspace_decision.create''
               ''workspace_decision'' i source_run
               [(''workspace_id'', JStr (uuid_str (ws_id ws))), (''version'', JInt 1),
                (''checksum_sha256'', JStr (dv_checksum_sha256 version)),
                (''supersedes_decision_id'', opt_uuid supersedes)] None) (\<lambda>_.
             ret (decision, version)))))))))))"

definition list_decisions ::
  "principal \<Rightarrow> uuid \<Rightarrow> workspace_decision_status option \<Rightarrow> nat
     \<Rightarrow> (db, (workspace_decision_row \<times> workspace_decision_version_row) list) op" where
  "list_decisions p wid status limit =
     andthen (require_workspace_access p wid False) (\<lambda>_.
     reads (\<lambda>d. take limit (sort_key (\<lambda>cv. - wd_updated_at (fst cv)) (sort_key (\<lambda>cv. wd_id (fst cv))
       [(c, v). c \<leftarrow> t_decisions d, wd_organization_id c = p_organization_id p \<and> wd_workspace_id c = wid
                  \<and> (case status of None \<Rightarrow> True | Some st \<Rightarrow> wd_status c = st),
                v \<leftarrow> t_decision_versions d, dv_decision_id v = wd_id c \<and> dv_version v = wd_current_version c
                  \<and> dv_organization_id v = p_organization_id p]))))"

definition list_decision_versions :: "principal \<Rightarrow> uuid \<Rightarrow> (db, workspace_decision_version_row list) op" where
  "list_decision_versions p did =
     andthen (find_decision p did False) (\<lambda>_.
     reads (\<lambda>d. sort_key (\<lambda>v. - dv_version v)
       (filter (\<lambda>v. dv_organization_id v = p_organization_id p \<and> dv_decision_id v = did) (t_decision_versions d))))"

definition revise_decision ::
  "ext \<Rightarrow> clock \<Rightarrow> principal \<Rightarrow> uuid \<Rightarrow> int \<Rightarrow> decision_content
     \<Rightarrow> (db, workspace_decision_row \<times> workspace_decision_version_row) op" where
  "revise_decision x clk p did expected_version content =
     andthen (find_decision p did True) (\<lambda>(decision, ws).
     andthen (check_version ''workspace_decision'' (wd_id decision) (wd_current_version decision) expected_version) (\<lambda>_.
     andthen (require (wd_status decision = Decision_PROPOSED)
       (ConflictError ''workspace_decision_revision_closed'' ''Only a proposed decision can be revised''
          [(''current_status'', JStr (workspace_decision_status_value (wd_status decision)))])) (\<lambda>_.
     andthen (reads (current_version decision)) (\<lambda>found.
     andthen (from_some version_missing found) (\<lambda>current.
     andthen new_id (\<lambda>i.
     (let next_version = wd_current_version decision + 1;
          version = new_decision_version x i p (wd_id decision) next_version content (clk 0);
          decision' = decision\<lparr>wd_current_version := next_version, wd_updated_at := clk 1\<rparr>
      in andthen (require (dv_checksum_sha256 version \<noteq> dv_checksum_sha256 current)
           (ConflictError ''workspace_decision_no_changes''
              ''The decision revision does not change the governed content'' [])) (\<lambda>_.
         andthen (put_decision decision') (\<lambda>_.
         andthen (add_decision_version version) (\<lambda>_.
         andthen (record_change x (later 2 clk) p ws ''workspace_decision.revised'' ''workspace_decision.revise''
           ''workspace_decision'' (wd_id decision) (wd_source_run_id decision)
           [(''workspace_id'', JStr (uuid_str (ws_id ws))), (''version'', JInt next_version),
            (''previous_version'', JInt (next_version - 1)),
            (''checksum_sha256'', JStr (dv_checksum_sha256 version))] None) (\<lambda>_.
         ret (decision', version))))))))))))"

text \<open>Accepting a decision first supersedes the decision it replaces, under one correlation id.\<close>

definition supersede ::
  "ext \<Rightarrow> clock \<Rightarrow> principal \<Rightarrow> workspace_decision_row \<Rightarrow> workspace_row \<Rightarrow> uuid \<Rightarrow> uuid \<Rightarrow> (db, unit) op" where
  "supersede x clk p decision ws correlation did =
     andthen (find_decision p did True) (\<lambda>(superseded, superseded_ws).
     andthen (require (wd_workspace_id superseded = wd_workspace_id decision)
       (ValidationError ''workspace_decision_supersedes_workspace_mismatch''
          ''The superseded decision no longer belongs to this workspace'' [])) (\<lambda>_.
     andthen (from_sum (validate_decision_transition (wd_status superseded) Decision_SUPERSEDED)) (\<lambda>_.
     andthen (put_decision (superseded\<lparr>wd_status := Decision_SUPERSEDED, wd_updated_at := clk 0\<rparr>)) (\<lambda>_.
     record_change x (later 1 clk) p superseded_ws ''workspace_decision.superseded'' ''workspace_decision.supersede''
       ''workspace_decision'' (wd_id superseded) (wd_source_run_id superseded)
       [(''workspace_id'', JStr (uuid_str (ws_id ws))),
        (''superseded_by_decision_id'', JStr (uuid_str (wd_id decision))),
        (''version'', JInt (wd_current_version superseded))] (Some correlation)))))"

definition decide_decision ::
  "ext \<Rightarrow> clock \<Rightarrow> principal \<Rightarrow> uuid \<Rightarrow> int \<Rightarrow> workspace_decision_status
     \<Rightarrow> (db, workspace_decision_row \<times> workspace_decision_version_row) op" where
  "decide_decision x clk p did expected_version target =
     andthen (require (target \<in> {Decision_ACCEPTED, Decision_REJECTED})
       (ValidationError ''workspace_decision_target_invalid''
          ''A proposed decision can only be accepted or rejected'' [])) (\<lambda>_.
     andthen (find_decision p did True) (\<lambda>(decision, ws).
     andthen (check_version ''workspace_decision'' (wd_id decision) (wd_current_version decision) expected_version) (\<lambda>_.
     andthen (from_sum (validate_decision_transition (wd_status decision) target)) (\<lambda>_.
     andthen new_id (\<lambda>correlation.
     andthen (when_some (if target = Decision_ACCEPTED then wd_supersedes_decision_id decision else None)
        (supersede x (later 1 clk) p decision ws correlation)) (\<lambda>_.
     (let decision' = decision\<lparr>wd_status := target, wd_decided_by := Some (p_id p), wd_decided_at := Some (clk 0),
                               wd_updated_at := clk 4\<rparr>;
          accepted = (target = Decision_ACCEPTED)
      in andthen (put_decision decision') (\<lambda>_.
         andthen (reads (current_version decision')) (\<lambda>found.
         andthen (from_some version_missing found) (\<lambda>version.
         andthen (record_change x (later 5 clk) p ws
           (if accepted then ''workspace_decision.accepted'' else ''workspace_decision.rejected'')
           (if accepted then ''workspace_decision.accept'' else ''workspace_decision.reject'')
           ''workspace_decision'' (wd_id decision) (wd_source_run_id decision)
           [(''workspace_id'', JStr (uuid_str (ws_id ws))),
            (''status'', JStr (workspace_decision_status_value target)),
            (''version'', JInt (wd_current_version decision)),
            (''checksum_sha256'', JStr (dv_checksum_sha256 version))] (Some correlation)) (\<lambda>_.
         ret (decision', version))))))))))))"

definition list_decision_events :: "principal \<Rightarrow> uuid \<Rightarrow> int \<Rightarrow> nat \<Rightarrow> (db, event_row list) op" where
  "list_decision_events p did after limit =
     andthen (find_decision p did False) (\<lambda>_.
     reads (list_aggregate (p_organization_id p) ''workspace_decision'' did after limit))"

section \<open>Effects\<close>

lemma append_event_frame: "append_event x now dr d = (r, d') \<Longrightarrow> business d' = business d \<and> next_id d \<le> next_id d'"
  using append_event_business by fastforce

lemma returns_append_event:
  "(\<And>e d'. business d' = business d \<Longrightarrow> next_id d < next_id d' \<Longrightarrow> Q e d') \<Longrightarrow> returns (append_event x now dr) Q d"
  by (auto simp: returns_def dest!: append_event_business)

lemma returns_write_audit:
  "(\<And>r d'. business d' = business d \<Longrightarrow> next_id d < next_id d' \<Longrightarrow> Q r d') \<Longrightarrow> returns (write_audit now dr) Q d"
  by (auto simp: returns_def dest!: write_audit_business)

lemma returns_record_change:
  "(\<And>d'. business d' = business d \<Longrightarrow> next_id d < next_id d' \<Longrightarrow> Q () d')
     \<Longrightarrow> returns (record_change x clk p ws en aa ty agg run payload corr) Q d"
  unfolding record_change_def
  by (intro returns_intros returns_append_event returns_write_audit returns_new_id) auto

lemma record_change_succeeds:
  assumes "accepts x names" and "en \<in> set names" and "map_of payload ''error_code'' = None"
    and "\<And>rid. run = Some rid \<Longrightarrow> \<exists>r \<in> set (t_runs d). run_id r = rid \<and> run_organization_id r = p_organization_id p"
    and "\<And>h n. find (is_head aggregate agg) (t_heads d) = Some h \<Longrightarrow> ah_organization_id h = p_organization_id p"
  shows "succeeds (record_change x clk p ws en aa aggregate agg run payload corr) (\<lambda>_ _. True) d"
proof -
  obtain c d0 where corr: "(case corr of Some c \<Rightarrow> ret c | None \<Rightarrow> new_id) d = (Inr c, d0)"
      and d0: "t_runs d0 = t_runs d" "t_heads d0 = t_heads d"
    by (cases corr) (auto simp: ret_def)
  let ?dr = "(EventDraft en aggregate agg (p_organization_id p) c Actor_USER (Some (p_id p)) payload)
        \<lparr>ed_run_id := run, ed_classification := ws_classification ws\<rparr>"
  have "\<exists>ev d1. append_event x (clk 0) ?dr d0 = (Inr ev, d1)"
    by (rule append_event_accepted [OF assms(1)]) (use assms d0 in \<open>simp_all add: EventDraft_def\<close>)
  then obtain ev d1 where ev: "append_event x (clk 0) ?dr d0 = (Inr ev, d1)" by blast
  obtain a d2 where "write_audit (clk 1) (AuditDraft (p_organization_id p) c Actor_USER (Some (p_id p)) aa
       aggregate (uuid_str agg) ''SUCCESS'' payload) d1 = (Inr a, d2)"
    by (auto simp: write_audit_iff)
  with corr ev have "record_change x clk p ws en aa aggregate agg run payload corr d = (Inr (), d2)"
    by (simp add: record_change_def andthen_def ret_def)
  then show ?thesis by (simp add: succeeds_def)
qed

lemma returns_check_version: "(current = expected \<Longrightarrow> Q () d) \<Longrightarrow> returns (check_version a i current expected) Q d"
  by (simp add: check_version_def returns_require)

lemma returns_check_title: "Q () d \<Longrightarrow> returns (check_title t) Q d"
  by (simp add: check_title_def returns_require)

text \<open>The checks that only read.\<close>

lemma source_run_state: "snd (require_source_run p wid rid d) = d"
proof -
  have "keeps (\<lambda>d. d) (require_run_access p rid w)" for rid w
    by (simp add: keeps_def require_run_access_state)
  then have "keeps (\<lambda>d. d) (require_source_run p wid rid)"
    unfolding require_source_run_def by (intro keeps_andthen) simp_all
  then show ?thesis by (simp add: keeps_def)
qed

lemma assignee_state: "snd (require_assignee p ws uid d) = d"
  by (simp add: require_assignee_def andthen_def reads_def require_def ret_def raise_def)

lemma returns_when_some:
  assumes "\<And>a d. snd (f a d) = d" and "\<And>a. v = Some a \<Longrightarrow> f a d = (Inr (), d) \<Longrightarrow> Q () d" and "v = None \<Longrightarrow> Q () d"
  shows "returns (when_some v f) Q d"
  using assms by (cases v) (auto simp: when_some_def intro: returns_reading returns_ret)

lemma returns_find_task:
  "(\<And>t ws. t \<in> set (t_tasks d) \<Longrightarrow> wt_id t = tid \<Longrightarrow> wt_organization_id t = p_organization_id p \<Longrightarrow>
      ws_id ws = wt_workspace_id t \<Longrightarrow> ws \<in> set (t_workspaces d) \<Longrightarrow> ws_organization_id ws = p_organization_id p \<Longrightarrow>
      workspace_access_clause p w d ws \<Longrightarrow> Q (t, ws) d) \<Longrightarrow> returns (find_task p tid w) Q d"
  unfolding find_task_def by (intro returns_intros returns_workspace_access) (auto dest!: find_SomeD)

lemma find_decision_state: "snd (find_decision p did w d) = d"
  by (simp add: find_decision_def andthen_def reads_def from_some_def ret_def raise_def require_workspace_access_state
      split: option.split prod.split sum.split) (metis require_workspace_access_state snd_conv)

lemma returns_find_decision:
  "(\<And>c ws. c \<in> set (t_decisions d) \<Longrightarrow> wd_id c = did \<Longrightarrow> wd_organization_id c = p_organization_id p \<Longrightarrow>
      ws_id ws = wd_workspace_id c \<Longrightarrow> ws \<in> set (t_workspaces d) \<Longrightarrow> ws_organization_id ws = p_organization_id p \<Longrightarrow>
      workspace_access_clause p w d ws \<Longrightarrow> Q (c, ws) d) \<Longrightarrow> returns (find_decision p did w) Q d"
  unfolding find_decision_def by (intro returns_intros returns_workspace_access) (auto dest!: find_SomeD)

lemmas collaboration_intros = returns_intros returns_workspace_access returns_new_id returns_record_change
  returns_check_version returns_check_title returns_find_task returns_find_decision
  returns_when_some [OF source_run_state] returns_when_some [OF assignee_state]

subsection \<open>Tasks\<close>

lemma create_task_effect:
  "returns (create_task x clk p wid r) (\<lambda>t d'. \<exists>ws. ws \<in> set (t_workspaces d) \<and> ws_id ws = wid
     \<and> ws_organization_id ws = p_organization_id p \<and> workspace_access_clause p True d ws
     \<and> t = new_task (next_id d) p ws r (clk 0) \<and> next_id d < next_id d'
     \<and> (\<forall>a. ctr_assignee_id r = Some a \<longrightarrow> (\<exists>u \<in> set (t_users d). is_assignable p ws a d u))
     \<and> business d' = business (d\<lparr>t_tasks := t_tasks d @ [t]\<rparr>)) d"
  unfolding create_task_def Let_def
  by (intro collaboration_intros)
    (auto simp: require_assignee_def andthen_Inr business_def dest!: find_SomeD)

text \<open>The reference for an update: every supplied field is replaced.\<close>

definition given :: "'v \<Rightarrow> 'a supplied \<Rightarrow> ('a \<Rightarrow> 'v) \<Rightarrow> 'v" where
  "given old v f = (case v of Some (Some a) \<Rightarrow> f a | _ \<Rightarrow> old)"

definition supplied_or :: "'v \<Rightarrow> 'v option \<Rightarrow> 'v" where
  "supplied_or old v = (case v of None \<Rightarrow> old | Some w \<Rightarrow> w)"

definition apply_fields :: "update_task_request \<Rightarrow> time \<Rightarrow> workspace_task_row \<Rightarrow> workspace_task_row" where
  "apply_fields r now t = (let st = given (wt_status t) (utr_status r) id in
     t\<lparr>wt_title := given (wt_title t) (utr_title r) (\<lambda>s. redact_text (strip s)),
       wt_description := given (wt_description t) (utr_description r) (\<lambda>s. redact_text (strip s)),
       wt_priority := given (wt_priority t) (utr_priority r) id,
       wt_assignee_id := supplied_or (wt_assignee_id t) (utr_assignee_id r),
       wt_due_at := supplied_or (wt_due_at t) (utr_due_at r),
       wt_status := st,
       wt_completed_at := (if st = wt_status t then wt_completed_at t
                           else if st = Task_COMPLETED then Some now else None)\<rparr>)"

lemma returns_ret_iff: "returns (ret v) Q d \<longleftrightarrow> Q v d"
  by (simp add: returns_def)

text \<open>Each step replaces its field and notes whether that changed the row.\<close>

lemma edit_result: "put (get (fst e)) (fst e) = fst e \<Longrightarrow>
    fst (edit name get put v e) = put v (fst e) \<and> (snd (edit name get put v e) = [] \<longleftrightarrow> snd e = [] \<and> v = get (fst e))"
  by (auto simp: edit_def)

lemma returns_edits:
  "returns (edit_title r e) (\<lambda>e' d'. d' = d
     \<and> fst e' = (fst e)\<lparr>wt_title := given (wt_title (fst e)) (utr_title r) (\<lambda>s. redact_text (strip s))\<rparr>
     \<and> (snd e' = [] \<longleftrightarrow> snd e = [] \<and> given (wt_title (fst e)) (utr_title r) (\<lambda>s. redact_text (strip s)) = wt_title (fst e))) d"
  "returns (edit_description r e) (\<lambda>e' d'. d' = d
     \<and> fst e' = (fst e)\<lparr>wt_description := given (wt_description (fst e)) (utr_description r) (\<lambda>s. redact_text (strip s))\<rparr>
     \<and> (snd e' = [] \<longleftrightarrow> snd e = [] \<and> given (wt_description (fst e)) (utr_description r) (\<lambda>s. redact_text (strip s)) = wt_description (fst e))) d"
  "returns (edit_priority r e) (\<lambda>e' d'. d' = d
     \<and> fst e' = (fst e)\<lparr>wt_priority := given (wt_priority (fst e)) (utr_priority r) id\<rparr>
     \<and> (snd e' = [] \<longleftrightarrow> snd e = [] \<and> given (wt_priority (fst e)) (utr_priority r) id = wt_priority (fst e))) d"
  "returns (edit_due_at r e) (\<lambda>e' d'. d' = d
     \<and> fst e' = (fst e)\<lparr>wt_due_at := supplied_or (wt_due_at (fst e)) (utr_due_at r)\<rparr>
     \<and> (snd e' = [] \<longleftrightarrow> snd e = [] \<and> supplied_or (wt_due_at (fst e)) (utr_due_at r) = wt_due_at (fst e))) d"
  by (simp_all add: edit_title_def edit_description_def edit_priority_def edit_due_at_def edit_required_def given_def
      supplied_or_def returns_ret_iff returns_raise edit_result split: option.split)

lemma returns_edit_assignee:
  "returns (edit_assignee p ws r e) (\<lambda>e' d'. d' = d
     \<and> (\<forall>a. utr_assignee_id r = Some (Some a) \<longrightarrow> (\<exists>u \<in> set (t_users d). is_assignable p ws a d u))
     \<and> fst e' = (fst e)\<lparr>wt_assignee_id := supplied_or (wt_assignee_id (fst e)) (utr_assignee_id r)\<rparr>
     \<and> (snd e' = [] \<longleftrightarrow> snd e = [] \<and> supplied_or (wt_assignee_id (fst e)) (utr_assignee_id r) = wt_assignee_id (fst e))) d"
  unfolding edit_assignee_def
  by (intro collaboration_intros)
    (auto simp: edit_result supplied_or_def require_assignee_def andthen_Inr dest!: find_SomeD)

lemma returns_edit_status:
  "returns (edit_status r now e) (\<lambda>z d'. d' = d
     \<and> (let st = given (wt_status (fst e)) (utr_status r) id in
        (st = wt_status (fst e) \<or> st \<in> set (task_transitions (wt_status (fst e))))
        \<and> fst (fst z) = (fst e)\<lparr>wt_status := st, wt_completed_at := (if st = wt_status (fst e) then wt_completed_at (fst e)
                           else if st = Task_COMPLETED then Some now else None)\<rparr>
        \<and> (snd (fst z) = [] \<longleftrightarrow> snd e = [] \<and> st = wt_status (fst e)))) d"
  unfolding edit_status_def Let_def
  by (intro collaboration_intros) (auto simp: given_def)

lemma apply_fields_same:
  "apply_fields r now t = t \<longleftrightarrow>
     given (wt_title t) (utr_title r) (\<lambda>s. redact_text (strip s)) = wt_title t
     \<and> given (wt_description t) (utr_description r) (\<lambda>s. redact_text (strip s)) = wt_description t
     \<and> given (wt_priority t) (utr_priority r) id = wt_priority t
     \<and> supplied_or (wt_assignee_id t) (utr_assignee_id r) = wt_assignee_id t
     \<and> supplied_or (wt_due_at t) (utr_due_at r) = wt_due_at t
     \<and> given (wt_status t) (utr_status r) id = wt_status t"
  by (cases t) (auto simp: apply_fields_def Let_def)

lemma apply_fields_kept [simp]:
  "wt_id (apply_fields r now t) = wt_id t" "wt_version (apply_fields r now t) = wt_version t"
  "wt_organization_id (apply_fields r now t) = wt_organization_id t"
  "wt_workspace_id (apply_fields r now t) = wt_workspace_id t"
  by (simp_all add: apply_fields_def Let_def)

lemma edit_fields_effect:
  "returns (edit_fields p ws r now t) (\<lambda>z d'. d' = d \<and> fst (fst z) = apply_fields r now t
     \<and> (snd (fst z) = [] \<longleftrightarrow> apply_fields r now t = t)
     \<and> (wt_status (fst (fst z)) = wt_status t \<or> wt_status (fst (fst z)) \<in> set (task_transitions (wt_status t)))
     \<and> (\<forall>a. utr_assignee_id r = Some (Some a) \<longrightarrow> (\<exists>u \<in> set (t_users d). is_assignable p ws a d u))) d"
  unfolding edit_fields_def
  apply (intro returns_andthen
    returns_conseq [OF returns_edits(1)] returns_conseq [OF returns_edits(2)] returns_conseq [OF returns_edits(3)]
    returns_conseq [OF returns_edits(4)] returns_conseq [OF returns_edit_assignee] returns_conseq [OF returns_edit_status])
  apply (unfold Let_def apply_fields_same)
  apply (elim conjE)
  subgoal premises prems
    by (simp add: prems apply_fields_def Let_def) (use prems in simp)
  done

lemma returns_edit_fields:
  assumes "\<And>changed change. (changed = [] \<longleftrightarrow> apply_fields r now t = t) \<Longrightarrow>
      wt_status (apply_fields r now t) = wt_status t
        \<or> wt_status (apply_fields r now t) \<in> set (task_transitions (wt_status t)) \<Longrightarrow>
      \<forall>a. utr_assignee_id r = Some (Some a) \<longrightarrow> (\<exists>u \<in> set (t_users d). is_assignable p ws a d u) \<Longrightarrow>
      Q ((apply_fields r now t, changed), change) d"
  shows "returns (edit_fields p ws r now t) Q d"
proof (rule returns_conseq [OF edit_fields_effect])
  fix z :: "edited \<times> jobj" and d'
  assume z: "d' = d \<and> fst (fst z) = apply_fields r now t
     \<and> (snd (fst z) = [] \<longleftrightarrow> apply_fields r now t = t)
     \<and> (wt_status (fst (fst z)) = wt_status t \<or> wt_status (fst (fst z)) \<in> set (task_transitions (wt_status t)))
     \<and> (\<forall>a. utr_assignee_id r = Some (Some a) \<longrightarrow> (\<exists>u \<in> set (t_users d). is_assignable p ws a d u))"
  then have "Q ((apply_fields r now t, snd (fst z)), snd z) d" by (intro assms) auto
  then show "Q z d'" using z by (metis prod.collapse)
qed

definition task_updated ::
  "clock \<Rightarrow> principal \<Rightarrow> uuid \<Rightarrow> update_task_request \<Rightarrow> db \<Rightarrow> workspace_task_row \<Rightarrow> db \<Rightarrow> bool" where
  "task_updated clk p tid r d t' d' \<longleftrightarrow> (\<exists>t \<in> set (t_tasks d). \<exists>ws \<in> set (t_workspaces d).
     wt_id t = tid \<and> wt_organization_id t = p_organization_id p \<and> ws_id ws = wt_workspace_id t
     \<and> ws_organization_id ws = p_organization_id p \<and> workspace_access_clause p True d ws
     \<and> wt_version t = utr_expected_version r \<and> apply_fields r (clk 0) t \<noteq> t
     \<and> (wt_status t' = wt_status t \<or> wt_status t' \<in> set (task_transitions (wt_status t)))
     \<and> t' = (apply_fields r (clk 0) t)\<lparr>wt_version := wt_version t + 1, wt_updated_at := clk 1\<rparr>
     \<and> (\<forall>a. utr_assignee_id r = Some (Some a) \<longrightarrow> (\<exists>u \<in> set (t_users d). is_assignable p ws a d u))
     \<and> business d' = business (d\<lparr>t_tasks := replace_row wt_id t' (t_tasks d)\<rparr>))"

lemma update_task_effect:
  "returns (update_task x clk p tid r) (\<lambda>t' d'. task_updated clk p tid r d t' d' \<and> next_id d \<le> next_id d') d"
  unfolding update_task_def Let_def put_task_def
  by (intro collaboration_intros returns_edit_fields)
    (unfold task_updated_def, intro bexI conjI, auto simp: business_def)

subsection \<open>Decisions\<close>

text \<open>The decision a caller may write, and the version of its content that is current.\<close>

definition writable_decision :: "principal \<Rightarrow> db \<Rightarrow> workspace_decision_row \<Rightarrow> bool" where
  "writable_decision p d c \<longleftrightarrow> c \<in> set (t_decisions d) \<and> wd_organization_id c = p_organization_id p
     \<and> (\<exists>ws \<in> set (t_workspaces d). ws_id ws = wd_workspace_id c \<and> ws_organization_id ws = p_organization_id p
          \<and> workspace_access_clause p True d ws)"

lemma writable_decisionI:
  "c \<in> set (t_decisions d) \<Longrightarrow> wd_organization_id c = p_organization_id p \<Longrightarrow> ws_id ws = wd_workspace_id c \<Longrightarrow>
     ws \<in> set (t_workspaces d) \<Longrightarrow> ws_organization_id ws = p_organization_id p \<Longrightarrow>
     workspace_access_clause p True d ws \<Longrightarrow> writable_decision p d c"
  unfolding writable_decision_def by blast

definition replaceable :: "principal \<Rightarrow> db \<Rightarrow> uuid \<Rightarrow> uuid \<Rightarrow> workspace_decision_row \<Rightarrow> bool" where
  "replaceable p d wid did c \<longleftrightarrow> writable_decision p d c \<and> wd_id c = did \<and> wd_workspace_id c = wid
     \<and> wd_status c = Decision_ACCEPTED"

definition decision_created ::
  "ext \<Rightarrow> clock \<Rightarrow> principal \<Rightarrow> uuid \<Rightarrow> decision_content \<Rightarrow> uuid option \<Rightarrow> uuid option \<Rightarrow> db
     \<Rightarrow> workspace_decision_row \<times> workspace_decision_version_row \<Rightarrow> db \<Rightarrow> bool" where
  "decision_created x clk p wid content source_run supersedes d cv d' \<longleftrightarrow> (\<exists>ws \<in> set (t_workspaces d).
     ws_id ws = wid \<and> ws_organization_id ws = p_organization_id p \<and> workspace_access_clause p True d ws
     \<and> (\<forall>s. supersedes = Some s \<longrightarrow> (\<exists>c0. replaceable p d wid s c0))
     \<and> fst cv = new_decision (next_id d) p ws source_run supersedes (clk 0)
     \<and> snd cv = new_decision_version x (next_id d + 1) p (next_id d) 1 content (clk 1)
     \<and> business d' = business (d\<lparr>t_decisions := t_decisions d @ [fst cv],
                                t_decision_versions := t_decision_versions d @ [snd cv]\<rparr>))"

lemma check_supersedes_state: "snd (check_supersedes p ws did d) = d"
proof -
  have "keeps (\<lambda>d. d) (find_decision p did True)" by (simp add: keeps_def find_decision_state)
  then have "keeps (\<lambda>d. d) (check_supersedes p ws did)"
    unfolding check_supersedes_def by (intro keeps_intros) simp_all
  then show ?thesis by (simp add: keeps_def)
qed

lemma check_supersedes_replaceable:
  assumes "check_supersedes p ws did d = (Inr u, d')"
  shows "\<exists>c0. replaceable p d (ws_id ws) did c0"
proof -
  have "returns (check_supersedes p ws did) (\<lambda>_ _. \<exists>c0. replaceable p d (ws_id ws) did c0) d"
    unfolding check_supersedes_def
    by (intro collaboration_intros) (auto simp: replaceable_def, metis writable_decisionI)
  then show ?thesis using assms by (auto simp: returns_def)
qed

lemma create_decision_effect:
  "returns (create_decision x clk p wid content source_run supersedes) (\<lambda>cv d'.
     decision_created x clk p wid content source_run supersedes d cv d' \<and> next_id d + 1 < next_id d') d"
  unfolding create_decision_def Let_def add_decision_version_def
  apply (intro collaboration_intros returns_when_some [OF check_supersedes_state])
     apply (unfold decision_created_def)
     apply (intro bexI conjI)
  apply (auto simp: business_def dest: check_supersedes_replaceable)
  done

definition decision_revised ::
  "ext \<Rightarrow> clock \<Rightarrow> principal \<Rightarrow> uuid \<Rightarrow> int \<Rightarrow> decision_content \<Rightarrow> db
     \<Rightarrow> workspace_decision_row \<times> workspace_decision_version_row \<Rightarrow> db \<Rightarrow> bool" where
  "decision_revised x clk p did n content d cv d' \<longleftrightarrow> (\<exists>c old. writable_decision p d c \<and> wd_id c = did
     \<and> wd_current_version c = n \<and> wd_status c = Decision_PROPOSED
     \<and> current_version c d = Some old \<and> dv_checksum_sha256 (snd cv) \<noteq> dv_checksum_sha256 old
     \<and> fst cv = c\<lparr>wd_current_version := n + 1, wd_updated_at := clk 1\<rparr>
     \<and> snd cv = new_decision_version x (next_id d) p did (n + 1) content (clk 0)
     \<and> business d' = business (d\<lparr>t_decisions := replace_row wd_id (fst cv) (t_decisions d),
                                t_decision_versions := t_decision_versions d @ [snd cv]\<rparr>))"

lemma revise_decision_effect:
  "returns (revise_decision x clk p did n content) (\<lambda>cv d'.
     decision_revised x clk p did n content d cv d' \<and> next_id d < next_id d') d"
  unfolding revise_decision_def Let_def add_decision_version_def put_decision_def
  apply (intro collaboration_intros)
  apply (unfold decision_revised_def)
  apply (intro exI conjI)
  apply (auto simp: business_def intro: writable_decisionI)
  done

lemma business_put_decisions:
  "business d1 = business d2 \<Longrightarrow>
     business (d1\<lparr>t_decisions := f (t_decisions d1)\<rparr>) = business (d2\<lparr>t_decisions := f (t_decisions d2)\<rparr>)"
  using business_tables(9) [of d1 d2] by (cases d1; cases d2) (simp add: business_def)

text \<open>The table after the replaced decision, if there is one, has been superseded.\<close>

definition after_superseding ::
  "principal \<Rightarrow> time \<Rightarrow> workspace_decision_row \<Rightarrow> uuid option \<Rightarrow> db \<Rightarrow> workspace_decision_row list \<Rightarrow> bool" where
  "after_superseding p now c supersedes d cs \<longleftrightarrow> (case supersedes of
     None \<Rightarrow> cs = t_decisions d
   | Some s \<Rightarrow> \<exists>c0. replaceable p d (wd_workspace_id c) s c0
       \<and> cs = replace_row wd_id (c0\<lparr>wd_status := Decision_SUPERSEDED, wd_updated_at := now\<rparr>) (t_decisions d))"

definition decision_decided ::
  "clock \<Rightarrow> principal \<Rightarrow> uuid \<Rightarrow> int \<Rightarrow> workspace_decision_status \<Rightarrow> db
     \<Rightarrow> workspace_decision_row \<times> workspace_decision_version_row \<Rightarrow> db \<Rightarrow> bool" where
  "decision_decided clk p did n target d cv d' \<longleftrightarrow> (\<exists>c cs. writable_decision p d c \<and> wd_id c = did
     \<and> wd_current_version c = n \<and> wd_status c = Decision_PROPOSED \<and> target \<in> {Decision_ACCEPTED, Decision_REJECTED}
     \<and> fst cv = c\<lparr>wd_status := target, wd_decided_by := Some (p_id p), wd_decided_at := Some (clk 0), wd_updated_at := clk 4\<rparr>
     \<and> current_version c d = Some (snd cv)
     \<and> after_superseding p (clk 1) c (if target = Decision_ACCEPTED then wd_supersedes_decision_id c else None) d cs
     \<and> business d' = business (d\<lparr>t_decisions := replace_row wd_id (fst cv) cs\<rparr>))"

lemma decision_predecessor:
  "Decision_SUPERSEDED \<in> set (decision_transitions st) \<longleftrightarrow> st = Decision_ACCEPTED"
  "Decision_ACCEPTED \<in> set (decision_transitions st) \<longleftrightarrow> st = Decision_PROPOSED"
  "Decision_REJECTED \<in> set (decision_transitions st) \<longleftrightarrow> st = Decision_PROPOSED"
  by (cases st; simp)+

lemma supersede_effect:
  "returns (supersede x clk p c ws corr s) (\<lambda>_ d'. next_id d \<le> next_id d' \<and>
     (\<exists>c0. replaceable p d (wd_workspace_id c) s c0
        \<and> business d' = business (d\<lparr>t_decisions :=
            replace_row wd_id (c0\<lparr>wd_status := Decision_SUPERSEDED, wd_updated_at := clk 0\<rparr>) (t_decisions d)\<rparr>))) d"
  unfolding supersede_def put_decision_def
  by (intro collaboration_intros)
    (auto simp: replaceable_def decision_predecessor business_def dest: writable_decisionI)

lemma superseding_effect:
  "returns (when_some replaced (supersede x clk p c ws corr)) (\<lambda>_ d'. next_id d \<le> next_id d' \<and>
     (\<exists>cs. after_superseding p (clk 0) c replaced d cs \<and> business d' = business (d\<lparr>t_decisions := cs\<rparr>))) d"
proof (cases replaced)
  case None
  then show ?thesis by (simp add: when_some_def after_superseding_def returns_ret_iff)
next
  case (Some s)
  show ?thesis
    unfolding Some when_some_def option.case after_superseding_def
    by (rule returns_conseq [OF supersede_effect]) blast
qed

lemma replaceable_next_id [simp]: "replaceable p (d\<lparr>next_id := n\<rparr>) = replaceable p d"
  by (rule ext)+ (simp add: replaceable_def writable_decision_def workspace_access_clause_def is_member_def)

lemma after_superseding_next_id [simp]: "after_superseding p now c replaced (d\<lparr>next_id := n\<rparr>) = after_superseding p now c replaced d"
  by (rule ext) (simp add: after_superseding_def split: option.split)

text \<open>Writing the decision itself, after whatever was superseded.\<close>

lemma decision_decidedI:
  assumes v: "current_version c' (d1\<lparr>t_decisions := replace_row wd_id c' (t_decisions d1)\<rparr>) = Some v"
    and d': "business d' = business (d1\<lparr>t_decisions := replace_row wd_id c' (t_decisions d1)\<rparr>)"
    and d1: "business d1 = business (d\<lparr>next_id := i, t_decisions := cs\<rparr>)"
    and decided: "after_superseding p (clk 1) c (if target = Decision_ACCEPTED then wd_supersedes_decision_id c else None) d cs"
      "writable_decision p d c" "wd_status c = Decision_PROPOSED" "target \<in> {Decision_ACCEPTED, Decision_REJECTED}"
    and c': "c' = c\<lparr>wd_status := target, wd_decided_by := Some (p_id p), wd_decided_at := Some (clk 0), wd_updated_at := clk 4\<rparr>"
  shows "decision_decided clk p (wd_id c) (wd_current_version c) target d (c', v) d'"
proof -
  have "current_version c d = Some v"
    using v business_tables(10) [OF d1] by (simp add: current_version_def c')
  moreover have "business (d\<lparr>next_id := i, t_decisions := f cs\<rparr>) = business (d\<lparr>t_decisions := f cs\<rparr>)" for f
    by (simp add: business_def)
  then have "business d' = business (d\<lparr>t_decisions := replace_row wd_id c' cs\<rparr>)"
    using d' business_put_decisions [OF d1, of "replace_row wd_id c'"] by simp
  ultimately show ?thesis
    unfolding decision_decided_def using decided c' by (intro exI [of _ c] exI [of _ cs]) simp
qed

lemma decide_decision_effect:
  "returns (decide_decision x clk p did n target) (\<lambda>cv d'. decision_decided clk p did n target d cv d' \<and> next_id d \<le> next_id d') d"
  unfolding decide_decision_def Let_def put_decision_def
  apply (intro collaboration_intros returns_conseq [OF superseding_effect])
  apply (elim conjE exE, intro conjI)
   apply (simp only: prod.inject)
   apply (elim conjE)
   apply hypsubst
   apply (rule decision_decidedI)
   apply (assumption | (auto simp: decision_predecessor intro: writable_decisionI)[1])+
  done

end
