(* ===== verification/CollaborationDesk.thy ===== *)
theory CollaborationDesk
  imports Collaboration
begin

text \<open>
  The endpoints of \<open>api/collaboration.py\<close> that write, as one kind of request, and what every
  history of them keeps: the invariant of the task and decision tables, the version chains, and
  the immutability of decision contents.
\<close>

section \<open>Endpoints\<close>

text \<open>FastAPI validates the body before the handler runs; the handler is one transaction.\<close>

definition request_body :: "bool \<Rightarrow> (db, unit) op" where
  "request_body ok = require ok (PyError ''RequestValidationError'' ''request body'')"

definition create_workspace_task ::
  "ext \<Rightarrow> clock \<Rightarrow> principal \<Rightarrow> uuid \<Rightarrow> create_task_request \<Rightarrow> (db, workspace_task_row) op" where
  "create_workspace_task x clk p wid r =
     andthen (request_body (valid_create_task r)) (\<lambda>_. transaction (create_task x clk p wid r))"

definition update_workspace_task ::
  "ext \<Rightarrow> clock \<Rightarrow> principal \<Rightarrow> uuid \<Rightarrow> update_task_request \<Rightarrow> (db, workspace_task_row) op" where
  "update_workspace_task x clk p tid r =
     andthen (request_body (valid_update_task r)) (\<lambda>_. transaction (update_task x clk p tid r))"

definition create_workspace_decision ::
  "ext \<Rightarrow> clock \<Rightarrow> principal \<Rightarrow> uuid \<Rightarrow> decision_content \<Rightarrow> uuid option \<Rightarrow> uuid option
     \<Rightarrow> (db, workspace_decision_row \<times> workspace_decision_version_row) op" where
  "create_workspace_decision x clk p wid content source_run supersedes =
     andthen (request_body (valid_decision_content content)) (\<lambda>_.
     transaction (create_decision x clk p wid content source_run supersedes))"

definition revise_workspace_decision ::
  "ext \<Rightarrow> clock \<Rightarrow> principal \<Rightarrow> uuid \<Rightarrow> int \<Rightarrow> decision_content
     \<Rightarrow> (db, workspace_decision_row \<times> workspace_decision_version_row) op" where
  "revise_workspace_decision x clk p did expected_version content =
     andthen (request_body (1 \<le> expected_version \<and> valid_decision_content content)) (\<lambda>_.
     transaction (revise_decision x clk p did expected_version content))"

definition decide_workspace_decision ::
  "ext \<Rightarrow> clock \<Rightarrow> principal \<Rightarrow> uuid \<Rightarrow> int \<Rightarrow> workspace_decision_status
     \<Rightarrow> (db, workspace_decision_row \<times> workspace_decision_version_row) op" where
  "decide_workspace_decision x clk p did expected_version target =
     andthen (request_body (1 \<le> expected_version)) (\<lambda>_.
     transaction (decide_decision x clk p did expected_version target))"

datatype collaboration_call =
    CreateTask uuid create_task_request
  | UpdateTask uuid update_task_request
  | CreateDecision uuid decision_content "uuid option" "uuid option"
  | ReviseDecision uuid int decision_content
  | AcceptDecision uuid int
  | RejectDecision uuid int

record collaboration_request =
  cq_ext :: ext
  cq_clock :: clock
  cq_principal :: principal
  cq_call :: collaboration_call

definition discard :: "(db, 'a) op \<Rightarrow> (db, unit) op" where
  "discard m = andthen m (\<lambda>_. ret ())"

definition collaborate :: "collaboration_request \<Rightarrow> (db, unit) op" where
  "collaborate q = (let x = cq_ext q; clk = cq_clock q; p = cq_principal q in case cq_call q of
     CreateTask wid r \<Rightarrow> discard (create_workspace_task x clk p wid r)
   | UpdateTask tid r \<Rightarrow> discard (update_workspace_task x clk p tid r)
   | CreateDecision wid c run s \<Rightarrow> discard (create_workspace_decision x clk p wid c run s)
   | ReviseDecision did n c \<Rightarrow> discard (revise_workspace_decision x clk p did n c)
   | AcceptDecision did n \<Rightarrow> discard (decide_workspace_decision x clk p did n Decision_ACCEPTED)
   | RejectDecision did n \<Rightarrow> discard (decide_workspace_decision x clk p did n Decision_REJECTED))"

text \<open>A refused request rolls back; a successful one did what the service call did.\<close>

lemma request_body_iff [simp]:
  "request_body ok d = (v, d') \<longleftrightarrow> d' = d \<and> v = (if ok then Inr () else Inl (PyError ''RequestValidationError'' ''request body''))"
  by (auto simp: request_body_def require_def ret_def raise_def)

lemma discard_Inr: "discard m d = (Inr u, d') \<longleftrightarrow> (\<exists>r. m d = (Inr r, d'))"
  by (auto simp: discard_def andthen_Inr)

lemma discard_Inl: "discard m d = (Inl e, d') \<longleftrightarrow> m d = (Inl e, d')"
  by (auto simp: discard_def andthen_def ret_def split: prod.splits sum.splits)

lemma guarded_transaction_Inl:
  "andthen (request_body ok) (\<lambda>_. transaction m) d = (Inl e, d') \<Longrightarrow> d' = d"
  by (auto simp: andthen_def request_body_def require_def ret_def raise_def transaction_def split: if_splits prod.splits sum.splits)

lemma guarded_transaction_Inr:
  "andthen (request_body ok) (\<lambda>_. transaction m) d = (Inr r, d') \<longleftrightarrow> ok \<and> m d = (Inr r, d')"
  by (auto simp: andthen_Inr transaction_Inr)

lemmas endpoint_defs = create_workspace_task_def update_workspace_task_def create_workspace_decision_def
  revise_workspace_decision_def decide_workspace_decision_def

lemma collaborate_Inl: "collaborate q d = (Inl e, d') \<Longrightarrow> d' = d"
  by (auto simp: collaborate_def Let_def discard_Inl endpoint_defs dest: guarded_transaction_Inl
      split: collaboration_call.splits)

definition collaborated :: "collaboration_request \<Rightarrow> db \<Rightarrow> db \<Rightarrow> bool" where
  "collaborated q d d' \<longleftrightarrow> (let x = cq_ext q; clk = cq_clock q; p = cq_principal q in case cq_call q of
     CreateTask wid r \<Rightarrow> \<exists>ws t. t = new_task (next_id d) p ws r (clk 0) \<and> next_id d < next_id d'
        \<and> business d' = business (d\<lparr>t_tasks := t_tasks d @ [t]\<rparr>)
   | UpdateTask tid r \<Rightarrow> \<exists>t. task_updated clk p tid r d t d' \<and> next_id d \<le> next_id d'
   | CreateDecision wid c run s \<Rightarrow> \<exists>cv. decision_created x clk p wid c run s d cv d' \<and> next_id d + 1 < next_id d'
   | ReviseDecision did n c \<Rightarrow> \<exists>cv. decision_revised x clk p did n c d cv d' \<and> next_id d < next_id d'
   | AcceptDecision did n \<Rightarrow> \<exists>cv. decision_decided clk p did n Decision_ACCEPTED d cv d' \<and> next_id d \<le> next_id d'
   | RejectDecision did n \<Rightarrow> \<exists>cv. decision_decided clk p did n Decision_REJECTED d cv d' \<and> next_id d \<le> next_id d')"

lemma collaborate_Inr: "collaborate q d = (Inr u, d') \<Longrightarrow> collaborated q d d'"
  unfolding collaborate_def collaborated_def Let_def endpoint_defs
  by (cases "cq_call q")
    (auto simp: discard_Inr guarded_transaction_Inr dest!: returnsD [OF create_task_effect]
      returnsD [OF update_task_effect] returnsD [OF create_decision_effect] returnsD [OF revise_decision_effect]
      returnsD [OF decide_decision_effect])

section \<open>The invariant of the tables\<close>

text \<open>Rows under distinct keys that the identifier counter has already passed.\<close>

definition keyed_table :: "('r \<Rightarrow> uuid) \<Rightarrow> ('r \<Rightarrow> bool) \<Rightarrow> uuid \<Rightarrow> 'r list \<Rightarrow> bool" where
  "keyed_table key ok n rs \<longleftrightarrow> distinct (map key rs) \<and> (\<forall>r \<in> set rs. key r < n \<and> ok r)"

lemma keyed_table_mono: "keyed_table key ok n rs \<Longrightarrow> n \<le> n' \<Longrightarrow> keyed_table key ok n' rs"
  by (auto simp: keyed_table_def)

lemma keyed_table_insert:
  "keyed_table key ok n rs \<Longrightarrow> key r = n \<Longrightarrow> ok r \<Longrightarrow> n < n' \<Longrightarrow> keyed_table key ok n' (rs @ [r])"
  by (fastforce simp: keyed_table_def)

lemma keyed_table_update:
  "keyed_table key ok n rs \<Longrightarrow> r0 \<in> set rs \<Longrightarrow> key r = key r0 \<Longrightarrow> ok r \<Longrightarrow> keyed_table key ok n (replace_row key r rs)"
  by (auto simp: keyed_table_def mem_replace_row_iff)

definition task_ok :: "workspace_task_row \<Rightarrow> bool" where
  "task_ok t \<longleftrightarrow> 1 \<le> wt_version t \<and> (wt_completed_at t \<noteq> None \<longleftrightarrow> wt_status t = Task_COMPLETED)"

definition decision_ok :: "workspace_decision_row \<Rightarrow> bool" where
  "decision_ok c \<longleftrightarrow> 1 \<le> wd_current_version c \<and> (wd_decided_by c = None \<longleftrightarrow> wd_status c = Decision_PROPOSED)
     \<and> (wd_decided_at c = None \<longleftrightarrow> wd_status c = Decision_PROPOSED)"

definition in_force :: "workspace_decision_row \<Rightarrow> bool" where
  "in_force c \<longleftrightarrow> wd_status c = Decision_ACCEPTED \<or> wd_status c = Decision_SUPERSEDED"

definition successor_of :: "uuid \<Rightarrow> workspace_decision_row \<Rightarrow> bool" where
  "successor_of i c \<longleftrightarrow> wd_supersedes_decision_id c = Some i \<and> in_force c"

text \<open>The versions of a decision's content, in the order they were written.\<close>

definition versions_of :: "uuid \<Rightarrow> workspace_decision_version_row list \<Rightarrow> int list" where
  "versions_of i vs = map dv_version (filter (\<lambda>v. dv_decision_id v = i) vs)"

definition succession :: "workspace_decision_row list \<Rightarrow> bool" where
  "succession cs \<longleftrightarrow>
     (\<forall>c \<in> set cs. length (filter (successor_of (wd_id c)) cs) = (if wd_status c = Decision_SUPERSEDED then 1 else 0))
     \<and> (\<forall>c \<in> set cs. \<forall>i. wd_supersedes_decision_id c = Some i \<longrightarrow>
          (\<exists>c0 \<in> set cs. wd_id c0 = i \<and> i < wd_id c \<and> in_force c0 \<and> wd_workspace_id c0 = wd_workspace_id c
             \<and> wd_organization_id c0 = wd_organization_id c))"

definition decisions_ok :: "uuid \<Rightarrow> workspace_decision_row list \<Rightarrow> workspace_decision_version_row list \<Rightarrow> bool" where
  "decisions_ok n cs vs \<longleftrightarrow> keyed_table wd_id decision_ok n cs \<and> succession cs
     \<and> (\<forall>c \<in> set cs. versions_of (wd_id c) vs = [1..wd_current_version c])
     \<and> (\<forall>v \<in> set vs. dv_decision_id v < n)"

definition collaboration_inv :: "db \<Rightarrow> bool" where
  "collaboration_inv d \<longleftrightarrow> keyed_table wt_id task_ok (next_id d) (t_tasks d)
     \<and> decisions_ok (next_id d) (t_decisions d) (t_decision_versions d)"

subsection \<open>Tasks\<close>

lemma new_task_ok: "task_ok (new_task i p ws r now)"
  by (simp add: new_task_def task_ok_def)

lemma updated_task_ok:
  "task_ok t \<Longrightarrow> task_ok ((apply_fields r now t)\<lparr>wt_version := wt_version t + 1, wt_updated_at := u\<rparr>)"
  by (auto simp: task_ok_def apply_fields_def Let_def)

subsection \<open>Decisions\<close>

lemma succession_insert:
  assumes "succession cs" and "keyed_table wd_id ok n cs" and "wd_id c = n" and "wd_status c = Decision_PROPOSED"
    and "\<And>i. wd_supersedes_decision_id c = Some i \<Longrightarrow> \<exists>c0 \<in> set cs. wd_id c0 = i \<and> in_force c0
      \<and> wd_workspace_id c0 = wd_workspace_id c \<and> wd_organization_id c0 = wd_organization_id c"
  shows "succession (cs @ [c])"
proof -
  have new: "\<not> successor_of i c" for i using assms(4) by (simp add: successor_of_def in_force_def)
  have none: "filter (successor_of n) cs = []"
  proof -
    have "\<not> successor_of n c'" if "c' \<in> set cs" for c'
    proof
      assume "successor_of n c'"
      then have "n < wd_id c'" using assms(1) that unfolding succession_def successor_of_def by blast
      then show False using assms(2) that by (force simp: keyed_table_def)
    qed
    then show ?thesis by (simp add: filter_empty_conv)
  qed
  have below: "wd_id c0 < n" if "c0 \<in> set cs" for c0 using assms(2) that by (simp add: keyed_table_def)
  have "\<exists>c0 \<in> set (cs @ [c]). wd_id c0 = i \<and> i < wd_id c' \<and> in_force c0 \<and> wd_workspace_id c0 = wd_workspace_id c'
             \<and> wd_organization_id c0 = wd_organization_id c'"
    if "c' \<in> set (cs @ [c])" "wd_supersedes_decision_id c' = Some i" for c' i
  proof (cases "c' = c")
    case True
    then show ?thesis using assms(3,5) that(2) below by fastforce
  next
    case False
    then show ?thesis using assms(1) that unfolding succession_def by fastforce
  qed
  then show ?thesis using assms(1,3,4) none new unfolding succession_def by auto
qed

lemma length_filter_replace:
  assumes "distinct (map key xs)" and "x \<in> set xs" and "key r = key x"
  shows "length (filter P (replace_row key r xs)) + (if P x then 1 else 0) = length (filter P xs) + (if P r then 1 else 0)"
  using assms
proof (induction xs)
  case (Cons y ys)
  show ?case
  proof (cases "key y = key r")
    case True
    then have "x = y" "replace_row key r ys = ys"
      using Cons.prems by (auto simp: replace_row_def image_iff intro!: map_idI)
    then show ?thesis using True by (simp add: replace_row_def)
  next
    case False
    then show ?thesis using Cons by (auto simp: replace_row_def)
  qed
qed simp

text \<open>A rewrite of the rows that keeps who replaces whom.\<close>

definition same_succession :: "workspace_decision_row \<Rightarrow> workspace_decision_row \<Rightarrow> bool" where
  "same_succession c c' \<longleftrightarrow> wd_id c' = wd_id c \<and> wd_supersedes_decision_id c' = wd_supersedes_decision_id c
     \<and> wd_workspace_id c' = wd_workspace_id c \<and> wd_organization_id c' = wd_organization_id c
     \<and> (in_force c \<longrightarrow> in_force c')"

lemma succession_map:
  assumes "succession cs" and "\<And>c. c \<in> set cs \<Longrightarrow> same_succession c (g c)"
    and "\<And>c. c \<in> set cs \<Longrightarrow> length (filter (successor_of (wd_id c)) (map g cs)) = (if wd_status (g c) = Decision_SUPERSEDED then 1 else 0)"
  shows "succession (map g cs)"
proof -
  have id: "wd_id (g c) = wd_id c" if "c \<in> set cs" for c using assms(2) [OF that] by (simp add: same_succession_def)
  have "\<exists>c0 \<in> set (map g cs). wd_id c0 = i \<and> i < wd_id (g c) \<and> in_force c0 \<and> wd_workspace_id c0 = wd_workspace_id (g c)
             \<and> wd_organization_id c0 = wd_organization_id (g c)"
    if c: "c \<in> set cs" and i: "wd_supersedes_decision_id (g c) = Some i" for c i
  proof -
    have "wd_supersedes_decision_id c = Some i" using assms(2) [OF c] i by (simp add: same_succession_def)
    then obtain c0 where c0: "c0 \<in> set cs" "wd_id c0 = i" "i < wd_id c" "in_force c0"
        "wd_workspace_id c0 = wd_workspace_id c" "wd_organization_id c0 = wd_organization_id c"
      using assms(1) c unfolding succession_def by blast
    then show ?thesis using assms(2) [OF c] assms(2) [OF c0(1)]
      by (intro bexI [of _ "g c0"]) (auto simp: same_succession_def)
  qed
  then show ?thesis using assms(3) id by (auto simp: succession_def)
qed

lemma succession_update:
  assumes "succession cs" and "distinct (map wd_id cs)" and "c \<in> set cs" and "same_succession c c'"
    and "in_force c' = in_force c \<or> wd_supersedes_decision_id c = None"
    and "wd_status c' = Decision_SUPERSEDED \<longleftrightarrow> wd_status c = Decision_SUPERSEDED"
  shows "succession (replace_row wd_id c' cs)"
  unfolding replace_row_def
proof (rule succession_map [OF assms(1)])
  have id: "wd_id c' = wd_id c" using assms(4) by (simp add: same_succession_def)
  have one: "y = c" if "y \<in> set cs" "wd_id y = wd_id c" for y
    using that assms(2,3) by (metis distinct_map inj_onD)
  fix y assume y: "y \<in> set cs"
  show "same_succession y (if wd_id y = wd_id c' then c' else y)"
    using one [OF y] assms(4) id by (auto simp: same_succession_def)
  have "length (filter (successor_of (wd_id y)) (replace_row wd_id c' cs)) = length (filter (successor_of (wd_id y)) cs)"
    using length_filter_replace [OF assms(2,3) id, of "successor_of (wd_id y)"] assms(4,5)
    by (auto simp: successor_of_def same_succession_def split: if_splits)
  then show "length (filter (successor_of (wd_id y)) (map (\<lambda>x. if wd_id x = wd_id c' then c' else x) cs))
      = (if wd_status (if wd_id y = wd_id c' then c' else y) = Decision_SUPERSEDED then 1 else 0)"
    using assms(1,6) y one [OF y] id by (auto simp: succession_def replace_row_def)
qed

lemma succession_accept:
  assumes "succession cs" and "distinct (map wd_id cs)" and "c \<in> set cs" and "c0 \<in> set cs"
    and "wd_supersedes_decision_id c = Some (wd_id c0)" and "wd_status c = Decision_PROPOSED" and "wd_status c0 = Decision_ACCEPTED"
    and "same_succession c c'" and "wd_status c' = Decision_ACCEPTED"
    and "same_succession c0 c0'" and "wd_status c0' = Decision_SUPERSEDED"
  shows "succession (replace_row wd_id c' (replace_row wd_id c0' cs))"
proof -
  let ?f = "\<lambda>x. if wd_id x = wd_id c0' then c0' else x" and ?g = "\<lambda>x. if wd_id x = wd_id c' then c' else x"
  have id: "wd_id c' = wd_id c" "wd_id c0' = wd_id c0" using assms(8,10) by (simp_all add: same_succession_def)
  have one: "y = z" if "y \<in> set cs" "z \<in> set cs" "wd_id y = wd_id z" for y z
    using that assms(2) by (metis distinct_map inj_onD)
  have ne: "wd_id c \<noteq> wd_id c0" using one [OF assms(3,4)] assms(6,7) by auto
  have c: "c \<in> set (replace_row wd_id c0' cs)" using assms(3) id ne by (simp add: replace_row_other_mem)
  have count: "length (filter (successor_of i) (replace_row wd_id c' (replace_row wd_id c0' cs)))
      = length (filter (successor_of i) cs) + (if i = wd_id c0 then 1 else 0)" for i
    using length_filter_replace [OF assms(2,4) id(2), of "successor_of i"]
      length_filter_replace [OF _ c id(1), of "successor_of i"] assms
    by (auto simp: successor_of_def in_force_def same_succession_def)
  have "succession (map (?g \<circ> ?f) cs)"
  proof (rule succession_map [OF assms(1)])
    fix y assume y: "y \<in> set cs"
    have y': "y = c \<longleftrightarrow> wd_id y = wd_id c" "y = c0 \<longleftrightarrow> wd_id y = wd_id c0"
      using one [OF y assms(3)] one [OF y assms(4)] by auto
    show "same_succession y ((?g \<circ> ?f) y)"
      using y' assms(8,10) id ne by (auto simp: same_succession_def)
    show "length (filter (successor_of (wd_id y)) (map (?g \<circ> ?f) cs)) = (if wd_status ((?g \<circ> ?f) y) = Decision_SUPERSEDED then 1 else 0)"
      using count [of "wd_id y"] assms(1,6,7,9,11) y y' id ne
      by (auto simp: replace_row_def succession_def)
  qed
  then show ?thesis by (simp add: replace_row_def)
qed

lemma decisions_ok_mono: "decisions_ok n cs vs \<Longrightarrow> n \<le> n' \<Longrightarrow> decisions_ok n' cs vs"
  by (auto simp: decisions_ok_def intro: keyed_table_mono)

lemma versions_of_other: "dv_decision_id v \<noteq> i \<Longrightarrow> versions_of i (vs @ [v]) = versions_of i vs"
  by (simp add: versions_of_def)

lemma new_decision_version_fields [simp]:
  "dv_decision_id (new_decision_version x i p did n c now) = did" "dv_version (new_decision_version x i p did n c now) = n"
  by (simp_all add: new_decision_version_def Let_def)

lemma decisions_ok_create:
  assumes ok: "decisions_ok n cs vs" and c: "c = new_decision n p ws run s now"
    and v: "v = new_decision_version x j p n 1 content now'" and "n < n'"
    and s: "\<And>i. s = Some i \<Longrightarrow> \<exists>c0 \<in> set cs. wd_id c0 = i \<and> in_force c0 \<and> wd_workspace_id c0 = ws_id ws
        \<and> wd_organization_id c0 = p_organization_id p"
  shows "decisions_ok n' (cs @ [c]) (vs @ [v])"
proof -
  have new: "wd_id c = n" "decision_ok c" "wd_status c = Decision_PROPOSED" "wd_current_version c = 1"
    by (simp_all add: c new_decision_def decision_ok_def)
  have keyed: "keyed_table wd_id decision_ok n cs" and succ: "succession cs" using ok by (simp_all add: decisions_ok_def)
  have "succession (cs @ [c])"
    by (rule succession_insert [OF succ keyed new(1,3)]) (use s in \<open>simp add: c new_decision_def\<close>)
  moreover have "keyed_table wd_id decision_ok n' (cs @ [c])"
    by (rule keyed_table_insert [OF keyed new(1,2) \<open>n < n'\<close>])
  moreover have "versions_of n vs = []"
    using ok by (auto simp: versions_of_def decisions_ok_def filter_empty_conv)
  then have "versions_of (wd_id c') (vs @ [v]) = [1..wd_current_version c']" if "c' \<in> set (cs @ [c])" for c'
    using that new(1,4) ok keyed by (auto simp: v versions_of_def decisions_ok_def keyed_table_def)
  ultimately show ?thesis using ok \<open>n < n'\<close> v by (fastforce simp: decisions_ok_def)
qed

lemma decisions_ok_revise:
  assumes ok: "decisions_ok n cs vs" and c: "c \<in> set cs" "wd_status c = Decision_PROPOSED"
    and c': "c' = c\<lparr>wd_current_version := wd_current_version c + 1, wd_updated_at := u\<rparr>"
    and v: "v = new_decision_version x j p (wd_id c) (wd_current_version c + 1) content now" and "n \<le> n'"
  shows "decisions_ok n' (replace_row wd_id c' cs) (vs @ [v])"
proof -
  have keyed: "keyed_table wd_id decision_ok n cs" and succ: "succession cs" using ok by (simp_all add: decisions_ok_def)
  have "decision_ok c'" using keyed c by (auto simp: keyed_table_def decision_ok_def c')
  then have "keyed_table wd_id decision_ok n' (replace_row wd_id c' cs)"
    using keyed_table_mono [OF keyed_table_update [OF keyed c(1)] \<open>n \<le> n'\<close>] by (simp add: c')
  moreover have "succession (replace_row wd_id c' cs)"
    by (rule succession_update [OF succ _ c(1)])
      (use keyed in \<open>simp_all add: keyed_table_def same_succession_def in_force_def c'\<close>)
  moreover have "versions_of (wd_id y) (vs @ [v]) = [1..wd_current_version y]" if "y \<in> set (replace_row wd_id c' cs)" for y
  proof -
    have "versions_of (wd_id c) vs = [1..wd_current_version c]" "1 \<le> wd_current_version c"
      using ok c(1) by (auto simp: decisions_ok_def keyed_table_def decision_ok_def)
    then have "versions_of (wd_id c) (vs @ [v]) = [1..wd_current_version c + 1]"
      by (simp add: versions_of_def v upto_rec2)
    then show ?thesis using that ok by (auto simp: mem_replace_row_iff c' v decisions_ok_def versions_of_other)
  qed
  moreover have "wd_id c < n'" using keyed c(1) \<open>n \<le> n'\<close> by (auto simp: keyed_table_def)
  then have "\<forall>w \<in> set (vs @ [v]). dv_decision_id w < n'"
    using ok \<open>n \<le> n'\<close> by (auto simp: decisions_ok_def v)
  ultimately show ?thesis by (simp add: decisions_ok_def)
qed

lemma decision_ok_decided:
  "decision_ok c \<Longrightarrow> decision_ok (c\<lparr>wd_status := t, wd_decided_by := Some u, wd_decided_at := Some a, wd_updated_at := b\<rparr>)
     \<longleftrightarrow> t \<noteq> Decision_PROPOSED"
  by (auto simp: decision_ok_def)

text \<open>What a rewrite of the rows has to keep when no content changes.\<close>

lemma decisions_ok_rows:
  assumes "decisions_ok n cs vs" and "keyed_table wd_id decision_ok n cs'" and "succession cs'"
    and "\<And>c'. c' \<in> set cs' \<Longrightarrow> \<exists>c \<in> set cs. wd_id c' = wd_id c \<and> wd_current_version c' = wd_current_version c"
  shows "decisions_ok n cs' vs"
  using assms unfolding decisions_ok_def by metis

lemma decisions_ok_decide:
  assumes ok: "decisions_ok (next_id d) (t_decisions d) vs" and c: "c \<in> set (t_decisions d)" "wd_status c = Decision_PROPOSED"
    and target: "target \<in> {Decision_ACCEPTED, Decision_REJECTED}"
    and c': "c' = c\<lparr>wd_status := target, wd_decided_by := Some u, wd_decided_at := Some a, wd_updated_at := b\<rparr>"
    and cs: "after_superseding p now c (if target = Decision_ACCEPTED then wd_supersedes_decision_id c else None) d cs"
  shows "decisions_ok (next_id d) (replace_row wd_id c' cs) vs"
proof -
  let ?cs = "t_decisions d"
  have keyed: "keyed_table wd_id decision_ok (next_id d) ?cs" and succ: "succession ?cs" using ok by (simp_all add: decisions_ok_def)
  have dist: "distinct (map wd_id ?cs)" using keyed by (simp add: keyed_table_def)
  have okc: "decision_ok c'" using decision_ok_decided keyed c target by (auto simp: keyed_table_def c')
  have same: "same_succession c c'" using c by (simp add: same_succession_def in_force_def c')
  show ?thesis
  proof (cases "if target = Decision_ACCEPTED then wd_supersedes_decision_id c else None")
    case None
    then have cs: "cs = ?cs" using cs by (simp add: after_superseding_def)
    have "succession (replace_row wd_id c' ?cs)"
      using None target c
      by (intro succession_update [OF succ dist c(1) same]) (auto simp: in_force_def c')
    then show ?thesis
      unfolding cs using c
      by (intro decisions_ok_rows [OF ok] keyed_table_update [OF keyed c(1) _ okc]) (auto simp: mem_replace_row_iff c')
  next
    case (Some s)
    then obtain c0 where c0: "c0 \<in> set ?cs" "wd_id c0 = s" "wd_status c0 = Decision_ACCEPTED"
        "cs = replace_row wd_id (c0\<lparr>wd_status := Decision_SUPERSEDED, wd_updated_at := now\<rparr>) ?cs"
      using cs by (auto simp: after_superseding_def replaceable_def writable_decision_def)
    let ?c0 = "c0\<lparr>wd_status := Decision_SUPERSEDED, wd_updated_at := now\<rparr>"
    have acc: "target = Decision_ACCEPTED" "wd_supersedes_decision_id c = Some (wd_id c0)"
      using Some c0(2) by (auto split: if_splits)
    have "wd_id c \<noteq> wd_id c0" using c c0 dist by (metis distinct_map inj_onD workspace_decision_status.distinct(1))
    then have mem: "c \<in> set cs" using c(1) by (simp add: c0(4) replace_row_other_mem)
    have "decision_ok ?c0" using keyed c0(1,3) by (auto simp: keyed_table_def decision_ok_def)
    then have "keyed_table wd_id decision_ok (next_id d) cs"
      using keyed_table_update [OF keyed c0(1), of ?c0] c0(4) by simp
    from keyed_table_update [where key = wd_id, OF this mem _ okc]
    have "keyed_table wd_id decision_ok (next_id d) (replace_row wd_id c' cs)" by (simp add: c')
    moreover have "succession (replace_row wd_id c' cs)"
      unfolding c0(4)
      by (rule succession_accept [OF succ dist c(1) c0(1) acc(2) c(2) c0(3) same])
        (use acc c0(3) in \<open>simp_all add: c' same_succession_def in_force_def\<close>)
    moreover have "\<exists>y \<in> set ?cs. wd_id z = wd_id y \<and> wd_current_version z = wd_current_version y"
      if "z \<in> set (replace_row wd_id c' cs)" for z
      using that c c0 by (auto simp: mem_replace_row_iff c')
    ultimately show ?thesis by (rule decisions_ok_rows [OF ok])
  qed
qed

subsection \<open>Every request keeps it\<close>

lemma decided_inv:
  assumes inv: "collaboration_inv d" and "decision_decided clk p did m target d cv d'" and n: "next_id d \<le> next_id d'"
  shows "collaboration_inv d'"
proof -
  obtain c cs where c: "c \<in> set (t_decisions d)" "wd_status c = Decision_PROPOSED" "target \<in> {Decision_ACCEPTED, Decision_REJECTED}"
      "fst cv = c\<lparr>wd_status := target, wd_decided_by := Some (p_id p), wd_decided_at := Some (clk 0), wd_updated_at := clk 4\<rparr>"
      "after_superseding p (clk 1) c (if target = Decision_ACCEPTED then wd_supersedes_decision_id c else None) d cs"
      and b: "business d' = business (d\<lparr>t_decisions := replace_row wd_id (fst cv) cs\<rparr>)"
    using assms(2) unfolding decision_decided_def writable_decision_def by blast
  have "decisions_ok (next_id d) (replace_row wd_id (fst cv) cs) (t_decision_versions d)"
    using inv by (intro decisions_ok_decide [OF _ c]) (simp add: collaboration_inv_def)
  then show ?thesis
    using inv n by (auto simp: collaboration_inv_def business_tables(8-10) [OF b] intro: keyed_table_mono decisions_ok_mono)
qed

lemma collaborated_inv:
  assumes inv: "collaboration_inv d" and "collaborated q d d'"
  shows "collaboration_inv d'"
proof -
  note split = collaboration_inv_def
  have tasks: "keyed_table wt_id task_ok (next_id d) (t_tasks d)"
    and decisions: "decisions_ok (next_id d) (t_decisions d) (t_decision_versions d)"
    using inv by (simp_all add: split)
  show ?thesis
  proof (cases "cq_call q")
    case (CreateTask wid r)
    with assms(2) obtain ws where n: "next_id d < next_id d'"
        and b: "business d' = business (d\<lparr>t_tasks := t_tasks d @ [new_task (next_id d) (cq_principal q) ws r (cq_clock q 0)]\<rparr>)"
      by (auto simp: collaborated_def Let_def)
    show ?thesis
      using n decisions keyed_table_insert [OF tasks _ new_task_ok n]
      by (auto simp: split business_tables(8-10) [OF b] new_task_def intro: decisions_ok_mono)
  next
    case (UpdateTask tid r)
    with assms(2) obtain t' where u: "task_updated (cq_clock q) (cq_principal q) tid r d t' d'" and n: "next_id d \<le> next_id d'"
      by (auto simp: collaborated_def Let_def)
    then obtain t where t: "t \<in> set (t_tasks d)" "t' = (apply_fields r (cq_clock q 0) t)\<lparr>wt_version := wt_version t + 1, wt_updated_at := cq_clock q 1\<rparr>"
        and b: "business d' = business (d\<lparr>t_tasks := replace_row wt_id t' (t_tasks d)\<rparr>)"
      unfolding task_updated_def by blast
    have "task_ok t'" using tasks t updated_task_ok by (auto simp: keyed_table_def)
    then show ?thesis
      using n decisions keyed_table_update [OF tasks t(1), of t'] t(2)
      by (auto simp: split business_tables(8-10) [OF b] intro: keyed_table_mono decisions_ok_mono)
  next
    case (CreateDecision wid content run s)
    with assms(2) obtain cv where u: "decision_created (cq_ext q) (cq_clock q) (cq_principal q) wid content run s d cv d'"
        and n: "next_id d + 1 < next_id d'"
      by (auto simp: collaborated_def Let_def)
    then obtain ws where ws: "ws_id ws = wid" "\<forall>i. s = Some i \<longrightarrow> (\<exists>c0. replaceable (cq_principal q) d wid i c0)"
        "fst cv = new_decision (next_id d) (cq_principal q) ws run s (cq_clock q 0)"
        "snd cv = new_decision_version (cq_ext q) (next_id d + 1) (cq_principal q) (next_id d) 1 content (cq_clock q 1)"
        and b: "business d' = business (d\<lparr>t_decisions := t_decisions d @ [fst cv], t_decision_versions := t_decision_versions d @ [snd cv]\<rparr>)"
      unfolding decision_created_def by blast
    have "next_id d < next_id d'" using n by simp
    then have "decisions_ok (next_id d') (t_decisions d @ [fst cv]) (t_decision_versions d @ [snd cv])"
      using ws(1,2)
      by (intro decisions_ok_create [OF decisions ws(3,4)])
        (auto simp: replaceable_def writable_decision_def in_force_def)
    then show ?thesis
      using n tasks by (auto simp: split business_tables(8-10) [OF b] intro: keyed_table_mono)
  next
    case (ReviseDecision did m content)
    with assms(2) obtain cv where u: "decision_revised (cq_ext q) (cq_clock q) (cq_principal q) did m content d cv d'"
        and n: "next_id d < next_id d'"
      by (auto simp: collaborated_def Let_def)
    then obtain c where c: "c \<in> set (t_decisions d)" "wd_status c = Decision_PROPOSED" "wd_id c = did" "wd_current_version c = m"
        "fst cv = c\<lparr>wd_current_version := m + 1, wd_updated_at := cq_clock q 1\<rparr>"
        "snd cv = new_decision_version (cq_ext q) (next_id d) (cq_principal q) did (m + 1) content (cq_clock q 0)"
        and b: "business d' = business (d\<lparr>t_decisions := replace_row wd_id (fst cv) (t_decisions d), t_decision_versions := t_decision_versions d @ [snd cv]\<rparr>)"
      unfolding decision_revised_def writable_decision_def by blast
    have "decisions_ok (next_id d') (replace_row wd_id (fst cv) (t_decisions d)) (t_decision_versions d @ [snd cv])"
      using c n by (intro decisions_ok_revise [OF decisions c(1,2)]) auto
    then show ?thesis
      using n tasks by (auto simp: split business_tables(8-10) [OF b] intro: keyed_table_mono)
  next
    case (AcceptDecision did m)
    then show ?thesis using decided_inv [OF inv] assms(2) by (auto simp: collaborated_def Let_def)
  next
    case (RejectDecision did m)
    then show ?thesis using decided_inv [OF inv] assms(2) by (auto simp: collaborated_def Let_def)
  qed
qed

lemma collaborate_inv: "collaboration_inv d \<Longrightarrow> collaborate q d = (v, d') \<Longrightarrow> collaboration_inv d'"
  by (cases v) (auto dest: collaborate_Inl collaborate_Inr collaborated_inv)

section \<open>Versions are chains\<close>

fun task_target :: "collaboration_call \<Rightarrow> uuid option" where
  "task_target (UpdateTask tid r) = Some tid"
| "task_target _ = None"

fun revision_target :: "collaboration_call \<Rightarrow> uuid option" where
  "revision_target (ReviseDecision did n c) = Some did"
| "revision_target _ = None"

fun call_version :: "collaboration_call \<Rightarrow> int" where
  "call_version (UpdateTask tid r) = utr_expected_version r"
| "call_version (ReviseDecision did n c) = n"
| "call_version (AcceptDecision did n) = n"
| "call_version (RejectDecision did n) = n"
| "call_version _ = 0"

definition task_version :: "uuid \<Rightarrow> db \<Rightarrow> int option" where
  "task_version i d = row_standing wt_id wt_version i (t_tasks d)"

definition decision_version :: "uuid \<Rightarrow> db \<Rightarrow> int option" where
  "decision_version i d = row_standing wd_id wd_current_version i (t_decisions d)"

lemma row_standing_append: "row_standing key st i rs = Some n \<Longrightarrow> row_standing key st i (rs @ [r]) = Some n"
  by (induction rs) (auto simp: row_standing_def split: if_splits)

text \<open>An update of row \<open>r0\<close> by \<open>r\<close>, seen from the version column.\<close>

lemma row_standing_update:
  assumes "distinct (map key rs)" and "r0 \<in> set rs" and "key r = key r0"
  shows "row_standing key st i (replace_row key r rs) = (if i = key r0 then Some (st r) else row_standing key st i rs)"
  using row_standing_mem [OF assms(1,2), of st] assms(3) by (simp add: row_standing_replace)

interpretation task_chain: versioned_record collaborate "\<lambda>q. task_target (cq_call q)" "\<lambda>q. call_version (cq_call q)"
  task_version collaboration_inv
proof unfold_locales
  show "collaboration_inv d \<Longrightarrow> collaborate q d = (v, d') \<Longrightarrow> collaboration_inv d'" for d q v d'
    by (rule collaborate_inv)
  show "collaborate q d = (Inl e, d') \<Longrightarrow> task_version i d' = task_version i d" for d q e d' i
    by (auto dest: collaborate_Inl)
  have update: "\<exists>t t'. t \<in> set (t_tasks d) \<and> wt_id t = tid \<and> wt_version t = utr_expected_version r \<and> wt_id t' = tid
      \<and> wt_version t' = wt_version t + 1 \<and> t_tasks d' = replace_row wt_id t' (t_tasks d)"
    if s: "collaborated q d d'" and q: "cq_call q = UpdateTask tid r" for q d d' tid r
  proof -
    obtain t' where "task_updated (cq_clock q) (cq_principal q) tid r d t' d'"
      using s q by (auto simp: collaborated_def Let_def)
    then obtain t where t: "t \<in> set (t_tasks d)" "wt_id t = tid" "wt_version t = utr_expected_version r"
        "t' = (apply_fields r (cq_clock q 0) t)\<lparr>wt_version := wt_version t + 1, wt_updated_at := cq_clock q 1\<rparr>"
        and b: "business d' = business (d\<lparr>t_tasks := replace_row wt_id t' (t_tasks d)\<rparr>)"
      unfolding task_updated_def by blast
    then show ?thesis using business_tables(8) [OF b] by (intro exI [of _ t] exI [of _ t']) simp
  qed
  show "task_version i d = Some (call_version (cq_call q)) \<and> task_version i d' = Some (call_version (cq_call q) + 1)"
    if inv: "collaboration_inv d" and s: "collaborate q d = (Inr u, d')" and q: "task_target (cq_call q) = Some i" for d q u d' i
  proof -
    obtain r where q: "cq_call q = UpdateTask i r" using q by (cases "cq_call q") auto
    obtain t t' where t: "t \<in> set (t_tasks d)" "wt_id t = i" "wt_version t = utr_expected_version r" "wt_id t' = i"
        "wt_version t' = wt_version t + 1" "t_tasks d' = replace_row wt_id t' (t_tasks d)"
      using update [OF collaborate_Inr [OF s] q] by blast
    have "distinct (map wt_id (t_tasks d))" using inv by (simp add: collaboration_inv_def keyed_table_def)
    then show ?thesis
      using row_standing_update [of wt_id "t_tasks d" t t' wt_version i] row_standing_mem [of wt_id "t_tasks d" t wt_version] t q
      by (simp add: task_version_def)
  qed
  show "task_version i d' = Some n"
    if inv: "collaboration_inv d" and s: "collaborate q d = (Inr u, d')" and q: "task_target (cq_call q) \<noteq> Some i"
      and n: "task_version i d = Some n" for d q u d' i n
  proof (cases "cq_call q")
    case (UpdateTask tid r)
    have "distinct (map wt_id (t_tasks d))" using inv by (simp add: collaboration_inv_def keyed_table_def)
    then show ?thesis
      using update [OF collaborate_Inr [OF s] UpdateTask] q n UpdateTask
      by (auto simp: task_version_def row_standing_replace)
  next
    case (CreateTask wid r)
    then show ?thesis using collaborate_Inr [OF s] n
      by (auto simp: collaborated_def Let_def task_version_def dest!: business_tables(8) intro: row_standing_append)
  qed (use collaborate_Inr [OF s] n in \<open>auto simp: collaborated_def Let_def task_version_def decision_created_def
      decision_revised_def decision_decided_def dest!: business_tables(8)\<close>)
qed

text \<open>Every call but a revision leaves the current versions of the decisions as they are.\<close>

lemma decided_versions:
  assumes inv: "collaboration_inv d" and "decision_decided clk p did m target d cv d'"
  shows "decision_version i d' = decision_version i d"
proof -
  obtain c cs where c: "c \<in> set (t_decisions d)" "wd_status c = Decision_PROPOSED"
      "fst cv = c\<lparr>wd_status := target, wd_decided_by := Some (p_id p), wd_decided_at := Some (clk 0), wd_updated_at := clk 4\<rparr>"
      "after_superseding p (clk 1) c (if target = Decision_ACCEPTED then wd_supersedes_decision_id c else None) d cs"
      and b: "business d' = business (d\<lparr>t_decisions := replace_row wd_id (fst cv) cs\<rparr>)"
    using assms(2) unfolding decision_decided_def writable_decision_def by blast
  have dist: "distinct (map wd_id (t_decisions d))"
    using inv by (simp add: collaboration_inv_def decisions_ok_def keyed_table_def)
  note same = row_standing_mem [OF dist, where status = wd_current_version]
  have cs: "row_standing wd_id wd_current_version j cs = decision_version j d" for j
    using c(4) same
    by (auto simp: after_superseding_def replaceable_def writable_decision_def decision_version_def row_standing_replace
        split: option.splits)
  have "decision_version (wd_id c) d = Some (wd_current_version c)" using same [OF c(1)] by (simp add: decision_version_def)
  then show ?thesis
    using business_tables(9) [OF b] c(3) cs by (auto simp: decision_version_def row_standing_replace)
qed

lemma revised_versions:
  assumes "collaboration_inv d" and "decision_revised x clk p did n content d cv d'"
  shows "decision_version did d = Some n \<and> decision_version did d' = Some (n + 1)
     \<and> (\<forall>i. i \<noteq> did \<longrightarrow> decision_version i d' = decision_version i d)"
proof -
  obtain c where c: "c \<in> set (t_decisions d)" "wd_id c = did" "wd_current_version c = n"
      "fst cv = c\<lparr>wd_current_version := n + 1, wd_updated_at := clk 1\<rparr>"
      and b: "business d' = business (d\<lparr>t_decisions := replace_row wd_id (fst cv) (t_decisions d), t_decision_versions := t_decision_versions d @ [snd cv]\<rparr>)"
    using assms(2) unfolding decision_revised_def writable_decision_def by blast
  have dist: "distinct (map wd_id (t_decisions d))"
    using assms(1) by (simp add: collaboration_inv_def decisions_ok_def keyed_table_def)
  then show ?thesis
    using row_standing_mem [OF dist c(1), of wd_current_version] c business_tables(9) [OF b]
    by (auto simp: decision_version_def row_standing_replace)
qed

interpretation revision_chain: versioned_record collaborate "\<lambda>q. revision_target (cq_call q)" "\<lambda>q. call_version (cq_call q)"
  decision_version collaboration_inv
proof unfold_locales
  show "collaboration_inv d \<Longrightarrow> collaborate q d = (v, d') \<Longrightarrow> collaboration_inv d'" for d q v d'
    by (rule collaborate_inv)
  show "collaborate q d = (Inl e, d') \<Longrightarrow> decision_version i d' = decision_version i d" for d q e d' i
    by (auto dest: collaborate_Inl)
  show "decision_version i d = Some (call_version (cq_call q)) \<and> decision_version i d' = Some (call_version (cq_call q) + 1)"
    if inv: "collaboration_inv d" and s: "collaborate q d = (Inr u, d')" and q: "revision_target (cq_call q) = Some i" for d q u d' i
  proof -
    obtain n c where "cq_call q = ReviseDecision i n c" using q by (cases "cq_call q") auto
    then show ?thesis using collaborate_Inr [OF s] revised_versions [OF inv] by (fastforce simp: collaborated_def Let_def)
  qed
  show "decision_version i d' = Some n"
    if inv: "collaboration_inv d" and s: "collaborate q d = (Inr u, d')" and q: "revision_target (cq_call q) \<noteq> Some i"
      and n: "decision_version i d = Some n" for d q u d' i n
    using collaborate_Inr [OF s]
  proof (cases "cq_call q")
    case (ReviseDecision did m c)
    then show ?thesis
      using collaborate_Inr [OF s] revised_versions [OF inv] q n by (fastforce simp: collaborated_def Let_def)
  next
    case (CreateDecision wid c run sup)
    then show ?thesis using collaborate_Inr [OF s] n
      by (auto simp: collaborated_def Let_def decision_version_def decision_created_def dest!: business_tables(9)
          intro: row_standing_append)
  qed (use collaborate_Inr [OF s] n decided_versions [OF inv] in \<open>auto simp: collaborated_def Let_def
      decision_version_def task_updated_def dest!: business_tables(9)\<close>)
qed

section \<open>Contents are immutable\<close>

lemma collaborate_versions: "collaborate q d = (v, d') \<Longrightarrow> \<exists>vs. t_decision_versions d' = t_decision_versions d @ vs"
proof (cases v)
  case (Inr u)
  assume "collaborate q d = (v, d')"
  then have "collaborated q d d'" using Inr collaborate_Inr by simp
  then show ?thesis
    by (cases "cq_call q") (fastforce simp: collaborated_def Let_def task_updated_def decision_created_def
        decision_revised_def decision_decided_def dest!: business_tables(10))+
qed (auto dest: collaborate_Inl)

section \<open>A sample board\<close>

definition board_ext :: ext where
  "board_ext = open_ext [''workspace_task.updated'', ''workspace_decision.superseded'', ''workspace_decision.accepted'',
     ''workspace_decision.revised''] []"

definition open_task :: workspace_task_row where
  "open_task = \<lparr>wt_id = 50, wt_organization_id = 1, wt_workspace_id = 5, wt_title = ''t'', wt_description = [],
     wt_status = Task_OPEN, wt_priority = Priority_NORMAL, wt_assignee_id = None, wt_created_by = 8,
     wt_source_run_id = None, wt_due_at = None, wt_completed_at = None, wt_version = 3, wt_updated_at = 0\<rparr>"

definition accepted_decision :: workspace_decision_row where
  "accepted_decision = \<lparr>wd_id = 60, wd_organization_id = 1, wd_workspace_id = 5, wd_status = Decision_ACCEPTED,
     wd_current_version = 1, wd_created_by = 8, wd_decided_by = Some 8, wd_source_run_id = None,
     wd_supersedes_decision_id = None, wd_decided_at = Some 0, wd_updated_at = 0\<rparr>"

definition proposed_decision :: workspace_decision_row where
  "proposed_decision = accepted_decision\<lparr>wd_id := 62, wd_status := Decision_PROPOSED, wd_decided_by := None,
     wd_supersedes_decision_id := Some 60, wd_decided_at := None\<rparr>"

definition first_version :: "uuid \<Rightarrow> uuid \<Rightarrow> workspace_decision_version_row" where
  "first_version i did = \<lparr>dv_id = i, dv_organization_id = 1, dv_decision_id = did, dv_version = 1, dv_title = ''t'',
     dv_summary = ''s'', dv_rationale = ''r'', dv_alternatives = [], dv_created_by = 8,
     dv_checksum_sha256 = ''h'', dv_created_at = 0\<rparr>"

definition board_db :: db where
  "board_db = empty_db\<lparr>t_workspaces := [sample_workspace 5 1 8], t_tasks := [open_task],
     t_decisions := [accepted_decision, proposed_decision],
     t_decision_versions := [first_version 61 60, first_version 63 62]\<rparr>"

definition board_request :: "collaboration_call \<Rightarrow> collaboration_request" where
  "board_request c = \<lparr>cq_ext = board_ext, cq_clock = (\<lambda>_. 9), cq_principal = sample_principal 8 [], cq_call = c\<rparr>"

definition raise_priority :: "int \<Rightarrow> update_task_request" where
  "raise_priority n = \<lparr>utr_expected_version = n, utr_title = None, utr_description = None, utr_status = Some (Some Task_COMPLETED),
     utr_priority = Some (Some Priority_HIGH), utr_assignee_id = None, utr_due_at = None\<rparr>"

lemma board_inv: "collaboration_inv board_db"
  by (simp add: collaboration_inv_def board_db_def empty_db_def keyed_table_def open_task_def task_ok_def decisions_ok_def
      accepted_decision_def proposed_decision_def decision_ok_def succession_def successor_of_def in_force_def
      versions_of_def first_version_def)

lemma found_returns:
  "find P (f d) = Some t \<Longrightarrow> require_workspace_access p (wid t) w d = (Inr ws, d) \<Longrightarrow>
     andthen (reads (\<lambda>d. find P (f d))) (\<lambda>found. andthen (from_some e found) (\<lambda>t.
       andthen (require_workspace_access p (wid t) w) (\<lambda>ws. ret (t, ws)))) d = (Inr (t, ws), d)"
  by (auto simp: andthen_Inr)

lemma board_access: "require_workspace_access (sample_principal 8 []) 5 w board_db = (Inr (sample_workspace 5 1 8), board_db)"
  by (simp add: require_workspace_access_def op_simps board_db_def empty_db_def sample_principal_def sample_workspace_def
      workspace_access_clause_def can_def)

lemma board_find_task: "find_task (sample_principal 8 []) 50 True board_db = (Inr (open_task, sample_workspace 5 1 8), board_db)"
  unfolding find_task_def
  by (rule found_returns) (simp_all only: board_access open_task_def workspace_task_row.select_convs,
      simp add: board_db_def open_task_def sample_principal_def)

lemma board_find_decision:
  "find_decision (sample_principal 8 []) 60 True board_db = (Inr (accepted_decision, sample_workspace 5 1 8), board_db)"
  "find_decision (sample_principal 8 []) 62 True board_db = (Inr (proposed_decision, sample_workspace 5 1 8), board_db)"
  unfolding find_decision_def
  by (rule found_returns; (simp only: board_access accepted_decision_def proposed_decision_def workspace_decision_row.simps)?;
      simp add: board_db_def accepted_decision_def proposed_decision_def sample_principal_def)+

lemma board_accepts: "accepts board_ext [''workspace_task.updated'', ''workspace_decision.superseded'', ''workspace_decision.accepted'',
     ''workspace_decision.revised'']"
  by (auto simp: accepts_def board_ext_def open_ext_def)

lemma board_task_updated:
  "succeeds (collaborate (board_request (UpdateTask 50 (raise_priority 3)))) (\<lambda>_ _. True) board_db"
proof -
  let ?p = "sample_principal 8 []" and ?ws = "sample_workspace 5 1 8" and ?d = "board_db"
  have valid: "valid_update_task (raise_priority 3)" by (simp add: valid_update_task_def raise_priority_def supplied_ok_def)
  have edits: "edit_fields ?p ?ws (raise_priority 3) 9 open_task ?d =
      (Inr ((open_task\<lparr>wt_priority := Priority_HIGH, wt_status := Task_COMPLETED, wt_completed_at := Some 9\<rparr>,
             [''priority'', ''status'', ''completed_at'']),
            [(''previous_status'', JStr ''OPEN''), (''status'', JStr ''COMPLETED'')]), ?d)"
    by (simp add: edit_fields_def edit_title_def edit_description_def edit_priority_def edit_assignee_def edit_due_at_def
        edit_status_def edit_required_def edit_def op_simps raise_priority_def open_task_def Let_def validate_task_transition_def
        from_sum_def)
  have "succeeds (update_task board_ext (\<lambda>_. 9) ?p 50 (raise_priority 3)) (\<lambda>_ _. True) ?d"
    unfolding update_task_def
    apply (rule succeeds_then, rule board_find_task, simp only: prod.case)
    apply (rule succeeds_then [where x = "()"])
     apply (simp add: check_version_def require_def ret_def open_task_def raise_priority_def)
    apply (rule succeeds_then, rule edits, simp only: prod.case fst_conv snd_conv Let_def)
    apply (rule succeeds_then [where x = "()"], simp add: require_def ret_def)
    apply (rule succeeds_then [where x = "()"])
     apply (simp add: check_title_def require_def ret_def open_task_def strip_chars_def)
    apply (rule succeeds_then [where x = "()"], simp add: put_task_def modify_def)
    apply (rule succeeds_andthen, rule succeeds_conseq, rule record_change_succeeds [OF board_accepts])
    apply (simp_all add: board_db_def empty_db_def open_task_def succeeds_ret)
    done
  then show ?thesis
    using valid by (auto simp: succeeds_def collaborate_def discard_Inr board_request_def update_workspace_task_def
        guarded_transaction_Inr)
qed

text \<open>All event heads belong to one organization.\<close>

definition own_heads :: "uuid \<Rightarrow> db \<Rightarrow> bool" where
  "own_heads org d \<longleftrightarrow> (\<forall>h \<in> set (t_heads d). ah_organization_id h = org)"

lemma append_event_own_heads:
  "append_event x now dr d = (v, d') \<Longrightarrow> own_heads (ed_organization_id dr) d \<Longrightarrow> own_heads (ed_organization_id dr) d'"
  by (drule append_event_heads) (auto simp: own_heads_def bump_head_def split: if_splits)

lemma returns_append_heads:
  "own_heads (ed_organization_id dr) d \<Longrightarrow> (\<And>e d'. own_heads (ed_organization_id dr) d' \<Longrightarrow> Q e d')
     \<Longrightarrow> returns (append_event x now dr) Q d"
  by (auto simp: returns_def dest: append_event_own_heads)

lemma succeeds_own_heads:
  assumes "succeeds (record_change x clk p ws en aa ag agg run payload corr) P d" and "own_heads (p_organization_id p) d"
  shows "succeeds (record_change x clk p ws en aa ag agg run payload corr) (\<lambda>_. own_heads (p_organization_id p)) d"
proof -
  have "returns (record_change x clk p ws en aa ag agg run payload corr) (\<lambda>_. own_heads (p_organization_id p)) d"
    unfolding record_change_def
    by (intro returns_intros returns_new_id; intro returns_append_heads;
        use assms(2) in \<open>auto simp: returns_def andthen_Inr write_audit_iff own_heads_def EventDraft_def\<close>)
  then show ?thesis using assms(1) by (auto simp: succeeds_def returns_def)
qed

lemma board_decision_accepted:
  "succeeds (collaborate (board_request (AcceptDecision 62 1))) (\<lambda>_ _. True) board_db"
proof -
  let ?p = "sample_principal 8 []" and ?d = "board_db" and ?clk = "\<lambda>_. 9 :: time"
  let ?bumped = "board_db\<lparr>next_id := next_id board_db + 1\<rparr>"
  have again: "find_decision ?p 60 True ?bumped = (Inr (accepted_decision, sample_workspace 5 1 8), ?bumped)"
    unfolding find_decision_def
    by (rule found_returns, simp add: board_db_def accepted_decision_def sample_principal_def)
      (simp add: require_workspace_access_def op_simps board_db_def empty_db_def sample_principal_def sample_workspace_def
        workspace_access_clause_def can_def accepted_decision_def)
  have superseded: "succeeds (supersede board_ext ?clk ?p proposed_decision (sample_workspace 5 1 8) i 60)
      (\<lambda>_. own_heads (p_organization_id ?p)) ?bumped" for i
    unfolding supersede_def
    apply (rule succeeds_then, rule again, simp only: prod.case)
    apply (rule succeeds_then [where x = "()"])
     apply (simp add: require_def ret_def accepted_decision_def proposed_decision_def)
    apply (rule succeeds_then [where x = "()"])
     apply (simp add: from_sum_def ret_def accepted_decision_def validate_decision_transition_def)
    apply (rule succeeds_then [where x = "()"], simp add: put_decision_def modify_def)
    apply (rule succeeds_own_heads [OF record_change_succeeds [OF board_accepts]])
    apply (simp_all add: board_db_def empty_db_def accepted_decision_def own_heads_def sample_principal_def)
    done
  have replaced: "wd_supersedes_decision_id proposed_decision = Some 60" by (simp add: proposed_decision_def)
  have later: "later n ?clk = ?clk" for n by (rule ext) (simp add: later_def)
  have "succeeds (decide_decision board_ext ?clk ?p 62 1 Decision_ACCEPTED) (\<lambda>_ _. True) ?d"
    unfolding decide_decision_def
    apply (rule succeeds_then [where x = "()"], simp add: require_def ret_def)
    apply (rule succeeds_then, rule board_find_decision(2), simp only: prod.case)
    apply (rule succeeds_then [where x = "()"])
     apply (simp add: check_version_def require_def ret_def accepted_decision_def proposed_decision_def)
    apply (rule succeeds_then [where x = "()"])
     apply (simp add: from_sum_def ret_def accepted_decision_def proposed_decision_def validate_decision_transition_def)
    apply (rule succeeds_then, simp)
    apply (rule succeeds_andthen, rule succeeds_conseq, rule succeeds_returns [OF _ superseding_effect])
      apply (simp add: when_some_def replaced later)
      apply (rule superseded)
    apply (simp only: Let_def simp_thms if_True, elim conjE exE, drule business_tables(10))
    apply (rule succeeds_then [where x = "()"], simp add: put_decision_def modify_def)
    apply (rule succeeds_then, simp add: reads_def)
    apply (rule succeeds_then [where x = "first_version 63 62"])
     apply (simp add: from_some_def ret_def current_version_def board_db_def first_version_def proposed_decision_def
        accepted_decision_def)
    apply (rule succeeds_andthen, rule succeeds_conseq, rule record_change_succeeds [OF board_accepts])
    apply (auto simp: proposed_decision_def accepted_decision_def own_heads_def succeeds_ret dest: find_SomeD)
    done
  then show ?thesis
    by (auto simp: succeeds_def collaborate_def discard_Inr board_request_def decide_workspace_decision_def guarded_transaction_Inr)
qed

definition new_content :: decision_content where
  "new_content = \<lparr>dc_title = ''u'', dc_summary = ''s'', dc_rationale = ''r'', dc_alternatives = []\<rparr>"

lemma board_decision_revised:
  "succeeds (collaborate (board_request (ReviseDecision 62 1 new_content))) (\<lambda>_ _. True) board_db"
proof -
  let ?p = "sample_principal 8 []"
  have proposed: "wd_id proposed_decision = 62" "wd_current_version proposed_decision = 1" "wd_status proposed_decision = Decision_PROPOSED"
    "wd_source_run_id proposed_decision = None" by (simp_all add: proposed_decision_def accepted_decision_def)
  define version where "version = new_decision_version board_ext (next_id board_db) ?p 62 (1 + 1) new_content 9"
  have "strip ''u'' = ''u''" "redact_text ''u'' = ''u''" by code_simp+
  then have title: "dv_title version = ''u''" by (simp add: version_def new_decision_version_def Let_def new_content_def)
  have changed: "dv_checksum_sha256 version \<noteq> ''h''"
    by (simp add: version_def new_decision_version_def Let_def board_ext_def open_ext_def sha256_hex_def)
  have "succeeds (revise_decision board_ext (\<lambda>_. 9) ?p 62 1 new_content) (\<lambda>_ _. True) board_db"
    unfolding revise_decision_def
    apply (rule succeeds_then, rule board_find_decision(2), simp only: prod.case proposed)
    apply (rule succeeds_then [where x = "()"], simp add: check_version_def require_def ret_def)
    apply (rule succeeds_then [where x = "()"], simp add: require_def ret_def)
    apply (rule succeeds_then, simp add: reads_def)
    apply (rule succeeds_then [where x = "first_version 63 62" and s' = board_db])
     apply (simp add: from_some_def ret_def current_version_def board_db_def first_version_def proposed)
    apply (rule succeeds_then, simp)
    apply (simp only: Let_def version_def [symmetric])
    apply (rule succeeds_then [where x = "()"], simp add: require_def ret_def changed first_version_def)
    apply (rule succeeds_then [where x = "()"], simp add: put_decision_def modify_def)
    apply (rule succeeds_then [where x = "()"])
     apply (simp add: add_decision_version_def check_title_def title op_simps strip_chars_def)
    apply (rule succeeds_andthen, rule succeeds_conseq, rule record_change_succeeds [OF board_accepts])
    apply (simp_all add: board_db_def empty_db_def succeeds_ret)
    done
  then show ?thesis
    by (auto simp: succeeds_def collaborate_def discard_Inr board_request_def revise_workspace_decision_def guarded_transaction_Inr
        valid_decision_content_def new_content_def length_in_def)
qed

section \<open>Properties\<close>

text \<open>
  C27: Whatever requests the collaboration endpoints serve, in whatever order: every task keeps a
  version of at least 1 and a completion time exactly while it is COMPLETED; a decision has a
  decider and a decision time exactly when it is no longer PROPOSED; the versions of its content
  are 1, 2, ... up to the current one, each once; a decision names only an older predecessor of
  its own workspace that was in force; and a decision is SUPERSEDED exactly when one single
  accepted successor replaces it, never two.
\<close>

theorem collaboration_consistent:
  assumes "collaboration_inv d"
  shows "collaboration_inv (snd (answered collaborate qs d))"
  by (rule answered_preserves [where P = collaboration_inv, OF collaborate_inv prod.collapse [symmetric] assms])

theorem collaboration_consistent_witness:
  "collaboration_inv (snd (answered collaborate
     [board_request (UpdateTask 50 (raise_priority 3)), board_request (AcceptDecision 62 1)] board_db))"
  by (rule collaboration_consistent [OF board_inv])

text \<open>
  C28: A task update that is answered did what replacing the supplied fields at once does:
  the row is the old one with every supplied field replaced (titles and descriptions stripped
  and redacted), the version is one more than the version the caller named, something did
  change, the status moved along the table, and no other row of the business tables changed.
\<close>

theorem task_update_is_apply:
  assumes "update_workspace_task x clk p tid r d = (Inr t', d')"
  shows "\<exists>t \<in> set (t_tasks d). wt_id t = tid \<and> wt_organization_id t = p_organization_id p
     \<and> wt_version t = utr_expected_version r \<and> apply_fields r (clk 0) t \<noteq> t
     \<and> (wt_status t' = wt_status t \<or> wt_status t' \<in> set (task_transitions (wt_status t)))
     \<and> t' = (apply_fields r (clk 0) t)\<lparr>wt_version := wt_version t + 1, wt_updated_at := clk 1\<rparr>
     \<and> business d' = business (d\<lparr>t_tasks := replace_row wt_id t' (t_tasks d)\<rparr>)"
  using returnsD [OF update_task_effect] assms
  unfolding update_workspace_task_def guarded_transaction_Inr task_updated_def by blast

theorem task_update_is_apply_witness:
  "\<exists>t' d'. update_workspace_task board_ext (\<lambda>_. 9) (sample_principal 8 []) 50 (raise_priority 3) board_db = (Inr t', d')
     \<and> wt_status t' = Task_COMPLETED \<and> wt_completed_at t' = Some 9 \<and> wt_version t' = 4"
proof -
  obtain t' d' where u: "update_workspace_task board_ext (\<lambda>_. 9) (sample_principal 8 []) 50 (raise_priority 3) board_db = (Inr t', d')"
    using board_task_updated by (auto simp: succeeds_def collaborate_def discard_Inr board_request_def)
  have "t' = (apply_fields (raise_priority 3) 9 open_task)\<lparr>wt_version := 4, wt_updated_at := 9\<rparr>"
    using task_update_is_apply [OF u] by (auto simp: board_db_def open_task_def)
  then show ?thesis using u by (auto simp: apply_fields_def Let_def raise_priority_def open_task_def given_def)
qed

text \<open>
  C29: No task update is lost: among all requests ever served, the successful updates of a task
  were made against the versions n, n+1, ..., each exactly once, starting at the version the
  task had; two updates prepared against the same version are never both accepted.
\<close>

theorem no_lost_task_updates:
  assumes "collaboration_inv d" and "task_version i d = Some n" and "answered collaborate qs d = (as, d')"
  shows "\<exists>m \<ge> n. map (\<lambda>q. call_version (cq_call q)) (filter (\<lambda>q. task_target (cq_call q) = Some i) as) = [n..m - 1]
     \<and> task_version i d' = Some m"
  using task_chain.update_chain [OF assms] by blast

theorem no_lost_task_updates_witness:
  "\<exists>as d'. answered collaborate [board_request (UpdateTask 50 (raise_priority 3)), board_request (UpdateTask 50 (raise_priority 3))] board_db = (as, d')
     \<and> as = [board_request (UpdateTask 50 (raise_priority 3))] \<and> task_version 50 d' = Some 4"
proof -
  let ?q = "board_request (UpdateTask 50 (raise_priority 3))"
  obtain as d' where run: "answered collaborate [?q, ?q] board_db = (as, d')" by fastforce
  then have as: "as = [?q] \<or> as = [?q, ?q]" using board_task_updated by (auto simp: succeeds_def split: prod.splits sum.splits)
  have "task_version 50 board_db = Some 3"
    by (simp add: task_version_def row_standing_def board_db_def open_task_def)
  from no_lost_task_updates [OF board_inv this run]
  obtain m where m: "3 \<le> m" "map (\<lambda>q. call_version (cq_call q)) (filter (\<lambda>q. task_target (cq_call q) = Some 50) as) = [3..m - 1]"
      "task_version 50 d' = Some m" by blast
  have "[3, 3] \<noteq> [3..m - 1]" by (metis distinct_length_2_or_more distinct_upto)
  then have "as = [?q]" using as m(2) by (auto simp: board_request_def raise_priority_def)
  moreover then have "[3] = [3..m - 1]" using m(2) by (simp add: board_request_def raise_priority_def)
  then have "int (length [3..m - 1]) = 1" by (metis length_Cons list.size(3) of_nat_1 One_nat_def)
  then have "m = 4" using m(1) by simp
  ultimately show ?thesis using run m(3) by blast
qed

text \<open>
  C30: The revisions of a decision form the same kind of chain: every accepted revision was made
  against the version that was current, whatever else was served in between, and moves it on by
  one.
\<close>

theorem no_lost_revisions:
  assumes "collaboration_inv d" and "decision_version i d = Some n" and "answered collaborate qs d = (as, d')"
  shows "\<exists>m \<ge> n. map (\<lambda>q. call_version (cq_call q)) (filter (\<lambda>q. revision_target (cq_call q) = Some i) as) = [n..m - 1]
     \<and> decision_version i d' = Some m"
  using revision_chain.update_chain [OF assms] by blast

theorem no_lost_revisions_witness:
  "\<exists>as d'. answered collaborate [board_request (ReviseDecision 62 1 new_content), board_request (ReviseDecision 62 1 new_content)] board_db = (as, d')
     \<and> as = [board_request (ReviseDecision 62 1 new_content)] \<and> decision_version 62 d' = Some 2"
proof -
  let ?q = "board_request (ReviseDecision 62 1 new_content)"
  obtain as d' where run: "answered collaborate [?q, ?q] board_db = (as, d')" by fastforce
  then have as: "as = [?q] \<or> as = [?q, ?q]" using board_decision_revised by (auto simp: succeeds_def split: prod.splits sum.splits)
  have "decision_version 62 board_db = Some 1"
    by (simp add: decision_version_def row_standing_def board_db_def accepted_decision_def proposed_decision_def)
  from no_lost_revisions [OF board_inv this run]
  obtain m where m: "1 \<le> m" "map (\<lambda>q. call_version (cq_call q)) (filter (\<lambda>q. revision_target (cq_call q) = Some 62) as) = [1..m - 1]"
      "decision_version 62 d' = Some m" by blast
  have "[1, 1] \<noteq> [1..m - 1]" by (metis distinct_length_2_or_more distinct_upto)
  then have "as = [?q]" using as m(2) by (auto simp: board_request_def)
  moreover then have "[1] = [1..m - 1]" using m(2) by (simp add: board_request_def)
  then have "int (length [1..m - 1]) = 1" by (metis length_Cons list.size(3) of_nat_1 One_nat_def)
  then have "m = 2" using m(1) by simp
  ultimately show ?thesis using run m(3) by blast
qed

text \<open>
  C31: The content of a decision version is immutable and never deleted: whatever is served, the
  stored versions are those that were there, followed by new ones.
\<close>

theorem decision_contents_immutable:
  "\<exists>vs. t_decision_versions (snd (answered collaborate qs d)) = t_decision_versions d @ vs"
proof (rule answered_preserves [where P = "\<lambda>d'. \<exists>vs. t_decision_versions d' = t_decision_versions d @ vs", OF _ prod.collapse [symmetric]])
  show "\<exists>vs. t_decision_versions d2 = t_decision_versions d @ vs"
    if "\<exists>vs. t_decision_versions d1 = t_decision_versions d @ vs" "collaborate q d1 = (v, d2)" for q d1 v d2
    using that collaborate_versions by fastforce
qed simp

text \<open>
  C32: A decision is accepted or rejected only by someone who may write its workspace, at the
  version they named and only while it is PROPOSED; the answer is the decision with its verdict
  and the content that was current; accepting also supersedes the predecessor it names, which
  has to be ACCEPTED and in the same workspace, and nothing else but the logs changes.
\<close>

theorem decision_decided_effect:
  assumes "decide_workspace_decision x clk p did n target d = (Inr (c', v), d')"
  shows "\<exists>c. writable_decision p d c \<and> wd_id c = did \<and> wd_current_version c = n \<and> wd_status c = Decision_PROPOSED
     \<and> target \<in> {Decision_ACCEPTED, Decision_REJECTED}
     \<and> c' = c\<lparr>wd_status := target, wd_decided_by := Some (p_id p), wd_decided_at := Some (clk 0), wd_updated_at := clk 4\<rparr>
     \<and> v \<in> set (t_decision_versions d) \<and> dv_decision_id v = did \<and> dv_version v = n
     \<and> (if target = Decision_ACCEPTED \<and> wd_supersedes_decision_id c \<noteq> None
        then \<exists>c0. replaceable p d (wd_workspace_id c) (the (wd_supersedes_decision_id c)) c0
           \<and> business d' = business (d\<lparr>t_decisions := replace_row wd_id c' (replace_row wd_id
                (c0\<lparr>wd_status := Decision_SUPERSEDED, wd_updated_at := clk 1\<rparr>) (t_decisions d))\<rparr>)
        else business d' = business (d\<lparr>t_decisions := replace_row wd_id c' (t_decisions d)\<rparr>))"
proof -
  have "decision_decided clk p did n target d (c', v) d'"
    using returnsD [OF decide_decision_effect] assms
    unfolding decide_workspace_decision_def guarded_transaction_Inr by blast
  then obtain c cs where *: "writable_decision p d c" "wd_id c = did" "wd_current_version c = n" "wd_status c = Decision_PROPOSED"
      "target \<in> {Decision_ACCEPTED, Decision_REJECTED}"
      "c' = c\<lparr>wd_status := target, wd_decided_by := Some (p_id p), wd_decided_at := Some (clk 0), wd_updated_at := clk 4\<rparr>"
      "current_version c d = Some v"
      "after_superseding p (clk 1) c (if target = Decision_ACCEPTED then wd_supersedes_decision_id c else None) d cs"
      "business d' = business (d\<lparr>t_decisions := replace_row wd_id c' cs\<rparr>)"
    unfolding decision_decided_def by auto
  then show ?thesis
    by (intro exI [of _ c]) (auto simp: current_version_def after_superseding_def dest!: find_SomeD split: option.splits)
qed

theorem decision_decided_effect_witness:
  "\<exists>c v d'. decide_workspace_decision board_ext (\<lambda>_. 9) (sample_principal 8 []) 62 1 Decision_ACCEPTED board_db = (Inr (c, v), d')
     \<and> wd_decided_by c = Some 8 \<and> map wd_status (t_decisions d') = [Decision_SUPERSEDED, Decision_ACCEPTED]"
proof -
  obtain c v d' where run: "decide_workspace_decision board_ext (\<lambda>_. 9) (sample_principal 8 []) 62 1 Decision_ACCEPTED board_db = (Inr (c, v), d')"
    using board_decision_accepted by (auto simp: succeeds_def collaborate_def discard_Inr board_request_def)
  from decision_decided_effect [OF run] show ?thesis
    using run by (auto simp: writable_decision_def replaceable_def board_db_def accepted_decision_def proposed_decision_def
        replace_row_def sample_principal_def dest!: business_tables(9))
qed

end
