(* ===== verification/RateLimit.thy ===== *)
theory RateLimit
  imports Schema
begin

text \<open>
  \<open>capabilities/rate_limit.py\<close>: the in-memory and the Redis fixed-window limiters behind the
  \<open>CapabilityRateLimiter\<close> protocol. The wall clock is an argument (whole seconds). The locale
  \<open>fixed_window\<close> is the protocol's contract, stated over the number of calls counted for a key
  in a window; both limiters are interpreted, and its lemmas show that along non-decreasing
  times the answers are those of the reference definition \<open>spec_answers\<close>. For Redis the
  interpretation also shows that a window's counter cannot expire before the window ends.
\<close>

section \<open>The limiters\<close>

definition resolve_limit :: "int option \<Rightarrow> int \<Rightarrow> int" where
  "resolve_limit limit dflt = (case limit of Some l \<Rightarrow> if l > 0 then l else dflt | None \<Rightarrow> dflt)"

record window =
  w_number :: int
  w_count :: int

type_synonym memory_limiter = "string \<Rightarrow> window option"

definition memory_allow ::
  "int \<Rightarrow> int \<Rightarrow> string \<Rightarrow> int option \<Rightarrow> int \<Rightarrow> memory_limiter \<Rightarrow> bool \<times> memory_limiter" where
  "memory_allow dflt window_seconds key limit now s =
     (let resolved_limit = resolve_limit limit dflt;
          window_number = now div window_seconds;
          window = (case s key of
                      None \<Rightarrow> \<lparr>w_number = window_number, w_count = 0\<rparr>
                    | Some w \<Rightarrow> if w_number w \<noteq> window_number
                               then \<lparr>w_number = window_number, w_count = 0\<rparr> else w);
          window' = window\<lparr>w_count := w_count window + 1\<rparr>
      in (w_count window' \<le> resolved_limit, s(key \<mapsto> window')))"

definition memory_aclose :: "memory_limiter \<Rightarrow> memory_limiter" where
  "memory_aclose s = Map.empty"

text \<open>
  The Redis database as far as the limiter sees it: a counter and its expiry per key. A key
  past its expiry is absent. The script increments and sets the expiry of a fresh counter.
\<close>

type_synonym redis = "string \<Rightarrow> (int \<times> int) option"

definition redis_get :: "redis \<Rightarrow> int \<Rightarrow> string \<Rightarrow> (int \<times> int) option" where
  "redis_get s now key =
     (case s key of None \<Rightarrow> None | Some (n, e) \<Rightarrow> if now < e then Some (n, e) else None)"

definition redis_script :: "string \<Rightarrow> int \<Rightarrow> int \<Rightarrow> redis \<Rightarrow> int \<times> redis" where
  "redis_script key ttl now s =
     (case redis_get s now key of
        None \<Rightarrow> (1, s(key \<mapsto> (1, now + ttl)))
      | Some (n, e) \<Rightarrow> (n + 1, s(key \<mapsto> (n + 1, e))))"

definition redis_key :: "int \<Rightarrow> string \<Rightarrow> string" where
  "redis_key window_number key = ''obsion:capability-rate:'' @ int_str window_number @ '':'' @ key"

text \<open>
  \<open>available\<close> is whether the call to Redis succeeds; when it does not, the limiter raises
  \<open>RateLimitUnavailable\<close> or, if it is not to fail closed, allows.
\<close>

definition redis_allow ::
  "bool \<Rightarrow> bool \<Rightarrow> int \<Rightarrow> int \<Rightarrow> string \<Rightarrow> int option \<Rightarrow> int \<Rightarrow> redis \<Rightarrow> (err + bool) \<times> redis" where
  "redis_allow fail_closed available dflt window_seconds key limit now s =
     (let resolved_limit = resolve_limit limit dflt;
          window_number = now div window_seconds
      in if \<not> available then
           (if fail_closed
            then Inl (PyError ''RateLimitUnavailable''
                       ''Distributed capability rate limiting is unavailable'')
            else Inr True, s)
         else (let (count, s') = redis_script (redis_key window_number key) (window_seconds + 1) now s
               in (Inr (count \<le> resolved_limit), s')))"

definition redis_answer ::
  "int \<Rightarrow> int \<Rightarrow> string \<Rightarrow> int option \<Rightarrow> int \<Rightarrow> redis \<Rightarrow> bool \<times> redis" where
  "redis_answer dflt window_seconds key limit now s =
     (let (r, s') = redis_allow True True dflt window_seconds key limit now s
      in (r = Inr True, s'))"

section \<open>The contract\<close>

record call =
  c_key :: string
  c_limit :: "int option"
  c_time :: int

text \<open>The number of earlier calls for the key in the window, and the reference answers.\<close>

definition used :: "int \<Rightarrow> call list \<Rightarrow> string \<Rightarrow> int \<Rightarrow> int" where
  "used w hist k n = int (length (filter (\<lambda>c. c_key c = k \<and> c_time c div w = n) hist))"

fun spec_answers :: "int \<Rightarrow> int \<Rightarrow> call list \<Rightarrow> call list \<Rightarrow> bool list" where
  "spec_answers dflt w hist [] = []"
| "spec_answers dflt w hist (c # cs) =
     (used w hist (c_key c) (c_time c div w) < resolve_limit (c_limit c) dflt)
       # spec_answers dflt w (hist @ [c]) cs"

fun answers :: "(string \<Rightarrow> int option \<Rightarrow> int \<Rightarrow> 's \<Rightarrow> bool \<times> 's) \<Rightarrow> call list \<Rightarrow> 's \<Rightarrow> bool list" where
  "answers allow [] s = []"
| "answers allow (c # cs) s =
     (let (b, s') = allow (c_key c) (c_limit c) (c_time c) s in b # answers allow cs s')"

locale fixed_window =
  fixes allow :: "string \<Rightarrow> int option \<Rightarrow> int \<Rightarrow> 's \<Rightarrow> bool \<times> 's"
    and init :: 's and inv :: "'s \<Rightarrow> int \<Rightarrow> bool" and counts :: "'s \<Rightarrow> string \<Rightarrow> int \<Rightarrow> int"
    and dflt w :: int
  assumes positive: "0 < w"
    and init_inv: "inv init t" and init_counts: "counts init k n = 0"
    and inv_later: "inv s t \<Longrightarrow> t \<le> t' \<Longrightarrow> inv s t'"
    and allow_inv: "inv s t \<Longrightarrow> inv (snd (allow k l t s)) t"
    and allow_iff: "inv s t \<Longrightarrow> fst (allow k l t s) \<longleftrightarrow> counts s k (t div w) < resolve_limit l dflt"
    and allow_counts: "inv s t \<Longrightarrow> t div w \<le> n \<Longrightarrow>
      counts (snd (allow k l t s)) k' n = counts s k' n + (if k' = k \<and> n = t div w then 1 else 0)"
begin

lemma answers_spec_from:
  assumes "inv s t" and "\<And>k n. t div w \<le> n \<Longrightarrow> counts s k n = used w hist k n"
    and "sorted (t # map c_time cs)"
  shows "answers allow cs s = spec_answers dflt w hist cs"
  using assms
proof (induction cs arbitrary: s t hist)
  case (Cons c cs)
  let ?t = "c_time c"
  let ?s = "snd (allow (c_key c) (c_limit c) ?t s)"
  have t: "t \<le> ?t" using Cons.prems(3) by simp
  have inv: "inv s ?t" using inv_later Cons.prems(1) t by blast
  have d: "t div w \<le> ?t div w" using t positive by (simp add: zdiv_mono1)
  have same: "counts s k n = used w hist k n" if "?t div w \<le> n" for k n
    using that d Cons.prems(2) by simp
  have step: "counts ?s k n = used w (hist @ [c]) k n" if "?t div w \<le> n" for k n
    using allow_counts [OF inv that] same [OF that] by (auto simp: used_def)
  have "answers allow cs ?s = spec_answers dflt w (hist @ [c]) cs"
  proof (rule Cons.IH)
    show "inv ?s ?t" using allow_inv inv .
    show "counts ?s k n = used w (hist @ [c]) k n" if "?t div w \<le> n" for k n using step that .
    show "sorted (?t # map c_time cs)" using Cons.prems(3) by simp
  qed
  then show ?case
    using allow_iff [OF inv] same by (simp add: Let_def split_beta)
qed simp

lemma answers_spec:
  assumes "sorted (map c_time cs)"
  shows "answers allow cs init = spec_answers dflt w [] cs"
proof (cases cs)
  case (Cons c cs')
  show ?thesis
    by (rule answers_spec_from [of _ "c_time c"])
      (use assms Cons in \<open>auto simp: init_inv init_counts used_def\<close>)
qed simp

end

lemma spec_answers_bound:
  assumes "\<And>c. c \<in> set cs \<Longrightarrow> c_key c = k \<and> c_time c div w = n \<Longrightarrow> resolve_limit (c_limit c) dflt \<le> l"
  shows "int (length (filter (\<lambda>(c, b). b \<and> c_key c = k \<and> c_time c div w = n)
            (zip cs (spec_answers dflt w hist cs)))) \<le> max 0 (l - used w hist k n)"
  using assms
proof (induction cs arbitrary: hist)
  case (Cons c cs)
  have "int (length (filter (\<lambda>(c, b). b \<and> c_key c = k \<and> c_time c div w = n)
            (zip cs (spec_answers dflt w (hist @ [c]) cs)))) \<le> max 0 (l - used w (hist @ [c]) k n)"
    using Cons by simp
  moreover have "used w (hist @ [c]) k n = used w hist k n + (if c_key c = k \<and> c_time c div w = n then 1 else 0)"
    by (simp add: used_def)
  moreover have "resolve_limit (c_limit c) dflt \<le> l" if "c_key c = k \<and> c_time c div w = n"
    using Cons.prems [of c] that by simp
  ultimately show ?case by (fastforce split: if_splits)
qed simp

section \<open>The in-memory limiter\<close>

definition memory_inv :: "int \<Rightarrow> memory_limiter \<Rightarrow> int \<Rightarrow> bool" where
  "memory_inv w s t \<longleftrightarrow> (\<forall>k v. s k = Some v \<longrightarrow> w_number v \<le> t div w)"

definition memory_counts :: "memory_limiter \<Rightarrow> string \<Rightarrow> int \<Rightarrow> int" where
  "memory_counts s k n = (case s k of None \<Rightarrow> 0 | Some v \<Rightarrow> if w_number v = n then w_count v else 0)"

lemma memory_fixed_window:
  assumes "0 < w"
  shows "fixed_window (memory_allow dflt w) Map.empty (memory_inv w) memory_counts dflt w"
proof
  show "memory_inv w s t \<Longrightarrow> t \<le> t' \<Longrightarrow> memory_inv w s t'" for s t t'
    using assms by (meson memory_inv_def order_trans zdiv_mono1)
  show "memory_inv w s t \<Longrightarrow> t div w \<le> n \<Longrightarrow>
      memory_counts (snd (memory_allow dflt w k l t s)) k' n =
      memory_counts s k' n + (if k' = k \<and> n = t div w then 1 else 0)" for s t n k l k'
    by (force simp: memory_inv_def memory_counts_def memory_allow_def Let_def split: option.splits)
qed (use assms in \<open>auto simp: memory_inv_def memory_counts_def memory_allow_def Let_def
      split: option.splits\<close>)

section \<open>The Redis limiter\<close>

lemma digit_char_ord:
  assumes "0 \<le> d" and "d < 10"
  shows "ord (digit_char d) - 48 = d"
proof -
  have "d = 0 \<or> d = 1 \<or> d = 2 \<or> d = 3 \<or> d = 4 \<or> d = 5 \<or> d = 6 \<or> d = 7 \<or> d = 8 \<or> d = 9"
    using assms by presburger
  then show ?thesis by (elim disjE) (simp_all add: digit_char_def ord_def)
qed

lemma digit_char_digit: "is_digit (digit_char d)"
  by (simp add: digit_char_def is_digit_def ord_def)

lemma dec_parse_snoc: "dec_parse a (cs @ [c]) = 10 * dec_parse a cs + (ord c - 48)"
  by (induction a cs rule: dec_parse.induct) auto

lemma dec_parse_nat_str: "0 \<le> n \<Longrightarrow> dec_parse 0 (nat_str n) = n"
proof (induction n rule: nat_str.induct)
  case (1 n)
  then show ?case
    by (subst nat_str.simps) (auto simp: dec_parse_snoc digit_char_ord)
qed

lemma nat_str_digits: "list_all is_digit (nat_str n)"
proof (induction n rule: nat_str.induct)
  case (1 n)
  then show ?case by (subst nat_str.simps) (simp add: digit_char_digit)
qed

lemma nat_str_no: "\<not> is_digit c \<Longrightarrow> c \<notin> set (nat_str n)"
  using nat_str_digits by (auto simp: list_all_iff)

lemma int_str_no_colon: "CHR '':'' \<notin> set (int_str n)"
  by (auto simp: int_str_def nat_str_no is_digit_def ord_def)

lemma nat_str_not_minus: "nat_str n \<noteq> CHR ''-'' # cs"
  using nat_str_no [of "CHR ''-''" n] by (auto simp: is_digit_def ord_def)

lemma int_str_inj: "int_str a = int_str b \<Longrightarrow> a = b"
proof (cases "a < 0"; cases "b < 0")
  assume "int_str a = int_str b" and "a < 0" and "b < 0"
  then have "nat_str (- a) = nat_str (- b)" by (simp add: int_str_def)
  then have "dec_parse 0 (nat_str (- a)) = dec_parse 0 (nat_str (- b))" by simp
  then show ?thesis using \<open>a < 0\<close> \<open>b < 0\<close> by (simp add: dec_parse_nat_str)
next
  assume "int_str a = int_str b" and "\<not> a < 0" and "\<not> b < 0"
  then have "dec_parse 0 (nat_str a) = dec_parse 0 (nat_str b)" by (simp add: int_str_def)
  then show ?thesis using \<open>\<not> a < 0\<close> \<open>\<not> b < 0\<close> by (simp add: dec_parse_nat_str)
qed (metis int_str_def nat_str_not_minus)+

lemma append_colon_inj:
  "CHR '':'' \<notin> set a \<Longrightarrow> CHR '':'' \<notin> set b \<Longrightarrow> a @ CHR '':'' # k = b @ CHR '':'' # k' \<Longrightarrow> a = b \<and> k = k'"
proof (induction a arbitrary: b)
  case Nil
  then show ?case by (cases b) auto
next
  case (Cons c a)
  then show ?case by (cases b) auto
qed

lemma redis_key_inj [simp]: "redis_key a k = redis_key b k' \<longleftrightarrow> a = b \<and> k = k'"
proof
  assume "redis_key a k = redis_key b k'"
  then have "int_str a @ CHR '':'' # k = int_str b @ CHR '':'' # k'" by (simp add: redis_key_def)
  then show "a = b \<and> k = k'"
    using append_colon_inj [OF int_str_no_colon int_str_no_colon] int_str_inj by blast
qed simp

definition redis_inv :: "int \<Rightarrow> redis \<Rightarrow> int \<Rightarrow> bool" where
  "redis_inv w s t \<longleftrightarrow>
     (\<forall>n k c e. s (redis_key n k) = Some (c, e) \<longrightarrow> n \<le> t div w \<and> (n + 1) * w \<le> e)"

definition redis_counts :: "redis \<Rightarrow> string \<Rightarrow> int \<Rightarrow> int" where
  "redis_counts s k n = (case s (redis_key n k) of None \<Rightarrow> 0 | Some (c, _) \<Rightarrow> c)"

lemma in_window:
  fixes t w :: int
  assumes "0 < w"
  shows "t < (t div w + 1) * w" and "(t div w + 1) * w \<le> t + (w + 1)"
proof -
  have "t = t div w * w + t mod w" and "0 \<le> t mod w" and "t mod w < w" using assms by simp_all
  then show "t < (t div w + 1) * w" and "(t div w + 1) * w \<le> t + (w + 1)"
    unfolding distrib_right by linarith+
qed

lemma redis_current:
  assumes "0 < w" and "redis_inv w s t"
  shows "redis_get s t (redis_key (t div w) k) = s (redis_key (t div w) k)"
  using assms in_window(1) [of w t]
  by (force simp: redis_inv_def redis_get_def split: option.splits)

lemma redis_answer_eq:
  assumes "0 < w" and "redis_inv w s t"
  shows "redis_answer dflt w k l t s =
     (redis_counts s k (t div w) < resolve_limit l dflt,
      s(redis_key (t div w) k \<mapsto> (redis_counts s k (t div w) + 1,
          case s (redis_key (t div w) k) of None \<Rightarrow> t + (w + 1) | Some (_, e) \<Rightarrow> e)))"
  using redis_current [OF assms]
  by (auto simp: redis_answer_def redis_allow_def redis_script_def redis_counts_def Let_def
      split: option.splits)

lemma redis_fixed_window:
  assumes "0 < w"
  shows "fixed_window (redis_answer dflt w) Map.empty (redis_inv w) redis_counts dflt w"
proof
  show "redis_inv w s t \<Longrightarrow> t \<le> t' \<Longrightarrow> redis_inv w s t'" for s t t'
    using assms by (meson redis_inv_def order_trans zdiv_mono1)
  show "redis_inv w s t \<Longrightarrow> redis_inv w (snd (redis_answer dflt w k l t s)) t" for s t k l
    using in_window(2) [OF assms, of t] assms
    by (auto simp: redis_answer_eq redis_inv_def split: option.splits if_splits)
  show "redis_inv w s t \<Longrightarrow> t div w \<le> n \<Longrightarrow>
      redis_counts (snd (redis_answer dflt w k l t s)) k' n =
      redis_counts s k' n + (if k' = k \<and> n = t div w then 1 else 0)" for s t n k l k'
    using assms by (auto simp: redis_answer_eq redis_counts_def)
qed (use assms in \<open>auto simp: redis_inv_def redis_counts_def redis_answer_eq\<close>)

section \<open>Properties\<close>

text \<open>The window of every limiter the application constructs is the default, 60 seconds.\<close>

interpretation memory_window: fixed_window "memory_allow dflt 60" Map.empty "memory_inv 60" memory_counts dflt 60
  for dflt by (rule memory_fixed_window) simp

interpretation redis_window: fixed_window "redis_answer dflt 60" Map.empty "redis_inv 60" redis_counts dflt 60
  for dflt by (rule redis_fixed_window) simp


definition sample_calls :: "call list" where
  "sample_calls = map (\<lambda>t. \<lparr>c_key = ''k'', c_limit = Some 2, c_time = t\<rparr>) [118, 119, 119, 120]"


text \<open>
  C20: The limiter never lets more calls through than configured: among the calls of a sequence
  with non-decreasing times, those for one key in one window that are allowed number at most
  the largest limit any of them was made with.
\<close>

theorem window_limit_respected:
  assumes "sorted (map c_time cs)" and "0 \<le> l"
    and "\<And>c. c \<in> set cs \<Longrightarrow> c_key c = k \<and> c_time c div 60 = n \<Longrightarrow> resolve_limit (c_limit c) dflt \<le> l"
  shows "int (length (filter (\<lambda>(c, b). b \<and> c_key c = k \<and> c_time c div 60 = n)
            (zip cs (answers (memory_allow dflt 60) cs Map.empty)))) \<le> l"
  using spec_answers_bound [of cs k 60 n dflt l "[]"] assms memory_window.answers_spec
  by (simp add: used_def)

theorem window_limit_respected_witness:
  "int (length (filter (\<lambda>(c, b). b \<and> c_key c = ''k'' \<and> c_time c div 60 = 1)
            (zip sample_calls (answers (memory_allow 60 60) sample_calls Map.empty)))) \<le> 2"
  by (rule window_limit_respected) (auto simp: sample_calls_def resolve_limit_def)

text \<open>
  A limiter that is to fail closed never allows while Redis is unavailable, and does not
  count the call.
\<close>

lemma redis_fails_closed:
  "\<exists>e. redis_allow True False dflt w k l t s = (Inl e, s) \<and> e = PyError ''RateLimitUnavailable''
     ''Distributed capability rate limiting is unavailable''"
  by (simp add: redis_allow_def Let_def)

end
