(* ===== verification/CircuitBreaker.thy ===== *)
theory CircuitBreaker
  imports Schema
begin

text \<open>
  \<open>capabilities/circuit_breaker.py\<close>: the connector circuit breaker as a state machine. Every
  operation runs under the breaker's lock, so a history is a sequence of \<open>guard\<close>,
  \<open>record_success\<close> and \<open>record_failure\<close> steps; monotonic-clock readings are arguments.
\<close>

datatype authority = Name string | Host_Port string int

fun authority_key :: "authority \<Rightarrow> string" where
  "authority_key (Name s) = s"
| "authority_key (Host_Port h p) = h @ '':'' @ int_str p"

record breaker =
  failure_threshold :: int
  cooldown_seconds :: int
  failures :: "string \<Rightarrow> int option"
  opened_at :: "string \<Rightarrow> int option"

definition new_breaker :: "int \<Rightarrow> int \<Rightarrow> breaker" where
  "new_breaker threshold cooldown =
     \<lparr>failure_threshold = threshold, cooldown_seconds = cooldown, failures = Map.empty,
      opened_at = Map.empty\<rparr>"

definition ConnectorCircuitOpenError :: "string \<Rightarrow> err" where
  "ConnectorCircuitOpenError key =
     ObsionErr UnavailableC ''capabilities_unavailable''
       ''The connector circuit is open after repeated failures'' [(''authority'', JStr key)]"

definition guard :: "authority \<Rightarrow> int \<Rightarrow> (breaker, unit) op" where
  "guard a now b =
     (let key = authority_key a
      in case opened_at b key of
           None \<Rightarrow> (Inr (), b)
         | Some opened \<Rightarrow>
             if now - opened < cooldown_seconds b then (Inl (ConnectorCircuitOpenError key), b)
             else (Inr (), b\<lparr>opened_at := (opened_at b)(key := None),
                             failures := (failures b)(key \<mapsto> 0)\<rparr>))"

definition record_success :: "authority \<Rightarrow> (breaker, unit) op" where
  "record_success a b =
     (let key = authority_key a
      in (Inr (), b\<lparr>failures := (failures b)(key := None), opened_at := (opened_at b)(key := None)\<rparr>))"

definition record_failure :: "authority \<Rightarrow> int \<Rightarrow> (breaker, unit) op" where
  "record_failure a now b =
     (let key = authority_key a;
          count = (case failures b key of None \<Rightarrow> 0 | Some n \<Rightarrow> n) + 1;
          b' = b\<lparr>failures := (failures b)(key \<mapsto> count)\<rparr>
      in (Inr (), if count \<ge> failure_threshold b
                  then b'\<lparr>opened_at := (opened_at b)(key \<mapsto> now)\<rparr> else b'))"

section \<open>Histories\<close>

datatype breaker_op = Guard authority int | Success authority | Failure authority int

fun perform :: "breaker_op \<Rightarrow> (breaker, unit) op" where
  "perform (Guard a t) = guard a t"
| "perform (Success a) = record_success a"
| "perform (Failure a t) = record_failure a t"

inductive reachable :: "int \<Rightarrow> int \<Rightarrow> breaker \<Rightarrow> bool" for threshold cooldown where
  start: "reachable threshold cooldown (new_breaker threshold cooldown)"
| step: "reachable threshold cooldown b \<Longrightarrow> reachable threshold cooldown (snd (perform x b))"

definition failure_count :: "breaker \<Rightarrow> string \<Rightarrow> int" where
  "failure_count b key = (case failures b key of None \<Rightarrow> 0 | Some n \<Rightarrow> n)"

lemma perform_config:
  "failure_threshold (snd (perform x b)) = failure_threshold b \<and>
   cooldown_seconds (snd (perform x b)) = cooldown_seconds b"
  by (cases x) (auto simp: guard_def record_success_def record_failure_def Let_def split: option.splits)

lemma reachable_inv:
  assumes "reachable threshold cooldown b"
  shows "failure_threshold b = threshold \<and> cooldown_seconds b = cooldown
     \<and> (\<forall>key. 0 \<le> failure_count b key
          \<and> (0 < threshold \<longrightarrow> (opened_at b key \<noteq> None \<longleftrightarrow> threshold \<le> failure_count b key)))"
  using assms
proof (induction rule: reachable.induct)
  case start
  then show ?case by (simp add: new_breaker_def failure_count_def)
next
  case (step b x)
  then have cfg: "failure_threshold b = threshold" "cooldown_seconds b = cooldown"
    and inv: "\<And>key. 0 \<le> failure_count b key"
      "\<And>key. 0 < threshold \<Longrightarrow> opened_at b key \<noteq> None \<longleftrightarrow> threshold \<le> failure_count b key"
    by blast+
  show ?case
  proof (intro conjI allI)
    show "failure_threshold (snd (perform x b)) = threshold"
      "cooldown_seconds (snd (perform x b)) = cooldown" using cfg by (simp_all add: perform_config)
    fix key
    show "0 \<le> failure_count (snd (perform x b)) key"
      using inv(1) [of key]
      by (cases x) (auto simp: guard_def record_success_def record_failure_def Let_def failure_count_def
          split: option.splits)
    show "0 < threshold \<longrightarrow> (opened_at (snd (perform x b)) key \<noteq> None \<longleftrightarrow>
            threshold \<le> failure_count (snd (perform x b)) key)"
      using inv [of key] cfg
      by (cases x) (auto simp: guard_def record_success_def record_failure_def Let_def failure_count_def
          split: option.splits)
  qed
qed

text \<open>
  C21: In every reachable state of a breaker with a positive threshold, the circuit of an
  authority is open exactly when its failures since the last success or cooldown reach the
  threshold; the guard then refuses every call until the cooldown has passed, with the 503
  error that names the authority and without changing the breaker, and refuses none otherwise.
\<close>

theorem guard_refuses_iff:
  assumes "reachable threshold cooldown b" and "0 < threshold"
  shows "(\<exists>e. guard a now b = (Inl e, b) \<and> e = ConnectorCircuitOpenError (authority_key a)
            \<and> status_code e = 503) \<longleftrightarrow>
           threshold \<le> failure_count b (authority_key a)
           \<and> now - the (opened_at b (authority_key a)) < cooldown"
proof -
  have cfg: "cooldown_seconds b = cooldown"
    and op: "opened_at b (authority_key a) \<noteq> None \<longleftrightarrow> threshold \<le> failure_count b (authority_key a)"
    using reachable_inv [OF assms(1)] assms(2) by blast+
  then show ?thesis
    by (auto simp: guard_def Let_def ConnectorCircuitOpenError_def split: option.splits)
qed

definition tripped :: breaker where
  "tripped = snd (perform (Failure (Name ''a'') 12) (snd (perform (Failure (Name ''a'') 10) (new_breaker 2 30))))"

lemma tripped_reachable: "reachable 2 30 tripped"
  unfolding tripped_def by (intro reachable.intros)

theorem guard_refuses_iff_witness:
  "guard (Name ''a'') 41 tripped = (Inl (ConnectorCircuitOpenError ''a''), tripped)"
  using guard_refuses_iff [OF tripped_reachable, of "Name ''a''" 41]
  by (simp add: tripped_def record_failure_def new_breaker_def failure_count_def Let_def)

text \<open>
  The breaker recovers: once the cooldown has passed, the guard lets the next call through
  and closes the circuit with a clean count, so the full threshold of new failures is needed
  to open it again.
\<close>

theorem guard_recovers:
  assumes "reachable threshold cooldown b" and "0 < threshold"
    and "opened_at b (authority_key a) = Some opened" and "opened + cooldown \<le> now"
    and "int (length ts) < threshold"
  shows "\<exists>b'. guard a now b = (Inr (), b') \<and> failure_count b' (authority_key a) = 0
     \<and> fst (guard a later_time (fold (\<lambda>t s. snd (record_failure a t s)) ts b')) = Inr ()"
proof -
  let ?k = "authority_key a"
  define b' where "b' = b\<lparr>opened_at := (opened_at b)(?k := None), failures := (failures b)(?k \<mapsto> 0)\<rparr>"
  have cfg: "cooldown_seconds b = cooldown" "failure_threshold b = threshold"
    using reachable_inv [OF assms(1)] by blast+
  have g: "guard a now b = (Inr (), b')"
    using assms(3,4) cfg by (simp add: guard_def Let_def b'_def)
  have closed: "opened_at (fold (\<lambda>t s. snd (record_failure a t s)) ts s) ?k = None"
    if "opened_at s ?k = None" "failure_threshold s = threshold"
       "failure_count s ?k + int (length ts) < threshold" for s
    using that
  proof (induction ts arbitrary: s)
    case (Cons t ts)
    let ?s = "snd (record_failure a t s)"
    have "failure_count ?s ?k = failure_count s ?k + 1" "failure_threshold ?s = threshold"
      "opened_at ?s ?k = None"
      using Cons.prems by (auto simp: record_failure_def Let_def failure_count_def)
    then show ?case using Cons.IH [of ?s] Cons.prems(3) by simp
  qed simp
  have "opened_at (fold (\<lambda>t s. snd (record_failure a t s)) ts b') ?k = None"
    by (rule closed) (use assms(5) cfg in \<open>simp_all add: b'_def failure_count_def\<close>)
  then have "fst (guard a later_time (fold (\<lambda>t s. snd (record_failure a t s)) ts b')) = Inr ()"
    by (simp add: guard_def Let_def)
  moreover have "failure_count b' ?k = 0" by (simp add: b'_def failure_count_def)
  ultimately show ?thesis using g by blast
qed

theorem guard_recovers_witness:
  "\<exists>b'. guard (Name ''a'') 42 tripped = (Inr (), b') \<and> failure_count b' ''a'' = 0
     \<and> fst (guard (Name ''a'') 44 (fold (\<lambda>t s. snd (record_failure (Name ''a'') t s)) [43] b')) = Inr ()"
  using guard_recovers [OF tripped_reachable, of "Name ''a''" 12 42 "[43]" 44]
  by (simp add: tripped_def record_failure_def new_breaker_def Let_def)

end
