(* ===== verification/ImSchema.thy ===== *)
theory ImSchema
  imports ActionGateway
begin

text \<open>
  The instant-messaging tables of \<open>db/models.py\<close> and \<open>db/im_models.py\<close> that the delivery of
  run answers reads and writes, and the state of that component.

  \<open>im_world\<close> is the shared store, the messaging tables and \<open>iw_posts\<close>, the log of the message
  requests that left for the vendor, each with the identifier of the ledger row it was sent
  for. As in \<open>ActionGateway\<close>, a rollback restores the tables and not the log.

  Columns no modelled operation reads are left out; \<open>updated_at\<close> is left out everywhere.
\<close>

section \<open>Rows\<close>

datatype dingtalk_outbox_status =
  Dt_BLOCKED | Dt_QUEUED | Dt_DISPATCHING | Dt_ACCEPTED | Dt_REJECTED | Dt_UNKNOWN

definition dingtalk_outbox_status_value :: "dingtalk_outbox_status \<Rightarrow> string" where
  "dingtalk_outbox_status_value s =
     (case s of Dt_BLOCKED \<Rightarrow> ''BLOCKED'' | Dt_QUEUED \<Rightarrow> ''QUEUED'' | Dt_DISPATCHING \<Rightarrow> ''DISPATCHING''
        | Dt_ACCEPTED \<Rightarrow> ''ACCEPTED'' | Dt_REJECTED \<Rightarrow> ''REJECTED'' | Dt_UNKNOWN \<Rightarrow> ''UNKNOWN'')"

record im_installation_row =
  ii_id :: uuid
  ii_organization_id :: uuid
  ii_provider :: "string option"
  ii_external_corp_id :: "string option"
  ii_external_app_id :: "string option"
  ii_connector_id :: "uuid option"
  ii_status :: "string option"

record im_installation_binding_row =
  ib_id :: uuid
  ib_organization_id :: uuid
  ib_installation_id :: uuid
  ib_sender_id :: string
  ib_user_id :: uuid
  ib_active :: bool

record im_group_audience_row =
  ga_id :: uuid
  ga_organization_id :: uuid
  ga_installation_id :: uuid
  ga_conversation_id :: string
  ga_workspace_id :: uuid
  ga_member_user_ids :: "json list"
  ga_member_fingerprint :: string
  ga_max_classification :: string
  ga_allow_final_answer :: bool
  ga_allow_status :: bool
  ga_status :: string
  ga_verified_until :: time

record im_inbox_message_row =
  im_id :: uuid
  im_organization_id :: uuid
  im_installation_id :: uuid
  im_binding_id :: uuid
  im_subject_user_id :: uuid
  im_sender_id :: string
  im_conversation_id :: string
  im_conversation_type :: string
  im_run_id :: "uuid option"
  im_created_at :: time

record dingtalk_outbox_row =
  dt_id :: uuid
  dt_organization_id :: uuid
  dt_installation_id :: uuid
  dt_inbox_message_id :: uuid
  dt_binding_id :: uuid
  dt_run_id :: uuid
  dt_recipient_user_id :: uuid
  dt_recipient_sender_id :: string
  dt_conversation_type :: string
  dt_recipient_conversation_id :: "string option"
  dt_audience_id :: "uuid option"
  dt_audience_member_fingerprint :: "string option"
  dt_delivery_mode :: string
  dt_answer_classification :: "string option"
  dt_connector_id :: uuid
  dt_capability_version_id :: "uuid option"
  dt_connector_fingerprint :: string
  dt_content_fingerprint :: string
  dt_status :: dingtalk_outbox_status
  dt_attempt_count :: int
  dt_fencing_token :: int
  dt_next_attempt_at :: "time option"
  dt_lease_expires_at :: "time option"
  dt_accepted_process_query_key :: "string option"
  dt_vendor_send_status :: "string option"
  dt_vendor_read_status :: "string option"
  dt_vendor_read_at :: "time option"
  dt_last_reconciled_at :: "time option"
  dt_reconciliation_attempt_count :: int
  dt_policy_decision_id :: "uuid option"
  dt_blocked_reason :: "string option"
  dt_last_error_code :: "string option"
  dt_created_at :: time

section \<open>The state of the component\<close>

record robot_post =
  rp_path :: string
  rp_robot_code :: string
  rp_recipient :: string
  rp_text :: string

record im_world =
  iw_db :: db
  iw_inbox :: "im_inbox_message_row list"
  iw_installations :: "im_installation_row list"
  iw_bindings :: "im_installation_binding_row list"
  iw_audiences :: "im_group_audience_row list"
  iw_artifacts :: "artifact_row list"
  iw_deliveries :: "dingtalk_outbox_row list"
  iw_posts :: "(uuid \<times> robot_post) list"

definition im_db :: "(db, 'a) op \<Rightarrow> (im_world, 'a) op" where
  "im_db = zoom iw_db (\<lambda>d w. w\<lparr>iw_db := d\<rparr>)"

text \<open>A database transaction: a raise rolls the tables back, not the messages already sent.\<close>

definition im_transaction :: "(im_world, 'a) op \<Rightarrow> (im_world, 'a) op" where
  "im_transaction m w =
     (case m w of
        (Inl e, w') \<Rightarrow> (Inl e, w\<lparr>iw_posts := iw_posts w'\<rparr>)
      | (Inr v, w') \<Rightarrow> (Inr v, w'))"

definition put_delivery :: "dingtalk_outbox_row \<Rightarrow> (im_world, unit) op" where
  "put_delivery o' = modify (\<lambda>w. w\<lparr>iw_deliveries := replace_row dt_id o' (iw_deliveries w)\<rparr>)"

text \<open>\<open>result.one_or_none()\<close>.\<close>

definition one_or_none :: "'a list \<Rightarrow> ('s, 'a option) op" where
  "one_or_none rows =
     (case rows of
        [] \<Rightarrow> ret None
      | [r] \<Rightarrow> ret (Some r)
      | _ \<Rightarrow> raise (PyError ''MultipleResultsFound''
               ''Multiple rows were found when one or none was required''))"

text \<open>PostgreSQL sorts \<open>NULL\<close> after every value; a sort key is a list, compared in order.\<close>

definition nulls_last :: "int option \<Rightarrow> int list" where
  "nulls_last t = (case t of None \<Rightarrow> [1] | Some v \<Rightarrow> [0, v])"

section \<open>Laws\<close>

lemma im_db_iff: "im_db m w = (r, w') \<longleftrightarrow> (\<exists>d. m (iw_db w) = (r, d) \<and> w' = w\<lparr>iw_db := d\<rparr>)"
  by (simp add: im_db_def zoom_iff)

lemma im_transaction_Inr: "im_transaction m w = (Inr v, w') \<longleftrightarrow> m w = (Inr v, w')"
  by (auto simp: im_transaction_def split: prod.splits sum.splits)

lemma im_transaction_Inl:
  "im_transaction m w = (Inl e, w') \<longleftrightarrow>
     (\<exists>w1. m w = (Inl e, w1) \<and> w' = w\<lparr>iw_posts := iw_posts w1\<rparr>)"
  by (auto simp: im_transaction_def split: prod.splits sum.splits)

lemma put_delivery_iff [simp]:
  "put_delivery o' w = (r, w') \<longleftrightarrow>
     r = Inr () \<and> w' = w\<lparr>iw_deliveries := replace_row dt_id o' (iw_deliveries w)\<rparr>"
  by (simp add: put_delivery_def)

lemma one_or_none_iff:
  "one_or_none rows s = (Inr r, s') \<longleftrightarrow> s' = s \<and> (rows = [] \<and> r = None \<or> (\<exists>v. rows = [v] \<and> r = Some v))"
  by (auto simp: one_or_none_def split: list.splits)

lemma one_or_none_state [simp]: "snd (one_or_none rows s) = s"
  by (simp add: one_or_none_def op_simps split: list.split)

end
