(* ===== verification/RobotTransport.thy ===== *)
theory RobotTransport
  imports ImSchema
begin

text \<open>
  \<open>capabilities/dingtalk_robot.py\<close>: the transport of the delivery ledger. A call makes one
  token request and then at most one message request.

  \<open>http_answer\<close> is what comes back from the vendor: a lost request (any \<open>httpx\<close>, \<open>OSError\<close>
  or timeout error), a cancelled task, or a response. The message request goes through
  \<open>wire\<close>, an operation of the caller's state, so that the state can log it. Texts are ASCII or
  Latin-1, as in \<open>PyText\<close>, so a text always encodes as UTF-8; numbers in a response are
  integers.

  The lemmas show the at-most-one contract of the transport: a call that returns
  \<open>NOT_ATTEMPTED\<close> has sent nothing, and after sending nothing but a cancellation escapes.
\<close>

section \<open>Values\<close>

datatype robot_send_state = Send_NOT_ATTEMPTED | Send_ACCEPTED | Send_REJECTED | Send_UNKNOWN

datatype robot_query_state = Query_SUCCESS | Query_FAILURE | Query_UNKNOWN

definition robot_send_state_value :: "robot_send_state \<Rightarrow> string" where
  "robot_send_state_value s =
     (case s of Send_NOT_ATTEMPTED \<Rightarrow> ''NOT_ATTEMPTED'' | Send_ACCEPTED \<Rightarrow> ''ACCEPTED''
        | Send_REJECTED \<Rightarrow> ''REJECTED'' | Send_UNKNOWN \<Rightarrow> ''UNKNOWN'')"

definition robot_query_state_value :: "robot_query_state \<Rightarrow> string" where
  "robot_query_state_value s =
     (case s of Query_SUCCESS \<Rightarrow> ''SUCCESS'' | Query_FAILURE \<Rightarrow> ''FAILURE'' | Query_UNKNOWN \<Rightarrow> ''UNKNOWN'')"

record robot_credentials =
  rcr_app_key :: string
  rcr_app_secret :: string

record robot_send_result =
  rs_state :: robot_send_state
  rs_process_query_key :: "string option"
  rs_reason :: "string option"

definition RobotSendResult :: "robot_send_state \<Rightarrow> string option \<Rightarrow> string option \<Rightarrow> robot_send_result" where
  "RobotSendResult st key reason = \<lparr>rs_state = st, rs_process_query_key = key, rs_reason = reason\<rparr>"

record robot_query_result =
  rq_state :: robot_query_state
  rq_send_status :: "string option"
  rq_read_status :: "string option"
  rq_read_timestamp_ms :: "int option"
  rq_reason :: "string option"

definition RobotQueryResult :: "robot_query_state \<Rightarrow> string option \<Rightarrow> string option \<Rightarrow> robot_query_result" where
  "RobotQueryResult st send_status reason =
     \<lparr>rq_state = st, rq_send_status = send_status, rq_read_status = None, rq_read_timestamp_ms = None,
      rq_reason = reason\<rparr>"

definition SEND_PATH :: string where
  "SEND_PATH = ''/v1.0/robot/oToMessages/batchSend''"

definition GROUP_SEND_PATH :: string where
  "GROUP_SEND_PATH = ''/v1.0/robot/groupMessages/send''"

definition connector_fingerprint :: "ext \<Rightarrow> connector_row \<Rightarrow> string" where
  "connector_fingerprint x c =
     sha256_hex x (JObj
       [(''connector_type'', JStr (con_connector_type c)), (''environment'', JStr (con_environment c)),
        (''endpoint'', case con_endpoint c of None \<Rightarrow> JNull | Some e \<Rightarrow> JStr e),
        (''configuration'', JObj (con_configuration c)),
        (''credential_ref'', case con_credential_ref c of None \<Rightarrow> JNull | Some r \<Rightarrow> JStr r),
        (''declared_grants'', JList (con_declared_grants c)),
        (''allowed_egress'', JList (con_allowed_egress c))])"

section \<open>Checks on what is sent\<close>

definition opaque :: "string \<Rightarrow> nat \<Rightarrow> bool" where
  "opaque v maximum \<longleftrightarrow>
     0 < length v \<and> length v \<le> maximum \<and> list_all (\<lambda>c. 33 \<le> ord c \<and> ord c < 127) v"

definition opaque_json :: "json option \<Rightarrow> nat \<Rightarrow> string option" where
  "opaque_json v maximum = (case v of Some (JStr s) \<Rightarrow> if opaque s maximum then Some s else None | _ \<Rightarrow> None)"

definition RobotCredentials :: "string \<Rightarrow> string \<Rightarrow> err + robot_credentials" where
  "RobotCredentials app_key app_secret =
     (if opaque app_key 255 \<and> opaque app_secret 4096
      then Inr \<lparr>rcr_app_key = app_key, rcr_app_secret = app_secret\<rparr>
      else Inl (ValueError ''Invalid robot credential configuration''))"

definition utf8_length :: "string \<Rightarrow> nat" where
  "utf8_length s = sum_list (map (\<lambda>c. if ord c < 128 then 1 else 2) s)"

definition validate_text :: "string \<Rightarrow> robot_credentials \<Rightarrow> err + unit" where
  "validate_text text credentials =
     (if strip text = [] \<or> length text > 4096
         \<or> list_ex (\<lambda>c. ord c < 32 \<and> ord c \<noteq> 10 \<and> ord c \<noteq> 9) text
      then Inl (ValueError ''Invalid robot text'')
      else if utf8_length text > 4096 then Inl (ValueError ''Robot text exceeds the delivery budget'')
      else if contains_sub (rcr_app_secret credentials) text
      then Inl (ValueError ''Robot text contains a credential'')
      else Inr ())"

section \<open>What comes back\<close>

datatype http_answer =
    Lost
  | Cancelled
  | Answered int "string option" int "json option"

text \<open>\<open>_json\<close>: status, content encoding (\<open>None\<close> when the header is absent), size, parsed body.\<close>

definition vendor_json :: "http_answer \<Rightarrow> err + jobj" where
  "vendor_json answer =
     (case answer of
        Lost \<Rightarrow> Inl (PyError ''HTTPError'' [])
      | Cancelled \<Rightarrow> Inl (PyError ''CancelledError'' [])
      | Answered st encoding sz body \<Rightarrow>
          if st \<noteq> 200 then Inl (ValueError ''Vendor request was not successful'')
          else if casefold (strip (case encoding of None \<Rightarrow> ''identity'' | Some e \<Rightarrow> e)) \<noteq> ''identity''
          then Inl (ValueError ''Encoded vendor response is unsupported'')
          else if sz > 65536 then Inl (ValueError ''Vendor response exceeds budget'')
          else (case body of
                  Some (JObj o') \<Rightarrow>
                    if map_of o' ''code'' \<noteq> None \<or> map_of o' ''errcode'' \<noteq> None
                    then Inl (ValueError ''Invalid vendor response'') else Inr o'
                | Some _ \<Rightarrow> Inl (ValueError ''Invalid vendor response'')
                | None \<Rightarrow> Inl (ValueError ''Expecting value'')))"

definition access_token :: "jobj \<Rightarrow> robot_credentials \<Rightarrow> err + string" where
  "access_token response credentials =
     (case (opaque_json (map_of response ''accessToken'') 4096, map_of response ''expireIn'') of
        (Some token, Some (JInt expire)) \<Rightarrow>
          if 0 < expire \<and> expire \<le> 86400
             \<and> token \<noteq> rcr_app_key credentials \<and> token \<noteq> rcr_app_secret credentials
          then Inr token else Inl (ValueError ''Invalid token response'')
      | _ \<Rightarrow> Inl (ValueError ''Invalid token response''))"

definition recipient_ok :: "string option \<Rightarrow> json \<Rightarrow> bool" where
  "recipient_ok recipient_id v =
     (case opaque_json (Some v) 255 of
        None \<Rightarrow> False
      | Some s \<Rightarrow> (case recipient_id of None \<Rightarrow> True | Some r \<Rightarrow> s = r))"

text \<open>One of the two lists of refused recipients: whether it names any, or a \<open>ValueError\<close>.\<close>

definition refused_list :: "jobj \<Rightarrow> string option \<Rightarrow> string \<Rightarrow> err + bool" where
  "refused_list response recipient_id field_name =
     (case cond_get response field_name (JList []) of
        JList values \<Rightarrow>
          if length values > (if recipient_id \<noteq> None then 1 else 500)
             \<or> \<not> list_all (recipient_ok recipient_id) values
          then Inl (ValueError ''Unexpected recipient in vendor response'')
          else Inr (values \<noteq> [])
      | _ \<Rightarrow> Inl (ValueError ''Unexpected recipient in vendor response''))"

definition send_receipt :: "jobj \<Rightarrow> string option \<Rightarrow> string list \<Rightarrow> err + robot_send_result" where
  "send_receipt response recipient_id secrets =
     (case refused_list response recipient_id ''invalidStaffIdList'' of
        Inl e \<Rightarrow> Inl e
      | Inr a \<Rightarrow>
          (case refused_list response recipient_id ''flowControlledStaffIdList'' of
             Inl e \<Rightarrow> Inl e
           | Inr b \<Rightarrow>
               if a \<or> b then Inr (RobotSendResult Send_REJECTED None (Some ''recipient_rejected''))
               else (case opaque_json (map_of response ''processQueryKey'') 500 of
                       None \<Rightarrow> Inl (ValueError ''Invalid vendor processing key'')
                     | Some key \<Rightarrow>
                         if list_ex (\<lambda>s. contains_sub s key) secrets
                         then Inl (ValueError ''Invalid vendor processing key'')
                         else Inr (RobotSendResult Send_ACCEPTED (Some key) None))))"

definition upper_char :: "char \<Rightarrow> char" where
  "upper_char c =
     (if is_lower c then (case c of Char b0 b1 b2 b3 b4 b5 b6 b7 \<Rightarrow> Char b0 b1 b2 b3 b4 False b6 b7) else c)"

text \<open>The optional single read record of a query response: \<open>None\<close> when it is malformed.\<close>

definition read_record :: "json list \<Rightarrow> string option \<Rightarrow> (string option \<times> int option) option" where
  "read_record values user =
     (case values of
        [] \<Rightarrow> Some (None, None)
      | item # _ \<Rightarrow>
          if \<not> is_obj item \<or> (\<exists>u \<in> set_option user. json_get item ''userId'' \<noteq> Some (JStr u)) then None
          else (case opaque_json (json_get item ''readStatus'') 32 of
                  None \<Rightarrow> None
                | Some st \<Rightarrow>
                    (case json_get item ''readTimestamp'' of
                       None \<Rightarrow> Some (Some st, None)
                     | Some JNull \<Rightarrow> Some (Some st, None)
                     | Some (JInt t) \<Rightarrow>
                         if t < 0 then None
                         else Some (Some st, Some (if 0 < t \<and> t < 100000000000 then t * 1000 else t))
                     | Some _ \<Rightarrow> None)))"

definition query_receipt :: "jobj \<Rightarrow> string option \<Rightarrow> robot_query_result" where
  "query_receipt response user =
     (case opaque_json (map_of response ''sendStatus'') 64 of
        None \<Rightarrow> RobotQueryResult Query_UNKNOWN None (Some ''reconciliation_response_invalid'')
      | Some st \<Rightarrow>
          (let normalized = map upper_char st;
               state = (if normalized = ''SUCCESS'' then Query_SUCCESS
                        else if normalized \<in> {''FAIL'', ''FAILED'', ''FAILURE''} then Query_FAILURE
                        else Query_UNKNOWN);
               invalid = RobotQueryResult Query_UNKNOWN (Some st) (Some ''reconciliation_response_invalid'')
           in case cond_get response ''messageReadInfoList'' (JList []) of
                JList values \<Rightarrow>
                  if length values > 1 then invalid
                  else (case read_record values user of
                          None \<Rightarrow> invalid
                        | Some (read_status, read_ms) \<Rightarrow>
                            \<lparr>rq_state = state, rq_send_status = Some st, rq_read_status = read_status,
                             rq_read_timestamp_ms = read_ms,
                             rq_reason = (if state \<noteq> Query_UNKNOWN then None
                                          else Some ''reconciliation_status_unknown'')\<rparr>)
              | _ \<Rightarrow> invalid))"

section \<open>Sending\<close>

text \<open>The errors the transport turns into a result; a cancellation is not one of them.\<close>

definition transport_error :: "err \<Rightarrow> bool" where
  "transport_error e =
     (case e of PyError n _ \<Rightarrow>
        n \<in> {''HTTPError'', ''OSError'', ''TimeoutError'', ''ValueError'', ''TypeError'', ''RecursionError''}
      | _ \<Rightarrow> False)"

text \<open>
  The body both senders share: the token, the authorization callback, the message request and
  its receipt. Before the request a caught error is \<open>NOT_ATTEMPTED\<close>, from the request on it
  is \<open>UNKNOWN\<close>.
\<close>

definition send_message ::
  "http_answer \<Rightarrow> (robot_post \<Rightarrow> ('s, http_answer) op) \<Rightarrow> ('s, bool) op \<Rightarrow> robot_credentials \<Rightarrow>
   string option \<Rightarrow> robot_post \<Rightarrow> ('s, robot_send_result) op" where
  "send_message token_answer wire authorize_send credentials recipient_id message =
     catching transport_error
       (andthen (from_sum (vendor_json token_answer)) (\<lambda>token_response.
        andthen (from_sum (access_token token_response credentials)) (\<lambda>token.
        if contains_sub token (rp_text message)
        then ret (RobotSendResult Send_NOT_ATTEMPTED None (Some ''credential_in_text''))
        else andthen authorize_send (\<lambda>authorized.
             if \<not> authorized
             then ret (RobotSendResult Send_NOT_ATTEMPTED None (Some ''delivery_not_authorized''))
             else catching transport_error
                    (andthen (wire message) (\<lambda>answer.
                     andthen (from_sum (vendor_json answer)) (\<lambda>response.
                     from_sum (send_receipt response recipient_id [token, rcr_app_secret credentials]))))
                    (\<lambda>_. ret (RobotSendResult Send_UNKNOWN None (Some ''unverified_send_response'')))))))
       (\<lambda>_. ret (RobotSendResult Send_NOT_ATTEMPTED None (Some ''authentication_failed'')))"

definition send_text ::
  "http_answer \<Rightarrow> (robot_post \<Rightarrow> ('s, http_answer) op) \<Rightarrow> ('s, bool) op \<Rightarrow> robot_credentials \<Rightarrow>
   string \<Rightarrow> string \<Rightarrow> string \<Rightarrow> ('s, robot_send_result) op" where
  "send_text token_answer wire authorize_send credentials robot_code user text =
     andthen (require (opaque robot_code 255 \<and> opaque user 255)
        (ValueError ''Invalid robot or recipient identity'')) (\<lambda>_.
     andthen (from_sum (validate_text text credentials)) (\<lambda>_.
     send_message token_answer wire authorize_send credentials (Some user)
       \<lparr>rp_path = SEND_PATH, rp_robot_code = robot_code, rp_recipient = user, rp_text = text\<rparr>))"

definition send_group_text ::
  "http_answer \<Rightarrow> (robot_post \<Rightarrow> ('s, http_answer) op) \<Rightarrow> ('s, bool) op \<Rightarrow> robot_credentials \<Rightarrow>
   string \<Rightarrow> string \<Rightarrow> string \<Rightarrow> ('s, robot_send_result) op" where
  "send_group_text token_answer wire authorize_send credentials robot_code open_conversation_id text =
     andthen (require (opaque robot_code 255 \<and> opaque open_conversation_id 512)
        (ValueError ''Invalid robot or group identity'')) (\<lambda>_.
     andthen (from_sum (validate_text text credentials)) (\<lambda>_.
     send_message token_answer wire authorize_send credentials None
       \<lparr>rp_path = GROUP_SEND_PATH, rp_robot_code = robot_code, rp_recipient = open_conversation_id,
        rp_text = text\<rparr>))"

definition query_status ::
  "http_answer \<Rightarrow> http_answer \<Rightarrow> robot_credentials \<Rightarrow> string \<Rightarrow> string option \<Rightarrow> string option \<Rightarrow> string \<Rightarrow>
   err + robot_query_result" where
  "query_status token_answer query_answer credentials robot_code user open_conversation_id process_query_key =
     (if \<not> opaque robot_code 255
         \<or> (\<exists>u \<in> set_option user. \<not> opaque u 255)
         \<or> (\<exists>c \<in> set_option open_conversation_id. \<not> opaque c 512)
         \<or> (user = None \<and> open_conversation_id = None)
         \<or> \<not> opaque process_query_key 500
      then Inl (ValueError ''Invalid robot reconciliation identity'')
      else
        (let outcome =
           (case vendor_json token_answer of
              Inl e \<Rightarrow> Inl e
            | Inr token_response \<Rightarrow>
                (case access_token token_response credentials of
                   Inl e \<Rightarrow> Inl e
                 | Inr token \<Rightarrow> map_sum id (\<lambda>response. query_receipt response user) (vendor_json query_answer)))
         in case outcome of
              Inr r \<Rightarrow> Inr r
            | Inl e \<Rightarrow> if transport_error e
                      then Inr (RobotQueryResult Query_UNKNOWN None (Some ''reconciliation_unavailable''))
                      else Inl e))"

lemma transport_error_simps [simp]:
  "transport_error (ValueError m)" "transport_error (PyError ''HTTPError'' m)"
  "\<not> transport_error (PyError ''CancelledError'' m)"
  by (simp_all add: transport_error_def ValueError_def)

lemma vendor_json_Inl: "vendor_json a = Inl e \<Longrightarrow> transport_error e \<or> e = PyError ''CancelledError'' []"
proof (cases a)
  case (Answered st encoding sz body)
  assume "vendor_json a = Inl e"
  then have "\<exists>m. e = ValueError m"
    unfolding vendor_json_def Answered http_answer.case by (auto split: if_split_asm option.split_asm json.split_asm)
  then show ?thesis by auto
qed (auto simp: vendor_json_def)

lemma access_token_Inl: "access_token t c = Inl e \<Longrightarrow> transport_error e"
  by (auto simp: access_token_def  Let_def
      split: if_splits option.splits json.splits)

lemma send_receipt_Inl: "send_receipt r i ss = Inl e \<Longrightarrow> transport_error e"
  by (auto simp: send_receipt_def refused_list_def 
      split: if_splits option.splits json.splits sum.splits)

lemma send_receipt_Inr: "send_receipt r i ss = Inr v \<Longrightarrow> rs_state v \<noteq> Send_NOT_ATTEMPTED"
  by (auto simp: send_receipt_def RobotSendResult_def split: if_splits option.splits sum.splits)

lemma from_sum_andthen: "andthen (from_sum (Inr v)) k = k v"
  by (rule ext) (simp add: andthen_def from_sum_def ret_def)

section \<open>At most one message\<close>

text \<open>
  What the transport needs from its caller: the wire answers and logs one entry per request,
  and the authorization callback sends nothing.
\<close>

locale message_channel =
  fixes wire :: "robot_post \<Rightarrow> ('s, http_answer) op" and log :: "'s \<Rightarrow> 'p list"
    and entry :: "robot_post \<Rightarrow> 'p" and authorize :: "('s, bool) op"
  assumes wire_logs: "wire m s = (v, s') \<Longrightarrow> (\<exists>a. v = Inr a) \<and> log s' = log s @ [entry m]"
    and authorize_silent: "authorize s = (v', s') \<Longrightarrow> log s' = log s"
begin

text \<open>Either nothing was sent, and a result says so; or one message was, authorized, and no result denies it.\<close>

definition sent_at_most :: "robot_post \<Rightarrow> 's \<Rightarrow> err + robot_send_result \<Rightarrow> 's \<Rightarrow> bool" where
  "sent_at_most m s v s' \<longleftrightarrow>
     log s' = log s \<and> (\<forall>r. v = Inr r \<longrightarrow> rs_state r = Send_NOT_ATTEMPTED)
     \<or> log s' = log s @ [entry m] \<and> (\<exists>t. authorize s = (Inr True, t))
       \<and> (v = Inl (PyError ''CancelledError'' []) \<or> (\<exists>r. v = Inr r \<and> rs_state r \<noteq> Send_NOT_ATTEMPTED))"

lemma wire_step: "\<exists>a s'. wire m s = (Inr a, s') \<and> log s' = log s @ [entry m]"
  using wire_logs by (metis prod.exhaust)

lemma send_message_sent:
  "sent_at_most m s (fst (send_message tok wire authorize cr i m s)) (snd (send_message tok wire authorize cr i m s))"
proof -
  define posting where "posting token = catching transport_error
        (andthen (wire m) (\<lambda>answer. andthen (from_sum (vendor_json answer)) (\<lambda>response.
         from_sum (send_receipt response i [token, rcr_app_secret cr]))))
        (\<lambda>_. ret (RobotSendResult Send_UNKNOWN None (Some ''unverified_send_response'')))" for token
  have posted: "\<exists>v t'. posting token t = (v, t') \<and> log t' = log t @ [entry m] \<and>
      (v = Inl (PyError ''CancelledError'' []) \<or> (\<exists>r. v = Inr r \<and> rs_state r \<noteq> Send_NOT_ATTEMPTED))" for token t
  proof -
    obtain a t' where w: "wire m t = (Inr a, t')" and l: "log t' = log t @ [entry m]" using wire_step by blast
    show ?thesis
    proof (cases "vendor_json a")
      case (Inl e)
      then show ?thesis using w l vendor_json_Inl [OF Inl]
        by (auto simp: posting_def catching_def attempt_def andthen_def op_simps RobotSendResult_def)
    next
      case (Inr response)
      show ?thesis
      proof (cases "send_receipt response i [token, rcr_app_secret cr]")
        case (Inl e)
        then show ?thesis using w l Inr send_receipt_Inl [OF Inl]
          by (auto simp: posting_def catching_def attempt_def andthen_def op_simps RobotSendResult_def)
      next
        case (Inr v)
        then show ?thesis using w l \<open>vendor_json a = _\<close> send_receipt_Inr [OF Inr]
          by (auto simp: posting_def catching_def attempt_def andthen_def op_simps)
      qed
    qed
  qed
  have fold_posting: "send_message tok wire authorize cr i m = catching transport_error
       (andthen (from_sum (vendor_json tok)) (\<lambda>token_response.
        andthen (from_sum (access_token token_response cr)) (\<lambda>token.
        if contains_sub token (rp_text m)
        then ret (RobotSendResult Send_NOT_ATTEMPTED None (Some ''credential_in_text''))
        else andthen authorize (\<lambda>authorized.
             if \<not> authorized
             then ret (RobotSendResult Send_NOT_ATTEMPTED None (Some ''delivery_not_authorized''))
             else posting token))))
       (\<lambda>_. ret (RobotSendResult Send_NOT_ATTEMPTED None (Some ''authentication_failed'')))"
    unfolding send_message_def posting_def by (rule refl)
  show ?thesis
  proof (cases "vendor_json tok")
    case (Inl e)
    then show ?thesis
      by (simp add: fold_posting sent_at_most_def catching_def attempt_def andthen_def op_simps RobotSendResult_def)
  next
    case response: (Inr tr)
    show ?thesis
    proof (cases "access_token tr cr")
      case (Inl e)
      then show ?thesis using response
        by (simp add: fold_posting sent_at_most_def catching_def attempt_def andthen_def op_simps RobotSendResult_def)
    next
      case token: (Inr token)
      obtain av t where a: "authorize s = (av, t)" by (cases "authorize s")
      have silent: "log t = log s" using authorize_silent [OF a] .
      obtain v t' where p: "posting token t = (v, t')" and l: "log t' = log t @ [entry m]"
        and v: "v = Inl (PyError ''CancelledError'' []) \<or> (\<exists>r. v = Inr r \<and> rs_state r \<noteq> Send_NOT_ATTEMPTED)"
        using posted by blast
      let ?inner = "if contains_sub token (rp_text m)
        then ret (RobotSendResult Send_NOT_ATTEMPTED None (Some ''credential_in_text''))
        else andthen authorize (\<lambda>authorized.
             if \<not> authorized
             then ret (RobotSendResult Send_NOT_ATTEMPTED None (Some ''delivery_not_authorized''))
             else posting token)"
      have inner: "sent_at_most m s (fst (?inner s)) (snd (?inner s))"
        using a silent p l v by (cases av) (auto simp: sent_at_most_def andthen_def op_simps RobotSendResult_def)
      obtain iv it where i: "?inner s = (iv, it)" by (cases "?inner s")
      have whole: "send_message tok wire authorize cr i m s =
          (case iv of Inl e \<Rightarrow> if transport_error e
              then (Inr (RobotSendResult Send_NOT_ATTEMPTED None (Some ''authentication_failed'')), it) else (Inl e, it)
            | Inr r \<Rightarrow> (Inr r, it))"
        unfolding fold_posting
        unfolding response token from_sum_andthen catching_def attempt_def i
        by (simp add: ret_def raise_def split: sum.split)
      show ?thesis using inner i unfolding whole
        by (cases iv) (auto simp: sent_at_most_def RobotSendResult_def)
    qed
  qed
qed

lemma send_text_sent:
  "\<exists>m. rp_text m = text \<and> rp_recipient m = user \<and>
     sent_at_most m s (fst (send_text tok wire authorize cr code user text s)) (snd (send_text tok wire authorize cr code user text s))"
proof (cases "opaque code 255 \<and> opaque user 255 \<and> validate_text text cr = Inr ()")
  case True
  let ?m = "\<lparr>rp_path = SEND_PATH, rp_robot_code = code, rp_recipient = user, rp_text = text\<rparr>"
  show ?thesis using True send_message_sent [of ?m s tok cr "Some user"]
    by (intro exI [of _ ?m]) (simp add: send_text_def andthen_def op_simps)
next
  case False
  then show ?thesis
    by (intro exI [of _ "\<lparr>rp_path = SEND_PATH, rp_robot_code = code, rp_recipient = user, rp_text = text\<rparr>"])
      (auto simp: send_text_def andthen_def op_simps sent_at_most_def split: sum.split)
qed

lemma send_group_text_sent:
  "\<exists>m. rp_text m = text \<and> rp_recipient m = conv \<and>
     sent_at_most m s (fst (send_group_text tok wire authorize cr code conv text s))
       (snd (send_group_text tok wire authorize cr code conv text s))"
proof (cases "opaque code 255 \<and> opaque conv 512 \<and> validate_text text cr = Inr ()")
  case True
  let ?m = "\<lparr>rp_path = GROUP_SEND_PATH, rp_robot_code = code, rp_recipient = conv, rp_text = text\<rparr>"
  show ?thesis using True send_message_sent [of ?m s tok cr None]
    by (intro exI [of _ ?m]) (simp add: send_group_text_def andthen_def op_simps)
next
  case False
  then show ?thesis
    by (intro exI [of _ "\<lparr>rp_path = GROUP_SEND_PATH, rp_robot_code = code, rp_recipient = conv, rp_text = text\<rparr>"])
      (auto simp: send_group_text_def andthen_def op_simps sent_at_most_def split: sum.split)
qed

end

end
