(* ===== verification/RobotGateway.thy ===== *)
theory RobotGateway
  imports RobotTransport
begin

text \<open>
  The two robot entries of \<open>capabilities/gateway.py\<close>: \<open>invoke_dingtalk_robot_outbox\<close> and
  \<open>reconcile_dingtalk_robot_outbox\<close>. Both resolve the pinned capability, check its contract
  and the connector fingerprint, ask the policy engine for an unconditional \<open>ALLOW\<close>, check the
  connector grant, the input schema and the rate limit, and then call the transport.

  \<open>im_env\<close> is what answers from outside: the vendor, the rate limiter, the measured latency,
  and, for the ledger service, the source fence, the knowledge publication guard (an operation
  on the shared store; \<open>knowledge/publication.py\<close> is not modelled), the digest of a text and
  the constant group status text, whose characters are outside the model's alphabet.

  The lemmas give the contract of the entry: \<open>robot_sent\<close>, at most one message per call, sent
  only when the admission checks passed and the caller authorized it.
\<close>

section \<open>The environment and the requests\<close>

record im_env =
  ie_ext :: ext
  ie_limit :: "string \<Rightarrow> int option \<Rightarrow> err + bool"
  ie_token_answer :: http_answer
  ie_send_answer :: "robot_post \<Rightarrow> http_answer"
  ie_query_answer :: http_answer
  ie_latency_ms :: int
  ie_fence :: "uuid \<Rightarrow> bool"
  ie_publication :: "publication_check \<Rightarrow> (db, bool) op"
  ie_text_sha256 :: "string \<Rightarrow> string"
  ie_group_status :: string
  ie_lease_seconds :: int
  ie_max_attempts :: int

record robot_request =
  rr_principal :: principal
  rr_run_id :: uuid
  rr_outbox_id :: uuid
  rr_installation_id :: uuid
  rr_recipient_sender_id :: string
  rr_app_key :: string
  rr_robot_code :: string
  rr_connector_id :: uuid
  rr_connector_fingerprint :: string
  rr_environment :: string
  rr_capability_version_id :: uuid
  rr_conversation_type :: string
  rr_recipient_conversation_id :: "string option"

record robot_outbox_request = robot_request + rr_text :: string

record robot_outbox_query_request = robot_request + rr_process_query_key :: string

record robot_outbox_result =
  ror_send :: robot_send_result
  ror_policy_decision_id :: "uuid option"
  ror_capability_version_id :: "uuid option"
  ror_connector_id :: "uuid option"

record robot_outbox_query_result =
  roq_query :: robot_query_result
  roq_policy_decision_id :: "uuid option"
  roq_capability_version_id :: "uuid option"
  roq_connector_id :: "uuid option"

definition DINGTALK_ROBOT_CAPABILITY :: string where
  "DINGTALK_ROBOT_CAPABILITY = ''im.dingtalk.robot.reply''"

definition DINGTALK_ROBOT_PROTOCOL :: string where
  "DINGTALK_ROBOT_PROTOCOL = ''dingtalk.robot.oto.v1''"

text \<open>\<open>a or b\<close> on optional text.\<close>

definition text_or :: "string option \<Rightarrow> string \<Rightarrow> string" where
  "text_or s dflt = (case s of None \<Rightarrow> dflt | Some v \<Rightarrow> if v = [] then dflt else v)"

section \<open>Resolution and contract\<close>

definition robot_payload :: "'a robot_request_scheme \<Rightarrow> jobj" where
  "robot_payload r =
     [(''operation'', JStr DINGTALK_ROBOT_CAPABILITY),
      (''installation_id'', JStr (uuid_str (rr_installation_id r))),
      (''recipient_sender_id'', JStr (rr_recipient_sender_id r)),
      (''outbox_id'', JStr (uuid_str (rr_outbox_id r))),
      (''conversation_type'', JStr (rr_conversation_type r)),
      (''recipient_conversation_id'', JStr (text_or (rr_recipient_conversation_id r) []))]"

definition robot_resource :: "bool \<Rightarrow> 'a robot_request_scheme \<Rightarrow> jobj" where
  "robot_resource query r =
     [(''installation_id'', JStr (uuid_str (rr_installation_id r))),
      (''recipient_sender_id'', JStr (rr_recipient_sender_id r)),
      (''outbox_id'', JStr (uuid_str (rr_outbox_id r))),
      (''channel'', JStr ''dingtalk''),
      (''conversation_type'', JStr (rr_conversation_type r)),
      (''conversation_id'', JStr (text_or (rr_recipient_conversation_id r) (rr_recipient_sender_id r)))]
     @ (if query then [(''operation'', JStr ''reconcile'')] else [])"

definition robot_agent_name :: "bool \<Rightarrow> string" where
  "robot_agent_name query = (if query then ''experience-im-outbox-reconciliation'' else ''experience-im-outbox'')"

definition robot_entrypoint :: "bool \<Rightarrow> string" where
  "robot_entrypoint query =
     (if query then ''dingtalk-robot-outbox-reconciliation'' else ''dingtalk-robot-outbox'')"

text \<open>\<open>_resolve\<close> for a request that pins a capability version.\<close>

definition resolve_row :: "uuid \<Rightarrow> string \<Rightarrow> string \<Rightarrow> uuid \<Rightarrow> resolved_capability \<Rightarrow> bool" where
  "resolve_row org name environment version_id rc \<longleftrightarrow>
     preflight_row org name environment rc
     \<and> cv_organization_id (rc_version rc) = org \<and> cv_id (rc_version rc) = version_id"

definition resolve_robot :: "bool \<Rightarrow> 'a robot_request_scheme \<Rightarrow> db \<Rightarrow> resolved_capability option" where
  "resolve_robot query r d =
     find (\<lambda>rc. selector_matches (cb_resource_selector (rc_binding rc)) (robot_resource query r))
       (sort_key (\<lambda>rc. - cv_version (rc_version rc))
         (filter (resolve_row (p_organization_id (rr_principal r)) DINGTALK_ROBOT_CAPABILITY
                    (rr_environment r) (rr_capability_version_id r)) (capability_rows d)))"

definition connector_grant_allows :: "connector_row \<Rightarrow> capability_version_row \<Rightarrow> bool" where
  "connector_grant_allows c version \<longleftrightarrow>
     JStr ''*'' \<in> set (con_declared_grants c)
     \<or> JStr (cv_permission_action version) \<in> set (con_declared_grants c)"

definition dingtalk_robot_contract_valid ::
  "ext \<Rightarrow> resolved_capability \<Rightarrow> 'a robot_request_scheme \<Rightarrow> bool" where
  "dingtalk_robot_contract_valid x rc r \<longleftrightarrow>
     (let version = rc_version rc; connector = rc_connector rc
      in cd_name (rc_definition rc) = DINGTALK_ROBOT_CAPABILITY
       \<and> cv_risk_level version = Risk_L2 \<and> cv_side_effect version = Side_WRITE
       \<and> cv_permission_action version = ''im.reply.deliver''
       \<and> cv_transport version = Transport_HTTP
       \<and> con_id connector = rr_connector_id r
       \<and> con_connector_type connector = ''dingtalk-robot''
       \<and> map_of (con_configuration connector) ''protocol'' = Some (JStr DINGTALK_ROBOT_PROTOCOL)
       \<and> rr_conversation_type r \<in> {''direct'', ''group''}
       \<and> (rr_conversation_type r = ''direct''
          \<or> (case rr_recipient_conversation_id r of None \<Rightarrow> False | Some c \<Rightarrow> strip c \<noteq> []))
       \<and> rr_connector_fingerprint r = connector_fingerprint x connector)"

definition validate_capability :: "ext \<Rightarrow> json \<Rightarrow> jobj \<Rightarrow> string \<Rightarrow> err + unit" where
  "validate_capability x schema payload code =
     (case ext_schema x schema (JObj payload) of
        None \<Rightarrow> Inr ()
      | Some path \<Rightarrow> Inl (ValidationError code ''Capability payload does not match its schema''
                          [(''path'', JStr path)]))"

definition configured_rate_limit :: "connector_row \<Rightarrow> int option" where
  "configured_rate_limit c =
     (case map_of (con_configuration c) ''rate_limit_per_minute'' of Some (JInt i) \<Rightarrow> Some i | _ \<Rightarrow> None)"

definition robot_rate_key :: "'a robot_request_scheme \<Rightarrow> resolved_capability \<Rightarrow> string" where
  "robot_rate_key r rc =
     join '':'' [uuid_str (p_organization_id (rr_principal r)), uuid_str (p_id (rr_principal r)),
                uuid_str (cv_id (rc_version rc)), uuid_str (con_id (rc_connector rc))]"

section \<open>Records\<close>

definition robot_event :: "im_env \<Rightarrow> time \<Rightarrow> 'a robot_request_scheme \<Rightarrow> string \<Rightarrow> jobj \<Rightarrow> (im_world, unit) op" where
  "robot_event e now r name payload =
     im_db (andthen (append_event (ie_ext e) now
       ((EventDraft name ''run'' (rr_run_id r) (p_organization_id (rr_principal r)) (rr_run_id r)
           Actor_SYSTEM None payload)\<lparr>ed_run_id := Some (rr_run_id r)\<rparr>)) (\<lambda>_. ret ()))"

definition robot_audit ::
  "time \<Rightarrow> bool \<Rightarrow> 'a robot_request_scheme \<Rightarrow> resolved_capability \<Rightarrow> uuid \<Rightarrow> string \<Rightarrow> int option \<Rightarrow> jobj \<Rightarrow>
   (im_world, unit) op" where
  "robot_audit now query r rc decision outcome latency metadata =
     im_db (andthen (write_audit now
       ((AuditDraft (p_organization_id (rr_principal r)) (rr_run_id r) Actor_AGENT None
           (cv_permission_action (rc_version rc)) ''capability'' (uuid_str (cv_id (rc_version rc)))
           outcome metadata)
        \<lparr>ad_risk_level := Some (cv_risk_level (rc_version rc)), ad_policy_decision_id := Some decision,
         ad_latency_ms := latency, ad_capability_version_id := Some (cv_id (rc_version rc)),
         ad_resource := Some (JObj (robot_resource query r)),
         ad_result_classification := Some (cv_data_classification (rc_version rc))\<rparr>)) (\<lambda>_. ret ()))"

text \<open>The audit metadata of a refusal: the sender records an error code, the query a reason.\<close>

definition refusal_metadata :: "bool \<Rightarrow> string \<Rightarrow> string \<Rightarrow> jobj" where
  "refusal_metadata query error_code reason =
     (if query then [(''operation'', JStr ''reconcile''), (''reason'', JStr reason)]
      else [(''error_code'', JStr error_code)])"

section \<open>Admission\<close>

definition robot_policy_input :: "bool \<Rightarrow> 'a robot_request_scheme \<Rightarrow> resolved_capability \<Rightarrow> resource_policy_input" where
  "robot_policy_input query r rc =
     \<lparr>rpi_principal = rr_principal r, rpi_action = cv_permission_action (rc_version rc),
      rpi_resource = robot_resource query r,
      rpi_context = [(''entrypoint'', JStr (robot_entrypoint query)),
                     (''environment'', JStr (rr_environment r))],
      rpi_risk_level = cv_risk_level (rc_version rc),
      rpi_resource_type = (if query then ''im_delivery_reconciliation'' else ''im_delivery''),
      rpi_capability_version_id = Some (cv_id (rc_version rc)),
      rpi_agent_name = robot_agent_name query, rpi_agent_version_id = None,
      rpi_run_id = Some (rr_run_id r), rpi_resource_access_allowed = None\<rparr>"

record robot_refusal =
  rf_reason :: string
  rf_decision :: "uuid option"
  rf_version :: "uuid option"
  rf_connector :: "uuid option"

text \<open>The validation and the rate limiter's answer, an error of theirs being caught.\<close>

definition robot_limit :: "im_env \<Rightarrow> 'a robot_request_scheme \<Rightarrow> resolved_capability \<Rightarrow> err + bool" where
  "robot_limit e r rc =
     (case validate_capability (ie_ext e) (cv_input_schema (rc_version rc)) (robot_payload r)
             ''capability_input_invalid'' of
        Inl err \<Rightarrow> Inl err
      | Inr _ \<Rightarrow> ie_limit e (robot_rate_key r rc) (configured_rate_limit (rc_connector rc)))"

definition limit_error :: "err \<Rightarrow> bool" where
  "limit_error err = (is_obsion err \<or> (case err of PyError n _ \<Rightarrow> n = ''RateLimitUnavailable'' | _ \<Rightarrow> False))"

definition admit_limited ::
  "im_env \<Rightarrow> clock \<Rightarrow> bool \<Rightarrow> 'a robot_request_scheme \<Rightarrow> resolved_capability \<Rightarrow> decision \<Rightarrow>
   (im_world, robot_refusal + resolved_capability \<times> uuid) op" where
  "admit_limited e clk query r rc decision =
     (let refuse = (\<lambda>reason. Inl \<lparr>rf_reason = reason, rf_decision = Some (dn_id decision),
            rf_version = Some (cv_id (rc_version rc)), rf_connector = Some (con_id (rc_connector rc))\<rparr>)
      in case robot_limit e r rc of
           Inl err \<Rightarrow>
             if limit_error err
             then andthen (robot_audit (clk 2) query r rc (dn_id decision) ''FAILED'' None
                    (refusal_metadata query ''delivery_gateway_unavailable'' ''delivery_gateway_unavailable''))
                    (\<lambda>_. ret (refuse ''delivery_gateway_unavailable''))
             else raise err
         | Inr allowed \<Rightarrow>
             if \<not> allowed
             then andthen (if query then ret ()
                           else robot_event e (clk 2) r ''capability.rate_limited''
                                  [(''capability'', JStr DINGTALK_ROBOT_CAPABILITY)]) (\<lambda>_.
                  andthen (robot_audit (clk 3) query r rc (dn_id decision) ''DENIED'' None
                    (refusal_metadata query ''capability_rate_limited'' ''capability_rate_limited''))
                    (\<lambda>_. ret (refuse ''capability_rate_limited'')))
             else ret (Inr (rc, dn_id decision)))"

definition robot_admission ::
  "im_env \<Rightarrow> clock \<Rightarrow> bool \<Rightarrow> 'a robot_request_scheme \<Rightarrow>
   (im_world, robot_refusal + resolved_capability \<times> uuid) op" where
  "robot_admission e clk query r =
     andthen (reads (\<lambda>w. resolve_robot query r (iw_db w))) (\<lambda>row.
     case row of
       None \<Rightarrow> ret (Inl \<lparr>rf_reason = ''capability_unavailable'', rf_decision = None, rf_version = None,
                        rf_connector = None\<rparr>)
     | Some rc \<Rightarrow>
         (let refuse = (\<lambda>reason decision. Inl \<lparr>rf_reason = reason, rf_decision = decision,
                rf_version = Some (cv_id (rc_version rc)), rf_connector = Some (con_id (rc_connector rc))\<rparr>)
          in if \<not> dingtalk_robot_contract_valid (ie_ext e) rc r
             then ret (refuse ''delivery_configuration_invalid'' None)
             else
               andthen (im_db (evaluate_resource (ie_ext e) (clk 0) (robot_policy_input query r rc))) (\<lambda>decision.
               andthen (robot_event e (clk 1) r ''policy.decided''
                  [(''decision_id'', JStr (uuid_str (dn_id decision))),
                   (''effect'', JStr (decision_effect_value (dn_effect decision))),
                   (''reason_codes'', JList (map JStr (dn_reason_codes decision)))]) (\<lambda>_.
               if dn_effect decision \<noteq> Effect_ALLOW \<or> dn_obligations decision \<noteq> []
               then andthen (robot_audit (clk 2) query r rc (dn_id decision) ''DENIED'' None
                      (refusal_metadata query ''im_delivery_denied'' ''delivery_not_authorized'')) (\<lambda>_.
                    ret (refuse ''delivery_not_authorized'' (Some (dn_id decision))))
               else if \<not> connector_grant_allows (rc_connector rc) (rc_version rc)
               then andthen (robot_audit (clk 2) query r rc (dn_id decision) ''DENIED'' None
                      (refusal_metadata query ''connector_grant_missing'' ''connector_grant_missing'')) (\<lambda>_.
                    ret (refuse ''connector_grant_missing'' (Some (dn_id decision))))
               else admit_limited e clk query r rc decision))))"

section \<open>The two entries\<close>

text \<open>\<open>credentials.resolve\<close> and the check that follows it.\<close>

definition robot_credential :: "im_env \<Rightarrow> 'a robot_request_scheme \<Rightarrow> resolved_capability \<Rightarrow> (im_world, string) op" where
  "robot_credential e r rc =
     andthen (reads (\<lambda>w. resolve_credential (ie_ext e) (con_credential_ref (rc_connector rc))
        (p_organization_id (rr_principal r)) (iw_db w))) (\<lambda>found.
     andthen (from_sum found) (\<lambda>credential.
     (case credential of
        Some c \<Rightarrow> if c \<noteq> [] then ret c
                  else raise (ValidationError ''credential_unavailable''
                         ''The connector credential is not available'' [])
      | None \<Rightarrow> raise (ValidationError ''credential_unavailable''
                         ''The connector credential is not available'' []))))"

definition vendor_wire :: "im_env \<Rightarrow> uuid \<Rightarrow> robot_post \<Rightarrow> (im_world, http_answer) op" where
  "vendor_wire e oid m =
     andthen (modify (\<lambda>w. w\<lparr>iw_posts := iw_posts w @ [(oid, m)]\<rparr>)) (\<lambda>_. ret (ie_send_answer e m))"

definition delivery_error :: "err \<Rightarrow> bool" where
  "delivery_error err =
     (case err of PyError n _ \<Rightarrow> n \<in> {''OSError'', ''TimeoutError'', ''ValueError''} | _ \<Rightarrow> False)"

text \<open>The \<open>try\<close> block of the sender and its handlers.\<close>

definition robot_attempt ::
  "im_env \<Rightarrow> (im_world, bool) op \<Rightarrow> robot_outbox_request \<Rightarrow> resolved_capability \<Rightarrow> (im_world, robot_send_result) op"
where
  "robot_attempt e authorize_send r rc =
     catching delivery_error
       (catching is_obsion
         (andthen (robot_credential e r rc) (\<lambda>credential.
          andthen (from_sum (RobotCredentials (rr_app_key r) credential)) (\<lambda>credentials.
          if rr_conversation_type r = ''group''
          then (case rr_recipient_conversation_id r of
                  Some c \<Rightarrow>
                    if c = [] then raise (ValueError ''Group delivery requires an open conversation id'')
                    else send_group_text (ie_token_answer e) (vendor_wire e (rr_outbox_id r)) authorize_send
                           credentials (rr_robot_code r) c (rr_text r)
                | None \<Rightarrow> raise (ValueError ''Group delivery requires an open conversation id''))
          else send_text (ie_token_answer e) (vendor_wire e (rr_outbox_id r)) authorize_send credentials
                 (rr_robot_code r) (rr_recipient_sender_id r) (rr_text r))))
         (\<lambda>_. ret (RobotSendResult Send_NOT_ATTEMPTED None (Some ''credential_unavailable''))))
       (\<lambda>_. ret (RobotSendResult Send_NOT_ATTEMPTED None (Some ''delivery_precondition_failed'')))"

definition opt_text :: "string option \<Rightarrow> json" where
  "opt_text s = (case s of None \<Rightarrow> JNull | Some v \<Rightarrow> JStr v)"

definition invoke_dingtalk_robot_outbox ::
  "im_env \<Rightarrow> clock \<Rightarrow> (im_world, bool) op \<Rightarrow> robot_outbox_request \<Rightarrow> (im_world, robot_outbox_result) op" where
  "invoke_dingtalk_robot_outbox e clk authorize_send r =
     andthen (robot_admission e clk False r) (\<lambda>admitted.
     case admitted of
       Inl refusal \<Rightarrow>
         ret \<lparr>ror_send = RobotSendResult Send_NOT_ATTEMPTED None (Some (rf_reason refusal)),
              ror_policy_decision_id = rf_decision refusal, ror_capability_version_id = rf_version refusal,
              ror_connector_id = rf_connector refusal\<rparr>
     | Inr (rc, decision) \<Rightarrow>
         andthen (robot_event e (clk 4) r ''tool.started''
            [(''capability'', JStr (cd_name (rc_definition rc))),
             (''connector'', JStr (con_name (rc_connector rc)))]) (\<lambda>_.
         andthen (robot_attempt e authorize_send r rc) (\<lambda>outcome.
         andthen (robot_event e (clk 40) r ''im.delivery.attempted''
            [(''capability'', JStr (cd_name (rc_definition rc))),
             (''outbox_id'', JStr (uuid_str (rr_outbox_id r))),
             (''state'', JStr (robot_send_state_value (rs_state outcome))),
             (''latency_ms'', JInt (ie_latency_ms e))]) (\<lambda>_.
         andthen (robot_audit (clk 41) False r rc decision
            (if rs_state outcome = Send_ACCEPTED then ''SUCCESS'' else robot_send_state_value (rs_state outcome))
            (Some (ie_latency_ms e))
            [(''state'', JStr (robot_send_state_value (rs_state outcome))),
             (''reason'', opt_text (rs_reason outcome))]) (\<lambda>_.
         ret \<lparr>ror_send = outcome, ror_policy_decision_id = Some decision,
              ror_capability_version_id = Some (cv_id (rc_version rc)),
              ror_connector_id = Some (con_id (rc_connector rc))\<rparr>)))))"

definition robot_query ::
  "im_env \<Rightarrow> robot_outbox_query_request \<Rightarrow> resolved_capability \<Rightarrow> (im_world, robot_query_result) op" where
  "robot_query e r rc =
     catching delivery_error
       (catching is_obsion
         (andthen (robot_credential e r rc) (\<lambda>credential.
          andthen (from_sum (RobotCredentials (rr_app_key r) credential)) (\<lambda>credentials.
          from_sum (query_status (ie_token_answer e) (ie_query_answer e) credentials (rr_robot_code r)
            (if rr_conversation_type r = ''direct'' then Some (rr_recipient_sender_id r) else None)
            (if rr_conversation_type r = ''group'' then rr_recipient_conversation_id r else None)
            (rr_process_query_key r)))))
         (\<lambda>_. ret (RobotQueryResult Query_UNKNOWN None (Some ''credential_unavailable''))))
       (\<lambda>_. ret (RobotQueryResult Query_UNKNOWN None (Some ''reconciliation_unavailable'')))"

definition reconcile_dingtalk_robot_outbox ::
  "im_env \<Rightarrow> clock \<Rightarrow> robot_outbox_query_request \<Rightarrow> (im_world, robot_outbox_query_result) op" where
  "reconcile_dingtalk_robot_outbox e clk r =
     andthen (robot_admission e clk True r) (\<lambda>admitted.
     case admitted of
       Inl refusal \<Rightarrow>
         ret \<lparr>roq_query = RobotQueryResult Query_UNKNOWN None (Some (rf_reason refusal)),
              roq_policy_decision_id = rf_decision refusal, roq_capability_version_id = rf_version refusal,
              roq_connector_id = rf_connector refusal\<rparr>
     | Inr (rc, decision) \<Rightarrow>
         andthen (robot_query e r rc) (\<lambda>query.
         andthen (robot_audit (clk 4) True r rc decision
            (if rq_state query = Query_SUCCESS then ''SUCCESS'' else robot_query_state_value (rq_state query))
            (Some (ie_latency_ms e))
            [(''operation'', JStr ''reconcile''),
             (''state'', JStr (robot_query_state_value (rq_state query))),
             (''send_status'', opt_text (rq_send_status query)),
             (''read_status'', opt_text (rq_read_status query)),
             (''reason'', opt_text (rq_reason query))]) (\<lambda>_.
         ret \<lparr>roq_query = query, roq_policy_decision_id = Some decision,
              roq_capability_version_id = Some (cv_id (rc_version rc)),
              roq_connector_id = Some (con_id (rc_connector rc))\<rparr>)))"

section \<open>What the entries leave alone\<close>

text \<open>The messaging tables: everything but the shared store and the log of messages.\<close>

definition im_tables :: "im_world \<Rightarrow> im_world" where
  "im_tables w = w\<lparr>iw_db := empty_db, iw_posts := []\<rparr>"

lemma im_tables_fields:
  assumes "im_tables w' = im_tables w"
  shows "iw_inbox w' = iw_inbox w" "iw_installations w' = iw_installations w" "iw_bindings w' = iw_bindings w"
    "iw_audiences w' = iw_audiences w" "iw_artifacts w' = iw_artifacts w" "iw_deliveries w' = iw_deliveries w"
  using assms by (cases w; cases w'; simp add: im_tables_def)+

lemma im_db_keeps [simp]: "keeps im_tables (im_db m)" "keeps iw_posts (im_db m)"
  by (simp_all add: keeps_def im_db_def zoom_def im_tables_def case_prod_beta)

lemma robot_records_keep [simp]:
  "keeps im_tables (robot_event e now r n p)" "keeps iw_posts (robot_event e now r n p)"
  "keeps im_tables (robot_audit now q r rc d oc l md)" "keeps iw_posts (robot_audit now q r rc d oc l md)"
  by (simp_all add: robot_event_def robot_audit_def)

lemma robot_credential_reads: "keeps f (robot_credential e r rc)"
  unfolding robot_credential_def by (intro keeps_intros) (auto intro!: keeps_intros split: option.split)

lemma admit_limited_keeps:
  "keeps im_tables (admit_limited e clk q r rc d)" "keeps iw_posts (admit_limited e clk q r rc d)"
  unfolding admit_limited_def Let_def by (intro keeps_intros; simp)+

lemma robot_admission_keeps:
  "keeps im_tables (robot_admission e clk q r)" "keeps iw_posts (robot_admission e clk q r)"
  unfolding robot_admission_def Let_def by (intro keeps_intros admit_limited_keeps; simp)+

lemma catching_keeps: "keeps f m \<Longrightarrow> (\<And>x. keeps f (h x)) \<Longrightarrow> keeps f (catching p m h)"
  unfolding catching_def by (intro keeps_intros) auto

lemma robot_query_keeps: "keeps f (robot_query e r rc)"
  unfolding robot_query_def by (intro catching_keeps keeps_intros robot_credential_reads) simp_all

lemma reconcile_robot_keeps:
  "keeps im_tables (reconcile_dingtalk_robot_outbox e clk r)" "keeps iw_posts (reconcile_dingtalk_robot_outbox e clk r)"
  unfolding reconcile_dingtalk_robot_outbox_def
  by (intro keeps_intros robot_admission_keeps robot_query_keeps; simp)+

section \<open>At most one message per call\<close>

text \<open>What admission guarantees: a bound active row, its contract, and a recorded unconditional \<open>ALLOW\<close>.\<close>

definition robot_admitted :: "im_env \<Rightarrow> bool \<Rightarrow> 'a robot_request_scheme \<Rightarrow> db \<Rightarrow> bool" where
  "robot_admitted e query r d \<longleftrightarrow>
     (\<exists>rc. resolve_robot query r d = Some rc \<and> dingtalk_robot_contract_valid (ie_ext e) rc r
        \<and> fst (resolve_resource (robot_policy_input query r rc) d) = Effect_ALLOW
        \<and> fst (snd (resolve_resource (robot_policy_input query r rc) d)) = []
        \<and> connector_grant_allows (rc_connector rc) (rc_version rc)
        \<and> robot_limit e r rc = Inr True)"

lemma evaluate_resource_resolves:
  "evaluate_resource x now r d = (Inr dn, d') \<Longrightarrow>
     dn_effect dn = fst (resolve_resource r d) \<and> dn_obligations dn = fst (snd (resolve_resource r d))"
  by (auto simp: evaluate_resource_def andthen_Inr Let_def split: prod.splits)

lemma robot_admission_admits:
  assumes "robot_admission e clk q r w = (Inr (Inr (rc, i)), w')"
  shows "robot_admitted e q r (iw_db w)"
proof -
  have limited: "robot_limit e r rc' = Inr True"
    if "admit_limited e clk q r rc' dn w1 = (Inr (Inr x), w2)" for rc' dn w1 w2 x
    using that by (auto simp: admit_limited_def Let_def andthen_Inr split: sum.splits if_splits)
  show ?thesis
    using assms
    by (auto simp: robot_admission_def Let_def andthen_Inr robot_admitted_def im_db_iff
        split: option.splits if_splits dest!: limited evaluate_resource_resolves)
qed

locale robot_sender =
  fixes e :: im_env and authorize :: "(im_world, bool) op"
  assumes authorize_posts: "authorize s = (v, s') \<Longrightarrow> iw_posts s' = iw_posts s"

sublocale robot_sender \<subseteq> channel: message_channel "vendor_wire e oid" iw_posts "Pair oid" authorize for oid
  by unfold_locales (auto simp: vendor_wire_def op_simps dest: authorize_posts)

context robot_sender begin

abbreviation sent_at_most :: "uuid \<Rightarrow> robot_post \<Rightarrow> im_world \<Rightarrow> err + robot_send_result \<Rightarrow> im_world \<Rightarrow> bool" where
  "sent_at_most oid \<equiv> channel.sent_at_most oid"

lemma catching_sent:
  assumes "sent_at_most oid m w (fst (k w)) (snd (k w))" and "\<not> p (PyError ''CancelledError'' [])"
    and "\<And>err. rs_state (h err) = Send_NOT_ATTEMPTED"
  shows "sent_at_most oid m w (fst (catching p k (\<lambda>err. ret (h err)) w)) (snd (catching p k (\<lambda>err. ret (h err)) w))"
proof -
  obtain v w1 where "k w = (v, w1)" by (cases "k w")
  then show ?thesis using assms
    by (cases v) (auto simp: catching_def attempt_def op_simps channel.sent_at_most_def)
qed

lemma robot_attempt_sent:
  "\<exists>m. rp_text m = rr_text r \<and>
     sent_at_most (rr_outbox_id r) m w (fst (robot_attempt e authorize r rc w)) (snd (robot_attempt e authorize r rc w))"
proof -
  let ?na = "\<lambda>reason (err::err). RobotSendResult Send_NOT_ATTEMPTED None (Some reason)"
  define body where "body = andthen (robot_credential e r rc) (\<lambda>credential.
          andthen (from_sum (RobotCredentials (rr_app_key r) credential)) (\<lambda>credentials.
          if rr_conversation_type r = ''group''
          then (case rr_recipient_conversation_id r of
                  Some c \<Rightarrow>
                    if c = [] then raise (ValueError ''Group delivery requires an open conversation id'')
                    else send_group_text (ie_token_answer e) (vendor_wire e (rr_outbox_id r)) authorize
                           credentials (rr_robot_code r) c (rr_text r)
                | None \<Rightarrow> raise (ValueError ''Group delivery requires an open conversation id''))
          else send_text (ie_token_answer e) (vendor_wire e (rr_outbox_id r)) authorize credentials
                 (rr_robot_code r) (rr_recipient_sender_id r) (rr_text r)))"
  have "\<exists>m. rp_text m = rr_text r \<and> sent_at_most (rr_outbox_id r) m w (fst (body w)) (snd (body w))"
  proof -
    obtain c w1 where c: "robot_credential e r rc w = (c, w1)" by (cases "robot_credential e r rc w")
    have w1: "w1 = w" using keepsD [OF robot_credential_reads [where f = "\<lambda>w. w"] c] .
    have quiet: "\<exists>m. rp_text m = rr_text r \<and> sent_at_most (rr_outbox_id r) m w (Inl err) w" for err
      by (rule exI [of _ "\<lparr>rp_path = [], rp_robot_code = [], rp_recipient = [], rp_text = rr_text r\<rparr>"])
        (simp add: channel.sent_at_most_def)
    show ?thesis
    proof (cases c)
      case (Inl err)
      then show ?thesis using quiet c w1 by (simp add: body_def andthen_def)
    next
      case (Inr credential)
      show ?thesis
      proof (cases "RobotCredentials (rr_app_key r) credential")
        case (Inl err)
        then show ?thesis using quiet c w1 Inr by (simp add: body_def andthen_def op_simps)
      next
        case (Inr cr)
        have b: "body w = (if rr_conversation_type r = ''group''
          then (case rr_recipient_conversation_id r of
                  Some c \<Rightarrow>
                    if c = [] then raise (ValueError ''Group delivery requires an open conversation id'')
                    else send_group_text (ie_token_answer e) (vendor_wire e (rr_outbox_id r)) authorize
                           cr (rr_robot_code r) c (rr_text r)
                | None \<Rightarrow> raise (ValueError ''Group delivery requires an open conversation id''))
          else send_text (ie_token_answer e) (vendor_wire e (rr_outbox_id r)) authorize cr
                 (rr_robot_code r) (rr_recipient_sender_id r) (rr_text r)) w"
          unfolding body_def using c w1 Inr \<open>c = Inr credential\<close>
          by (simp add: andthen_step [where m = "robot_credential e r rc"] from_sum_andthen)
        have group: "\<exists>m. rp_text m = rr_text r \<and>
            sent_at_most (rr_outbox_id r) m w
              (fst (send_group_text (ie_token_answer e) (vendor_wire e (rr_outbox_id r)) authorize cr
                 (rr_robot_code r) c (rr_text r) w))
              (snd (send_group_text (ie_token_answer e) (vendor_wire e (rr_outbox_id r)) authorize cr
                 (rr_robot_code r) c (rr_text r) w))" for c
          using channel.send_group_text_sent by blast
        have direct: "\<exists>m. rp_text m = rr_text r \<and>
            sent_at_most (rr_outbox_id r) m w
              (fst (send_text (ie_token_answer e) (vendor_wire e (rr_outbox_id r)) authorize cr
                 (rr_robot_code r) (rr_recipient_sender_id r) (rr_text r) w))
              (snd (send_text (ie_token_answer e) (vendor_wire e (rr_outbox_id r)) authorize cr
                 (rr_robot_code r) (rr_recipient_sender_id r) (rr_text r) w))"
          using channel.send_text_sent by blast
        show ?thesis using quiet group direct unfolding b by (simp add: raise_def split: option.split)
      qed
    qed
  qed
  then obtain m where m: "rp_text m = rr_text r" "sent_at_most (rr_outbox_id r) m w (fst (body w)) (snd (body w))"
    by blast
  have "sent_at_most (rr_outbox_id r) m w
      (fst (catching delivery_error (catching is_obsion body (\<lambda>err. ret (?na ''credential_unavailable'' err)))
        (\<lambda>err. ret (?na ''delivery_precondition_failed'' err)) w))
      (snd (catching delivery_error (catching is_obsion body (\<lambda>err. ret (?na ''credential_unavailable'' err)))
        (\<lambda>err. ret (?na ''delivery_precondition_failed'' err)) w))"
    by (rule catching_sent, rule catching_sent, rule m(2))
      (simp_all add: is_obsion_def delivery_error_def RobotSendResult_def)
  then show ?thesis using m(1) unfolding robot_attempt_def body_def by blast
qed

text \<open>The contract of the entry.\<close>

definition robot_sent :: "robot_outbox_request \<Rightarrow> im_world \<Rightarrow> err + robot_outbox_result \<Rightarrow> im_world \<Rightarrow> bool" where
  "robot_sent r w v w' \<longleftrightarrow>
     iw_posts w' = iw_posts w \<and> (\<forall>x. v = Inr x \<longrightarrow> rs_state (ror_send x) = Send_NOT_ATTEMPTED)
     \<or> (\<exists>m. iw_posts w' = iw_posts w @ [(rr_outbox_id r, m)] \<and> rp_text m = rr_text r)
       \<and> robot_admitted e False r (iw_db w)
       \<and> (\<exists>s t. im_tables s = im_tables w \<and> authorize s = (Inr True, t))
       \<and> (\<forall>x. v = Inr x \<longrightarrow> rs_state (ror_send x) \<noteq> Send_NOT_ATTEMPTED)"

lemma invoke_sent:
  assumes "invoke_dingtalk_robot_outbox e clk authorize r w = (v, w')"
  shows "robot_sent r w v w'"
proof -
  obtain a w1 where a: "robot_admission e clk False r w = (a, w1)" by (cases "robot_admission e clk False r w")
  have p1: "iw_posts w1 = iw_posts w" and t1: "im_tables w1 = im_tables w"
    using keepsD [OF robot_admission_keeps(2) a] keepsD [OF robot_admission_keeps(1) a] by auto
  show ?thesis
  proof (cases a)
    case (Inl err)
    then show ?thesis using assms a p1
      by (auto simp: invoke_dingtalk_robot_outbox_def andthen_def robot_sent_def)
  next
    case (Inr admitted)
    show ?thesis
    proof (cases admitted)
      case (Inl refusal)
      then show ?thesis using assms a p1 Inr
        by (auto simp: invoke_dingtalk_robot_outbox_def andthen_def robot_sent_def op_simps RobotSendResult_def)
    next
      case go: (Inr pair)
      obtain rc i where pair: "pair = (rc, i)" by (cases pair)
      have ok: "robot_admitted e False r (iw_db w)" using robot_admission_admits a Inr go pair by blast
      let ?ev = "robot_event e (clk 4) r ''tool.started''
            [(''capability'', JStr (cd_name (rc_definition rc))),
             (''connector'', JStr (con_name (rc_connector rc)))]"
      let ?rest = "\<lambda>outcome. andthen (robot_event e (clk 40) r ''im.delivery.attempted''
            [(''capability'', JStr (cd_name (rc_definition rc))),
             (''outbox_id'', JStr (uuid_str (rr_outbox_id r))),
             (''state'', JStr (robot_send_state_value (rs_state outcome))),
             (''latency_ms'', JInt (ie_latency_ms e))]) (\<lambda>_.
         andthen (robot_audit (clk 41) False r rc i
            (if rs_state outcome = Send_ACCEPTED then ''SUCCESS'' else robot_send_state_value (rs_state outcome))
            (Some (ie_latency_ms e))
            [(''state'', JStr (robot_send_state_value (rs_state outcome))),
             (''reason'', opt_text (rs_reason outcome))]) (\<lambda>_.
         ret \<lparr>ror_send = outcome, ror_policy_decision_id = Some i,
              ror_capability_version_id = Some (cv_id (rc_version rc)),
              ror_connector_id = Some (con_id (rc_connector rc))\<rparr>))"
      have run: "andthen ?ev (\<lambda>_. andthen (robot_attempt e authorize r rc) ?rest) w1 = (v, w')"
        using assms a Inr go pair by (simp add: invoke_dingtalk_robot_outbox_def andthen_def)
      obtain ev w2 where ev: "?ev w1 = (ev, w2)" by (cases "?ev w1")
      have p2: "iw_posts w2 = iw_posts w" and t2: "im_tables w2 = im_tables w"
        using keepsD [OF robot_records_keep(2) ev] keepsD [OF robot_records_keep(1) ev] p1 t1 by auto
      show ?thesis
      proof (cases ev)
        case (Inl err)
        then show ?thesis using run ev p2 by (auto simp: andthen_def robot_sent_def)
      next
        case (Inr u)
        obtain ov w3 where attempt: "robot_attempt e authorize r rc w2 = (ov, w3)"
          by (cases "robot_attempt e authorize r rc w2")
        obtain m where m: "rp_text m = rr_text r" and sent: "sent_at_most (rr_outbox_id r) m w2 ov w3"
          using robot_attempt_sent [of r w2 rc] attempt by auto
        have tail: "(case ov of Inl err \<Rightarrow> (Inl err, w3) | Inr outcome \<Rightarrow> ?rest outcome w3) = (v, w')"
          using run ev Inr attempt by (simp add: andthen_def split: sum.split)
        have quiet: "keeps iw_posts (?rest outcome)" for outcome
          by (intro keeps_intros) simp_all
        have p3: "iw_posts w' = iw_posts w3"
          using tail keepsD [OF quiet] by (auto split: sum.splits)
        have res: "\<exists>outcome. ov = Inr outcome \<and> ror_send x = outcome" if "v = Inr x" for x
          using tail that by (auto simp: andthen_Inr split: sum.splits)
        show ?thesis
          using sent m p2 p3 t2 ok res unfolding channel.sent_at_most_def robot_sent_def
          by (smt (verit) Inr_not_Inl sum.inject(2))
      qed
    qed
  qed
qed

end

end
