(* ===== verification/DingTalkInputs.thy ===== *)
theory DingTalkInputs
  imports RobotGateway
begin

text \<open>
  What the delivery ledger of \<open>application/dingtalk_outbox.py\<close> reads before it acts: the public
  identity of a connector, the readiness of an installation, the answer of a run, the access of
  the recipient and the audience of a group; and the helpers that block a row, set its error
  code and audit it.

  \<open>require_run_content\<close> is \<open>require_run_access\<close> with \<open>source_content\<close>, on this state. A row loaded
  \<open>FOR UPDATE\<close> is passed along and written back with \<open>put_delivery\<close>.

  The lemmas are the frames of these helpers: none of them sends a message, and only the last
  group writes the ledger.
\<close>

section \<open>Configuration of a connector\<close>

definition env_name_ok :: "string \<Rightarrow> bool" where
  "env_name_ok s \<longleftrightarrow>
     take 7 s = ''OBSION_''
     \<and> (case drop 7 s of [] \<Rightarrow> False | c # cs \<Rightarrow>
          is_upper c \<and> list_all (\<lambda>d. is_upper d \<or> is_digit d \<or> d = CHR ''_'') cs)"

definition configured_identity :: "ext \<Rightarrow> connector_row \<Rightarrow> string \<Rightarrow> string option \<Rightarrow> string" where
  "configured_identity x c key fallback =
     (case cond_get (con_configuration c) (key @ ''_env'') JNull of
        JNull \<Rightarrow>
          (case map_of (con_configuration c) key of
             Some (JStr v) \<Rightarrow> strip v
           | Some _ \<Rightarrow> []
           | None \<Rightarrow> (case fallback of None \<Rightarrow> [] | Some v \<Rightarrow> strip v))
      | JStr name \<Rightarrow>
          if env_name_ok name
          then strip (case ext_environ x name of None \<Rightarrow> [] | Some v \<Rightarrow> v)
          else []
      | _ \<Rightarrow> [])"

definition app_key_of :: "ext \<Rightarrow> connector_row \<Rightarrow> im_installation_row \<Rightarrow> string" where
  "app_key_of x c i = configured_identity x c ''app_key'' (ii_external_app_id i)"

definition robot_code_of :: "ext \<Rightarrow> connector_row \<Rightarrow> im_installation_row \<Rightarrow> string" where
  "robot_code_of x c i = configured_identity x c ''robot_code'' (Some (app_key_of x c i))"

definition queue_is_ready ::
  "ext \<Rightarrow> im_inbox_message_row \<Rightarrow> im_installation_row \<Rightarrow> im_installation_binding_row \<Rightarrow> connector_row \<Rightarrow>
   uuid option \<Rightarrow> bool" where
  "queue_is_ready x m i b c version \<longleftrightarrow>
     im_conversation_type m \<in> {''direct'', ''group''}
     \<and> ii_provider i = Some ''dingtalk'' \<and> ii_status i = Some ''ACTIVE''
     \<and> ib_active b \<and> ib_id b = im_binding_id m
     \<and> ib_user_id b = im_subject_user_id m \<and> ib_sender_id b = im_sender_id m
     \<and> con_status c = Connector_ACTIVE \<and> con_connector_type c = ''dingtalk-robot''
     \<and> map_of (con_configuration c) ''protocol'' = Some (JStr DINGTALK_ROBOT_PROTOCOL)
     \<and> version \<noteq> None
     \<and> strip (app_key_of x c i) \<noteq> [] \<and> strip (robot_code_of x c i) \<noteq> []"

definition bound_capability_version :: "uuid \<Rightarrow> uuid \<Rightarrow> string \<Rightarrow> db \<Rightarrow> uuid option" where
  "bound_capability_version org connector_id environment d =
     map_option cv_id (first_by (\<lambda>cv. - cv_version cv)
       [cv. cd \<leftarrow> t_capability_definitions d,
            cd_organization_id cd = org \<and> cd_name cd = DINGTALK_ROBOT_CAPABILITY \<and> cd_status cd = Registry_ACTIVE,
            cv \<leftarrow> t_capability_versions d,
            cv_capability_id cv = cd_id cd \<and> cv_organization_id cv = org \<and> cv_risk_level cv = Risk_L2
            \<and> cv_side_effect cv = Side_WRITE \<and> cv_permission_action cv = ''im.reply.deliver'',
            cb \<leftarrow> t_bindings d,
            cb_capability_version_id cb = cv_id cv \<and> cb_organization_id cb = org
            \<and> cb_connector_id cb = connector_id \<and> cb_environment cb = environment \<and> cb_enabled cb])"

section \<open>The answer of a run\<close>

definition nonblank_text :: "json option \<Rightarrow> string option" where
  "nonblank_text v = (case v of Some (JStr s) \<Rightarrow> if strip s \<noteq> [] then Some s else None | _ \<Rightarrow> None)"

definition answer_for_run_metadata :: "uuid \<Rightarrow> uuid \<Rightarrow> im_world \<Rightarrow> err + string \<times> string" where
  "answer_for_run_metadata org rid w =
     (case first_by (\<lambda>a. - art_created_at a)
             (filter (\<lambda>a. art_organization_id a = org \<and> art_run_id a = Some rid \<and> art_kind a = Kind_TEXT
                        \<and> art_title a = ''Obsion answer'') (iw_artifacts w)) of
        None \<Rightarrow> Inl (ValueError ''missing answer artifact'')
      | Some a \<Rightarrow>
          (case art_inline_content a of
             Some (JObj content) \<Rightarrow>
               (case (nonblank_text (map_of content ''markdown''), nonblank_text (map_of content ''text'')) of
                  (Some t, _) \<Rightarrow> Inr (strip t, classification_value (art_classification a))
                | (None, Some t) \<Rightarrow> Inr (strip t, classification_value (art_classification a))
                | (None, None) \<Rightarrow> Inl (ValueError ''missing answer text''))
           | _ \<Rightarrow> Inl (ValueError ''missing answer artifact'')))"

definition classification_rank :: "string \<Rightarrow> int option" where
  "classification_rank c =
     map_of [(''PUBLIC'', 0), (''INTERNAL'', 1), (''CONFIDENTIAL'', 2), (''RESTRICTED'', 3)] c"

section \<open>Access\<close>

definition access_denied :: "err \<Rightarrow> bool" where
  "access_denied e = (case e of ObsionErr c _ _ _ \<Rightarrow> c = AuthorizationC \<or> c = NotFoundC | _ \<Rightarrow> False)"

definition access_failed :: "err \<Rightarrow> bool" where
  "access_failed e = (access_denied e \<or> (case e of PyError n _ \<Rightarrow> n = ''ValueError'' | _ \<Rightarrow> False))"

definition require_run_content :: "im_env \<Rightarrow> principal \<Rightarrow> uuid \<Rightarrow> string \<Rightarrow> (im_world, run_row) op" where
  "require_run_content e p rid source_corp_id =
     im_db (require_run_access_content (ie_publication e) p rid False (Some source_corp_id))"

lemma require_run_content_unfold:
  "require_run_content e p rid corp =
     andthen (im_db (require_run_access p rid False)) (\<lambda>run.
     andthen (im_db (ie_publication e \<lparr>pc_principal = p, pc_run_id = rid, pc_stage = ''historical_content'',
        pc_expected_corp_id = Some corp, pc_link_policy_run = False\<rparr>)) (\<lambda>permitted.
     if permitted then ret run else raise (NotFoundError ''Run content'' (uuid_str rid))))"
  by (rule ext)
    (auto simp: require_run_content_def require_run_access_content_def im_db_def zoom_def andthen_def ret_def raise_def
      split: prod.splits sum.splits)

section \<open>Group audiences\<close>

text \<open>\<open>{UUID(str(value)) for value in member_user_ids}\<close>, in ascending order.\<close>

fun parse_members :: "json list \<Rightarrow> uuid list option" where
  "parse_members [] = Some []"
| "parse_members (v # vs) =
     (case (parse_uuid (py_str v), parse_members vs) of
        (Some u, Some us) \<Rightarrow> Some (u # us)
      | _ \<Rightarrow> None)"

definition configured_members :: "im_group_audience_row \<Rightarrow> uuid list option" where
  "configured_members a = map_option (\<lambda>us. sort (remdups us)) (parse_members (ga_member_user_ids a))"

definition thread_workspace :: "uuid \<Rightarrow> run_row \<Rightarrow> db \<Rightarrow> uuid option" where
  "thread_workspace org r d =
     map_option thread_workspace_id (find (\<lambda>t. thread_organization_id t = org) (run_threads d r))"

definition workspace_people :: "uuid \<Rightarrow> uuid \<Rightarrow> db \<Rightarrow> uuid list" where
  "workspace_people org wid d =
     [wm_user_id m. m \<leftarrow> t_members d, wm_organization_id m = org \<and> wm_workspace_id m = wid]
     @ (case find (\<lambda>ws. ws_id ws = wid \<and> ws_organization_id ws = org) (t_workspaces d) of
          None \<Rightarrow> [] | Some ws \<Rightarrow> [ws_owner_id ws])"

text \<open>
  The checks \<open>_load_group_audience_for_delivery\<close> and \<open>_group_delivery\<close> share: the snapshot is
  current, the members parse and contain the principal, and they are people of the run's
  workspace.
\<close>

definition audience_current ::
  "uuid \<Rightarrow> time \<Rightarrow> run_row \<Rightarrow> principal \<Rightarrow> im_group_audience_row \<Rightarrow> db \<Rightarrow> bool" where
  "audience_current org now r p a d \<longleftrightarrow>
     ga_verified_until a > now
     \<and> (case configured_members a of
          None \<Rightarrow> False
        | Some members \<Rightarrow>
            p_id p \<in> set members
            \<and> thread_workspace org r d = Some (ga_workspace_id a)
            \<and> list_all (\<lambda>u. u \<in> set (workspace_people org (ga_workspace_id a) d)) members)"

fun members_permitted :: "im_env \<Rightarrow> uuid \<Rightarrow> uuid \<Rightarrow> string \<Rightarrow> uuid list \<Rightarrow> (im_world, bool) op" where
  "members_permitted e org rid corp [] = ret True"
| "members_permitted e org rid corp (u # us) =
     andthen (catching access_denied
        (andthen (im_db (load_principal_by_id org u)) (\<lambda>member.
         im_db (ie_publication e \<lparr>pc_principal = member, pc_run_id = rid, pc_stage = ''im_group_delivery'',
           pc_expected_corp_id = Some corp, pc_link_policy_run = True\<rparr>)))
        (\<lambda>_. ret False)) (\<lambda>permitted.
     if permitted then members_permitted e org rid corp us else ret False)"

definition group_delivery ::
  "im_env \<Rightarrow> time \<Rightarrow> run_row \<Rightarrow> im_inbox_message_row \<Rightarrow> principal \<Rightarrow> string \<Rightarrow> string \<Rightarrow>
   (im_world, (im_group_audience_row \<times> string \<times> string) option) op" where
  "group_delivery e now r m p text classification =
     andthen (reads (\<lambda>w. find (\<lambda>a. ga_organization_id a = run_organization_id r
        \<and> ga_installation_id a = im_installation_id m \<and> ga_conversation_id a = im_conversation_id m
        \<and> ga_status a = ''ACTIVE'') (iw_audiences w))) (\<lambda>found.
     case found of
       None \<Rightarrow> ret None
     | Some a \<Rightarrow>
         andthen (reads (\<lambda>w. audience_current (run_organization_id r) now r p a (iw_db w))) (\<lambda>current.
         if \<not> current then ret None
         else
           (let classified = ga_allow_final_answer a
                  \<and> (case (classification_rank classification, classification_rank (ga_max_classification a)) of
                       (Some c, Some c') \<Rightarrow> c \<le> c'
                     | _ \<Rightarrow> False)
            in andthen (reads (\<lambda>w. case find (\<lambda>i. ii_id i = im_installation_id m
                            \<and> ii_organization_id i = run_organization_id r) (iw_installations w) of
                          None \<Rightarrow> [] | Some i \<Rightarrow> text_or (ii_external_corp_id i) [])) (\<lambda>corp.
               andthen (if classified
                        then members_permitted e (run_organization_id r) (run_id r) corp
                               (case configured_members a of None \<Rightarrow> [] | Some us \<Rightarrow> us)
                        else ret False) (\<lambda>permitted.
               ret (if permitted then Some (a, ''FINAL'', text)
                    else if ga_allow_status a then Some (a, ''STATUS'', ie_group_status e)
                    else None))))))"

definition load_group_audience_for_delivery ::
  "time \<Rightarrow> dingtalk_outbox_row \<Rightarrow> im_inbox_message_row \<Rightarrow> run_row \<Rightarrow> principal \<Rightarrow> im_world \<Rightarrow>
   im_group_audience_row option" where
  "load_group_audience_for_delivery now o' m r p w =
     (if im_conversation_type m \<noteq> ''group'' \<or> dt_audience_id o' = None
         \<or> dt_recipient_conversation_id o' \<noteq> Some (im_conversation_id m)
      then None
      else
        (case find (\<lambda>a. dt_audience_id o' = Some (ga_id a) \<and> ga_organization_id a = dt_organization_id o'
                \<and> ga_installation_id a = dt_installation_id o' \<and> ga_conversation_id a = im_conversation_id m
                \<and> ga_status a = ''ACTIVE'') (iw_audiences w) of
           None \<Rightarrow> None
         | Some a \<Rightarrow>
             if Some (ga_member_fingerprint a) = dt_audience_member_fingerprint o'
                \<and> audience_current (dt_organization_id o') now r p a (iw_db w)
             then Some a else None))"

section \<open>Records of the ledger\<close>

definition mapped_error :: "string option \<Rightarrow> string option" where
  "mapped_error v =
     (case v of None \<Rightarrow> None
      | Some value \<Rightarrow> Some
         (if value = ''delivery_lease_expired'' then ''im_delivery_receipt_conflict''
          else if value = ''delivery_preconditions_changed'' then ''im_delivery_lineage_changed''
          else if value = ''delivery_retry_exhausted'' then ''dependency_failed''
          else if value = ''delivery_answer_or_access_missing'' then ''im_delivery_answer_missing''
          else if value = ''delivery_configuration_missing'' then ''credential_unavailable''
          else if value = ''group_audience_denied'' then ''im_delivery_denied''
          else if value \<in> {''reconciliation_unavailable'', ''reconciliation_response_invalid'',
                          ''reconciliation_status_unknown''} then ''im_delivery_receipt_conflict''
          else if value = ''capability_rate_limited'' then ''capability_rate_limited''
          else if value = ''authorization_fence_unavailable'' then ''authorization_fence_unavailable''
          else if value = ''connector_grant_missing'' then ''connector_grant_missing''
          else if value = ''credential_unavailable'' then ''credential_unavailable''
          else if value = ''capability_unavailable'' then ''dependency_failed''
          else if value = ''delivery_configuration_invalid'' then ''connector_egress_invalid''
          else if value = ''delivery_not_authorized'' then ''im_delivery_denied''
          else if value = ''delivery_gateway_unavailable'' then ''dependency_failed''
          else if value = ''delivery_precondition_failed'' then ''im_delivery_lineage_changed''
          else if value = ''unverified_send_response'' then ''im_delivery_receipt_conflict''
          else if value = ''recipient_rejected'' then ''im_delivery_denied''
          else if value = ''credential_in_text'' then ''inline_secret_denied''
          else if value = ''authentication_failed'' then ''credential_unavailable''
          else ''dependency_failed''))"

text \<open>The assignment checks that the mapped code is registered.\<close>

definition set_last_error :: "im_env \<Rightarrow> string option \<Rightarrow> dingtalk_outbox_row \<Rightarrow> ('s, dingtalk_outbox_row) op" where
  "set_last_error e value o' =
     andthen (from_sum (validate_error_code (ie_ext e) (mapped_error value))) (\<lambda>_.
     ret (o'\<lparr>dt_last_error_code := mapped_error value\<rparr>))"

definition outbox_audit :: "time \<Rightarrow> dingtalk_outbox_row \<Rightarrow> string \<Rightarrow> jobj \<Rightarrow> (im_world, unit) op" where
  "outbox_audit now o' outcome metadata =
     im_db (andthen (write_audit now
       (AuditDraft (dt_organization_id o') (dt_run_id o') Actor_SYSTEM None ''im.dingtalk.outbox.dispatch''
          ''dingtalk_robot_outbox'' (uuid_str (dt_id o')) outcome
          (fold (\<lambda>(k, v) md. obj_put k v md) metadata
            [(''installation_id'', JStr (uuid_str (dt_installation_id o'))),
             (''status'', JStr (dingtalk_outbox_status_value (dt_status o'))),
             (''attempt_count'', JInt (dt_attempt_count o')),
             (''fencing_token'', JInt (dt_fencing_token o')),
             (''blocked_reason'', opt_text (dt_blocked_reason o')),
             (''last_error_code'', opt_text (dt_last_error_code o'))]))) (\<lambda>_. ret ()))"

text \<open>Write a row back and record it.\<close>

definition save_delivery :: "time \<Rightarrow> dingtalk_outbox_row \<Rightarrow> string \<Rightarrow> jobj \<Rightarrow> (im_world, dingtalk_outbox_row) op" where
  "save_delivery now o' outcome metadata =
     andthen (put_delivery o') (\<lambda>_. andthen (outbox_audit now o' outcome metadata) (\<lambda>_. ret o'))"

definition block_delivery ::
  "im_env \<Rightarrow> time \<Rightarrow> dingtalk_outbox_row \<Rightarrow> string \<Rightarrow> string option \<Rightarrow> (im_world, dingtalk_outbox_row) op" where
  "block_delivery e now o' reason error_code =
     andthen (set_last_error e (Some (text_or error_code reason))
        (o'\<lparr>dt_status := Dt_BLOCKED, dt_blocked_reason := Some reason, dt_next_attempt_at := None,
            dt_lease_expires_at := None\<rparr>)) (\<lambda>blocked.
     save_delivery now blocked ''BLOCKED'' [])"

section \<open>Frames\<close>

lemma require_run_content_keeps [simp]:
  "keeps im_tables (require_run_content e p rid corp)" "keeps iw_posts (require_run_content e p rid corp)"
  by (simp_all add: require_run_content_def)

lemma members_permitted_keeps:
  "keeps im_tables (members_permitted e org rid corp us)" "keeps iw_posts (members_permitted e org rid corp us)"
  by (induction us) (auto intro!: keeps_intros catching_keeps)

lemma group_delivery_keeps [simp]:
  "keeps im_tables (group_delivery e now r m p t c)" "keeps iw_posts (group_delivery e now r m p t c)"
  unfolding group_delivery_def Let_def
  by (intro keeps_intros keeps_reads members_permitted_keeps keeps_ret)+

lemma set_last_error_iff:
  "set_last_error e v o1 s = (Inr o2, s') \<longleftrightarrow>
     s' = s \<and> o2 = o1\<lparr>dt_last_error_code := mapped_error v\<rparr>
     \<and> validate_error_code (ie_ext e) (mapped_error v) = Inr ()"
  by (auto simp: set_last_error_def andthen_Inr)

lemma set_last_error_keeps [simp]: "keeps f (set_last_error e v o1)"
  unfolding set_last_error_def by (intro keeps_intros) simp_all

lemma outbox_audit_keeps [simp]:
  "keeps im_tables (outbox_audit now o1 oc md)" "keeps iw_posts (outbox_audit now o1 oc md)"
  unfolding outbox_audit_def by simp_all

text \<open>Saving a row replaces it in the ledger and adds one audit record to the store.\<close>

definition saved :: "dingtalk_outbox_row \<Rightarrow> im_world \<Rightarrow> im_world \<Rightarrow> bool" where
  "saved o1 w w' \<longleftrightarrow>
     (\<exists>d. business d = business (iw_db w)
        \<and> w' = w\<lparr>iw_db := d, iw_deliveries := replace_row dt_id o1 (iw_deliveries w)\<rparr>)"

lemma outbox_audit_result:
  assumes "outbox_audit now o1 oc md w = (v, w')"
  shows "v = Inr () \<and> (\<exists>d. business d = business (iw_db w) \<and> w' = w\<lparr>iw_db := d\<rparr>)"
proof -
  obtain dr where "im_db (andthen (write_audit now dr) (\<lambda>_. ret ())) w = (v, w')"
    using assms unfolding outbox_audit_def by blast
  then obtain d where d: "andthen (write_audit now dr) (\<lambda>_. ret ()) (iw_db w) = (v, d)" and w': "w' = w\<lparr>iw_db := d\<rparr>"
    by (auto simp: im_db_iff)
  obtain row d1 where wr: "write_audit now dr (iw_db w) = (Inr row, d1)"
    using write_audit_iff by blast
  then have "v = Inr ()" "d = d1" using d by (auto simp: andthen_def op_simps)
  then show ?thesis using w' write_audit_business [OF wr] by blast
qed

lemma save_delivery_saves: 
  assumes "save_delivery now o1 oc md w = (v, w')"
  shows "v = Inr o1 \<and> saved o1 w w'"
proof -
  obtain u w1 where a: "outbox_audit now o1 oc md (w\<lparr>iw_deliveries := replace_row dt_id o1 (iw_deliveries w)\<rparr>) = (u, w1)"
    by (cases "outbox_audit now o1 oc md (w\<lparr>iw_deliveries := replace_row dt_id o1 (iw_deliveries w)\<rparr>)")
  have "save_delivery now o1 oc md w = (Inr o1, w1)"
    using a outbox_audit_result [OF a] by (simp add: save_delivery_def andthen_def put_delivery_def modify_def op_simps)
  then show ?thesis using assms outbox_audit_result [OF a] by (auto simp: saved_def)
qed

lemma save_delivery_returns: "\<exists>w'. save_delivery now o1 oc md w = (Inr o1, w')"
  by (metis prod.exhaust save_delivery_saves)

lemma put_delivery_posts [simp]: "keeps iw_posts (put_delivery o1)"
  by (simp add: put_delivery_def)

lemma save_delivery_posts [simp]: "keeps iw_posts (save_delivery now o1 oc md)"
  unfolding save_delivery_def by (intro keeps_intros) simp_all

lemma block_delivery_posts [simp]: "keeps iw_posts (block_delivery e now o1 reason code)"
  unfolding block_delivery_def by (intro keeps_intros) simp_all

text \<open>A blocked row.\<close>

definition blocked_row :: "dingtalk_outbox_row \<Rightarrow> string \<Rightarrow> string option \<Rightarrow> dingtalk_outbox_row" where
  "blocked_row o1 reason error_code =
     o1\<lparr>dt_status := Dt_BLOCKED, dt_blocked_reason := Some reason, dt_next_attempt_at := None,
        dt_lease_expires_at := None, dt_last_error_code := mapped_error (Some (text_or error_code reason))\<rparr>"

lemma block_delivery_blocks:
  "block_delivery e now o1 reason code w = (v, w') \<Longrightarrow>
     (v = Inr (blocked_row o1 reason code) \<and> saved (blocked_row o1 reason code) w w')
     \<or> (w' = w \<and> (\<exists>err. v = Inl err))"
  by (cases v) (auto simp: block_delivery_def andthen_Inr andthen_Inl set_last_error_def blocked_row_def
      dest!: save_delivery_saves)

end
