(* ===== verification/DingTalkOutbox.thy ===== *)
theory DingTalkOutbox
  imports DingTalkInputs
begin

text \<open>
  The operations of \<open>DingTalkOutboxService\<close> in \<open>application/dingtalk_outbox.py\<close>:
  \<open>enqueue_next\<close> makes or refreshes a ledger row, \<open>claim_next\<close> takes a due row under a lease,
  \<open>dispatch\<close> sends it, \<open>expire_claims\<close> turns a lost claim into \<open>UNKNOWN\<close>, and
  \<open>claim_reconciliation\<close> and \<open>reconcile\<close> ask the vendor what became of an accepted message.

  Each runs in one transaction of the worker. Rows another transaction has locked are skipped by
  the source; here the transactions run one after the other, so no row is locked. The clock
  readings of one operation have increasing indices.

  The lemmas say what each operation does to the ledger and to the log of messages.
\<close>

section \<open>Enqueueing\<close>

record enqueue_candidate =
  ec_inbox :: im_inbox_message_row
  ec_run :: run_row
  ec_installation :: im_installation_row
  ec_binding :: im_installation_binding_row
  ec_connector :: connector_row
  ec_outbox :: "dingtalk_outbox_row option"
  ec_audience :: "im_group_audience_row option"

definition optional_rows :: "'a list \<Rightarrow> 'a option list" where
  "optional_rows xs = (if xs = [] then [None] else map Some xs)"

definition awaits_queue :: "dingtalk_outbox_row option \<Rightarrow> bool" where
  "awaits_queue v =
     (case v of
        None \<Rightarrow> True
      | Some r \<Rightarrow> dt_status r = Dt_BLOCKED
          \<and> (case dt_blocked_reason r of None \<Rightarrow> False | Some reason \<Rightarrow> reason \<noteq> ''delivery_retry_exhausted''))"

definition enqueue_candidates :: "im_world \<Rightarrow> enqueue_candidate list" where
  "enqueue_candidates w =
     [\<lparr>ec_inbox = m, ec_run = r, ec_installation = i, ec_binding = b, ec_connector = c, ec_outbox = v,
       ec_audience = a\<rparr>.
        m \<leftarrow> iw_inbox w,
        r \<leftarrow> t_runs (iw_db w), im_run_id m = Some (run_id r) \<and> run_status_of r = Run_COMPLETED,
        i \<leftarrow> iw_installations w, ii_id i = im_installation_id m \<and> ii_provider i = Some ''dingtalk'',
        b \<leftarrow> iw_bindings w, ib_id b = im_binding_id m,
        c \<leftarrow> t_connectors (iw_db w), ii_connector_id i = Some (con_id c),
        v \<leftarrow> optional_rows (filter (\<lambda>v. dt_run_id v = run_id r) (iw_deliveries w)), awaits_queue v,
        a \<leftarrow> optional_rows (filter (\<lambda>a. ga_organization_id a = im_organization_id m
               \<and> ga_installation_id a = im_installation_id m \<and> ga_conversation_id a = im_conversation_id m
               \<and> ga_status a = ''ACTIVE'') (iw_audiences w)),
        im_conversation_type m = ''direct'' \<or> im_conversation_type m = ''group'' \<and> a \<noteq> None]"

definition candidate_order :: "enqueue_candidate \<Rightarrow> int list" where
  "candidate_order c = nulls_last (run_completed_at (ec_run c)) @ [im_created_at (ec_inbox c)]"

definition new_delivery :: "im_env \<Rightarrow> time \<Rightarrow> uuid \<Rightarrow> enqueue_candidate \<Rightarrow> dingtalk_outbox_row" where
  "new_delivery e now i c =
     (let m = ec_inbox c
      in \<lparr>dt_id = i, dt_organization_id = im_organization_id m, dt_installation_id = ii_id (ec_installation c),
          dt_inbox_message_id = im_id m, dt_binding_id = ib_id (ec_binding c), dt_run_id = run_id (ec_run c),
          dt_recipient_user_id = im_subject_user_id m, dt_recipient_sender_id = im_sender_id m,
          dt_conversation_type = im_conversation_type m,
          dt_recipient_conversation_id =
            (if im_conversation_type m = ''group'' then Some (im_conversation_id m) else None),
          dt_audience_id = map_option ga_id (ec_audience c),
          dt_audience_member_fingerprint = map_option ga_member_fingerprint (ec_audience c),
          dt_delivery_mode = ''FINAL'', dt_answer_classification = None,
          dt_connector_id = con_id (ec_connector c), dt_capability_version_id = None,
          dt_connector_fingerprint = connector_fingerprint (ie_ext e) (ec_connector c),
          dt_content_fingerprint = ie_text_sha256 e [], dt_status = Dt_BLOCKED, dt_attempt_count = 0,
          dt_fencing_token = 0, dt_next_attempt_at = None, dt_lease_expires_at = None,
          dt_accepted_process_query_key = None, dt_vendor_send_status = None, dt_vendor_read_status = None,
          dt_vendor_read_at = None, dt_last_reconciled_at = None, dt_reconciliation_attempt_count = 0,
          dt_policy_decision_id = None, dt_blocked_reason = None, dt_last_error_code = None,
          dt_created_at = now\<rparr>)"

text \<open>
  The constraints of the table a new row can violate: the primary key, one row per run and per
  inbox message, and the shape of the target.
\<close>

definition target_ok :: "dingtalk_outbox_row \<Rightarrow> bool" where
  "target_ok v \<longleftrightarrow>
     (dt_conversation_type v = ''direct'' \<and> dt_audience_id v = None
        \<and> dt_recipient_conversation_id v = None \<and> dt_delivery_mode v = ''FINAL'')
     \<or> (dt_conversation_type v = ''group'' \<and> dt_audience_id v \<noteq> None
        \<and> dt_recipient_conversation_id v \<noteq> None \<and> dt_audience_member_fingerprint v \<noteq> None
        \<and> dt_delivery_mode v \<in> {''FINAL'', ''STATUS''})"

definition insert_ok :: "dingtalk_outbox_row \<Rightarrow> im_world \<Rightarrow> bool" where
  "insert_ok v w \<longleftrightarrow>
     target_ok v
     \<and> list_all (\<lambda>r. dt_id r \<noteq> dt_id v \<and> dt_run_id r \<noteq> dt_run_id v
                    \<and> dt_inbox_message_id r \<noteq> dt_inbox_message_id v) (iw_deliveries w)"

text \<open>The inputs of the \<open>try\<close> block of \<open>_prepare_queue\<close>: the answer, its classification, the recipient.\<close>

definition queue_inputs :: "im_env \<Rightarrow> enqueue_candidate \<Rightarrow> (im_world, string \<times> string \<times> principal) op" where
  "queue_inputs e c =
     andthen (reads (answer_for_run_metadata (run_organization_id (ec_run c)) (run_id (ec_run c)))) (\<lambda>found.
     andthen (from_sum found) (\<lambda>answer.
     andthen (im_db (load_principal_by_id (run_organization_id (ec_run c)) (im_subject_user_id (ec_inbox c)))) (\<lambda>p.
     andthen (require_run_content e p (run_id (ec_run c))
        (text_or (ii_external_corp_id (ec_installation c)) [])) (\<lambda>_.
     ret (fst answer, snd answer, p)))))"

definition queued_row ::
  "im_env \<Rightarrow> time \<Rightarrow> enqueue_candidate \<Rightarrow> im_group_audience_row option \<Rightarrow> string \<Rightarrow> string \<Rightarrow> string \<Rightarrow> uuid option \<Rightarrow>
   dingtalk_outbox_row \<Rightarrow> dingtalk_outbox_row" where
  "queued_row e now c audience mode text classification version v =
     (let m = ec_inbox c
      in v\<lparr>dt_binding_id := ib_id (ec_binding c), dt_recipient_user_id := im_subject_user_id m,
           dt_recipient_sender_id := im_sender_id m, dt_conversation_type := im_conversation_type m,
           dt_recipient_conversation_id :=
             (if im_conversation_type m = ''group'' then Some (im_conversation_id m) else None),
           dt_audience_id := map_option ga_id audience,
           dt_audience_member_fingerprint := map_option ga_member_fingerprint audience,
           dt_delivery_mode := mode, dt_answer_classification := Some classification,
           dt_connector_id := con_id (ec_connector c), dt_capability_version_id := version,
           dt_connector_fingerprint := connector_fingerprint (ie_ext e) (ec_connector c),
           dt_content_fingerprint := ie_text_sha256 e text, dt_status := Dt_QUEUED,
           dt_blocked_reason := None, dt_next_attempt_at := Some now, dt_lease_expires_at := None\<rparr>)"

definition prepare_queue ::
  "im_env \<Rightarrow> clock \<Rightarrow> dingtalk_outbox_row \<Rightarrow> enqueue_candidate \<Rightarrow> (im_world, dingtalk_outbox_row) op" where
  "prepare_queue e clk v c =
     andthen (catching access_failed (andthen (queue_inputs e c) (\<lambda>q. ret (Some q))) (\<lambda>_. ret None)) (\<lambda>inputs.
     case inputs of
       None \<Rightarrow> block_delivery e (clk 0) v ''delivery_answer_or_access_missing'' None
     | Some q \<Rightarrow>
         andthen (if im_conversation_type (ec_inbox c) = ''group''
                  then andthen (group_delivery e (clk 0) (ec_run c) (ec_inbox c) (snd (snd q)) (fst q) (fst (snd q)))
                         (\<lambda>g. ret (map_option (\<lambda>t. (Some (fst t), fst (snd t), snd (snd t))) g))
                  else ret (Some (None, ''FINAL'', fst q))) (\<lambda>delivery.
         case delivery of
           None \<Rightarrow> block_delivery e (clk 1) v ''group_audience_denied'' None
         | Some t \<Rightarrow>
             andthen (reads (\<lambda>w. bound_capability_version (run_organization_id (ec_run c)) (con_id (ec_connector c))
                (con_environment (ec_connector c)) (iw_db w))) (\<lambda>version.
             if \<not> queue_is_ready (ie_ext e) (ec_inbox c) (ec_installation c) (ec_binding c) (ec_connector c) version
             then block_delivery e (clk 1) v ''delivery_configuration_missing'' None
             else
               andthen (set_last_error e None
                  (queued_row e (clk 1) c (fst t) (fst (snd t)) (snd (snd t)) (fst (snd q)) version v)) (\<lambda>queued.
               save_delivery (clk 2) queued ''QUEUED'' []))))"

text \<open>An integrity error at the flush leaves the transaction rolled back: nothing is written.\<close>

definition enqueue_next :: "im_env \<Rightarrow> clock \<Rightarrow> (im_world, dingtalk_outbox_row option) op" where
  "enqueue_next e clk =
     andthen (reads (\<lambda>w. first_by candidate_order (enqueue_candidates w))) (\<lambda>candidate.
     case candidate of
       None \<Rightarrow> ret None
     | Some c \<Rightarrow>
         (case ec_outbox c of
            Some v \<Rightarrow> andthen (prepare_queue e clk v c) (\<lambda>r. ret (Some r))
          | None \<Rightarrow>
              andthen (im_db new_id) (\<lambda>i.
              (let v = new_delivery e (clk 0) i c
               in andthen (reads (insert_ok v)) (\<lambda>ok.
                  if \<not> ok then ret None
                  else andthen (modify (\<lambda>w. w\<lparr>iw_deliveries := iw_deliveries w @ [v]\<rparr>)) (\<lambda>_.
                       andthen (prepare_queue e (later 1 clk) v c) (\<lambda>r. ret (Some r))))))))"

section \<open>Claims\<close>

fun expire_rows :: "im_env \<Rightarrow> clock \<Rightarrow> dingtalk_outbox_row list \<Rightarrow> (im_world, unit) op" where
  "expire_rows e clk [] = ret ()"
| "expire_rows e clk (v # vs) =
     andthen (set_last_error e (Some ''delivery_lease_expired'')
        (v\<lparr>dt_status := Dt_UNKNOWN, dt_lease_expires_at := None\<rparr>)) (\<lambda>v'.
     andthen (save_delivery (clk 0) v' ''UNKNOWN'' []) (\<lambda>_. expire_rows e (later 1 clk) vs))"

definition lease_expired :: "time \<Rightarrow> dingtalk_outbox_row \<Rightarrow> bool" where
  "lease_expired now v \<longleftrightarrow>
     dt_status v = Dt_DISPATCHING \<and> (case dt_lease_expires_at v of None \<Rightarrow> False | Some t \<Rightarrow> t < now)"

definition expire_claims :: "im_env \<Rightarrow> clock \<Rightarrow> (im_world, nat) op" where
  "expire_claims e clk =
     andthen (reads (\<lambda>w. take 100 (sort_key (\<lambda>v. nulls_last (dt_lease_expires_at v))
        (filter (lease_expired (clk 0)) (iw_deliveries w))))) (\<lambda>rows.
     andthen (expire_rows e (later 1 clk) rows) (\<lambda>_. ret (length rows)))"

record outbox_claim =
  oc_outbox_id :: uuid
  oc_fencing_token :: int

record reconciliation_claim =
  rc_outbox_id :: uuid
  rc_attempt_count :: int

definition due :: "time \<Rightarrow> dingtalk_outbox_row \<Rightarrow> bool" where
  "due now v \<longleftrightarrow>
     dt_status v = Dt_QUEUED \<and> (case dt_next_attempt_at v of None \<Rightarrow> False | Some t \<Rightarrow> t \<le> now)"

definition claimed_row :: "im_env \<Rightarrow> time \<Rightarrow> dingtalk_outbox_row \<Rightarrow> dingtalk_outbox_row" where
  "claimed_row e now v =
     v\<lparr>dt_status := Dt_DISPATCHING, dt_fencing_token := dt_fencing_token v + 1,
       dt_attempt_count := dt_attempt_count v + 1,
       dt_lease_expires_at := Some (now + timedelta_seconds (ie_lease_seconds e)), dt_next_attempt_at := None\<rparr>"

definition claim_next :: "im_env \<Rightarrow> clock \<Rightarrow> (im_world, outbox_claim option) op" where
  "claim_next e clk =
     andthen (reads (\<lambda>w. first_by (\<lambda>v. nulls_last (dt_next_attempt_at v) @ [dt_created_at v])
        (filter (due (clk 0)) (iw_deliveries w)))) (\<lambda>found.
     case found of
       None \<Rightarrow> ret None
     | Some v \<Rightarrow>
         andthen (set_last_error e None (claimed_row e (clk 0) v)) (\<lambda>v'.
         andthen (save_delivery (clk 1) v' ''DISPATCHING'' []) (\<lambda>_.
         ret (Some \<lparr>oc_outbox_id = dt_id v', oc_fencing_token = dt_fencing_token v'\<rparr>))))"

section \<open>Dispatching\<close>

record dispatch_inputs =
  di_inbox :: im_inbox_message_row
  di_run :: run_row
  di_installation :: im_installation_row
  di_binding :: im_installation_binding_row
  di_connector :: connector_row
  di_text :: string
  di_capability_version_id :: uuid
  di_principal :: principal

text \<open>The five-way join of \<open>_dispatch_inputs\<close> and \<open>_reconciliation_inputs\<close>.\<close>

definition lineage_rows ::
  "dingtalk_outbox_row \<Rightarrow> im_world \<Rightarrow>
   (im_inbox_message_row \<times> run_row \<times> im_installation_row \<times> im_installation_binding_row \<times> connector_row) list"
where
  "lineage_rows v w =
     [(m, r, i, b, c).
        m \<leftarrow> iw_inbox w, im_id m = dt_inbox_message_id v \<and> im_organization_id m = dt_organization_id v,
        r \<leftarrow> t_runs (iw_db w),
        im_run_id m = Some (run_id r) \<and> run_id r = dt_run_id v \<and> run_status_of r = Run_COMPLETED,
        i \<leftarrow> iw_installations w, ii_id i = im_installation_id m \<and> ii_id i = dt_installation_id v,
        b \<leftarrow> iw_bindings w, ib_id b = im_binding_id m \<and> ib_id b = dt_binding_id v,
        c \<leftarrow> t_connectors (iw_db w), ii_connector_id i = Some (con_id c) \<and> con_id c = dt_connector_id v]"

definition same_target :: "dingtalk_outbox_row \<Rightarrow> im_inbox_message_row \<Rightarrow> im_group_audience_row \<Rightarrow> string \<Rightarrow> bool" where
  "same_target v m a mode \<longleftrightarrow>
     dt_audience_id v = Some (ga_id a) \<and> dt_audience_member_fingerprint v = Some (ga_member_fingerprint a)
     \<and> dt_delivery_mode v = mode \<and> dt_recipient_conversation_id v = Some (im_conversation_id m)"

text \<open>The text that may be delivered now, if the group still is the one the row was made for.\<close>

definition deliverable_text ::
  "im_env \<Rightarrow> time \<Rightarrow> dingtalk_outbox_row \<Rightarrow> im_inbox_message_row \<Rightarrow> run_row \<Rightarrow> string \<Rightarrow> string \<Rightarrow>
   (im_world, string option) op" where
  "deliverable_text e now v m r text classification =
     (if im_conversation_type m = ''group''
      then andthen (im_db (load_principal_by_id (dt_organization_id v) (dt_recipient_user_id v))) (\<lambda>p.
           andthen (group_delivery e now r m p text classification) (\<lambda>g.
           ret (case g of
                  None \<Rightarrow> None
                | Some t \<Rightarrow> if same_target v m (fst t) (fst (snd t)) then Some (snd (snd t)) else None)))
      else ret (Some text))"

definition authorized_text ::
  "im_env \<Rightarrow> time \<Rightarrow> dingtalk_outbox_row \<Rightarrow> im_inbox_message_row \<Rightarrow> run_row \<Rightarrow> im_installation_row \<Rightarrow>
   (im_world, (string \<times> principal) option) op" where
  "authorized_text e now v m r i =
     andthen (reads (answer_for_run_metadata (dt_organization_id v) (run_id r))) (\<lambda>found.
     andthen (from_sum found) (\<lambda>answer.
     andthen (deliverable_text e now v m r (fst answer) (snd answer)) (\<lambda>text.
     case text of
       None \<Rightarrow> ret None
     | Some t \<Rightarrow>
         if ie_text_sha256 e t \<noteq> dt_content_fingerprint v
            \<or> dt_answer_classification v \<noteq> Some (snd answer)
         then ret None
         else andthen (im_db (load_principal_by_id (dt_organization_id v) (dt_recipient_user_id v))) (\<lambda>p.
              andthen (require_run_content e p (run_id r) (text_or (ii_external_corp_id i) [])) (\<lambda>_.
              ret (Some (t, p)))))))"

definition dispatch_inputs_of ::
  "im_env \<Rightarrow> time \<Rightarrow> dingtalk_outbox_row \<Rightarrow> (im_world, dispatch_inputs option) op" where
  "dispatch_inputs_of e now v =
     andthen (reads (lineage_rows v)) (\<lambda>rows.
     andthen (one_or_none rows) (\<lambda>loaded.
     case loaded of
       None \<Rightarrow> ret None
     | Some t \<Rightarrow>
         (let m = fst t; r = fst (snd t); i = fst (snd (snd t)); b = fst (snd (snd (snd t)));
              c = snd (snd (snd (snd t)))
          in case dt_capability_version_id v of
               None \<Rightarrow> ret None
             | Some version \<Rightarrow>
                 if \<not> queue_is_ready (ie_ext e) m i b c (Some version)
                    \<or> connector_fingerprint (ie_ext e) c \<noteq> dt_connector_fingerprint v
                 then ret None
                 else
                   andthen (catching access_failed (authorized_text e now v m r i) (\<lambda>_. ret None)) (\<lambda>found.
                   ret (map_option (\<lambda>tp.
                     \<lparr>di_inbox = m, di_run = r, di_installation = i, di_binding = b, di_connector = c,
                      di_text = fst tp, di_capability_version_id = version, di_principal = snd tp\<rparr>) found)))))"

definition authorize_send :: "im_env \<Rightarrow> clock \<Rightarrow> dingtalk_outbox_row \<Rightarrow> string \<Rightarrow> (im_world, bool) op" where
  "authorize_send e clk v text =
     (case dt_lease_expires_at v of
        None \<Rightarrow> ret False
      | Some lease \<Rightarrow>
          if lease \<le> clk 0 then ret False
          else andthen (dispatch_inputs_of e (clk 1) v) (\<lambda>current.
               ret (case current of None \<Rightarrow> False | Some i \<Rightarrow> di_text i = text)))"

definition outbox_request :: "im_env \<Rightarrow> dingtalk_outbox_row \<Rightarrow> dispatch_inputs \<Rightarrow> robot_outbox_request" where
  "outbox_request e v i =
     \<lparr>rr_principal = di_principal i, rr_run_id = run_id (di_run i), rr_outbox_id = dt_id v,
      rr_installation_id = ii_id (di_installation i), rr_recipient_sender_id = im_sender_id (di_inbox i),
      rr_app_key = app_key_of (ie_ext e) (di_connector i) (di_installation i),
      rr_robot_code = robot_code_of (ie_ext e) (di_connector i) (di_installation i),
      rr_connector_id = con_id (di_connector i), rr_connector_fingerprint = dt_connector_fingerprint v,
      rr_environment = con_environment (di_connector i),
      rr_capability_version_id = di_capability_version_id i,
      rr_conversation_type = dt_conversation_type v,
      rr_recipient_conversation_id = dt_recipient_conversation_id v, rr_text = di_text i\<rparr>"

definition retry_delay :: "int \<Rightarrow> int" where
  "retry_delay attempt_count = min 300 (5 * 2 ^ nat (min (max (attempt_count - 1) 0) 5))"

text \<open>What \<open>dispatch\<close> makes of the gateway's result.\<close>

definition settle_delivery ::
  "im_env \<Rightarrow> clock \<Rightarrow> dingtalk_outbox_row \<Rightarrow> robot_outbox_result \<Rightarrow> (im_world, dingtalk_outbox_row) op" where
  "settle_delivery e clk v0 result =
     (let v = v0\<lparr>dt_policy_decision_id := ror_policy_decision_id result\<rparr>;
          reason = rs_reason (ror_send result);
          save = (\<lambda>v1 code. andthen (set_last_error e code v1) (\<lambda>v2.
                    save_delivery (clk 1) v2 (dingtalk_outbox_status_value (dt_status v2)) []))
      in case rs_state (ror_send result) of
           Send_ACCEPTED \<Rightarrow>
             save (v\<lparr>dt_status := Dt_ACCEPTED,
                     dt_accepted_process_query_key := rs_process_query_key (ror_send result),
                     dt_lease_expires_at := None\<rparr>) None
         | Send_REJECTED \<Rightarrow> save (v\<lparr>dt_status := Dt_REJECTED, dt_lease_expires_at := None\<rparr>) reason
         | Send_UNKNOWN \<Rightarrow> save (v\<lparr>dt_status := Dt_UNKNOWN, dt_lease_expires_at := None\<rparr>) reason
         | Send_NOT_ATTEMPTED \<Rightarrow>
             if dt_attempt_count v \<ge> ie_max_attempts e
             then block_delivery e (clk 0) v ''delivery_retry_exhausted'' reason
             else save (v\<lparr>dt_status := Dt_QUEUED, dt_lease_expires_at := None,
                          dt_next_attempt_at :=
                            Some (clk 0 + timedelta_seconds (retry_delay (dt_attempt_count v)))\<rparr>) reason)"

definition dispatch_row :: "im_env \<Rightarrow> clock \<Rightarrow> dingtalk_outbox_row \<Rightarrow> (im_world, dingtalk_outbox_row) op" where
  "dispatch_row e clk v =
     (if \<not> ie_fence e (dt_organization_id v)
      then block_delivery e (clk 0) v ''authorization_fence_unavailable'' None
      else
        andthen (dispatch_inputs_of e (clk 0) v) (\<lambda>inputs.
        case inputs of
          None \<Rightarrow> block_delivery e (clk 1) v ''delivery_preconditions_changed'' None
        | Some i \<Rightarrow>
            andthen (invoke_dingtalk_robot_outbox e (later 10 clk) (authorize_send e (later 20 clk) v (di_text i))
               (outbox_request e v i)) (\<lambda>result.
            settle_delivery e (later 60 clk) v result)))"

definition dispatch :: "im_env \<Rightarrow> clock \<Rightarrow> outbox_claim \<Rightarrow> (im_world, dingtalk_outbox_row option) op" where
  "dispatch e clk claim =
     andthen (reads (\<lambda>w. find (\<lambda>v. dt_id v = oc_outbox_id claim) (iw_deliveries w))) (\<lambda>found.
     case found of
       None \<Rightarrow> ret None
     | Some v \<Rightarrow>
         if dt_status v \<noteq> Dt_DISPATCHING \<or> dt_fencing_token v \<noteq> oc_fencing_token claim then ret None
         else andthen (dispatch_row e clk v) (\<lambda>r. ret (Some r)))"

section \<open>Reconciliation\<close>

definition max_reconciliation_attempts :: "im_env \<Rightarrow> int" where
  "max_reconciliation_attempts e = max 1 (ie_max_attempts e)"

definition reconcilable :: "im_env \<Rightarrow> time \<Rightarrow> uuid option \<Rightarrow> uuid option \<Rightarrow> dingtalk_outbox_row \<Rightarrow> bool" where
  "reconcilable e claim_before outbox_id organization_id v \<longleftrightarrow>
     dt_status v = Dt_ACCEPTED \<and> dt_accepted_process_query_key v \<noteq> None
     \<and> dt_reconciliation_attempt_count v < max_reconciliation_attempts e
     \<and> (case dt_last_reconciled_at v of None \<Rightarrow> True | Some t \<Rightarrow> t \<le> claim_before)
     \<and> (case outbox_id of None \<Rightarrow> True | Some i \<Rightarrow> dt_id v = i)
     \<and> (case organization_id of None \<Rightarrow> True | Some i \<Rightarrow> dt_organization_id v = i)"

definition claim_reconciliation ::
  "im_env \<Rightarrow> clock \<Rightarrow> uuid option \<Rightarrow> uuid option \<Rightarrow> (im_world, reconciliation_claim option) op" where
  "claim_reconciliation e clk outbox_id organization_id =
     andthen (reads (\<lambda>w. first_by (\<lambda>v. nulls_last (dt_last_reconciled_at v) @ [dt_created_at v])
        (filter (reconcilable e (clk 0 - timedelta_seconds (ie_lease_seconds e)) outbox_id organization_id)
          (iw_deliveries w)))) (\<lambda>found.
     case found of
       None \<Rightarrow> ret None
     | Some v \<Rightarrow>
         (let v' = v\<lparr>dt_reconciliation_attempt_count := dt_reconciliation_attempt_count v + 1,
                     dt_last_reconciled_at := Some (clk 1)\<rparr>
          in andthen (put_delivery v') (\<lambda>_.
             ret (Some \<lparr>rc_outbox_id = dt_id v', rc_attempt_count = dt_reconciliation_attempt_count v'\<rparr>))))"

record reconciliation_inputs =
  ri_installation :: im_installation_row
  ri_connector :: connector_row
  ri_capability_version_id :: uuid
  ri_principal :: principal

definition reconciliation_principal ::
  "time \<Rightarrow> dingtalk_outbox_row \<Rightarrow> im_inbox_message_row \<Rightarrow> run_row \<Rightarrow> (im_world, principal option) op" where
  "reconciliation_principal now v m r =
     andthen (im_db (load_principal_by_id (dt_organization_id v) (dt_recipient_user_id v))) (\<lambda>p.
     andthen (im_db (require_run_access p (dt_run_id v) False)) (\<lambda>_.
     if im_conversation_type m = ''group''
     then andthen (reads (load_group_audience_for_delivery now v m r p)) (\<lambda>a.
          ret (if a = None then None else Some p))
     else ret (Some p)))"

definition reconciliation_inputs_of ::
  "im_env \<Rightarrow> time \<Rightarrow> dingtalk_outbox_row \<Rightarrow> (im_world, reconciliation_inputs option) op" where
  "reconciliation_inputs_of e now v =
     andthen (reads (lineage_rows v)) (\<lambda>rows.
     andthen (one_or_none rows) (\<lambda>loaded.
     case loaded of
       None \<Rightarrow> ret None
     | Some t \<Rightarrow>
         (let m = fst t; r = fst (snd t); i = fst (snd (snd t)); b = fst (snd (snd (snd t)));
              c = snd (snd (snd (snd t)))
          in case dt_capability_version_id v of
               None \<Rightarrow> ret None
             | Some version \<Rightarrow>
                 if \<not> queue_is_ready (ie_ext e) m i b c (Some version)
                    \<or> connector_fingerprint (ie_ext e) c \<noteq> dt_connector_fingerprint v
                 then ret None
                 else
                   andthen (catching access_failed (reconciliation_principal now v m r) (\<lambda>_. ret None)) (\<lambda>p.
                   ret (map_option (\<lambda>q. \<lparr>ri_installation = i, ri_connector = c,
                     ri_capability_version_id = version, ri_principal = q\<rparr>) p)))))"

definition millis_to_datetime :: "int option \<Rightarrow> time option" where
  "millis_to_datetime value =
     (case value of
        None \<Rightarrow> None
      | Some ms \<Rightarrow> if 0 < ms \<and> ms < 253402300800000 then Some (1000 * ms) else None)"

definition query_request ::
  "im_env \<Rightarrow> dingtalk_outbox_row \<Rightarrow> reconciliation_inputs \<Rightarrow> string \<Rightarrow> robot_outbox_query_request" where
  "query_request e v i key =
     \<lparr>rr_principal = ri_principal i, rr_run_id = dt_run_id v, rr_outbox_id = dt_id v,
      rr_installation_id = ii_id (ri_installation i), rr_recipient_sender_id = dt_recipient_sender_id v,
      rr_app_key = app_key_of (ie_ext e) (ri_connector i) (ri_installation i),
      rr_robot_code = robot_code_of (ie_ext e) (ri_connector i) (ri_installation i),
      rr_connector_id = con_id (ri_connector i), rr_connector_fingerprint = dt_connector_fingerprint v,
      rr_environment = con_environment (ri_connector i),
      rr_capability_version_id = ri_capability_version_id i,
      rr_conversation_type = dt_conversation_type v,
      rr_recipient_conversation_id = dt_recipient_conversation_id v, rr_process_query_key = key\<rparr>"

definition settle_reconciliation ::
  "im_env \<Rightarrow> time \<Rightarrow> dingtalk_outbox_row \<Rightarrow> robot_outbox_query_result \<Rightarrow> (im_world, dingtalk_outbox_row) op" where
  "settle_reconciliation e now v0 result =
     (let query = roq_query result;
          v1 = (case roq_policy_decision_id result of None \<Rightarrow> v0 | Some i \<Rightarrow> v0\<lparr>dt_policy_decision_id := Some i\<rparr>);
          v = v1\<lparr>dt_vendor_send_status := rq_send_status query, dt_vendor_read_status := rq_read_status query,
                 dt_vendor_read_at := millis_to_datetime (rq_read_timestamp_ms query)\<rparr>;
          unknown = text_or (rq_reason query) ''reconciliation_status_unknown'';
          metadata = [(''operation'', JStr ''reconcile''),
                      (''vendor_send_status'', opt_text (rq_send_status query)),
                      (''vendor_read_status'', opt_text (rq_read_status query)),
                      (''reconciliation_reason'', JStr unknown)];
          save = (\<lambda>v2 code outcome. andthen (set_last_error e code v2) (\<lambda>v3. save_delivery now v3 outcome metadata))
      in case rq_state query of
           Query_SUCCESS \<Rightarrow> save v None ''RECONCILED''
         | Query_FAILURE \<Rightarrow>
             save (v\<lparr>dt_status := Dt_REJECTED\<rparr>) (Some ''delivery_gateway_unavailable'') ''RECONCILED_FAILURE''
         | Query_UNKNOWN \<Rightarrow> save v (Some unknown) ''RECONCILIATION_UNKNOWN'')"

definition reconcile ::
  "im_env \<Rightarrow> clock \<Rightarrow> reconciliation_claim \<Rightarrow> (im_world, dingtalk_outbox_row option) op" where
  "reconcile e clk claim =
     andthen (reads (\<lambda>w. find (\<lambda>v. dt_id v = rc_outbox_id claim) (iw_deliveries w))) (\<lambda>found.
     case found of
       None \<Rightarrow> ret None
     | Some v \<Rightarrow>
         if dt_status v \<noteq> Dt_ACCEPTED \<or> dt_reconciliation_attempt_count v \<noteq> rc_attempt_count claim
            \<or> text_or (dt_accepted_process_query_key v) [] = []
         then ret None
         else
           andthen (reconciliation_inputs_of e (clk 0) v) (\<lambda>inputs.
           case inputs of
             None \<Rightarrow>
               andthen (set_last_error e (Some ''delivery_preconditions_changed'') v) (\<lambda>v'.
               andthen (save_delivery (clk 1) v' ''RECONCILIATION_BLOCKED'' []) (\<lambda>r. ret (Some r)))
           | Some i \<Rightarrow>
               andthen (reconcile_dingtalk_robot_outbox e (later 10 clk)
                  (query_request e v i (text_or (dt_accepted_process_query_key v) []))) (\<lambda>result.
               andthen (settle_reconciliation e (clk 60) v result) (\<lambda>r. ret (Some r)))))"

section \<open>Effects\<close>

text \<open>The messaging tables an operation of the ledger only reads.\<close>

definition im_inputs :: "im_world \<Rightarrow> im_world" where
  "im_inputs w = (im_tables w)\<lparr>iw_deliveries := []\<rparr>"

lemma im_inputs_tables: "im_tables w' = im_tables w \<Longrightarrow> im_inputs w' = im_inputs w"
  by (simp add: im_inputs_def)

lemma im_inputs_fields:
  assumes "im_inputs w' = im_inputs w"
  shows "iw_inbox w' = iw_inbox w" "iw_installations w' = iw_installations w" "iw_bindings w' = iw_bindings w"
    "iw_audiences w' = iw_audiences w" "iw_artifacts w' = iw_artifacts w"
  using assms by (cases w; cases w'; simp add: im_inputs_def im_tables_def)+

lemma saved_parts:
  assumes "saved v w w'"
  shows "iw_deliveries w' = replace_row dt_id v (iw_deliveries w)" "iw_posts w' = iw_posts w"
    "im_inputs w' = im_inputs w" "business (iw_db w') = business (iw_db w)"
  using assms by (auto simp: saved_def im_inputs_def im_tables_def)

text \<open>An operation that wrote one row of the ledger back, and nothing else of the messaging tables.\<close>

definition wrote :: "dingtalk_outbox_row \<Rightarrow> im_world \<Rightarrow> im_world \<Rightarrow> bool" where
  "wrote v w w' \<longleftrightarrow> iw_deliveries w' = replace_row dt_id v (iw_deliveries w) \<and> im_inputs w' = im_inputs w"

lemma saved_wrote: "saved v w1 w' \<Longrightarrow> im_tables w1 = im_tables w \<Longrightarrow> wrote v w w'"
  using saved_parts im_tables_fields(6) im_inputs_tables unfolding wrote_def by metis

lemma returns_through:
  "keeps im_tables m \<Longrightarrow> (\<And>x w'. im_tables w' = im_tables w \<Longrightarrow> Q x w') \<Longrightarrow> returns m Q w"
  unfolding returns_def using keepsD by fast

lemma block_delivery_returns:
  assumes "im_tables w1 = im_tables w" and "Q (blocked_row v reason code)"
  shows "returns (block_delivery e now v reason code) (\<lambda>r w'. Q r \<and> wrote r w w') w1"
  using assms block_delivery_blocks saved_wrote unfolding returns_def by blast

lemma save_delivery_through:
  assumes "im_tables w1 = im_tables w" and "Q v"
  shows "returns (save_delivery now v oc md) (\<lambda>r w'. Q r \<and> wrote r w w') w1"
  using assms save_delivery_saves saved_wrote unfolding returns_def by blast

lemma set_last_error_returns:
  "Q (v\<lparr>dt_last_error_code := mapped_error code\<rparr>) s \<Longrightarrow> returns (set_last_error e code v) Q s"
  by (auto simp: returns_def set_last_error_iff)

text \<open>What preparing does to a row.\<close>

definition prepared :: "enqueue_candidate \<Rightarrow> dingtalk_outbox_row \<Rightarrow> dingtalk_outbox_row \<Rightarrow> bool" where
  "prepared c v r \<longleftrightarrow>
     dt_id r = dt_id v \<and> dt_fencing_token r = dt_fencing_token v \<and> dt_run_id r = dt_run_id v
     \<and> dt_inbox_message_id r = dt_inbox_message_id v \<and> dt_attempt_count r = dt_attempt_count v
     \<and> dt_reconciliation_attempt_count r = dt_reconciliation_attempt_count v
     \<and> (dt_status r = Dt_QUEUED \<and> ii_status (ec_installation c) = Some ''ACTIVE''
        \<or> dt_status r = Dt_BLOCKED \<and> awaits_queue (Some r))"

lemma prepared_blocked:
  "reason \<noteq> ''delivery_retry_exhausted'' \<Longrightarrow> prepared c v (blocked_row v reason code)"
  by (simp add: prepared_def blocked_row_def awaits_queue_def)

lemma queue_inputs_keeps [simp]: "keeps im_tables (queue_inputs e c)" "keeps iw_posts (queue_inputs e c)"
  unfolding queue_inputs_def by (intro keeps_intros; simp)+

lemma prepare_queue_returns:
  "returns (prepare_queue e clk v c) (\<lambda>r w'. prepared c v r \<and> wrote r w w') w"
  unfolding prepare_queue_def
  apply (rule returns_andthen, rule returns_through)
   apply (intro catching_keeps keeps_intros; simp)
  apply (rule returns_case_option)
   apply (rule block_delivery_returns, assumption, rule prepared_blocked, simp)
  apply (rule returns_andthen, rule returns_through)
   apply (intro keeps_intros; simp)
  apply (rule returns_case_option)
   apply (rule block_delivery_returns, simp, rule prepared_blocked, simp)
  apply (rule returns_andthen, rule returns_reads, rule returns_if)
   apply (rule block_delivery_returns, simp, rule prepared_blocked, simp)
  apply (rule returns_andthen, rule set_last_error_returns)
  apply (rule save_delivery_through, simp)
  apply (auto simp: prepared_def queued_row_def Let_def queue_is_ready_def)
  done

lemma prepare_queue_posts: "keeps iw_posts (prepare_queue e clk v c)"
  unfolding prepare_queue_def by (intro catching_keeps keeps_intros; simp)

text \<open>Enqueueing: nothing, one waiting row refreshed, or one new row.\<close>

definition enqueued :: "im_env \<Rightarrow> im_world \<Rightarrow> im_world \<Rightarrow> bool" where
  "enqueued e w w' \<longleftrightarrow>
     im_inputs w' = im_inputs w
     \<and> (iw_deliveries w' = iw_deliveries w
        \<or> (\<exists>c v r. first_by candidate_order (enqueue_candidates w) = Some c \<and> prepared c v r
             \<and> (ec_outbox c = Some v \<and> iw_deliveries w' = replace_row dt_id r (iw_deliveries w)
                \<or> ec_outbox c = None \<and> dt_run_id v = run_id (ec_run c) \<and> dt_fencing_token v = 0
                  \<and> dt_reconciliation_attempt_count v = 0 \<and> insert_ok v w \<and> iw_deliveries w' = iw_deliveries w @ [r])))"

lemma replace_appended:
  assumes "list_all (\<lambda>x. key x \<noteq> key v) xs" and "key r = key v"
  shows "replace_row key r (xs @ [v]) = xs @ [r]"
  using assms by (auto simp: replace_row_def list_all_iff intro: map_idI)

lemma enqueue_next_returns: "returns (enqueue_next e clk) (\<lambda>_ w'. enqueued e w w') w"
proof (cases "first_by candidate_order (enqueue_candidates w)")
  case None
  then have "enqueue_next e clk w = (Inr None, w)"
    by (simp add: enqueue_next_def andthen_def reads_def ret_def del: first_by_None)
  then show ?thesis by (simp add: returns_def enqueued_def)
next
  case (Some c)
  show ?thesis
  proof (cases "ec_outbox c")
    case (Some v)
    have "returns (prepare_queue e clk v c) (\<lambda>r w'. enqueued e w w') w"
      by (rule returns_conseq [OF prepare_queue_returns])
        (use Some \<open>first_by _ _ = Some c\<close> in \<open>auto simp: enqueued_def wrote_def\<close>)
    then show ?thesis using Some \<open>first_by _ _ = Some c\<close>
      by (fastforce simp: enqueue_next_def returns_def andthen_Inr)
  next
    case None
    define v where "v i = new_delivery e (clk 0) i c" for i
    have step: "returns (andthen (reads (insert_ok (v i))) (\<lambda>ok.
                  if \<not> ok then ret None
                  else andthen (modify (\<lambda>w. w\<lparr>iw_deliveries := iw_deliveries w @ [v i]\<rparr>)) (\<lambda>_.
                       andthen (prepare_queue e (later 1 clk) (v i) c) (\<lambda>r. ret (Some r)))))
             (\<lambda>_ w'. enqueued e w w') w1" if w1: "im_tables w1 = im_tables w" for i w1
    proof (rule returns_andthen, rule returns_reads, rule returns_if)
      assume "\<not> insert_ok (v i) w1"
      have "enqueued e w w1"
        unfolding enqueued_def using im_tables_fields(6) [OF w1] im_inputs_tables [OF w1] by blast
      then show "returns (ret None) (\<lambda>_ w'. enqueued e w w') w1" by (rule returns_ret)
    next
      assume ok: "\<not> \<not> insert_ok (v i) w1"
      let ?w2 = "w1\<lparr>iw_deliveries := iw_deliveries w1 @ [v i]\<rparr>"
      have dl: "iw_deliveries w1 = iw_deliveries w" using w1 im_tables_fields(6) by blast
      then have ok: "insert_ok (v i) w" using ok by (simp add: insert_ok_def)
      have run: "dt_run_id (v i) = run_id (ec_run c) \<and> dt_fencing_token (v i) = 0
        \<and> dt_reconciliation_attempt_count (v i) = 0" by (simp add: v_def new_delivery_def Let_def)
      have inp: "im_inputs ?w2 = im_inputs w"
        using im_inputs_tables [OF w1] by (simp add: im_inputs_def im_tables_def)
      have "enqueued e w w'" if "prepared c (v i) r" and "wrote r ?w2 w'" for r w'
      proof -
        have "iw_deliveries w' = iw_deliveries w @ [r]"
          using that ok dl replace_appended [of dt_id "v i" "iw_deliveries w" r]
          by (simp add: wrote_def prepared_def insert_ok_def list_all_iff)
        then show ?thesis
          using that inp ok run None \<open>first_by _ _ = Some c\<close> unfolding enqueued_def wrote_def by metis
      qed
      then have "returns (prepare_queue e (later 1 clk) (v i) c) (\<lambda>r w'. enqueued e w w') ?w2"
        by (intro returns_conseq [OF prepare_queue_returns]) blast
      then show "returns (andthen (modify (\<lambda>w. w\<lparr>iw_deliveries := iw_deliveries w @ [v i]\<rparr>)) (\<lambda>_.
                       andthen (prepare_queue e (later 1 clk) (v i) c) (\<lambda>r. ret (Some r))))
             (\<lambda>_ w'. enqueued e w w') w1"
        by (intro returns_andthen returns_modify) (erule returns_conseq, rule returns_ret)
    qed
    have "returns (andthen (im_db new_id) (\<lambda>i. andthen (reads (insert_ok (v i))) (\<lambda>ok.
                  if \<not> ok then ret None
                  else andthen (modify (\<lambda>w. w\<lparr>iw_deliveries := iw_deliveries w @ [v i]\<rparr>)) (\<lambda>_.
                       andthen (prepare_queue e (later 1 clk) (v i) c) (\<lambda>r. ret (Some r))))))
             (\<lambda>_ w'. enqueued e w w') w"
      by (rule returns_andthen, rule returns_through, simp) (rule step)
    then show ?thesis using None \<open>first_by _ _ = Some c\<close>
      by (simp add: enqueue_next_def v_def Let_def returns_def andthen_Inr)
  qed
qed

lemma enqueue_next_posts: "keeps iw_posts (enqueue_next e clk)"
  unfolding enqueue_next_def Let_def by (intro keeps_intros prepare_queue_posts; simp)

subsection \<open>Claims\<close>

text \<open>The rows of the ledger one by one: each is as it was, or changed as \<open>P\<close> says.\<close>

definition rows_change ::
  "(dingtalk_outbox_row \<Rightarrow> dingtalk_outbox_row \<Rightarrow> bool) \<Rightarrow> dingtalk_outbox_row list \<Rightarrow> dingtalk_outbox_row list \<Rightarrow> bool"
where
  "rows_change P = list_all2 (\<lambda>v r. dt_id r = dt_id v \<and> (r = v \<or> P v r))"

lemma rows_change_refl [simp]: "rows_change P vs vs"
  by (simp add: rows_change_def list_all2_same)

lemma rows_change_ids: "rows_change P vs rs \<Longrightarrow> map dt_id rs = map dt_id vs"
  unfolding rows_change_def by (induction rule: list_all2_induct) auto

lemma rows_change_mono: "rows_change P vs rs \<Longrightarrow> (\<And>v r. P v r \<Longrightarrow> Q v r) \<Longrightarrow> rows_change Q vs rs"
  unfolding rows_change_def by (auto elim: list_all2_mono)

lemma rows_change_mem:
  "rows_change P vs rs \<Longrightarrow> r \<in> set rs \<Longrightarrow> \<exists>v \<in> set vs. dt_id r = dt_id v \<and> (r = v \<or> P v r)"
  unfolding rows_change_def by (induction rule: list_all2_induct) auto

lemma rows_change_replace:
  assumes "distinct (map dt_id vs)" and "v \<in> set vs" and "dt_id r = dt_id v" and "P v r"
  shows "rows_change P vs (replace_row dt_id r vs)"
proof -
  have "u = v" if "u \<in> set vs" "dt_id u = dt_id r" for u
    using that assms by (metis distinct_map inj_onD)
  then show ?thesis
    using assms unfolding rows_change_def replace_row_def
    by (auto simp: list.rel_map list_all2_same)
qed

lemma rows_change_trans:
  assumes "rows_change P us vs" and "rows_change P vs ws" and "\<And>u v w. P u v \<Longrightarrow> \<not> P v w"
  shows "rows_change P us ws"
  using assms(1,2) unfolding rows_change_def
  by (rule list_all2_trans [rotated 1]) (use assms(3) in auto)

definition expired_row :: "dingtalk_outbox_row \<Rightarrow> dingtalk_outbox_row \<Rightarrow> bool" where
  "expired_row v r \<longleftrightarrow>
     dt_status v = Dt_DISPATCHING \<and> dt_status r = Dt_UNKNOWN \<and> dt_fencing_token r = dt_fencing_token v
     \<and> dt_attempt_count r = dt_attempt_count v \<and> dt_run_id r = dt_run_id v
     \<and> dt_reconciliation_attempt_count r = dt_reconciliation_attempt_count v"

lemma expire_rows_returns:
  assumes "set vs \<subseteq> set (iw_deliveries w)" and "distinct (map dt_id (iw_deliveries w))"
    and "distinct (map dt_id vs)" and "\<forall>v \<in> set vs. dt_status v = Dt_DISPATCHING"
  shows "returns (expire_rows e clk vs)
     (\<lambda>_ w'. rows_change expired_row (iw_deliveries w) (iw_deliveries w') \<and> im_inputs w' = im_inputs w) w"
  using assms
proof (induction vs arbitrary: w clk)
  case (Cons v vs)
  have step: "returns (expire_rows e (later 1 clk) vs)
     (\<lambda>_ w'. rows_change expired_row (iw_deliveries w) (iw_deliveries w') \<and> im_inputs w' = im_inputs w) w1"
    if "wrote r w w1" and r: "dt_id r = dt_id v \<and> expired_row v r" for r w1
  proof -
    have d: "iw_deliveries w1 = replace_row dt_id r (iw_deliveries w)" and i: "im_inputs w1 = im_inputs w"
      using that by (auto simp: wrote_def)
    have c: "rows_change expired_row (iw_deliveries w) (iw_deliveries w1)"
      unfolding d using r Cons.prems by (intro rows_change_replace) auto
    have "set vs \<subseteq> set (iw_deliveries w1)"
      using Cons.prems r unfolding d by (auto intro!: replace_row_other_mem) (metis image_eqI)
    then have "returns (expire_rows e (later 1 clk) vs)
       (\<lambda>_ w'. rows_change expired_row (iw_deliveries w1) (iw_deliveries w') \<and> im_inputs w' = im_inputs w1) w1"
      using Cons.prems rows_change_ids [OF c] by (intro Cons.IH) auto
    then show ?thesis
      by (rule returns_conseq) (use c i in \<open>auto intro: rows_change_trans simp: expired_row_def\<close>)
  qed
  show ?case
    unfolding expire_rows.simps
    apply (intro returns_andthen set_last_error_returns)
    apply (rule returns_conseq)
     apply (rule save_delivery_through [where w = w, OF refl, where Q = "\<lambda>r. dt_id r = dt_id v \<and> expired_row v r"])
    using Cons.prems apply (simp add: expired_row_def)
    apply (elim conjE, rule step, assumption, intro conjI, assumption+)
    done
qed (simp add: returns_def)

lemma expire_claims_returns:
  assumes "distinct (map dt_id (iw_deliveries w))"
  shows "returns (expire_claims e clk)
     (\<lambda>_ w'. rows_change expired_row (iw_deliveries w) (iw_deliveries w') \<and> im_inputs w' = im_inputs w) w"
proof -
  let ?vs = "take 100 (sort_key (\<lambda>v. nulls_last (dt_lease_expires_at v))
        (filter (lease_expired (clk 0)) (iw_deliveries w)))"
  have s: "set ?vs \<subseteq> set (filter (lease_expired (clk 0)) (iw_deliveries w))"
    by (metis set_sort set_take_subset)
  have "distinct (map dt_id (sort_key (\<lambda>v. nulls_last (dt_lease_expires_at v))
        (filter (lease_expired (clk 0)) (iw_deliveries w))))"
    using assms by (auto simp: distinct_map inj_on_def)
  then have d: "distinct (map dt_id ?vs)" by (simp add: take_map [symmetric] distinct_take)
  have "returns (expire_rows e (later 1 clk) ?vs)
     (\<lambda>_ w'. rows_change expired_row (iw_deliveries w) (iw_deliveries w') \<and> im_inputs w' = im_inputs w) w"
    using s d assms by (intro expire_rows_returns) (auto simp: lease_expired_def)
  then show ?thesis
    unfolding expire_claims_def
    by (intro returns_andthen returns_reads) (erule returns_conseq, rule returns_ret)
qed

lemma expire_rows_posts: "keeps iw_posts (expire_rows e clk vs)"
  by (induction vs arbitrary: clk) (auto intro!: keeps_intros)

lemma expire_claims_posts: "keeps iw_posts (expire_claims e clk)"
  unfolding expire_claims_def by (intro keeps_intros expire_rows_posts; simp)

text \<open>A claim takes one queued row and hands out its new fencing token.\<close>

definition claims_row :: "dingtalk_outbox_row \<Rightarrow> dingtalk_outbox_row \<Rightarrow> outbox_claim \<Rightarrow> bool" where
  "claims_row v r claim \<longleftrightarrow>
     dt_status v = Dt_QUEUED \<and> dt_status r = Dt_DISPATCHING
     \<and> dt_fencing_token r = dt_fencing_token v + 1 \<and> dt_attempt_count r = dt_attempt_count v + 1
     \<and> dt_id r = dt_id v \<and> dt_run_id r = dt_run_id v
     \<and> dt_reconciliation_attempt_count r = dt_reconciliation_attempt_count v \<and> claim = \<lparr>oc_outbox_id = dt_id v, oc_fencing_token = dt_fencing_token r\<rparr>"

lemma claim_next_returns:
  "returns (claim_next e clk) (\<lambda>res w'. im_inputs w' = im_inputs w \<and>
     (case res of
        None \<Rightarrow> iw_deliveries w' = iw_deliveries w
      | Some claim \<Rightarrow> \<exists>v r. v \<in> set (iw_deliveries w) \<and> claims_row v r claim
          \<and> iw_deliveries w' = replace_row dt_id r (iw_deliveries w))) w"
proof (cases "first_by (\<lambda>v. nulls_last (dt_next_attempt_at v) @ [dt_created_at v])
        (filter (due (clk 0)) (iw_deliveries w))")
  case None
  then have "claim_next e clk w = (Inr None, w)"
    by (simp add: claim_next_def andthen_def reads_def ret_def del: first_by_None)
  then show ?thesis by (simp add: returns_def)
next
  case (Some v)
  have v: "v \<in> set (iw_deliveries w)" "due (clk 0) v" using first_by_in [OF Some] by auto
  show ?thesis
    unfolding claim_next_def
  proof (rule returns_andthen, rule returns_reads, simp only: Some option.case,
      intro returns_andthen set_last_error_returns)
    let ?r = "(claimed_row e (clk 0) v)\<lparr>dt_last_error_code := mapped_error None\<rparr>"
    have c: "claims_row v ?r \<lparr>oc_outbox_id = dt_id ?r, oc_fencing_token = dt_fencing_token ?r\<rparr>"
      using v(2) by (simp add: claims_row_def claimed_row_def due_def)
    show "returns (save_delivery (clk 1) ?r ''DISPATCHING'' []) (\<lambda>_. returns
        (ret (Some \<lparr>oc_outbox_id = dt_id ?r, oc_fencing_token = dt_fencing_token ?r\<rparr>))
        (\<lambda>res w'. im_inputs w' = im_inputs w \<and>
         (case res of
            None \<Rightarrow> iw_deliveries w' = iw_deliveries w
          | Some claim \<Rightarrow> \<exists>v r. v \<in> set (iw_deliveries w) \<and> claims_row v r claim
              \<and> iw_deliveries w' = replace_row dt_id r (iw_deliveries w)))) w"
    proof (rule returns_conseq)
      show "returns (save_delivery (clk 1) ?r ''DISPATCHING'' []) (\<lambda>r w'. r = ?r \<and> wrote r w w') w"
        by (rule save_delivery_through) simp_all
    next
      fix r w' assume "r = ?r \<and> wrote r w w'"
      then have i: "im_inputs w' = im_inputs w" and d: "iw_deliveries w' = replace_row dt_id ?r (iw_deliveries w)"
        unfolding wrote_def by (blast, metis)
      show "returns (ret (Some \<lparr>oc_outbox_id = dt_id ?r, oc_fencing_token = dt_fencing_token ?r\<rparr>))
        (\<lambda>res w'. im_inputs w' = im_inputs w \<and>
         (case res of
            None \<Rightarrow> iw_deliveries w' = iw_deliveries w
          | Some claim \<Rightarrow> \<exists>v r. v \<in> set (iw_deliveries w) \<and> claims_row v r claim
              \<and> iw_deliveries w' = replace_row dt_id r (iw_deliveries w))) w'"
        by (rule returns_ret, unfold option.case) (use i d v(1) c in blast)
    qed
  qed
qed

lemma claim_next_posts: "keeps iw_posts (claim_next e clk)"
  unfolding claim_next_def by (intro keeps_intros; simp)

end
