(* ===== verification/DingTalkDispatch.thy ===== *)
theory DingTalkDispatch
  imports DingTalkOutbox
begin

text \<open>
  What \<open>dispatch\<close> and \<open>reconcile\<close> of \<open>application/dingtalk_outbox.py\<close> do to the ledger and to
  the log of messages. \<open>dispatched\<close> is the effect of a dispatch: nothing was sent and the row is
  blocked or queued again, or one message was sent, under a valid claim and with inputs checked
  at that moment, and the row is final or unknown.
\<close>

section \<open>The inputs of a dispatch\<close>

definition inputs_ok :: "im_env \<Rightarrow> dingtalk_outbox_row \<Rightarrow> im_world \<Rightarrow> dispatch_inputs \<Rightarrow> bool" where
  "inputs_ok e v w i \<longleftrightarrow>
     (di_inbox i, di_run i, di_installation i, di_binding i, di_connector i) \<in> set (lineage_rows v w)
     \<and> dt_capability_version_id v = Some (di_capability_version_id i)
     \<and> queue_is_ready (ie_ext e) (di_inbox i) (di_installation i) (di_binding i) (di_connector i)
         (Some (di_capability_version_id i))
     \<and> connector_fingerprint (ie_ext e) (di_connector i) = dt_connector_fingerprint v
     \<and> ie_text_sha256 e (di_text i) = dt_content_fingerprint v"

lemma deliverable_text_keeps [simp]:
  "keeps im_tables (deliverable_text e now v m r t c)" "keeps iw_posts (deliverable_text e now v m r t c)"
  unfolding deliverable_text_def by (intro keeps_intros; simp)+

lemma authorized_text_keeps [simp]:
  "keeps im_tables (authorized_text e now v m r i)" "keeps iw_posts (authorized_text e now v m r i)"
  unfolding authorized_text_def by (intro keeps_intros; simp)+

lemma one_or_none_keeps [simp]: "keeps f (one_or_none rows)"
  by (simp add: keeps_def)

lemma dispatch_inputs_keeps [simp]:
  "keeps im_tables (dispatch_inputs_of e now v)" "keeps iw_posts (dispatch_inputs_of e now v)"
  unfolding dispatch_inputs_of_def Let_def
  by (intro catching_keeps keeps_intros; (intro catching_keeps keeps_intros)?; simp split: option.split)+

lemma authorize_send_keeps [simp]:
  "keeps im_tables (authorize_send e clk v t)" "keeps iw_posts (authorize_send e clk v t)"
  unfolding authorize_send_def by (intro keeps_intros; simp)+

lemma authorized_text_returns:
  "returns (authorized_text e now v m r i)
     (\<lambda>res _. \<forall>t p. res = Some (t, p) \<longrightarrow> ie_text_sha256 e t = dt_content_fingerprint v) w"
proof -
  have any: "returns k (\<lambda>_ _. True) w" for k :: "(im_world, 'a) op" and w by (simp add: returns_def)
  show ?thesis
    unfolding authorized_text_def
    by (auto simp: returns_def andthen_Inr split: option.splits if_splits)
qed

lemma dispatch_inputs_returns:
  "returns (dispatch_inputs_of e now v) (\<lambda>res _. \<forall>i. res = Some i \<longrightarrow> inputs_ok e v w i) w"
proof -
  have caught: "returns (catching access_failed (authorized_text e now v m r i) (\<lambda>_. ret None))
      (\<lambda>res _. \<forall>t p. res = Some (t, p) \<longrightarrow> ie_text_sha256 e t = dt_content_fingerprint v) w" for m r i w
    using authorized_text_returns [of e now v m r i w] by (auto simp: returns_def catching_Inr)
  have joined: "returns (one_or_none rows) (\<lambda>loaded. returns (k loaded) Q) w"
    if "returns (k None) Q w" and "\<And>t. rows = [t] \<Longrightarrow> returns (k (Some t)) Q w"
    for rows :: "'a list" and k :: "'a option \<Rightarrow> (im_world, 'b) op" and Q
    using that by (auto simp: returns_def one_or_none_iff)
  show ?thesis
    unfolding dispatch_inputs_of_def Let_def
    apply (rule returns_andthen, rule returns_reads, rule returns_andthen, rule joined)
     apply (simp add: returns_def)
    apply (simp only: option.case)
    apply (intro returns_case_option returns_if returns_ret, simp, simp)
    apply (rule returns_andthen, rule returns_conseq, rule caught, rule returns_ret)
    apply (auto simp: inputs_ok_def)
    done
qed

text \<open>The authorization given just before the message request.\<close>

lemma authorize_send_True:
  assumes "authorize_send e clk v text w = (Inr True, w')"
  shows "(\<exists>lease. dt_lease_expires_at v = Some lease \<and> clk 0 < lease) \<and> (\<exists>i. inputs_ok e v w i \<and> di_text i = text)"
  using assms dispatch_inputs_returns [of e "clk 1" v w]
  by (auto simp: authorize_send_def andthen_Inr returns_def split: option.splits if_splits)

interpretation dispatch_sender: robot_sender e "authorize_send e clk v t" for e clk v t
  by unfold_locales (rule keepsD [OF authorize_send_keeps(2)])

section \<open>Dispatch\<close>

definition same_claim :: "dingtalk_outbox_row \<Rightarrow> dingtalk_outbox_row \<Rightarrow> bool" where
  "same_claim v r \<longleftrightarrow>
     dt_id r = dt_id v \<and> dt_fencing_token r = dt_fencing_token v \<and> dt_attempt_count r = dt_attempt_count v
     \<and> dt_run_id r = dt_run_id v \<and> dt_inbox_message_id r = dt_inbox_message_id v"

definition same_row :: "dingtalk_outbox_row \<Rightarrow> dingtalk_outbox_row \<Rightarrow> bool" where
  "same_row v r \<longleftrightarrow>
     same_claim v r \<and> dt_reconciliation_attempt_count r = dt_reconciliation_attempt_count v"

lemma settle_delivery_returns:
  "returns (settle_delivery e clk v result) (\<lambda>r w'. (same_row v r \<and>
       (if rs_state (ror_send result) = Send_NOT_ATTEMPTED then dt_status r \<in> {Dt_BLOCKED, Dt_QUEUED}
        else dt_status r \<in> {Dt_ACCEPTED, Dt_REJECTED, Dt_UNKNOWN})) \<and> wrote r w w') w"
proof -
  have block: "returns (block_delivery e now v1 reason code) (\<lambda>r w'. Q r \<and> wrote r w w') w"
    if "Q (blocked_row v1 reason code)" for now v1 reason code Q
    by (rule block_delivery_returns, rule refl, rule that)
  have save: "returns (andthen (set_last_error e code v1) (\<lambda>v2.
                    save_delivery now v2 (dingtalk_outbox_status_value (dt_status v2)) [])) (\<lambda>r w'. Q r \<and> wrote r w w') w"
    if "Q (v1\<lparr>dt_last_error_code := mapped_error code\<rparr>)" for now v1 code Q
    by (intro returns_andthen set_last_error_returns save_delivery_through refl) (rule that)
  show ?thesis
    unfolding settle_delivery_def Let_def
    by (cases "rs_state (ror_send result)"; simp only: robot_send_state.case;
        intro returns_if save block; simp add: same_row_def same_claim_def blocked_row_def)
qed

lemma settle_delivery_posts: "keeps iw_posts (settle_delivery e clk v result)"
  unfolding settle_delivery_def Let_def
  by (cases "rs_state (ror_send result)") (auto intro!: keeps_intros)

text \<open>
  A message for \<open>v\<close> was authorized: the fence was held, the gateway admitted the request made of
  inputs checked in \<open>w\<close>, and just before sending the lease was still running and the inputs
  still gave the same text.
\<close>

definition delivery_authorised :: "im_env \<Rightarrow> dingtalk_outbox_row \<Rightarrow> robot_post \<Rightarrow> im_world \<Rightarrow> bool" where
  "delivery_authorised e v m w \<longleftrightarrow>
     ie_fence e (dt_organization_id v)
     \<and> (\<exists>i w1. inputs_ok e v w i \<and> im_tables w1 = im_tables w \<and> rp_text m = di_text i
          \<and> robot_admitted e False (outbox_request e v i) (iw_db w1))
     \<and> (\<exists>i s lease now. dt_lease_expires_at v = Some lease \<and> now < lease \<and> im_tables s = im_tables w
          \<and> inputs_ok e v s i \<and> di_text i = rp_text m)"

definition dispatched ::
  "im_env \<Rightarrow> dingtalk_outbox_row \<Rightarrow> im_world \<Rightarrow> err + dingtalk_outbox_row \<Rightarrow> im_world \<Rightarrow> bool" where
  "dispatched e v w res w' \<longleftrightarrow>
     iw_posts w' = iw_posts w
       \<and> (\<forall>r. res = Inr r \<longrightarrow> same_row v r \<and> dt_status r \<in> {Dt_BLOCKED, Dt_QUEUED} \<and> wrote r w w')
     \<or> (\<exists>m. iw_posts w' = iw_posts w @ [(dt_id v, m)] \<and> delivery_authorised e v m w)
       \<and> (\<forall>r. res = Inr r \<longrightarrow>
             same_row v r \<and> dt_status r \<in> {Dt_ACCEPTED, Dt_REJECTED, Dt_UNKNOWN} \<and> wrote r w w')"

lemma dispatched_blocks:
  assumes "im_tables w1 = im_tables w" and "iw_posts w1 = iw_posts w"
    and "block_delivery e' now v reason code w1 = (res, w')"
  shows "dispatched e v w res w'"
  using block_delivery_blocks [OF assms(3)] assms(1,2) saved_wrote saved_parts(2)
  by (auto simp: dispatched_def blocked_row_def same_row_def same_claim_def)

lemma invoke_tables:
  "keeps im_tables (invoke_dingtalk_robot_outbox e clk (authorize_send e clk' v text) r)"
proof -
  have wire: "keeps im_tables (vendor_wire e oid m)" for oid m
    by (simp add: vendor_wire_def im_tables_def keeps_andthen)
  have send: "keeps im_tables (send_message tok (vendor_wire e oid) (authorize_send e clk' v text) cr i m)" for tok oid cr i m
    unfolding send_message_def by (intro catching_keeps keeps_intros; (intro catching_keeps keeps_intros)?; simp add: wire)
  have attempt: "keeps im_tables (robot_attempt e (authorize_send e clk' v text) r rc)" for rc
    unfolding robot_attempt_def send_text_def send_group_text_def
    by (intro catching_keeps keeps_intros robot_credential_reads send; simp)
  show ?thesis
    unfolding invoke_dingtalk_robot_outbox_def
    by (intro keeps_intros robot_admission_keeps attempt; simp)
qed

lemma dispatch_row_dispatched:
  assumes run: "dispatch_row e clk v w = (res, w')"
  shows "dispatched e v w res w'"
proof (cases "ie_fence e (dt_organization_id v)")
  case False
  then show ?thesis using run dispatched_blocks [OF refl refl] by (simp add: dispatch_row_def)
next
  case fence: True
  obtain a w1 where a: "dispatch_inputs_of e (clk 0) v w = (a, w1)" by (cases "dispatch_inputs_of e (clk 0) v w")
  have t1: "im_tables w1 = im_tables w" and p1: "iw_posts w1 = iw_posts w"
    using keepsD [OF dispatch_inputs_keeps(1) a] keepsD [OF dispatch_inputs_keeps(2) a] by auto
  show ?thesis
  proof (cases a)
    case (Inl err)
    then show ?thesis using run a fence p1 by (auto simp: dispatch_row_def andthen_def dispatched_def)
  next
    case (Inr found)
    show ?thesis
    proof (cases found)
      case None
      then have "block_delivery e (clk 1) v ''delivery_preconditions_changed'' None w1 = (res, w')"
        using run a fence Inr by (simp add: dispatch_row_def andthen_def)
      then show ?thesis by (rule dispatched_blocks [OF t1 p1])
    next
      case (Some i)
      have i: "inputs_ok e v w i" using dispatch_inputs_returns [of e "clk 0" v w] a Inr Some by (simp add: returns_def)
      let ?auth = "authorize_send e (later 20 clk) v (di_text i)" and ?r = "outbox_request e v i"
      obtain b w2 where b: "invoke_dingtalk_robot_outbox e (later 10 clk) ?auth ?r w1 = (b, w2)"
        by (cases "invoke_dingtalk_robot_outbox e (later 10 clk) ?auth ?r w1")
      have t2: "im_tables w2 = im_tables w" using keepsD [OF invoke_tables b] t1 by simp
      have tail: "(case b of Inl err \<Rightarrow> (Inl err, w2) | Inr result \<Rightarrow> settle_delivery e (later 60 clk) v result w2) = (res, w')"
        using run a fence Inr Some b by (simp add: dispatch_row_def andthen_def split: sum.split)
      have p2: "iw_posts w' = iw_posts w2"
        using tail keepsD [OF settle_delivery_posts] by (auto split: sum.splits)
      have wr: "wrote r w2 w' \<Longrightarrow> wrote r w w'" for r
        using im_tables_fields(6) [OF t2] im_inputs_tables [OF t2] by (simp add: wrote_def)
      have settled: "\<exists>result. b = Inr result \<and> same_row v r \<and> wrote r w w' \<and>
          (if rs_state (ror_send result) = Send_NOT_ATTEMPTED then dt_status r \<in> {Dt_BLOCKED, Dt_QUEUED}
           else dt_status r \<in> {Dt_ACCEPTED, Dt_REJECTED, Dt_UNKNOWN})" if is_r: "res = Inr r" for r
      proof -
        obtain result where "b = Inr result" and st: "settle_delivery e (later 60 clk) v result w2 = (Inr r, w')"
          using tail is_r by (auto split: sum.splits)
        then show ?thesis
          using settle_delivery_returns [of e "later 60 clk" v result w2] wr unfolding returns_def by blast
      qed
      have request: "rr_outbox_id ?r = dt_id v" "rr_text ?r = di_text i"
        by (simp_all add: outbox_request_def)
      from dispatch_sender.invoke_sent [OF b]
      show ?thesis unfolding dispatch_sender.robot_sent_def request
      proof (elim disjE conjE exE)
        assume "iw_posts w2 = iw_posts w1"
          and na: "\<forall>x. b = Inr x \<longrightarrow> rs_state (ror_send x) = Send_NOT_ATTEMPTED"
        then have "iw_posts w' = iw_posts w" using p1 p2 by simp
        moreover have "same_row v r \<and> dt_status r \<in> {Dt_BLOCKED, Dt_QUEUED} \<and> wrote r w w'" if "res = Inr r" for r
          using settled [OF that] na by auto
        ultimately show ?thesis unfolding dispatched_def by blast
      next
        fix m s t
        assume posts: "iw_posts w2 = iw_posts w1 @ [(dt_id v, m)]" and m: "rp_text m = di_text i"
          and adm: "robot_admitted e False ?r (iw_db w1)" and s: "im_tables s = im_tables w1"
          and au: "?auth s = (Inr True, t)"
          and sent: "\<forall>x. b = Inr x \<longrightarrow> rs_state (ror_send x) \<noteq> Send_NOT_ATTEMPTED"
        have "delivery_authorised e v m w"
          unfolding delivery_authorised_def
          using fence i t1 adm m s authorize_send_True [OF au] by metis
        moreover have "iw_posts w' = iw_posts w @ [(dt_id v, m)]" using posts p1 p2 by simp
        moreover have "same_row v r \<and> dt_status r \<in> {Dt_ACCEPTED, Dt_REJECTED, Dt_UNKNOWN} \<and> wrote r w w'"
          if "res = Inr r" for r
          using settled [OF that] sent by auto
        ultimately show ?thesis unfolding dispatched_def by blast
      qed
    qed
  qed
qed

text \<open>The whole operation: a claim whose token is no longer current does nothing.\<close>

definition held_by :: "outbox_claim \<Rightarrow> dingtalk_outbox_row \<Rightarrow> bool" where
  "held_by claim v \<longleftrightarrow>
     dt_id v = oc_outbox_id claim \<and> dt_status v = Dt_DISPATCHING \<and> dt_fencing_token v = oc_fencing_token claim"

lemma dispatch_cases:
  assumes "dispatch e clk claim w = (res, w')"
  shows "res = Inr None \<and> w' = w
     \<or> (\<exists>v res1. v \<in> set (iw_deliveries w) \<and> held_by claim v \<and> dispatched e v w res1 w'
          \<and> res = map_sum id Some res1)"
proof (cases "find (\<lambda>v. dt_id v = oc_outbox_id claim) (iw_deliveries w)")
  case None
  then show ?thesis using assms by (simp add: dispatch_def andthen_def reads_def ret_def)
next
  case (Some v)
  have v: "v \<in> set (iw_deliveries w)" "dt_id v = oc_outbox_id claim" using find_SomeD [OF Some] by auto
  show ?thesis
  proof (cases "held_by claim v")
    case False
    then show ?thesis using assms Some v(2) by (auto simp: dispatch_def andthen_def reads_def ret_def held_by_def)
  next
    case True
    obtain res1 w1 where d: "dispatch_row e clk v w = (res1, w1)" by (cases "dispatch_row e clk v w")
    have "res = map_sum id Some res1 \<and> w' = w1"
      using assms Some True d by (cases res1) (auto simp: dispatch_def andthen_def reads_def ret_def held_by_def)
    then show ?thesis using v True dispatch_row_dispatched [OF d] by blast
  qed
qed

section \<open>Reconciliation\<close>

text \<open>A reconciliation never sends, and an accepted row stays accepted or is rejected.\<close>

definition reconciled_row :: "dingtalk_outbox_row \<Rightarrow> dingtalk_outbox_row \<Rightarrow> bool" where
  "reconciled_row v r \<longleftrightarrow>
     same_row v r \<and> dt_status v = Dt_ACCEPTED \<and> dt_status r \<in> {Dt_ACCEPTED, Dt_REJECTED}
     \<and> dt_accepted_process_query_key r = dt_accepted_process_query_key v"

lemma reconciliation_inputs_keeps [simp]:
  "keeps im_tables (reconciliation_inputs_of e now v)" "keeps iw_posts (reconciliation_inputs_of e now v)"
  unfolding reconciliation_inputs_of_def reconciliation_principal_def Let_def
  by (intro catching_keeps keeps_intros; (intro catching_keeps keeps_intros)?; simp split: option.split)+

lemma settle_reconciliation_posts: "keeps iw_posts (settle_reconciliation e now v result)"
  unfolding settle_reconciliation_def Let_def
  by (cases "rq_state (roq_query result)") (auto intro!: keeps_intros)

lemma reconcile_posts: "keeps iw_posts (reconcile e clk claim)"
  unfolding reconcile_def
  by (intro keeps_intros reconcile_robot_keeps settle_reconciliation_posts; simp)

lemma settle_reconciliation_returns:
  assumes "dt_status v = Dt_ACCEPTED"
  shows "returns (settle_reconciliation e now v result) (\<lambda>r w'. reconciled_row v r \<and> wrote r w w') w"
proof -
  have save: "returns (andthen (set_last_error e code v1) (\<lambda>v2. save_delivery now v2 oc md)) (\<lambda>r w'. Q r \<and> wrote r w w') w"
    if "Q (v1\<lparr>dt_last_error_code := mapped_error code\<rparr>)" for v1 code oc md Q
    by (intro returns_andthen set_last_error_returns save_delivery_through refl) (rule that)
  show ?thesis
    unfolding settle_reconciliation_def Let_def using assms
    by (cases "rq_state (roq_query result)"; simp only: robot_query_state.case; intro save;
        simp add: reconciled_row_def same_row_def same_claim_def split: option.split)
qed

lemma reconcile_returns:
  "returns (reconcile e clk claim) (\<lambda>_ w'. im_inputs w' = im_inputs w \<and>
     (iw_deliveries w' = iw_deliveries w
      \<or> (\<exists>v r. v \<in> set (iw_deliveries w) \<and> reconciled_row v r
           \<and> iw_deliveries w' = replace_row dt_id r (iw_deliveries w)))) w"
proof (cases "find (\<lambda>v. dt_id v = rc_outbox_id claim) (iw_deliveries w)")
  case None
  then show ?thesis by (simp add: reconcile_def returns_def andthen_def reads_def ret_def)
next
  case (Some v)
  have v: "v \<in> set (iw_deliveries w)" using find_SomeD [OF Some] by auto
  define Q where "Q w' \<longleftrightarrow> im_inputs w' = im_inputs w \<and>
     (iw_deliveries w' = iw_deliveries w
      \<or> (\<exists>v r. v \<in> set (iw_deliveries w) \<and> reconciled_row v r
           \<and> iw_deliveries w' = replace_row dt_id r (iw_deliveries w)))" for w'
  have same: "Q w" by (simp add: Q_def)
  have one: "Q w'" if "reconciled_row v r" "wrote r w w'" for r w'
    using that v by (auto simp: Q_def wrote_def)
  have shifted: "wrote r w w'" if "wrote r w1 w'" "im_tables w1 = im_tables w" for r w1 w'
    using that(1) im_tables_fields(6) [OF that(2)] im_inputs_tables [OF that(2)] by (simp add: wrote_def)
  show ?thesis
  proof (cases "dt_status v = Dt_ACCEPTED")
    case acc: True
    have "returns (reconcile e clk claim) (\<lambda>_. Q) w"
      unfolding reconcile_def
      apply (rule returns_andthen, rule returns_reads)
      apply (simp only: Some option.case)
      apply (rule returns_if, rule returns_ret, rule same)
      apply (rule returns_andthen, rule returns_through, simp, rule returns_case_option)
       apply (intro returns_andthen set_last_error_returns, rule returns_conseq)
        apply (rule save_delivery_through [where Q = "reconciled_row v"], assumption)
        apply (simp add: reconciled_row_def same_row_def same_claim_def acc)
       apply (rule returns_ret, elim conjE, rule one, assumption, assumption)
      apply (rule returns_andthen, rule returns_through, rule reconcile_robot_keeps)
      apply (rule returns_andthen, rule returns_conseq, rule settle_reconciliation_returns [OF acc])
      apply (rule returns_ret, elim conjE, rule one, assumption, erule shifted, simp)
      done
    then show ?thesis unfolding Q_def .
  next
    case False
    then show ?thesis using Some by (simp add: reconcile_def returns_def andthen_def reads_def ret_def)
  qed
qed

text \<open>Claiming a reconciliation counts an attempt, within the bound.\<close>

definition reconciling_row :: "im_env \<Rightarrow> dingtalk_outbox_row \<Rightarrow> dingtalk_outbox_row \<Rightarrow> bool" where
  "reconciling_row e v r \<longleftrightarrow>
     same_claim v r \<and> dt_status v = Dt_ACCEPTED \<and> dt_status r = Dt_ACCEPTED
     \<and> dt_reconciliation_attempt_count v < max_reconciliation_attempts e
     \<and> dt_reconciliation_attempt_count r = dt_reconciliation_attempt_count v + 1"

lemma claim_reconciliation_returns:
  "returns (claim_reconciliation e clk oi org) (\<lambda>_ w'. im_inputs w' = im_inputs w \<and>
     (iw_deliveries w' = iw_deliveries w
      \<or> (\<exists>v r. v \<in> set (iw_deliveries w) \<and> reconciling_row e v r
           \<and> iw_deliveries w' = replace_row dt_id r (iw_deliveries w)))) w"
proof (cases "first_by (\<lambda>v. nulls_last (dt_last_reconciled_at v) @ [dt_created_at v])
        (filter (reconcilable e (clk 0 - timedelta_seconds (ie_lease_seconds e)) oi org) (iw_deliveries w))")
  case None
  then have "claim_reconciliation e clk oi org w = (Inr None, w)"
    by (simp add: claim_reconciliation_def andthen_def reads_def ret_def del: first_by_None)
  then show ?thesis by (simp add: returns_def)
next
  case (Some v)
  let ?r = "v\<lparr>dt_reconciliation_attempt_count := dt_reconciliation_attempt_count v + 1,
                dt_last_reconciled_at := Some (clk 1)\<rparr>"
  have v: "v \<in> set (iw_deliveries w)" and r: "reconciling_row e v ?r"
    using first_by_in [OF Some] by (auto simp: reconciling_row_def same_row_def same_claim_def reconcilable_def)
  have "\<exists>c. claim_reconciliation e clk oi org w = (Inr c, w\<lparr>iw_deliveries := replace_row dt_id ?r (iw_deliveries w)\<rparr>)"
    using Some by (simp add: claim_reconciliation_def andthen_def reads_def ret_def Let_def put_delivery_def modify_def)
  then show ?thesis using v r
    by (force simp: returns_def im_inputs_def im_tables_def)
qed

lemma claim_reconciliation_posts: "keeps iw_posts (claim_reconciliation e clk oi org)"
  unfolding claim_reconciliation_def Let_def by (intro keeps_intros; simp)

end
