(* ===== verification/OutboxSystem.thy ===== *)
theory OutboxSystem
  imports DingTalkDispatch
begin

text \<open>
  The delivery ledger under any number of workers. \<open>outbox_step N\<close> is one transaction of
  \<open>application/dingtalk_outbox_worker.py\<close> or of the reconciliation endpoint, with any answers
  from outside and any clock; \<open>N\<close> is the configured maximum of attempts. A claim is outstanding
  from the commit of \<open>claim_next\<close> until the worker that holds it calls \<open>dispatch\<close> or dies.
  \<open>elsewhere\<close> is what the rest of the program does: anything but to the ledger and the log.

  \<open>outbox_inv\<close> is the invariant behind the at-most-once delivery: only a settled row, or a
  dispatching row whose claim is used up, has a message in the log. \<open>OutboxDelivery\<close> shows that a
  round of the worker is a path of this system.
\<close>

section \<open>The system\<close>

record outbox_system =
  os_world :: im_world
  os_claims :: "outbox_claim list"

inductive outbox_step :: "int \<Rightarrow> outbox_system \<Rightarrow> outbox_system \<Rightarrow> bool" for N where
  expire: "ie_max_attempts e = N \<Longrightarrow>
     outbox_step N s (s\<lparr>os_world := snd (im_transaction (expire_claims e clk) (os_world s))\<rparr>)"
| enqueue: "ie_max_attempts e = N \<Longrightarrow>
     outbox_step N s (s\<lparr>os_world := snd (im_transaction (enqueue_next e clk) (os_world s))\<rparr>)"
| claim: "ie_max_attempts e = N \<Longrightarrow> im_transaction (claim_next e clk) (os_world s) = (Inr (Some c), w) \<Longrightarrow>
     outbox_step N s \<lparr>os_world = w, os_claims = c # os_claims s\<rparr>"
| no_claim: "ie_max_attempts e = N \<Longrightarrow> im_transaction (claim_next e clk) (os_world s) = (v, w) \<Longrightarrow>
     (\<forall>c. v \<noteq> Inr (Some c)) \<Longrightarrow> outbox_step N s (s\<lparr>os_world := w\<rparr>)"
| dispatch: "ie_max_attempts e = N \<Longrightarrow> c \<in> set (os_claims s) \<Longrightarrow>
     outbox_step N s \<lparr>os_world = snd (im_transaction (dispatch e clk c) (os_world s)),
                      os_claims = remove1 c (os_claims s)\<rparr>"
| die: "outbox_step N s (s\<lparr>os_claims := remove1 c (os_claims s)\<rparr>)"
| claim_reconciliation: "ie_max_attempts e = N \<Longrightarrow>
     outbox_step N s (s\<lparr>os_world := snd (im_transaction (claim_reconciliation e clk oi org) (os_world s))\<rparr>)"
| reconcile: "ie_max_attempts e = N \<Longrightarrow>
     outbox_step N s (s\<lparr>os_world := snd (im_transaction (reconcile e clk rc) (os_world s))\<rparr>)"
| elsewhere: "iw_deliveries w = iw_deliveries (os_world s) \<Longrightarrow> iw_posts w = iw_posts (os_world s) \<Longrightarrow>
     outbox_step N s (s\<lparr>os_world := w\<rparr>)"

definition outbox_start :: "outbox_system \<Rightarrow> bool" where
  "outbox_start s \<longleftrightarrow> iw_deliveries (os_world s) = [] \<and> iw_posts (os_world s) = [] \<and> os_claims s = []"

inductive outbox_reachable :: "int \<Rightarrow> outbox_system \<Rightarrow> bool" for N where
  start: "outbox_start s \<Longrightarrow> outbox_reachable N s"
| step: "outbox_reachable N s \<Longrightarrow> outbox_step N s s' \<Longrightarrow> outbox_reachable N s'"

section \<open>The invariant\<close>

definition posts_of :: "uuid \<Rightarrow> im_world \<Rightarrow> (uuid \<times> robot_post) list" where
  "posts_of i w = filter (\<lambda>p. fst p = i) (iw_posts w)"

text \<open>A row with a message in the log will not be sent again.\<close>

definition settled :: "outbox_claim list \<Rightarrow> dingtalk_outbox_row \<Rightarrow> bool" where
  "settled cs v \<longleftrightarrow>
     dt_status v \<in> {Dt_ACCEPTED, Dt_REJECTED, Dt_UNKNOWN}
     \<or> dt_status v = Dt_DISPATCHING \<and> (\<forall>c \<in> set cs. \<not> held_by c v)"

definition row_inv :: "int \<Rightarrow> im_world \<Rightarrow> outbox_claim list \<Rightarrow> dingtalk_outbox_row \<Rightarrow> bool" where
  "row_inv N w cs v \<longleftrightarrow>
     (posts_of (dt_id v) w = [] \<or> length (posts_of (dt_id v) w) = 1 \<and> settled cs v)
     \<and> dt_reconciliation_attempt_count v \<le> max 1 N
     \<and> (\<forall>c \<in> set cs. oc_outbox_id c = dt_id v \<longrightarrow> oc_fencing_token c \<le> dt_fencing_token v)"

definition outbox_inv :: "int \<Rightarrow> outbox_system \<Rightarrow> bool" where
  "outbox_inv N s \<longleftrightarrow>
     (let w = os_world s; cs = os_claims s
      in distinct (map dt_id (iw_deliveries w)) \<and> distinct (map dt_run_id (iw_deliveries w))
       \<and> distinct cs
       \<and> (\<forall>p \<in> set (iw_posts w). fst p \<in> dt_id ` set (iw_deliveries w))
       \<and> (\<forall>c \<in> set cs. oc_outbox_id c \<in> dt_id ` set (iw_deliveries w))
       \<and> (\<forall>v \<in> set (iw_deliveries w). row_inv N w cs v))"

lemma posts_of_cong: "iw_posts w' = iw_posts w \<Longrightarrow> posts_of i w' = posts_of i w"
  by (simp add: posts_of_def)

lemma row_inv_cong: "iw_posts w' = iw_posts w \<Longrightarrow> row_inv N w' cs v = row_inv N w cs v"
  by (simp add: row_inv_def posts_of_def)

text \<open>A transaction: its commit, or its roll back to the tables before it.\<close>

lemma transaction_effect:
  assumes "\<And>v w'. m w = (v, w') \<Longrightarrow> iw_posts w' = iw_posts w"
    and "returns m (\<lambda>_ w'. E (iw_deliveries w')) w" and "E (iw_deliveries w)"
  shows "E (iw_deliveries (snd (im_transaction m w))) \<and> iw_posts (snd (im_transaction m w)) = iw_posts w"
  using assms by (cases "m w"; cases "fst (m w)") (auto simp: im_transaction_def returns_def)

lemma outbox_inv_change:
  assumes inv: "outbox_inv N s" and rows: "list_all2 R (iw_deliveries (os_world s)) (iw_deliveries w')"
    and cs: "distinct cs'" "\<And>c. c \<in> set cs' \<Longrightarrow> oc_outbox_id c \<in> dt_id ` set (iw_deliveries (os_world s))"
    and ps: "\<And>p. p \<in> set (iw_posts w') \<Longrightarrow> fst p \<in> dt_id ` set (iw_deliveries (os_world s))"
    and keep: "\<And>v r. v \<in> set (iw_deliveries (os_world s)) \<Longrightarrow> R v r \<Longrightarrow>
       row_inv N (os_world s) (os_claims s) v \<Longrightarrow>
       row_inv N w' cs' r \<and> dt_id r = dt_id v \<and> dt_run_id r = dt_run_id v"
  shows "outbox_inv N \<lparr>os_world = w', os_claims = cs'\<rparr>"
proof -
  let ?w = "os_world s"
  have old: "\<forall>v \<in> set (iw_deliveries ?w). row_inv N ?w (os_claims s) v"
    "distinct (map dt_id (iw_deliveries ?w))" "distinct (map dt_run_id (iw_deliveries ?w))"
    using inv by (auto simp: outbox_inv_def Let_def)
  have "list_all2 (\<lambda>v r. row_inv N w' cs' r \<and> dt_id r = dt_id v \<and> dt_run_id r = dt_run_id v)
      (iw_deliveries ?w) (iw_deliveries w')"
    using rows by (rule list.rel_mono_strong) (use old(1) keep in blast)
  then have "map dt_id (iw_deliveries w') = map dt_id (iw_deliveries ?w)
      \<and> map dt_run_id (iw_deliveries w') = map dt_run_id (iw_deliveries ?w)
      \<and> (\<forall>r \<in> set (iw_deliveries w'). row_inv N w' cs' r)"
    by (induction rule: list_all2_induct) auto
  moreover from this have "dt_id ` set (iw_deliveries w') = dt_id ` set (iw_deliveries ?w)" by (metis set_map)
  ultimately show ?thesis using old cs ps by (simp add: outbox_inv_def Let_def)
qed

lemma replace_related:
  assumes "distinct (map dt_id vs)" and "v \<in> set vs" and "dt_id r = dt_id v"
  shows "list_all2 (\<lambda>u ru. u = v \<and> ru = r \<or> dt_id u \<noteq> dt_id v \<and> ru = u) vs (replace_row dt_id r vs)"
proof -
  have "u = v" if "u \<in> set vs" "dt_id u = dt_id v" for u
    using that assms by (metis distinct_map inj_onD)
  then show ?thesis using assms by (auto simp: replace_row_def list.rel_map list_all2_same)
qed

subsection \<open>Every step keeps it\<close>

lemma inv_parts:
  assumes "outbox_inv N s"
  shows "distinct (map dt_id (iw_deliveries (os_world s)))" "distinct (os_claims s)"
    "\<And>c. c \<in> set (os_claims s) \<Longrightarrow> oc_outbox_id c \<in> dt_id ` set (iw_deliveries (os_world s))"
    "\<And>p. p \<in> set (iw_posts (os_world s)) \<Longrightarrow> fst p \<in> dt_id ` set (iw_deliveries (os_world s))"
    "\<And>v. v \<in> set (iw_deliveries (os_world s)) \<Longrightarrow> row_inv N (os_world s) (os_claims s) v"
  using assms by (auto simp: outbox_inv_def Let_def)

text \<open>A step that changes rows by \<open>P\<close> and sends nothing.\<close>

lemma silent_step:
  assumes inv: "outbox_inv N s" and posts: "iw_posts w' = iw_posts (os_world s)"
    and rows: "rows_change P (iw_deliveries (os_world s)) (iw_deliveries w')"
    and keep: "\<And>v r. dt_id r = dt_id v \<Longrightarrow> P v r \<Longrightarrow> row_inv N (os_world s) (os_claims s) v \<Longrightarrow>
       row_inv N (os_world s) (os_claims s) r \<and> dt_run_id r = dt_run_id v"
  shows "outbox_inv N (s\<lparr>os_world := w'\<rparr>)"
proof -
  have "outbox_inv N \<lparr>os_world = w', os_claims = os_claims s\<rparr>"
    by (rule outbox_inv_change [OF inv rows [unfolded rows_change_def]])
      (use inv_parts [OF inv] posts keep row_inv_cong [OF posts] in \<open>auto\<close>)
  then show ?thesis by (cases s) simp
qed

lemma expire_step:
  assumes inv: "outbox_inv N s"
  shows "outbox_inv N (s\<lparr>os_world := snd (im_transaction (expire_claims e clk) (os_world s))\<rparr>)"
proof -
  have "rows_change expired_row (iw_deliveries (os_world s))
       (iw_deliveries (snd (im_transaction (expire_claims e clk) (os_world s))))
     \<and> iw_posts (snd (im_transaction (expire_claims e clk) (os_world s))) = iw_posts (os_world s)" (is "?R \<and> ?P")
    by (rule transaction_effect [OF keepsD [OF expire_claims_posts]], assumption,
        rule returns_conseq, rule expire_claims_returns [OF inv_parts(1) [OF inv]]) simp_all
  then have rows: ?R and posts: ?P by blast+
  show ?thesis
    by (rule silent_step [OF inv posts rows]) (auto simp: expired_row_def row_inv_def settled_def)
qed

lemma reconcile_step:
  assumes inv: "outbox_inv N s"
  shows "outbox_inv N (s\<lparr>os_world := snd (im_transaction (reconcile e clk rc) (os_world s))\<rparr>)"
proof -
  let ?vs = "iw_deliveries (os_world s)"
  have "rows_change reconciled_row ?vs (iw_deliveries (snd (im_transaction (reconcile e clk rc) (os_world s))))
     \<and> iw_posts (snd (im_transaction (reconcile e clk rc) (os_world s))) = iw_posts (os_world s)" (is "?R \<and> ?P")
    by (rule transaction_effect [OF keepsD [OF reconcile_posts]], assumption, rule returns_conseq, rule reconcile_returns)
      (auto simp: reconciled_row_def same_row_def same_claim_def intro!: rows_change_replace [OF inv_parts(1) [OF inv]])
  then have rows: ?R and posts: ?P by blast+
  show ?thesis
    by (rule silent_step [OF inv posts rows])
      (auto simp: reconciled_row_def same_row_def same_claim_def row_inv_def settled_def held_by_def)
qed

lemma claim_reconciliation_step:
  assumes inv: "outbox_inv N s" and N: "ie_max_attempts e = N"
  shows "outbox_inv N (s\<lparr>os_world := snd (im_transaction (claim_reconciliation e clk oi org) (os_world s))\<rparr>)"
proof -
  let ?vs = "iw_deliveries (os_world s)"
  have "rows_change (reconciling_row e) ?vs
       (iw_deliveries (snd (im_transaction (claim_reconciliation e clk oi org) (os_world s))))
     \<and> iw_posts (snd (im_transaction (claim_reconciliation e clk oi org) (os_world s))) = iw_posts (os_world s)"
    (is "?R \<and> ?P")
    by (rule transaction_effect [OF keepsD [OF claim_reconciliation_posts]], assumption,
        rule returns_conseq, rule claim_reconciliation_returns)
      (auto simp: reconciling_row_def same_claim_def intro!: rows_change_replace [OF inv_parts(1) [OF inv]])
  then have rows: ?R and posts: ?P by blast+
  show ?thesis
    by (rule silent_step [OF inv posts rows])
      (auto simp: reconciling_row_def same_claim_def row_inv_def settled_def held_by_def max_reconciliation_attempts_def N)
qed

text \<open>Enqueueing refreshes a blocked row, which has no message, or adds a row with a new identifier.\<close>

lemma optional_rows_mem: "Some v \<in> set (optional_rows xs) \<Longrightarrow> v \<in> set xs"
  by (auto simp: optional_rows_def split: if_splits)

lemma candidate_outbox:
  "c \<in> set (enqueue_candidates w) \<Longrightarrow> ec_outbox c = Some v \<Longrightarrow>
     v \<in> set (iw_deliveries w) \<and> awaits_queue (Some v) \<and> dt_run_id v = run_id (ec_run c)"
  by (auto simp: enqueue_candidates_def dest!: optional_rows_mem)

lemma enqueued_cases:
  assumes "enqueued e w w'"
  obtains (same) "iw_deliveries w' = iw_deliveries w"
  | (row) c v r where "first_by candidate_order (enqueue_candidates w) = Some c" "c \<in> set (enqueue_candidates w)"
      "prepared c v r" "ec_outbox c = Some v" "iw_deliveries w' = replace_row dt_id r (iw_deliveries w)"
  | (new) c v r where "first_by candidate_order (enqueue_candidates w) = Some c" "prepared c v r" "ec_outbox c = None"
      "dt_run_id v = run_id (ec_run c)" "dt_fencing_token v = 0" "dt_reconciliation_attempt_count v = 0"
      "insert_ok v w" "iw_deliveries w' = iw_deliveries w @ [r]"
proof -
  consider "iw_deliveries w' = iw_deliveries w"
    | c v r where "first_by candidate_order (enqueue_candidates w) = Some c" "prepared c v r"
        "ec_outbox c = Some v \<and> iw_deliveries w' = replace_row dt_id r (iw_deliveries w)
         \<or> ec_outbox c = None \<and> dt_run_id v = run_id (ec_run c) \<and> dt_fencing_token v = 0
           \<and> dt_reconciliation_attempt_count v = 0 \<and> insert_ok v w \<and> iw_deliveries w' = iw_deliveries w @ [r]"
    using assms unfolding enqueued_def by blast
  then show ?thesis
  proof cases
    case 1
    then show ?thesis by (rule same)
  next
    case (2 c v r)
    from 2(3) show ?thesis using 2(1,2) first_by_in [OF 2(1)] by (elim disjE conjE) (blast intro: row new)+
  qed
qed

lemma enqueue_step:
  assumes inv: "outbox_inv N s"
  shows "outbox_inv N (s\<lparr>os_world := snd (im_transaction (enqueue_next e clk) (os_world s))\<rparr>)"
proof -
  let ?w = "os_world s" and ?w' = "snd (im_transaction (enqueue_next e clk) (os_world s))"
  have posts: "iw_posts ?w' = iw_posts ?w"
    using keepsD [OF enqueue_next_posts] by (cases "enqueue_next e clk ?w"; cases "fst (enqueue_next e clk ?w)")
      (force simp: im_transaction_def)+
  have "iw_deliveries ?w' = iw_deliveries ?w \<or> enqueued e ?w ?w'"
    using enqueue_next_returns [of e clk ?w]
    by (cases "enqueue_next e clk ?w"; cases "fst (enqueue_next e clk ?w)") (auto simp: im_transaction_def returns_def)
  then have "enqueued e ?w ?w' \<or> iw_deliveries ?w' = iw_deliveries ?w" by blast
  moreover have unchanged: ?thesis if "iw_deliveries ?w' = iw_deliveries ?w"
    using that by (intro silent_step [OF inv posts, where P = "\<lambda>_ _. False"]) (simp_all add: rows_change_def list_all2_same)
  moreover have ?thesis if "enqueued e ?w ?w'"
    using that
  proof (cases rule: enqueued_cases)
    case same
    then show ?thesis by (rule unchanged)
  next
    case (row c v r)
    have v: "v \<in> set (iw_deliveries ?w)" "dt_status v = Dt_BLOCKED"
      using candidate_outbox [OF row(2,4)] by (auto simp: awaits_queue_def)
    have "rows_change (\<lambda>v r. dt_status v = Dt_BLOCKED \<and> prepared c v r) (iw_deliveries ?w) (iw_deliveries ?w')"
      unfolding row(5) using row(3) v by (intro rows_change_replace [OF inv_parts(1) [OF inv]]) (auto simp: prepared_def)
    then show ?thesis
      by (rule silent_step [OF inv posts]) (auto simp: prepared_def row_inv_def settled_def)
  next
    case (new c v r)
    have fresh: "dt_id r \<notin> dt_id ` set (iw_deliveries ?w)" "dt_run_id r \<notin> dt_run_id ` set (iw_deliveries ?w)"
      using new(2,7) by (auto simp: insert_ok_def list_all_iff prepared_def)
    have nopost: "posts_of (dt_id r) ?w = []"
      using inv_parts(4) [OF inv] fresh(1) by (auto simp: posts_of_def filter_empty_conv)
    have "oc_outbox_id c' \<noteq> dt_id r" if "c' \<in> set (os_claims s)" for c'
      using inv_parts(3) [OF inv that] fresh(1) by metis
    then have "row_inv N ?w (os_claims s) r"
      using nopost new(2,5,6) by (auto simp: row_inv_def prepared_def)
    then have "\<forall>u \<in> set (iw_deliveries ?w'). row_inv N ?w' (os_claims s) u"
      using inv_parts(5) [OF inv] new(8) row_inv_cong [OF posts] by auto
    then show ?thesis
      using inv fresh new(8) posts by (simp add: outbox_inv_def Let_def)
  qed
  ultimately show ?thesis by blast
qed

text \<open>A claim hands out a token larger than every token handed out for the row before.\<close>

lemma claim_step:
  assumes inv: "outbox_inv N s" and run: "im_transaction (claim_next e clk) (os_world s) = (Inr (Some c), w)"
  shows "outbox_inv N \<lparr>os_world = w, os_claims = c # os_claims s\<rparr>"
proof -
  have run': "claim_next e clk (os_world s) = (Inr (Some c), w)" using run by (simp add: im_transaction_Inr)
  obtain v r where v: "v \<in> set (iw_deliveries (os_world s))" and cl: "claims_row v r c"
    and d: "iw_deliveries w = replace_row dt_id r (iw_deliveries (os_world s))"
    using claim_next_returns [of e clk "os_world s"] run' by (auto simp: returns_def)
  have posts: "iw_posts w = iw_posts (os_world s)" by (rule keepsD [OF claim_next_posts run'])
  have ids: "dt_id r = dt_id v" using cl by (simp add: claims_row_def)
  have bound: "oc_fencing_token c' \<le> dt_fencing_token v" if "c' \<in> set (os_claims s)" "oc_outbox_id c' = dt_id v" for c'
    using inv_parts(5) [OF inv v] that by (simp add: row_inv_def)
  have new: "c \<notin> set (os_claims s)" using bound [of c] cl by (auto simp: claims_row_def)
  show ?thesis
  proof (rule outbox_inv_change [OF inv replace_related [OF inv_parts(1) [OF inv] v ids, folded d]])
    fix u ru assume u: "u = v \<and> ru = r \<or> dt_id u \<noteq> dt_id v \<and> ru = u" and ri: "row_inv N (os_world s) (os_claims s) u"
    show "row_inv N w (c # os_claims s) ru \<and> dt_id ru = dt_id u \<and> dt_run_id ru = dt_run_id u"
    proof (cases "u = v")
      case True
      then have "posts_of (dt_id v) (os_world s) = []" using ri cl by (auto simp: claims_row_def row_inv_def settled_def)
      then show ?thesis using True u cl ri posts_of_cong [OF posts] by (fastforce simp: claims_row_def row_inv_def)
    next
      case False
      then have "ru = u" "dt_id u \<noteq> oc_outbox_id c" using u cl by (auto simp: claims_row_def)
      then show ?thesis using ri posts_of_cong [OF posts] by (auto simp: row_inv_def settled_def held_by_def)
    qed
  qed (use new inv_parts(2,3,4) [OF inv] v cl posts in \<open>auto simp: claims_row_def\<close>)
qed

lemma fewer_claims:
  assumes "outbox_inv N s"
  shows "outbox_inv N (s\<lparr>os_claims := remove1 c (os_claims s)\<rparr>)"
proof -
  have "set (remove1 c (os_claims s)) \<subseteq> set (os_claims s)" by (rule set_remove1_subset)
  then show ?thesis using assms by (fastforce simp: outbox_inv_def Let_def row_inv_def settled_def)
qed

text \<open>
  A dispatch consumes its claim. If it sent a message, no claim is left for the row, whether the
  transaction commits or not.
\<close>

lemma dispatch_step:
  assumes inv: "outbox_inv N s" and c: "c \<in> set (os_claims s)"
  shows "outbox_inv N \<lparr>os_world = snd (im_transaction (dispatch e clk c) (os_world s)),
                      os_claims = remove1 c (os_claims s)\<rparr>"
proof -
  let ?cs = "remove1 c (os_claims s)" and ?w = "os_world s"
  obtain res w1 where d: "dispatch e clk c ?w = (res, w1)" by (cases "dispatch e clk c ?w")
  have fewer: "outbox_inv N \<lparr>os_world = ?w, os_claims = ?cs\<rparr>"
    using fewer_claims [OF inv, of c] by (cases s) simp
  have sub: "set ?cs \<subseteq> set (os_claims s)" by (rule set_remove1_subset)
  have gone: "c \<notin> set ?cs" using inv_parts(2) [OF inv] by (simp add: distinct_remove1 set_remove1_eq)
  from dispatch_cases [OF d] consider (idle) "res = Inr None" "w1 = ?w"
    | (ran) v res1 where "v \<in> set (iw_deliveries ?w)" "held_by c v" "dispatched e v ?w res1 w1" "res = map_sum id Some res1"
    by blast
  then show ?thesis
  proof cases
    case idle
    then show ?thesis using d fewer by (simp add: im_transaction_def)
  next
    case (ran v res1)
    have only: "\<not> held_by c' v" if "c' \<in> set ?cs" for c'
    proof
      assume "held_by c' v"
      then have "c' = c" using ran(2) by (intro outbox_claim.equality) (simp_all add: held_by_def)
      then show False using that gone by blast
    qed
    define w' where "w' = snd (im_transaction (dispatch e clk c) ?w)"
    have posts: "iw_posts w' = iw_posts w1" using d by (auto simp: w'_def im_transaction_def split: sum.split)
    have quiet: "posts_of (dt_id v) ?w = []"
      using inv_parts(5) [OF inv ran(1)] ran(2) c by (auto simp: row_inv_def settled_def held_by_def)
    have rows: "\<exists>r. same_row v r \<and> (iw_posts w1 = iw_posts ?w \<or> settled ?cs r)
        \<and> iw_deliveries w' = replace_row dt_id r (iw_deliveries ?w)"
    proof (cases res1)
      case (Inl err)
      then have "iw_deliveries w' = iw_deliveries ?w" using d ran(4) by (simp add: w'_def im_transaction_def)
      moreover have "replace_row dt_id v (iw_deliveries ?w) = iw_deliveries ?w"
        using inv_parts(1) [OF inv] ran(1) by (auto simp: replace_row_def distinct_map dest: inj_onD intro!: map_idI)
      ultimately show ?thesis using only ran(2)
        by (intro exI [of _ v]) (auto simp: same_row_def same_claim_def settled_def held_by_def)
    next
      case (Inr r)
      then have "w' = w1" using d ran(4) by (simp add: w'_def im_transaction_def)
      then show ?thesis using ran(3) Inr by (intro exI [of _ r]) (auto simp: dispatched_def wrote_def settled_def)
    qed
    then obtain r where r: "same_row v r" "iw_posts w1 = iw_posts ?w \<or> settled ?cs r"
      and del: "iw_deliveries w' = replace_row dt_id r (iw_deliveries ?w)" by blast
    have sent: "posts_of (dt_id v) w' = [] \<or> length (posts_of (dt_id v) w') = 1 \<and> settled ?cs r"
      using ran(3) quiet r(2) unfolding dispatched_def by (auto simp: posts_of_def posts)
    have others: "posts_of i w' = posts_of i ?w" if "i \<noteq> dt_id v" for i
      using ran(3) that unfolding dispatched_def by (auto simp: posts_of_def posts)
    have members: "fst p \<in> dt_id ` set (iw_deliveries ?w)" if "p \<in> set (iw_posts w')" for p
    proof -
      have "p \<in> set (iw_posts ?w) \<or> fst p = dt_id v"
        using that ran(3) unfolding dispatched_def posts by auto
      then show ?thesis using inv_parts(4) [OF inv] ran(1) by blast
    qed
    have ids: "dt_id r = dt_id v" using r(1) by (simp add: same_row_def same_claim_def)
    have "outbox_inv N \<lparr>os_world = w', os_claims = ?cs\<rparr>"
    proof (rule outbox_inv_change [OF inv replace_related [OF inv_parts(1) [OF inv] ran(1) ids, folded del]])
      fix u ru assume u: "u = v \<and> ru = r \<or> dt_id u \<noteq> dt_id v \<and> ru = u" and ri: "row_inv N ?w (os_claims s) u"
      show "row_inv N w' ?cs ru \<and> dt_id ru = dt_id u \<and> dt_run_id ru = dt_run_id u"
        using u ri sent others r(1) sub by (fastforce simp: row_inv_def same_row_def same_claim_def settled_def)
    qed (use inv_parts(2,3) [OF inv] sub members in \<open>auto simp: distinct_remove1\<close>)
    then show ?thesis by (simp add: w'_def)
  qed
qed

lemma outbox_step_inv: "outbox_step N s s' \<Longrightarrow> outbox_inv N s \<Longrightarrow> outbox_inv N s'"
proof (induction rule: outbox_step.induct)
  case (no_claim e clk s v w)
  have "iw_deliveries w = iw_deliveries (os_world s) \<and> iw_posts w = iw_posts (os_world s)"
  proof (cases v)
    case (Inl err)
    then obtain w1 where "claim_next e clk (os_world s) = (Inl err, w1)" "w = (os_world s)\<lparr>iw_posts := iw_posts w1\<rparr>"
      using no_claim by (auto simp: im_transaction_Inl)
    then show ?thesis using keepsD [OF claim_next_posts] by fastforce
  next
    case (Inr found)
    then have "claim_next e clk (os_world s) = (Inr None, w)"
      using no_claim by (cases found) (auto simp: im_transaction_Inr)
    then show ?thesis
      using claim_next_returns [of e clk "os_world s"] keepsD [OF claim_next_posts] by (fastforce simp: returns_def)
  qed
  then show ?case using no_claim by (simp add: outbox_inv_def Let_def row_inv_def posts_of_def)
next
  case (elsewhere w s)
  then show ?case by (simp add: outbox_inv_def Let_def row_inv_def posts_of_def)
qed (auto intro: expire_step enqueue_step claim_step dispatch_step fewer_claims claim_reconciliation_step reconcile_step)

lemma outbox_reachable_inv: "outbox_reachable N s \<Longrightarrow> outbox_inv N s"
proof (induction rule: outbox_reachable.induct)
  case (start s)
  then show ?case by (simp add: outbox_start_def outbox_inv_def Let_def)
qed (rule outbox_step_inv)

end
