(* ===== verification/OutboxDelivery.thy ===== *)
theory OutboxDelivery
  imports OutboxSystem
begin

text \<open>
  The properties of the delivery ledger: at most one message per run, no message without an
  authorized dispatch, the round of \<open>application/dingtalk_outbox_worker.py\<close> as a path of the
  system, and what one undeliverable run does to the others.
\<close>

section \<open>The worker\<close>

record round_stats =
  st_queued :: nat
  st_dispatched :: nat
  st_reconciled :: nat
  st_unknown :: nat
  st_blocked :: nat

text \<open>
  \<open>run_once\<close>: each \<open>async with session.begin()\<close> block is a transaction of its own; an error of one
  ends the round. \<open>e\<close> and \<open>clk\<close> give the answers and readings of each transaction.
\<close>

definition run_once :: "(nat \<Rightarrow> im_env) \<Rightarrow> (nat \<Rightarrow> clock) \<Rightarrow> (im_world, round_stats) op" where
  "run_once e clk =
     andthen (im_transaction (expire_claims (e 0) (clk 0))) (\<lambda>unknown.
     andthen (im_transaction (enqueue_next (e 1) (clk 1))) (\<lambda>outbox.
     andthen (im_transaction (claim_next (e 2) (clk 2))) (\<lambda>claim.
     andthen (case claim of
                None \<Rightarrow> ret (0, 0)
              | Some c \<Rightarrow>
                  andthen (im_transaction (dispatch (e 3) (clk 3) c)) (\<lambda>item.
                  ret (1, case item of None \<Rightarrow> 0 | Some v \<Rightarrow> if dt_status v = Dt_BLOCKED then 1 else 0))) (\<lambda>sent.
     andthen (im_transaction (claim_reconciliation (e 4) (clk 4) None None)) (\<lambda>reconciliation.
     andthen (case reconciliation of
                None \<Rightarrow> ret 0
              | Some c \<Rightarrow>
                  andthen (im_transaction (reconcile (e 5) (clk 5) c)) (\<lambda>item.
                  ret (if item = None then 0 else 1))) (\<lambda>reconciled.
     ret \<lparr>st_queued = (if outbox = None then 0 else 1), st_dispatched = fst sent, st_reconciled = reconciled,
          st_unknown = unknown, st_blocked = snd sent\<rparr>))))))"

section \<open>At most one message\<close>

definition run_posts :: "uuid \<Rightarrow> im_world \<Rightarrow> (uuid \<times> robot_post) list" where
  "run_posts rid w =
     filter (\<lambda>p. \<exists>v \<in> set (iw_deliveries w). dt_id v = fst p \<and> dt_run_id v = rid) (iw_posts w)"

lemma run_posts_row:
  assumes "distinct (map dt_id (iw_deliveries w))" and "distinct (map dt_run_id (iw_deliveries w))"
    and "v \<in> set (iw_deliveries w)"
  shows "run_posts (dt_run_id v) w = posts_of (dt_id v) w"
proof -
  have "u = v" if "u \<in> set (iw_deliveries w)" "dt_run_id u = dt_run_id v" for u
    using that assms by (metis distinct_map inj_onD)
  then show ?thesis using assms(3) unfolding run_posts_def posts_of_def by (intro filter_cong refl) metis
qed

text \<open>
  C3: The answer of a run is sent to the messaging vendor at most once: whatever the workers do,
  in any interleaving, with any answers and any clocks, with transactions that fail or workers
  that die after the message left, no run ever has a second message in the log.
\<close>

theorem at_most_one_message:
  assumes "outbox_reachable N s"
  shows "length (run_posts rid (os_world s)) \<le> 1"
proof (cases "\<exists>v \<in> set (iw_deliveries (os_world s)). dt_run_id v = rid")
  case True
  then obtain v where v: "v \<in> set (iw_deliveries (os_world s))" "dt_run_id v = rid" by blast
  have "outbox_inv N s" by (rule outbox_reachable_inv [OF assms])
  then have "distinct (map dt_id (iw_deliveries (os_world s)))" "distinct (map dt_run_id (iw_deliveries (os_world s)))"
    "row_inv N (os_world s) (os_claims s) v" using v by (auto simp: outbox_inv_def Let_def)
  then show ?thesis using run_posts_row [of "os_world s" v] v by (auto simp: row_inv_def)
next
  case False
  then have "run_posts rid (os_world s) = []" by (auto simp: run_posts_def filter_empty_conv)
  then show ?thesis by simp
qed

text \<open>
  C4: A dispatch sends nothing, or it sends one message for a ledger row that is dispatching under
  the caller's fencing token, with the fence held, inputs checked at the start and again just
  before sending (same text, lease still running), and the gateway's admission (contract,
  connector fingerprint, unconditional policy \<open>ALLOW\<close>, grant, schema, rate limit); and if the
  transaction then commits, the row is accepted, rejected or unknown. A stale claim changes
  nothing.
\<close>

theorem dispatch_sends_only_authorised:
  assumes "im_transaction (dispatch e clk c) w = (res, w')"
  shows "iw_posts w' = iw_posts w
     \<or> (\<exists>v m. v \<in> set (iw_deliveries w) \<and> held_by c v \<and> iw_posts w' = iw_posts w @ [(dt_id v, m)]
          \<and> delivery_authorised e v m w
          \<and> (\<forall>x. res = Inr x \<longrightarrow> (\<exists>r. x = Some r \<and> same_row v r
                \<and> dt_status r \<in> {Dt_ACCEPTED, Dt_REJECTED, Dt_UNKNOWN}
                \<and> iw_deliveries w' = replace_row dt_id r (iw_deliveries w))))"
proof -
  obtain res1 w1 where d: "dispatch e clk c w = (res1, w1)" by (cases "dispatch e clk c w")
  have t: "res = res1" "iw_posts w' = iw_posts w1" "\<And>x. res1 = Inr x \<Longrightarrow> w' = w1"
    using assms d by (auto simp: im_transaction_def split: sum.splits)
  from dispatch_cases [OF d] show ?thesis
  proof (elim disjE exE conjE)
    assume "w1 = w"
    then show ?thesis using t by simp
  next
    fix v res2 assume v: "v \<in> set (iw_deliveries w)" "held_by c v" and dp: "dispatched e v w res2 w1"
      and r: "res1 = map_sum id Some res2"
    from dp show ?thesis unfolding dispatched_def
    proof (elim disjE conjE exE)
      assume "iw_posts w1 = iw_posts w"
      then show ?thesis using t by simp
    next
      fix m assume m: "iw_posts w1 = iw_posts w @ [(dt_id v, m)]" "delivery_authorised e v m w"
        and fin: "\<forall>r. res2 = Inr r \<longrightarrow> same_row v r \<and> dt_status r \<in> {Dt_ACCEPTED, Dt_REJECTED, Dt_UNKNOWN} \<and> wrote r w w1"
      have "\<exists>r. x = Some r \<and> same_row v r \<and> dt_status r \<in> {Dt_ACCEPTED, Dt_REJECTED, Dt_UNKNOWN}
          \<and> iw_deliveries w' = replace_row dt_id r (iw_deliveries w)" if "res = Inr x" for x
        using that r t fin by (cases res2) (auto simp: wrote_def)
      then show ?thesis using v m t(2) by metis
    qed
  qed
qed

section \<open>The worker's round is a path of the system\<close>

abbreviation outbox_path :: "int \<Rightarrow> outbox_system \<Rightarrow> outbox_system \<Rightarrow> bool" where
  "outbox_path N \<equiv> (outbox_step N)\<^sup>*\<^sup>*"

lemma path_reachable: "outbox_path N s s' \<Longrightarrow> outbox_reachable N s \<Longrightarrow> outbox_reachable N s'"
  by (induction rule: rtranclp_induct) (auto intro: outbox_reachable.step)

text \<open>
  \<open>walks m\<close>: the operation is a path that leaves the outstanding claims as they are;
  \<open>spends c m\<close>: it is a path that uses up the claim \<open>c\<close>.
\<close>

definition walks :: "int \<Rightarrow> (im_world, 'a) op \<Rightarrow> bool" where
  "walks N m \<longleftrightarrow> (\<forall>w cs. outbox_path N \<lparr>os_world = w, os_claims = cs\<rparr> \<lparr>os_world = snd (m w), os_claims = cs\<rparr>)"

definition spends :: "int \<Rightarrow> outbox_claim \<Rightarrow> (im_world, 'a) op \<Rightarrow> bool" where
  "spends N c m \<longleftrightarrow>
     (\<forall>w cs. outbox_path N \<lparr>os_world = w, os_claims = c # cs\<rparr> \<lparr>os_world = snd (m w), os_claims = cs\<rparr>)"

lemma walks_ret: "walks N (ret x)"
  by (simp add: walks_def ret_def)

lemma walks_step:
  assumes "\<And>s. outbox_step N s (s\<lparr>os_world := snd (m (os_world s))\<rparr>)"
  shows "walks N m"
proof -
  have "outbox_step N \<lparr>os_world = w, os_claims = cs\<rparr> \<lparr>os_world = snd (m w), os_claims = cs\<rparr>" for w cs
    using assms [of "\<lparr>os_world = w, os_claims = cs\<rparr>"] by simp
  then show ?thesis by (simp add: walks_def r_into_rtranclp)
qed

lemma andthen_snd: "snd (andthen m k w) = (case m w of (Inl e, w1) \<Rightarrow> w1 | (Inr x, w1) \<Rightarrow> snd (k x w1))"
  by (auto simp: andthen_def split: prod.split sum.split)

lemma walks_andthen: "walks N m \<Longrightarrow> (\<And>x. walks N (k x)) \<Longrightarrow> walks N (andthen m k)"
  unfolding walks_def andthen_snd
  by (auto split: prod.split sum.split) (metis snd_conv, metis rtranclp_trans snd_conv)

lemma spends_andthen: "spends N c m \<Longrightarrow> (\<And>x. walks N (k x)) \<Longrightarrow> spends N c (andthen m k)"
  unfolding walks_def spends_def andthen_snd
  by (auto split: prod.split sum.split) (metis snd_conv, metis rtranclp_trans snd_conv)

lemma walks_case_option: "walks N m \<Longrightarrow> (\<And>x. walks N (k x)) \<Longrightarrow> walks N (case v of None \<Rightarrow> m | Some x \<Rightarrow> k x)"
  by (cases v) auto

lemma spends_dispatch:
  assumes "ie_max_attempts e = N"
  shows "spends N c (im_transaction (dispatch e clk c))"
proof -
  have "outbox_step N \<lparr>os_world = w, os_claims = c # cs\<rparr>
      \<lparr>os_world = snd (im_transaction (dispatch e clk c) w), os_claims = cs\<rparr>" for w cs
    using outbox_step.dispatch [OF assms, of c "\<lparr>os_world = w, os_claims = c # cs\<rparr>" clk] by simp
  then show ?thesis by (simp add: spends_def r_into_rtranclp)
qed

lemma walks_claim:
  assumes N: "ie_max_attempts e = N" and none: "walks N (k None)" and some: "\<And>c. spends N c (k (Some c))"
  shows "walks N (andthen (im_transaction (claim_next e clk)) k)"
  unfolding walks_def
proof (intro allI)
  fix w cs
  let ?s = "\<lparr>os_world = w, os_claims = cs\<rparr>"
  obtain v w1 where t: "im_transaction (claim_next e clk) w = (v, w1)" by (cases "im_transaction (claim_next e clk) w")
  show "outbox_path N ?s \<lparr>os_world = snd (andthen (im_transaction (claim_next e clk)) k w), os_claims = cs\<rparr>"
  proof (cases "\<exists>c. v = Inr (Some c)")
    case True
    then obtain c where v: "v = Inr (Some c)" by blast
    have "outbox_step N ?s \<lparr>os_world = w1, os_claims = c # cs\<rparr>"
      using outbox_step.claim [OF N, of clk ?s c w1] t v by simp
    then show ?thesis using some [of c] t v unfolding spends_def
      by (simp add: andthen_snd) (meson converse_rtranclp_into_rtranclp)
  next
    case False
    have "outbox_step N ?s \<lparr>os_world = w1, os_claims = cs\<rparr>"
      using outbox_step.no_claim [OF N, of clk ?s v w1] t False by simp
    then show ?thesis using none t False unfolding walks_def
      by (auto simp: andthen_snd split: sum.split)
        (metis not_None_eq converse_rtranclp_into_rtranclp)+
  qed
qed

text \<open>
  C33: A round of the outbox worker refines the system: whatever each of its transactions reads
  from outside, and wherever an error ends it, the round is a path of system steps from the
  world it starts in to the world it ends in, and it leaves no claim outstanding of its own.
\<close>

theorem worker_round_refines_system:
  assumes "\<forall>i. ie_max_attempts (e i) = N"
  shows "outbox_path N \<lparr>os_world = w, os_claims = cs\<rparr> \<lparr>os_world = snd (run_once e clk w), os_claims = cs\<rparr>"
proof -
  have N: "ie_max_attempts (e i) = N" for i using assms by blast
  have "walks N (run_once e clk)"
    unfolding run_once_def
    by (rule walks_andthen [OF walks_step], rule outbox_step.expire [OF N],
        rule walks_andthen [OF walks_step], rule outbox_step.enqueue [OF N],
        rule walks_claim [OF N])
      (auto intro!: walks_andthen spends_andthen spends_dispatch [OF N] walks_ret walks_case_option
         walks_step [OF outbox_step.claim_reconciliation [OF N]] walks_step [OF outbox_step.reconcile [OF N]])
  then show ?thesis by (simp add: walks_def)
qed

end
