(* ===== verification/OutboxFairness.thy ===== *)
theory OutboxFairness
  imports OutboxDelivery
begin

text \<open>
  The order in which \<open>enqueue_next\<close> serves the completed runs: always the oldest candidate, and a
  blocked row stays a candidate. So one run whose preparation keeps being refused, for instance
  because its installation was revoked, is taken in every round, and as long as rounds do not
  overlap no later run of any organization is ever queued. (A transaction that overlaps another one
  skips the row the other has locked and takes the next candidate.)
\<close>

section \<open>Candidates are a function of the ledger\<close>

lemma insort_key_map: "(\<And>x. k (f x) = k x) \<Longrightarrow> insort_key k (f x) (map f xs) = map f (insort_key k x xs)"
  by (induction xs) auto

lemma sort_key_map: "(\<And>x. k (f x) = k x) \<Longrightarrow> sort_key k (map f xs) = map f (sort_key k xs)"
  by (induction xs) (auto simp: insort_key_map)

lemma first_by_map: "(\<And>x. k (f x) = k x) \<Longrightarrow> first_by k (map f xs) = map_option f (first_by k xs)"
  by (simp add: first_by_def sort_key_map split: list.split)

text \<open>What the candidates are made of besides the ledger.\<close>

definition enqueue_sources :: "im_world \<Rightarrow> im_world \<times> run_row list \<times> connector_row list" where
  "enqueue_sources w = (im_inputs w, t_runs (iw_db w), t_connectors (iw_db w))"

text \<open>The candidates when the ledger rows of each run are mapped by \<open>f\<close>.\<close>

definition with_row :: "uuid \<Rightarrow> dingtalk_outbox_row \<Rightarrow> enqueue_candidate \<Rightarrow> enqueue_candidate" where
  "with_row rid r c = (if run_id (ec_run c) = rid then c\<lparr>ec_outbox := Some r\<rparr> else c)"

lemma candidate_order_with_row [simp]: "candidate_order (with_row rid r c) = candidate_order c"
  by (simp add: candidate_order_def with_row_def)

lemma candidates_with_row:
  assumes src: "enqueue_sources w' = enqueue_sources w"
    and other: "\<And>rid. rid \<noteq> dt_run_id r \<Longrightarrow>
       filter (\<lambda>v. dt_run_id v = rid) (iw_deliveries w') = filter (\<lambda>v. dt_run_id v = rid) (iw_deliveries w)"
    and new: "filter (\<lambda>v. dt_run_id v = dt_run_id r) (iw_deliveries w') = [r]"
    and old: "filter (\<lambda>v. dt_run_id v = dt_run_id r) (iw_deliveries w) = [] \<or>
       (\<exists>v. filter (\<lambda>v. dt_run_id v = dt_run_id r) (iw_deliveries w) = [v] \<and> awaits_queue (Some v))"
    and waits: "awaits_queue (Some r)"
  shows "enqueue_candidates w' = map (with_row (dt_run_id r) r) (enqueue_candidates w)"
proof -
  have tables: "iw_inbox w' = iw_inbox w" "iw_installations w' = iw_installations w" "iw_bindings w' = iw_bindings w"
    "iw_audiences w' = iw_audiences w" "t_runs (iw_db w') = t_runs (iw_db w)"
    "t_connectors (iw_db w') = t_connectors (iw_db w)"
    using src im_inputs_fields [of w' w] by (auto simp: enqueue_sources_def)
  define opts where "opts w rid = optional_rows (filter (\<lambda>v. dt_run_id v = rid) (iw_deliveries w))" for w :: im_world and rid
  have other: "opts w' rid = opts w rid" if "rid \<noteq> dt_run_id r" for rid
    using other [OF that] by (simp add: opts_def)
  have new: "opts w' (dt_run_id r) = [Some r]" using new by (simp add: opts_def optional_rows_def)
  have old: "\<exists>v. opts w (dt_run_id r) = [v] \<and> awaits_queue v"
    using old by (auto simp: opts_def optional_rows_def awaits_queue_def)
  define rows where "rows m r1 i b c v as = (if awaits_queue v
      then [\<lparr>ec_inbox = m, ec_run = r1, ec_installation = i, ec_binding = b, ec_connector = c, ec_outbox = v,
            ec_audience = a\<rparr>. a \<leftarrow> as, im_conversation_type m = ''direct'' \<or> im_conversation_type m = ''group'' \<and> a \<noteq> None]
      else [])" for m r1 i b c v as
  have taken: "map (with_row (dt_run_id r) r) (rows m r1 i b c v as) = rows m r1 i b c (Some r) as"
    if "run_id r1 = dt_run_id r" "awaits_queue v" for m r1 i b c v as
    using that waits by (induction as) (simp_all add: rows_def with_row_def)
  have left: "map (with_row (dt_run_id r) r) (rows m r1 i b c v as) = rows m r1 i b c v as"
    if "run_id r1 \<noteq> dt_run_id r" for m r1 i b c v as
    by (rule map_idI) (use that in \<open>auto simp: rows_def with_row_def split: if_splits\<close>)
  have inner: "concat (map (\<lambda>v. rows m r1 i b c v as) (opts w' (run_id r1)))
      = map (with_row (dt_run_id r) r) (concat (map (\<lambda>v. rows m r1 i b c v as) (opts w (run_id r1))))" for m r1 i b c as
  proof (cases "run_id r1 = dt_run_id r")
    case True
    then show ?thesis using new old taken by auto
  next
    case False
    then show ?thesis using other [OF False] by (simp add: map_concat comp_def left)
  qed
  have expand: "enqueue_candidates u = concat (map (\<lambda>m. concat (map (\<lambda>r1.
       if im_run_id m = Some (run_id r1) \<and> run_status_of r1 = Run_COMPLETED then concat (map (\<lambda>i.
       if ii_id i = im_installation_id m \<and> ii_provider i = Some ''dingtalk'' then concat (map (\<lambda>b.
       if ib_id b = im_binding_id m then concat (map (\<lambda>c.
       if ii_connector_id i = Some (con_id c)
       then concat (map (\<lambda>v. rows m r1 i b c v (optional_rows (filter (\<lambda>a. ga_organization_id a = im_organization_id m
               \<and> ga_installation_id a = im_installation_id m \<and> ga_conversation_id a = im_conversation_id m
               \<and> ga_status a = ''ACTIVE'') (iw_audiences u)))) (opts u (run_id r1))) else [])
       (t_connectors (iw_db u))) else []) (iw_bindings u)) else []) (iw_installations u)) else [])
       (t_runs (iw_db u)))) (iw_inbox u))" for u
    unfolding enqueue_candidates_def rows_def opts_def by (rule refl)
  show ?thesis
    unfolding expand tables inner map_concat map_map comp_def if_distrib [where f = "map f" for f] list.map by (rule refl)
qed

lemma candidates_cong:
  assumes "enqueue_sources w' = enqueue_sources w" and rows: "iw_deliveries w' = iw_deliveries w"
  shows "enqueue_candidates w' = enqueue_candidates w"
proof -
  have tables: "iw_inbox w' = iw_inbox w" "iw_installations w' = iw_installations w" "iw_bindings w' = iw_bindings w"
    "iw_audiences w' = iw_audiences w" "t_runs (iw_db w') = t_runs (iw_db w)"
    "t_connectors (iw_db w') = t_connectors (iw_db w)"
    using assms im_inputs_fields [of w' w] by (auto simp: enqueue_sources_def)
  show ?thesis unfolding enqueue_candidates_def tables rows by (rule refl)
qed

lemma filter_one: "distinct (map f vs) \<Longrightarrow> v \<in> set vs \<Longrightarrow> filter (\<lambda>u. f u = f v) vs = [v]"
proof (induction vs)
  case (Cons a vs)
  have "f u \<noteq> f a" if "u \<in> set vs" for u using Cons.prems(1) that by (metis distinct.simps(2) image_eqI list.map(2) set_map)
  then have "filter (\<lambda>u. f u = f a) vs = []" by (simp add: filter_empty_conv)
  moreover have "f a \<noteq> f v" if "v \<in> set vs" using Cons.prems(1) that by force
  ultimately show ?case using Cons by auto
qed simp

lemma filter_replace:
  "\<not> P r \<Longrightarrow> (\<And>u. u \<in> set vs \<Longrightarrow> key u = key r \<Longrightarrow> \<not> P u) \<Longrightarrow> filter P (replace_row key r vs) = filter P vs"
  by (induction vs) (auto simp: replace_row_def)

section \<open>One undeliverable run starves the others\<close>

text \<open>
  The knowledge publication guard only records what it decides: it changes neither the runs nor
  the connectors.
\<close>

definition guard_records_only :: "im_env \<Rightarrow> bool" where
  "guard_records_only e \<longleftrightarrow> (\<forall>q. keeps (\<lambda>d. (t_runs d, t_connectors d)) (ie_publication e q))"

definition run_tables :: "im_world \<Rightarrow> run_row list \<times> connector_row list" where
  "run_tables w = (t_runs (iw_db w), t_connectors (iw_db w))"

lemma im_db_run_tables: "keeps (\<lambda>d. (t_runs d, t_connectors d)) m \<Longrightarrow> keeps run_tables (im_db m)"
  by (simp add: keeps_def im_db_def zoom_def run_tables_def case_prod_beta)

lemma reading_keeps: "(\<And>d. snd (m d) = d) \<Longrightarrow> keeps f m"
  by (simp add: keeps_def)

lemma publication_run_tables: "guard_records_only e \<Longrightarrow> keeps run_tables (im_db (ie_publication e q))"
  by (rule im_db_run_tables) (simp add: guard_records_only_def)

lemma new_id_run_tables: "keeps run_tables (im_db new_id)"
  by (rule im_db_run_tables, rule keepsI) auto

lemma access_run_tables:
  "keeps run_tables (im_db (load_principal_by_id org uid))" "keeps run_tables (im_db (require_run_access p rid wr))"
  by (rule im_db_run_tables, rule reading_keeps, simp add: frame_simps)+

lemma write_audit_run_tables: "keeps (\<lambda>d. (t_runs d, t_connectors d)) (write_audit now dr)"
  by (rule keepsI) (auto simp: write_audit_iff)

lemma save_run_tables: "keeps run_tables (save_delivery now v oc md)"
proof -
  have "keeps run_tables (put_delivery v)" by (simp add: put_delivery_def run_tables_def)
  moreover have "keeps run_tables (outbox_audit now v oc md)"
    unfolding outbox_audit_def by (intro im_db_run_tables keeps_andthen write_audit_run_tables) simp
  ultimately show ?thesis unfolding save_delivery_def by (intro keeps_intros) simp_all
qed

lemma block_run_tables: "keeps run_tables (block_delivery e now v reason code)"
  unfolding block_delivery_def by (intro keeps_andthen save_run_tables) simp

lemma members_permitted_run_tables: "guard_records_only e \<Longrightarrow> keeps run_tables (members_permitted e org rid corp us)"
  by (induction us) (auto intro!: keeps_intros catching_keeps access_run_tables publication_run_tables)

lemma enqueue_next_run_tables:
  assumes "guard_records_only e"
  shows "keeps run_tables (enqueue_next e clk)"
proof -
  have group: "keeps run_tables (group_delivery e now r m p t c)" for now r m p t c
    unfolding group_delivery_def Let_def
    by (intro keeps_intros members_permitted_run_tables [OF assms]) simp_all
  have inputs: "keeps run_tables (queue_inputs e c)" for c
    unfolding queue_inputs_def require_run_content_unfold
    by (intro keeps_intros access_run_tables publication_run_tables [OF assms]) simp_all
  have prepare: "keeps run_tables (prepare_queue e clk v c)" for clk v c
    unfolding prepare_queue_def
    by (intro catching_keeps keeps_intros group inputs block_run_tables save_run_tables) simp_all
  have add: "keeps run_tables (modify (\<lambda>w. w\<lparr>iw_deliveries := iw_deliveries w @ [v]\<rparr>))" for v
    by (simp add: run_tables_def)
  show ?thesis
    unfolding enqueue_next_def Let_def
    by (intro keeps_intros prepare new_id_run_tables add) simp_all
qed

text \<open>The oldest candidate is of run \<open>rid\<close>, and its installation is not active.\<close>

definition blocks_queue :: "uuid \<Rightarrow> im_world \<Rightarrow> bool" where
  "blocks_queue rid w \<longleftrightarrow>
     distinct (map dt_id (iw_deliveries w)) \<and> distinct (map dt_run_id (iw_deliveries w))
     \<and> (\<exists>c. first_by candidate_order (enqueue_candidates w) = Some c \<and> run_id (ec_run c) = rid
          \<and> ii_status (ec_installation c) \<noteq> Some ''ACTIVE'')"

text \<open>The ledger rows of all other runs.\<close>

definition other_rows :: "uuid \<Rightarrow> im_world \<Rightarrow> dingtalk_outbox_row list" where
  "other_rows rid w = filter (\<lambda>v. dt_run_id v \<noteq> rid) (iw_deliveries w)"

definition enqueue_rounds :: "(im_env \<times> clock) list \<Rightarrow> im_world \<Rightarrow> im_world" where
  "enqueue_rounds es w = fold (\<lambda>(e, clk) u. snd (im_transaction (enqueue_next e clk) u)) es w"

lemma round_keeps_blocking:
  assumes guard: "guard_records_only e" and blocked: "blocks_queue rid w"
  shows "blocks_queue rid (snd (im_transaction (enqueue_next e clk) w))
     \<and> other_rows rid (snd (im_transaction (enqueue_next e clk) w)) = other_rows rid w"
proof -
  obtain v1 w1 where run: "enqueue_next e clk w = (v1, w1)" by (cases "enqueue_next e clk w")
  obtain c where c: "first_by candidate_order (enqueue_candidates w) = Some c" "run_id (ec_run c) = rid"
      "ii_status (ec_installation c) \<noteq> Some ''ACTIVE''"
    and d: "distinct (map dt_id (iw_deliveries w))" "distinct (map dt_run_id (iw_deliveries w))"
    using blocked by (auto simp: blocks_queue_def)
  show ?thesis
  proof (cases v1)
    case (Inl err)
    have "enqueue_candidates (w\<lparr>iw_posts := iw_posts w1\<rparr>) = enqueue_candidates w"
      by (rule candidates_cong) (simp_all add: enqueue_sources_def im_inputs_def im_tables_def)
    then show ?thesis using blocked Inl run by (simp add: im_transaction_def blocks_queue_def other_rows_def)
  next
    case (Inr v)
    then have w1: "snd (im_transaction (enqueue_next e clk) w) = w1" using run by (simp add: im_transaction_def)
    have enq: "enqueued e w w1" using enqueue_next_returns [of e clk w] run Inr by (auto simp: returns_def)
    then have src: "enqueue_sources w1 = enqueue_sources w"
      using keepsD [OF enqueue_next_run_tables [OF guard] run] by (simp add: enqueued_def enqueue_sources_def run_tables_def)
    have waiting: "prepared c v r \<Longrightarrow> awaits_queue (Some r)" for v r using c(3) by (auto simp: prepared_def)
    have step: ?thesis
      if r: "dt_run_id r = rid" and w: "awaits_queue (Some r)"
        and other: "\<And>k. k \<noteq> rid \<Longrightarrow>
           filter (\<lambda>v. dt_run_id v = k) (iw_deliveries w1) = filter (\<lambda>v. dt_run_id v = k) (iw_deliveries w)"
        and new: "filter (\<lambda>v. dt_run_id v = rid) (iw_deliveries w1) = [r]"
        and old: "filter (\<lambda>v. dt_run_id v = rid) (iw_deliveries w) = [] \<or>
           (\<exists>v. filter (\<lambda>v. dt_run_id v = rid) (iw_deliveries w) = [v] \<and> awaits_queue (Some v))"
        and d1: "distinct (map dt_id (iw_deliveries w1))" "distinct (map dt_run_id (iw_deliveries w1))"
        and rest: "other_rows rid w1 = other_rows rid w" for r
    proof -
      have "enqueue_candidates w1 = map (with_row rid r) (enqueue_candidates w)"
        using candidates_with_row [OF src, of r] other new old w unfolding r by blast
      then have "first_by candidate_order (enqueue_candidates w1) = Some (with_row rid r c)"
        using c(1) by (simp add: first_by_map)
      moreover have "run_id (ec_run (with_row rid r c)) = rid" "ec_installation (with_row rid r c) = ec_installation c"
        using c(2) by (simp_all add: with_row_def)
      ultimately show ?thesis using c(3) d1 rest unfolding w1 blocks_queue_def by auto
    qed
    from enq show ?thesis
    proof (cases rule: enqueued_cases)
      case same
      have "enqueue_candidates w1 = enqueue_candidates w" by (rule candidates_cong [OF src same])
      then show ?thesis using blocked same unfolding w1 by (simp add: blocks_queue_def other_rows_def)
    next
      case (row c' v r)
      have cc: "c' = c" using row(1) c(1) by simp
      have v: "v \<in> set (iw_deliveries w)" "awaits_queue (Some v)" "dt_run_id v = rid"
        using candidate_outbox [OF row(2,4)] cc c(2) by auto
      have r: "dt_id r = dt_id v" "dt_run_id r = rid" "awaits_queue (Some r)"
        using row(3) v cc waiting [of v r] by (auto simp: prepared_def)
      have only: "u = v" if "u \<in> set (iw_deliveries w)" "dt_id u = dt_id v \<or> dt_run_id u = rid" for u
        using that v d by (metis distinct_map inj_onD)
      have "dt_run_id u = dt_run_id r" if "u \<in> set (iw_deliveries w)" "dt_id u = dt_id v" for u
        using only [of u] that v(3) r(2) by simp
      then have runs: "map dt_run_id (iw_deliveries w1) = map dt_run_id (iw_deliveries w)"
        unfolding row(5) replace_row_def using r(1) by auto
      have rin: "r \<in> set (iw_deliveries w1)" unfolding row(5) using v(1) r(1) by (intro replace_row_same_mem) simp_all
      have other: "filter P (iw_deliveries w1) = filter P (iw_deliveries w)" if "\<not> P v" "\<not> P r" for P
        unfolding row(5)
      proof (rule filter_replace [where P = P, OF that(2)])
        show "\<not> P u" if "u \<in> set (iw_deliveries w)" "dt_id u = dt_id r" for u
          using only [of u] that r(1) \<open>\<not> P v\<close> by simp
      qed
      show ?thesis
      proof (rule step [OF r(2,3)])
        show "filter (\<lambda>u. dt_run_id u = rid) (iw_deliveries w1) = [r]"
          using filter_one [of dt_run_id "iw_deliveries w1" r] rin d(2) r(2) runs by simp
        show "filter (\<lambda>u. dt_run_id u = rid) (iw_deliveries w) = [] \<or>
            (\<exists>u. filter (\<lambda>u. dt_run_id u = rid) (iw_deliveries w) = [u] \<and> awaits_queue (Some u))"
          using filter_one [OF d(2) v(1)] v by simp
        show "distinct (map dt_id (iw_deliveries w1))" using d(1) by (simp add: row(5))
        show "distinct (map dt_run_id (iw_deliveries w1))" using d(2) runs by simp
        show "other_rows rid w1 = other_rows rid w" unfolding other_rows_def by (rule other) (use v r in simp_all)
        show "filter (\<lambda>u. dt_run_id u = k) (iw_deliveries w1) = filter (\<lambda>u. dt_run_id u = k) (iw_deliveries w)"
          if "k \<noteq> rid" for k by (rule other) (use that v r in simp_all)
      qed
    next
      case (new c' v r)
      have cc: "c' = c" using new(1) c(1) by simp
      have r: "dt_id r = dt_id v" "dt_run_id r = rid" "awaits_queue (Some r)"
        using new(2,4) cc c(2) waiting [of v r] by (auto simp: prepared_def)
      have fresh: "\<forall>u \<in> set (iw_deliveries w). dt_id u \<noteq> dt_id r \<and> dt_run_id u \<noteq> rid"
        using new(2,4,7) cc c(2) by (auto simp: insert_ok_def list_all_iff prepared_def)
      then have none: "filter (\<lambda>u. dt_run_id u = rid) (iw_deliveries w) = []" by (simp add: filter_empty_conv)
      show ?thesis
      proof (rule step [OF r(2,3)])
        show "distinct (map dt_id (iw_deliveries w1))" "distinct (map dt_run_id (iw_deliveries w1))"
          using d fresh r(2) unfolding new(8) by auto
      qed (use none r(2) in \<open>auto simp: new(8) other_rows_def\<close>)
    qed
  qed
qed

text \<open>
  C34: \<open>enqueue_next\<close> starves: when the oldest undelivered completed run belongs to an installation
  that is not active, then however many rounds follow one after the other, with whatever answers and clocks, no other
  run, of any installation or organization, gets a ledger row or has its row changed.
\<close>

theorem undeliverable_run_starves_all:
  assumes "blocks_queue rid w" and "\<forall>p \<in> set es. guard_records_only (fst p)"
  shows "other_rows rid (enqueue_rounds es w) = other_rows rid w"
  using assms
proof (induction es arbitrary: w)
  case Nil
  then show ?case by (simp add: enqueue_rounds_def)
next
  case (Cons p es)
  obtain e clk where p: "p = (e, clk)" by (cases p)
  let ?w1 = "snd (im_transaction (enqueue_next e clk) w)"
  have "blocks_queue rid ?w1" "other_rows rid ?w1 = other_rows rid w"
    using round_keeps_blocking [of e rid w clk] Cons.prems p by auto
  moreover from this have "other_rows rid (enqueue_rounds es ?w1) = other_rows rid ?w1"
    using Cons.IH Cons.prems(2) by simp
  ultimately show ?case by (simp add: enqueue_rounds_def p)
qed

end
