(* ===== verification/OutboxLiveness.thy ===== *)
theory OutboxLiveness
  imports OutboxFairness
begin

text \<open>
  A dispatch that may send does send: when the fence is held, the inputs stay the same, the
  gateway's checks pass, the credential resolves and the vendor accepts, the message leaves, once,
  and the ledger row is accepted with the vendor's key.
\<close>

section \<open>What the logs do not change\<close>

text \<open>The store without its logs and recorded policy decisions, and a run that owns its event head.\<close>

definition view :: "db \<Rightarrow> db" where
  "view d = (business d)\<lparr>t_policy_decisions := []\<rparr>"

definition run_recorded :: "uuid \<Rightarrow> uuid \<Rightarrow> db \<Rightarrow> bool" where
  "run_recorded rid org d \<longleftrightarrow>
     (\<exists>r \<in> set (t_runs d). run_id r = rid \<and> run_organization_id r = org)
     \<and> (\<forall>h. find (is_head ''run'' rid) (t_heads d) = Some h \<longrightarrow> ah_organization_id h = org)"

definition steady :: "uuid \<Rightarrow> uuid \<Rightarrow> im_world \<Rightarrow> im_world \<Rightarrow> bool" where
  "steady rid org w w' \<longleftrightarrow>
     im_tables w' = im_tables w \<and> iw_posts w' = iw_posts w \<and> view (iw_db w') = view (iw_db w)
     \<and> run_recorded rid org (iw_db w')"

lemma steady_trans: "steady rid org w w1 \<Longrightarrow> steady rid org w1 w2 \<Longrightarrow> steady rid org w w2"
  by (simp add: steady_def)

lemma view_tables:
  assumes "view d' = view d"
  shows "t_secrets d' = t_secrets d" "t_policies d' = t_policies d" "capability_rows d' = capability_rows d"
proof -
  have x: "t_secrets (view x) = t_secrets x" "t_policies (view x) = t_policies x"
    "t_capability_definitions (view x) = t_capability_definitions x" "t_bindings (view x) = t_bindings x"
    "t_capability_versions (view x) = t_capability_versions x" "t_connectors (view x) = t_connectors x" for x
    by (simp_all add: view_def business_def)
  have "t_capability_definitions d' = t_capability_definitions d" "t_bindings d' = t_bindings d"
    "t_capability_versions d' = t_capability_versions d" "t_connectors d' = t_connectors d"
    using x(3-6) [of d] x(3-6) [of d'] assms by simp_all
  then show "capability_rows d' = capability_rows d" by (simp only: capability_rows_def)
  show "t_secrets d' = t_secrets d" "t_policies d' = t_policies d"
    using x(1,2) [of d] x(1,2) [of d'] assms by simp_all
qed

lemma credential_view:
  assumes "view d' = view d"
  shows "resolve_credential x ref org d' = resolve_credential x ref org d"
  by (simp only: resolve_credential_def view_tables(1) [OF assms])

lemma business_runs:
  assumes "business d' = business d"
  shows "(\<exists>r \<in> set (t_runs d'). run_id r = rid \<and> run_organization_id r = org)
     \<longleftrightarrow> (\<exists>r \<in> set (t_runs d). run_id r = rid \<and> run_organization_id r = org)"
proof -
  have key: "map (\<lambda>r. (run_id r, run_organization_id r)) (t_runs d) =
      map (\<lambda>r. (run_id r, run_organization_id r)) (t_runs (business d))" for d
    by (simp add: business_def)
  have "(rid, org) \<in> set (map (\<lambda>r. (run_id r, run_organization_id r)) (t_runs d')) \<longleftrightarrow>
      (rid, org) \<in> set (map (\<lambda>r. (run_id r, run_organization_id r)) (t_runs d))"
    using assms by (subst (1 2) key) simp
  then show ?thesis by (auto simp: image_iff)
qed

lemma run_admitted_view:
  assumes "view d' = view d"
  shows "robot_admitted e q r d' = robot_admitted e q r d" "resolve_robot q r d' = resolve_robot q r d"
proof -
  show "resolve_robot q r d' = resolve_robot q r d" by (simp add: resolve_robot_def view_tables [OF assms])
  moreover have "matching_policies s d' = matching_policies s d" for s
    by (simp add: matching_policies_def enabled_policies_def view_tables [OF assms])
  then have "resolve_resource i d' = resolve_resource i d" for i by (simp only: resolve_resource_def)
  ultimately show "robot_admitted e q r d' = robot_admitted e q r d" by (simp add: robot_admitted_def)
qed

section \<open>Every record is written\<close>

lemma succeeds_robot_event:
  assumes "accepts (ie_ext e) names" and "name \<in> set names" and "map_of payload ''error_code'' = None"
    and "run_recorded (rr_run_id r) (p_organization_id (rr_principal r)) (iw_db w)"
  shows "succeeds (robot_event e now r name payload)
     (\<lambda>_. steady (rr_run_id r) (p_organization_id (rr_principal r)) w) w"
proof -
  let ?dr = "(EventDraft name ''run'' (rr_run_id r) (p_organization_id (rr_principal r)) (rr_run_id r)
           Actor_SYSTEM None payload)\<lparr>ed_run_id := Some (rr_run_id r)\<rparr>"
  obtain ev d where a: "append_event (ie_ext e) now ?dr (iw_db w) = (Inr ev, d)"
    using append_event_accepted [OF assms(1), of ?dr "iw_db w" now] assms(2-4)
    by (auto simp: EventDraft_def run_recorded_def)
  have b: "business d = business (iw_db w)" using append_event_business [OF a] by blast
  have "run_recorded (rr_run_id r) (p_organization_id (rr_principal r)) d"
    using append_event_heads [OF a] assms(4) business_runs [OF b]
    by (auto simp: run_recorded_def find_bump_head EventDraft_def split: option.splits)
  then show ?thesis
    using a b by (auto simp: succeeds_def robot_event_def im_db_iff andthen_Inr steady_def im_tables_def view_def)
qed

lemma succeeds_robot_audit:
  assumes "run_recorded rid org (iw_db w)"
  shows "succeeds (robot_audit now q r rc i oc l md) (\<lambda>_. steady rid org w) w"
  using assms
  by (auto simp: succeeds_def robot_audit_def im_db_iff andthen_Inr write_audit_iff steady_def im_tables_def
      view_def business_def run_recorded_def)

lemma succeeds_evaluate:
  assumes "run_recorded rid org (iw_db w)"
  shows "succeeds (im_db (evaluate_resource x now r)) (\<lambda>dn w'. steady rid org w w'
     \<and> dn_effect dn = fst (resolve_resource r (iw_db w)) \<and> dn_obligations dn = fst (snd (resolve_resource r (iw_db w)))) w"
proof -
  obtain dn row where e: "evaluate_resource x now r (iw_db w) = (Inr dn, (iw_db w)\<lparr>next_id := next_id (iw_db w) + 1,
      t_policy_decisions := t_policy_decisions (iw_db w) @ [row]\<rparr>)"
    using evaluate_resource_records by blast
  have "business (d\<lparr>next_id := n, t_policy_decisions := ps\<rparr>) = (business d)\<lparr>t_policy_decisions := ps\<rparr>" for d n ps
    by (simp add: business_def)
  then show ?thesis using assms e evaluate_resource_resolves [OF e]
    by (auto simp: succeeds_def im_db_iff steady_def im_tables_def view_def run_recorded_def)
qed

section \<open>Admission and attempt\<close>

lemma succeeds_admission:
  assumes adm: "robot_admitted e q r (iw_db w)"
    and acc: "accepts (ie_ext e) names" "''policy.decided'' \<in> set names"
    and rec: "run_recorded (rr_run_id r) (p_organization_id (rr_principal r)) (iw_db w)"
  shows "succeeds (robot_admission e clk q r) (\<lambda>v w'. \<exists>rc i. v = Inr (rc, i)
     \<and> resolve_robot q r (iw_db w) = Some rc
     \<and> steady (rr_run_id r) (p_organization_id (rr_principal r)) w w') w"
proof -
  let ?st = "steady (rr_run_id r) (p_organization_id (rr_principal r))"
  obtain rc where rc: "resolve_robot q r (iw_db w) = Some rc"
      "dingtalk_robot_contract_valid (ie_ext e) rc r"
      "fst (resolve_resource (robot_policy_input q r rc) (iw_db w)) = Effect_ALLOW"
      "fst (snd (resolve_resource (robot_policy_input q r rc) (iw_db w))) = []"
      "connector_grant_allows (rc_connector rc) (rc_version rc)" "robot_limit e r rc = Inr True"
    using adm by (auto simp: robot_admitted_def)
  obtain dn w1 where dn: "im_db (evaluate_resource (ie_ext e) (clk 0) (robot_policy_input q r rc)) w = (Inr dn, w1)"
      "?st w w1" "dn_effect dn = Effect_ALLOW" "dn_obligations dn = []"
    using succeeds_evaluate [OF rec, of "ie_ext e" "clk 0" "robot_policy_input q r rc"] rc(3,4)
    by (auto simp: succeeds_def)
  let ?ev = "robot_event e (clk 1) r ''policy.decided''
                  [(''decision_id'', JStr (uuid_str (dn_id dn))),
                   (''effect'', JStr (decision_effect_value (dn_effect dn))),
                   (''reason_codes'', JList (map JStr (dn_reason_codes dn)))]"
  have "succeeds ?ev (\<lambda>_. ?st w1) w1"
    by (rule succeeds_robot_event [OF acc]) (use dn(2) in \<open>simp_all add: steady_def\<close>)
  then obtain u w2 where ev: "?ev w1 = (Inr u, w2)" "?st w1 w2" by (auto simp: succeeds_def)
  have "robot_admission e clk q r w = (Inr (Inr (rc, dn_id dn)), w2)"
    using rc dn ev by (simp add: robot_admission_def admit_limited_def andthen_step reads_def ret_def)
  then show ?thesis using rc(1) steady_trans [OF dn(2) ev(2)] by (simp add: succeeds_def)
qed

text \<open>The message of a request, and the vendor's acceptance of it.\<close>

definition request_message :: "robot_outbox_request \<Rightarrow> robot_post" where
  "request_message r =
     (if rr_conversation_type r = ''group''
      then \<lparr>rp_path = GROUP_SEND_PATH, rp_robot_code = rr_robot_code r,
            rp_recipient = text_or (rr_recipient_conversation_id r) [], rp_text = rr_text r\<rparr>
      else \<lparr>rp_path = SEND_PATH, rp_robot_code = rr_robot_code r, rp_recipient = rr_recipient_sender_id r,
            rp_text = rr_text r\<rparr>)"

definition request_wellformed :: "robot_outbox_request \<Rightarrow> bool" where
  "request_wellformed r \<longleftrightarrow>
     opaque (rr_robot_code r) 255
     \<and> (if rr_conversation_type r = ''group'' then opaque (text_or (rr_recipient_conversation_id r) []) 512
        else opaque (rr_recipient_sender_id r) 255)"

definition vendor_accepts :: "im_env \<Rightarrow> robot_outbox_request \<Rightarrow> string \<Rightarrow> string \<Rightarrow> bool" where
  "vendor_accepts e r secret key \<longleftrightarrow>
     (\<exists>credentials tokens token response.
        RobotCredentials (rr_app_key r) secret = Inr credentials
        \<and> validate_text (rr_text r) credentials = Inr ()
        \<and> vendor_json (ie_token_answer e) = Inr tokens \<and> access_token tokens credentials = Inr token
        \<and> \<not> contains_sub token (rr_text r)
        \<and> vendor_json (ie_send_answer e (request_message r)) = Inr response
        \<and> send_receipt response
            (if rr_conversation_type r = ''group'' then None else Some (rr_recipient_sender_id r))
            [token, rcr_app_secret credentials] = Inr (RobotSendResult Send_ACCEPTED (Some key) None))"

lemma require_andthen: "b \<Longrightarrow> andthen (require b z) k = k ()"
  by (rule ext) (simp add: andthen_def op_simps)

lemma caught_Inr: "m w = (Inr v, w') \<Longrightarrow> catching p m h w = (Inr v, w')"
  by (simp add: catching_Inr)

lemma attempt_sends:
  assumes cred: "resolve_credential (ie_ext e) (con_credential_ref (rc_connector rc))
       (p_organization_id (rr_principal r)) (iw_db w) = Inr (Some secret)" "secret \<noteq> []"
    and ok: "vendor_accepts e r secret key" "request_wellformed r" and auth: "authorize w = (Inr True, w1)"
  shows "robot_attempt e authorize r rc w =
     (Inr (RobotSendResult Send_ACCEPTED (Some key) None),
      w1\<lparr>iw_posts := iw_posts w1 @ [(rr_outbox_id r, request_message r)]\<rparr>)"
proof -
  obtain cr tokens token response where v: "RobotCredentials (rr_app_key r) secret = Inr cr"
      "validate_text (rr_text r) cr = Inr ()" "vendor_json (ie_token_answer e) = Inr tokens"
      "access_token tokens cr = Inr token" "\<not> contains_sub token (rr_text r)"
      "vendor_json (ie_send_answer e (request_message r)) = Inr response"
      "send_receipt response (if rr_conversation_type r = ''group'' then None else Some (rr_recipient_sender_id r))
            [token, rcr_app_secret cr] = Inr (RobotSendResult Send_ACCEPTED (Some key) None)"
    using ok(1) unfolding vendor_accepts_def by blast
  have credential: "robot_credential e r rc w = (Inr secret, w)"
    using cred by (simp add: robot_credential_def andthen_def op_simps)
  have rtext: "rp_text (request_message r) = rr_text r" by (simp add: request_message_def)
  have message: "send_message (ie_token_answer e) (vendor_wire e (rr_outbox_id r)) authorize cr
        (if rr_conversation_type r = ''group'' then None else Some (rr_recipient_sender_id r)) (request_message r) w =
      (Inr (RobotSendResult Send_ACCEPTED (Some key) None),
       w1\<lparr>iw_posts := iw_posts w1 @ [(rr_outbox_id r, request_message r)]\<rparr>)"
    unfolding send_message_def
  proof (rule caught_Inr, unfold v from_sum_andthen rtext, simp only: v if_False andthen_step [where m = authorize, OF auth] simp_thms,
      rule caught_Inr)
  qed (simp add: vendor_wire_def andthen_def op_simps v)
  show ?thesis
  proof (cases "rr_conversation_type r = ''group''")
    case True
    then obtain c where c: "rr_recipient_conversation_id r = Some c" "c \<noteq> []"
      using ok(2) by (auto simp: request_wellformed_def text_or_def opaque_def split: option.splits if_splits)
    have "send_group_text (ie_token_answer e) (vendor_wire e (rr_outbox_id r)) authorize cr (rr_robot_code r) c
        (rr_text r) w = (Inr (RobotSendResult Send_ACCEPTED (Some key) None),
       w1\<lparr>iw_posts := iw_posts w1 @ [(rr_outbox_id r, request_message r)]\<rparr>)"
      using message ok(2) True c v(2)
      by (simp add: send_group_text_def request_wellformed_def text_or_def request_message_def from_sum_andthen
          require_andthen)
    then show ?thesis
      unfolding robot_attempt_def
      by (intro caught_Inr) (simp add: True c credential andthen_step v(1) from_sum_andthen)
  next
    case False
    have "send_text (ie_token_answer e) (vendor_wire e (rr_outbox_id r)) authorize cr (rr_robot_code r)
        (rr_recipient_sender_id r) (rr_text r) w = (Inr (RobotSendResult Send_ACCEPTED (Some key) None),
       w1\<lparr>iw_posts := iw_posts w1 @ [(rr_outbox_id r, request_message r)]\<rparr>)"
      using message ok(2) False v(2)
      by (simp add: send_text_def request_wellformed_def request_message_def from_sum_andthen
          require_andthen)
    then show ?thesis
      unfolding robot_attempt_def
      by (intro caught_Inr) (simp add: False credential andthen_step v(1) from_sum_andthen)
  qed
qed

section \<open>The gateway and the ledger\<close>

lemma invoke_delivers:
  assumes adm: "robot_admitted e False r (iw_db w)"
    and acc: "accepts (ie_ext e) names" "{''policy.decided'', ''tool.started'', ''im.delivery.attempted''} \<subseteq> set names"
    and rec: "run_recorded (rr_run_id r) (p_organization_id (rr_principal r)) (iw_db w)"
    and cred: "\<And>rc. resolve_robot False r (iw_db w) = Some rc \<Longrightarrow>
       resolve_credential (ie_ext e) (con_credential_ref (rc_connector rc)) (p_organization_id (rr_principal r)) (iw_db w)
         = Inr (Some secret)" "secret \<noteq> []"
    and ok: "vendor_accepts e r secret key" "request_wellformed r"
    and auth: "\<And>w1. steady (rr_run_id r) (p_organization_id (rr_principal r)) w w1 \<Longrightarrow>
       succeeds authorize (\<lambda>b w2. b \<and> steady (rr_run_id r) (p_organization_id (rr_principal r)) w1 w2) w1"
  shows "succeeds (invoke_dingtalk_robot_outbox e clk authorize r)
     (\<lambda>x w'. ror_send x = RobotSendResult Send_ACCEPTED (Some key) None
        \<and> im_tables w' = im_tables w \<and> iw_posts w' = iw_posts w @ [(rr_outbox_id r, request_message r)]) w"
proof -
  let ?rid = "rr_run_id r" and ?org = "p_organization_id (rr_principal r)"
  note st = steady_trans [where rid = ?rid and org = ?org]
  have recd: "steady ?rid ?org w u \<Longrightarrow> run_recorded ?rid ?org (iw_db u)" for u by (simp add: steady_def)
  obtain rc i w1 where a: "robot_admission e clk False r w = (Inr (Inr (rc, i)), w1)"
      "resolve_robot False r (iw_db w) = Some rc" "steady ?rid ?org w w1"
    using succeeds_admission [OF adm acc(1) _ rec, of clk] acc(2) by (auto simp: succeeds_def)
  have ev: "\<exists>u'. robot_event e now r name payload u = (Inr (), u') \<and> steady ?rid ?org u u'"
    if "name \<in> {''tool.started'', ''im.delivery.attempted''}" "map_of payload ''error_code'' = None"
      "run_recorded ?rid ?org (iw_db u)" for name payload u now
    using succeeds_robot_event [OF acc(1) _ that(2,3)] that(1) acc(2) by (auto simp: succeeds_def)
  let ?p1 = "[(''capability'', JStr (cd_name (rc_definition rc))), (''connector'', JStr (con_name (rc_connector rc)))]"
  let ?p2 = "[(''capability'', JStr (cd_name (rc_definition rc))), (''outbox_id'', JStr (uuid_str (rr_outbox_id r))),
     (''state'', JStr (robot_send_state_value Send_ACCEPTED)), (''latency_ms'', JInt (ie_latency_ms e))]"
  let ?p3 = "[(''state'', JStr (robot_send_state_value Send_ACCEPTED)), (''reason'', opt_text None)]"
  have keys: "map_of ?p1 ''error_code'' = None" "map_of ?p2 ''error_code'' = None" by simp_all
  obtain w2 where e1: "robot_event e (clk 4) r ''tool.started'' ?p1 w1 = (Inr (), w2)" "steady ?rid ?org w1 w2"
    using ev [OF insertI1 keys(1) recd [OF a(3)]] by blast
  have s2: "steady ?rid ?org w w2" by (rule st [OF a(3) e1(2)])
  obtain w3 where au: "authorize w2 = (Inr True, w3)" "steady ?rid ?org w2 w3"
    using auth [OF s2] by (auto simp: succeeds_def)
  have s3: "steady ?rid ?org w w3" by (rule st [OF s2 au(2)])
  have cred2: "resolve_credential x ref org (iw_db w2) = resolve_credential x ref org (iw_db w)" for x ref org
    using s2 by (intro credential_view) (simp add: steady_def)
  let ?w4 = "w3\<lparr>iw_posts := iw_posts w3 @ [(rr_outbox_id r, request_message r)]\<rparr>"
  have at: "robot_attempt e authorize r rc w2 = (Inr (RobotSendResult Send_ACCEPTED (Some key) None), ?w4)"
    by (rule attempt_sends [where authorize = authorize, OF _ cred(2) ok au(1)])
      (use cred(1) [OF a(2)] in \<open>simp add: cred2\<close>)
  have "run_recorded ?rid ?org (iw_db ?w4)" using recd [OF s3] by simp
  then obtain w5 where e2: "robot_event e (clk 40) r ''im.delivery.attempted'' ?p2 ?w4 = (Inr (), w5)"
      "steady ?rid ?org ?w4 w5"
    using ev [OF insertI2 [OF singletonI] keys(2)] by blast
  then have "run_recorded ?rid ?org (iw_db w5)" by (simp add: steady_def)
  then obtain w6 where au2: "robot_audit (clk 41) False r rc i ''SUCCESS'' (Some (ie_latency_ms e)) ?p3 w5 = (Inr (), w6)"
      "steady ?rid ?org w5 w6"
    using succeeds_robot_audit [of ?rid ?org w5] unfolding succeeds_def by (metis old.unit.exhaust)
  have tables: "im_tables ?w4 = im_tables w3" by (simp add: im_tables_def)
  show ?thesis
    using a(1) e1(1) at e2 au2 s3 tables
    by (simp add: invoke_dingtalk_robot_outbox_def succeeds_def andthen_step RobotSendResult_def ret_def steady_def)
qed

text \<open>The row of an accepted message.\<close>

definition accepted_row :: "dingtalk_outbox_row \<Rightarrow> uuid option \<Rightarrow> string \<Rightarrow> dingtalk_outbox_row" where
  "accepted_row v decision key =
     v\<lparr>dt_policy_decision_id := decision, dt_status := Dt_ACCEPTED, dt_accepted_process_query_key := Some key,
       dt_lease_expires_at := None, dt_last_error_code := None\<rparr>"

lemma settle_accepted:
  assumes "ror_send x = RobotSendResult Send_ACCEPTED (Some key) None"
  shows "succeeds (settle_delivery e clk v x) (\<lambda>r w'. r = accepted_row v (ror_policy_decision_id x) key
     \<and> iw_deliveries w' = replace_row dt_id r (iw_deliveries w) \<and> iw_posts w' = iw_posts w) w"
proof -
  let ?r = "accepted_row v (ror_policy_decision_id x) key"
  obtain res w' where s: "save_delivery (clk 1) ?r (dingtalk_outbox_status_value (dt_status ?r)) [] w = (res, w')"
    by (cases "save_delivery (clk 1) ?r (dingtalk_outbox_status_value (dt_status ?r)) [] w")
  have "settle_delivery e clk v x w = (res, w')"
    using s assms by (simp add: settle_delivery_def Let_def RobotSendResult_def set_last_error_def mapped_error_def
        from_sum_andthen accepted_row_def andthen_def ret_def)
  then show ?thesis using save_delivery_saves [OF s] by (auto simp: succeeds_def saved_def)
qed

section \<open>Delivery\<close>

text \<open>
  The inputs of \<open>v\<close> are settled: whenever they are read before the message leaves, in a store that
  differs from \<open>w\<close> in its logs only, they give the request \<open>r\<close>.
\<close>

definition inputs_settled :: "im_env \<Rightarrow> dingtalk_outbox_row \<Rightarrow> robot_outbox_request \<Rightarrow> im_world \<Rightarrow> bool" where
  "inputs_settled e v r w \<longleftrightarrow>
     (let st = steady (rr_run_id r) (p_organization_id (rr_principal r))
      in \<forall>now w1. st w w1 \<longrightarrow> succeeds (dispatch_inputs_of e now v)
           (\<lambda>x w2. (\<exists>i. x = Some i \<and> outbox_request e v i = r) \<and> st w1 w2) w1)"

definition deliverable :: "im_env \<Rightarrow> dingtalk_outbox_row \<Rightarrow> robot_outbox_request \<Rightarrow> string \<Rightarrow> im_world \<Rightarrow> bool" where
  "deliverable e v r key w \<longleftrightarrow>
     ie_fence e (dt_organization_id v) \<and> inputs_settled e v r w
     \<and> run_recorded (rr_run_id r) (p_organization_id (rr_principal r)) (iw_db w)
     \<and> robot_admitted e False r (iw_db w)
     \<and> (\<exists>rc secret. resolve_robot False r (iw_db w) = Some rc
          \<and> resolve_credential (ie_ext e) (con_credential_ref (rc_connector rc)) (p_organization_id (rr_principal r))
              (iw_db w) = Inr (Some secret) \<and> secret \<noteq> [] \<and> vendor_accepts e r secret key)
     \<and> request_wellformed r
     \<and> (\<exists>names. accepts (ie_ext e) names
          \<and> {''policy.decided'', ''tool.started'', ''im.delivery.attempted''} \<subseteq> set names)"

lemma dispatch_delivers:
  assumes found: "find (\<lambda>v. dt_id v = oc_outbox_id c) (iw_deliveries w) = Some v" and held: "held_by c v"
    and lease: "dt_lease_expires_at v = Some lease" "clk 20 < lease"
    and ok: "deliverable e v r key w"
  shows "\<exists>w' decision. im_transaction (dispatch e clk c) w = (Inr (Some (accepted_row v decision key)), w')
     \<and> iw_posts w' = iw_posts w @ [(dt_id v, request_message r)]
     \<and> iw_deliveries w' = replace_row dt_id (accepted_row v decision key) (iw_deliveries w)"
proof -
  let ?st = "steady (rr_run_id r) (p_organization_id (rr_principal r))"
  let ?auth = "authorize_send e (later 20 clk) v (rr_text r)"
  have settled: "succeeds (dispatch_inputs_of e now v) (\<lambda>x w2. (\<exists>i. x = Some i \<and> outbox_request e v i = r) \<and> ?st w1 w2) w1"
    if "?st w w1" for now w1
    using ok that by (simp add: deliverable_def inputs_settled_def Let_def)
  have "?st w w" using ok by (simp add: deliverable_def steady_def)
  then obtain i w1 where i: "dispatch_inputs_of e (clk 0) v w = (Inr (Some i), w1)" "outbox_request e v i = r" "?st w w1"
    using settled [of w "clk 0"] by (auto simp: succeeds_def)
  obtain rc secret names where g: "resolve_robot False r (iw_db w) = Some rc"
      "resolve_credential (ie_ext e) (con_credential_ref (rc_connector rc)) (p_organization_id (rr_principal r)) (iw_db w)
         = Inr (Some secret)" "secret \<noteq> []" "vendor_accepts e r secret key" "accepts (ie_ext e) names"
      "{''policy.decided'', ''tool.started'', ''im.delivery.attempted''} \<subseteq> set names"
    using ok unfolding deliverable_def by blast
  have fence: "ie_fence e (dt_organization_id v)" and wf: "request_wellformed r"
    and adm: "robot_admitted e False r (iw_db w)"
    using ok by (simp_all add: deliverable_def)
  have v1: "view (iw_db w1) = view (iw_db w)" and rec1: "run_recorded (rr_run_id r) (p_organization_id (rr_principal r)) (iw_db w1)"
    using i(3) by (simp_all add: steady_def)
  have cred: "resolve_credential x ref org (iw_db w1) = resolve_credential x ref org (iw_db w)" for x ref org
    by (rule credential_view [OF v1])
  have itext: "di_text i = rr_text r" "dt_id v = rr_outbox_id r" using i(2) by (auto simp: outbox_request_def)
  have auth: "succeeds ?auth (\<lambda>b w3. b \<and> ?st w2 w3) w2" if "?st w1 w2" for w2
  proof -
    have "?st w w2" by (rule steady_trans [OF i(3) that])
    then obtain j w3 where "dispatch_inputs_of e (later 20 clk 1) v w2 = (Inr (Some j), w3)" "outbox_request e v j = r" "?st w2 w3"
      using settled [of w2 "later 20 clk 1"] by (auto simp: succeeds_def)
    moreover from this have "di_text j = rr_text r" by (auto simp: outbox_request_def)
    ultimately show ?thesis using lease
      by (simp add: authorize_send_def succeeds_def andthen_step ret_def later_def) blast
  qed
  have "succeeds (invoke_dingtalk_robot_outbox e (later 10 clk) ?auth r)
     (\<lambda>x w'. ror_send x = RobotSendResult Send_ACCEPTED (Some key) None
        \<and> im_tables w' = im_tables w1 \<and> iw_posts w' = iw_posts w1 @ [(rr_outbox_id r, request_message r)]) w1"
    by (rule invoke_delivers [OF _ g(5,6) rec1 _ g(3) g(4) wf auth])
      (use adm g(1,2) run_admitted_view(1) [OF v1, of e False r] run_admitted_view(2) [OF v1, of False r] cred in \<open>auto\<close>)
  then obtain x w2 where x: "invoke_dingtalk_robot_outbox e (later 10 clk) ?auth r w1 = (Inr x, w2)"
      "ror_send x = RobotSendResult Send_ACCEPTED (Some key) None" "im_tables w2 = im_tables w1"
      "iw_posts w2 = iw_posts w1 @ [(rr_outbox_id r, request_message r)]"
    by (auto simp: succeeds_def)
  let ?r = "accepted_row v (ror_policy_decision_id x) key"
  obtain w3 where s: "settle_delivery e (later 60 clk) v x w2 = (Inr ?r, w3)"
      "iw_deliveries w3 = replace_row dt_id ?r (iw_deliveries w2)" "iw_posts w3 = iw_posts w2"
    using settle_accepted [OF x(2), of e "later 60 clk" v w2] by (auto simp: succeeds_def)
  have "dispatch_row e clk v w = (Inr ?r, w3)"
    using fence i(1,2) x(1) s(1) itext(1) by (simp add: dispatch_row_def andthen_step)
  then have "dispatch e clk c w = (Inr (Some ?r), w3)"
    using found held by (simp add: dispatch_def andthen_step reads_def held_by_def ret_def)
  then have "im_transaction (dispatch e clk c) w = (Inr (Some ?r), w3)" by (simp add: im_transaction_def)
  moreover have "im_tables w1 = im_tables w" "iw_posts w1 = iw_posts w" using i(3) by (simp_all add: steady_def)
  moreover from this have "iw_deliveries w2 = iw_deliveries w" using x(3) by (intro im_tables_fields(6)) simp
  ultimately show ?thesis using s x(4) itext(2)
    by (intro exI [of _ w3] exI [of _ "ror_policy_decision_id x"]) simp
qed


end
