(* ===== verification/OutboxScenario.thy ===== *)
theory OutboxScenario
  imports OutboxLiveness
begin

text \<open>
  A small world in which the delivery runs to its end: a completed run whose answer is queued,
  claimed and sent to the vendor. The properties of the ledger are witnessed on it, evaluated.
\<close>

section \<open>The sample world\<close>

definition sample_connector :: connector_row where
  "sample_connector =
     \<lparr>con_id = 42, con_organization_id = 1, con_name = ''robot'', con_connector_type = ''dingtalk-robot'',
      con_status = Connector_ACTIVE, con_environment = ''dev'', con_endpoint = None,
      con_configuration = [(''protocol'', JStr DINGTALK_ROBOT_PROTOCOL), (''app_key'', JStr ''a'')],
      con_credential_ref = Some ''env://OBSION_R'', con_declared_grants = [JStr ''*''], con_allowed_egress = []\<rparr>"

definition sample_run :: "uuid \<Rightarrow> time \<Rightarrow> run_row" where
  "sample_run i t =
     \<lparr>run_id = i, run_organization_id = 1, run_turn_id = 61, run_status_of = Run_COMPLETED,
      run_lease_owner = None, run_lease_expires_at = None, run_completed_at = Some t, run_error_code = None,
      run_error_message = None, run_aggregate_version = 1,
      run_agent_version_id = None, run_model_profile_id = None, run_prompt_pins = [], run_context_budget = [],
      run_conversation_compact = [], run_workspace_context = [], run_max_steps = 30, run_timeout_seconds = 300,
      run_max_input_tokens = 120000, run_max_output_tokens = 16000, run_max_cost_amount = 10, run_deadline_at = None,
      run_cancellation_requested_at = None, run_replay_of_run_id = None, run_created_at = 0\<rparr>"

definition sample_message :: "uuid \<Rightarrow> uuid \<Rightarrow> uuid \<Rightarrow> im_inbox_message_row" where
  "sample_message i inst rid =
     \<lparr>im_id = i, im_organization_id = 1, im_installation_id = inst, im_binding_id = 71, im_subject_user_id = 7,
      im_sender_id = ''u'', im_conversation_id = ''c'', im_conversation_type = ''direct'',
      im_run_id = Some rid, im_created_at = 0\<rparr>"

definition sample_installation :: "uuid \<Rightarrow> string \<Rightarrow> im_installation_row" where
  "sample_installation i st =
     \<lparr>ii_id = i, ii_organization_id = 1, ii_provider = Some ''dingtalk'', ii_external_corp_id = Some ''k'',
      ii_external_app_id = None, ii_connector_id = Some 42, ii_status = Some st\<rparr>"

definition sample_binding :: im_installation_binding_row where
  "sample_binding =
     \<lparr>ib_id = 71, ib_organization_id = 1, ib_installation_id = 70, ib_sender_id = ''u'', ib_user_id = 7,
      ib_active = True\<rparr>"

definition sample_im_db :: db where
  "sample_im_db = empty_db\<lparr>
     t_users := [\<lparr>user_id = 7, user_organization_id = 1, user_external_id = ''u'',
                  user_display_name = ''U'', user_department_id = None, user_active = True, user_attributes = []\<rparr>],
     t_roles := [\<lparr>role_id = 3, role_organization_id = 1, role_name = ''r'',
                  role_permissions = [JStr ''im.reply.deliver'']\<rparr>],
     t_user_roles := [\<lparr>ur_organization_id = 1, ur_user_id = 7, ur_role_id = 3\<rparr>],
     t_workspaces := [sample_workspace 5 1 7],
     t_threads := [\<lparr>thread_id = 60, thread_organization_id = 1, thread_workspace_id = 5,
                    thread_status_of = Thread_ACTIVE, thread_created_by = 7, thread_title = ''t'',
        thread_parent_thread_id = None, thread_forked_from_turn_id = None, thread_archived_at = None\<rparr>],
     t_turns := [\<lparr>turn_id = 61, turn_organization_id = 1, turn_thread_id = 60, turn_ordinal = 1,
        turn_created_by = 7, turn_input_text = ''q'', turn_sanitized_input = ''q'', turn_context_refs = [],
        turn_attachment_refs = [], turn_created_at = 0\<rparr>],
     t_runs := [sample_run 62 1, sample_run 63 2],
     t_capability_definitions := [\<lparr>cd_id = 41, cd_organization_id = 1, cd_name = DINGTALK_ROBOT_CAPABILITY,
        cd_status = Registry_ACTIVE\<rparr>],
     t_capability_versions := [(sample_capability Risk_L2 Side_WRITE)
        \<lparr>cv_permission_action := ''im.reply.deliver''\<rparr>],
     t_connectors := [sample_connector],
     t_bindings := [\<lparr>cb_id = 43, cb_organization_id = 1, cb_capability_version_id = 40, cb_connector_id = 42,
        cb_environment = ''dev'', cb_resource_selector = [], cb_enabled = True\<rparr>],
     t_policies := [sample_policy Effect_ALLOW]\<rparr>"

text \<open>Two completed runs wait, and \<open>st\<close> is the status of the installation of the older one.\<close>

definition sample_im_world :: "string \<Rightarrow> im_world" where
  "sample_im_world st =
     \<lparr>iw_db = sample_im_db,
      iw_inbox = [sample_message 72 70 62, sample_message 73 74 63],
      iw_installations = [sample_installation 70 st, sample_installation 74 ''ACTIVE''],
      iw_bindings = [sample_binding],
      iw_audiences = [],
      iw_artifacts = [\<lparr>art_id = 80, art_organization_id = 1, art_run_id = Some 62, art_kind = Kind_TEXT,
         art_title = ''Obsion answer'', art_inline_content = Some (JObj [(''text'', JStr ''hi'')]),
         art_classification = Cls_INTERNAL, art_created_at = 1,
         art_workspace_id = 5, art_media_type = ''text/markdown''\<rparr>],
      iw_deliveries = [], iw_posts = []\<rparr>"

definition sample_im_env :: im_env where
  "sample_im_env =
     \<lparr>ie_ext = (open_ext [''policy.decided'', ''tool.started'', ''im.delivery.attempted'']
         [''im_delivery_answer_missing'', ''credential_unavailable'', ''im_delivery_receipt_conflict''])
        \<lparr>ext_sha256 := (\<lambda>_. ''sum''), ext_environ := (\<lambda>n. if n = ''OBSION_R'' then Some ''secret'' else None)\<rparr>,
      ie_limit = (\<lambda>_ _. Inr True),
      ie_token_answer = Answered 200 None 9 (Some (JObj [(''accessToken'', JStr ''tok''), (''expireIn'', JInt 60)])),
      ie_send_answer = (\<lambda>_. Answered 200 None 9 (Some (JObj [(''processQueryKey'', JStr ''key'')]))),
      ie_query_answer = Lost, ie_latency_ms = 3, ie_fence = (\<lambda>_. True), ie_publication = (\<lambda>_. ret True),
      ie_text_sha256 = id, ie_group_status = ''Done'', ie_lease_seconds = 60, ie_max_attempts = 3\<rparr>"

abbreviation midnight :: clock where
  "midnight \<equiv> (\<lambda>_. 0)"

definition sample_candidate :: "string \<Rightarrow> enqueue_candidate" where
  "sample_candidate st =
     \<lparr>ec_inbox = sample_message 72 70 62, ec_run = sample_run 62 1, ec_installation = sample_installation 70 st,
      ec_binding = sample_binding, ec_connector = sample_connector, ec_outbox = None, ec_audience = None\<rparr>"

definition sample_queued :: dingtalk_outbox_row where
  "sample_queued =
     \<lparr>dt_id = 100, dt_organization_id = 1, dt_installation_id = 70, dt_inbox_message_id = 72, dt_binding_id = 71,
      dt_run_id = 62, dt_recipient_user_id = 7, dt_recipient_sender_id = ''u'', dt_conversation_type = ''direct'',
      dt_recipient_conversation_id = None, dt_audience_id = None, dt_audience_member_fingerprint = None,
      dt_delivery_mode = ''FINAL'', dt_answer_classification = Some ''INTERNAL'', dt_connector_id = 42,
      dt_capability_version_id = Some 40, dt_connector_fingerprint = ''sum'', dt_content_fingerprint = ''hi'',
      dt_status = Dt_QUEUED, dt_attempt_count = 0, dt_fencing_token = 0, dt_next_attempt_at = Some 0,
      dt_lease_expires_at = None, dt_accepted_process_query_key = None, dt_vendor_send_status = None,
      dt_vendor_read_status = None, dt_vendor_read_at = None, dt_last_reconciled_at = None,
      dt_reconciliation_attempt_count = 0, dt_policy_decision_id = None, dt_blocked_reason = None,
      dt_last_error_code = None, dt_created_at = 0\<rparr>"

lemma sample_candidates:
  "first_by candidate_order (enqueue_candidates (sample_im_world st)) = Some (sample_candidate st)"
  by (simp add: enqueue_candidates_def sample_im_world_def sample_im_db_def empty_db_def sample_message_def
      sample_run_def sample_installation_def sample_connector_def sample_candidate_def sample_binding_def
      optional_rows_def awaits_queue_def first_by_def candidate_order_def nulls_last_def)

text \<open>What the operations read of a store like the sample one.\<close>

definition sample_user :: principal where
  "sample_user = (sample_principal 7 [''im.reply.deliver''])\<lparr>p_roles := {''r''}\<rparr>"

definition sample_like :: "im_world \<Rightarrow> bool" where
  "sample_like w \<longleftrightarrow> view (iw_db w) = view sample_im_db \<and> im_inputs w = im_inputs (sample_im_world ''ACTIVE'')"

lemma view_reads:
  assumes "view d' = view d"
  shows "t_users d' = t_users d" "t_departments d' = t_departments d" "t_user_roles d' = t_user_roles d"
    "t_roles d' = t_roles d" "t_members d' = t_members d" "t_workspaces d' = t_workspaces d"
    "t_threads d' = t_threads d" "t_turns d' = t_turns d" "t_connectors d' = t_connectors d"
    "map (\<lambda>r. r\<lparr>run_aggregate_version := 0\<rparr>) (t_runs d') = map (\<lambda>r. r\<lparr>run_aggregate_version := 0\<rparr>) (t_runs d)"
proof -
  have x: "t_users (view d) = t_users d" "t_departments (view d) = t_departments d"
    "t_user_roles (view d) = t_user_roles d" "t_roles (view d) = t_roles d" "t_members (view d) = t_members d"
    "t_workspaces (view d) = t_workspaces d" "t_threads (view d) = t_threads d" "t_turns (view d) = t_turns d"
    "t_connectors (view d) = t_connectors d" "t_runs (view d) = map (\<lambda>r. r\<lparr>run_aggregate_version := 0\<rparr>) (t_runs d)" for d
    by (simp_all add: view_def business_def)
  show "t_users d' = t_users d" "t_departments d' = t_departments d" "t_user_roles d' = t_user_roles d"
    "t_roles d' = t_roles d" "t_members d' = t_members d" "t_workspaces d' = t_workspaces d"
    "t_threads d' = t_threads d" "t_turns d' = t_turns d" "t_connectors d' = t_connectors d"
    "map (\<lambda>r. r\<lparr>run_aggregate_version := 0\<rparr>) (t_runs d') = map (\<lambda>r. r\<lparr>run_aggregate_version := 0\<rparr>) (t_runs d)"
    using x [of d] x [of d'] assms by simp_all
qed

lemmas sample_db_defs = sample_im_db_def empty_db_def sample_connector_def sample_workspace_def sample_run_def

lemma sample_tables:
  assumes "view d = view sample_im_db"
  obtains r1 r2 where "t_runs d = [r1, r2]" "run_id r1 = 62" "run_organization_id r1 = 1" "run_turn_id r1 = 61"
    "run_status_of r1 = Run_COMPLETED" "run_id r2 = 63"
proof -
  have "map (\<lambda>r. r\<lparr>run_aggregate_version := 0\<rparr>) (t_runs d) =
      [(sample_run 62 1)\<lparr>run_aggregate_version := 0\<rparr>, (sample_run 63 2)\<lparr>run_aggregate_version := 0\<rparr>]"
    using view_reads(10) [OF assms] by (simp add: sample_im_db_def)
  then obtain r1 r2 where r: "t_runs d = [r1, r2]"
      "r1\<lparr>run_aggregate_version := 0\<rparr> = (sample_run 62 1)\<lparr>run_aggregate_version := 0\<rparr>"
      "r2\<lparr>run_aggregate_version := 0\<rparr> = (sample_run 63 2)\<lparr>run_aggregate_version := 0\<rparr>"
    by (auto simp: map_eq_Cons_conv)
  show ?thesis
    by (rule that [OF r(1)]) (use r(2,3) in \<open>cases r1; cases r2; simp add: sample_run_def\<close>)+
qed

lemma sample_loads:
  assumes "view d = view sample_im_db"
  shows "load_principal_by_id 1 7 d = (Inr sample_user, d)"
  using view_reads(1-4) [OF assms]
  by (simp add: load_principal_by_id_def load_principal_def principal_rows_def active_users_def user_departments_def
      user_assignments_def assigned_roles_def outer_join_def json_strings_def op_simps sample_db_defs
      sample_user_def sample_principal_def)

lemma sample_run_access:
  assumes "view d = view sample_im_db"
  shows "\<exists>r. require_run_access sample_user 62 False d = (Inr r, d)"
proof -
  obtain r1 r2 where r: "t_runs d = [r1, r2]" "run_id r1 = 62" "run_organization_id r1 = 1" "run_turn_id r1 = 61"
    using sample_tables [OF assms] by metis
  show ?thesis
    using r view_reads(5-8) [OF assms]
    by (simp add: require_run_access_def run_workspaces_def run_threads_def workspace_access_clause_def op_simps
      sample_db_defs sample_user_def sample_principal_def)
qed

lemma sample_answer:
  assumes "sample_like w"
  shows "answer_for_run_metadata 1 62 w = Inr (''hi'', ''INTERNAL'')"
proof -
  have "iw_artifacts w = iw_artifacts (sample_im_world ''ACTIVE'')"
    using assms unfolding sample_like_def by (intro im_inputs_fields(5)) simp
  then show ?thesis
    by (simp add: answer_for_run_metadata_def sample_im_world_def first_by_def nonblank_text_def)
      (code_simp)
qed

lemma sample_content:
  assumes "view (iw_db w) = view sample_im_db"
  shows "\<exists>r. require_run_content sample_im_env sample_user 62 ''k'' w = (Inr r, w)"
  using sample_run_access [OF assms]
  by (auto simp: require_run_content_unfold andthen_def im_db_def zoom_def sample_im_env_def ret_def)

definition sample_inputs :: "run_row \<Rightarrow> dispatch_inputs" where
  "sample_inputs r =
     \<lparr>di_inbox = sample_message 72 70 62, di_run = r, di_installation = sample_installation 70 ''ACTIVE'',
      di_binding = sample_binding, di_connector = sample_connector, di_text = ''hi'',
      di_capability_version_id = 40, di_principal = sample_user\<rparr>"

lemma sample_ready:
  "queue_is_ready (ie_ext sample_im_env) (sample_message 72 70 62) (sample_installation 70 ''ACTIVE'') sample_binding
     sample_connector (Some 40)"
  "\<not> queue_is_ready (ie_ext sample_im_env) (sample_message 72 70 62) (sample_installation 70 ''REVOKED'') sample_binding
     sample_connector (Some 40)"
  by code_simp+

lemma sample_fingerprint: "connector_fingerprint (ie_ext sample_im_env) sample_connector = ''sum''"
  by (simp add: connector_fingerprint_def sha256_hex_def sample_im_env_def)

lemma sample_dispatch_inputs:
  assumes "sample_like w" and v: "dt_organization_id v = 1" "dt_inbox_message_id v = 72" "dt_run_id v = 62"
    "dt_installation_id v = 70" "dt_binding_id v = 71" "dt_connector_id v = 42" "dt_recipient_user_id v = 7"
    "dt_capability_version_id v = Some 40" "dt_connector_fingerprint v = ''sum''" "dt_content_fingerprint v = ''hi''"
    "dt_answer_classification v = Some ''INTERNAL''"
  shows "\<exists>r. run_id r = 62 \<and> dispatch_inputs_of sample_im_env now v w = (Inr (Some (sample_inputs r)), w)"
proof -
  have d: "view (iw_db w) = view sample_im_db" and i: "im_inputs w = im_inputs (sample_im_world ''ACTIVE'')"
    using assms(1) by (simp_all add: sample_like_def)
  obtain r1 r2 where r: "t_runs (iw_db w) = [r1, r2]" "run_id r1 = 62" "run_id r2 = 63" "run_status_of r1 = Run_COMPLETED"
    using sample_tables [OF d] by metis
  have "lineage_rows v w = [(sample_message 72 70 62, r1, sample_installation 70 ''ACTIVE'', sample_binding, sample_connector)]"
    using im_inputs_fields [OF i] v r view_reads(9) [OF d]
    by (simp add: lineage_rows_def sample_im_world_def sample_message_def sample_installation_def sample_binding_def
      sample_db_defs)
  moreover obtain ra where "require_run_content sample_im_env sample_user 62 ''k'' w = (Inr ra, w)"
    using sample_content [OF d] by blast
  then have "catching access_failed (authorized_text sample_im_env now v (sample_message 72 70 62) r1
      (sample_installation 70 ''ACTIVE'')) (\<lambda>_. ret None) w = (Inr (Some (''hi'', sample_user)), w)"
    by (intro caught_Inr)
      (use v r(2) sample_answer [OF assms(1)] sample_loads [OF d] in
        \<open>simp add: authorized_text_def deliverable_text_def andthen_def op_simps im_db_def zoom_def sample_im_env_def
      sample_message_def sample_installation_def text_or_def\<close>)
  ultimately show ?thesis
    using v r(2) sample_ready(1) sample_fingerprint
    by (simp add: dispatch_inputs_of_def Let_def andthen_def op_simps one_or_none_def sample_inputs_def)
qed

section \<open>Queued, claimed and sent\<close>

lemma sample_candidate_fields:
  "ec_inbox (sample_candidate st) = sample_message 72 70 62" "run_organization_id (ec_run (sample_candidate st)) = 1"
  "run_id (ec_run (sample_candidate st)) = 62" "ec_installation (sample_candidate st) = sample_installation 70 st"
  "ec_binding (sample_candidate st) = sample_binding" "ec_connector (sample_candidate st) = sample_connector"
  "ec_outbox (sample_candidate st) = None" "ec_audience (sample_candidate st) = None"
  "im_subject_user_id (sample_message 72 70 62) = 7" "im_conversation_type (sample_message 72 70 62) = ''direct''"
  "ii_external_corp_id (sample_installation 70 st) = Some ''k''" "con_id sample_connector = 42"
  "con_environment sample_connector = ''dev''"
  by (simp_all add: sample_candidate_def sample_run_def sample_message_def sample_installation_def sample_connector_def)

lemma sample_queue_inputs:
  assumes "sample_like w"
  shows "queue_inputs sample_im_env (sample_candidate st) w = (Inr (''hi'', ''INTERNAL'', sample_user), w)"
proof -
  have d: "view (iw_db w) = view sample_im_db" using assms by (simp add: sample_like_def)
  obtain ra where "require_run_content sample_im_env sample_user 62 ''k'' w = (Inr ra, w)"
    using sample_content [OF d] by blast
  then show ?thesis
    using sample_answer [OF assms] sample_loads [OF d]
    by (simp add: queue_inputs_def andthen_def op_simps im_db_def zoom_def sample_candidate_fields text_or_def)
qed

lemma sample_version:
  assumes "view d = view sample_im_db"
  shows "bound_capability_version 1 42 ''dev'' d = Some 40"
proof -
  have "t_capability_definitions d = t_capability_definitions sample_im_db"
    "t_capability_versions d = t_capability_versions sample_im_db" "t_bindings d = t_bindings sample_im_db"
    using assms by (cases d; simp add: view_def business_def sample_im_db_def empty_db_def)+
  then show ?thesis
    by (simp add: bound_capability_version_def sample_db_defs sample_capability_def first_by_def
        DINGTALK_ROBOT_CAPABILITY_def)
qed

lemma sample_new_queued:
  "queued_row sample_im_env 0 (sample_candidate ''ACTIVE'') None ''FINAL'' ''hi'' ''INTERNAL'' (Some 40)
     (new_delivery sample_im_env 0 100 (sample_candidate ''ACTIVE'')) \<lparr>dt_last_error_code := None\<rparr> = sample_queued"
  by (simp add: queued_row_def new_delivery_def sample_candidate_def sample_queued_def sample_run_def sample_message_def
      sample_installation_def sample_binding_def sample_connector_def sample_im_env_def connector_fingerprint_def
      sha256_hex_def Let_def)

lemma save_heads:
  assumes "save_delivery now v oc md w = (res, w')"
  shows "t_heads (iw_db w') = t_heads (iw_db w)"
proof -
  have "keeps (\<lambda>w. t_heads (iw_db w)) (im_db (andthen (write_audit now dr) (\<lambda>_. ret ())))" for dr
    by (rule keepsI) (auto simp: im_db_iff andthen_def ret_def write_audit_iff split: prod.splits sum.splits)
  then have "keeps (\<lambda>w. t_heads (iw_db w)) (save_delivery now v oc md)"
    unfolding save_delivery_def outbox_audit_def put_delivery_def by (intro keeps_intros) simp_all
  then show ?thesis using assms by (rule keepsD)
qed

lemma sample_prepared:
  assumes "sample_like w"
  shows "\<exists>w'. prepare_queue sample_im_env midnight (new_delivery sample_im_env 0 100 (sample_candidate ''ACTIVE''))
       (sample_candidate ''ACTIVE'') w = (Inr sample_queued, w') \<and> saved sample_queued w w'
     \<and> t_heads (iw_db w') = t_heads (iw_db w)"
proof -
  have d: "view (iw_db w) = view sample_im_db" using assms by (simp add: sample_like_def)
  have "catching access_failed (andthen (queue_inputs sample_im_env (sample_candidate ''ACTIVE'')) (\<lambda>q. ret (Some q)))
      (\<lambda>_. ret None) w = (Inr (Some (''hi'', ''INTERNAL'', sample_user)), w)"
    by (intro caught_Inr) (simp add: andthen_def sample_queue_inputs [OF assms] ret_def)
  moreover obtain res w' where s: "save_delivery 0 sample_queued ''QUEUED'' [] w = (res, w')"
    by (cases "save_delivery 0 sample_queued ''QUEUED'' [] w")
  ultimately show ?thesis
    using save_delivery_saves [OF s] save_heads [OF s] s sample_ready(1) sample_new_queued
    by (simp add: prepare_queue_def andthen_def sample_candidate_fields sample_version [OF d] reads_def ret_def
        set_last_error_def mapped_error_def from_sum_def)
qed

lemma saved_like:
  assumes "sample_like w" and "saved v w w'"
  shows "sample_like w'" "iw_posts w' = iw_posts w" "iw_deliveries w' = replace_row dt_id v (iw_deliveries w)"
  using assms saved_parts [OF assms(2)] by (simp_all add: sample_like_def view_def)

lemma sample_enqueued:
  "\<exists>w. im_transaction (enqueue_next sample_im_env midnight) (sample_im_world ''ACTIVE'') = (Inr (Some sample_queued), w)
     \<and> sample_like w \<and> iw_deliveries w = [sample_queued] \<and> iw_posts w = [] \<and> t_heads (iw_db w) = []"
proof -
  let ?v = "new_delivery sample_im_env 0 100 (sample_candidate ''ACTIVE'')"
  let ?w = "(sample_im_world ''ACTIVE'')\<lparr>iw_db := sample_im_db\<lparr>next_id := 101\<rparr>, iw_deliveries := [?v]\<rparr>"
  have like: "sample_like ?w"
    by (simp add: sample_like_def view_def im_inputs_def im_tables_def sample_im_world_def)
  obtain w' where w': "prepare_queue sample_im_env midnight ?v (sample_candidate ''ACTIVE'') ?w = (Inr sample_queued, w')"
      "saved sample_queued ?w w'" "t_heads (iw_db w') = t_heads (iw_db ?w)"
    using sample_prepared [OF like] by blast
  have id: "next_id sample_im_db = 100" by (simp add: sample_im_db_def empty_db_def)
  have none: "iw_deliveries (sample_im_world st) = []" "iw_db (sample_im_world st) = sample_im_db" for st
    by (simp_all add: sample_im_world_def)
  have ok: "insert_ok ?v ((sample_im_world ''ACTIVE'')\<lparr>iw_db := sample_im_db\<lparr>next_id := 101\<rparr>\<rparr>)"
    by (simp add: insert_ok_def none target_ok_def new_delivery_def sample_candidate_fields Let_def)
  have "enqueue_next sample_im_env midnight (sample_im_world ''ACTIVE'') = (Inr (Some sample_queued), w')"
    using w'(1) ok
    by (simp add: enqueue_next_def andthen_def reads_def ret_def sample_candidates sample_candidate_fields im_db_def
        zoom_def new_id_def modify_def none id Let_def later_def)
  moreover have "dt_id ?v = 100" "dt_id sample_queued = 100" by (simp_all add: new_delivery_def Let_def sample_queued_def)
  ultimately show ?thesis using saved_like [OF like w'(2)] w'(3)
    by (simp add: im_transaction_def replace_row_def sample_im_world_def) (simp add: sample_im_db_def empty_db_def)
qed

definition sample_claim :: outbox_claim where
  "sample_claim = \<lparr>oc_outbox_id = 100, oc_fencing_token = 1\<rparr>"

definition sample_claimed :: dingtalk_outbox_row where
  "sample_claimed = claimed_row sample_im_env 0 sample_queued"

lemma sample_claims:
  assumes "sample_like w" and "iw_deliveries w = [sample_queued]" and "iw_posts w = []"
  shows "\<exists>w'. im_transaction (claim_next sample_im_env midnight) w = (Inr (Some sample_claim), w')
     \<and> sample_like w' \<and> iw_deliveries w' = [sample_claimed] \<and> iw_posts w' = []
     \<and> t_heads (iw_db w') = t_heads (iw_db w)"
proof -
  obtain res w' where s: "save_delivery 0 sample_claimed ''DISPATCHING'' [] w = (res, w')"
    by (cases "save_delivery 0 sample_claimed ''DISPATCHING'' [] w")
  have c: "sample_claimed\<lparr>dt_last_error_code := None\<rparr> = sample_claimed" "dt_id sample_claimed = 100"
    "dt_fencing_token sample_claimed = 1" "due 0 sample_queued" "dt_id sample_queued = 100"
    by (simp_all add: sample_claimed_def claimed_row_def sample_queued_def due_def)
  have "claim_next sample_im_env midnight w = (Inr (Some sample_claim), w')"
    using save_delivery_saves [OF s] s assms(2) c
    by (simp add: claim_next_def andthen_def reads_def ret_def first_by_def set_last_error_def mapped_error_def
        from_sum_def sample_claim_def flip: sample_claimed_def)
  moreover have "saved sample_claimed w w'" using save_delivery_saves [OF s] by simp
  ultimately show ?thesis using saved_like [OF assms(1)] save_heads [OF s] assms(2,3) c
    by (simp add: im_transaction_def replace_row_def)
qed

definition sample_send :: robot_outbox_request where
  "sample_send = outbox_request sample_im_env sample_claimed (sample_inputs (sample_run 62 1))"

lemma sample_send_fields:
  "sample_send = \<lparr>rr_principal = sample_user, rr_run_id = 62, rr_outbox_id = 100, rr_installation_id = 70,
     rr_recipient_sender_id = ''u'', rr_app_key = ''a'', rr_robot_code = ''a'', rr_connector_id = 42,
     rr_connector_fingerprint = ''sum'', rr_environment = ''dev'', rr_capability_version_id = 40,
     rr_conversation_type = ''direct'', rr_recipient_conversation_id = None, rr_text = ''hi''\<rparr>"
proof -
  have "app_key_of (ie_ext sample_im_env) sample_connector (sample_installation 70 ''ACTIVE'') = ''a''"
    "robot_code_of (ie_ext sample_im_env) sample_connector (sample_installation 70 ''ACTIVE'') = ''a''"
    by code_simp+
  then show ?thesis
    by (simp add: sample_send_def outbox_request_def sample_inputs_def sample_claimed_def claimed_row_def
        sample_queued_def sample_candidate_fields sample_run_def sample_message_def sample_installation_def)
qed

lemma sample_user_org [simp]: "p_organization_id sample_user = 1"
  by (simp add: sample_user_def sample_principal_def)

lemma sample_settled:
  assumes "sample_like w"
  shows "inputs_settled sample_im_env sample_claimed sample_send w"
proof -
  have "succeeds (dispatch_inputs_of sample_im_env now sample_claimed)
      (\<lambda>x w2. (\<exists>i. x = Some i \<and> outbox_request sample_im_env sample_claimed i = sample_send) \<and> steady 62 1 w1 w2) w1"
    if st: "steady 62 1 w w1" for now w1
  proof -
    have "im_inputs w1 = im_inputs w" using st by (intro im_inputs_tables) (simp add: steady_def)
    then have "sample_like w1" using assms st by (simp add: sample_like_def steady_def)
    then obtain r where "run_id r = 62"
        "dispatch_inputs_of sample_im_env now sample_claimed w1 = (Inr (Some (sample_inputs r)), w1)"
      using sample_dispatch_inputs [of w1 sample_claimed now]
      by (auto simp: sample_claimed_def claimed_row_def sample_queued_def)
    moreover from this have "outbox_request sample_im_env sample_claimed (sample_inputs r) = sample_send"
      by (simp add: sample_send_def outbox_request_def sample_inputs_def sample_run_def)
    moreover have "steady 62 1 w1 w1" using st by (simp add: steady_def)
    ultimately show ?thesis by (auto simp: succeeds_def)
  qed
  then show ?thesis by (simp add: inputs_settled_def sample_send_fields Let_def)
qed

definition sample_resolved_robot :: resolved_capability where
  "sample_resolved_robot =
     \<lparr>rc_definition = hd (t_capability_definitions sample_im_db), rc_version = hd (t_capability_versions sample_im_db),
      rc_binding = hd (t_bindings sample_im_db), rc_connector = sample_connector\<rparr>"

lemma sample_resolves: "resolve_robot False sample_send sample_im_db = Some sample_resolved_robot"
  by (simp add: resolve_robot_def sample_send_fields capability_rows_def sample_im_db_def empty_db_def
      sample_connector_def sample_resolved_robot_def resolve_row_def preflight_row_def sample_capability_def
      selector_matches_def)

lemma sample_admitted: "robot_admitted sample_im_env False sample_send sample_im_db"
proof -
  have "dingtalk_robot_contract_valid (ie_ext sample_im_env) sample_resolved_robot sample_send"
    by (simp add: dingtalk_robot_contract_valid_def sample_resolved_robot_def sample_im_db_def empty_db_def
        sample_capability_def sample_send_fields sample_fingerprint Let_def)
      (simp add: sample_connector_def)
  moreover have "resolve_resource (robot_policy_input False sample_send sample_resolved_robot) sample_im_db =
      (Effect_ALLOW, [], [''policy:p:v1''], [50])"
    by code_simp
  moreover have "connector_grant_allows sample_connector cv" for cv
    by (simp add: connector_grant_allows_def sample_connector_def)
  moreover have "robot_limit sample_im_env sample_send rc = Inr True" for rc
    by (simp add: robot_limit_def validate_capability_def sample_im_env_def open_ext_def)
  ultimately show ?thesis
    by (simp add: robot_admitted_def sample_resolves) (simp add: sample_resolved_robot_def)
qed

lemma sample_credential:
  "resolve_credential (ie_ext sample_im_env) (con_credential_ref sample_connector) 1 sample_im_db = Inr (Some ''secret'')"
  by code_simp

lemma sample_vendor: "vendor_accepts sample_im_env sample_send ''secret'' ''key''"
proof -
  let ?cr = "\<lparr>rcr_app_key = ''a'', rcr_app_secret = ''secret''\<rparr>"
  have "RobotCredentials ''a'' ''secret'' = Inr ?cr" "validate_text ''hi'' ?cr = Inr ()"
    "vendor_json (ie_token_answer sample_im_env) = Inr [(''accessToken'', JStr ''tok''), (''expireIn'', JInt 60)]"
    "access_token [(''accessToken'', JStr ''tok''), (''expireIn'', JInt 60)] ?cr = Inr ''tok''"
    "\<not> contains_sub ''tok'' ''hi''"
    "vendor_json (Answered 200 None 9 (Some (JObj [(''processQueryKey'', JStr ''key'')]))) =
       Inr [(''processQueryKey'', JStr ''key'')]"
    "send_receipt [(''processQueryKey'', JStr ''key'')] (Some ''u'') [''tok'', ''secret''] =
       Inr (RobotSendResult Send_ACCEPTED (Some ''key'') None)"
    by code_simp+
  then show ?thesis
    unfolding vendor_accepts_def sample_send_fields
    by (intro exI [of _ ?cr] exI [of _ "[(''accessToken'', JStr ''tok''), (''expireIn'', JInt 60)]"] exI [of _ "''tok''"]
        exI [of _ "[(''processQueryKey'', JStr ''key'')]"]) (simp add: sample_im_env_def)
qed

lemma sample_deliverable:
  assumes "sample_like w" and "run_recorded 62 1 (iw_db w)"
  shows "deliverable sample_im_env sample_claimed sample_send ''key'' w"
proof -
  have v: "view (iw_db w) = view sample_im_db" using assms(1) by (simp add: sample_like_def)
  have "resolve_credential (ie_ext sample_im_env) (con_credential_ref (rc_connector sample_resolved_robot)) 1 (iw_db w)
      = Inr (Some ''secret'')"
    using sample_credential by (simp add: sample_resolved_robot_def credential_view [OF v])
  moreover have "resolve_robot False sample_send (iw_db w) = Some sample_resolved_robot"
    "robot_admitted sample_im_env False sample_send (iw_db w)"
    using run_admitted_view(1) [OF v, of sample_im_env False sample_send] run_admitted_view(2) [OF v, of False sample_send]
      sample_resolves sample_admitted by simp_all
  moreover have "accepts (ie_ext sample_im_env) [''policy.decided'', ''tool.started'', ''im.delivery.attempted'']"
    by (simp add: accepts_def sample_im_env_def open_ext_def)
  then have "\<exists>names. accepts (ie_ext sample_im_env) names
      \<and> {''policy.decided'', ''tool.started'', ''im.delivery.attempted''} \<subseteq> set names"
    by (intro exI [of _ "[''policy.decided'', ''tool.started'', ''im.delivery.attempted'']"]) simp
  moreover have "opaque ''a'' 255" "opaque ''u'' 255" by code_simp+
  then have "request_wellformed sample_send" by (simp add: request_wellformed_def sample_send_fields)
  moreover have "ie_fence sample_im_env o1" for o1 by (simp add: sample_im_env_def)
  ultimately show ?thesis
    using sample_settled [OF assms(1)] assms(2) sample_vendor
    by (simp add: deliverable_def sample_send_fields)
qed

section \<open>The states of the run\<close>

definition queued_world :: im_world where
  "queued_world = snd (im_transaction (enqueue_next sample_im_env midnight) (sample_im_world ''ACTIVE''))"

definition claimed_world :: im_world where
  "claimed_world = snd (im_transaction (claim_next sample_im_env midnight) queued_world)"

definition sent_world :: im_world where
  "sent_world = snd (im_transaction (dispatch sample_im_env midnight sample_claim) claimed_world)"

lemma delivery_queued: "sample_like queued_world" "iw_deliveries queued_world = [sample_queued]" "iw_posts queued_world = []"
    "t_heads (iw_db queued_world) = []"
  using sample_enqueued by (auto simp: queued_world_def)

lemma delivery_claimed: "im_transaction (claim_next sample_im_env midnight) queued_world = (Inr (Some sample_claim), claimed_world)"
    "iw_deliveries claimed_world = [sample_claimed]" "iw_posts claimed_world = []"
    "deliverable sample_im_env sample_claimed sample_send ''key'' claimed_world"
proof -
  obtain w' where w': "im_transaction (claim_next sample_im_env midnight) queued_world = (Inr (Some sample_claim), w')"
      "sample_like w'" "iw_deliveries w' = [sample_claimed]" "iw_posts w' = []" "t_heads (iw_db w') = []"
    using sample_claims [OF delivery_queued(1-3)] delivery_queued(4) by auto
  have "view (iw_db w') = view sample_im_db" using w'(2) by (simp add: sample_like_def)
  then obtain r1 r2 where "t_runs (iw_db w') = [r1, r2]" "run_id r1 = 62" "run_organization_id r1 = 1"
    using sample_tables by metis
  then have "run_recorded 62 1 (iw_db w')" using w'(5) by (simp add: run_recorded_def)
  then show "im_transaction (claim_next sample_im_env midnight) queued_world = (Inr (Some sample_claim), claimed_world)"
    "iw_deliveries claimed_world = [sample_claimed]" "iw_posts claimed_world = []"
    "deliverable sample_im_env sample_claimed sample_send ''key'' claimed_world"
    using w' sample_deliverable [OF w'(2)] by (simp_all add: claimed_world_def)
qed

lemma sample_held: "dt_id sample_claimed = 100" "dt_id sample_claimed = oc_outbox_id sample_claim"
    "held_by sample_claim sample_claimed"
    "dt_lease_expires_at sample_claimed = Some (timedelta_seconds 60)" "midnight 20 < timedelta_seconds 60"
    "dt_reconciliation_attempt_count sample_claimed = 0"
  by (simp_all add: sample_claimed_def claimed_row_def sample_queued_def sample_claim_def held_by_def
      sample_im_env_def timedelta_seconds_def)

lemma delivery_sent: "\<exists>i. im_transaction (dispatch sample_im_env midnight sample_claim) claimed_world =
       (Inr (Some (accepted_row sample_claimed i ''key'')), sent_world)
     \<and> iw_posts sent_world = [(100, request_message sample_send)]
     \<and> iw_deliveries sent_world = [accepted_row sample_claimed i ''key'']"
proof -
  obtain w' i where "im_transaction (dispatch sample_im_env midnight sample_claim) claimed_world =
       (Inr (Some (accepted_row sample_claimed i ''key'')), w')"
      "iw_posts w' = iw_posts claimed_world @ [(dt_id sample_claimed, request_message sample_send)]"
      "iw_deliveries w' = replace_row dt_id (accepted_row sample_claimed i ''key'') (iw_deliveries claimed_world)"
    using dispatch_delivers [OF _ sample_held(3-5) delivery_claimed(4)] sample_held(2) delivery_claimed(2) by auto
  then show ?thesis using delivery_claimed(2,3) sample_held(1)
    by (intro exI [of _ i]) (simp add: sent_world_def replace_row_def accepted_row_def)
qed

lemma sent_reachable: "outbox_reachable 3 \<lparr>os_world = sent_world, os_claims = []\<rparr>"
proof -
  have N: "ie_max_attempts sample_im_env = 3" by (simp add: sample_im_env_def)
  let ?s = "\<lambda>w cs. \<lparr>os_world = w, os_claims = cs\<rparr>"
  have 1: "outbox_reachable 3 (?s (sample_im_world ''ACTIVE'') [])"
    by (rule outbox_reachable.start) (simp add: outbox_start_def sample_im_world_def)
  have 2: "outbox_reachable 3 (?s queued_world [])"
    using outbox_reachable.step [OF 1 outbox_step.enqueue [OF N, of _ midnight]] by (simp add: queued_world_def)
  have "outbox_step 3 (?s queued_world []) (?s claimed_world [sample_claim])"
    using outbox_step.claim [OF N, of midnight "?s queued_world []"] delivery_claimed(1) by simp
  then have 3: "outbox_reachable 3 (?s claimed_world [sample_claim])" by (rule outbox_reachable.step [OF 2])
  have "outbox_step 3 (?s claimed_world [sample_claim]) (?s sent_world [])"
    using outbox_step.dispatch [OF N, of sample_claim "?s claimed_world [sample_claim]" midnight]
    by (simp add: sent_world_def)
  then show ?thesis by (rule outbox_reachable.step [OF 3])
qed

section \<open>Witnesses\<close>


theorem at_most_one_message_witness:
  "iw_posts sent_world = [(100, request_message sample_send)] \<and> length (run_posts 62 sent_world) \<le> 1"
  using at_most_one_message [OF sent_reachable, of 62] delivery_sent by auto

theorem dispatch_sends_only_authorised_witness:
  "\<exists>m. held_by sample_claim sample_claimed \<and> iw_posts sent_world = iw_posts claimed_world @ [(100, m)]
     \<and> delivery_authorised sample_im_env sample_claimed m claimed_world"
proof -
  obtain i where s: "im_transaction (dispatch sample_im_env midnight sample_claim) claimed_world =
       (Inr (Some (accepted_row sample_claimed i ''key'')), sent_world)"
     "iw_posts sent_world = [(100, request_message sample_send)]"
    using delivery_sent by blast
  show ?thesis
    using dispatch_sends_only_authorised [OF s(1)] s(2) delivery_claimed(2,3) sample_held(1,3) by auto
qed

theorem worker_round_refines_system_witness:
  "outbox_path 3 \<lparr>os_world = sample_im_world ''ACTIVE'', os_claims = []\<rparr>
     \<lparr>os_world = snd (run_once (\<lambda>_. sample_im_env) (\<lambda>_. midnight) (sample_im_world ''ACTIVE'')), os_claims = []\<rparr>"
  by (rule worker_round_refines_system) (simp add: sample_im_env_def)

theorem undeliverable_run_starves_all_witness:
  "length (enqueue_candidates (sample_im_world ''REVOKED'')) = 2
   \<and> other_rows 62 (enqueue_rounds [(sample_im_env, midnight), (sample_im_env, midnight)] (sample_im_world ''REVOKED'')) = []"
proof -
  have two: "length (enqueue_candidates (sample_im_world ''REVOKED'')) = 2"
    by (simp add: enqueue_candidates_def sample_im_world_def sample_im_db_def empty_db_def sample_message_def
      sample_run_def sample_installation_def sample_connector_def sample_binding_def
      optional_rows_def awaits_queue_def)
  have none: "iw_deliveries (sample_im_world ''REVOKED'') = []" by (simp add: sample_im_world_def)
  then have "blocks_queue 62 (sample_im_world ''REVOKED'')"
    using sample_candidates [of "''REVOKED''"]
    by (simp add: blocks_queue_def sample_candidate_fields) (simp add: sample_installation_def)
  moreover have "guard_records_only sample_im_env" by (simp add: guard_records_only_def sample_im_env_def)
  ultimately have "other_rows 62 (enqueue_rounds [(sample_im_env, midnight), (sample_im_env, midnight)]
      (sample_im_world ''REVOKED'')) = other_rows 62 (sample_im_world ''REVOKED'')"
    by (intro undeliverable_run_starves_all) simp_all
  then show ?thesis using two none by (simp add: other_rows_def)
qed

end
