(* ===== verification/WorkflowSpec.thy ===== *)
theory WorkflowSpec
  imports Schema
begin

text \<open>
  \<open>automation/schemas.py\<close>: the specification of a workflow. A step has a type with its own
  required fields, names the steps it depends on and may carry templates with placeholders; a
  specification is a list of steps whose dependencies are known and acyclic.

  \<open>valid_spec\<close> says which specifications the validators of the model accept; reading one from JSON
  and writing it back is Pydantic's and is not modelled. \<open>visit\<close> is the depth-first search of \<open>validate_dag\<close>; its \<open>visiting\<close> set is a parameter, since
  a visit that returns leaves it as it was.

  The lemmas show that the search decides acyclicity; a sample workflow passes every check.
\<close>

section \<open>Steps\<close>

datatype workflow_step_type = StepType_ANALYSIS | StepType_HUMAN_REVIEW | StepType_NOTIFICATION

fun workflow_step_type_value :: "workflow_step_type \<Rightarrow> string" where
  "workflow_step_type_value StepType_ANALYSIS = ''ANALYSIS''"
| "workflow_step_type_value StepType_HUMAN_REVIEW = ''HUMAN_REVIEW''"
| "workflow_step_type_value StepType_NOTIFICATION = ''NOTIFICATION''"

record workflow_step_spec =
  wss_id :: string
  wss_name :: string
  wss_type :: workflow_step_type
  wss_depends_on :: "string list"
  wss_prompt :: "string option"
  wss_model_profile :: "string option"
  wss_title :: "string option"
  wss_body :: "string option"
  wss_review_instructions :: "string option"
  wss_disallow_self_review :: bool

type_synonym workflow_spec = "workflow_step_spec list"

section \<open>Placeholders\<close>

definition key_char :: "char \<Rightarrow> bool" where
  "key_char c \<longleftrightarrow> is_alpha c \<or> is_digit c \<or> c \<in> set ''_-''"

definition placeholder_re :: regex where
  "placeholder_re =
     rseqs [rlit ''{{'', RStar True (RChr is_space),
            RGroup 1 (ralts [rseqs [rlit ''input'', rplus (rseqs [rlit ''.'', rplus (RChr key_char)])],
                             rlit ''execution.id'', rlit ''workflow.id'', rlit ''scheduled_for'']),
            RStar True (RChr is_space), rlit ''}}'']"

definition any_placeholder_re :: regex where
  "any_placeholder_re = rseqs [rlit ''{{'', RStar False (RChr (\<lambda>c. c \<noteq> CHR 0x0A)), rlit ''}}'']"

text \<open>\<open>pattern.fullmatch(s)\<close> and \<open>pattern.findall(s)\<close> for a pattern without groups.\<close>

definition rfullmatch :: "regex \<Rightarrow> string \<Rightarrow> bool" where
  "rfullmatch r s = list_ex (\<lambda>st. fst st = length s) (mt r s (0, []))"

fun rfind_from :: "nat \<Rightarrow> regex \<Rightarrow> string \<Rightarrow> nat \<Rightarrow> string list" where
  "rfind_from 0 r s i = []"
| "rfind_from (Suc n) r s i =
     (if length s \<le> i then []
      else case rmatch r s i of
             None \<Rightarrow> rfind_from n r s (Suc i)
           | Some (j, _) \<Rightarrow> if i < j then slice s i j # rfind_from n r s j else rfind_from n r s (Suc i))"

definition rfindall :: "regex \<Rightarrow> string \<Rightarrow> string list" where
  "rfindall r s = rfind_from (length s) r s 0"

definition template_ok :: "string \<Rightarrow> bool" where
  "template_ok template = list_all (rfullmatch placeholder_re) (rfindall any_placeholder_re template)"

section \<open>A valid step\<close>

definition text_length_in :: "nat \<Rightarrow> nat \<Rightarrow> string \<Rightarrow> bool" where
  "text_length_in lo hi s \<longleftrightarrow> lo \<le> length s \<and> length s \<le> hi"

definition optional_in :: "nat \<Rightarrow> nat \<Rightarrow> string option \<Rightarrow> bool" where
  "optional_in lo hi v = (case v of None \<Rightarrow> True | Some s \<Rightarrow> text_length_in lo hi s)"

definition step_key_ok :: "string \<Rightarrow> bool" where
  "step_key_ok s =
     (case s of [] \<Rightarrow> False
      | c # cs \<Rightarrow> is_lower c \<and> length cs \<le> 63
          \<and> list_all (\<lambda>d. is_lower d \<or> is_digit d \<or> d \<in> set ''_-'') cs)"

definition step_fields_ok :: "workflow_step_spec \<Rightarrow> bool" where
  "step_fields_ok s \<longleftrightarrow>
     text_length_in 1 64 (wss_id s) \<and> text_length_in 1 200 (wss_name s) \<and> length (wss_depends_on s) \<le> 49
     \<and> optional_in 1 100000 (wss_prompt s) \<and> optional_in 1 120 (wss_model_profile s)
     \<and> optional_in 1 300 (wss_title s) \<and> optional_in 1 20000 (wss_body s)
     \<and> optional_in 1 20000 (wss_review_instructions s)"

definition type_contract_ok :: "workflow_step_spec \<Rightarrow> bool" where
  "type_contract_ok s \<longleftrightarrow>
     step_key_ok (wss_id s)
     \<and> distinct (wss_depends_on s)
     \<and> wss_id s \<notin> set (wss_depends_on s)
     \<and> (wss_type s = StepType_ANALYSIS \<longrightarrow> wss_prompt s \<noteq> None)
     \<and> (wss_type s = StepType_NOTIFICATION \<longrightarrow> wss_title s \<noteq> None \<and> wss_body s \<noteq> None)
     \<and> (wss_type s = StepType_HUMAN_REVIEW \<longrightarrow> wss_review_instructions s \<noteq> None)
     \<and> list_all (\<lambda>v. case v of None \<Rightarrow> True | Some template \<Rightarrow> template_ok template)
         [wss_prompt s, wss_title s, wss_body s]"

definition valid_step :: "workflow_step_spec \<Rightarrow> bool" where
  "valid_step s \<longleftrightarrow> step_fields_ok s \<and> type_contract_ok s"

section \<open>The dependency graph\<close>

text \<open>\<open>by_id\<close>; with unique ids the first step of an id is the only one.\<close>

definition spec_step :: "workflow_spec \<Rightarrow> string \<Rightarrow> workflow_step_spec option" where
  "spec_step steps i = find (\<lambda>s. wss_id s = i) steps"

text \<open>
  \<open>visit\<close> returns the visited set, \<open>None\<close> for the \<open>ValueError\<close> of a cycle. (An id that is not in
  \<open>by_id\<close> would be a \<open>KeyError\<close>; the search runs after the check for unknown dependencies.)
\<close>

function (sequential) visit_step :: "workflow_spec \<Rightarrow> string list \<Rightarrow> string list \<Rightarrow> string \<Rightarrow> string list option"
  and visit_all :: "workflow_spec \<Rightarrow> string list \<Rightarrow> string list \<Rightarrow> string list \<Rightarrow> string list option"
where
  "visit_step steps visiting visited i =
     (if i \<in> set visiting then None
      else if i \<in> set visited then Some visited
      else case spec_step steps i of
             None \<Rightarrow> None
           | Some s \<Rightarrow> map_option (\<lambda>visited'. i # visited')
               (visit_all steps (i # visiting) visited (wss_depends_on s)))"
| "visit_all steps visiting visited [] = Some visited"
| "visit_all steps visiting visited (d # ds) =
     (case visit_step steps visiting visited d of
        None \<Rightarrow> None
      | Some visited' \<Rightarrow> visit_all steps visiting visited' ds)"
  by pat_completeness auto

definition unvisited :: "workflow_spec \<Rightarrow> string list \<Rightarrow> nat" where
  "unvisited steps visiting = card (wss_id ` set steps - set visiting)"

lemma unvisited_less:
  assumes "i \<notin> set visiting" and "spec_step steps i = Some s"
  shows "unvisited steps (i # visiting) < unvisited steps visiting"
proof -
  have "i \<in> wss_id ` set steps"
    using assms(2) find_SomeD [of "\<lambda>s. wss_id s = i" steps s] by (auto simp: spec_step_def)
  then show ?thesis
    using assms(1) unfolding unvisited_def by (intro psubset_card_mono) auto
qed

termination visit_step
  by (relation "measures [\<lambda>x. case x of Inl (steps, visiting, _, _) \<Rightarrow> unvisited steps visiting
                              | Inr (steps, visiting, _, _) \<Rightarrow> unvisited steps visiting,
                          \<lambda>x. case x of Inl _ \<Rightarrow> 0 | Inr (_, _, _, ds) \<Rightarrow> Suc (length ds)]")
    (auto simp: unvisited_less)

definition validate_dag :: "workflow_spec \<Rightarrow> bool" where
  "validate_dag steps \<longleftrightarrow>
     distinct (map wss_id steps)
     \<and> list_all (\<lambda>s. list_all (\<lambda>d. d \<in> set (map wss_id steps)) (wss_depends_on s)) steps
     \<and> visit_all steps [] [] (map wss_id steps) \<noteq> None"

definition valid_spec :: "workflow_spec \<Rightarrow> bool" where
  "valid_spec steps \<longleftrightarrow>
     1 \<le> length steps \<and> length steps \<le> 50 \<and> list_all valid_step steps \<and> validate_dag steps"

section \<open>The search decides acyclicity\<close>

definition depends :: "workflow_spec \<Rightarrow> string \<Rightarrow> string \<Rightarrow> bool" where
  "depends steps d i \<longleftrightarrow> (\<exists>s. spec_step steps i = Some s \<and> d \<in> set (wss_depends_on s))"

definition known :: "workflow_spec \<Rightarrow> string \<Rightarrow> bool" where
  "known steps i \<longleftrightarrow> i \<in> set (map wss_id steps)"

lemma known_step: "known steps i \<longleftrightarrow> (\<exists>s. spec_step steps i = Some s)"
proof -
  have "spec_step steps i = None \<longleftrightarrow> \<not> known steps i"
    unfolding spec_step_def known_def find_None_iff by auto
  then show ?thesis by (metis not_None_eq)
qed

lemma visit_sound:
  "visit_step steps visiting visited i = Some vd \<Longrightarrow>
     (\<forall>x \<in> set visited. Wellfounded.accp (depends steps) x) \<Longrightarrow>
     insert i (set visited) \<subseteq> set vd \<and> (\<forall>x \<in> set vd. Wellfounded.accp (depends steps) x)"
  "visit_all steps visiting visited ds = Some vd \<Longrightarrow>
     (\<forall>x \<in> set visited. Wellfounded.accp (depends steps) x) \<Longrightarrow>
     set ds \<union> set visited \<subseteq> set vd \<and> (\<forall>x \<in> set vd. Wellfounded.accp (depends steps) x)"
proof (induction steps visiting visited i and steps visiting visited ds arbitrary: vd and vd
    rule: visit_step_visit_all.induct)
  case (1 steps visiting visited i)
  show ?case
  proof (cases "i \<in> set visited")
    case True
    then show ?thesis using "1.prems" by (auto split: if_splits)
  next
    case False
    then have no: "i \<notin> set visiting" using "1.prems"(1) by (auto split: if_splits)
    obtain s vd' where s: "spec_step steps i = Some s" and vd: "vd = i # vd'"
      and all: "visit_all steps (i # visiting) visited (wss_depends_on s) = Some vd'"
      using "1.prems"(1) no False by (auto split: option.splits)
    have ih: "set (wss_depends_on s) \<union> set visited \<subseteq> set vd' \<and> (\<forall>x \<in> set vd'. Wellfounded.accp (depends steps) x)"
      using "1.IH" [OF no False s all "1.prems"(2)] .
    have "Wellfounded.accp (depends steps) i"
      by (rule accpI) (use ih s in \<open>auto simp: depends_def\<close>)
    then show ?thesis using ih vd by auto
  qed
next
  case (3 steps visiting visited d ds)
  obtain v1 where v1: "visit_step steps visiting visited d = Some v1"
    and v2: "visit_all steps visiting v1 ds = Some vd"
    using "3.prems"(1) by (auto simp del: visit_step.simps split: option.splits)
  have one: "insert d (set visited) \<subseteq> set v1 \<and> (\<forall>x \<in> set v1. Wellfounded.accp (depends steps) x)"
    using "3.IH"(1) [OF v1 "3.prems"(2)] .
  then have "set ds \<union> set v1 \<subseteq> set vd \<and> (\<forall>x \<in> set vd. Wellfounded.accp (depends steps) x)"
    using "3.IH"(2) [OF v1 v2] by blast
  then show ?case using one by auto
qed simp

lemma visit_complete:
  "visit_step steps visiting visited i = None \<Longrightarrow> known steps i \<Longrightarrow>
     \<forall>j s d. spec_step steps j = Some s \<longrightarrow> d \<in> set (wss_depends_on s) \<longrightarrow> known steps d \<Longrightarrow>
     \<forall>x \<in> set visiting. (depends steps)\<^sup>+\<^sup>+ i x \<Longrightarrow> \<exists>x. (depends steps)\<^sup>+\<^sup>+ x x"
  "visit_all steps visiting visited ds = None \<Longrightarrow> \<forall>d \<in> set ds. known steps d \<Longrightarrow>
     \<forall>j s d. spec_step steps j = Some s \<longrightarrow> d \<in> set (wss_depends_on s) \<longrightarrow> known steps d \<Longrightarrow>
     \<forall>d \<in> set ds. \<forall>x \<in> set visiting. (depends steps)\<^sup>+\<^sup>+ d x \<Longrightarrow> \<exists>x. (depends steps)\<^sup>+\<^sup>+ x x"
proof (induction steps visiting visited i and steps visiting visited ds
    rule: visit_step_visit_all.induct)
  case (1 steps visiting visited i)
  show ?case
  proof (cases "i \<in> set visiting")
    case True
    then show ?thesis using "1.prems"(4) by blast
  next
    case False
    obtain s where s: "spec_step steps i = Some s" using "1.prems"(2) known_step by blast
    have no: "i \<notin> set visited" and all: "visit_all steps (i # visiting) visited (wss_depends_on s) = None"
      using "1.prems"(1) False s by (auto split: if_splits)
    have edge: "depends steps d i" if "d \<in> set (wss_depends_on s)" for d
      using that s by (auto simp: depends_def)
    have "\<forall>d \<in> set (wss_depends_on s). \<forall>x \<in> set (i # visiting). (depends steps)\<^sup>+\<^sup>+ d x"
      using edge "1.prems"(4) by (auto intro: tranclp.r_into_trancl tranclp_into_tranclp2)
    then show ?thesis
      using "1.IH" [OF False no s all] "1.prems"(3) s by blast
  qed
next
  case (3 steps visiting visited d ds)
  show ?case
  proof (cases "visit_step steps visiting visited d")
    case None
    then show ?thesis using "3.IH"(1) [OF None] "3.prems" by simp
  next
    case (Some v1)
    then have "visit_all steps visiting v1 ds = None" using "3.prems"(1) by (simp del: visit_step.simps)
    then show ?thesis using "3.IH"(2) [OF Some] "3.prems" by simp
  qed
qed simp

lemma accp_no_cycle: "Wellfounded.accp R x \<Longrightarrow> \<not> R\<^sup>+\<^sup>+ x x"
proof (induction rule: accp.induct)
  case (accI x)
  show ?case
  proof
    assume "R\<^sup>+\<^sup>+ x x"
    then obtain y where y: "R\<^sup>*\<^sup>* x y" "R y x" by (cases rule: tranclp.cases) (auto intro: tranclp_into_rtranclp)
    then have "R\<^sup>+\<^sup>+ y y" by (metis rtranclp_into_tranclp2)
    then show False using accI.IH y(2) by blast
  qed
qed

definition closed_spec :: "workflow_spec \<Rightarrow> bool" where
  "closed_spec steps \<longleftrightarrow> distinct (map wss_id steps) \<and> (\<forall>s \<in> set steps. \<forall>d \<in> set (wss_depends_on s). known steps d)"

lemma depends_known: "depends steps d i \<Longrightarrow> known steps i"
  by (auto simp: depends_def known_step)

lemma cycle_known: "(depends steps)\<^sup>+\<^sup>+ x x \<Longrightarrow> known steps x"
  by (metis depends_known tranclp.cases)

text \<open>
  C35: The validation of a workflow returns on every list of steps, however they refer to each
  other, and accepts exactly those whose ids are unique, whose dependencies exist and in which no
  step depends on itself through any chain of others.
\<close>

theorem validate_dag_iff_acyclic:
  "validate_dag steps \<longleftrightarrow> closed_spec steps \<and> (\<forall>i. \<not> (depends steps)\<^sup>+\<^sup>+ i i)"
proof -
  have deps: "known steps d" if "closed_spec steps" "spec_step steps j = Some s" "d \<in> set (wss_depends_on s)" for j s d
    using that find_SomeD [of "\<lambda>s. wss_id s = j" steps s] by (auto simp: closed_spec_def spec_step_def)
  have "visit_all steps [] [] (map wss_id steps) \<noteq> None \<longleftrightarrow> (\<forall>i. \<not> (depends steps)\<^sup>+\<^sup>+ i i)" if "closed_spec steps"
  proof
    assume "visit_all steps [] [] (map wss_id steps) \<noteq> None"
    then obtain vd where vd: "visit_all steps [] [] (map wss_id steps) = Some vd" by blast
    have "set (map wss_id steps) \<subseteq> set vd \<and> (\<forall>x \<in> set vd. Wellfounded.accp (depends steps) x)"
      using visit_sound(2) [OF vd] by simp
    then have "Wellfounded.accp (depends steps) i" if "known steps i" for i
      using that unfolding known_def by blast
    then show "\<forall>i. \<not> (depends steps)\<^sup>+\<^sup>+ i i" using accp_no_cycle cycle_known by metis
  next
    assume "\<forall>i. \<not> (depends steps)\<^sup>+\<^sup>+ i i"
    moreover have "\<exists>x. (depends steps)\<^sup>+\<^sup>+ x x" if none: "visit_all steps [] [] (map wss_id steps) = None"
    proof (rule visit_complete(2) [OF none])
      show "\<forall>d \<in> set (map wss_id steps). known steps d" unfolding known_def by blast
      show "\<forall>j s d. spec_step steps j = Some s \<longrightarrow> d \<in> set (wss_depends_on s) \<longrightarrow> known steps d"
        using deps [OF \<open>closed_spec steps\<close>] by blast
    qed simp
    ultimately show "visit_all steps [] [] (map wss_id steps) \<noteq> None" by blast
  qed
  moreover have "closed_spec steps \<longleftrightarrow> distinct (map wss_id steps)
      \<and> list_all (\<lambda>s. list_all (\<lambda>d. d \<in> set (map wss_id steps)) (wss_depends_on s)) steps"
    unfolding closed_spec_def known_def list_all_iff by blast
  ultimately show ?thesis unfolding validate_dag_def by blast
qed

section \<open>A sample workflow\<close>

definition sample_analysis :: workflow_step_spec where
  "sample_analysis =
     \<lparr>wss_id = ''scan'', wss_name = ''Scan'', wss_type = StepType_ANALYSIS, wss_depends_on = [],
      wss_prompt = Some ''see {{ input.q }}'', wss_model_profile = None, wss_title = None, wss_body = None,
      wss_review_instructions = None, wss_disallow_self_review = False\<rparr>"

definition sample_review :: workflow_step_spec where
  "sample_review =
     \<lparr>wss_id = ''gate'', wss_name = ''Gate'', wss_type = StepType_HUMAN_REVIEW, wss_depends_on = [''scan''],
      wss_prompt = None, wss_model_profile = None, wss_title = None, wss_body = None,
      wss_review_instructions = Some ''check'', wss_disallow_self_review = True\<rparr>"

lemma sample_template: "template_ok ''see {{ input.q }}''"
  by code_simp

lemma sample_spec_valid: "valid_spec [sample_analysis, sample_review]"
proof -
  have "step_key_ok ''scan''" "step_key_ok ''gate''" by code_simp+
  then have "valid_step sample_analysis" "valid_step sample_review"
    using sample_template
    by (simp_all add: valid_step_def step_fields_ok_def type_contract_ok_def text_length_in_def optional_in_def
        sample_analysis_def sample_review_def)
  moreover have "validate_dag [sample_analysis, sample_review]"
    by (simp add: validate_dag_def sample_analysis_def sample_review_def spec_step_def)
  ultimately show ?thesis by (simp add: valid_spec_def)
qed

end
