(* ===== verification/AgentSpec.thy ===== *)
theory AgentSpec
  imports Identity
begin

text \<open>
  The declared behaviour of an agent as a run uses it: \<open>registry/agent_spec.py\<close> (parsing and
  checking the stored specification) and the prompt names of \<open>registry/prompt_pins.py\<close>.

  The functions run in any state and only raise or return. A \<open>RegistryManifestError\<close> is a
  \<open>ValueError\<close>, not an \<open>ObsionError\<close>.

  The lemmas say what an accepted specification guarantees: step and time limits within bounds,
  a named model profile, a sandbox that is on, and no connection or credential field anywhere.
\<close>

section \<open>No connections, no secrets\<close>

definition manifest_error :: "string \<Rightarrow> string \<Rightarrow> err" where
  "manifest_error source msg = PyError ''RegistryManifestError'' (source @ msg)"

definition forbidden_runtime_keys :: "string list" where
  "forbidden_runtime_keys =
     [''accesskey'', ''apikey'', ''baseurl'', ''connectionstring'', ''credential'', ''credentials'', ''database'',
      ''databaseurl'', ''dsn'', ''endpoint'', ''jdbcurl'', ''modelid'', ''password'', ''passwd'', ''privatekey'',
      ''provider'', ''secret'', ''token'']"

definition forbidden_runtime_value_re :: regex where
  "forbidden_runtime_value_re =
     ralts
      [rseqs [ralts [RSeq (rlit_ci ''postgres'') (ropt (rlit_ci ''ql'')), rlit_ci ''mysql'', rlit_ci ''mariadb'',
                     RSeq (rlit_ci ''mongodb'') (ropt (rlit_ci ''+srv'')), rlit_ci ''redis'', rlit_ci ''jdbc''],
              rlit '':'', ropt (rlit ''//'')],
       rseqs [ralts [rlit_ci ''password'', rlit_ci ''passwd'', rlit_ci ''secret'', rlit_ci ''token'', key_word ''api'',
                     key_word ''access'', key_word ''private''],
              RStar True (RChr is_space), RChr (\<lambda>c. c \<in> set '':='')],
       rseqs [rlit_ci ''-----BEGIN '', RStar True (RChr (\<lambda>c. is_alpha c \<or> c = CHR '' '')),
              rlit_ci ''PRIVATE KEY-----'']]"

definition forbidden_key :: "string \<Rightarrow> bool" where
  "forbidden_key k \<longleftrightarrow> filter (\<lambda>c. is_lower c \<or> is_digit c) (casefold k) \<in> set forbidden_runtime_keys"

fun first_error :: "err option list \<Rightarrow> err option" where
  "first_error [] = None"
| "first_error (None # es) = first_error es"
| "first_error (Some e # es) = Some e"

fun context_error :: "string \<Rightarrow> json \<Rightarrow> err option" where
  "context_error source (JObj xs) =
     first_error (map (\<lambda>p.
       if forbidden_key (fst p)
       then Some (manifest_error source
              ('' cannot contain runtime connection or credential field '' @ repr_str (fst p)))
       else context_error source (snd p)) xs)"
| "context_error source (JList vs) = first_error (map (context_error source) vs)"
| "context_error source (JStr s) =
     (if rsearch forbidden_runtime_value_re s
      then Some (manifest_error source '' cannot contain an endpoint, database DSN, or credential value'')
      else None)"
| "context_error source _ = None"

definition validate_model_context_configuration :: "string \<Rightarrow> json \<Rightarrow> ('s, unit) op" where
  "validate_model_context_configuration source value =
     (case context_error source value of None \<Rightarrow> ret () | Some e \<Rightarrow> raise e)"

section \<open>The sandbox\<close>

definition allowed_sandbox_networks :: "string list" where
  "allowed_sandbox_networks = [''deny'', ''gateway-only'']"

definition allowed_sandbox_mounts :: "string list" where
  "allowed_sandbox_mounts = [''/workspace'', ''/repo'', ''/artifacts'', ''/tmp'']"

definition allowed_sandbox_keys :: "string list" where
  "allowed_sandbox_keys =
     [''enabled'', ''network'', ''mounts'', ''cpuMillis'', ''memoryMb'', ''diskMb'', ''processLimit'']"

definition sandbox_int_bounds :: "(string \<times> int \<times> int) list" where
  "sandbox_int_bounds =
     [(''cpuMillis'', 1, 64000), (''memoryMb'', 32, 65536), (''diskMb'', 32, 1048576), (''processLimit'', 1, 4096)]"

definition sandbox_allows_capabilities :: "jobj \<Rightarrow> bool" where
  "sandbox_allows_capabilities sandbox \<longleftrightarrow> map_of sandbox ''network'' \<noteq> Some (JStr ''deny'')"

text \<open>A \<open>network\<close> that is a list or a dictionary is not hashable.\<close>

definition sandbox_network :: "string \<Rightarrow> json option \<Rightarrow> ('s, json) op" where
  "sandbox_network source v =
     (case v of
        None \<Rightarrow> ret (JStr ''gateway-only'')
      | Some JNull \<Rightarrow> ret (JStr ''gateway-only'')
      | Some (JStr s) \<Rightarrow>
          if s \<in> set allowed_sandbox_networks then ret (JStr s)
          else raise (manifest_error source '' sandbox.network must be deny or gateway-only'')
      | Some (JList _) \<Rightarrow> raise (PyError ''TypeError'' ''unhashable type'')
      | Some (JObj _) \<Rightarrow> raise (PyError ''TypeError'' ''unhashable type'')
      | Some _ \<Rightarrow> raise (manifest_error source '' sandbox.network must be deny or gateway-only''))"

fun normalize_mounts :: "string \<Rightarrow> json list \<Rightarrow> string list \<Rightarrow> ('s, string list) op" where
  "normalize_mounts source [] acc = ret acc"
| "normalize_mounts source (v # vs) acc =
     (case v of
        JStr m \<Rightarrow>
          if m \<notin> set allowed_sandbox_mounts
          then raise (manifest_error source
                 '' sandbox.mounts may only include /workspace, /repo, /artifacts, and /tmp'')
          else if m \<in> set acc then raise (manifest_error source '' sandbox.mounts has duplicates'')
          else normalize_mounts source vs (acc @ [m])
      | _ \<Rightarrow> raise (manifest_error source
                 '' sandbox.mounts may only include /workspace, /repo, /artifacts, and /tmp''))"

definition sandbox_mounts :: "string \<Rightarrow> json option \<Rightarrow> ('s, string list) op" where
  "sandbox_mounts source v =
     (case v of
        None \<Rightarrow> ret allowed_sandbox_mounts
      | Some JNull \<Rightarrow> ret allowed_sandbox_mounts
      | Some (JList vs) \<Rightarrow>
          if vs = [] then raise (manifest_error source '' sandbox.mounts must be a non-empty list'')
          else normalize_mounts source vs []
      | Some _ \<Rightarrow> raise (manifest_error source '' sandbox.mounts must be a non-empty list''))"

fun sandbox_limits :: "string \<Rightarrow> jobj \<Rightarrow> (string \<times> int \<times> int) list \<Rightarrow> ('s, jobj) op" where
  "sandbox_limits source value [] = ret []"
| "sandbox_limits source value ((key, lo, hi) # bs) =
     (case map_of value key of
        None \<Rightarrow> sandbox_limits source value bs
      | Some (JInt raw) \<Rightarrow>
          if lo \<le> raw \<and> raw \<le> hi
          then andthen (sandbox_limits source value bs) (\<lambda>rest. ret ((key, JInt raw) # rest))
          else raise (manifest_error source ('' sandbox.'' @ key @ '' is out of range''))
      | Some _ \<Rightarrow> raise (manifest_error source ('' sandbox.'' @ key @ '' is out of range'')))"

definition normalize_sandbox :: "string \<Rightarrow> json option \<Rightarrow> ('s, jobj) op" where
  "normalize_sandbox source v =
     andthen (case v of
        None \<Rightarrow> ret []
      | Some JNull \<Rightarrow> ret []
      | Some (JObj xs) \<Rightarrow> ret xs
      | Some _ \<Rightarrow> raise (manifest_error source '' has an invalid sandbox policy'')) (\<lambda>value.
     (let unknown = sort (remdups (filter (\<lambda>k. k \<notin> set allowed_sandbox_keys) (map fst value)))
      in andthen (case unknown of [] \<Rightarrow> ret ()
           | k # _ \<Rightarrow> raise (manifest_error source ('' sandbox cannot declare '' @ repr_str k))) (\<lambda>_.
         andthen (require (case map_of value ''enabled'' of None \<Rightarrow> True | Some e \<Rightarrow> e = JBool True)
           (manifest_error source '' sandbox.enabled must be true'')) (\<lambda>_.
         andthen (sandbox_network source (map_of value ''network'')) (\<lambda>network.
         andthen (sandbox_mounts source (map_of value ''mounts'')) (\<lambda>mounts.
         andthen (sandbox_limits source value sandbox_int_bounds) (\<lambda>limits.
         ret ([(''enabled'', JBool True), (''network'', network), (''mounts'', JList (map JStr mounts))] @ limits))))))))"

section \<open>The specification\<close>

record agent_spec =
  as_description :: string
  as_model_profile :: string
  as_max_steps :: int
  as_timeout_seconds :: int
  as_skills :: "string list"
  as_prompts :: "string list"
  as_capabilities :: "string list"
  as_risk_max_level :: string
  as_memory :: jobj
  as_sandbox :: jobj

definition spec_string :: "jobj \<Rightarrow> string \<Rightarrow> string \<Rightarrow> ('s, string) op" where
  "spec_string spec key source =
     (case map_of spec key of
        Some (JStr v) \<Rightarrow>
          if strip v = [] then raise (manifest_error source ('' requires non-empty '' @ key)) else ret (strip v)
      | _ \<Rightarrow> raise (manifest_error source ('' requires non-empty '' @ key)))"

definition stripped_strings :: "json list \<Rightarrow> string list" where
  "stripped_strings vs = filter (\<lambda>s. s \<noteq> []) (map strip (json_strings vs))"

definition spec_string_tuple :: "jobj \<Rightarrow> string \<Rightarrow> string \<Rightarrow> bool \<Rightarrow> ('s, string list) op" where
  "spec_string_tuple spec key source required =
     (case map_of spec key of
        None \<Rightarrow> if required then raise (manifest_error source ('' requires string '' @ key)) else ret []
      | Some (JList vs) \<Rightarrow>
          if required \<and> vs = [] then raise (manifest_error source ('' requires string '' @ key))
          else if length (stripped_strings vs) \<noteq> length vs \<or> \<not> distinct (stripped_strings vs)
          then raise (manifest_error source ('' has invalid duplicate '' @ key))
          else ret (stripped_strings vs)
      | Some _ \<Rightarrow> raise (manifest_error source ('' requires string '' @ key)))"

definition spec_int :: "json option \<Rightarrow> int \<Rightarrow> int \<Rightarrow> err \<Rightarrow> ('s, int) op" where
  "spec_int v lo hi e =
     (case v of Some (JInt n) \<Rightarrow> if lo \<le> n \<and> n \<le> hi then ret n else raise e | _ \<Rightarrow> raise e)"

definition spec_object :: "json option \<Rightarrow> err \<Rightarrow> ('s, jobj) op" where
  "spec_object v e = (case v of Some (JObj xs) \<Rightarrow> ret xs | _ \<Rightarrow> raise e)"

definition agent_spec_from_dict :: "string \<Rightarrow> jobj \<Rightarrow> ('s, agent_spec) op" where
  "agent_spec_from_dict source spec =
     andthen (validate_model_context_configuration source (JObj spec)) (\<lambda>_.
     andthen (spec_string spec ''description'' source) (\<lambda>description.
     andthen (spec_object (map_of spec ''modelPolicy'') (manifest_error source '' requires modelPolicy'')) (\<lambda>policy.
     andthen (spec_string policy ''profile'' source) (\<lambda>profile.
     andthen (require (list_all (\<lambda>k. map_of policy k = None) [''provider'', ''model'', ''model_id'', ''api_key''])
       (manifest_error source '' must bind a ModelProfile, not provider credentials or model IDs'')) (\<lambda>_.
     andthen (spec_int (map_of spec ''maxSteps'') 1 200 (manifest_error source '' has an invalid maxSteps'')) (\<lambda>max_steps.
     andthen (spec_int (case map_of spec ''timeout'' of None \<Rightarrow> Some (JInt 300) | Some t \<Rightarrow> Some t) 1 3600
       (manifest_error source '' has an invalid timeout'')) (\<lambda>timeout.
     andthen (spec_string_tuple spec ''capabilities'' source True) (\<lambda>capabilities.
     andthen (spec_string_tuple spec ''skills'' source False) (\<lambda>skills.
     andthen (spec_string_tuple spec ''prompts'' source False) (\<lambda>prompts.
     andthen (spec_object (map_of spec ''riskPolicy'') (manifest_error source '' requires riskPolicy'')) (\<lambda>risk.
     andthen (spec_string risk ''maxLevel'' source) (\<lambda>level.
     andthen (require (level \<in> {''L0'', ''L1'', ''L2''})
       (manifest_error source '' must declare a V1 riskPolicy.maxLevel'')) (\<lambda>_.
     andthen (spec_object (case map_of spec ''memory'' of None \<Rightarrow> Some (JObj []) | Some m \<Rightarrow> Some m)
       (manifest_error source '' has an invalid memory policy'')) (\<lambda>memory.
     andthen (normalize_sandbox source (map_of spec ''sandbox'')) (\<lambda>sandbox.
     ret \<lparr>as_description = description, as_model_profile = profile, as_max_steps = max_steps,
          as_timeout_seconds = timeout, as_skills = skills, as_prompts = prompts, as_capabilities = capabilities,
          as_risk_max_level = level, as_memory = memory, as_sandbox = sandbox\<rparr>)))))))))))))))"

section \<open>Prompt names\<close>

definition system_policy_prompt_name :: string where
  "system_policy_prompt_name = ''obsion-system-policy''"

definition names_for_agent_spec :: "jobj \<Rightarrow> string list" where
  "names_for_agent_spec spec =
     (let declared = (case map_of spec ''prompts'' of
                        Some v \<Rightarrow> v
                      | None \<Rightarrow> (case map_of spec ''prompt'' of Some v \<Rightarrow> v | None \<Rightarrow> JList []));
          extra = (case declared of
                     JStr s \<Rightarrow> if strip s = [] then [] else [strip s]
                   | JList vs \<Rightarrow> stripped_strings vs
                   | _ \<Rightarrow> [])
      in fold (\<lambda>name names. if name \<in> set names then names else names @ [name]) extra
           [system_policy_prompt_name])"

section \<open>What an accepted specification guarantees\<close>

text \<open>No forbidden field and no forbidden value, at any depth.\<close>

fun context_clean :: "json \<Rightarrow> bool" where
  "context_clean (JObj xs) = list_all (\<lambda>p. \<not> forbidden_key (fst p) \<and> context_clean (snd p)) xs"
| "context_clean (JList vs) = list_all context_clean vs"
| "context_clean (JStr s) = (\<not> rsearch forbidden_runtime_value_re s)"
| "context_clean _ = True"

lemma first_error_None [simp]: "first_error es = None \<longleftrightarrow> list_all (\<lambda>e. e = None) es"
  by (induction es rule: first_error.induct) simp_all

lemma context_error_clean: "context_error source v = None \<longleftrightarrow> context_clean v"
proof (induction source v rule: context_error.induct)
  case (1 source xs)
  show ?case
    by (simp only: context_error.simps context_clean.simps first_error_None list.pred_map comp_def)
      (rule list.pred_cong [OF refl], use "1" in \<open>auto split: if_splits\<close>)
next
  case (2 source vs)
  show ?case
    by (simp only: context_error.simps context_clean.simps first_error_None list.pred_map comp_def)
      (rule list.pred_cong [OF refl], use "2" in auto)
qed simp_all

lemma spec_int_Inr: "spec_int v lo hi e s = (Inr n, s') \<Longrightarrow> lo \<le> n \<and> n \<le> hi"
  by (auto simp: spec_int_def split: option.splits json.splits if_splits)

lemma validate_context_Inr:
  "validate_model_context_configuration source v s = (Inr u, s') \<longleftrightarrow> context_clean v \<and> s' = s"
  using context_error_clean [of source v]
  by (auto simp: validate_model_context_configuration_def split: option.splits)

lemma agent_spec_accepted:
  assumes "agent_spec_from_dict source spec s = (Inr a, s')"
  shows "1 \<le> as_max_steps a \<and> as_max_steps a \<le> 200 \<and> 1 \<le> as_timeout_seconds a \<and> as_timeout_seconds a \<le> 3600
    \<and> context_clean (JObj spec)"
  using assms unfolding agent_spec_from_dict_def
  by (auto simp: andthen_Inr validate_context_Inr dest!: spec_int_Inr)

text \<open>Reading a specification changes nothing.\<close>

lemma keeps_spec_fields [simp]:
  "keeps f (spec_string spec key source)" "keeps f (spec_int v lo hi e)" "keeps f (spec_object v e)"
  "keeps f (spec_string_tuple spec key source b)" "keeps f (normalize_mounts source vs acc)"
  "keeps f (sandbox_network source v)" "keeps f (sandbox_limits source value bs)"
  "keeps f (validate_model_context_configuration source j)"
proof -
  show "keeps f (normalize_mounts source vs acc)" by (induction vs arbitrary: acc) (auto split: json.splits)
  show "keeps f (sandbox_limits source value bs)"
    by (induction bs) (auto intro!: keeps_andthen split: option.splits json.splits)
qed (auto simp: spec_string_def spec_int_def spec_object_def spec_string_tuple_def sandbox_network_def
    validate_model_context_configuration_def split: option.splits json.splits)

lemma keeps_agent_spec [simp]: "keeps f (agent_spec_from_dict source spec)"
proof -
  have "keeps f (sandbox_mounts source v)" for v
    by (auto simp: sandbox_mounts_def split: option.splits json.splits)
  then have "keeps f (normalize_sandbox source v)" for v
    unfolding normalize_sandbox_def Let_def by (auto intro!: keeps_andthen split: option.splits json.splits list.splits)
  then show ?thesis unfolding agent_spec_from_dict_def by (intro keeps_andthen) simp_all
qed

end
