(* ===== verification/ThreadSchema.thy ===== *)
theory ThreadSchema
  imports AgentSpec Collaboration RunApproval
begin

text \<open>
  The state of conversations: the shared store with the tables of \<open>db/models.py\<close> that threads and
  turns use besides it (artifacts, agents, model profiles, prompts, conversation snapshots), the
  settings of \<open>config.py\<close> they read, and the request models of \<open>api/schemas.py\<close>.

  \<open>te_publication\<close> is the knowledge publication guard, an operation on the store, and
  \<open>te_text_sha256\<close> the digest of a text; both are parameters.
\<close>

section \<open>Rows\<close>

record agent_definition_row =
  ag_id :: uuid
  ag_organization_id :: uuid
  ag_name :: string
  ag_status :: registry_status
  ag_active_version :: "int option"

record agent_version_row =
  av_id :: uuid
  av_organization_id :: uuid
  av_agent_id :: uuid
  av_version :: int
  av_spec :: jobj

record model_profile_row =
  mp_id :: uuid
  mp_organization_id :: uuid
  mp_name :: string
  mp_enabled :: bool

record prompt_definition_row =
  prd_id :: uuid
  prd_organization_id :: uuid
  prd_name :: string

record prompt_version_row =
  prv_id :: uuid
  prv_organization_id :: uuid
  prv_prompt_id :: uuid
  prv_version :: int
  prv_checksum_sha256 :: string

record conversation_snapshot_row =
  sn_id :: uuid
  sn_organization_id :: uuid
  sn_run_id :: uuid
  sn_source_thread_id :: uuid
  sn_source_turn_id :: uuid
  sn_source_run_id :: "uuid option"
  sn_source_artifact_id :: "uuid option"
  sn_source_principal_id :: uuid
  sn_ordinal :: int
  sn_user_content :: string
  sn_assistant_content :: "string option"
  sn_content_fingerprint :: string
  sn_classification :: classification
  sn_captured_at :: time

section \<open>The state and its environment\<close>

record thread_world =
  tw_db :: db
  tw_artifacts :: "artifact_row list"
  tw_agents :: "agent_definition_row list"
  tw_agent_versions :: "agent_version_row list"
  tw_profiles :: "model_profile_row list"
  tw_prompts :: "prompt_definition_row list"
  tw_prompt_versions :: "prompt_version_row list"
  tw_snapshots :: "conversation_snapshot_row list"

definition thread_db :: "(db, 'a) op \<Rightarrow> (thread_world, 'a) op" where
  "thread_db = zoom tw_db (\<lambda>d w. w\<lparr>tw_db := d\<rparr>)"

record thread_env =
  te_ext :: ext
  te_publication :: "publication_check \<Rightarrow> (db, bool) op"
  te_text_sha256 :: "string \<Rightarrow> string"
  te_run_timeout_seconds :: int
  te_run_max_steps :: int
  te_run_max_input_tokens :: int
  te_run_max_output_tokens :: int
  te_run_max_cost_amount :: int
  te_context_max_turns :: nat
  te_context_max_chars :: nat
  te_context_max_chars_per_message :: nat

section \<open>Requests\<close>

record create_workspace_request =
  cwr_name :: string
  cwr_description :: string
  cwr_classification :: classification
  cwr_visibility :: visibility

definition valid_create_workspace :: "create_workspace_request \<Rightarrow> bool" where
  "valid_create_workspace r \<longleftrightarrow> length_in 1 240 (cwr_name r) \<and> length (cwr_description r) \<le> 4000"

record create_turn_request =
  ctu_input :: string
  ctu_context_refs :: "jobj list"
  ctu_attachment_refs :: "jobj list"
  ctu_model_profile :: "string option"

text \<open>
  \<open>TaskContextReference\<close> is strict and forbids other fields. The result of the check is the
  reference as it is stored, with the fields that were set, in the order of the model.
\<close>

definition canonical_documents :: "string list \<Rightarrow> bool" where
  "canonical_documents vs \<longleftrightarrow>
     distinct vs \<and> list_all (\<lambda>s. case parse_uuid s of None \<Rightarrow> False | Some u \<Rightarrow> uuid_str u = s) vs"

definition bounded_constraints :: "string list \<Rightarrow> bool" where
  "bounded_constraints vs \<longleftrightarrow> list_all (\<lambda>s. strip s \<noteq> [] \<and> length s \<le> 1000) vs"

definition text_list :: "json \<Rightarrow> string list option" where
  "text_list v =
     (case v of JList vs \<Rightarrow> if length (json_strings vs) = length vs then Some (json_strings vs) else None | _ \<Rightarrow> None)"

definition context_field :: "string \<Rightarrow> json \<Rightarrow> json option" where
  "context_field key v =
     (if key = ''type'' then (if v = JStr ''task_context'' then Some v else None)
      else if key = ''document_ids'' then
        (case text_list v of
           None \<Rightarrow> None
         | Some ds \<Rightarrow> if length ds \<le> 4 \<and> canonical_documents ds then Some v else None)
      else if key = ''output_format'' then
        (if v \<in> {JStr ''AUTO'', JStr ''TABLE'', JStr ''BULLETS'', JStr ''REPORT''} then Some v else None)
      else if key = ''constraints'' then
        (case text_list v of
           None \<Rightarrow> None
         | Some cs \<Rightarrow>
             if length cs \<le> 8 \<and> bounded_constraints cs
             then Some (JList (map (\<lambda>s. JStr (redact_text (strip s))) cs)) else None)
      else None)"

definition task_context_fields :: "string list" where
  "task_context_fields = [''type'', ''document_ids'', ''output_format'', ''constraints'']"

definition parse_task_context :: "jobj \<Rightarrow> jobj option" where
  "parse_task_context ref =
     (if list_all (\<lambda>(k, v). context_field k v \<noteq> None) ref
      then Some (concat (map (\<lambda>k. case map_of ref k of
                    None \<Rightarrow> []
                  | Some v \<Rightarrow> (case context_field k v of None \<Rightarrow> [] | Some v' \<Rightarrow> [(k, v')])) task_context_fields))
      else None)"

definition is_task_context :: "jobj \<Rightarrow> bool" where
  "is_task_context ref \<longleftrightarrow> map_of ref ''type'' = Some (JStr ''task_context'')"

text \<open>\<open>validate_task_context\<close>: at most one reference, with documents or a repository, not both.\<close>

definition task_context_refs :: "jobj list \<Rightarrow> jobj list option" where
  "task_context_refs refs =
     (case filter is_task_context refs of
        [] \<Rightarrow> Some refs
      | [ref] \<Rightarrow>
          (case parse_task_context ref of
             None \<Rightarrow> None
           | Some ref' \<Rightarrow>
               if map_of ref' ''document_ids'' \<notin> {None, Some (JList [])}
                  \<and> list_ex (\<lambda>r. map_of r ''type'' = Some (JStr ''repository'')) refs
               then None
               else Some (map (\<lambda>r. if is_task_context r then ref' else r) refs))
      | _ \<Rightarrow> None)"

definition parse_create_turn :: "create_turn_request \<Rightarrow> create_turn_request option" where
  "parse_create_turn r =
     (if length_in 1 100000 (ctu_input r) \<and> length (ctu_context_refs r) \<le> 100
         \<and> length (ctu_attachment_refs r) \<le> 50
         \<and> (case ctu_model_profile r of None \<Rightarrow> True | Some s \<Rightarrow> length s \<le> 120)
      then map_option (\<lambda>refs. r\<lparr>ctu_context_refs := refs\<rparr>) (task_context_refs (ctu_context_refs r))
      else None)"

section \<open>Laws\<close>

lemma thread_db_iff: "thread_db m w = (r, w') \<longleftrightarrow> (\<exists>d. m (tw_db w) = (r, d) \<and> w' = w\<lparr>tw_db := d\<rparr>)"
  by (simp add: thread_db_def zoom_iff)

end
