(* ===== verification/ConversationContext.thy ===== *)
theory ConversationContext
  imports ThreadHistory
begin

text \<open>
  What a new run sees of the conversation before it: \<open>application/conversation_context.py\<close> (the
  immutable snapshots taken of the prior turns and their answers), the workspace snapshot of
  \<open>model_gateway/workspace_context.py\<close> and the prompt pins of \<open>registry/prompt_pins.py\<close>.

  The lemmas are about \<open>bounded_turns\<close>, the selection under the character limits, and about the
  frame of \<open>capture_conversation\<close>.
\<close>

section \<open>Pins\<close>

definition pin_record :: "prompt_definition_row \<Rightarrow> prompt_version_row \<Rightarrow> jobj" where
  "pin_record d v =
     [(''definition_id'', JStr (uuid_str (prd_id d))), (''name'', JStr (prd_name d)),
      (''prompt_id'', JStr (uuid_str (prd_id d))), (''version_id'', JStr (uuid_str (prv_id v))),
      (''version'', JInt (prv_version v)), (''checksum_sha256'', JStr (prv_checksum_sha256 v))]"

text \<open>\<open>resolve_prompt_pins\<close> without overrides: the latest version of each prompt.\<close>

fun resolve_prompt_pins :: "uuid \<Rightarrow> string list \<Rightarrow> (thread_world, jobj list) op" where
  "resolve_prompt_pins org [] = ret []"
| "resolve_prompt_pins org (name # names) =
     andthen (reads (\<lambda>w. find (\<lambda>d. prd_organization_id d = org \<and> prd_name d = name) (tw_prompts w))) (\<lambda>found.
     andthen (from_some (NotFoundError ''Prompt'' name) found) (\<lambda>d.
     andthen (reads (\<lambda>w. first_by (\<lambda>v. - prv_version v)
       (filter (\<lambda>v. prv_organization_id v = org \<and> prv_prompt_id v = prd_id d) (tw_prompt_versions w)))) (\<lambda>latest.
     andthen (from_some (NotFoundError ''Prompt version'' name) latest) (\<lambda>v.
     andthen (resolve_prompt_pins org names) (\<lambda>pins. ret (pin_record d v # pins))))))"

definition snapshot_workspace :: "thread_env \<Rightarrow> workspace_row \<Rightarrow> jobj" where
  "snapshot_workspace e ws =
     [(''workspace_id'', JStr (uuid_str (ws_id ws))), (''name'', JStr (redact_text (ws_name ws))),
      (''classification'', JStr (classification_value (ws_classification ws))),
      (''visibility'', JStr (visibility_value (ws_visibility ws))),
      (''description'', JStr (redact_text (ws_description ws))),
      (''description_fingerprint'', JStr (te_text_sha256 e (redact_text (ws_description ws))))]"

section \<open>Candidates\<close>

record conversation_turn =
  ct_turn :: turn_row
  ct_source_run_id :: "uuid option"
  ct_source_artifact_id :: "uuid option"
  ct_user_content :: string
  ct_assistant_content :: "string option"
  ct_classification :: classification

fun classification_order :: "classification \<Rightarrow> int" where
  "classification_order Cls_PUBLIC = 0"
| "classification_order Cls_INTERNAL = 1"
| "classification_order Cls_CONFIDENTIAL = 2"
| "classification_order Cls_RESTRICTED = 3"

definition highest_classification :: "classification \<Rightarrow> classification option \<Rightarrow> classification" where
  "highest_classification ws artifact =
     (case artifact of
        Some c \<Rightarrow> if classification_order c > classification_order ws then c else ws
      | None \<Rightarrow> ws)"

text \<open>Completed runs of the turns, the latest first.\<close>

definition completed_runs :: "uuid \<Rightarrow> turn_row list \<Rightarrow> time \<Rightarrow> db \<Rightarrow> run_row list" where
  "completed_runs org turns captured_at d =
     sort_key (\<lambda>r. [- (case run_completed_at r of None \<Rightarrow> 0 | Some t \<Rightarrow> t), - run_created_at r, - run_id r])
       (filter (\<lambda>r. run_organization_id r = org \<and> run_turn_id r \<in> set (map turn_id turns)
          \<and> run_status_of r = Run_COMPLETED
          \<and> (case run_completed_at r of None \<Rightarrow> False | Some t \<Rightarrow> t \<le> captured_at)) (t_runs d))"

definition answer_markdown :: "artifact_row \<Rightarrow> string option" where
  "answer_markdown a =
     (case art_inline_content a of
        Some (JObj content) \<Rightarrow>
          (case map_of content ''markdown'' of
             Some (JStr s) \<Rightarrow> if strip s \<noteq> [] then Some s else None
           | _ \<Rightarrow> None)
      | _ \<Rightarrow> None)"

definition answer_artifacts :: "uuid \<Rightarrow> uuid list \<Rightarrow> time \<Rightarrow> artifact_row list \<Rightarrow> artifact_row list" where
  "answer_artifacts org run_ids captured_at artifacts =
     sort_key (\<lambda>a. [- art_created_at a, - art_id a])
       (filter (\<lambda>a. art_organization_id a = org
          \<and> (case art_run_id a of None \<Rightarrow> False | Some r \<Rightarrow> r \<in> set run_ids)
          \<and> art_kind a = Kind_TEXT \<and> art_media_type a = ''text/markdown'' \<and> art_created_at a \<le> captured_at) artifacts)"

text \<open>\<open>answer_by_run\<close>: the latest artifact of the run with a text.\<close>

definition answer_by_run :: "artifact_row list \<Rightarrow> uuid \<Rightarrow> artifact_row option" where
  "answer_by_run artifacts rid = find (\<lambda>a. art_run_id a = Some rid \<and> answer_markdown a \<noteq> None) artifacts"

definition conversation_candidate ::
  "run_row list \<Rightarrow> artifact_row list \<Rightarrow> classification \<Rightarrow> turn_row \<Rightarrow> conversation_turn" where
  "conversation_candidate runs artifacts ws_class turn =
     (let run = find (\<lambda>r. run_turn_id r = turn_id turn \<and> answer_by_run artifacts (run_id r) \<noteq> None) runs;
          artifact = (case run of None \<Rightarrow> None | Some r \<Rightarrow> answer_by_run artifacts (run_id r))
      in \<lparr>ct_turn = turn, ct_source_run_id = map_option run_id run,
          ct_source_artifact_id = map_option art_id artifact,
          ct_user_content = turn_sanitized_input turn,
          ct_assistant_content = (case artifact of None \<Rightarrow> None | Some a \<Rightarrow> map_option redact_text (answer_markdown a)),
          ct_classification = highest_classification ws_class (map_option art_classification artifact)\<rparr>)"

definition conversation_candidates ::
  "uuid \<Rightarrow> turn_row list \<Rightarrow> time \<Rightarrow> classification \<Rightarrow> thread_world \<Rightarrow> conversation_turn list" where
  "conversation_candidates org turns captured_at ws_class w =
     (let runs = completed_runs org turns captured_at (tw_db w);
          artifacts = answer_artifacts org (map run_id runs) captured_at (tw_artifacts w)
      in map (conversation_candidate runs artifacts ws_class) turns)"

section \<open>The selection\<close>

text \<open>
  \<open>_bounded\<close>: the latest turns first, each message cut to \<open>per_message\<close> and to what remains. The
  result is in the order of the loop, newest first; \<open>bounded_turns\<close> reverses it.
\<close>

fun select_bounded :: "nat \<Rightarrow> nat \<Rightarrow> conversation_turn list \<Rightarrow> conversation_turn list" where
  "select_bounded per_message remaining [] = []"
| "select_bounded per_message remaining (item # items) =
     (if remaining = 0 then []
      else
        (let user = take remaining (take per_message (ct_user_content item));
             remaining1 = remaining - length user;
             assistant = (case ct_assistant_content item of
                            None \<Rightarrow> None
                          | Some a \<Rightarrow> if a \<noteq> [] \<and> remaining1 > 0
                                      then Some (take remaining1 (take per_message a)) else None);
             remaining2 = remaining1 - (case assistant of None \<Rightarrow> 0 | Some a \<Rightarrow> length a);
             rest = select_bounded per_message remaining2 items
         in if user = [] \<and> (case assistant of None \<Rightarrow> True | Some a \<Rightarrow> a = []) then rest
            else item\<lparr>ct_user_content := user, ct_assistant_content := assistant\<rparr> # rest))"

text \<open>\<open>candidates[-max_turns:]\<close>, which is everything for 0 (the settings demand at least 1).\<close>

definition latest_turns :: "nat \<Rightarrow> conversation_turn list \<Rightarrow> conversation_turn list" where
  "latest_turns n candidates = (if n = 0 then candidates else drop (length candidates - n) candidates)"

definition bounded_turns :: "thread_env \<Rightarrow> conversation_turn list \<Rightarrow> conversation_turn list" where
  "bounded_turns e candidates =
     rev (select_bounded (te_context_max_chars_per_message e) (te_context_max_chars e)
       (rev (latest_turns (te_context_max_turns e) candidates)))"

section \<open>Capturing\<close>

definition snapshot_fingerprint :: "thread_env \<Rightarrow> conversation_turn \<Rightarrow> int \<Rightarrow> string" where
  "snapshot_fingerprint e item position =
     sha256_hex (te_ext e) (JObj
       [(''ordinal'', JInt position), (''source_thread_id'', JStr (uuid_str (turn_thread_id (ct_turn item)))),
        (''source_turn_id'', JStr (uuid_str (turn_id (ct_turn item)))),
        (''source_run_id'', opt_uuid (ct_source_run_id item)),
        (''source_artifact_id'', opt_uuid (ct_source_artifact_id item)),
        (''source_principal_id'', JStr (uuid_str (turn_created_by (ct_turn item)))),
        (''user_content'', JStr (ct_user_content item)),
        (''assistant_content'', (case ct_assistant_content item of None \<Rightarrow> JNull | Some s \<Rightarrow> JStr s)),
        (''classification'', JStr (classification_value (ct_classification item)))])"

text \<open>The items whose source run the publication guard lets through.\<close>

fun permitted_turns :: "thread_env \<Rightarrow> principal \<Rightarrow> conversation_turn list \<Rightarrow> (thread_world, conversation_turn list) op" where
  "permitted_turns e p [] = ret []"
| "permitted_turns e p (item # items) =
     andthen (case ct_source_run_id item of
        None \<Rightarrow> ret True
      | Some rid \<Rightarrow> thread_db (te_publication e \<lparr>pc_principal = p, pc_run_id = rid, pc_stage = ''conversation_capture'',
          pc_expected_corp_id = None, pc_link_policy_run = True\<rparr>)) (\<lambda>permitted.
     andthen (permitted_turns e p items) (\<lambda>rest.
     ret (if permitted then item # rest else rest)))"

fun add_snapshots ::
  "thread_env \<Rightarrow> uuid \<Rightarrow> uuid \<Rightarrow> time \<Rightarrow> int \<Rightarrow> conversation_turn list \<Rightarrow> (thread_world, conversation_snapshot_row list) op"
where
  "add_snapshots e org rid captured_at position [] = ret []"
| "add_snapshots e org rid captured_at position (item # items) =
     andthen (thread_db new_id) (\<lambda>i.
     (let row = \<lparr>sn_id = i, sn_organization_id = org, sn_run_id = rid,
                 sn_source_thread_id = turn_thread_id (ct_turn item), sn_source_turn_id = turn_id (ct_turn item),
                 sn_source_run_id = ct_source_run_id item, sn_source_artifact_id = ct_source_artifact_id item,
                 sn_source_principal_id = turn_created_by (ct_turn item), sn_ordinal = position,
                 sn_user_content = ct_user_content item, sn_assistant_content = ct_assistant_content item,
                 sn_content_fingerprint = snapshot_fingerprint e item position,
                 sn_classification = ct_classification item, sn_captured_at = captured_at\<rparr>
      in andthen (modify (\<lambda>w. w\<lparr>tw_snapshots := tw_snapshots w @ [row]\<rparr>)) (\<lambda>_.
         andthen (add_snapshots e org rid captured_at (position + 1) items) (\<lambda>rows. ret (row # rows)))))"

definition capture_conversation ::
  "thread_env \<Rightarrow> principal \<Rightarrow> run_row \<Rightarrow> turn_row \<Rightarrow> thread_row \<Rightarrow> turn_row list \<Rightarrow>
   (thread_world, conversation_snapshot_row list) op" where
  "capture_conversation e p run turn thread prior =
     (if prior = [] then ret []
      else
        andthen (reads (\<lambda>w. find (\<lambda>ws. ws_id ws = thread_workspace_id thread
                    \<and> ws_organization_id ws = p_organization_id p) (t_workspaces (tw_db w)))) (\<lambda>found.
        andthen (from_some (NotFoundError ''Workspace'' (uuid_str (thread_workspace_id thread))) found) (\<lambda>ws.
        andthen (reads (conversation_candidates (p_organization_id p) prior (turn_created_at turn) (ws_classification ws))) (\<lambda>candidates.
        andthen (permitted_turns e p (bounded_turns e candidates)) (\<lambda>selected.
        add_snapshots e (p_organization_id p) (run_id run) (turn_created_at turn) 1 selected)))))"

end
