(* ===== verification/Threads.thy ===== *)
theory Threads
  imports ConversationContext
begin

text \<open>
  \<open>WorkspaceService\<close> of \<open>application/workspaces.py\<close>: workspaces and their members, threads (create,
  archive, resume, fork), turns with the runs they start, cancelling and replaying a run; and the
  endpoints of \<open>api/workspaces.py\<close>, each of which runs one of these in a transaction.

  The limits of the title column and the unique ordinals of a thread's turns are part of the
  inserts. The listings that are ordered by \<open>updated_at\<close> are left out.
\<close>

section \<open>Records\<close>

definition thread_event ::
  "thread_env \<Rightarrow> time \<Rightarrow> principal \<Rightarrow> actor_type \<Rightarrow> string \<Rightarrow> string \<Rightarrow> uuid \<Rightarrow> uuid \<Rightarrow> jobj \<Rightarrow> (thread_world, unit) op" where
  "thread_event e now p actor name aggregate_type aggregate_id correlation_id payload =
     thread_db (andthen (append_event (te_ext e) now
       (EventDraft name aggregate_type aggregate_id (p_organization_id p) correlation_id actor (Some (p_id p)) payload))
       (\<lambda>_. ret ()))"

definition run_record ::
  "thread_env \<Rightarrow> time \<Rightarrow> principal \<Rightarrow> actor_type \<Rightarrow> uuid option \<Rightarrow> string \<Rightarrow> uuid \<Rightarrow> jobj \<Rightarrow> (thread_world, unit) op" where
  "run_record e now p actor actor_id name rid payload =
     thread_db (andthen (append_event (te_ext e) now
       ((EventDraft name ''run'' rid (p_organization_id p) rid actor actor_id payload)\<lparr>ed_run_id := Some rid\<rparr>))
       (\<lambda>_. ret ()))"

definition thread_audit ::
  "time \<Rightarrow> principal \<Rightarrow> actor_type \<Rightarrow> uuid \<Rightarrow> string \<Rightarrow> string \<Rightarrow> uuid \<Rightarrow> string \<Rightarrow> jobj \<Rightarrow> (thread_world, unit) op" where
  "thread_audit now p actor correlation_id action resource_type resource_id outcome metadata =
     thread_db (andthen (write_audit now (AuditDraft (p_organization_id p) correlation_id actor (Some (p_id p)) action
       resource_type (uuid_str resource_id) outcome metadata)) (\<lambda>_. ret ()))"

definition put_thread :: "thread_row \<Rightarrow> (thread_world, unit) op" where
  "put_thread t = thread_db (modify (\<lambda>d. d\<lparr>t_threads := replace_row thread_id t (t_threads d)\<rparr>))"

section \<open>Workspaces and members\<close>

definition create_workspace :: "thread_env \<Rightarrow> clock \<Rightarrow> principal \<Rightarrow> create_workspace_request \<Rightarrow> (thread_world, workspace_row) op" where
  "create_workspace e clk p r =
     andthen (thread_db new_id) (\<lambda>i.
     (let ws = \<lparr>ws_id = i, ws_organization_id = p_organization_id p, ws_owner_id = p_id p,
                ws_classification = cwr_classification r, ws_visibility = cwr_visibility r,
                ws_name = strip (cwr_name r), ws_description = strip (cwr_description r)\<rparr>
      in andthen (thread_db (modify (\<lambda>d. d\<lparr>t_workspaces := t_workspaces d @ [ws]\<rparr>))) (\<lambda>_.
         andthen (thread_db new_id) (\<lambda>correlation_id.
         andthen (thread_event e (clk 0) p Actor_USER ''workspace.created'' ''workspace'' i correlation_id
           [(''name'', JStr (ws_name ws)), (''classification'', JStr (classification_value (ws_classification ws)))]) (\<lambda>_.
         andthen (thread_audit (clk 1) p Actor_USER correlation_id ''workspace.create'' ''workspace'' i ''SUCCESS'' []) (\<lambda>_.
         ret ws))))))"

definition may_manage_members :: "principal \<Rightarrow> workspace_row \<Rightarrow> (thread_world, unit) op" where
  "may_manage_members p ws =
     require (ws_owner_id ws = p_id p \<or> can p ''workspace.manage.all'')
       (AuthorizationError ''workspace_membership_denied'' ''Workspace membership changes are not permitted'' [])"

definition add_member ::
  "thread_env \<Rightarrow> clock \<Rightarrow> principal \<Rightarrow> uuid \<Rightarrow> uuid \<Rightarrow> string list \<Rightarrow> (thread_world, workspace_member_row) op" where
  "add_member e clk p wid uid permissions =
     andthen (thread_db (require_workspace_access p wid False)) (\<lambda>ws.
     andthen (may_manage_members p ws) (\<lambda>_.
     (let normalized = sort (remdups permissions)
      in andthen (require (normalized \<noteq> [] \<and> set normalized \<subseteq> {''read'', ''write''})
           (ValidationError ''workspace_permissions_invalid'' ''Workspace permissions must be read or write'' [])) (\<lambda>_.
         andthen (reads (\<lambda>w. find (\<lambda>u. user_id u = uid \<and> user_organization_id u = p_organization_id p \<and> user_active u)
                    (t_users (tw_db w)))) (\<lambda>user.
         andthen (from_some (NotFoundError ''User'' (uuid_str uid)) user) (\<lambda>_.
         andthen (reads (\<lambda>w. find (\<lambda>m. wm_workspace_id m = ws_id ws \<and> wm_user_id m = uid) (t_members (tw_db w)))) (\<lambda>found.
         (let member = (case found of
                          None \<Rightarrow> \<lparr>wm_organization_id = p_organization_id p, wm_workspace_id = ws_id ws, wm_user_id = uid,
                                   wm_can_write = (''write'' \<in> set normalized), wm_permissions = normalized,
                                   wm_created_by = p_id p, wm_created_at = clk 0\<rparr>
                        | Some m \<Rightarrow> m\<lparr>wm_permissions := normalized, wm_can_write := (''write'' \<in> set normalized)\<rparr>)
          in andthen (thread_db (modify (\<lambda>d. d\<lparr>t_members :=
               (case found of
                  None \<Rightarrow> t_members d @ [member]
                | Some _ \<Rightarrow> replace_row (\<lambda>m. (wm_workspace_id m, wm_user_id m)) member (t_members d))\<rparr>))) (\<lambda>_.
             andthen (thread_db new_id) (\<lambda>correlation_id.
             andthen (thread_event e (clk 1) p Actor_USER ''workspace.member_changed'' ''workspace'' (ws_id ws) correlation_id
               [(''user_id'', JStr (uuid_str uid)), (''permissions'', JList (map JStr normalized))]) (\<lambda>_.
             ret member)))))))))))"

definition list_members :: "principal \<Rightarrow> uuid \<Rightarrow> (thread_world, workspace_member_row list) op" where
  "list_members p wid =
     andthen (thread_db (require_workspace_access p wid False)) (\<lambda>_.
     reads (\<lambda>w. sort_key wm_created_at (filter (\<lambda>m. wm_workspace_id m = wid
       \<and> wm_organization_id m = p_organization_id p) (t_members (tw_db w)))))"

definition remove_member :: "thread_env \<Rightarrow> clock \<Rightarrow> principal \<Rightarrow> uuid \<Rightarrow> uuid \<Rightarrow> (thread_world, unit) op" where
  "remove_member e clk p wid uid =
     andthen (thread_db (require_workspace_access p wid False)) (\<lambda>ws.
     andthen (may_manage_members p ws) (\<lambda>_.
     andthen (reads (\<lambda>w. find (\<lambda>m. wm_workspace_id m = ws_id ws \<and> wm_organization_id m = p_organization_id p
                \<and> wm_user_id m = uid) (t_members (tw_db w)))) (\<lambda>found.
     andthen (from_some (NotFoundError ''Workspace member'' (uuid_str uid)) found) (\<lambda>_.
     andthen (thread_db (modify (\<lambda>d. d\<lparr>t_members := filter (\<lambda>m. \<not> (wm_workspace_id m = ws_id ws \<and> wm_user_id m = uid))
       (t_members d)\<rparr>))) (\<lambda>_.
     andthen (thread_db new_id) (\<lambda>correlation_id.
     thread_event e (clk 0) p Actor_USER ''workspace.member_removed'' ''workspace'' (ws_id ws) correlation_id
       [(''user_id'', JStr (uuid_str uid))]))))))"

section \<open>Threads\<close>

text \<open>\<open>String(300)\<close>: PostgreSQL refuses a longer title.\<close>

definition insert_thread :: "thread_row \<Rightarrow> (thread_world, unit) op" where
  "insert_thread t =
     andthen (require (length (thread_title t) \<le> 300)
       (PyError ''DataError'' ''value too long for type character varying(300)'')) (\<lambda>_.
     thread_db (modify (\<lambda>d. d\<lparr>t_threads := t_threads d @ [t]\<rparr>)))"

definition new_thread :: "uuid \<Rightarrow> principal \<Rightarrow> uuid \<Rightarrow> string \<Rightarrow> uuid option \<Rightarrow> uuid option \<Rightarrow> thread_row" where
  "new_thread i p wid title parent fork_turn =
     \<lparr>thread_id = i, thread_organization_id = p_organization_id p, thread_workspace_id = wid,
      thread_status_of = Thread_ACTIVE, thread_created_by = p_id p, thread_title = strip title,
      thread_parent_thread_id = parent, thread_forked_from_turn_id = fork_turn, thread_archived_at = None\<rparr>"

definition create_thread ::
  "thread_env \<Rightarrow> clock \<Rightarrow> principal \<Rightarrow> uuid \<Rightarrow> string \<Rightarrow> actor_type \<Rightarrow> (thread_world, thread_row) op" where
  "create_thread e clk p wid title actor =
     andthen (thread_db (require_workspace_access p wid True)) (\<lambda>_.
     andthen (thread_db new_id) (\<lambda>i.
     (let thread = new_thread i p wid title None None
      in andthen (insert_thread thread) (\<lambda>_.
         andthen (thread_db new_id) (\<lambda>correlation_id.
         andthen (thread_event e (clk 0) p actor ''thread.created'' ''thread'' i correlation_id
           [(''workspace_id'', JStr (uuid_str wid)), (''title'', JStr (thread_title thread))]) (\<lambda>_.
         andthen (thread_audit (clk 1) p actor correlation_id ''thread.create'' ''thread'' i ''SUCCESS''
           [(''workspace_id'', JStr (uuid_str wid))]) (\<lambda>_.
         ret thread)))))))"

definition has_active_run :: "uuid \<Rightarrow> uuid \<Rightarrow> db \<Rightarrow> bool" where
  "has_active_run org tid d \<longleftrightarrow>
     list_ex (\<lambda>r. run_organization_id r = org \<and> \<not> is_terminal (run_status_of r)
       \<and> list_ex (\<lambda>u. turn_id u = run_turn_id r \<and> turn_thread_id u = tid \<and> turn_organization_id u = org) (t_turns d))
       (t_runs d)"

definition archive_records ::
  "thread_env \<Rightarrow> clock \<Rightarrow> principal \<Rightarrow> uuid \<Rightarrow> uuid \<Rightarrow> jobj \<Rightarrow> (thread_world, unit) op" where
  "archive_records e clk p tid correlation_id metadata =
     andthen (thread_event e (clk 0) p Actor_USER ''thread.archived'' ''thread'' tid correlation_id []) (\<lambda>_.
     thread_audit (clk 1) p Actor_USER correlation_id ''thread.archive'' ''thread'' tid ''SUCCESS'' metadata)"

definition archive_thread :: "thread_env \<Rightarrow> clock \<Rightarrow> principal \<Rightarrow> uuid \<Rightarrow> (thread_world, thread_row) op" where
  "archive_thread e clk p tid =
     andthen (thread_db (require_thread_access p tid True)) (\<lambda>thread.
     if thread_status_of thread = Thread_ARCHIVED then ret thread
     else
       andthen (reads (\<lambda>w. has_active_run (p_organization_id p) (thread_id thread) (tw_db w))) (\<lambda>active.
       andthen (require (\<not> active) (ConflictError ''thread_has_active_run''
         ''A thread with an active run must finish or be cancelled before archiving'' [])) (\<lambda>_.
       (let archived = thread\<lparr>thread_status_of := Thread_ARCHIVED, thread_archived_at := Some (clk 0)\<rparr>
        in andthen (put_thread archived) (\<lambda>_.
           andthen (thread_db new_id) (\<lambda>correlation_id.
           andthen (archive_records e (later 1 clk) p (thread_id thread) correlation_id []) (\<lambda>_.
           ret archived)))))))"

definition resume_thread :: "thread_env \<Rightarrow> clock \<Rightarrow> principal \<Rightarrow> uuid \<Rightarrow> (thread_world, thread_row) op" where
  "resume_thread e clk p tid =
     andthen (thread_db (require_thread_access p tid True)) (\<lambda>thread.
     if thread_status_of thread = Thread_ACTIVE then ret thread
     else
       (let resumed = thread\<lparr>thread_status_of := Thread_ACTIVE, thread_archived_at := None\<rparr>
        in andthen (put_thread resumed) (\<lambda>_.
           andthen (thread_db new_id) (\<lambda>correlation_id.
           andthen (thread_event e (clk 0) p Actor_USER ''thread.resumed'' ''thread'' (thread_id thread) correlation_id []) (\<lambda>_.
           andthen (thread_audit (clk 1) p Actor_USER correlation_id ''thread.resume'' ''thread'' (thread_id thread)
             ''SUCCESS'' []) (\<lambda>_.
           ret resumed))))))"

definition thread_turns :: "principal \<Rightarrow> thread_row \<Rightarrow> (thread_world, turn_row list) op" where
  "thread_turns p thread = thread_db (effective_turns max_lineage_depth p [] thread)"

definition fork_thread ::
  "thread_env \<Rightarrow> clock \<Rightarrow> principal \<Rightarrow> uuid \<Rightarrow> uuid option \<Rightarrow> string option \<Rightarrow> (thread_world, thread_row) op" where
  "fork_thread e clk p tid from_turn title =
     andthen (thread_db (require_thread_access p tid True)) (\<lambda>parent.
     andthen (thread_turns p parent) (\<lambda>parent_turns.
     (let fork_turn = (case from_turn of
                         Some i \<Rightarrow> Some i
                       | None \<Rightarrow> if parent_turns = [] then None else Some (turn_id (last parent_turns)))
      in andthen (case fork_turn of
           None \<Rightarrow> ret ()
         | Some i \<Rightarrow> require (i \<in> set (map turn_id parent_turns)) (NotFoundError ''Turn'' (uuid_str i))) (\<lambda>_.
         andthen (thread_db new_id) (\<lambda>i.
         (let thread = new_thread i p (thread_workspace_id parent)
                (case title of
                   Some s \<Rightarrow> if s = [] then thread_title parent @ '' (fork)'' else s
                 | None \<Rightarrow> thread_title parent @ '' (fork)'') (Some (thread_id parent)) fork_turn
          in andthen (insert_thread thread) (\<lambda>_.
             andthen (thread_db new_id) (\<lambda>correlation_id.
             andthen (if thread_status_of parent = Thread_ACTIVE
                then andthen (put_thread (parent\<lparr>thread_status_of := Thread_ARCHIVED, thread_archived_at := Some (clk 0)\<rparr>)) (\<lambda>_.
                     archive_records e (later 1 clk) p (thread_id parent) correlation_id
                       [(''reason'', JStr ''fork''), (''fork_thread_id'', JStr (uuid_str i))])
                else ret ()) (\<lambda>_.
             andthen (thread_event e (clk 3) p Actor_USER ''thread.forked'' ''thread'' i correlation_id
               [(''parent_thread_id'', JStr (uuid_str (thread_id parent))),
                (''forked_from_turn_id'', opt_uuid fork_turn)]) (\<lambda>_.
             andthen (thread_audit (clk 4) p Actor_USER correlation_id ''thread.fork'' ''thread'' i ''SUCCESS''
               [(''parent_thread_id'', JStr (uuid_str (thread_id parent))),
                (''forked_from_turn_id'', opt_uuid fork_turn)]) (\<lambda>_.
             ret thread)))))))))))"

definition list_thread_events ::
  "principal \<Rightarrow> uuid \<Rightarrow> int \<Rightarrow> nat \<Rightarrow> (thread_world, event_row list) op" where
  "list_thread_events p tid after limit =
     andthen (thread_db (require_thread_access p tid False)) (\<lambda>_.
     reads (\<lambda>w. list_aggregate (p_organization_id p) ''thread'' tid after limit (tw_db w)))"

section \<open>Turns\<close>

text \<open>\<open>reference.get("artifact_id", "")\<close>, as text.\<close>

definition attachment_id :: "jobj \<Rightarrow> uuid option" where
  "attachment_id ref = parse_uuid (case map_of ref ''artifact_id'' of None \<Rightarrow> [] | Some v \<Rightarrow> py_str v)"

fun validate_attachments ::
  "thread_env \<Rightarrow> principal \<Rightarrow> uuid \<Rightarrow> jobj list \<Rightarrow> (thread_world, jobj list) op" where
  "validate_attachments e p wid [] = ret []"
| "validate_attachments e p wid (ref # refs) =
     andthen (require (map_of ref ''type'' = Some (JStr ''artifact''))
       (ValidationError ''attachment_type_unsupported'' ''Turn attachments must reference a workspace artifact'' [])) (\<lambda>_.
     andthen (from_some (ValidationError ''attachment_reference_invalid'' ''Attachment artifact ID is invalid'' [])
       (attachment_id ref)) (\<lambda>i.
     andthen (reads (\<lambda>w. find (\<lambda>a. art_id a = i \<and> art_organization_id a = p_organization_id p
                \<and> art_workspace_id a = wid) (tw_artifacts w))) (\<lambda>found.
     andthen (from_some (NotFoundError ''Artifact'' (uuid_str i)) found) (\<lambda>a.
     andthen (case art_run_id a of
        None \<Rightarrow> ret ()
      | Some rid \<Rightarrow> andthen (thread_db (require_run_access_content (te_publication e) p rid False None)) (\<lambda>_. ret ())) (\<lambda>_.
     andthen (validate_attachments e p wid refs) (\<lambda>rest.
     ret ([(''type'', JStr ''artifact''), (''artifact_id'', JStr (uuid_str (art_id a))), (''title'', JStr (art_title a)),
           (''media_type'', JStr (art_media_type a)),
           (''classification'', JStr (classification_value (art_classification a)))] # rest)))))))"

definition general_agent :: "uuid \<Rightarrow> thread_world \<Rightarrow> agent_version_row option" where
  "general_agent org w =
     find (\<lambda>v. list_ex (\<lambda>a. ag_id a = av_agent_id v \<and> ag_organization_id a = org \<and> ag_name a = ''general-agent''
                  \<and> ag_status a = Registry_ACTIVE \<and> ag_active_version a = Some (av_version v)) (tw_agents w))
       (tw_agent_versions w)"

text \<open>\<open>UNIQUE (thread_id, ordinal)\<close>.\<close>

definition insert_turn :: "turn_row \<Rightarrow> (thread_world, unit) op" where
  "insert_turn u =
     andthen (reads (\<lambda>w. list_ex (\<lambda>v. turn_thread_id v = turn_thread_id u \<and> turn_ordinal v = turn_ordinal u)
       (t_turns (tw_db w)))) (\<lambda>taken.
     andthen (require (\<not> taken) (PyError ''IntegrityError'' ''UNIQUE constraint failed: turns'')) (\<lambda>_.
     thread_db (modify (\<lambda>d. d\<lparr>t_turns := t_turns d @ [u]\<rparr>))))"

definition insert_run :: "run_row \<Rightarrow> (thread_world, unit) op" where
  "insert_run r = thread_db (modify (\<lambda>d. d\<lparr>t_runs := t_runs d @ [r]\<rparr>))"

text \<open>What \<open>create_turn\<close> resolves before it writes: agent, model profile, prompts, workspace.\<close>

record turn_setup =
  tsu_agent_version_id :: uuid
  tsu_model_profile_id :: uuid
  tsu_prompt_pins :: "jobj list"
  tsu_workspace_context :: jobj
  tsu_max_steps :: int
  tsu_timeout_seconds :: int

definition prepare_turn ::
  "thread_env \<Rightarrow> principal \<Rightarrow> thread_row \<Rightarrow> create_turn_request \<Rightarrow> (thread_world, turn_setup) op" where
  "prepare_turn e p thread r =
     andthen (reads (general_agent (p_organization_id p))) (\<lambda>found.
     andthen (from_some (NotFoundError ''Active GeneralAgent'' ''general-agent'') found) (\<lambda>version.
     andthen (agent_spec_from_dict ''GeneralAgent'' (av_spec version)) (\<lambda>spec.
     (let profile_name = (case ctu_model_profile r of
                            None \<Rightarrow> as_model_profile spec
                          | Some s \<Rightarrow> if s = [] then as_model_profile spec else s)
      in andthen (reads (\<lambda>w. find (\<lambda>m. mp_organization_id m = p_organization_id p \<and> mp_name m = profile_name \<and> mp_enabled m)
                    (tw_profiles w))) (\<lambda>profile.
         andthen (from_some (NotFoundError ''Model profile'' profile_name) profile) (\<lambda>m.
         andthen (resolve_prompt_pins (p_organization_id p) (names_for_agent_spec (av_spec version))) (\<lambda>pins.
         andthen (reads (\<lambda>w. find (\<lambda>ws. ws_id ws = thread_workspace_id thread
                    \<and> ws_organization_id ws = p_organization_id p) (t_workspaces (tw_db w)))) (\<lambda>workspace.
         andthen (from_some (NotFoundError ''Workspace'' (uuid_str (thread_workspace_id thread))) workspace) (\<lambda>ws.
         ret \<lparr>tsu_agent_version_id = av_id version, tsu_model_profile_id = mp_id m, tsu_prompt_pins = pins,
              tsu_workspace_context = snapshot_workspace e ws,
              tsu_max_steps = min (te_run_max_steps e) (as_max_steps spec),
              tsu_timeout_seconds = min (te_run_timeout_seconds e) (as_timeout_seconds spec)\<rparr>)))))))))"

definition new_run :: "thread_env \<Rightarrow> uuid \<Rightarrow> principal \<Rightarrow> uuid \<Rightarrow> turn_setup \<Rightarrow> time \<Rightarrow> time \<Rightarrow> run_row" where
  "new_run e i p turn s now created_at =
     \<lparr>run_id = i, run_organization_id = p_organization_id p, run_turn_id = turn, run_status_of = Run_PENDING,
      run_lease_owner = None, run_lease_expires_at = None, run_completed_at = None, run_error_code = None,
      run_error_message = None, run_aggregate_version = 0, run_agent_version_id = Some (tsu_agent_version_id s),
      run_model_profile_id = Some (tsu_model_profile_id s), run_prompt_pins = tsu_prompt_pins s,
      run_context_budget = [], run_conversation_compact = [], run_workspace_context = tsu_workspace_context s,
      run_max_steps = tsu_max_steps s, run_timeout_seconds = tsu_timeout_seconds s,
      run_max_input_tokens = te_run_max_input_tokens e, run_max_output_tokens = te_run_max_output_tokens e,
      run_max_cost_amount = te_run_max_cost_amount e,
      run_deadline_at = Some (now + timedelta_seconds (tsu_timeout_seconds s)),
      run_cancellation_requested_at = None, run_replay_of_run_id = None, run_created_at = created_at\<rparr>"

definition create_turn ::
  "thread_env \<Rightarrow> clock \<Rightarrow> principal \<Rightarrow> uuid \<Rightarrow> create_turn_request \<Rightarrow> actor_type \<Rightarrow> (thread_world, turn_row \<times> run_row) op" where
  "create_turn e clk p tid r actor =
     andthen (thread_db (require_thread_access p tid True)) (\<lambda>thread.
     andthen (require (thread_status_of thread = Thread_ACTIVE)
       (ConflictError ''thread_archived'' ''An archived thread must be resumed first'' [])) (\<lambda>_.
     andthen (thread_turns p thread) (\<lambda>prior.
     (let ordinal_of = (if prior = [] then 0 else turn_ordinal (last prior)) + 1
      in andthen (prepare_turn e p thread r) (\<lambda>setup.
         andthen (validate_attachments e p (thread_workspace_id thread) (ctu_attachment_refs r)) (\<lambda>attachments.
         andthen (thread_db new_id) (\<lambda>turn_id_of.
         (let turn = \<lparr>turn_id = turn_id_of, turn_organization_id = p_organization_id p, turn_thread_id = thread_id thread,
                      turn_ordinal = ordinal_of, turn_created_by = p_id p, turn_input_text = redact_text (ctu_input r),
                      turn_sanitized_input = redact_text (ctu_input r), turn_context_refs = ctu_context_refs r,
                      turn_attachment_refs = attachments, turn_created_at = clk 0\<rparr>
          in andthen (insert_turn turn) (\<lambda>_.
             andthen (thread_db new_id) (\<lambda>run_id_of.
             (let run = new_run e run_id_of p turn_id_of setup (clk 0) (clk 1)
              in andthen (insert_run run) (\<lambda>_.
                 andthen (capture_conversation e p run turn thread prior) (\<lambda>snapshots.
                 andthen (run_record e (clk 2) p actor (Some (p_id p)) ''turn.created'' run_id_of
                   [(''turn_id'', JStr (uuid_str turn_id_of)), (''thread_id'', JStr (uuid_str (thread_id thread))),
                    (''ordinal'', JInt ordinal_of), (''input'', JStr (turn_sanitized_input turn))]) (\<lambda>_.
                 andthen (run_record e (clk 3) p Actor_SYSTEM None ''run.created'' run_id_of
                   [(''turn_id'', JStr (uuid_str turn_id_of)), (''status'', JStr (run_status_value Run_PENDING)),
                    (''conversation_snapshot_count'', JInt (int (length snapshots)))]) (\<lambda>_.
                 ret (turn, run))))))))))))))))"

definition list_turns :: "principal \<Rightarrow> uuid \<Rightarrow> (thread_world, turn_row list) op" where
  "list_turns p tid = andthen (thread_db (require_thread_access p tid False)) (thread_turns p)"

definition list_thread_runs :: "principal \<Rightarrow> uuid \<Rightarrow> (thread_world, run_row list) op" where
  "list_thread_runs p tid =
     andthen (thread_db (require_thread_access p tid False)) (\<lambda>thread.
     andthen (thread_turns p thread) (\<lambda>turns.
     reads (\<lambda>w. concat (map (\<lambda>u. filter (\<lambda>r. run_turn_id r = turn_id u)
       (sort_key run_created_at (filter (\<lambda>r. run_organization_id r = p_organization_id p) (t_runs (tw_db w))))) turns))))"

section \<open>Runs\<close>

definition get_run :: "principal \<Rightarrow> uuid \<Rightarrow> (thread_world, run_row) op" where
  "get_run p rid = thread_db (require_run_access p rid False)"

definition cancelled_run :: "run_row \<Rightarrow> time \<Rightarrow> run_row" where
  "cancelled_run run now =
     run\<lparr>run_cancellation_requested_at := Some now, run_status_of := Run_CANCELLED, run_completed_at := Some now,
         run_lease_owner := None, run_lease_expires_at := None\<rparr>"

definition cancel_run :: "thread_env \<Rightarrow> clock \<Rightarrow> principal \<Rightarrow> uuid \<Rightarrow> (thread_world, run_row) op" where
  "cancel_run e clk p rid =
     andthen (thread_db (require_run_access p rid True)) (\<lambda>run.
     if is_terminal (run_status_of run) then ret run
     else
       andthen (from_sum (validate_run_transition (run_status_of run) Run_CANCELLED)) (\<lambda>_.
       andthen (thread_db (put_run (cancelled_run run (clk 0)))) (\<lambda>_.
       andthen (thread_db (cancel_active_run_steps (p_organization_id p) (run_id run) (clk 0))) (\<lambda>cancelled.
       andthen (run_record e (clk 1) p Actor_USER (Some (p_id p)) ''run.cancellation_requested'' (run_id run)
         [(''status'', JStr (run_status_value (run_status_of run)))]) (\<lambda>_.
       andthen (run_record e (clk 2) p Actor_USER (Some (p_id p)) ''run.cancelled'' (run_id run) []) (\<lambda>_.
       andthen (thread_audit (clk 3) p Actor_USER (run_id run) ''run.cancel'' ''run'' (run_id run) ''SUCCESS''
         [(''previous_status'', JStr (run_status_value (run_status_of run))), (''cancelled_steps'', JInt cancelled)]) (\<lambda>_.
       ret (cancelled_run run (clk 0)))))))))"

definition replayed_run :: "uuid \<Rightarrow> run_row \<Rightarrow> time \<Rightarrow> time \<Rightarrow> run_row" where
  "replayed_run i run now created_at =
     \<lparr>run_id = i, run_organization_id = run_organization_id run, run_turn_id = run_turn_id run,
      run_status_of = Run_PENDING, run_lease_owner = None, run_lease_expires_at = None, run_completed_at = None,
      run_error_code = None, run_error_message = None, run_aggregate_version = 0,
      run_agent_version_id = run_agent_version_id run, run_model_profile_id = run_model_profile_id run,
      run_prompt_pins = run_prompt_pins run, run_context_budget = run_context_budget run,
      run_conversation_compact = run_conversation_compact run, run_workspace_context = run_workspace_context run,
      run_max_steps = run_max_steps run, run_timeout_seconds = run_timeout_seconds run,
      run_max_input_tokens = run_max_input_tokens run, run_max_output_tokens = run_max_output_tokens run,
      run_max_cost_amount = run_max_cost_amount run,
      run_deadline_at = Some (now + timedelta_seconds (run_timeout_seconds run)),
      run_cancellation_requested_at = None, run_replay_of_run_id = Some (run_id run), run_created_at = created_at\<rparr>"

definition replay_run :: "thread_env \<Rightarrow> clock \<Rightarrow> principal \<Rightarrow> uuid \<Rightarrow> (thread_world, run_row) op" where
  "replay_run e clk p rid =
     andthen (thread_db (require_run_access_content (te_publication e) p rid True None)) (\<lambda>source.
     andthen (require (is_terminal (run_status_of source)) (ConflictError ''run_not_replayable''
       ''Only a terminal run has a stable replay snapshot'' [(''status'', JStr (run_status_value (run_status_of source)))])) (\<lambda>_.
     andthen (thread_db new_id) (\<lambda>i.
     (let replay = (replayed_run i source (clk 0) (clk 1))\<lparr>run_organization_id := p_organization_id p\<rparr>
      in andthen (insert_run replay) (\<lambda>_.
         andthen (run_record e (clk 2) p Actor_USER (Some (p_id p)) ''run.replay_requested'' i
           [(''source_run_id'', JStr (uuid_str (run_id source)))]) (\<lambda>_.
         andthen (thread_audit (clk 3) p Actor_USER i ''run.replay.request'' ''run'' i ''QUEUED''
           [(''source_run_id'', JStr (uuid_str (run_id source))),
            (''source_status'', JStr (run_status_value (run_status_of source)))]) (\<lambda>_.
         ret replay)))))))"

section \<open>The endpoints\<close>

datatype thread_request =
    CreateWorkspace create_workspace_request
  | SetMember uuid uuid "string list"
  | RemoveMember uuid uuid
  | CreateThread uuid string actor_type
  | ArchiveThread uuid
  | ResumeThread uuid
  | ForkThread uuid "uuid option" "string option"
  | CreateTurn uuid create_turn_request actor_type
  | CancelRun uuid
  | ReplayRun uuid

text \<open>One request, in its transaction; the answer is not needed.\<close>

fun serve_request :: "thread_env \<Rightarrow> clock \<Rightarrow> principal \<Rightarrow> thread_request \<Rightarrow> (thread_world, unit) op" where
  "serve_request e clk p (CreateWorkspace r) = transaction (andthen (create_workspace e clk p r) (\<lambda>_. ret ()))"
| "serve_request e clk p (SetMember wid uid ps) = transaction (andthen (add_member e clk p wid uid ps) (\<lambda>_. ret ()))"
| "serve_request e clk p (RemoveMember wid uid) = transaction (remove_member e clk p wid uid)"
| "serve_request e clk p (CreateThread wid title actor) = transaction (andthen (create_thread e clk p wid title actor) (\<lambda>_. ret ()))"
| "serve_request e clk p (ArchiveThread tid) = transaction (andthen (archive_thread e clk p tid) (\<lambda>_. ret ()))"
| "serve_request e clk p (ResumeThread tid) = transaction (andthen (resume_thread e clk p tid) (\<lambda>_. ret ()))"
| "serve_request e clk p (ForkThread tid i title) = transaction (andthen (fork_thread e clk p tid i title) (\<lambda>_. ret ()))"
| "serve_request e clk p (CreateTurn tid r actor) = transaction (andthen (create_turn e clk p tid r actor) (\<lambda>_. ret ()))"
| "serve_request e clk p (CancelRun rid) = transaction (andthen (cancel_run e clk p rid) (\<lambda>_. ret ()))"
| "serve_request e clk p (ReplayRun rid) = transaction (andthen (replay_run e clk p rid) (\<lambda>_. ret ()))"

end
