(* ===== verification/ThreadEvolution.thy ===== *)
theory ThreadEvolution
  imports ThreadHistory
begin

text \<open>
  How the tables of threads and turns change. \<open>quiet\<close> are the changes that concern neither;
  \<open>talk_step\<close> the others an operation makes: rows of threads updated without their place in the
  lineage, a new thread, a new turn at the end of a thread's history.

  The invariant \<open>threads_inv\<close> says that every thread has a history whose ordinals count from 1. It
  is kept by every step, and a step only ever appends to a history turns of the thread itself
  (\<open>talk_step_history\<close>).
\<close>

section \<open>Steps\<close>

definition thread_core :: "thread_row \<Rightarrow> uuid \<times> uuid \<times> uuid option \<times> uuid option" where
  "thread_core t = (thread_id t, thread_organization_id t, thread_parent_thread_id t, thread_forked_from_turn_id t)"

definition same_lineage :: "db \<Rightarrow> db \<Rightarrow> bool" where
  "same_lineage d d' \<longleftrightarrow> map thread_core (t_threads d') = map thread_core (t_threads d)"

definition quiet :: "db \<Rightarrow> db \<Rightarrow> bool" where
  "quiet d d' \<longleftrightarrow> t_threads d' = t_threads d \<and> t_turns d' = t_turns d \<and> next_id d \<le> next_id d'"

text \<open>A new thread starts afresh or below the history of its parent.\<close>

definition well_forked :: "db \<Rightarrow> thread_row \<Rightarrow> bool" where
  "well_forked d t \<longleftrightarrow>
     (case thread_parent_thread_id t of
        None \<Rightarrow> True
      | Some i \<Rightarrow>
          (\<exists>parent ts. find_thread (thread_organization_id t) i d = Some parent
             \<and> history max_lineage_depth (thread_organization_id t) d parent = Some ts
             \<and> inherited_turns t ts \<noteq> None))"

definition adds_thread :: "thread_row \<Rightarrow> db \<Rightarrow> db \<Rightarrow> bool" where
  "adds_thread t d d' \<longleftrightarrow>
     map thread_core (t_threads d') = map thread_core (t_threads d) @ [thread_core t]
     \<and> t_turns d' = t_turns d \<and> next_id d \<le> thread_id t \<and> thread_id t < next_id d' \<and> well_forked d t"

definition next_ordinal :: "turn_row list \<Rightarrow> int" where
  "next_ordinal ts = (if ts = [] then 0 else turn_ordinal (last ts)) + 1"

definition adds_turn :: "turn_row \<Rightarrow> db \<Rightarrow> db \<Rightarrow> bool" where
  "adds_turn u d d' \<longleftrightarrow>
     same_lineage d d' \<and> t_turns d' = t_turns d @ [u] \<and> next_id d \<le> next_id d'
     \<and> (\<exists>t ts. find_thread (turn_organization_id u) (turn_thread_id u) d = Some t
          \<and> history max_lineage_depth (turn_organization_id u) d t = Some ts \<and> turn_ordinal u = next_ordinal ts)"

definition talk_step :: "db \<Rightarrow> db \<Rightarrow> bool" where
  "talk_step d d' \<longleftrightarrow>
     (same_lineage d d' \<and> t_turns d' = t_turns d \<and> next_id d \<le> next_id d')
     \<or> (\<exists>t. adds_thread t d d') \<or> (\<exists>u. adds_turn u d d')"

lemma quiet_refl [simp]: "quiet d d" and quiet_trans: "quiet d d1 \<Longrightarrow> quiet d1 d2 \<Longrightarrow> quiet d d2"
  by (auto simp: quiet_def)

lemma quiet_talk: "quiet d d' \<Longrightarrow> talk_step d d'"
  by (simp add: talk_step_def quiet_def same_lineage_def)

section \<open>Facts about histories\<close>

lemma sort_key_snoc: "\<forall>x \<in> set xs. f x \<le> f u \<Longrightarrow> sort_key f (xs @ [u]) = sort_key f xs @ [u]"
proof -
  have insort: "insort_key f x (ys @ [u]) = insort_key f x ys @ [u]" if "f x \<le> f u" for x ys
    using that by (induction ys) auto
  assume "\<forall>x \<in> set xs. f x \<le> f u"
  then show ?thesis by (induction xs) (auto simp: sort_key_def insort)
qed

lemma up_to_append: "up_to i ts = Some us \<Longrightarrow> up_to i (ts @ rest) = Some us"
  by (induction ts arbitrary: us) (auto split: if_splits)

lemma up_to_in: "i \<in> set (map turn_id ts) \<Longrightarrow> up_to i ts \<noteq> None"
  by (induction ts) auto

lemma up_to_take: "up_to i ts = Some us \<Longrightarrow> \<exists>n. us = take n ts"
proof (induction ts arbitrary: us)
  case (Cons t ts)
  show ?case
  proof (cases "turn_id t = i")
    case True
    then have "us = take 1 (t # ts)" using Cons.prems by simp
    then show ?thesis by blast
  next
    case False
    then obtain vs where vs: "up_to i ts = Some vs" "us = t # vs" using Cons.prems by auto
    then obtain n where "vs = take n ts" using Cons.IH by blast
    then have "us = take (Suc n) (t # ts)" using vs by simp
    then show ?thesis by blast
  qed
qed simp

lemma inherited_append: "inherited_turns t ts = Some us \<Longrightarrow> inherited_turns t (ts @ rest) = Some us"
  by (auto simp: inherited_turns_def up_to_append split: option.splits)

lemma inherited_take: "inherited_turns t ts = Some us \<Longrightarrow> \<exists>n. us = take n ts"
  using up_to_take by (force simp: inherited_turns_def split: option.splits)

lemma inherited_core: "thread_core t' = thread_core t \<Longrightarrow> inherited_turns t' ts = inherited_turns t ts"
  by (simp add: inherited_turns_def thread_core_def)

text \<open>Where a history has been found, more depth does not change it.\<close>

lemma history_Suc:
  "history (Suc n) org d t = Some ts \<longleftrightarrow>
     (\<exists>inh. ts = inh @ local_turns org (thread_id t) d
        \<and> ((thread_parent_thread_id t = None \<and> inh = [])
           \<or> (\<exists>i parent pts. thread_parent_thread_id t = Some i \<and> find_thread org i d = Some parent
                \<and> history n org d parent = Some pts \<and> inherited_turns t pts = Some inh)))"
  by (simp split: option.splits) blast

lemma history_deeper: "history n org d t = Some ts \<Longrightarrow> n \<le> m \<Longrightarrow> history m org d t = Some ts"
proof (induction n arbitrary: m t ts)
  case (Suc n)
  then obtain k where m: "m = Suc k" "n \<le> k" by (cases m) auto
  show ?case using Suc.prems(1) Suc.IH [OF _ m(2)] unfolding m(1) history_Suc by blast
qed simp

lemma history_unique: "history n org d t = Some ts \<Longrightarrow> history m org d t = Some us \<Longrightarrow> ts = us"
  using history_deeper [of n org d t ts m] history_deeper [of m org d t us n] by (cases "n \<le> m") auto

lemma quiet_history:
  assumes "quiet d d'"
  shows "find_thread org i d' = find_thread org i d" "history n org d' t = history n org d t"
proof -
  show found: "find_thread org i d' = find_thread org i d" for i using assms by (simp add: quiet_def find_thread_def)
  show "history n org d' t = history n org d t"
    by (induction n arbitrary: t) (use assms found in \<open>auto simp: quiet_def local_turns_def split: option.splits\<close>)
qed

text \<open>A step surrounded by changes that do not concern the conversation is still one.\<close>

lemma quiet_talk_step:
  assumes q: "quiet d d1" "quiet d2 d3" and s: "talk_step d1 d2"
  shows "talk_step d d3"
proof -
  have "adds_thread t d1 d2 \<Longrightarrow> adds_thread t d d3" for t
    using q unfolding adds_thread_def well_forked_def quiet_history [OF q(1)] by (auto simp: quiet_def)
  moreover have "adds_turn u d1 d2 \<Longrightarrow> adds_turn u d d3" for u
    using q unfolding adds_turn_def quiet_history [OF q(1)] same_lineage_def by (auto simp: quiet_def)
  moreover have "same_lineage d1 d2 \<and> t_turns d2 = t_turns d1 \<and> next_id d1 \<le> next_id d2 \<Longrightarrow>
      same_lineage d d3 \<and> t_turns d3 = t_turns d \<and> next_id d \<le> next_id d3"
    using q by (auto simp: quiet_def same_lineage_def)
  ultimately show ?thesis using s unfolding talk_step_def by blast
qed

lemma history_local: "history n org d t = Some ts \<Longrightarrow> \<exists>inh. ts = inh @ local_turns org (thread_id t) d"
  by (cases n) (auto split: option.splits)

section \<open>The invariant\<close>

definition counted :: "turn_row list \<Rightarrow> bool" where
  "counted ts \<longleftrightarrow> (\<forall>i < length ts. turn_ordinal (ts ! i) = int i + 1)"

definition threads_inv :: "db \<Rightarrow> bool" where
  "threads_inv d \<longleftrightarrow>
     thread_ids_distinct d \<and> (\<forall>t \<in> set (t_threads d). thread_id t < next_id d)
     \<and> (\<forall>u \<in> set (t_turns d). \<exists>t \<in> set (t_threads d). thread_id t = turn_thread_id u
          \<and> thread_organization_id t = turn_organization_id u)
     \<and> (\<forall>t \<in> set (t_threads d). \<exists>n ts. history n (thread_organization_id t) d t = Some ts \<and> counted ts)"

lemma counted_Nil [simp]: "counted []"
  by (simp add: counted_def)

lemma counted_take: "counted ts \<Longrightarrow> counted (take n ts)"
  by (simp add: counted_def)

lemma counted_snoc: "counted ts \<Longrightarrow> turn_ordinal u = int (length ts) + 1 \<Longrightarrow> counted (ts @ [u])"
  by (auto simp: counted_def nth_append less_Suc_eq)

lemma counted_mem: "counted ts \<Longrightarrow> u \<in> set ts \<Longrightarrow> 1 \<le> turn_ordinal u \<and> turn_ordinal u \<le> int (length ts)"
  by (fastforce simp: counted_def in_set_conv_nth)

lemma counted_next: "counted ts \<Longrightarrow> next_ordinal ts = int (length ts) + 1"
  by (cases ts rule: rev_cases) (auto simp: counted_def next_ordinal_def)

lemma find_thread_iff:
  assumes "thread_ids_distinct d"
  shows "find_thread org i d = Some t \<longleftrightarrow> t \<in> set (t_threads d) \<and> thread_id t = i \<and> thread_organization_id t = org"
    (is "?L \<longleftrightarrow> ?R")
proof
  assume ?R
  then obtain u where u: "find_thread org i d = Some u"
    unfolding find_thread_def by (cases "find (\<lambda>t. thread_id t = i \<and> thread_organization_id t = org) (t_threads d)")
      (auto simp: find_None_iff)
  then have "u \<in> set (t_threads d)" "thread_id u = i" unfolding find_thread_def using find_SomeD by fastforce+
  then have "u = t"
    using distinct_map_eq [of thread_id "t_threads d" u t] \<open>?R\<close> assms by (simp add: thread_ids_distinct_def)
  then show ?L using u by simp
qed (use find_SomeD in \<open>fastforce simp: find_thread_def\<close>)

section \<open>Steps and histories\<close>

lemma find_thread_core:
  "map_option thread_core (find_thread org i d) =
     find (\<lambda>c. fst c = i \<and> fst (snd c) = org) (map thread_core (t_threads d))"
proof -
  have "map_option thread_core (find (\<lambda>t. thread_id t = i \<and> thread_organization_id t = org) ts) =
      find (\<lambda>c. fst c = i \<and> fst (snd c) = org) (map thread_core ts)" for ts
    by (induction ts) (auto simp: thread_core_def)
  then show ?thesis by (simp add: find_thread_def)
qed

lemma find_append: "find P xs = Some x \<Longrightarrow> find P (xs @ ys) = Some x"
  by (induction xs) auto

lemma find_thread_later:
  assumes "map thread_core (t_threads d') = map thread_core (t_threads d) @ cs" and "find_thread org i d = Some t"
  obtains t' where "find_thread org i d' = Some t'" "thread_core t' = thread_core t"
proof -
  have "map_option thread_core (find_thread org i d') = Some (thread_core t)"
    using find_append [of _ "map thread_core (t_threads d)" "thread_core t" cs] find_thread_core [of org i d] assms
    by (simp add: find_thread_core)
  then show thesis using that by auto
qed

lemma threads_invD:
  assumes "threads_inv d" and "find_thread org i d = Some t"
  obtains n ts where "history n org d t = Some ts" "counted ts"
  using assms by (auto simp: threads_inv_def find_thread_iff)

text \<open>Threads added and own turns added at the end: the general form of a step.\<close>

lemma history_extended:
  assumes inv: "threads_inv d" and cores: "map thread_core (t_threads d') = map thread_core (t_threads d) @ cs"
    and locals: "\<And>i. local_turns org i d' = local_turns org i d @ (if i = x then us else [])"
  shows "find_thread org i d = Some t \<Longrightarrow> thread_core t' = thread_core t \<Longrightarrow>
    history n org d' t' = map_option (\<lambda>ts. ts @ (if i = x then us else [])) (history n org d t)"
proof (induction n arbitrary: i t t')
  case (Suc n)
  have i: "thread_id t = i" using Suc.prems(1) inv by (simp add: find_thread_iff threads_inv_def)
  have same: "thread_id t' = thread_id t" "thread_parent_thread_id t' = thread_parent_thread_id t"
    using Suc.prems(2) by (simp_all add: thread_core_def)
  obtain m ts where m: "history m org d t = Some ts" using threads_invD [OF inv Suc.prems(1)] by metis
  show ?case
  proof (cases "thread_parent_thread_id t")
    case None
    then show ?thesis using i same locals by simp
  next
    case (Some q)
    obtain k where k: "m = Suc k" using m by (cases m) auto
    obtain parent pts inh where parent: "find_thread org q d = Some parent" "history k org d parent = Some pts"
      "inherited_turns t pts = Some inh" using m Some unfolding k history_Suc by auto
    obtain parent' where parent': "find_thread org q d' = Some parent'" "thread_core parent' = thread_core parent"
      using find_thread_later [OF cores parent(1)] by blast
    note IH = Suc.IH [OF parent(1) parent'(2)]
    show ?thesis
    proof (cases "history n org d parent")
      case None
      then show ?thesis using IH Some same parent(1) parent'(1) by simp
    next
      case (Some pts1)
      then have "inherited_turns t pts1 = Some inh" using history_unique [OF parent(2) Some] parent(3) by simp
      then have "inherited_turns t' (pts1 @ rest) = Some inh" for rest
        using inherited_append inherited_core [OF Suc.prems(2)] by metis
      then show ?thesis
        using IH Some \<open>thread_parent_thread_id t = Some q\<close> \<open>inherited_turns t pts1 = Some inh\<close> same parent(1) parent'(1) i locals
        by simp
    qed
  qed
qed simp

lemma local_turns_snoc:
  assumes inv: "threads_inv d" and add: "adds_turn u d d'"
  shows "local_turns org i d' =
    local_turns org i d @ (if turn_organization_id u = org \<and> i = turn_thread_id u then [u] else [])"
proof -
  obtain t ts where t: "find_thread (turn_organization_id u) (turn_thread_id u) d = Some t"
    "history max_lineage_depth (turn_organization_id u) d t = Some ts" "turn_ordinal u = next_ordinal ts"
    using add by (auto simp: adds_turn_def)
  have id: "thread_id t = turn_thread_id u" using t(1) inv by (simp add: find_thread_iff threads_inv_def)
  have "counted ts" using threads_invD [OF inv t(1)] history_unique [OF t(2)] by metis
  then have last: "turn_ordinal v \<le> turn_ordinal u" if "v \<in> set ts" for v
    using counted_mem [OF _ that] t(3) by (simp add: counted_next)
  obtain inh where "ts = inh @ local_turns (turn_organization_id u) (turn_thread_id u) d"
    using history_local [OF t(2)] id by auto
  then have "\<forall>v \<in> set (filter (\<lambda>v. turn_organization_id v = turn_organization_id u \<and> turn_thread_id v = turn_thread_id u)
      (t_turns d)). turn_ordinal v \<le> turn_ordinal u" using last by (auto simp: local_turns_def)
  then show ?thesis using add by (auto simp: local_turns_def adds_turn_def sort_key_snoc)
qed

text \<open>
  What a step adds to the history of a thread: nothing, or one turn of the thread itself; the
  same for every depth at which the history is asked for.
\<close>

definition history_grows :: "uuid \<Rightarrow> uuid \<Rightarrow> turn_row list \<Rightarrow> db \<Rightarrow> db \<Rightarrow> bool" where
  "history_grows org i us d d' \<longleftrightarrow>
     (\<forall>t. find_thread org i d = Some t \<longrightarrow>
        (\<exists>t'. find_thread org i d' = Some t' \<and> thread_core t' = thread_core t
           \<and> (\<forall>n. history n org d' t' = map_option (\<lambda>ts. ts @ us) (history n org d t))))"

lemma history_grows_same:
  assumes "threads_inv d" and "map thread_core (t_threads d') = map thread_core (t_threads d) @ cs"
    and "t_turns d' = t_turns d"
  shows "history_grows org i [] d d'"
  unfolding history_grows_def
proof (intro allI impI)
  fix t assume t: "find_thread org i d = Some t"
  obtain t' where t': "find_thread org i d' = Some t'" "thread_core t' = thread_core t"
    using find_thread_later [OF assms(2) t] by blast
  have "history n org d' t' = map_option (\<lambda>ts. ts @ []) (history n org d t)" for n
    using history_extended [OF assms(1,2), of org i "[]" i t t' n] t t'(2) assms(3)
    by (simp add: local_turns_def)
  then show "\<exists>t'. find_thread org i d' = Some t' \<and> thread_core t' = thread_core t
      \<and> (\<forall>n. history n org d' t' = map_option (\<lambda>ts. ts @ []) (history n org d t))" using t' by blast
qed

lemma history_grows_turn:
  assumes "threads_inv d" and "adds_turn u d d'"
  shows "history_grows org i (if turn_organization_id u = org \<and> i = turn_thread_id u then [u] else []) d d'"
  unfolding history_grows_def
proof (intro allI impI)
  let ?us = "if turn_organization_id u = org then [u] else []"
  fix t assume t: "find_thread org i d = Some t"
  have cores: "map thread_core (t_threads d') = map thread_core (t_threads d) @ []"
    using assms(2) by (simp add: adds_turn_def same_lineage_def)
  obtain t' where t': "find_thread org i d' = Some t'" "thread_core t' = thread_core t"
    using find_thread_later [OF cores t] by blast
  have "local_turns org j d' = local_turns org j d @ (if j = turn_thread_id u then ?us else [])" for j
    using local_turns_snoc [OF assms] by auto
  from history_extended [OF assms(1) cores this t t'(2)]
  have "history n org d' t' = map_option (\<lambda>ts. ts @ (if turn_organization_id u = org \<and> i = turn_thread_id u then [u] else []))
      (history n org d t)" for n by (cases "i = turn_thread_id u") simp_all
  then show "\<exists>t'. find_thread org i d' = Some t' \<and> thread_core t' = thread_core t
      \<and> (\<forall>n. history n org d' t' = map_option (\<lambda>ts. ts @ (if turn_organization_id u = org \<and> i = turn_thread_id u then [u] else []))
           (history n org d t))" using t' by blast
qed

lemma talk_step_history:
  assumes "threads_inv d" and "talk_step d d'"
  shows "\<exists>us. history_grows org i us d d' \<and> length us \<le> 1 \<and> (\<forall>u \<in> set us. turn_thread_id u = i)"
  using assms(2) unfolding talk_step_def
proof (elim disjE exE)
  assume "same_lineage d d' \<and> t_turns d' = t_turns d \<and> next_id d \<le> next_id d'"
  then have "history_grows org i [] d d'"
    using history_grows_same [OF assms(1), of d' "[]"] by (simp add: same_lineage_def)
  then show ?thesis by (intro exI [of _ "[]"]) simp
next
  fix t assume "adds_thread t d d'"
  then have "history_grows org i [] d d'"
    using history_grows_same [OF assms(1), of d' "[thread_core t]"] by (simp add: adds_thread_def)
  then show ?thesis by (intro exI [of _ "[]"]) simp
next
  fix u assume "adds_turn u d d'"
  from history_grows_turn [OF assms(1) this, of org i] show ?thesis
    by (intro exI [of _ "if turn_organization_id u = org \<and> i = turn_thread_id u then [u] else []"]) simp
qed

section \<open>The invariant is kept\<close>

lemma thread_ids_core: "map thread_id (t_threads d) = map fst (map thread_core (t_threads d))"
  by (simp add: thread_core_def)

lemma core_ids: "thread_core t = thread_core t' \<Longrightarrow>
    thread_id t = thread_id t' \<and> thread_organization_id t = thread_organization_id t'"
  by (simp add: thread_core_def)

lemma core_back:
  assumes "map thread_core (t_threads d') = map thread_core (t_threads d) @ cs" and "t' \<in> set (t_threads d')"
  shows "(\<exists>t \<in> set (t_threads d). thread_core t = thread_core t') \<or> thread_core t' \<in> set cs"
proof -
  have "thread_core t' \<in> set (map thread_core (t_threads d) @ cs)" unfolding assms(1) [symmetric] using assms(2) by simp
  then show ?thesis by auto
qed

lemma core_forth:
  assumes "map thread_core (t_threads d') = map thread_core (t_threads d) @ cs" and "t \<in> set (t_threads d)"
  shows "\<exists>t' \<in> set (t_threads d'). thread_id t' = thread_id t \<and> thread_organization_id t' = thread_organization_id t"
proof -
  have "thread_core t \<in> set (map thread_core (t_threads d'))" using assms by simp
  then obtain t' where "t' \<in> set (t_threads d')" "thread_core t = thread_core t'" by auto
  then show ?thesis using core_ids [of t t'] by auto
qed

text \<open>A thread that was there keeps a counted history.\<close>

lemma counted_grows:
  assumes inv: "threads_inv d" and dist: "thread_ids_distinct d'" and t: "t \<in> set (t_threads d)"
    and t': "t' \<in> set (t_threads d')" "thread_core t = thread_core t'"
    and grows: "history_grows (thread_organization_id t) (thread_id t) us d d'"
    and ext: "\<And>n ts. history n (thread_organization_id t) d t = Some ts \<Longrightarrow> counted ts \<Longrightarrow> counted (ts @ us)"
  shows "\<exists>n ts. history n (thread_organization_id t') d' t' = Some ts \<and> counted ts"
proof -
  have found: "find_thread (thread_organization_id t) (thread_id t) d = Some t"
    using inv t by (simp add: find_thread_iff threads_inv_def)
  obtain n ts where n: "history n (thread_organization_id t) d t = Some ts" "counted ts"
    using threads_invD [OF inv found] by blast
  obtain t2 where t2: "find_thread (thread_organization_id t) (thread_id t) d' = Some t2"
    "history n (thread_organization_id t) d' t2 = Some (ts @ us)"
    using grows found n(1) unfolding history_grows_def by fastforce
  moreover have "find_thread (thread_organization_id t) (thread_id t) d' = Some t'"
    using dist t' core_ids [OF t'(2)] by (simp add: find_thread_iff)
  ultimately show ?thesis using ext [OF n] core_ids [OF t'(2)] by auto
qed

lemma threads_inv_same:
  assumes inv: "threads_inv d" and same: "same_lineage d d'" and turns: "t_turns d' = t_turns d"
    and mono: "next_id d \<le> next_id d'"
  shows "threads_inv d'"
proof -
  have dist: "thread_ids_distinct d'"
    using inv same unfolding threads_inv_def thread_ids_distinct_def thread_ids_core same_lineage_def by simp
  have cores: "map thread_core (t_threads d') = map thread_core (t_threads d) @ []" using same by (simp add: same_lineage_def)
  have from_old: "\<exists>t \<in> set (t_threads d). thread_core t = thread_core t'" if "t' \<in> set (t_threads d')" for t'
    using core_back [OF cores that] by simp
  have "thread_id t' < next_id d'" if t': "t' \<in> set (t_threads d')" for t'
  proof -
    obtain t where t: "t \<in> set (t_threads d)" "thread_core t = thread_core t'" using from_old [OF t'] by blast
    then have "thread_id t < next_id d" using inv by (simp add: threads_inv_def)
    then show ?thesis using mono core_ids [OF t(2)] by simp
  qed
  moreover have "\<exists>t \<in> set (t_threads d'). thread_id t = turn_thread_id u \<and> thread_organization_id t = turn_organization_id u"
    if u: "u \<in> set (t_turns d')" for u
  proof -
    obtain t where "t \<in> set (t_threads d)" "thread_id t = turn_thread_id u" "thread_organization_id t = turn_organization_id u"
      using u inv turns unfolding threads_inv_def by auto
    then show ?thesis using core_forth [OF cores] by fastforce
  qed
  moreover have "\<exists>n ts. history n (thread_organization_id t') d' t' = Some ts \<and> counted ts" if t': "t' \<in> set (t_threads d')" for t'
  proof -
    obtain t where t: "t \<in> set (t_threads d)" "thread_core t = thread_core t'" using from_old [OF t'] by blast
    from history_grows_same [OF inv cores turns]
    show ?thesis by (rule counted_grows [OF inv dist t(1) t' t(2)]) simp
  qed
  ultimately show ?thesis using dist by (simp add: threads_inv_def)
qed

lemma threads_inv_thread:
  assumes inv: "threads_inv d" and add: "adds_thread t d d'"
  shows "threads_inv d'"
proof -
  note defs = inv [unfolded threads_inv_def] add [unfolded adds_thread_def]
  have cores: "map thread_core (t_threads d') = map thread_core (t_threads d) @ [thread_core t]"
    and turns: "t_turns d' = t_turns d" and new: "next_id d \<le> thread_id t" "thread_id t < next_id d'"
    and forked: "well_forked d t" using defs(2) by simp_all
  have old: "thread_id s < next_id d" if "s \<in> set (t_threads d)" for s using defs(1) that by blast
  have dist: "thread_ids_distinct d'"
  proof -
    have "distinct (map thread_id (t_threads d))" using defs(1) by (simp add: thread_ids_distinct_def)
    moreover have "thread_id t \<notin> set (map thread_id (t_threads d))" using old new(1) by force
    ultimately have "distinct (map thread_id (t_threads d) @ [thread_id t])" by simp
    then show ?thesis unfolding thread_ids_distinct_def thread_ids_core cores by (simp add: thread_core_def comp_def)
  qed
  have "thread_id s' < next_id d'" if s': "s' \<in> set (t_threads d')" for s'
    using core_back [OF cores s']
  proof
    assume "\<exists>s \<in> set (t_threads d). thread_core s = thread_core s'"
    then obtain s where s: "s \<in> set (t_threads d)" "thread_core s = thread_core s'" by blast
    then show ?thesis using old [OF s(1)] new core_ids [OF s(2)] by simp
  next
    assume "thread_core s' \<in> set [thread_core t]"
    then show ?thesis using new(2) by (simp add: thread_core_def)
  qed
  moreover have "\<exists>s \<in> set (t_threads d'). thread_id s = turn_thread_id u \<and> thread_organization_id s = turn_organization_id u"
    if u: "u \<in> set (t_turns d')" for u
  proof -
    obtain s where "s \<in> set (t_threads d)" "thread_id s = turn_thread_id u" "thread_organization_id s = turn_organization_id u"
      using u defs(1) turns by auto
    then show ?thesis using core_forth [OF cores] by fastforce
  qed
  moreover have "\<exists>n ts. history n (thread_organization_id s') d' s' = Some ts \<and> counted ts" if s': "s' \<in> set (t_threads d')" for s'
    using core_back [OF cores s']
  proof
    assume "\<exists>s \<in> set (t_threads d). thread_core s = thread_core s'"
    then obtain s where s: "s \<in> set (t_threads d)" "thread_core s = thread_core s'" by blast
    from history_grows_same [OF inv cores turns]
    show ?thesis by (rule counted_grows [OF inv dist s(1) s' s(2)]) simp
  next
    let ?org = "thread_organization_id t"
    assume "thread_core s' \<in> set [thread_core t]"
    then have core: "thread_core s' = thread_core t" by simp
    then have same: "thread_id s' = thread_id t" "thread_organization_id s' = ?org"
      "thread_parent_thread_id s' = thread_parent_thread_id t" by (simp_all add: thread_core_def)
    have "turn_thread_id v \<noteq> thread_id t" if v: "v \<in> set (t_turns d)" for v
    proof -
      obtain x where "x \<in> set (t_threads d)" "thread_id x = turn_thread_id v" using defs(1) v by blast
      then show ?thesis using old [of x] new(1) by simp
    qed
    then have "filter (\<lambda>v. turn_organization_id v = ?org \<and> turn_thread_id v = thread_id t) (t_turns d') = []"
      using turns by (auto simp: filter_empty_conv)
    then have "local_turns ?org (thread_id t) d' = []" by (simp add: local_turns_def)
    then have none: "local_turns ?org (thread_id s') d' = []" using same by simp
    show ?thesis
    proof (cases "thread_parent_thread_id t")
      case None
      then have "history (Suc 0) ?org d' s' = Some []" using none same by simp
      then show ?thesis using same(2) counted_Nil by metis
    next
      case (Some q)
      then obtain parent ts inh where p: "find_thread ?org q d = Some parent"
        "history max_lineage_depth ?org d parent = Some ts" "inherited_turns t ts = Some inh"
        using forked by (auto simp: well_forked_def)
      obtain parent' where p': "find_thread ?org q d' = Some parent'" "history max_lineage_depth ?org d' parent' = Some ts"
        using history_grows_same [OF inv cores turns, of ?org q] p(1,2) by (auto simp: history_grows_def)
      have "history (Suc max_lineage_depth) ?org d' s' = Some inh"
        unfolding history_Suc none using Some p' p(3) same(3) inherited_core [OF core] by auto
      moreover have "counted inh"
        using inherited_take [OF p(3)] threads_invD [OF inv p(1)] history_unique [OF p(2)] counted_take by metis
      ultimately show ?thesis unfolding same(2) by blast
    qed
  qed
  ultimately show ?thesis using dist by (simp add: threads_inv_def)
qed

lemma threads_inv_turn:
  assumes inv: "threads_inv d" and add: "adds_turn u d d'"
  shows "threads_inv d'"
proof -
  have same: "same_lineage d d'" and mono: "next_id d \<le> next_id d'" and turns: "t_turns d' = t_turns d @ [u]"
    using add by (simp_all add: adds_turn_def)
  obtain t ts where t: "find_thread (turn_organization_id u) (turn_thread_id u) d = Some t"
    "history max_lineage_depth (turn_organization_id u) d t = Some ts" "turn_ordinal u = next_ordinal ts"
    using add by (auto simp: adds_turn_def)
  then have t_in: "t \<in> set (t_threads d)" "thread_id t = turn_thread_id u" "thread_organization_id t = turn_organization_id u"
    using inv by (simp_all add: find_thread_iff threads_inv_def)
  have "threads_inv (d'\<lparr>t_turns := t_turns d\<rparr>)" by (rule threads_inv_same [OF inv _ _]) (use same mono in \<open>simp_all add: same_lineage_def\<close>)
  then have dist: "thread_ids_distinct d'" and lt: "\<forall>s \<in> set (t_threads d'). thread_id s < next_id d'"
    and own: "\<forall>v \<in> set (t_turns d). \<exists>s \<in> set (t_threads d'). thread_id s = turn_thread_id v
      \<and> thread_organization_id s = turn_organization_id v"
    by (simp_all add: threads_inv_def thread_ids_distinct_def)
  have cores: "map thread_core (t_threads d') = map thread_core (t_threads d) @ []" using same by (simp add: same_lineage_def)
  have "\<exists>s \<in> set (t_threads d'). thread_id s = turn_thread_id u \<and> thread_organization_id s = turn_organization_id u"
    using core_forth [OF cores t_in(1)] t_in(2,3) by simp
  moreover have "\<exists>n us. history n (thread_organization_id s') d' s' = Some us \<and> counted us" if s': "s' \<in> set (t_threads d')" for s'
  proof -
    obtain s where s: "s \<in> set (t_threads d)" "thread_core s = thread_core s'" using core_back [OF cores s'] by auto
    from history_grows_turn [OF inv add]
    show ?thesis
    proof (rule counted_grows [OF inv dist s(1) s' s(2)])
      fix n us assume us: "history n (thread_organization_id s) d s = Some us" "counted us"
      show "counted (us @ (if turn_organization_id u = thread_organization_id s \<and> thread_id s = turn_thread_id u then [u] else []))"
      proof (cases "turn_organization_id u = thread_organization_id s \<and> thread_id s = turn_thread_id u")
        case True
        then have "find_thread (turn_organization_id u) (turn_thread_id u) d = Some s"
          using s(1) inv by (simp add: find_thread_iff threads_inv_def)
        then have "us = ts" using t(1,2) us(1) history_unique True by auto
        then show ?thesis using us(2) t(3) counted_next counted_snoc True by simp
      next
        case False
        then have none: "(if turn_organization_id u = thread_organization_id s \<and> thread_id s = turn_thread_id u then [u] else []) = []"
          by auto
        show ?thesis unfolding none using us(2) by simp
      qed
    qed
  qed
  moreover have "\<forall>v \<in> set (t_turns d'). \<exists>s \<in> set (t_threads d'). thread_id s = turn_thread_id v
      \<and> thread_organization_id s = turn_organization_id v" using own calculation(1) unfolding turns by simp
  ultimately show ?thesis using dist lt unfolding threads_inv_def by blast
qed

theorem talk_step_inv: "threads_inv d \<Longrightarrow> talk_step d d' \<Longrightarrow> threads_inv d'"
  unfolding talk_step_def using threads_inv_same threads_inv_thread threads_inv_turn by blast

end
