(* ===== verification/ThreadProperties.thy ===== *)
theory ThreadProperties
  imports Threads ThreadEvolution
begin

text \<open>
  What the requests of \<open>api/workspaces.py\<close> do to threads and turns. \<open>calm\<close> operations leave both
  alone; the rules at the start walk an operation through them, so that each request is shown to
  make one \<open>talk_step\<close>, or none.

  Then the system: requests of anybody, in any order, interleaved with changes of the store that
  concern neither threads nor turns. The properties are about all its runs.
\<close>

section \<open>Operations that leave the conversation alone\<close>

definition calm :: "(thread_world, 'a) op \<Rightarrow> bool" where
  "calm m \<longleftrightarrow> (\<forall>w. quiet (tw_db w) (tw_db (snd (m w))))"

definition calm_db :: "(db, 'a) op \<Rightarrow> bool" where
  "calm_db m \<longleftrightarrow> (\<forall>d. quiet d (snd (m d)))"

text \<open>The publication guard reads documents and writes records of its own.\<close>

definition quiet_guard :: "thread_env \<Rightarrow> bool" where
  "quiet_guard e \<longleftrightarrow> (\<forall>c. calm_db (te_publication e c))"

lemma calmD: "calm m \<Longrightarrow> m w = (r, w') \<Longrightarrow> quiet (tw_db w) (tw_db w')"
  unfolding calm_def by (metis snd_conv)

lemma calm_dbD: "calm_db m \<Longrightarrow> m d = (r, d') \<Longrightarrow> quiet d d'"
  unfolding calm_db_def by (metis snd_conv)

lemma calm_basic [simp]: "calm (ret x)" "calm (raise e)" "calm (reads f)" "calm (require b e)" "calm (from_some e v)"
    "calm (from_sum v')"
  by (auto simp: calm_def ret_def raise_def reads_def require_def from_some_def from_sum_def split: option.splits sum.splits)

lemma calm_andthen: "calm m \<Longrightarrow> (\<And>x. calm (k x)) \<Longrightarrow> calm (andthen m k)"
  unfolding calm_def by (auto simp: andthen_def split: prod.splits sum.splits) (metis quiet_trans snd_conv)+

lemma calm_db_andthen: "calm_db m \<Longrightarrow> (\<And>x. calm_db (k x)) \<Longrightarrow> calm_db (andthen m k)"
  unfolding calm_db_def by (auto simp: andthen_def split: prod.splits sum.splits) (metis quiet_trans snd_conv)+

lemma calm_if: "calm m \<Longrightarrow> calm k \<Longrightarrow> calm (if b then m else k)"
  by simp

lemma calm_option: "calm m \<Longrightarrow> (\<And>x. calm (k x)) \<Longrightarrow> calm (case v of None \<Rightarrow> m | Some x \<Rightarrow> k x)"
  by (cases v) simp_all

lemma thread_db_db: "tw_db (snd (thread_db m w)) = snd (m (tw_db w))"
  by (simp add: thread_db_def zoom_def split: prod.splits)

lemma calm_thread_db [simp]: "calm_db m \<Longrightarrow> calm (thread_db m)"
  by (simp add: calm_def calm_db_def thread_db_db)

lemma calm_modify [simp]: "calm (modify g) \<longleftrightarrow> (\<forall>w. quiet (tw_db w) (tw_db (g w)))"
  and calm_db_modify [simp]: "calm_db (modify h) \<longleftrightarrow> (\<forall>d. quiet d (h d))"
  by (auto simp: calm_def calm_db_def modify_def)

lemma calm_db_reading: "(\<And>d. snd (m d) = d) \<Longrightarrow> calm_db m"
  by (simp add: calm_db_def)

lemma quiet_business: "business d' = business d \<Longrightarrow> next_id d \<le> next_id d' \<Longrightarrow> quiet d d'"
  using business_tables(11,12) [of d' d] by (simp add: quiet_def)

lemma calm_db_new_id [simp]: "calm_db new_id"
  by (simp add: calm_db_def new_id_def quiet_def andthen_def reads_def modify_def ret_def)

lemma calm_db_basic [simp]: "calm_db (ret x)" "calm_db (raise e)" "calm_db (reads f)" "calm_db (require b e)"
    "calm_db (from_some e v)" "calm_db (from_sum v')"
  by (auto simp: calm_db_def ret_def raise_def reads_def require_def from_some_def from_sum_def split: option.splits sum.splits)

lemma calm_db_append_event [simp]: "calm_db (append_event x now dr)"
  unfolding calm_db_def by (metis append_event_business less_imp_le prod.collapse quiet_business)

lemma calm_db_write_audit [simp]: "calm_db (write_audit now dr)"
  unfolding calm_db_def by (metis write_audit_business less_imp_le prod.collapse quiet_business)

lemma calm_db_access [simp]: "calm_db (require_workspace_access p wid b)" "calm_db (require_thread_access p tid b)"
    "calm_db (require_run_access p rid b)" "calm_db (effective_turns n p lineage t)"
  by (rule calm_db_reading, metis require_workspace_access_unchanged prod.collapse,
      rule calm_db_reading, rule require_thread_access_state, rule calm_db_reading, rule require_run_access_state,
      rule calm_db_reading, rule effective_turns_state)

lemma calm_db_run_content: "quiet_guard e \<Longrightarrow> calm_db (require_run_access_content (te_publication e) p rid b corp)"
  unfolding require_run_access_content_def
  by (intro calm_db_andthen) (simp_all add: quiet_guard_def)

lemma calm_db_runs [simp]: "calm_db (put_run r)" "calm_db (cancel_active_run_steps org rid t)"
  by (auto simp: put_run_def cancel_active_run_steps_def quiet_def intro!: calm_db_andthen)

lemmas calm_intros = calm_andthen calm_if calm_option calm_db_andthen

lemma calm_records [simp]: "calm (thread_event e now p a nm ty i c pl)" "calm (run_record e now p a ai nm rid pl)"
    "calm (thread_audit now p a c ac ty i oc md)" "calm (archive_records e clk p tid c md)"
  by (simp_all add: thread_event_def run_record_def thread_audit_def archive_records_def calm_andthen calm_db_andthen)

lemma calm_thread_turns [simp]: "calm (thread_turns p t)"
  by (simp add: thread_turns_def)

lemma calm_insert_run [simp]: "calm (insert_run r)"
  by (simp add: insert_run_def quiet_def)

lemma calm_pins [simp]: "calm (resolve_prompt_pins org names)"
  by (induction names) (auto intro!: calm_andthen)

lemma calm_attachments: "quiet_guard e \<Longrightarrow> calm (validate_attachments e p wid refs)"
  by (induction refs) (auto intro!: calm_andthen calm_option calm_thread_db calm_db_run_content)

lemma calm_permitted: "quiet_guard e \<Longrightarrow> calm (permitted_turns e p items)"
  by (induction items) (auto intro!: calm_andthen calm_option simp: quiet_guard_def)

lemma calm_add_snapshots: "calm (add_snapshots e org rid at n items)"
  by (induction items arbitrary: n) (auto intro!: calm_andthen simp: Let_def)

lemma calm_capture: "quiet_guard e \<Longrightarrow> calm (capture_conversation e p run turn thread prior)"
  unfolding capture_conversation_def by (auto intro!: calm_andthen calm_permitted calm_add_snapshots)

lemma calm_prepare: "calm (prepare_turn e p thread r)"
proof -
  have "calm (agent_spec_from_dict source spec)" for source spec
    using keeps_agent_spec [of "tw_db :: thread_world \<Rightarrow> db" source spec] by (simp add: calm_def keeps_def)
  then show ?thesis unfolding prepare_turn_def Let_def by (auto intro!: calm_andthen)
qed

lemma calm_requests:
  "calm (create_workspace e clk p cw)" "calm (add_member e clk p wid uid ps)" "calm (remove_member e clk p wid uid)"
  "calm (cancel_run e clk p rid)"
  unfolding create_workspace_def add_member_def remove_member_def cancel_run_def may_manage_members_def Let_def
  by (auto intro!: calm_andthen simp: quiet_def split: option.splits)

lemma calm_replay: "quiet_guard e \<Longrightarrow> calm (replay_run e clk p rid)"
  unfolding replay_run_def Let_def by (auto intro!: calm_andthen calm_thread_db calm_db_run_content)

section \<open>What the operations do\<close>

lemma returns_calm:
  "calm m \<Longrightarrow> (\<And>x w'. m w = (Inr x, w') \<Longrightarrow> quiet (tw_db w) (tw_db w') \<Longrightarrow> Q x w') \<Longrightarrow> returns m Q w"
  unfolding returns_def using calmD by blast

lemma returns_after: "calm m \<Longrightarrow>
    (\<And>x w'. m w = (Inr x, w') \<Longrightarrow> quiet (tw_db w) (tw_db w') \<Longrightarrow> returns (k x) Q w') \<Longrightarrow> returns (andthen m k) Q w"
  by (rule returns_andthen) (rule returns_calm)

section \<open>Creating and forking threads\<close>

lemma insert_thread_iff:
  "insert_thread t w = (Inr u, w') \<longleftrightarrow>
     length (thread_title t) \<le> 300 \<and> w' = w\<lparr>tw_db := (tw_db w)\<lparr>t_threads := t_threads (tw_db w) @ [t]\<rparr>\<rparr>"
  by (auto simp: insert_thread_def andthen_Inr thread_db_iff)

lemma returns_insert_thread:
  "Q () (w\<lparr>tw_db := (tw_db w)\<lparr>t_threads := t_threads (tw_db w) @ [t]\<rparr>\<rparr>) \<Longrightarrow> returns (insert_thread t) Q w"
  by (simp add: returns_def insert_thread_iff)

lemma returns_thread_new_id:
  "(\<And>w'. w' = w\<lparr>tw_db := (tw_db w)\<lparr>next_id := next_id (tw_db w) + 1\<rparr>\<rparr> \<Longrightarrow> Q (next_id (tw_db w)) w')
     \<Longrightarrow> returns (thread_db new_id) Q w"
  by (simp add: returns_def thread_db_iff)

lemma returns_thread_access:
  assumes "\<And>t. t \<in> set (t_threads (tw_db w)) \<Longrightarrow> thread_id t = tid \<Longrightarrow> thread_organization_id t = p_organization_id p
    \<Longrightarrow> Q t w"
  shows "returns (thread_db (require_thread_access p tid b)) Q w"
  unfolding returns_def thread_db_iff
proof (intro allI impI, elim exE conjE)
  fix t w' d assume acc: "require_thread_access p tid b (tw_db w) = (Inr t, d)" and w': "w' = w\<lparr>tw_db := d\<rparr>"
  have "t \<in> set (t_threads (tw_db w))" "thread_id t = tid" "thread_organization_id t = p_organization_id p"
    using acc find_SomeD by (fastforce simp: require_thread_access_def andthen_Inr)+
  moreover have "d = tw_db w" using acc require_thread_access_state by (metis snd_conv)
  ultimately show "Q t w'" using assms w' by simp
qed

lemma create_thread_step:
  "returns (create_thread e clk p wid title actor)
     (\<lambda>t w'. adds_thread t (tw_db w) (tw_db w') \<and> thread_parent_thread_id t = None
        \<and> thread_organization_id t = p_organization_id p) w"
  unfolding create_thread_def Let_def
proof (rule returns_after, simp, rule returns_andthen, rule returns_thread_new_id, rule returns_andthen,
    rule returns_insert_thread, (rule returns_after, simp)+, rule returns_ret, goal_cases)
  case (1 ws w1 w2 c w3 x4 w4 x5 w5)
  then show ?case by (auto simp: adds_thread_def well_forked_def quiet_def new_thread_def)
qed

text \<open>Changing a row, but not its place in the lineage.\<close>

lemma replace_core:
  assumes "\<And>x. x \<in> set ts \<Longrightarrow> thread_id x = thread_id t' \<Longrightarrow> thread_core x = thread_core t'"
  shows "map thread_core (replace_row thread_id t' ts) = map thread_core ts"
  using assms by (auto simp: replace_row_def)

lemma replace_core_own:
  assumes "thread_ids_distinct d" and "t \<in> set (t_threads d)" and "thread_core t' = thread_core t"
  shows "map thread_core (replace_row thread_id t' (t_threads d)) = map thread_core (t_threads d)"
proof (rule replace_core)
  fix x assume x: "x \<in> set (t_threads d)" "thread_id x = thread_id t'"
  then have "x = t" using distinct_map_eq [of thread_id "t_threads d" x t] assms core_ids [OF assms(3)]
    by (simp add: thread_ids_distinct_def)
  then show "thread_core x = thread_core t'" using assms(3) by simp
qed

lemma returns_put_thread:
  "Q () (w\<lparr>tw_db := (tw_db w)\<lparr>t_threads := replace_row thread_id t (t_threads (tw_db w))\<rparr>\<rparr>) \<Longrightarrow> returns (put_thread t) Q w"
  by (simp add: put_thread_def returns_def thread_db_iff)

lemma quiet_distinct: "quiet d d' \<Longrightarrow> thread_ids_distinct d \<Longrightarrow> thread_ids_distinct d'"
  by (simp add: quiet_def thread_ids_distinct_def)

lemma put_thread_step:
  assumes "thread_ids_distinct d" and "t \<in> set (t_threads d)" and "thread_core t' = thread_core t"
    and "quiet (d\<lparr>t_threads := replace_row thread_id t' (t_threads d)\<rparr>) d'"
  shows "talk_step d d'"
  using replace_core_own [OF assms(1-3)] assms(4) by (simp add: talk_step_def same_lineage_def quiet_def)

lemma archive_thread_step:
  assumes "thread_ids_distinct (tw_db w)"
  shows "returns (archive_thread e clk p tid) (\<lambda>_ w'. talk_step (tw_db w) (tw_db w')) w"
  unfolding archive_thread_def Let_def
proof (rule returns_andthen, rule returns_thread_access, rule returns_if, rule returns_ret, goal_cases)
  case (2 t)
  show ?case
  proof (rule returns_after, simp, rule returns_after, simp, rule returns_andthen, rule returns_put_thread,
      (rule returns_after, simp)+, rule returns_ret, goal_cases)
    case (1 b w1 u w2 c w3 u' w4)
    have q: "quiet (tw_db w) (tw_db w2)" using 1 quiet_trans by blast
    have t: "t \<in> set (t_threads (tw_db w2))" using q 2(1) by (simp add: quiet_def)
    have q2: "quiet ((tw_db w2)\<lparr>t_threads := replace_row thread_id
        (t\<lparr>thread_status_of := Thread_ARCHIVED, thread_archived_at := Some (clk 0)\<rparr>) (t_threads (tw_db w2))\<rparr>) (tw_db w4)"
      using 1(6,8) quiet_trans by simp
    have "talk_step (tw_db w2) (tw_db w4)"
      by (rule put_thread_step [OF quiet_distinct [OF q assms] t _ q2]) (simp add: thread_core_def)
    then show ?case by (rule quiet_talk_step [OF q quiet_refl])
  qed
qed (simp add: quiet_talk)

lemma resume_thread_step:
  assumes "thread_ids_distinct (tw_db w)"
  shows "returns (resume_thread e clk p tid) (\<lambda>_ w'. talk_step (tw_db w) (tw_db w')) w"
  unfolding resume_thread_def Let_def
proof (rule returns_andthen, rule returns_thread_access, rule returns_if, rule returns_ret, goal_cases)
  case (2 t)
  show ?case
  proof (rule returns_andthen, rule returns_put_thread, (rule returns_after, simp)+, rule returns_ret, goal_cases)
    case (1 c w1 u w2 u' w3)
    have q: "quiet ((tw_db w)\<lparr>t_threads := replace_row thread_id
        (t\<lparr>thread_status_of := Thread_ACTIVE, thread_archived_at := None\<rparr>) (t_threads (tw_db w))\<rparr>) (tw_db w3)"
      using 1(2,4,6) quiet_trans by simp
    show ?case by (rule put_thread_step [OF assms 2(1) _ q]) (simp add: thread_core_def)
  qed
qed (simp add: quiet_talk)

lemma returns_thread_turns:
  assumes "thread_ids_distinct (tw_db w)"
    and "\<And>ts. history max_lineage_depth (p_organization_id p) (tw_db w) t = Some ts \<Longrightarrow> Q ts w"
  shows "returns (thread_turns p t) Q w"
  using assms effective_turns_history by (fastforce simp: returns_def thread_turns_def thread_db_iff)

text \<open>A fork makes a thread below the history of its parent.\<close>

lemma fork_thread_step:
  assumes inv: "threads_inv (tw_db w)"
  shows "returns (fork_thread e clk p tid i title)
     (\<lambda>t w'. adds_thread t (tw_db w) (tw_db w') \<and> thread_parent_thread_id t = Some tid
        \<and> thread_organization_id t = p_organization_id p) w"
proof -
  have dist: "thread_ids_distinct (tw_db w)" using inv by (simp add: threads_inv_def)
  show ?thesis
    unfolding fork_thread_def Let_def
  proof (rule returns_andthen, rule returns_thread_access, rule returns_andthen, rule returns_thread_turns [OF dist],
      goal_cases)
    case (1 parent ts)
    define fork_turn where "fork_turn = (case i of Some j \<Rightarrow> Some j
      | None \<Rightarrow> if ts = [] then None else Some (turn_id (last ts)))"
    have found: "find_thread (p_organization_id p) tid (tw_db w) = Some parent" using 1 dist by (simp add: find_thread_iff)
    have parent: "parent \<in> set (t_threads (tw_db w))" "thread_id parent = tid" using 1 by simp_all
    have old: "thread_id parent < next_id (tw_db w)" using parent(1) inv by (simp add: threads_inv_def)
    have hist: "history max_lineage_depth (p_organization_id p) (tw_db w) parent = Some ts" using 1 by simp
    show ?case
      unfolding fork_turn_def [symmetric]
    proof (rule returns_andthen, rule returns_conseq [where P = "\<lambda>_ w'. w' = w
          \<and> (\<forall>j. fork_turn = Some j \<longrightarrow> j \<in> set (map turn_id ts))"], goal_cases)
      case 1
      show ?case by (cases fork_turn) (auto simp: returns_def)
    next
      case (2 u w1)
      then have w1: "w1 = w" and at: "\<And>j. fork_turn = Some j \<Longrightarrow> up_to j ts \<noteq> None" using up_to_in by auto
      show ?case
        unfolding w1
      proof (rule returns_andthen, rule returns_thread_new_id, rule returns_andthen, rule returns_insert_thread,
          rule returns_after, simp, rule returns_andthen,
          rule returns_conseq [where P = "\<lambda>_ w5. t_turns (tw_db w5) = t_turns (tw_db w)
            \<and> next_id (tw_db w) < next_id (tw_db w5)
            \<and> map thread_core (t_threads (tw_db w5)) = map thread_core (t_threads (tw_db w))
                @ [thread_core (new_thread (next_id (tw_db w)) p (thread_workspace_id parent)
                     (case title of None \<Rightarrow> thread_title parent @ '' (fork)''
                      | Some s \<Rightarrow> if s = [] then thread_title parent @ '' (fork)'' else s)
                     (Some (thread_id parent)) fork_turn)]"], goal_cases)
        case (1 w2 c w3)
        have threads: "t_threads (tw_db w3) = t_threads (tw_db w2) @ [new_thread (next_id (tw_db w)) p
            (thread_workspace_id parent) (case title of None \<Rightarrow> thread_title parent @ '' (fork)''
                      | Some s \<Rightarrow> if s = [] then thread_title parent @ '' (fork)'' else s)
            (Some (thread_id parent)) fork_turn]" using 1 by (simp add: quiet_def)
        have w2: "t_threads (tw_db w2) = t_threads (tw_db w)" "t_turns (tw_db w2) = t_turns (tw_db w)"
            "next_id (tw_db w) < next_id (tw_db w2)" using 1(1) by simp_all
        have q3: "t_turns (tw_db w3) = t_turns (tw_db w2)" "next_id (tw_db w2) \<le> next_id (tw_db w3)"
          using 1(3) by (simp_all add: quiet_def)
        show ?case
        proof (rule returns_if, goal_cases)
          case 1
          show ?case
          proof (rule returns_andthen, rule returns_put_thread, rule returns_calm, simp, goal_cases)
            case (1 x w4)
            have "thread_core y = thread_core (parent\<lparr>thread_status_of := Thread_ARCHIVED, thread_archived_at := Some (clk 0)\<rparr>)"
              if y: "y \<in> set (t_threads (tw_db w3))" "thread_id y = thread_id parent" for y
            proof -
              have id: "thread_id (new_thread j p wid ttl q i) = j" for j wid ttl q i by (simp add: new_thread_def)
              have "y \<in> set (t_threads (tw_db w)) \<or> thread_id y = next_id (tw_db w)"
                using y(1) unfolding threads w2(1) by (auto simp: id)
              then have "y \<in> set (t_threads (tw_db w))" using y(2) old by simp
              then have "y = parent"
                using y(2) parent distinct_map_eq [of thread_id "t_threads (tw_db w)" y parent] dist
                by (simp add: thread_ids_distinct_def)
              then show ?thesis by (simp add: thread_core_def)
            qed
            then have core: "map thread_core (replace_row thread_id
                (parent\<lparr>thread_status_of := Thread_ARCHIVED, thread_archived_at := Some (clk 0)\<rparr>) (t_threads (tw_db w3)))
                = map thread_core (t_threads (tw_db w3))" by (intro replace_core) simp
            have q4: "t_threads (tw_db w4) = replace_row thread_id
                (parent\<lparr>thread_status_of := Thread_ARCHIVED, thread_archived_at := Some (clk 0)\<rparr>) (t_threads (tw_db w3))"
              "t_turns (tw_db w4) = t_turns (tw_db w3)" "next_id (tw_db w3) \<le> next_id (tw_db w4)"
              using 1(2) by (simp_all add: quiet_def)
            show ?case unfolding q4(1) core unfolding q4(2) threads w2(1) using q4(3) q3 w2 by simp
          qed
        qed (rule returns_ret, use threads w2 q3 in simp)
      next
        case (2 w2 c w3 x w4)
        show ?case
        proof ((rule returns_after, simp)+, rule returns_ret, goal_cases)
          case (1 x w5 y w6)
          have "inherited_turns t ts \<noteq> None" if "thread_forked_from_turn_id t = fork_turn" for t
            using at that by (cases fork_turn) (auto simp: inherited_turns_def)
          then have "well_forked (tw_db w) (new_thread (next_id (tw_db w)) p (thread_workspace_id parent) ttl (Some tid) fork_turn)"
            for ttl using found hist by (simp add: well_forked_def new_thread_def)
          then show ?case using 1 2(4) parent(2) by (auto simp: adds_thread_def quiet_def) (auto simp: new_thread_def)
        qed
      qed
    qed
  qed
qed

section \<open>Creating a turn\<close>

lemma tw_db_set: "tw_db (w\<lparr>tw_db := d\<rparr>) = d"
  by simp

lemma returns_insert_turn:
  "Q () (w\<lparr>tw_db := (tw_db w)\<lparr>t_turns := t_turns (tw_db w) @ [u]\<rparr>\<rparr>) \<Longrightarrow> returns (insert_turn u) Q w"
  by (auto simp: insert_turn_def returns_def andthen_Inr thread_db_iff)

lemma create_turn_step:
  assumes dist: "thread_ids_distinct (tw_db w)" and guard: "quiet_guard e"
  shows "returns (create_turn e clk p tid r actor)
     (\<lambda>(u, run) w'. adds_turn u (tw_db w) (tw_db w') \<and> turn_thread_id u = tid
        \<and> turn_organization_id u = p_organization_id p) w"
  unfolding create_turn_def Let_def
proof (rule returns_andthen, rule returns_thread_access, rule returns_andthen, rule returns_require, rule returns_andthen,
    rule returns_thread_turns [OF dist], goal_cases)
  case (1 t ts)
  have found: "find_thread (p_organization_id p) tid (tw_db w) = Some t" using 1 dist by (simp add: find_thread_iff)
  show ?case
  proof (rule returns_after, rule calm_prepare, rule returns_after, rule calm_attachments [OF guard], rule returns_after, simp,
      rule returns_andthen, rule returns_insert_turn, rule returns_after, simp, rule returns_after, simp,
      rule returns_after, rule calm_capture [OF guard], (rule returns_after, simp)+, rule returns_ret, goal_cases)
    case (1 s0 w1 a0 w2 i w3 j w4 x w5 sn w6 y w7 z w8)
    then have q: "quiet (tw_db w) (tw_db w3)" using quiet_trans by blast
    have after: "quiet ((tw_db w3)\<lparr>t_turns := t_turns (tw_db w3) @ [u]\<rparr>) (tw_db w8) \<Longrightarrow>
        turn_thread_id u = tid \<Longrightarrow> turn_organization_id u = p_organization_id p \<Longrightarrow> turn_ordinal u = next_ordinal ts \<Longrightarrow>
        adds_turn u (tw_db w) (tw_db w8)" for u
      using q found \<open>history max_lineage_depth _ _ _ = _\<close> by (auto simp: adds_turn_def quiet_def same_lineage_def)
    have tail: "quiet (tw_db w4) (tw_db w8)" using 1 quiet_trans by blast
    have tid: "thread_id t = tid" using \<open>thread_id t = tid\<close> .
    show ?case
      unfolding prod.case
      by (intro conjI, rule after, rule quiet_trans [OF _ tail])
        (use 1(8) tid in \<open>simp_all only: turn_row.simps tw_db_set next_ordinal_def\<close>)
  qed
qed

section \<open>The system\<close>

lemma calm_request_steps: "calm m \<Longrightarrow> talk_step (tw_db w) (tw_db (snd (transaction m w)))"
  using calmD transaction_cases by (metis prod.collapse quiet_talk quiet_refl transaction_Inr)

lemma transaction_step:
  assumes "returns m (\<lambda>x w'. talk_step (tw_db w) (tw_db w')) w"
  shows "talk_step (tw_db w) (tw_db (snd (transaction m w)))"
  using transaction_cases [of m w] assms quiet_talk quiet_refl by (metis returnsD)

lemma returns_ignore: "returns m (\<lambda>_ w'. P w') w \<Longrightarrow> returns (andthen m (\<lambda>_. ret ())) (\<lambda>_ w'. P w') w"
  by (rule returns_andthen) (auto intro: returns_conseq returns_ret)

text \<open>Every request makes one step.\<close>

lemma serve_request_step:
  assumes inv: "threads_inv (tw_db w)" and guard: "quiet_guard e"
  shows "talk_step (tw_db w) (tw_db (snd (serve_request e clk p r w)))"
proof -
  have dist: "thread_ids_distinct (tw_db w)" using inv by (simp add: threads_inv_def)
  note create = returns_conseq [OF create_thread_step, where Q = "\<lambda>_ w'. talk_step (tw_db w) (tw_db w')"]
    and fork = returns_conseq [OF fork_thread_step [OF inv], where Q = "\<lambda>_ w'. talk_step (tw_db w) (tw_db w')"]
    and turn = returns_conseq [OF create_turn_step [OF dist guard], where Q = "\<lambda>_ w'. talk_step (tw_db w) (tw_db w')"]
  show ?thesis
    by (cases r) (simp_all only: serve_request.simps, (rule transaction_step returns_ignore create fork turn
          archive_thread_step [OF dist] resume_thread_step [OF dist] calm_request_steps calm_andthen calm_requests
          calm_replay [OF guard] calm_basic | (force simp: talk_step_def split: prod.splits))+)
qed

end
