(* ===== verification/Conversations.thy ===== *)
theory Conversations
  imports ThreadProperties
begin

text \<open>
  The conversation as a system: \<open>conversation_run\<close> are the sequences of requests of anybody, each
  with the clock and the settings of its moment, interleaved with changes of the store that leave
  threads and turns alone. The properties: what a thread shows only grows, by turns of its own, and
  is numbered from 1; a thread forked off a lineage of the greatest depth can never be used.
\<close>

section \<open>Runs of the system\<close>

inductive conversation_run :: "thread_world \<Rightarrow> thread_world \<Rightarrow> bool" where
  start: "conversation_run w w"
| request: "conversation_run w w1 \<Longrightarrow> quiet_guard e \<Longrightarrow> conversation_run w (snd (serve_request e clk p r w1))"
| elsewhere: "conversation_run w w1 \<Longrightarrow> quiet (tw_db w1) (tw_db w2) \<Longrightarrow> conversation_run w w2"

lemma conversation_run_inv: "conversation_run w w' \<Longrightarrow> threads_inv (tw_db w) \<Longrightarrow> threads_inv (tw_db w')"
  by (induction rule: conversation_run.induct) (blast intro: talk_step_inv serve_request_step quiet_talk)+

lemma history_grows_trans:
  assumes "history_grows org i us d d1" and "history_grows org i vs d1 d2"
  shows "history_grows org i (us @ vs) d d2"
  unfolding history_grows_def
proof (intro allI impI)
  fix t assume "find_thread org i d = Some t"
  then obtain t1 where t1: "find_thread org i d1 = Some t1" "thread_core t1 = thread_core t"
    "\<And>n. history n org d1 t1 = map_option (\<lambda>ts. ts @ us) (history n org d t)"
    using assms(1) unfolding history_grows_def by blast
  then obtain t2 where t2: "find_thread org i d2 = Some t2" "thread_core t2 = thread_core t1"
    "\<And>n. history n org d2 t2 = map_option (\<lambda>ts. ts @ vs) (history n org d1 t1)"
    using assms(2) unfolding history_grows_def by blast
  have "history n org d2 t2 = map_option (\<lambda>ts. ts @ us @ vs) (history n org d t)" for n
    by (simp add: t1(3) t2(3) option.map_comp comp_def)
  then show "\<exists>t'. find_thread org i d2 = Some t' \<and> thread_core t' = thread_core t
      \<and> (\<forall>n. history n org d2 t' = map_option (\<lambda>ts. ts @ us @ vs) (history n org d t))"
    using t1(2) t2(1,2) by auto
qed

lemma history_grows_refl: "history_grows org i [] d d"
  by (simp add: history_grows_def map_option.identity)

lemma conversation_run_history:
  assumes "conversation_run w w'" and "threads_inv (tw_db w)"
  shows "\<exists>us. history_grows org i us (tw_db w) (tw_db w') \<and> (\<forall>u \<in> set us. turn_thread_id u = i)"
  using assms
proof (induction rule: conversation_run.induct)
  case (start w)
  then show ?case using history_grows_refl by (intro exI [of _ "[]"]) simp
next
  case (request w w1 e clk p r)
  then have "threads_inv (tw_db w1)" using conversation_run_inv by blast
  from talk_step_history [OF this serve_request_step [OF this request.hyps(2)]]
  obtain vs where "history_grows org i vs (tw_db w1) (tw_db (snd (serve_request e clk p r w1)))"
    "\<forall>u \<in> set vs. turn_thread_id u = i" by blast
  moreover obtain us where "history_grows org i us (tw_db w) (tw_db w1)" "\<forall>u \<in> set us. turn_thread_id u = i"
    using request.IH [OF request.prems] by blast
  ultimately show ?case using history_grows_trans by (intro exI [of _ "us @ vs"]) auto
next
  case (elsewhere w w1 w2)
  then have "threads_inv (tw_db w1)" using conversation_run_inv by blast
  from talk_step_history [OF this quiet_talk [OF elsewhere.hyps(2)]]
  obtain vs where "history_grows org i vs (tw_db w1) (tw_db w2)" "\<forall>u \<in> set vs. turn_thread_id u = i" by blast
  moreover obtain us where "history_grows org i us (tw_db w) (tw_db w1)" "\<forall>u \<in> set us. turn_thread_id u = i"
    using elsewhere.IH [OF elsewhere.prems] by blast
  ultimately show ?case using history_grows_trans by (intro exI [of _ "us @ vs"]) auto
qed

text \<open>Listing the turns of a thread shows its history.\<close>

lemma list_turns_history:
  assumes "list_turns p i w = (Inr ts, w')" and "threads_inv (tw_db w)"
  obtains t where "find_thread (p_organization_id p) i (tw_db w) = Some t"
    "history max_lineage_depth (p_organization_id p) (tw_db w) t = Some ts"
proof -
  have dist: "thread_ids_distinct (tw_db w)" using assms(2) by (simp add: threads_inv_def)
  obtain t d w1 where acc: "require_thread_access p i False (tw_db w) = (Inr t, d)" "w1 = w\<lparr>tw_db := d\<rparr>"
    and rest: "thread_turns p t w1 = (Inr ts, w')"
    using assms(1) by (auto simp: list_turns_def andthen_Inr thread_db_iff)
  note found = require_thread_access_found [OF acc(1) dist]
  have w1: "tw_db w1 = tw_db w" using acc(2) found by simp
  have "returns (thread_turns p t) (\<lambda>us _. history max_lineage_depth (p_organization_id p) (tw_db w1) t = Some us) w1"
    by (rule returns_thread_turns) (simp_all add: dist w1)
  then have "history max_lineage_depth (p_organization_id p) (tw_db w1) t = Some ts" using returnsD rest by fastforce
  then show thesis using that found w1 by simp
qed

section \<open>The properties\<close>

text \<open>
  C36: What a thread shows is append-only. Whatever requests anybody makes in between, listing a
  thread again gives the turns listed before, in the same order, followed by turns of the thread
  itself: the part inherited from the thread it was forked from never changes, whatever is added to
  that thread later.
\<close>

theorem listed_turns_append_only:
  assumes "threads_inv (tw_db w)" and "conversation_run w w'"
    and "list_turns p i w = (Inr ts, w1)" and "list_turns q i w' = (Inr ts', w2)"
    and "p_organization_id q = p_organization_id p"
  shows "\<exists>us. ts' = ts @ us \<and> (\<forall>u \<in> set us. turn_thread_id u = i)"
proof -
  obtain us where us: "history_grows (p_organization_id p) i us (tw_db w) (tw_db w')" "\<forall>u \<in> set us. turn_thread_id u = i"
    using conversation_run_history [OF assms(2,1)] by blast
  obtain t where t: "find_thread (p_organization_id p) i (tw_db w) = Some t"
    "history max_lineage_depth (p_organization_id p) (tw_db w) t = Some ts"
    using list_turns_history [OF assms(3,1)] .
  obtain t' where t': "find_thread (p_organization_id p) i (tw_db w') = Some t'"
    "history max_lineage_depth (p_organization_id p) (tw_db w') t' = Some ts'"
    using list_turns_history [OF assms(4) conversation_run_inv [OF assms(2,1)]] unfolding assms(5) .
  have "history max_lineage_depth (p_organization_id p) (tw_db w') t' = Some (ts @ us)"
    using us(1) t t'(1) unfolding history_grows_def by fastforce
  then show ?thesis using t'(2) us(2) by auto
qed

text \<open>
  C37: In every reachable store the turns a thread shows are numbered 1, 2, 3, ... without a gap,
  inherited ones included, and the number \<open>create_turn\<close> gives to the next is free: the insert of
  the turn never violates the unique constraint on \<open>(thread_id, ordinal)\<close>.
\<close>

theorem turn_ordinals:
  assumes "t_threads (tw_db w0) = []" and "t_turns (tw_db w0) = []" and "conversation_run w0 w"
    and "list_turns p i w = (Inr ts, w1)"
  shows "map turn_ordinal ts = map int [1..<Suc (length ts)]
    \<and> (turn_thread_id u = i \<longrightarrow> turn_ordinal u = (if ts = [] then 0 else turn_ordinal (last ts)) + 1
         \<longrightarrow> insert_turn u w = (Inr (), w\<lparr>tw_db := (tw_db w)\<lparr>t_turns := t_turns (tw_db w) @ [u]\<rparr>\<rparr>))"
proof -
  have "threads_inv (tw_db w0)" using assms(1,2) by (simp add: threads_inv_def thread_ids_distinct_def)
  then have inv: "threads_inv (tw_db w)" using conversation_run_inv [OF assms(3)] by blast
  then have dist: "thread_ids_distinct (tw_db w)" by (simp add: threads_inv_def)
  obtain t where t: "find_thread (p_organization_id p) i (tw_db w) = Some t"
    "history max_lineage_depth (p_organization_id p) (tw_db w) t = Some ts"
    using list_turns_history [OF assms(4) inv] .
  have c: "counted ts" using threads_invD [OF inv t(1)] history_unique [OF t(2)] by metis
  have ord: "map turn_ordinal ts = map int [1..<Suc (length ts)]"
    using c by (intro nth_equalityI) (simp_all add: counted_def del: upt_Suc)
  have "\<not> (turn_thread_id v = i \<and> turn_ordinal v = next_ordinal ts)" if v: "v \<in> set (t_turns (tw_db w))" for v
  proof
    assume *: "turn_thread_id v = i \<and> turn_ordinal v = next_ordinal ts"
    obtain s where s: "s \<in> set (t_threads (tw_db w))" "thread_id s = i" "thread_organization_id s = turn_organization_id v"
      using v * inv unfolding threads_inv_def by blast
    have ti: "t \<in> set (t_threads (tw_db w))" "thread_id t = i" "thread_organization_id t = p_organization_id p"
      using t(1) dist by (simp_all add: find_thread_iff)
    have "s = t" using distinct_map_eq [of thread_id "t_threads (tw_db w)" s t] s ti dist by (simp add: thread_ids_distinct_def)
    then have "v \<in> set (local_turns (p_organization_id p) (thread_id t) (tw_db w))"
      using v * s ti by (simp add: local_turns_def)
    then have "v \<in> set ts" using history_local [OF t(2)] by auto
    then show False using counted_mem [OF c, of v] counted_next [OF c] * by simp
  qed
  then have "insert_turn u w = (Inr (), w\<lparr>tw_db := (tw_db w)\<lparr>t_turns := t_turns (tw_db w) @ [u]\<rparr>\<rparr>)"
    if "turn_thread_id u = i" "turn_ordinal u = next_ordinal ts"
    using that unfolding insert_turn_def
    by (auto simp: andthen_def reads_def require_def thread_db_def zoom_def modify_def ret_def list_ex_iff)
  then show ?thesis using ord by (simp add: next_ordinal_def)
qed

text \<open>
  C38: A thread forked off a thread whose lineage already has the greatest depth is lost from the
  start: in every later store listing its turns fails, for everybody, and so does every attempt to
  add a turn to it. \<open>fork_thread\<close> does not check the depth: it returns such a thread.
\<close>

theorem deep_fork_is_dead:
  assumes inv: "threads_inv (tw_db w)" and forked: "fork_thread e clk p i from_turn title w = (Inr t, w1)"
    and parent: "find_thread (p_organization_id p) i (tw_db w) = Some parent"
      "history 31 (p_organization_id p) (tw_db w) parent = None"
    and run: "conversation_run w1 w2" and guard: "quiet_guard e'"
  shows "(\<exists>err w3. list_turns q (thread_id t) w2 = (Inl err, w3))
    \<and> (\<exists>err w3. create_turn e' clk' q (thread_id t) r actor w2 = (Inl err, w3))"
proof -
  let ?org = "p_organization_id p"
  have add: "adds_thread t (tw_db w) (tw_db w1)" and t: "thread_parent_thread_id t = Some i" "thread_organization_id t = ?org"
    using returnsD [OF fork_thread_step [OF inv] forked] by simp_all
  have inv1: "threads_inv (tw_db w1)" by (rule threads_inv_thread [OF inv add])
  have inv2: "threads_inv (tw_db w2)" by (rule conversation_run_inv [OF run inv1])
  have dist: "thread_ids_distinct (tw_db w1)" "thread_ids_distinct (tw_db w2)" using inv1 inv2 by (simp_all add: threads_inv_def)
  have cores: "map thread_core (t_threads (tw_db w1)) = map thread_core (t_threads (tw_db w)) @ [thread_core t]"
    and turns: "t_turns (tw_db w1) = t_turns (tw_db w)" using add by (simp_all add: adds_thread_def)
  have "thread_core t \<in> set (map thread_core (t_threads (tw_db w1)))" using cores by simp
  then obtain t1 where row: "t1 \<in> set (t_threads (tw_db w1))" "thread_core t1 = thread_core t" by auto
  then have "thread_id t1 = thread_id t" "thread_organization_id t1 = ?org" "thread_parent_thread_id t1 = Some i"
    using t by (simp_all add: thread_core_def)
  then have t1: "find_thread ?org (thread_id t) (tw_db w1) = Some t1" "thread_parent_thread_id t1 = Some i"
    using row(1) unfolding find_thread_iff [OF dist(1)] by blast+
  obtain parent1 where "find_thread ?org i (tw_db w1) = Some parent1" "history 31 ?org (tw_db w1) parent1 = None"
    using history_grows_same [OF inv cores turns, of ?org i] parent by (auto simp: history_grows_def)
  then have dead_end: "history (Suc 31) ?org (tw_db w1) t1 = None" unfolding history.simps using t1(2) by simp
  have depth: "max_lineage_depth = Suc 31" by (simp add: max_lineage_depth_def)
  have none: "history max_lineage_depth ?org (tw_db w1) t1 = None" unfolding depth by (rule dead_end)
  obtain us where "history_grows ?org (thread_id t) us (tw_db w1) (tw_db w2)" using conversation_run_history [OF run inv1] by blast
  then obtain t2 where t2: "find_thread ?org (thread_id t) (tw_db w2) = Some t2"
    "history max_lineage_depth ?org (tw_db w2) t2 = None" using t1(1) none by (auto simp: history_grows_def)
  have dead: "\<not> (find_thread org (thread_id t) (tw_db w2) = Some s \<and> history max_lineage_depth org (tw_db w2) s = Some ts)"
    for org s ts
  proof
    assume s: "find_thread org (thread_id t) (tw_db w2) = Some s \<and> history max_lineage_depth org (tw_db w2) s = Some ts"
    then have "s = t2" using t2(1) dist(2) distinct_map_eq [of thread_id "t_threads (tw_db w2)" s t2]
      by (simp add: find_thread_iff thread_ids_distinct_def)
    then have "org = ?org" using s t2(1) dist(2) by (simp add: find_thread_iff)
    then show False using s t2 by simp
  qed
  have "\<nexists>ts w3. list_turns q (thread_id t) w2 = (Inr ts, w3)" using dead list_turns_history [OF _ inv2] by metis
  moreover have "\<nexists>u w3. create_turn e' clk' q (thread_id t) r actor w2 = (Inr u, w3)"
  proof
    assume "\<exists>u w3. create_turn e' clk' q (thread_id t) r actor w2 = (Inr u, w3)"
    then obtain u rn w3 where "create_turn e' clk' q (thread_id t) r actor w2 = (Inr (u, rn), w3)" by force
    from returnsD [OF create_turn_step [OF dist(2) guard] this] have "adds_turn u (tw_db w2) (tw_db w3)" "turn_thread_id u = thread_id t"
      by simp_all
    then show False using dead unfolding adds_turn_def by metis
  qed
  ultimately show ?thesis by (metis Inl_Inr_False old.sum.exhaust surj_pair)
qed

section \<open>A deep lineage\<close>

text \<open>A store with 32 threads, each forked off the one before it, and settings that accept the events.\<close>

definition talk_env :: thread_env where
  "talk_env = \<lparr>te_ext = open_ext [''thread.created'', ''thread.archived'', ''thread.forked''] [],
     te_publication = (\<lambda>_. ret True), te_text_sha256 = (\<lambda>s. s), te_run_timeout_seconds = 60, te_run_max_steps = 10,
     te_run_max_input_tokens = 100, te_run_max_output_tokens = 100, te_run_max_cost_amount = 1,
     te_context_max_turns = 2, te_context_max_chars = 10, te_context_max_chars_per_message = 4\<rparr>"

definition chain_thread :: "int \<Rightarrow> thread_row" where
  "chain_thread k = \<lparr>thread_id = k, thread_organization_id = 1, thread_workspace_id = 5, thread_status_of = Thread_ACTIVE,
     thread_created_by = 7, thread_title = ''t'', thread_parent_thread_id = (if k = 1 then None else Some (k - 1)),
     thread_forked_from_turn_id = None, thread_archived_at = None\<rparr>"

definition chain_world :: thread_world where
  "chain_world = \<lparr>tw_db = empty_db\<lparr>t_workspaces := [sample_workspace 5 1 7], t_threads := map chain_thread [1..32]\<rparr>,
     tw_artifacts = [], tw_agents = [], tw_agent_versions = [], tw_profiles = [], tw_prompts = [],
     tw_prompt_versions = [], tw_snapshots = []\<rparr>"

lemma talk_guard [simp]: "quiet_guard talk_env"
  by (simp add: quiet_guard_def talk_env_def)

lemma chain_distinct: "thread_ids_distinct (tw_db chain_world)"
proof -
  have "map thread_id (map chain_thread ks) = ks" for ks by (induction ks) (simp_all add: chain_thread_def)
  then show ?thesis by (simp add: thread_ids_distinct_def chain_world_def)
qed

lemma chain_thread_fields [simp]: "thread_id (chain_thread k) = k" "thread_organization_id (chain_thread k) = 1"
  "thread_workspace_id (chain_thread k) = 5" "thread_forked_from_turn_id (chain_thread k) = None"
  "thread_parent_thread_id (chain_thread k) = (if k = 1 then None else Some (k - 1))"
  by (simp_all add: chain_thread_def)

lemma chain_find: "1 \<le> k \<Longrightarrow> k \<le> 32 \<Longrightarrow> find_thread 1 k (tw_db chain_world) = Some (chain_thread k)"
  using chain_distinct by (simp add: find_thread_iff chain_world_def)

lemma chain_access:
  assumes "1 \<le> k" and "k \<le> 32"
  shows "require_thread_access (sample_principal 7 []) k b (tw_db chain_world) = (Inr (chain_thread k), tw_db chain_world)"
proof -
  let ?d = "tw_db chain_world"
  let ?P = "\<lambda>t. \<exists>ws \<in> set (t_workspaces ?d). ws_id ws = thread_workspace_id t \<and> ws_organization_id ws = 1
      \<and> workspace_access_clause (sample_principal 7 []) b ?d ws"
  have "?P t" if "t \<in> set (t_threads ?d)" for t
    using that by (auto simp: chain_world_def empty_db_def sample_workspace_def workspace_access_clause_def sample_principal_def can_def)
  then have "find (\<lambda>t. thread_id t = k \<and> thread_organization_id t = 1 \<and> ?P t) (t_threads ?d) = find_thread 1 k ?d"
    unfolding find_thread_def by (intro find_cong) auto
  then show ?thesis
    using chain_find [OF assms] by (simp add: require_thread_access_def op_simps from_some_def sample_principal_def)
qed

lemma chain_history:
  "1 \<le> k \<Longrightarrow> k \<le> 32 \<Longrightarrow> history n 1 (tw_db chain_world) (chain_thread k) = (if k \<le> int n then Some [] else None)"
proof (induction n arbitrary: k)
  case (Suc n)
  have own: "local_turns 1 k (tw_db chain_world) = []" for k by (simp add: local_turns_def chain_world_def empty_db_def)
  show ?case
  proof (cases "k = 1")
    case False
    then show ?thesis using Suc.IH [of "k - 1"] Suc.prems chain_find [of "k - 1"] own by (auto simp: inherited_turns_def)
  qed (use own in simp)
qed simp

lemma chain_turns:
  "1 \<le> k \<Longrightarrow> k \<le> 32 \<Longrightarrow> k \<le> int n \<Longrightarrow> \<forall>j \<in> set lineage. k < j \<Longrightarrow>
     effective_turns n (sample_principal 7 []) lineage (chain_thread k) (tw_db chain_world) = (Inr [], tw_db chain_world)"
proof (induction n arbitrary: k lineage)
  case (Suc n)
  have own: "local_turns 1 k (tw_db chain_world) = []" for k by (simp add: local_turns_def chain_world_def empty_db_def)
  have new: "k \<notin> set lineage" using Suc.prems(4) by auto
  show ?case
  proof (cases "k = 1")
    case False
    then have "effective_turns n (sample_principal 7 []) (k # lineage) (chain_thread (k - 1)) (tw_db chain_world) = (Inr [], tw_db chain_world)"
      using Suc.prems by (intro Suc.IH) auto
    then show ?thesis using chain_access [of "k - 1" False] False Suc.prems new own
      by (simp add: op_simps inherited_turns_def from_some_def sample_principal_def)
  qed (use new own in \<open>simp add: op_simps sample_principal_def\<close>)
qed simp

lemma chain_inv: "threads_inv (tw_db chain_world)"
  unfolding threads_inv_def
proof (intro conjI ballI)
  fix t assume "t \<in> set (t_threads (tw_db chain_world))"
  then obtain k where k: "t = chain_thread k" "1 \<le> k" "k \<le> 32" by (auto simp: chain_world_def)
  then show "thread_id t < next_id (tw_db chain_world)" by (simp add: chain_world_def empty_db_def)
  have "history 32 1 (tw_db chain_world) (chain_thread k) = Some []" using chain_history [OF k(2,3), of 32] k(3) by simp
  then show "\<exists>n ts. history n (thread_organization_id t) (tw_db chain_world) t = Some ts \<and> counted ts"
    using k(1) counted_Nil by (metis chain_thread_fields(2))
qed (simp_all add: chain_distinct, simp add: chain_world_def empty_db_def)

section \<open>Returning\<close>

definition heads_of :: "uuid \<Rightarrow> db \<Rightarrow> bool" where
  "heads_of org d \<longleftrightarrow> (\<forall>h \<in> set (t_heads d). ah_organization_id h = org)"

lemma append_heads_of:
  assumes "append_event x now dr d = (v, d')" and "heads_of (ed_organization_id dr) d"
  shows "heads_of (ed_organization_id dr) d'"
  using append_event_heads [OF assms(1)] assms(2) by (auto simp: heads_of_def bump_head_def split: if_splits)

lemma succeeds_thread_event:
  assumes "accepts (te_ext e) names" and "name \<in> set names" and "map_of payload ''error_code'' = None"
    and "heads_of (p_organization_id p) (tw_db w)"
    and "\<And>d. business d = business (tw_db w) \<Longrightarrow> heads_of (p_organization_id p) d \<Longrightarrow> Q () (w\<lparr>tw_db := d\<rparr>)"
  shows "succeeds (thread_event e now p a name ty i c payload) Q w"
proof -
  let ?dr = "EventDraft name ty i (p_organization_id p) c a (Some (p_id p)) payload"
  have "\<exists>ev d. append_event (te_ext e) now ?dr (tw_db w) = (Inr ev, d)"
    using assms(1-4) by (intro append_event_accepted [where names = names]) (auto simp: EventDraft_def heads_of_def dest!: find_SomeD)
  then obtain ev d where app: "append_event (te_ext e) now ?dr (tw_db w) = (Inr ev, d)" by blast
  have "heads_of (p_organization_id p) d" using append_heads_of [OF app] assms(4) by (simp add: EventDraft_def)
  then show ?thesis
    using assms(5) [of d] append_event_business [OF app] app by (simp add: thread_event_def succeeds_def thread_db_iff andthen_Inr)
qed

lemma succeeds_thread_audit:
  assumes "heads_of (p_organization_id p) (tw_db w)"
    and "\<And>d. business d = business (tw_db w) \<Longrightarrow> heads_of (p_organization_id p) d \<Longrightarrow> Q () (w\<lparr>tw_db := d\<rparr>)"
  shows "succeeds (thread_audit now p a c action ty i oc md) Q w"
proof -
  let ?dr = "AuditDraft (p_organization_id p) c a (Some (p_id p)) action ty (uuid_str i) oc md"
  obtain row d where aud: "write_audit now ?dr (tw_db w) = (Inr row, d)" by (simp add: write_audit_iff)
  then have "heads_of (p_organization_id p) d" using assms(1) by (auto simp: write_audit_iff heads_of_def)
  then show ?thesis
    using assms(2) [of d] write_audit_business [OF aud] aud by (simp add: thread_audit_def succeeds_def thread_db_iff andthen_Inr)
qed

lemma succeeds_thread_new_id:
  "Q (next_id (tw_db w)) (w\<lparr>tw_db := (tw_db w)\<lparr>next_id := next_id (tw_db w) + 1\<rparr>\<rparr>) \<Longrightarrow> succeeds (thread_db new_id) Q w"
  by (simp add: succeeds_def thread_db_iff)

lemma succeeds_thread_db: "succeeds m (\<lambda>x d. Q x (w\<lparr>tw_db := d\<rparr>)) (tw_db w) \<Longrightarrow> succeeds (thread_db m) Q w"
  by (auto simp: succeeds_def thread_db_iff)

lemma succeeds_insert_thread:
  "length (thread_title t) \<le> 300 \<Longrightarrow> Q () (w\<lparr>tw_db := (tw_db w)\<lparr>t_threads := t_threads (tw_db w) @ [t]\<rparr>\<rparr>) \<Longrightarrow>
     succeeds (insert_thread t) Q w"
  by (simp add: succeeds_def insert_thread_iff)

lemma heads_of_tables [simp]: "heads_of org (d\<lparr>next_id := n\<rparr>) = heads_of org d"
  "heads_of org (d\<lparr>t_threads := ts\<rparr>) = heads_of org d"
  by (simp_all add: heads_of_def)

lemma talk_accepts: "accepts (te_ext talk_env) [''thread.created'', ''thread.archived'', ''thread.forked'']"
  by (simp add: accepts_def talk_env_def open_ext_def)

text \<open>Forking the deepest thread of the chain succeeds.\<close>

lemma strip_t: "strip ''t (fork)'' = ''t (fork)''"
  by code_simp

lemma tw_db_same [simp]: "w\<lparr>tw_db := tw_db w\<rparr> = w"
  by (cases w) simp

lemma chain_fork: "\<exists>t w1. fork_thread talk_env (\<lambda>_. 0) (sample_principal 7 []) 32 None None chain_world = (Inr t, w1)"
proof -
  let ?p = "sample_principal 7 []"
  have turns: "effective_turns max_lineage_depth ?p [] (chain_thread 32) (tw_db chain_world) = (Inr [], tw_db chain_world)"
    using chain_turns [of 32 32 "[]"] by (simp add: max_lineage_depth_def)
  have heads: "heads_of (p_organization_id ?p) (tw_db chain_world)" by (simp add: heads_of_def chain_world_def empty_db_def)
  have active: "thread_status_of (chain_thread 32) = Thread_ACTIVE" and title: "thread_title (chain_thread 32) = ''t''"
    by (simp_all add: chain_thread_def)
  have "succeeds (fork_thread talk_env (\<lambda>_. 0) ?p 32 None None) (\<lambda>_ _. True) chain_world"
    unfolding fork_thread_def thread_turns_def Let_def option.case archive_records_def put_thread_def
    apply (rule succeeds_andthen, rule succeeds_thread_db, rule succeeds_step, rule chain_access, simp, simp)
    apply (subst tw_db_same)
    apply (rule succeeds_andthen, rule succeeds_thread_db, rule succeeds_step, rule turns)
    apply (simp only: tw_db_same if_True simp_thms option.case active title)
    apply (rule succeeds_andthen, rule succeeds_ret, rule succeeds_andthen, rule succeeds_thread_new_id, rule succeeds_andthen,
        rule succeeds_insert_thread, simp add: new_thread_def strip_t)
    apply (rule succeeds_andthen, rule succeeds_thread_new_id, rule succeeds_andthen, rule succeeds_andthen, rule succeeds_thread_db,
        rule succeeds_modify, rule succeeds_andthen, rule succeeds_thread_event [OF talk_accepts], simp, simp, simp add: heads)
    apply (rule succeeds_thread_audit, simp, rule succeeds_andthen, rule succeeds_thread_event [OF talk_accepts], simp, simp, simp)
    apply (rule succeeds_andthen, rule succeeds_thread_audit, simp, rule succeeds_ret, simp)
    done
  then show ?thesis by (auto simp: succeeds_def)
qed

section \<open>Witnesses\<close>

text \<open>A store with one thread that has one turn, and one without threads.\<close>

definition told_turn :: turn_row where
  "told_turn = \<lparr>turn_id = 31, turn_organization_id = 1, turn_thread_id = 1, turn_ordinal = 1, turn_created_by = 7,
     turn_input_text = ''hello'', turn_sanitized_input = ''hello'', turn_context_refs = [], turn_attachment_refs = [],
     turn_created_at = 0\<rparr>"

definition told_world :: thread_world where
  "told_world = chain_world\<lparr>tw_db := (tw_db chain_world)\<lparr>t_threads := [chain_thread 1], t_turns := [told_turn]\<rparr>\<rparr>"

definition silent_world :: thread_world where
  "silent_world = chain_world\<lparr>tw_db := (tw_db chain_world)\<lparr>t_threads := []\<rparr>\<rparr>"

lemma told_access: "require_thread_access (sample_principal 7 []) 1 b (tw_db told_world) = (Inr (chain_thread 1), tw_db told_world)"
  by (simp add: told_world_def chain_world_def require_thread_access_def op_simps from_some_def sample_principal_def
      empty_db_def sample_workspace_def workspace_access_clause_def can_def)

lemma told_turns: "list_turns (sample_principal 7 []) 1 told_world = (Inr [told_turn], told_world)"
proof -
  have "local_turns 1 1 (tw_db told_world) = [told_turn]" by (simp add: local_turns_def told_world_def told_turn_def)
  then show ?thesis
    using told_access [of False]
    by (simp add: list_turns_def thread_turns_def thread_db_def zoom_def op_simps max_lineage_depth_def eval_nat_numeral sample_principal_def)
qed

lemma told_inv: "threads_inv (tw_db told_world)"
proof -
  have "history (Suc 0) 1 (tw_db told_world) (chain_thread 1) = Some [told_turn]" "counted [told_turn]"
    by (simp_all add: local_turns_def told_world_def told_turn_def counted_def)
  moreover have "t_threads (tw_db told_world) = [chain_thread 1]" "t_turns (tw_db told_world) = [told_turn]"
    "next_id (tw_db told_world) = 100" by (simp_all add: told_world_def chain_world_def empty_db_def)
  moreover have "turn_thread_id told_turn = 1" "turn_organization_id told_turn = 1" by (simp_all add: told_turn_def)
  ultimately show ?thesis unfolding threads_inv_def thread_ids_distinct_def by (simp del: history.simps) blast
qed

theorem deep_fork_is_dead_witness:
  "\<exists>t w1 err w2. fork_thread talk_env (\<lambda>_. 0) (sample_principal 7 []) 32 None None chain_world = (Inr t, w1)
     \<and> list_turns (sample_principal 7 []) (thread_id t) w1 = (Inl err, w2)"
proof -
  obtain t w1 where t: "fork_thread talk_env (\<lambda>_. 0) (sample_principal 7 []) 32 None None chain_world = (Inr t, w1)"
    using chain_fork by blast
  have "find_thread (p_organization_id (sample_principal 7 [])) 32 (tw_db chain_world) = Some (chain_thread 32)"
    "history 31 (p_organization_id (sample_principal 7 [])) (tw_db chain_world) (chain_thread 32) = None"
    using chain_find [of 32] chain_history [of 32 31] by (simp_all add: sample_principal_def)
  from deep_fork_is_dead [OF chain_inv t this conversation_run.start talk_guard] t show ?thesis by blast
qed

lemma silent_create: "\<exists>t w. create_thread talk_env (\<lambda>_. 0) (sample_principal 7 []) 5 ''t'' Actor_USER silent_world = (Inr t, w)
    \<and> thread_id t = 100 \<and> list_turns (sample_principal 7 []) 100 w = (Inr [], w)"
proof -
  let ?p = "sample_principal 7 []"
  define t where "t = new_thread 100 ?p 5 ''t'' None None"
  have t: "thread_id t = 100" "thread_organization_id t = 1" "thread_workspace_id t = 5" "thread_parent_thread_id t = None"
    "thread_title t = ''t''" by (simp_all add: t_def new_thread_def sample_principal_def) code_simp
  have ws: "require_workspace_access ?p 5 True (tw_db silent_world) = (Inr (sample_workspace 5 1 7), tw_db silent_world)"
    by (simp add: silent_world_def chain_world_def empty_db_def sample_workspace_def workspace_access_clause_def sample_principal_def)
  have id: "next_id (tw_db silent_world) = 100" by (simp add: silent_world_def chain_world_def empty_db_def)
  have heads: "heads_of (p_organization_id ?p) (tw_db silent_world)"
    by (simp add: heads_of_def silent_world_def chain_world_def empty_db_def)
  have "succeeds (create_thread talk_env (\<lambda>_. 0) ?p 5 ''t'' Actor_USER) (\<lambda>s w. s = t \<and>
      business (tw_db w) = business ((tw_db silent_world)\<lparr>t_threads := [t]\<rparr>)) silent_world"
    unfolding create_thread_def Let_def
    apply (rule succeeds_andthen, rule succeeds_thread_db, rule succeeds_step, rule ws)
    apply (subst tw_db_same, rule succeeds_andthen, rule succeeds_thread_new_id)
    apply (simp only: id t_def [symmetric] t)
    apply (rule succeeds_andthen, rule succeeds_insert_thread, simp add: t, rule succeeds_andthen, rule succeeds_thread_new_id)
    apply (rule succeeds_andthen, rule succeeds_thread_event [OF talk_accepts], simp, simp, simp add: heads)
    apply (rule succeeds_andthen, rule succeeds_thread_audit, simp, rule succeeds_ret)
    apply (simp add: silent_world_def business_def)
    done
  then obtain w where w: "create_thread talk_env (\<lambda>_. 0) ?p 5 ''t'' Actor_USER silent_world = (Inr t, w)"
    "business (tw_db w) = business ((tw_db silent_world)\<lparr>t_threads := [t]\<rparr>)" by (auto simp: succeeds_def)
  have tables: "t_threads (tw_db w) = [t]" "t_turns (tw_db w) = []" "t_workspaces (tw_db w) = [sample_workspace 5 1 7]"
    "t_members (tw_db w) = []"
    using business_tables(6,7,11,12) [OF w(2)] by (simp_all add: silent_world_def chain_world_def empty_db_def)
  have "list_turns ?p 100 w = (Inr [], w)"
    using t tables
    by (simp add: list_turns_def thread_turns_def thread_db_def zoom_def op_simps max_lineage_depth_def eval_nat_numeral
        sample_principal_def require_thread_access_def from_some_def sample_workspace_def workspace_access_clause_def can_def local_turns_def)
  then show ?thesis using w(1) t(1) by blast
qed

theorem turn_ordinals_witness:
  "\<exists>w u. list_turns (sample_principal 7 []) 100 w = (Inr [], w) \<and> turn_ordinal u = 1
     \<and> insert_turn u w = (Inr (), w\<lparr>tw_db := (tw_db w)\<lparr>t_turns := t_turns (tw_db w) @ [u]\<rparr>\<rparr>)"
proof -
  obtain t w where w: "create_thread talk_env (\<lambda>_. 0) (sample_principal 7 []) 5 ''t'' Actor_USER silent_world = (Inr t, w)"
    "list_turns (sample_principal 7 []) 100 w = (Inr [], w)" using silent_create by blast
  have "snd (serve_request talk_env (\<lambda>_. 0) (sample_principal 7 []) (CreateThread 5 ''t'' Actor_USER) silent_world) = w"
    using w(1) by (simp add: transaction_def andthen_def ret_def)
  then have run: "conversation_run silent_world w"
    using conversation_run.request [OF conversation_run.start talk_guard] by metis
  have none: "t_threads (tw_db silent_world) = []" "t_turns (tw_db silent_world) = []"
    by (simp_all add: silent_world_def chain_world_def empty_db_def)
  let ?u = "told_turn\<lparr>turn_thread_id := 100\<rparr>"
  have "insert_turn ?u w = (Inr (), w\<lparr>tw_db := (tw_db w)\<lparr>t_turns := t_turns (tw_db w) @ [?u]\<rparr>\<rparr>)"
    using turn_ordinals [OF none run w(2), of ?u] by (simp add: told_turn_def)
  moreover have "turn_ordinal ?u = 1" by (simp add: told_turn_def)
  ultimately show ?thesis using w(2) by blast
qed

end
