(* ===== verification/ConversationCapture.thy ===== *)
theory ConversationCapture
  imports Conversations "HOL-Library.Sublist"
begin

text \<open>
  What a new run is given of the conversation before it: \<open>create_turn\<close> captures the turns the thread
  shows as snapshots stored with the run. The lemmas follow a capture from the candidates over the
  selection under the character limits and the publication guard to the rows, and \<open>create_turn\<close> up to
  its capture; the property puts them together. \<open>answered_world\<close> is a store with a turn that has an
  answer of a higher classification than its workspace.
\<close>

section \<open>The limits\<close>

definition item_length :: "conversation_turn \<Rightarrow> nat" where
  "item_length c = length (ct_user_content c) + (case ct_assistant_content c of None \<Rightarrow> 0 | Some a \<Rightarrow> length a)"

definition text_of :: "string option \<Rightarrow> string" where
  "text_of v = (case v of None \<Rightarrow> [] | Some s \<Rightarrow> s)"

lemma item_length_text: "item_length c = length (ct_user_content c) + length (text_of (ct_assistant_content c))"
  by (simp add: item_length_def text_of_def split: option.splits)

lemma select_bounded_step:
  assumes "n \<noteq> 0"
  obtains user assistant rest where
    "length user \<le> per" "length (text_of assistant) \<le> per" "length user + length (text_of assistant) \<le> n"
    "rest = select_bounded per (n - (length user + length (text_of assistant))) items"
    "select_bounded per n (item # items) = rest
     \<or> select_bounded per n (item # items) = item\<lparr>ct_user_content := user, ct_assistant_content := assistant\<rparr> # rest"
proof -
  define user where "user = take n (take per (ct_user_content item))"
  define n1 where "n1 = n - length user"
  define assistant where "assistant = (case ct_assistant_content item of None \<Rightarrow> None
     | Some a \<Rightarrow> if a \<noteq> [] \<and> n1 > 0 then Some (take n1 (take per a)) else None)"
  have user: "length user \<le> per" "length user \<le> n" by (simp_all add: user_def)
  have assistant: "length (text_of assistant) \<le> per" "length (text_of assistant) \<le> n1"
    by (simp_all add: assistant_def text_of_def min_le_iff_disj split: option.splits)
  have len: "(case assistant of None \<Rightarrow> 0 | Some a \<Rightarrow> length a) = length (text_of assistant)"
    by (simp add: text_of_def split: option.splits)
  show thesis
  proof (rule that [of user assistant])
    show "length user + length (text_of assistant) \<le> n" using user(2) assistant(2) by (simp add: n1_def)
    show "select_bounded per n (item # items) = select_bounded per (n - (length user + length (text_of assistant))) items
     \<or> select_bounded per n (item # items) = item\<lparr>ct_user_content := user, ct_assistant_content := assistant\<rparr>
         # select_bounded per (n - (length user + length (text_of assistant))) items"
      unfolding select_bounded.simps(2) Let_def user_def [symmetric] unfolding n1_def [symmetric]
      unfolding assistant_def [symmetric] len using assms by (simp add: n1_def)
  qed (use user assistant in simp_all)
qed

text \<open>The messages selected are within the limits.\<close>

lemma select_bounded_limits:
  "sum_list (map item_length (select_bounded per n items)) \<le> n
   \<and> length (select_bounded per n items) \<le> length items
   \<and> (\<forall>c \<in> set (select_bounded per n items).
        length (ct_user_content c) \<le> per \<and> length (text_of (ct_assistant_content c)) \<le> per)"
proof (induction items arbitrary: n)
  case (Cons item items)
  show ?case
  proof (cases "n = 0")
    case False
    then obtain user assistant rest where
      len: "length user \<le> per" "length (text_of assistant) \<le> per" "length user + length (text_of assistant) \<le> n"
      and rest: "rest = select_bounded per (n - (length user + length (text_of assistant))) items"
      and eq: "select_bounded per n (item # items) = rest
        \<or> select_bounded per n (item # items) = item\<lparr>ct_user_content := user, ct_assistant_content := assistant\<rparr> # rest"
      by (rule select_bounded_step [of n per items item])
    note IH = Cons.IH [of "n - (length user + length (text_of assistant))", folded rest]
    from eq show ?thesis
    proof
      assume "select_bounded per n (item # items) = rest"
      then show ?thesis using IH by auto
    next
      assume "select_bounded per n (item # items) = item\<lparr>ct_user_content := user, ct_assistant_content := assistant\<rparr> # rest"
      then show ?thesis using IH len by (auto simp: item_length_text)
    qed
  qed simp
qed simp

lemma bounded_turns_limits:
  assumes "items = bounded_turns e candidates"
  shows "sum_list (map item_length items) \<le> te_context_max_chars e" "te_context_max_turns e \<noteq> 0 \<Longrightarrow> length items \<le> te_context_max_turns e"
    "\<And>c. c \<in> set items \<Longrightarrow> length (ct_user_content c) \<le> te_context_max_chars_per_message e
       \<and> length (text_of (ct_assistant_content c)) \<le> te_context_max_chars_per_message e"
proof -
  let ?tail = "latest_turns (te_context_max_turns e) candidates"
  note limits = select_bounded_limits [of "te_context_max_chars_per_message e" "te_context_max_chars e" "rev ?tail"]
  have items: "items = rev (select_bounded (te_context_max_chars_per_message e) (te_context_max_chars e) (rev ?tail))"
    using assms by (simp add: bounded_turns_def)
  have "sum_list (map item_length items) = sum_list (map item_length (rev items))" by (simp add: sum_list_rev rev_map [symmetric])
  then show "sum_list (map item_length items) \<le> te_context_max_chars e" using limits unfolding items by simp
  have "length items \<le> length ?tail" using limits unfolding items by simp
  then show "length items \<le> te_context_max_turns e" if "te_context_max_turns e \<noteq> 0"
    using that by (simp add: latest_turns_def)
  show "length (ct_user_content c) \<le> te_context_max_chars_per_message e
       \<and> length (text_of (ct_assistant_content c)) \<le> te_context_max_chars_per_message e" if "c \<in> set items" for c
    using limits that unfolding items by (auto simp: latest_turns_def dest: in_set_dropD split: if_splits)
qed

text \<open>The guard lets a subsequence of the items through.\<close>

lemma permitted_turns_sub: "permitted_turns e p items w = (Inr sel, w') \<Longrightarrow> subseq sel items"
  by (induction items arbitrary: w sel) (auto simp: andthen_Inr split: if_splits)

lemma subseq_mem: "subseq xs ys \<Longrightarrow> x \<in> set xs \<Longrightarrow> x \<in> set ys"
  by (induction rule: list_emb.induct) auto

lemma subseq_sum: "subseq xs ys \<Longrightarrow> sum_list (map f xs) \<le> sum_list (map f ys :: nat list)"
  by (induction rule: list_emb.induct) auto

definition snapshot_length :: "conversation_snapshot_row \<Rightarrow> nat" where
  "snapshot_length s = length (sn_user_content s) + length (text_of (sn_assistant_content s))"

section \<open>What is given of a turn\<close>

text \<open>
  What a snapshot may show of a turn of the thread: the beginning of what was asked and, of an answer,
  the beginning of the text of a completed run of the same turn, classified as the higher of the
  workspace and the answer.
\<close>

definition answered_by :: "thread_world \<Rightarrow> uuid \<Rightarrow> time \<Rightarrow> uuid \<Rightarrow> run_row \<Rightarrow> artifact_row \<Rightarrow> bool" where
  "answered_by w org captured_at tid r a \<longleftrightarrow>
     r \<in> set (t_runs (tw_db w)) \<and> run_organization_id r = org \<and> run_turn_id r = tid \<and> run_status_of r = Run_COMPLETED
     \<and> (\<exists>t. run_completed_at r = Some t \<and> t \<le> captured_at)
     \<and> a \<in> set (tw_artifacts w) \<and> art_organization_id a = org \<and> art_run_id a = Some (run_id r)
     \<and> art_created_at a \<le> captured_at"

definition higher_of :: "classification \<Rightarrow> classification \<Rightarrow> classification \<Rightarrow> bool" where
  "higher_of c d e \<longleftrightarrow> e \<in> {c, d} \<and> classification_order c \<le> classification_order e
     \<and> classification_order d \<le> classification_order e"

definition item_shows :: "thread_world \<Rightarrow> uuid \<Rightarrow> time \<Rightarrow> classification \<Rightarrow> conversation_turn \<Rightarrow> bool" where
  "item_shows w org captured_at ws_class c \<longleftrightarrow>
     prefix (ct_user_content c) (turn_sanitized_input (ct_turn c))
     \<and> (case ct_source_run_id c of
          None \<Rightarrow> ct_source_artifact_id c = None \<and> ct_assistant_content c = None \<and> ct_classification c = ws_class
        | Some rid \<Rightarrow>
            (\<exists>r a shown. answered_by w org captured_at (turn_id (ct_turn c)) r a \<and> run_id r = rid
               \<and> ct_source_artifact_id c = Some (art_id a) \<and> answer_markdown a = Some shown
               \<and> prefix (text_of (ct_assistant_content c)) (redact_text shown)
               \<and> higher_of ws_class (art_classification a) (ct_classification c)))"

lemma completed_runsD:
  "r \<in> set (completed_runs org turns at d) \<Longrightarrow> r \<in> set (t_runs d) \<and> run_organization_id r = org
     \<and> run_status_of r = Run_COMPLETED \<and> (\<exists>t. run_completed_at r = Some t \<and> t \<le> at)"
  by (auto simp: completed_runs_def split: option.splits)

lemma answer_artifactsD:
  "a \<in> set (answer_artifacts org rids at artifacts) \<Longrightarrow>
     a \<in> set artifacts \<and> art_organization_id a = org \<and> art_created_at a \<le> at"
  by (auto simp: answer_artifacts_def)

lemma higher_of_highest: "higher_of c d (highest_classification c (Some d))"
  by (simp add: higher_of_def highest_classification_def)

lemma candidate_shows:
  assumes "c \<in> set (conversation_candidates org prior at ws_class w)"
  shows "item_shows w org at ws_class c"
proof -
  let ?runs = "completed_runs org prior at (tw_db w)"
  let ?artifacts = "answer_artifacts org (map run_id ?runs) at (tw_artifacts w)"
  obtain u where c: "c = conversation_candidate ?runs ?artifacts ws_class u"
    using assms by (auto simp: conversation_candidates_def Let_def)
  show ?thesis
  proof (cases "find (\<lambda>r. run_turn_id r = turn_id u \<and> answer_by_run ?artifacts (run_id r) \<noteq> None) ?runs")
    case None
    then show ?thesis by (simp add: item_shows_def c conversation_candidate_def highest_classification_def)
  next
    case (Some r)
    from find_SomeD [OF Some] obtain a where r: "r \<in> set ?runs" "run_turn_id r = turn_id u"
      and a: "answer_by_run ?artifacts (run_id r) = Some a" by auto
    then obtain shown where shown: "a \<in> set ?artifacts" "art_run_id a = Some (run_id r)" "answer_markdown a = Some shown"
      using find_SomeD unfolding answer_by_run_def by fastforce
    have "answered_by w org at (turn_id u) r a"
      using completed_runsD [OF r(1)] answer_artifactsD [OF shown(1)] r(2) shown(2) by (simp add: answered_by_def)
    moreover have "ct_turn c = u" "ct_user_content c = turn_sanitized_input u" "ct_source_run_id c = Some (run_id r)"
      "ct_source_artifact_id c = Some (art_id a)" "text_of (ct_assistant_content c) = redact_text shown"
      "ct_classification c = highest_classification ws_class (Some (art_classification a))"
      using Some a shown(3) by (simp_all add: c conversation_candidate_def text_of_def)
    ultimately show ?thesis
      using shown(3) higher_of_highest unfolding item_shows_def by (auto intro!: exI [of _ r] exI [of _ a])
  qed
qed

text \<open>The selection only shortens: the items are turns of the list in their order, their texts cut.\<close>

definition cut_of :: "conversation_turn \<Rightarrow> conversation_turn \<Rightarrow> bool" where
  "cut_of c item \<longleftrightarrow> ct_turn c = ct_turn item \<and> ct_source_run_id c = ct_source_run_id item
     \<and> ct_source_artifact_id c = ct_source_artifact_id item \<and> ct_classification c = ct_classification item
     \<and> prefix (ct_user_content c) (ct_user_content item)
     \<and> prefix (text_of (ct_assistant_content c)) (text_of (ct_assistant_content item))
     \<and> (ct_assistant_content item = None \<longrightarrow> ct_assistant_content c = None)"

lemma item_shows_cut: "cut_of c item \<Longrightarrow> item_shows w org at cls item \<Longrightarrow> item_shows w org at cls c"
  unfolding item_shows_def cut_of_def by (auto split: option.splits intro: prefix_order.trans)

lemma select_bounded_cuts: "list_emb cut_of (select_bounded per n items) items"
proof (induction items arbitrary: n)
  case (Cons item items)
  define user where "user = take n (take per (ct_user_content item))"
  define n1 where "n1 = n - length user"
  define assistant where "assistant = (case ct_assistant_content item of None \<Rightarrow> None
     | Some a \<Rightarrow> if a \<noteq> [] \<and> n1 > 0 then Some (take n1 (take per a)) else None)"
  have "cut_of (item\<lparr>ct_user_content := user, ct_assistant_content := assistant\<rparr>) item"
    by (auto simp: cut_of_def user_def assistant_def text_of_def take_is_prefix intro: prefix_order.trans [OF take_is_prefix]
        split: option.splits)
  moreover have "select_bounded per n (item # items) = [] \<or> (\<exists>m. select_bounded per n (item # items) = select_bounded per m items
      \<or> select_bounded per n (item # items) = item\<lparr>ct_user_content := user, ct_assistant_content := assistant\<rparr> # select_bounded per m items)"
    unfolding select_bounded.simps(2) Let_def user_def [symmetric] unfolding n1_def [symmetric] unfolding assistant_def [symmetric]
    by auto
  ultimately show ?case using Cons.IH by (auto intro: list_emb.intros)
qed simp

lemma list_emb_rev: "list_emb P xs ys \<Longrightarrow> list_emb P (rev xs) (rev ys)"
  by (induction rule: list_emb.induct) (auto intro: list_emb_append_mono list_emb_prefix)

lemma bounded_turns_cuts: "list_emb cut_of (bounded_turns e candidates) (latest_turns (te_context_max_turns e) candidates)"
  unfolding bounded_turns_def using list_emb_rev [OF select_bounded_cuts] by (metis rev_rev_ident)

lemma cuts_turns: "list_emb cut_of xs ys \<Longrightarrow> subseq (map ct_turn xs) (map ct_turn ys)"
  by (induction rule: list_emb.induct) (auto simp: cut_of_def)

lemma cuts_mem: "list_emb cut_of xs ys \<Longrightarrow> x \<in> set xs \<Longrightarrow> \<exists>y \<in> set ys. cut_of x y"
  by (induction rule: list_emb.induct) auto

lemma candidates_turns: "map ct_turn (conversation_candidates org prior at cls w) = prior"
  by (simp add: conversation_candidates_def Let_def comp_def conversation_candidate_def)

lemma latest_turns_suffix: "suffix (latest_turns n xs) xs"
  by (simp add: latest_turns_def suffix_drop)

lemma bounded_turns_shown:
  assumes "items = bounded_turns e (conversation_candidates org prior at cls w)"
  shows "subseq (map ct_turn items) prior" and "c \<in> set items \<Longrightarrow> item_shows w org at cls c"
proof -
  let ?c = "conversation_candidates org prior at cls w"
  note cuts = bounded_turns_cuts [of e ?c, folded assms]
  have sub: "subseq (latest_turns (te_context_max_turns e) ?c) ?c" using latest_turns_suffix by blast
  have "subseq (map ct_turn items) (map ct_turn ?c)" using cuts_turns [OF cuts] subseq_map [OF sub] by (rule subseq_order.trans)
  then show "subseq (map ct_turn items) prior" unfolding candidates_turns .
  assume "c \<in> set items"
  then obtain item where "item \<in> set ?c" "cut_of c item" using cuts_mem [OF cuts] subseq_mem [OF sub] by blast
  then show "item_shows w org at cls c" using candidate_shows item_shows_cut by blast
qed


text \<open>The snapshot read as an item of the turn \<open>u\<close>.\<close>

definition item_of :: "turn_row \<Rightarrow> conversation_snapshot_row \<Rightarrow> conversation_turn" where
  "item_of u s = \<lparr>ct_turn = u, ct_source_run_id = sn_source_run_id s, ct_source_artifact_id = sn_source_artifact_id s,
     ct_user_content = sn_user_content s, ct_assistant_content = sn_assistant_content s,
     ct_classification = sn_classification s\<rparr>"

definition snapshot_of :: "time \<Rightarrow> run_row \<Rightarrow> turn_row \<Rightarrow> conversation_snapshot_row \<Rightarrow> bool" where
  "snapshot_of captured_at run u s \<longleftrightarrow> sn_source_turn_id s = turn_id u \<and> sn_source_thread_id s = turn_thread_id u
     \<and> sn_source_principal_id s = turn_created_by u \<and> sn_run_id s = run_id run \<and> sn_captured_at s = captured_at"

lemma added_snapshots:
  "add_snapshots e org (run_id run) at n items w = (Inr rows, w') \<Longrightarrow>
     map sn_ordinal rows = map (\<lambda>k. n + int k) [0..<length rows] \<and> tw_snapshots w' = tw_snapshots w @ rows
     \<and> list_all2 (\<lambda>c s. snapshot_of at run (ct_turn c) s \<and> item_of (ct_turn c) s = c) items rows"
proof (induction items arbitrary: n w rows)
  case (Cons c items)
  obtain i w1 row rest where row: "thread_db new_id w = (Inr i, w1)"
    "row = \<lparr>sn_id = i, sn_organization_id = org, sn_run_id = run_id run,
                 sn_source_thread_id = turn_thread_id (ct_turn c), sn_source_turn_id = turn_id (ct_turn c),
                 sn_source_run_id = ct_source_run_id c, sn_source_artifact_id = ct_source_artifact_id c,
                 sn_source_principal_id = turn_created_by (ct_turn c), sn_ordinal = n,
                 sn_user_content = ct_user_content c, sn_assistant_content = ct_assistant_content c,
                 sn_content_fingerprint = snapshot_fingerprint e c n,
                 sn_classification = ct_classification c, sn_captured_at = at\<rparr>"
    "add_snapshots e org (run_id run) at (n + 1) items (w1\<lparr>tw_snapshots := tw_snapshots w1 @ [row]\<rparr>) = (Inr rest, w')"
    "rows = row # rest"
    using Cons.prems by (auto simp: andthen_Inr Let_def)
  have "tw_snapshots w1 = tw_snapshots w" using row(1) by (auto simp: thread_db_iff)
  moreover have "map (\<lambda>k. n + int k) [0..<length (row # rest)] = n # map (\<lambda>k. n + 1 + int k) [0..<length rest]"
    by (intro nth_equalityI) (auto simp: nth_Cons' simp del: upt_Suc)
  ultimately show ?case using Cons.IH [OF row(3)] row(2,4) by (simp add: snapshot_of_def item_of_def)
qed simp

text \<open>
  The guard lets a subsequence of the items through, and it was asked about each answer in the store
  the questions before it had left.
\<close>

definition guard_allowed :: "thread_env \<Rightarrow> principal \<Rightarrow> thread_world \<Rightarrow> conversation_turn list \<Rightarrow> uuid \<Rightarrow> uuid \<Rightarrow> bool" where
  "guard_allowed e p w items tid rid \<longleftrightarrow>
     (\<exists>pre c post before w1 d. items = pre @ c # post \<and> turn_id (ct_turn c) = tid \<and> ct_source_run_id c = Some rid
        \<and> permitted_turns e p pre w = (Inr before, w1)
        \<and> te_publication e \<lparr>pc_principal = p, pc_run_id = rid, pc_stage = ''conversation_capture'',
            pc_expected_corp_id = None, pc_link_policy_run = True\<rparr> (tw_db w1) = (Inr True, d))"

lemma permitted_turns_allowed:
  "permitted_turns e p items w = (Inr sel, w') \<Longrightarrow> c \<in> set sel \<Longrightarrow> ct_source_run_id c = Some rid \<Longrightarrow>
     guard_allowed e p w items (turn_id (ct_turn c)) rid"
proof (induction items arbitrary: w sel)
  case (Cons item items)
  obtain ok w1 rest where first: "(case ct_source_run_id item of
        None \<Rightarrow> ret True
      | Some rid \<Rightarrow> thread_db (te_publication e \<lparr>pc_principal = p, pc_run_id = rid, pc_stage = ''conversation_capture'',
          pc_expected_corp_id = None, pc_link_policy_run = True\<rparr>)) w = (Inr ok, w1)"
    and rest: "permitted_turns e p items w1 = (Inr rest, w')" and sel: "sel = (if ok then item # rest else rest)"
    using Cons.prems(1) by (auto simp: andthen_Inr)
  show ?case
  proof (cases "c \<in> set rest")
    case True
    obtain pre c' post before w2 d where *: "items = pre @ c' # post" "turn_id (ct_turn c') = turn_id (ct_turn c)"
      "ct_source_run_id c' = Some rid" "permitted_turns e p pre w1 = (Inr before, w2)"
      "te_publication e \<lparr>pc_principal = p, pc_run_id = rid, pc_stage = ''conversation_capture'',
            pc_expected_corp_id = None, pc_link_policy_run = True\<rparr> (tw_db w2) = (Inr True, d)"
      using Cons.IH [OF rest True Cons.prems(3)] unfolding guard_allowed_def by blast
    have "permitted_turns e p (item # pre) w = (Inr (if ok then item # before else before), w2)"
      using first *(4) by (auto simp: andthen_Inr)
    then show ?thesis unfolding guard_allowed_def using * by (metis append_Cons)
  next
    case False
    then have "ok" "c = item" using sel Cons.prems(2) by (auto split: if_splits)
    then show ?thesis using first Cons.prems(3) unfolding guard_allowed_def
      by (intro exI [of _ "[]"] exI [of _ item] exI [of _ items]) (auto simp: thread_db_iff)
  qed
qed simp

lemma keeps_thread_snapshots [simp]: "keeps tw_snapshots (thread_db m)"
  by (simp add: keeps_def thread_db_def zoom_def split: prod.splits)

lemma keeps_permitted_snapshots: "keeps tw_snapshots (permitted_turns e p items)"
  by (induction items) (auto intro!: keeps_andthen split: option.splits)

lemma item_of_length: "item_length (item_of u s) = snapshot_length s"
  by (simp add: item_length_text item_of_def snapshot_length_def)

lemma list_all2_mem: "list_all2 P xs ys \<Longrightarrow> y \<in> set ys \<Longrightarrow> \<exists>x \<in> set xs. P x y"
  by (induction rule: list_all2_induct) auto

lemma item_of_fields:
  "item_of u s = c \<Longrightarrow> sn_user_content s = ct_user_content c \<and> sn_assistant_content s = ct_assistant_content c
     \<and> sn_source_run_id s = ct_source_run_id c"
  by (auto simp: item_of_def)

text \<open>What a run is given of the turns \<open>prior\<close>, in the store \<open>w\<close>.\<close>

definition conversation_given ::
  "thread_env \<Rightarrow> principal \<Rightarrow> run_row \<Rightarrow> turn_row list \<Rightarrow> time \<Rightarrow> classification \<Rightarrow> thread_world \<Rightarrow> conversation_snapshot_row list \<Rightarrow> bool"
where
  "conversation_given e p run prior captured_at ws_class w rows \<longleftrightarrow>
     length rows \<le> te_context_max_turns e
     \<and> sum_list (map snapshot_length rows) \<le> te_context_max_chars e
     \<and> map sn_ordinal rows = map (\<lambda>k. 1 + int k) [0..<length rows]
     \<and> subseq (map sn_source_turn_id rows) (map turn_id prior)
     \<and> (\<forall>s \<in> set rows. length (sn_user_content s) \<le> te_context_max_chars_per_message e
          \<and> length (text_of (sn_assistant_content s)) \<le> te_context_max_chars_per_message e
          \<and> (\<exists>u \<in> set prior. snapshot_of captured_at run u s
               \<and> item_shows w (p_organization_id p) captured_at ws_class (item_of u s)))"

lemma capture_gives:
  assumes "capture_conversation e p run turn thread prior w = (Inr rows, w')" and some: "1 \<le> te_context_max_turns e"
    and ws: "find (\<lambda>ws. ws_id ws = thread_workspace_id thread \<and> ws_organization_id ws = p_organization_id p)
      (t_workspaces (tw_db w)) = Some ws"
  shows "conversation_given e p run prior (turn_created_at turn) (ws_classification ws) w rows
    \<and> tw_snapshots w' = tw_snapshots w @ rows
    \<and> (\<forall>s \<in> set rows. \<forall>rid. sn_source_run_id s = Some rid \<longrightarrow> guard_allowed e p w
         (bounded_turns e (conversation_candidates (p_organization_id p) prior (turn_created_at turn) (ws_classification ws) w))
         (sn_source_turn_id s) rid)"
proof (cases "prior = []")
  case True
  then show ?thesis using assms by (auto simp: capture_conversation_def conversation_given_def)
next
  case False
  define items where "items = bounded_turns e (conversation_candidates (p_organization_id p) prior (turn_created_at turn) (ws_classification ws) w)"
  obtain sel w1 where sel: "permitted_turns e p items w = (Inr sel, w1)"
    and add: "add_snapshots e (p_organization_id p) (run_id run) (turn_created_at turn) 1 sel w1 = (Inr rows, w')"
    using assms(1) False ws unfolding capture_conversation_def items_def by (auto simp: andthen_Inr)
  note limits = bounded_turns_limits [OF items_def]
  note shown = bounded_turns_shown [OF items_def]
  note sub = permitted_turns_sub [OF sel]
  from added_snapshots [OF add] keepsD [OF keeps_permitted_snapshots sel]
  have stored: "tw_snapshots w' = tw_snapshots w @ rows" and ord: "map sn_ordinal rows = map (\<lambda>k. 1 + int k) [0..<length rows]"
    and rows: "list_all2 (\<lambda>c s. snapshot_of (turn_created_at turn) run (ct_turn c) s \<and> item_of (ct_turn c) s = c) sel rows"
    by simp_all
  have len: "length rows = length sel" using list_all2_lengthD [OF rows] by simp
  have "map sn_source_turn_id rows = map turn_id (map ct_turn sel)" and lens: "map snapshot_length rows = map item_length sel"
    using rows item_of_length by (induction rule: list_all2_induct) (auto simp: snapshot_of_def, metis)
  moreover have "subseq (map turn_id (map ct_turn sel)) (map turn_id prior)"
    using subseq_map [OF sub, of ct_turn] shown(1) by (intro subseq_map) (rule subseq_order.trans)
  ultimately have turns: "subseq (map sn_source_turn_id rows) (map turn_id prior)" by simp
  have each: "length (sn_user_content s) \<le> te_context_max_chars_per_message e
          \<and> length (text_of (sn_assistant_content s)) \<le> te_context_max_chars_per_message e
          \<and> (\<exists>u \<in> set prior. snapshot_of (turn_created_at turn) run u s
               \<and> item_shows w (p_organization_id p) (turn_created_at turn) (ws_classification ws) (item_of u s))
          \<and> (\<forall>rid. sn_source_run_id s = Some rid \<longrightarrow> guard_allowed e p w items (sn_source_turn_id s) rid)" if s: "s \<in> set rows" for s
  proof -
    obtain c where c: "c \<in> set sel" "snapshot_of (turn_created_at turn) run (ct_turn c) s" "item_of (ct_turn c) s = c"
      using list_all2_mem [OF rows s] by blast
    have fields: "sn_user_content s = ct_user_content c" "sn_assistant_content s = ct_assistant_content c"
      "sn_source_run_id s = ct_source_run_id c" "sn_source_turn_id s = turn_id (ct_turn c)"
      using item_of_fields [OF c(3)] c(2) by (simp_all add: snapshot_of_def)
    have item: "c \<in> set items" using c(1) subseq_mem [OF sub] by simp
    then have turn_of: "ct_turn c \<in> set prior" using subseq_mem [OF shown(1), of "ct_turn c"] by simp
    have seen: "item_shows w (p_organization_id p) (turn_created_at turn) (ws_classification ws) (item_of (ct_turn c) s)"
      using shown(2) [OF item] unfolding c(3) .
    have "\<exists>u \<in> set prior. snapshot_of (turn_created_at turn) run u s
               \<and> item_shows w (p_organization_id p) (turn_created_at turn) (ws_classification ws) (item_of u s)"
      using c(2) seen turn_of by blast
    then show ?thesis using limits(3) [OF item] permitted_turns_allowed [OF sel c(1)] unfolding fields by blast
  qed
  have "length rows \<le> te_context_max_turns e" using limits(2) some list_emb_length [OF sub] len by simp
  moreover have "sum_list (map snapshot_length rows) \<le> te_context_max_chars e"
    using subseq_sum [OF sub, of item_length] limits(1) lens by simp
  ultimately show ?thesis
    using ord turns each stored unfolding conversation_given_def items_def [symmetric] by blast
qed


section \<open>Creating a turn\<close>

text \<open>The tables a capture reads; the guard reads documents and writes records of its own.\<close>

definition capture_tables :: "db \<Rightarrow> workspace_row list \<times> turn_row list \<times> run_row list" where
  "capture_tables d = (t_workspaces d, t_turns d, t_runs d)"

definition capture_view :: "thread_world \<Rightarrow> (workspace_row list \<times> turn_row list \<times> run_row list) \<times> artifact_row list \<times> conversation_snapshot_row list" where
  "capture_view w = (capture_tables (tw_db w), tw_artifacts w, tw_snapshots w)"

definition modest_guard :: "thread_env \<Rightarrow> bool" where
  "modest_guard e \<longleftrightarrow> (\<forall>c. keeps capture_tables (te_publication e c))"

lemma keeps_capture_view [simp]: "keeps capture_tables m \<Longrightarrow> keeps capture_view (thread_db m)"
  by (simp add: keeps_def capture_view_def thread_db_def zoom_def case_prod_beta)

lemma keeps_reading: "(\<And>d. snd (m d) = d) \<Longrightarrow> keeps f m"
  by (simp add: keeps_def)

lemma keeps_access [simp]: "keeps f (require_thread_access p tid b)" "keeps f (effective_turns n p lineage t)"
  "keeps f (require_run_access p rid b)"
  by (rule keeps_reading, rule require_thread_access_state, rule keeps_reading, rule effective_turns_state,
      rule keeps_reading, rule require_run_access_state)

lemma keeps_capture_new_id [simp]: "keeps capture_tables new_id"
  by (simp add: new_id_def capture_tables_def keeps_andthen)

lemma keeps_prompt_pins: "keeps f (resolve_prompt_pins org names)"
  by (induction names) (auto intro!: keeps_andthen)

lemma keeps_prepare: "keeps f (prepare_turn e p thread r)"
  unfolding prepare_turn_def Let_def by (intro keeps_andthen) (simp_all add: keeps_prompt_pins)

lemma keeps_attachments: "modest_guard e \<Longrightarrow> keeps capture_view (validate_attachments e p wid refs)"
  by (induction refs) (auto intro!: keeps_andthen keeps_case_option keeps_capture_view
      simp: require_run_access_content_def modest_guard_def)

lemma prepare_turn_workspace:
  assumes "prepare_turn e p thread r w = (Inr s, w')"
  obtains ws where "find (\<lambda>ws. ws_id ws = thread_workspace_id thread \<and> ws_organization_id ws = p_organization_id p)
    (t_workspaces (tw_db w)) = Some ws"
  using assms keepsD [OF keeps_prompt_pins [of "\<lambda>w. w"]] keepsD [OF keeps_agent_spec [of "\<lambda>w. w"]]
  unfolding prepare_turn_def Let_def by (fastforce simp: andthen_Inr)

lemma create_turnD:
  assumes "create_turn e clk p tid r actor w = (Inr (u, run), w')" and guard: "modest_guard e"
    and dist: "thread_ids_distinct (tw_db w)"
  obtains t prior ws w1 w2 rows where
    "find_thread (p_organization_id p) tid (tw_db w) = Some t"
    "history max_lineage_depth (p_organization_id p) (tw_db w) t = Some prior"
    "find (\<lambda>ws. ws_id ws = thread_workspace_id t \<and> ws_organization_id ws = p_organization_id p) (t_workspaces (tw_db w)) = Some ws"
    "capture_view w1 = ((t_workspaces (tw_db w), t_turns (tw_db w) @ [u], t_runs (tw_db w) @ [run]), tw_artifacts w, tw_snapshots w)"
    "capture_conversation e p run u t prior w1 = (Inr rows, w2)" "tw_snapshots w' = tw_snapshots w2"
    "turn_created_at u = clk 0" "run_status_of run = Run_PENDING" "turn_thread_id u = tid" "run_turn_id run = turn_id u"
proof -
  obtain t wa prior wb su wc attachments wd i we wf j wg wh rows w2 wi where steps:
    "thread_db (require_thread_access p tid True) w = (Inr t, wa)"
    "thread_turns p t wa = (Inr prior, wb)" "prepare_turn e p t r wb = (Inr su, wc)"
    "validate_attachments e p (thread_workspace_id t) (ctu_attachment_refs r) wc = (Inr attachments, wd)"
    "thread_db new_id wd = (Inr i, we)" "insert_turn u we = (Inr (), wf)" "thread_db new_id wf = (Inr j, wg)"
    "insert_run run wg = (Inr (), wh)" "capture_conversation e p run u t prior wh = (Inr rows, w2)"
    and u: "u = \<lparr>turn_id = i, turn_organization_id = p_organization_id p, turn_thread_id = thread_id t,
                      turn_ordinal = (if prior = [] then 0 else turn_ordinal (last prior)) + 1,
                      turn_created_by = p_id p, turn_input_text = redact_text (ctu_input r),
                      turn_sanitized_input = redact_text (ctu_input r), turn_context_refs = ctu_context_refs r,
                      turn_attachment_refs = attachments, turn_created_at = clk 0\<rparr>"
    and run: "run = new_run e j p i su (clk 0) (clk 1)"
    and after: "run_record e (clk 2) p actor (Some (p_id p)) ''turn.created'' j
                   [(''turn_id'', JStr (uuid_str i)), (''thread_id'', JStr (uuid_str (thread_id t))),
                    (''ordinal'', JInt ((if prior = [] then 0 else turn_ordinal (last prior)) + 1)),
                    (''input'', JStr (turn_sanitized_input u))] w2 = (Inr (), wi)"
      "run_record e (clk 3) p Actor_SYSTEM None ''run.created'' j
                   [(''turn_id'', JStr (uuid_str i)), (''status'', JStr (run_status_value Run_PENDING)),
                    (''conversation_snapshot_count'', JInt (int (length rows)))] wi = (Inr (), w')"
    using assms(1) unfolding create_turn_def Let_def by (auto simp: andthen_Inr)
  obtain d where acc: "require_thread_access p tid True (tw_db w) = (Inr t, d)" "wa = w\<lparr>tw_db := d\<rparr>"
    using steps(1) by (auto simp: thread_db_iff)
  note found = require_thread_access_found [OF acc(1) dist]
  have wa: "wa = w" using acc(2) found by simp
  have hist: "history max_lineage_depth (p_organization_id p) (tw_db w) t = Some prior \<and> wb = w"
    using steps(2) effective_turns_history [OF dist] unfolding thread_turns_def wa by (auto simp: thread_db_iff)
  have "capture_view wd = capture_view w"
    using keepsD [OF keeps_prepare steps(3)] keepsD [OF keeps_attachments [OF guard] steps(4)] hist by simp
  then have we: "capture_view we = capture_view w" using keepsD [OF keeps_capture_view [OF keeps_capture_new_id] steps(5)] by simp
  have wf: "capture_view wf = ((t_workspaces (tw_db w), t_turns (tw_db w) @ [u], t_runs (tw_db w)), tw_artifacts w, tw_snapshots w)"
    using steps(6) we by (auto simp: insert_turn_def andthen_Inr thread_db_iff capture_view_def capture_tables_def)
  have "capture_view wg = capture_view wf" using keepsD [OF keeps_capture_view [OF keeps_capture_new_id] steps(7)] by simp
  then have wh: "capture_view wh = ((t_workspaces (tw_db w), t_turns (tw_db w) @ [u], t_runs (tw_db w) @ [run]), tw_artifacts w, tw_snapshots w)"
    using steps(8) wf by (auto simp: insert_run_def thread_db_iff capture_view_def capture_tables_def)
  have "tw_snapshots w' = tw_snapshots w2"
    using after keepsD [OF keeps_thread_snapshots] unfolding run_record_def by metis
  moreover obtain ws where "find (\<lambda>ws. ws_id ws = thread_workspace_id t \<and> ws_organization_id ws = p_organization_id p)
    (t_workspaces (tw_db w)) = Some ws" using prepare_turn_workspace [OF steps(3)] hist by metis
  ultimately show thesis
    using that found hist wh steps(9) by (simp add: u run new_run_def)
qed


lemma completed_runs_pending:
  "run_status_of run = Run_PENDING \<Longrightarrow> t_runs d' = t_runs d @ [run] \<Longrightarrow> completed_runs org turns at d' = completed_runs org turns at d"
  by (simp add: completed_runs_def)

lemma candidates_pending:
  assumes "capture_view w1 = ((t_workspaces (tw_db w), ts, t_runs (tw_db w) @ [run]), tw_artifacts w, tw_snapshots w)"
    and "run_status_of run = Run_PENDING"
  shows "conversation_candidates org turns at cls w1 = conversation_candidates org turns at cls w"
    and "answered_by w1 org at tid r a \<longleftrightarrow> answered_by w org at tid r a"
  using assms completed_runs_pending [of run "tw_db w1" "tw_db w"]
  by (auto simp: conversation_candidates_def capture_view_def capture_tables_def answered_by_def)

text \<open>
  C39: What a new run is given of the conversation. When \<open>create_turn\<close> succeeds, the snapshots stored
  with the run are of turns the thread showed before, in their order and numbered from 1: at most
  \<open>max_turns\<close>, with at most \<open>max_chars\<close> characters in all of them together and at most
  \<open>max_chars_per_message\<close> in each message. Each shows the beginning of what was asked and, where it
  names a run, the beginning of an answer of that run, which is a run of the same turn completed
  before; its classification is exactly the higher of the workspace's and the answer's, and the
  workspace's where there is no answer. The publication guard was asked about every run named, in the
  store the capture had reached, and allowed it. The hypotheses: what the guard writes are records of
  its own, and the settings ask for at least one turn.
\<close>

theorem captured_conversation:
  assumes created: "create_turn e clk p tid r actor w = (Inr (u, run), w')"
    and listed: "list_turns p tid w = (Inr prior, w1)" and inv: "threads_inv (tw_db w)"
    and guard: "modest_guard e" and some: "1 \<le> te_context_max_turns e"
  shows "\<exists>t ws rows wc w2. find_thread (p_organization_id p) tid (tw_db w) = Some t
    \<and> find (\<lambda>ws. ws_id ws = thread_workspace_id t \<and> ws_organization_id ws = p_organization_id p) (t_workspaces (tw_db w)) = Some ws
    \<and> tw_snapshots w' = tw_snapshots w @ rows
    \<and> conversation_given e p run prior (clk 0) (ws_classification ws) w rows
    \<and> t_turns (tw_db wc) = t_turns (tw_db w) @ [u] \<and> capture_conversation e p run u t prior wc = (Inr rows, w2)
    \<and> (\<forall>s \<in> set rows. \<forall>rid. sn_source_run_id s = Some rid \<longrightarrow> guard_allowed e p wc
         (bounded_turns e (conversation_candidates (p_organization_id p) prior (clk 0) (ws_classification ws) w))
         (sn_source_turn_id s) rid)"
proof -
  have dist: "thread_ids_distinct (tw_db w)" using inv by (simp add: threads_inv_def)
  obtain t prior' ws wc w2 rows where found: "find_thread (p_organization_id p) tid (tw_db w) = Some t"
    and hist: "history max_lineage_depth (p_organization_id p) (tw_db w) t = Some prior'"
    and ws: "find (\<lambda>ws. ws_id ws = thread_workspace_id t \<and> ws_organization_id ws = p_organization_id p) (t_workspaces (tw_db w)) = Some ws"
    and seen: "capture_view wc = ((t_workspaces (tw_db w), t_turns (tw_db w) @ [u], t_runs (tw_db w) @ [run]), tw_artifacts w, tw_snapshots w)"
    and capture: "capture_conversation e p run u t prior' wc = (Inr rows, w2)" and stored: "tw_snapshots w' = tw_snapshots w2"
    and at: "turn_created_at u = clk 0" and pending: "run_status_of run = Run_PENDING"
    by (rule create_turnD [OF created guard dist])
  have prior: "prior' = prior" using list_turns_history [OF listed inv] found hist by (metis option.inject)
  have tables: "t_workspaces (tw_db wc) = t_workspaces (tw_db w)" "t_turns (tw_db wc) = t_turns (tw_db w) @ [u]"
    "tw_snapshots wc = tw_snapshots w" using seen by (simp_all add: capture_view_def capture_tables_def)
  note same = candidates_pending [OF seen pending]
  have given: "conversation_given e p run prior (clk 0) cls wc rows = conversation_given e p run prior (clk 0) cls w rows" for cls
    unfolding conversation_given_def item_shows_def same(2) ..
  note gives = capture_gives [OF capture some ws [folded tables(1)], unfolded prior at same(1) given tables(3)]
  show ?thesis
    by (intro exI conjI, rule found, rule ws, use gives stored in simp, use gives in blast, rule tables(2),
        rule capture [unfolded prior], use gives in blast)
qed

section \<open>A turn with an answer\<close>

definition agent_json :: jobj where
  "agent_json = [(''description'', JStr ''d''), (''modelPolicy'', JObj [(''profile'', JStr ''m'')]), (''maxSteps'', JInt 5),
     (''capabilities'', JList [JStr ''c'']), (''riskPolicy'', JObj [(''maxLevel'', JStr ''L0'')])]"

lemma agent_json_spec:
  "\<exists>spec. agent_spec_from_dict ''GeneralAgent'' agent_json (w :: thread_world) = (Inr spec, w) \<and> as_model_profile spec = ''m''"
proof -
  have "context_error ''GeneralAgent'' (JObj agent_json) = None" by code_simp
  then have valid: "validate_model_context_configuration ''GeneralAgent'' (JObj agent_json) w = (Inr (), w)"
    unfolding validate_model_context_configuration_def by (simp only: option.case ret_def)
  have sandbox: "\<exists>x. normalize_sandbox ''GeneralAgent'' None w = (Inr x, w)" for w :: thread_world
    by (simp add: normalize_sandbox_def op_simps sandbox_network_def sandbox_mounts_def sandbox_int_bounds_def)
  have fields: "map_of agent_json ''description'' = Some (JStr ''d'')" "map_of agent_json ''maxSteps'' = Some (JInt 5)"
    "map_of agent_json ''modelPolicy'' = Some (JObj [(''profile'', JStr ''m'')])" "map_of agent_json ''timeout'' = None"
    "map_of agent_json ''capabilities'' = Some (JList [JStr ''c''])" "map_of agent_json ''skills'' = None"
    "map_of agent_json ''riskPolicy'' = Some (JObj [(''maxLevel'', JStr ''L0'')])" "map_of agent_json ''prompts'' = None"
    "map_of agent_json ''memory'' = None" "map_of agent_json ''sandbox'' = None" by (simp_all add: agent_json_def)
  have strips: "strip ''d'' = ''d''" "strip ''m'' = ''m''" "strip ''c'' = ''c''" "strip ''L0'' = ''L0''" by code_simp+
  show ?thesis using sandbox [of w]
    by (auto simp: agent_spec_from_dict_def valid fields op_simps spec_string_def spec_object_def
        spec_int_def spec_string_tuple_def stripped_strings_def json_strings_def strips)
qed

text \<open>A store with a turn that has an answer of a higher classification than the workspace.\<close>

definition answered_run :: run_row where
  "answered_run = waiting_run\<lparr>run_status_of := Run_COMPLETED, run_completed_at := Some 0\<rparr>"

definition answer_row :: artifact_row where
  "answer_row = \<lparr>art_id = 60, art_organization_id = 1, art_run_id = Some 30, art_kind = Kind_TEXT, art_title = ''a'',
     art_inline_content = Some (JObj [(''markdown'', JStr ''answer'')]), art_classification = Cls_RESTRICTED,
     art_created_at = 0, art_workspace_id = 5, art_media_type = ''text/markdown''\<rparr>"

definition answered_world :: thread_world where
  "answered_world = told_world\<lparr>tw_db := (tw_db told_world)\<lparr>t_runs := [answered_run]\<rparr>, tw_artifacts := [answer_row],
     tw_agents := [\<lparr>ag_id = 70, ag_organization_id = 1, ag_name = ''general-agent'', ag_status = Registry_ACTIVE, ag_active_version = Some 1\<rparr>],
     tw_agent_versions := [\<lparr>av_id = 71, av_organization_id = 1, av_agent_id = 70, av_version = 1, av_spec = agent_json\<rparr>],
     tw_profiles := [\<lparr>mp_id = 72, mp_organization_id = 1, mp_name = ''m'', mp_enabled = True\<rparr>],
     tw_prompts := [\<lparr>prd_id = 73, prd_organization_id = 1, prd_name = ''obsion-system-policy''\<rparr>],
     tw_prompt_versions := [\<lparr>prv_id = 74, prv_organization_id = 1, prv_prompt_id = 73, prv_version = 1, prv_checksum_sha256 = ''x''\<rparr>]\<rparr>"

definition answer_env :: thread_env where
  "answer_env = talk_env\<lparr>te_ext := open_ext [''turn.created'', ''run.created''] []\<rparr>"

definition more_request :: create_turn_request where
  "more_request = \<lparr>ctu_input = ''more'', ctu_context_refs = [], ctu_attachment_refs = [], ctu_model_profile = None\<rparr>"

definition shown_item :: conversation_turn where
  "shown_item = \<lparr>ct_turn = told_turn, ct_source_run_id = Some 30, ct_source_artifact_id = Some 60, ct_user_content = ''hell'',
     ct_assistant_content = Some ''answ'', ct_classification = Cls_RESTRICTED\<rparr>"

lemma answered_candidates:
  assumes "t_runs (tw_db w) = [answered_run]" and "tw_artifacts w = [answer_row]"
  shows "bounded_turns answer_env (conversation_candidates 1 [told_turn] 0 Cls_INTERNAL w) = [shown_item]"
proof -
  have answer: "answer_markdown answer_row = Some ''answer''" "redact_text ''answer'' = ''answer''"
    by (simp add: answer_markdown_def answer_row_def) code_simp+
  have run: "run_id answered_run = 30" "run_turn_id answered_run = 31" "run_organization_id answered_run = 1"
    "run_status_of answered_run = Run_COMPLETED" "run_completed_at answered_run = Some 0"
    by (simp_all add: answered_run_def waiting_run_def)
  have turn: "turn_id told_turn = 31" "turn_sanitized_input told_turn = ''hello''" by (simp_all add: told_turn_def)
  have runs: "completed_runs 1 [told_turn] 0 (tw_db w) = [answered_run]" by (simp add: completed_runs_def assms run turn)
  have artifacts: "answer_artifacts 1 [30] 0 (tw_artifacts w) = [answer_row]" by (simp add: answer_artifacts_def assms answer_row_def)
  have found: "answer_by_run [answer_row] 30 = Some answer_row" using answer by (simp add: answer_by_run_def answer_row_def)
  have row: "art_classification answer_row = Cls_RESTRICTED" "art_id answer_row = 60" by (simp_all add: answer_row_def)
  have "conversation_candidates 1 [told_turn] 0 Cls_INTERNAL w = [shown_item\<lparr>ct_user_content := ''hello'', ct_assistant_content := Some ''answer''\<rparr>]"
    by (simp add: conversation_candidates_def runs run artifacts conversation_candidate_def found turn answer row
        highest_classification_def shown_item_def)
  then show ?thesis
    by (simp add: bounded_turns_def latest_turns_def answer_env_def talk_env_def shown_item_def eval_nat_numeral)
qed


lemma answered_capture:
  assumes "capture_view w = (([sample_workspace 5 1 7], ts, [answered_run, run]), [answer_row], [])"
    and "run_status_of run = Run_PENDING" and "turn_created_at u = 0"
  shows "\<exists>s. succeeds (capture_conversation answer_env (sample_principal 7 []) run u (chain_thread 1) [told_turn])
    (\<lambda>rows w'. rows = [s] \<and> tw_snapshots w' = [s] \<and> item_of told_turn s = shown_item
       \<and> tw_db w' = (tw_db w)\<lparr>next_id := next_id (tw_db w) + 1\<rparr>) w"
proof -
  let ?w0 = "w\<lparr>tw_db := (tw_db w)\<lparr>t_runs := [answered_run]\<rparr>\<rparr>"
  have "capture_view w = ((t_workspaces (tw_db ?w0), ts, t_runs (tw_db ?w0) @ [run]), tw_artifacts ?w0, tw_snapshots ?w0)"
    using assms(1) by (simp add: capture_view_def capture_tables_def)
  from candidates_pending(1) [OF this assms(2)] answered_candidates [of ?w0] assms(1)
  have items: "bounded_turns answer_env (conversation_candidates 1 [told_turn] 0 Cls_INTERNAL w) = [shown_item]"
    by (simp add: capture_view_def capture_tables_def)
  have ws: "find (\<lambda>ws. ws_id ws = 5 \<and> ws_organization_id ws = 1) (t_workspaces (tw_db w))
      = Some (sample_workspace 5 1 7)" "ws_classification (sample_workspace 5 1 7) = Cls_INTERNAL"
    using assms(1) by (simp_all add: capture_view_def capture_tables_def sample_workspace_def)
  have guard: "te_publication answer_env = (\<lambda>_. ret True)" by (simp add: answer_env_def talk_env_def)
  have snaps: "tw_snapshots w = []" using assms(1) by (simp add: capture_view_def)
  have org: "p_organization_id (sample_principal 7 []) = 1" by (simp add: sample_principal_def)
  show ?thesis
    unfolding capture_conversation_def succeeds_def
    by (simp add: andthen_def reads_def from_some_def ret_def org ws assms(3) items guard thread_db_def zoom_def new_id_def
        modify_def Let_def snaps shown_item_def item_of_def)
qed

lemma answered_access: "require_thread_access (sample_principal 7 []) 1 b (tw_db answered_world) = (Inr (chain_thread 1), tw_db answered_world)"
  by (simp add: answered_world_def told_world_def chain_world_def require_thread_access_def op_simps from_some_def sample_principal_def
      empty_db_def sample_workspace_def workspace_access_clause_def can_def)

lemma answered_turns:
  "thread_turns (sample_principal 7 []) (chain_thread 1) answered_world = (Inr [told_turn], answered_world)"
  "list_turns (sample_principal 7 []) 1 answered_world = (Inr [told_turn], answered_world)"
proof -
  have "local_turns 1 1 (tw_db answered_world) = [told_turn]" by (simp add: local_turns_def answered_world_def told_world_def told_turn_def)
  then show "thread_turns (sample_principal 7 []) (chain_thread 1) answered_world = (Inr [told_turn], answered_world)"
    by (simp add: thread_turns_def thread_db_def zoom_def op_simps max_lineage_depth_def eval_nat_numeral sample_principal_def)
  then show "list_turns (sample_principal 7 []) 1 answered_world = (Inr [told_turn], answered_world)"
    by (simp add: list_turns_def andthen_def thread_db_def zoom_def answered_access)
qed

lemma answered_inv: "threads_inv (tw_db answered_world)"
proof -
  have "local_turns 1 i (tw_db answered_world) = local_turns 1 i (tw_db told_world)" for i
    by (simp add: local_turns_def answered_world_def)
  moreover have "t_threads (tw_db answered_world) = t_threads (tw_db told_world)" "t_turns (tw_db answered_world) = t_turns (tw_db told_world)"
    "next_id (tw_db answered_world) = next_id (tw_db told_world)" by (simp_all add: answered_world_def)
  moreover have "history (Suc 0) 1 (tw_db answered_world) (chain_thread 1) = Some [told_turn]" "counted [told_turn]"
    by (simp_all add: local_turns_def answered_world_def told_world_def told_turn_def counted_def)
  moreover have "t_threads (tw_db told_world) = [chain_thread 1]" "t_turns (tw_db told_world) = [told_turn]"
    "next_id (tw_db told_world) = 100" by (simp_all add: told_world_def chain_world_def empty_db_def)
  moreover have "turn_thread_id told_turn = 1" "turn_organization_id told_turn = 1" by (simp_all add: told_turn_def)
  ultimately show ?thesis unfolding threads_inv_def thread_ids_distinct_def by (simp del: history.simps) blast
qed

lemma answered_prepare:
  "\<exists>setup. prepare_turn answer_env (sample_principal 7 []) (chain_thread 1) more_request answered_world = (Inr setup, answered_world)"
proof -
  let ?v = "\<lparr>av_id = 71, av_organization_id = 1, av_agent_id = 70, av_version = 1, av_spec = agent_json\<rparr>"
  have agent: "general_agent 1 answered_world = Some ?v" by (simp add: general_agent_def answered_world_def)
  obtain spec where spec: "agent_spec_from_dict ''GeneralAgent'' agent_json answered_world = (Inr spec, answered_world)"
    "as_model_profile spec = ''m''" using agent_json_spec by blast
  have names: "names_for_agent_spec agent_json = [''obsion-system-policy'']"
    by (simp add: names_for_agent_spec_def agent_json_def stripped_strings_def json_strings_def system_policy_prompt_name_def)
  have pins: "\<exists>pins. resolve_prompt_pins 1 [''obsion-system-policy''] answered_world = (Inr pins, answered_world)"
    by (simp add: op_simps answered_world_def first_by_def from_some_def)
  have ws: "find (\<lambda>ws. ws_id ws = 5 \<and> ws_organization_id ws = 1) (t_workspaces (tw_db answered_world)) = Some (sample_workspace 5 1 7)"
    by (simp add: answered_world_def told_world_def chain_world_def empty_db_def sample_workspace_def)
  have profile: "\<exists>m. find (\<lambda>m. mp_organization_id m = 1 \<and> mp_name m = ''m'' \<and> mp_enabled m) (tw_profiles answered_world) = Some m"
    by (simp add: answered_world_def)
  have p: "p_organization_id (sample_principal 7 []) = 1" by (simp add: sample_principal_def)
  show ?thesis
    using pins profile
    by (auto simp: prepare_turn_def Let_def p agent op_simps from_some_def spec more_request_def names ws)
qed


lemma succeeds_run_record:
  assumes "accepts (te_ext e) names" and "name \<in> set names" and "map_of payload ''error_code'' = None"
    and "r \<in> set (t_runs (tw_db w))" and "run_id r = rid" and "run_organization_id r = p_organization_id p"
    and "heads_of (p_organization_id p) (tw_db w)"
    and "\<And>d. business d = business (tw_db w) \<Longrightarrow> heads_of (p_organization_id p) d \<Longrightarrow> Q () (w\<lparr>tw_db := d\<rparr>)"
  shows "succeeds (run_record e now p a ai name rid payload) Q w"
proof -
  let ?dr = "(EventDraft name ''run'' rid (p_organization_id p) rid a ai payload)\<lparr>ed_run_id := Some rid\<rparr>"
  have "\<exists>ev d. append_event (te_ext e) now ?dr (tw_db w) = (Inr ev, d)"
    using assms(1-7) by (intro append_event_accepted [where names = names]) (auto simp: EventDraft_def heads_of_def dest!: find_SomeD)
  then obtain ev d where app: "append_event (te_ext e) now ?dr (tw_db w) = (Inr ev, d)" by blast
  have "heads_of (p_organization_id p) d" using append_heads_of [OF app] assms(7) by (simp add: EventDraft_def)
  then show ?thesis
    using assms(8) [of d] append_event_business [OF app] app by (simp add: run_record_def succeeds_def thread_db_iff andthen_Inr)
qed

lemma business_run:
  assumes "business d = business d'" and "r \<in> set (t_runs d')"
  shows "\<exists>r' \<in> set (t_runs d). run_id r' = run_id r \<and> run_organization_id r' = run_organization_id r"
proof -
  let ?f = "\<lambda>r. r\<lparr>run_aggregate_version := 0\<rparr>"
  have "?f r \<in> set (map ?f (t_runs d'))" using assms(2) by simp
  also have "map ?f (t_runs d') = map ?f (t_runs d)" using arg_cong [OF assms(1), of t_runs] by (simp add: business_def)
  finally obtain r' where r': "r' \<in> set (t_runs d)" "?f r = ?f r'" by auto
  have "run_id (?f r) = run_id (?f r')" "run_organization_id (?f r) = run_organization_id (?f r')" unfolding r'(2) by (rule refl)+
  then show ?thesis using r'(1) by auto
qed

definition more_turn :: turn_row where
  "more_turn = \<lparr>turn_id = 100, turn_organization_id = 1, turn_thread_id = 1, turn_ordinal = 2, turn_created_by = 7,
     turn_input_text = ''more'', turn_sanitized_input = ''more'', turn_context_refs = [], turn_attachment_refs = [],
     turn_created_at = 0\<rparr>"

lemma answered_create:
  "\<exists>run s w'. create_turn answer_env (\<lambda>_. 0) (sample_principal 7 []) 1 more_request Actor_USER answered_world = (Inr (more_turn, run), w')
     \<and> tw_snapshots w' = [s] \<and> item_of told_turn s = shown_item
     \<and> business (tw_db w') = business ((tw_db answered_world)\<lparr>t_turns := [told_turn, more_turn], t_runs := [answered_run, run]\<rparr>)"
proof -
  let ?p = "sample_principal 7 []"
  have p: "p_organization_id ?p = 1" "p_id ?p = 7" by (simp_all add: sample_principal_def)
  obtain su where prepared: "prepare_turn answer_env ?p (chain_thread 1) more_request answered_world = (Inr su, answered_world)"
    using answered_prepare by blast
  have request: "redact_text (ctu_input more_request) = ''more''" "ctu_context_refs more_request = []" "ctu_attachment_refs more_request = []"
    by (simp_all add: more_request_def) code_simp
  have told: "turn_ordinal told_turn = 1" "turn_thread_id told_turn = 1" by (simp_all add: told_turn_def)
  have active: "thread_status_of (chain_thread 1) = Thread_ACTIVE" by (simp add: chain_thread_def)
  have tables: "t_turns (tw_db answered_world) = [told_turn]" "t_runs (tw_db answered_world) = [answered_run]"
    "t_workspaces (tw_db answered_world) = [sample_workspace 5 1 7]" "tw_artifacts answered_world = [answer_row]"
    "tw_snapshots answered_world = []" "t_heads (tw_db answered_world) = []" "next_id (tw_db answered_world) = 100"
    by (simp_all add: answered_world_def told_world_def chain_world_def empty_db_def)
  have accept: "accepts (te_ext answer_env) [''turn.created'', ''run.created'']" by (simp add: answer_env_def accepts_def open_ext_def)
  define u where "u = more_turn"
  define run where "run = new_run answer_env 101 ?p 100 su 0 0"
  have u: "turn_created_at u = 0" "turn_thread_id u = 1" "turn_ordinal u = 2" by (simp_all add: u_def more_turn_def)
  have run: "run_status_of run = Run_PENDING" "run_id run = 101" "run_organization_id run = 1" by (simp_all add: run_def new_run_def p)
  define w where "w = answered_world\<lparr>tw_db := (tw_db answered_world)\<lparr>next_id := 102, t_turns := [told_turn, u], t_runs := [answered_run, run]\<rparr>\<rparr>"
  have view: "capture_view w = (([sample_workspace 5 1 7], [told_turn, u], [answered_run, run]), [answer_row], [])"
    by (simp add: w_def capture_view_def capture_tables_def tables)
  have steps: "thread_db new_id answered_world = (Inr 100, answered_world\<lparr>tw_db := (tw_db answered_world)\<lparr>next_id := 101\<rparr>\<rparr>)"
    "insert_turn u (answered_world\<lparr>tw_db := (tw_db answered_world)\<lparr>next_id := 101\<rparr>\<rparr>) =
       (Inr (), answered_world\<lparr>tw_db := (tw_db answered_world)\<lparr>next_id := 101, t_turns := [told_turn, u]\<rparr>\<rparr>)"
    "thread_db new_id (answered_world\<lparr>tw_db := (tw_db answered_world)\<lparr>next_id := 101, t_turns := [told_turn, u]\<rparr>\<rparr>) =
       (Inr 101, answered_world\<lparr>tw_db := (tw_db answered_world)\<lparr>next_id := 102, t_turns := [told_turn, u]\<rparr>\<rparr>)"
    "insert_run run (answered_world\<lparr>tw_db := (tw_db answered_world)\<lparr>next_id := 102, t_turns := [told_turn, u]\<rparr>\<rparr>) = (Inr (), w)"
    by (simp_all add: thread_db_def zoom_def new_id_def insert_turn_def insert_run_def w_def op_simps tables told u)
  have thread: "thread_id (chain_thread 1) = 1" by simp
  have ordinal: "(if [told_turn] = [] then 0 else turn_ordinal (last [told_turn])) + 1 = 2" by (simp add: told)
  obtain s where capture: "succeeds (capture_conversation answer_env ?p run u (chain_thread 1) [told_turn])
    (\<lambda>rows w'. rows = [s] \<and> tw_snapshots w' = [s] \<and> item_of told_turn s = shown_item
       \<and> tw_db w' = (tw_db w)\<lparr>next_id := next_id (tw_db w) + 1\<rparr>) w"
    using answered_capture [OF view run(1) u(1)] by blast
  have "succeeds (create_turn answer_env (\<lambda>_. 0) ?p 1 more_request Actor_USER)
    (\<lambda>(u', run') w'. u' = u \<and> run' = run \<and> tw_snapshots w' = [s] \<and> item_of told_turn s = shown_item
       \<and> business (tw_db w') = business (tw_db w)) answered_world"
    unfolding create_turn_def Let_def request
    apply (rule succeeds_andthen, rule succeeds_thread_db, rule succeeds_step, rule answered_access, subst tw_db_same)
    apply (rule succeeds_andthen, rule succeeds_require, simp add: active)
    apply (rule succeeds_andthen, rule succeeds_step, rule answered_turns(1))
    apply (rule succeeds_andthen, rule succeeds_step, rule prepared)
    apply (simp only: validate_attachments.simps, rule succeeds_andthen, rule succeeds_ret)
    apply (rule succeeds_andthen, rule succeeds_step, rule steps(1))
    apply (simp only: p thread ordinal u_def [unfolded more_turn_def, symmetric])
    apply (rule succeeds_andthen, rule succeeds_step, rule steps(2))
    apply (rule succeeds_andthen, rule succeeds_step, rule steps(3))
    apply (simp only: run_def [symmetric])
    apply (rule succeeds_andthen, rule succeeds_step, rule steps(4))
    apply (rule succeeds_andthen, rule succeeds_conseq, rule capture)
    apply (elim conjE, rule succeeds_andthen, rule succeeds_run_record [OF accept, where r = run], simp, simp, simp add: w_def,
        simp add: run, simp add: run p, simp add: w_def heads_of_def tables)
    apply (rule succeeds_andthen, frule business_run [where r = run], simp add: w_def, elim bexE conjE)
    apply (rule_tac r = r' in succeeds_run_record [OF accept], simp, simp, simp, simp add: run, simp add: run p, simp)
    apply (rule succeeds_ret, simp add: business_def)
    done
  then show ?thesis unfolding u_def w_def by (fastforce simp: succeeds_def business_def)
qed


theorem captured_conversation_witness:
  "\<exists>u run s w'. create_turn answer_env (\<lambda>_. 0) (sample_principal 7 []) 1 more_request Actor_USER answered_world = (Inr (u, run), w')
     \<and> tw_snapshots w' = [s] \<and> sn_user_content s = ''hell'' \<and> sn_assistant_content s = Some ''answ''
     \<and> sn_classification s = Cls_RESTRICTED
     \<and> conversation_given answer_env (sample_principal 7 []) run [told_turn] 0 Cls_INTERNAL answered_world [s]"
proof -
  obtain u run s w' where create: "create_turn answer_env (\<lambda>_. 0) (sample_principal 7 []) 1 more_request Actor_USER answered_world = (Inr (u, run), w')"
    and s: "tw_snapshots w' = [s]" "item_of told_turn s = shown_item" using answered_create by blast
  have "modest_guard answer_env" "1 \<le> te_context_max_turns answer_env" by (simp_all add: modest_guard_def answer_env_def talk_env_def)
  from captured_conversation [OF create answered_turns(2) answered_inv this]
  obtain t ws rows where "find_thread 1 1 (tw_db answered_world) = Some t" and rows: "tw_snapshots w' = tw_snapshots answered_world @ rows"
    and ws: "find (\<lambda>ws. ws_id ws = thread_workspace_id t \<and> ws_organization_id ws = 1) (t_workspaces (tw_db answered_world)) = Some ws"
    and given: "conversation_given answer_env (sample_principal 7 []) run [told_turn] 0 (ws_classification ws) answered_world rows"
    by (auto simp: sample_principal_def)
  have "ws \<in> set (t_workspaces (tw_db answered_world))" using find_SomeD [OF ws] by blast
  then have "ws_classification ws = Cls_INTERNAL"
    by (simp add: answered_world_def told_world_def chain_world_def empty_db_def sample_workspace_def)
  moreover have "rows = [s]" using rows s(1) by (simp add: answered_world_def told_world_def chain_world_def)
  moreover have "sn_user_content s = ''hell''" "sn_assistant_content s = Some ''answ''" "sn_classification s = Cls_RESTRICTED"
    using s(2) by (simp_all add: item_of_def shown_item_def)
  ultimately show ?thesis using create s(1) given by metis
qed


text \<open>The turn added shows up behind the one listed before.\<close>

lemma answered_relisted:
  assumes "business (tw_db w) = business ((tw_db answered_world)\<lparr>t_turns := [told_turn, more_turn], t_runs := rs\<rparr>)"
  shows "list_turns (sample_principal 7 []) 1 w = (Inr [told_turn, more_turn], w)"
proof -
  have tables: "t_threads (tw_db w) = [chain_thread 1]" "t_turns (tw_db w) = [told_turn, more_turn]"
    "t_workspaces (tw_db w) = [sample_workspace 5 1 7]" "t_members (tw_db w) = []"
    using business_tables(6,7,11,12) [OF assms] by (simp_all add: answered_world_def told_world_def chain_world_def empty_db_def)
  show ?thesis
    by (simp add: list_turns_def thread_turns_def thread_db_def zoom_def op_simps max_lineage_depth_def eval_nat_numeral
        sample_principal_def require_thread_access_def from_some_def sample_workspace_def workspace_access_clause_def can_def
        local_turns_def tables told_turn_def more_turn_def)
qed

theorem listed_turns_append_only_witness:
  "\<exists>w' us. conversation_run answered_world w' \<and> list_turns (sample_principal 7 []) 1 answered_world = (Inr [told_turn], answered_world)
     \<and> list_turns (sample_principal 7 []) 1 w' = (Inr ([told_turn] @ us), w') \<and> us = [more_turn]
     \<and> (\<forall>u \<in> set us. turn_thread_id u = 1)"
proof -
  obtain run w' where create: "create_turn answer_env (\<lambda>_. 0) (sample_principal 7 []) 1 more_request Actor_USER answered_world = (Inr (more_turn, run), w')"
    and w': "business (tw_db w') = business ((tw_db answered_world)\<lparr>t_turns := [told_turn, more_turn], t_runs := [answered_run, run]\<rparr>)"
    using answered_create by blast
  have "snd (serve_request answer_env (\<lambda>_. 0) (sample_principal 7 []) (CreateTurn 1 more_request Actor_USER) answered_world) = w'"
    using create by (simp add: transaction_def andthen_def ret_def)
  moreover have "quiet_guard answer_env" by (simp add: quiet_guard_def answer_env_def talk_env_def)
  ultimately have run: "conversation_run answered_world w'" using conversation_run.request [OF conversation_run.start] by metis
  note later = answered_relisted [OF w']
  obtain us where "[told_turn, more_turn] = [told_turn] @ us" "\<forall>u \<in> set us. turn_thread_id u = 1"
    using listed_turns_append_only [OF answered_inv run answered_turns(2) later refl] by blast
  then show ?thesis using run answered_turns(2) later by auto
qed

end
