(* ===== verification/Spec2Isabelle.thy ===== *)
theory Spec2Isabelle
  imports ActionScenario ActionDesk RunState RunApproval CollaborationDesk Redaction RateLimit CircuitBreaker OutboxScenario WorkflowSpec ConversationCapture
begin

text \<open>
  Verification of the governance core of the Obsion control plane.

  The control plane (\<open>src/services/control-plane/src/obsion\<close>, all file names below are relative to
  it) lets language-model agents work for the users of an organization and puts everything they
  may do to the outside behind permissions, policies, approvals, records and limits. This library
  models that core: who may see what, which requests a policy admits, how an action or a
  capability call is approved and by whom, how an approved action is carried out once, how the
  answer of a run reaches a chat exactly where it may, how conversations grow, fork and are handed
  to a run, and the tables all of this is kept in.

  \<^bold>\<open>How the parts work together.\<close> A request arrives with a principal (\<open>Identity\<close>). The
  services check the principal's access, read and write rows (\<open>Schema\<close>), move them along the
  lifecycle tables (\<open>RunState\<close>), and record an event and an audit entry (\<open>Events\<close>) in the same
  transaction. Calls that leave the system pass a gateway, which asks the policy engine (\<open>Policy\<close>),
  a rate limiter (\<open>RateLimit\<close>), a circuit breaker (\<open>CircuitBreaker\<close>) and the credential broker,
  and posts. Two workers pick up what was approved or completed: the action worker and the
  delivery worker.

  \<^bold>\<open>Foundations.\<close>
  \<^item> \<open>Prelude\<close>: identifiers, instants, JSON and Python's equality, the errors of
    \<open>common/errors.py\<close>, the operation monad with its transactions and frame rules.
  \<^item> \<open>PyText\<close>, \<open>PyRegex\<close>: the parts of \<open>str\<close>, \<open>urlsplit\<close>, \<open>ipaddress\<close> and \<open>re\<close> the code calls.
  \<^item> \<open>Enums\<close>: \<open>domain/enums.py\<close>. \<open>Schema\<close>, \<open>ImSchema\<close>: the rows of \<open>db/models.py\<close> and
    \<open>db/im_models.py\<close>, the store, and the parameters that stand for code outside the repository.

  \<^bold>\<open>Shared services.\<close>
  \<^item> \<open>Redaction\<close>: \<open>security/redaction.py\<close>.
  \<^item> \<open>Events\<close>: \<open>contracts/events/validation.py\<close>, \<open>persistence/events.py\<close>, \<open>persistence/audit.py\<close>.
    Sequences stay gapless, an append is all or nothing, pages are complete and in order.
  \<^item> \<open>Identity\<close>: \<open>security/identity.py\<close>, \<open>security/workspace_access.py\<close>. Effective permissions,
    tenant isolation.
  \<^item> \<open>Policy\<close>: \<open>security/policy.py\<close>. Exactly when a request is denied or an action allowed; a
    denial survives new policies.
  \<^item> \<open>RateLimit\<close>, \<open>CircuitBreaker\<close>: \<open>capabilities/rate_limit.py\<close>,
    \<open>capabilities/circuit_breaker.py\<close>. The two limiters agree and keep the limit per window.
  \<^item> \<open>RunState\<close>: \<open>domain/run_state.py\<close>, \<open>domain/workspace_collaboration.py\<close>.

  \<^bold>\<open>Governed actions.\<close>
  \<^item> \<open>ActionService\<close>, \<open>ActionGateway\<close>, \<open>ActionWorker\<close>: \<open>actions/service.py\<close>, \<open>actions/schemas.py\<close>,
    \<open>api/actions.py\<close>, \<open>actions/gateway.py\<close>, the credential broker of
    \<open>capabilities/connectors.py\<close>, \<open>actions/worker.py\<close>: every method as one operation.
  \<^item> \<open>ActionGovernance\<close>: the specification, a step relation on casefiles with its invariant, which
    writes out the statuses and deadlines of every move instead of using the guards of the code;
    \<open>ActionRefinement\<close>, \<open>WorkerRefinement\<close>: every operation and worker transaction refines it;
    \<open>ActionSystem\<close>: the interleaving of all of them with anything else that uses the database;
    \<open>ActionLiveness\<close>: when they do succeed; \<open>ActionScenario\<close>: one run, evaluated.
  \<^item> \<open>ApprovalDesk\<close>: the interface the two approval endpoints share, interpreted by \<open>ActionDesk\<close>
    (\<open>api/actions.py\<close>) and \<open>RunApproval\<close> (\<open>application/approvals.py\<close>, \<open>api/approvals.py\<close>,
    \<open>application/run_lifecycle.py\<close>).

  \<^bold>\<open>Workspace collaboration.\<close>
  \<^item> \<open>Collaboration\<close>: \<open>collaboration/service.py\<close>, \<open>collaboration/schemas.py\<close>,
    \<open>api/collaboration.py\<close>. \<open>VersionedRecord\<close> is optimistic locking as an interface, and
    \<open>CollaborationDesk\<close> interprets it and states what histories of requests keep.

  \<^bold>\<open>Delivery of run answers.\<close>
  \<^item> \<open>RobotTransport\<close>: \<open>capabilities/dingtalk_robot.py\<close>; \<open>RobotGateway\<close>: the robot entries of
    \<open>capabilities/gateway.py\<close>; \<open>DingTalkInputs\<close>, \<open>DingTalkOutbox\<close>:
    \<open>application/dingtalk_outbox.py\<close>; \<open>DingTalkDispatch\<close>: the effects of its operations.
  \<^item> \<open>OutboxSystem\<close>: the ledger under any number of workers; \<open>OutboxDelivery\<close>: at most one message
    per run, and \<open>application/dingtalk_outbox_worker.py\<close> refines the system; \<open>OutboxLiveness\<close>: a
    dispatch that may send does; \<open>OutboxFairness\<close>: an undeliverable run starves the others;
    \<open>OutboxScenario\<close>: one delivery, evaluated.

  \<^bold>\<open>Conversations.\<close>
  \<^item> \<open>AgentSpec\<close>: \<open>registry/agent_spec.py\<close> and the prompt names of \<open>registry/prompt_pins.py\<close>;
    \<open>ThreadSchema\<close>: the state, the settings and the request models (\<open>api/schemas.py\<close>,
    \<open>domain/task_context.py\<close>); \<open>ThreadHistory\<close>: \<open>application/thread_history.py\<close>;
    \<open>ConversationContext\<close>: \<open>application/conversation_context.py\<close> and the pins of a run; \<open>Threads\<close>:
    \<open>application/workspaces.py\<close>, \<open>api/workspaces.py\<close>.
  \<^item> \<open>ThreadEvolution\<close>: the steps that threads and turns may make and the invariant they keep;
    \<open>ThreadProperties\<close>: every request makes such a step; \<open>Conversations\<close>: what follows for any
    sequence of requests (listings only grow and are numbered without gaps, forks that are too
    deep are lost); \<open>ConversationCapture\<close>: what a new run is given of the turns before it.

  \<^bold>\<open>Automation.\<close>
  \<^item> \<open>WorkflowSpec\<close>: \<open>automation/schemas.py\<close>. The depth-first check accepts exactly the acyclic
    workflows.

  \<^bold>\<open>Conventions.\<close> An operation is a function from the store to a result (an error or a value)
  and a new store; a raise keeps what was written, and \<open>transaction\<close> undoes it as
  \<open>session.begin()\<close> does. A table is a list of rows in insertion order; a query is a filter, a
  sort by its \<open>ORDER BY\<close> and a take. The clock of an operation is a function \<open>clk\<close> from the number
  of the reading to an instant: \<open>clk 0\<close> is the first reading. Theorems hold for every clock unless
  they name a relation between readings. Transactions are atomic steps, and nothing else runs
  inside one: the source takes row locks before it decides, so this is what serial execution of
  conflicting transactions gives; the interleaving of transactions is arbitrary. Inside
  \<open>dispatch\<close> the message leaves while the transaction is open, which the log of messages in the
  delivery theories makes visible. Strings are Latin-1, and the text functions are exact on ASCII.
  Numbers in JSON are integers. Integers are unbounded, as in Python; the width of a text
  column is checked where a theory says so.

  \<^bold>\<open>Parameters\<close> stand for code that is not in the repository or that is data: \<open>ext\<close> (SHA-256 of
  the canonical JSON, JSON Schema, the registered event contracts, the environment), \<open>env\<close> (HTTP
  of a provider, and which headers and payloads its client can encode), \<open>im_env\<close> (HTTP of the vendor, the knowledge publication guard, the source fence,
  the text of a group status), \<open>thread_env\<close> (the guard again, the digest of a text, the settings). They are functions with arbitrary answers; a theorem that needs one
  to behave says so in a named hypothesis, and its witness gives a concrete function. The fuel of
  the regular-expression star is one more than the length of the subject, which is enough because
  every iteration consumes a character; the fuel of \<open>effective_turns\<close> is the 32 threads the code
  itself allows. All other recursion is structural or has a measure.

  \<^bold>\<open>Not modelled.\<close> The agent runtime around the language model (\<open>harness\<close>, \<open>model_gateway\<close>), whose
  behaviour is the model's; connectors, knowledge ingestion, code and data intelligence, which are
  clients of external systems and libraries; evaluation and release tooling; sandboxes (Kubernetes,
  git); authentication and cryptography; the services around workflows (their administration, the
  scheduler and the worker that runs the steps); the generic invocations of the capability gateway; inbound
  instant messaging; counters, traces and logs everywhere; response serialisation; HTTP routing;
  asyncio scheduling of the worker loops (a loop is the repetition of its transactions). The
  manifest lists every part with its reason.
\<close>

section \<open>Properties\<close>

definition closed_status :: "action_status \<Rightarrow> bool" where
  "closed_status st \<longleftrightarrow> st \<in> {Action_REJECTED, Action_EXPIRED, Action_CANCELLED, Action_ROLLED_BACK}"

lemma closed_case_stuck: "case_step c c' \<Longrightarrow> case_inv c \<Longrightarrow> \<not> closed_status (cf_status c)"
proof (induction rule: case_step.induct)
  case (decided ap c u t b st ap' reason)
  then show ?case using pending_waits [OF decided(8,1,2)] by (auto simp: closed_status_def status_defs)
next
  case (expired ap c t st ap')
  then show ?case using pending_waits [OF expired(6,1,2)] by (auto simp: closed_status_def status_defs)
qed (auto simp: closed_status_def status_defs split: if_splits)

lemma closed_case_final: "case_step\<^sup>*\<^sup>* c c' \<Longrightarrow> case_inv c \<Longrightarrow> closed_status (cf_status c) \<Longrightarrow> c' = c"
  by (induction rule: converse_rtranclp_induct) (auto dest: closed_case_stuck)

text \<open>
  C1: The action service and the worker implement the specification of governed actions:
  whatever transaction runs next, in whatever interleaving, each action's case changes only by
  steps of the specification, and a case that appears is a draft's. The specification
  \<open>case_step\<close> writes out, for each move, the statuses it starts from and the one it leads to, who may
  decide and until when, and what becomes of the approvals; it uses none of the guards of the code, so
  a guard of the code that lets more through is not a step of it. It is the diagram of
  \<open>docs/architecture/action-agent-design.md\<close> with the moves listed at \<open>case_step\<close> that the code
  makes beside it.
\<close>

theorem governed_actions_refine:
  assumes "system_reachable conc s" and "system_step s s'"
  shows "case_evolves (case_of aid (sy_db s)) (case_of aid (sy_db s'))"
  using system_step_evolves [OF assms(2)] system_reachable_inv [OF assms(1)]
  by (simp add: evolves_def system_inv_def)

theorem governed_actions_refine_witness:
  "case_evolves (case_of (ar_id demo_action) (sy_db demo_system)) (case_of (ar_id demo_action) drafted_db)"
  using governed_actions_refine [OF system_reachable.start [OF demo_initial] demo_step] by simp

text \<open>
  C6: Four eyes, at any moment and for every action: no decision is taken by the person who
  asked for it; the approvals carry the checksum of the action's sealed plan; at most one
  approval is open, and only while the action waits for that purpose; and an action that is
  approved, running, done, failed or being rolled back has an approved EXECUTE approval (and an
  approved ROLLBACK approval once a rollback was let through).
\<close>

theorem four_eyes_always:
  assumes "system_reachable conc s" and "a \<in> set (t_actions (sy_db s))"
  shows "let aps = filter (\<lambda>ap. aa_action_request_id ap = ar_id a) (t_action_approvals (sy_db s)) in
     (\<forall>ap \<in> set aps. (aa_status ap \<in> {Approval_APPROVED, Approval_REJECTED} \<longrightarrow>
          (\<exists>u. aa_decided_by ap = Some u \<and> u \<noteq> ar_requested_by a))
        \<and> ar_plan_checksum_sha256 a = Some (aa_plan_checksum_sha256 ap)
        \<and> (aa_status ap = Approval_PENDING \<longrightarrow> ar_status a = waiting_status (aa_purpose ap)))
     \<and> length (filter (\<lambda>ap. aa_status ap = Approval_PENDING) aps) \<le> 1
     \<and> (\<forall>purpose. ar_status a \<in> authorised_by purpose \<longrightarrow>
          (\<exists>ap \<in> set aps. aa_purpose ap = purpose \<and> aa_status ap = Approval_APPROVED))"
proof -
  let ?c = "file_of a (t_action_approvals (sy_db s))"
  have inv: "system_inv conc s" using system_reachable_inv [OF assms(1)] .
  then have "case_inv ?c"
    using case_of_mem [OF _ assms(2)] by (auto simp: system_inv_def cases_ok_def)
  moreover have "cf_approvals ?c = filter (\<lambda>ap. aa_action_request_id ap = ar_id a) (t_action_approvals (sy_db s))"
    by (simp add: file_of_def approvals_of_def)
  ultimately show ?thesis
    unfolding Let_def by (fastforce simp: case_inv_def file_of_def four_eyes_def)
qed

theorem four_eyes_always_witness:
  "\<exists>ap \<in> set (t_action_approvals (decided_db True)). aa_purpose ap = Purpose_EXECUTE
     \<and> aa_status ap = Approval_APPROVED \<and> (\<exists>u. aa_decided_by ap = Some u \<and> u \<noteq> 7)"
proof -
  obtain b where b: "request_part b = request_part demo_action" "ar_status b = Action_APPROVED"
      "t_actions (decided_db True) = [b]"
    using decided [of True] by (auto simp: decided_status_def dest!: business_tables(21))
  have who: "ar_requested_by b = 7" using request_part_fields(3) [OF b(1)] by (simp add: demo_action_fields)
  have mem: "b \<in> set (t_actions (sy_db (with_db (decided_db True) demo_system)))" using b(3) by simp
  have "ar_status b \<in> authorised_by Purpose_EXECUTE" using b(2) by (simp add: authorised_by_def)
  then obtain ap where ap: "ap \<in> set (t_action_approvals (decided_db True))" "aa_action_request_id ap = ar_id b"
      "aa_purpose ap = Purpose_EXECUTE" "aa_status ap = Approval_APPROVED"
    using four_eyes_always [OF decided_reachable mem] unfolding Let_def by auto
  then have "\<exists>u. aa_decided_by ap = Some u \<and> u \<noteq> ar_requested_by b"
    using four_eyes_always [OF decided_reachable mem] unfolding Let_def by auto
  then show ?thesis using ap who by auto
qed

text \<open>
  C2: Nothing reaches a provider without an approval by somebody else. Every request ever
  posted, by any worker, in any interleaving, after any failures, belongs to an action and an
  approval of the store that is APPROVED and was decided by a person other than the requester;
  it names that action and the approved plan's checksum, and carries the idempotency key of
  that action and purpose, so a provider that honours the key acts at most once per purpose.
\<close>

theorem every_post_was_approved:
  assumes "system_reachable conc s"
  shows "\<forall>po \<in> set (w_posts (sy_world s)).
     \<exists>ap \<in> set (t_action_approvals (sy_db s)). \<exists>a \<in> set (t_actions (sy_db s)). \<exists>u.
       ar_id a = aa_action_request_id ap \<and> aa_status ap = Approval_APPROVED
       \<and> aa_decided_by ap = Some u \<and> u \<noteq> ar_requested_by a
       \<and> ar_plan_checksum_sha256 a = Some (aa_plan_checksum_sha256 ap)
       \<and> (''Idempotency-Key'', attempt_key (ar_id a) (aa_purpose ap)) \<in> set (po_headers po)
       \<and> map_of (po_payload po) ''purpose'' = Some (JStr (action_approval_purpose_value (aa_purpose ap)))
       \<and> map_of (po_payload po) ''obsion'' =
           Some (JObj [(''action_request_id'', JStr (uuid_str (ar_id a))),
                       (''plan_checksum_sha256'', JStr (aa_plan_checksum_sha256 ap))])"
proof
  fix po assume po: "po \<in> set (w_posts (sy_world s))"
  have inv: "system_inv conc s" using system_reachable_inv [OF assms] .
  then obtain ap where ap: "ap \<in> set (t_action_approvals (sy_db s))" "post_of_approval ap po"
    using po by (auto simp: system_inv_def approved_post_def)
  obtain a where a: "a \<in> set (t_actions (sy_db s))" "ar_id a = aa_action_request_id ap"
      "case_of (ar_id a) (sy_db s) = Some (file_of a (t_action_approvals (sy_db s)))"
      "ap \<in> set (cf_approvals (file_of a (t_action_approvals (sy_db s))))"
    using approval_case [OF _ ap(1)] inv by (metis system_inv_def)
  have "case_inv (file_of a (t_action_approvals (sy_db s)))"
    using inv a(3) by (simp add: system_inv_def cases_ok_def)
  then have row: "four_eyes ap" "aa_requested_by ap = ar_requested_by a"
      "ar_plan_checksum_sha256 a = Some (aa_plan_checksum_sha256 ap)"
    using a(4) by (auto simp: case_inv_def file_of_def)
  then obtain u where u: "aa_decided_by ap = Some u" "u \<noteq> ar_requested_by a"
    using ap(2) by (auto simp: four_eyes_def post_of_approval_def)
  show "\<exists>ap \<in> set (t_action_approvals (sy_db s)). \<exists>a \<in> set (t_actions (sy_db s)). \<exists>u.
       ar_id a = aa_action_request_id ap \<and> aa_status ap = Approval_APPROVED
       \<and> aa_decided_by ap = Some u \<and> u \<noteq> ar_requested_by a
       \<and> ar_plan_checksum_sha256 a = Some (aa_plan_checksum_sha256 ap)
       \<and> (''Idempotency-Key'', attempt_key (ar_id a) (aa_purpose ap)) \<in> set (po_headers po)
       \<and> map_of (po_payload po) ''purpose'' = Some (JStr (action_approval_purpose_value (aa_purpose ap)))
       \<and> map_of (po_payload po) ''obsion'' =
           Some (JObj [(''action_request_id'', JStr (uuid_str (ar_id a))),
                       (''plan_checksum_sha256'', JStr (aa_plan_checksum_sha256 ap))])"
    using ap a row u by (intro bexI [of _ ap] bexI [of _ a] exI [of _ u]) (simp_all add: post_of_approval_def)
qed

theorem every_post_was_approved_witness:
  "\<exists>po. w_posts posted_world = [po] \<and> (\<exists>ap \<in> set (t_action_approvals (w_db posted_world)).
     aa_status ap = Approval_APPROVED
     \<and> (''Idempotency-Key'', attempt_key (aa_action_request_id ap) (aa_purpose ap)) \<in> set (po_headers po))"
proof -
  obtain s where "system_reachable (\<lambda>_. 2) s" "sy_world s = posted_world" using posted_reachable by blast
  moreover obtain po where "w_posts posted_world = [po]" using demo_posts by (auto simp: posted_world_def)
  ultimately show ?thesis using every_post_was_approved [of "\<lambda>_. 2" s] by (auto simp: sy_db_def)
qed

text \<open>
  C7: A decision is final: an approval that is no longer pending stays in the store exactly
  as it is, through every later transaction.
\<close>

theorem settled_approvals_are_final:
  assumes "system_reachable conc s" and "system_step\<^sup>*\<^sup>* s s'"
    and "ap \<in> set (t_action_approvals (sy_db s))" and "aa_status ap \<noteq> Approval_PENDING"
  shows "ap \<in> set (t_action_approvals (sy_db s'))"
  using evolves_settled [OF system_steps_evolve [OF assms(2)] _ _ assms(3,4)] system_reachable_inv [OF assms(1)]
  by (simp add: system_inv_def)

theorem settled_approvals_are_final_witness:
  "\<exists>ap \<in> set (t_action_approvals (sy_db demo_claimed)). aa_status ap = Approval_APPROVED"
proof -
  obtain ap where "aa_status ap = Approval_APPROVED" "ap \<in> set (t_action_approvals (decided_db True))"
    using decided [of True] by (auto dest!: business_tables(23))
  then show ?thesis
    using settled_approvals_are_final [OF decided_reachable r_into_rtranclp [where r = system_step, OF claimed_step]] by force
qed

text \<open>
  C8: Rejected, expired, cancelled and rolled-back actions are closed for good: neither a
  request nor a worker changes their status, their plan checksum or any of their approvals.
\<close>

theorem closed_actions_stay_closed:
  assumes "system_reachable conc s" and "system_step\<^sup>*\<^sup>* s s'"
    and "case_of aid (sy_db s) = Some c" and "closed_status (cf_status c)"
  shows "case_of aid (sy_db s') = Some c"
proof -
  have inv: "system_inv conc s" using system_reachable_inv [OF assms(1)] .
  then have "case_evolves (Some c) (case_of aid (sy_db s'))"
    using system_steps_evolve [OF assms(2)] assms(3) by (metis evolves_def system_inv_def)
  then obtain c' where "case_of aid (sy_db s') = Some c'" "case_step\<^sup>*\<^sup>* c c'"
    by (auto simp: case_evolves_def)
  then show ?thesis
    using closed_case_final [OF _ _ assms(4)] inv assms(3) by (auto simp: system_inv_def cases_ok_def)
qed

theorem closed_actions_stay_closed_witness:
  "\<exists>c. cf_status c = Action_REJECTED \<and> case_of (ar_id demo_action)
     (serve demo_ext noon (Decide approver (next_id drafted_db + 1) True ''ok'') (decided_db False)) = Some c"
proof -
  obtain b where b: "request_part b = request_part demo_action" "ar_status b = Action_REJECTED"
      "t_actions (decided_db False) = [b]"
    using decided [of False] by (auto simp: decided_status_def dest!: business_tables(21))
  define c where "c = file_of b (t_action_approvals (decided_db False))"
  have c: "case_of (ar_id demo_action) (decided_db False) = Some c" "cf_status c = Action_REJECTED"
    using b request_part_fields(1) [OF b(1)] by (simp_all add: case_of_def c_def file_of_def)
  have "closed_status (cf_status c)" using c(2) by (simp add: closed_status_def)
  then have "case_of (ar_id demo_action) (sy_db (with_db (serve demo_ext noon
      (Decide approver (next_id drafted_db + 1) True ''ok'') (decided_db False)) demo_system)) = Some c"
    using closed_actions_stay_closed [OF decided_reachable r_into_rtranclp [where r = system_step, OF served_step]]
      c(1) by (metis sy_db_with_db(1))
  then show ?thesis using c(2) by auto
qed

end
